(* ===== verification/Prelude.thy ===== *)
theory Prelude
  imports Main "HOL-Library.AList" "HOL-Library.Sublist"
begin

text \<open>
  Shared vocabulary of the development: the parts of the JavaScript standard library that the
  modelled sources use (string trimming, searching, slicing and splitting, insertion-ordered
  \<^verbatim>\<open>Map\<close> objects, bounded logs kept with \<^verbatim>\<open>push\<close>/\<^verbatim>\<open>shift\<close>), with the lemmas the component
  theories build on.

  A JavaScript string is a HOL \<^typ>\<open>string\<close>: a list of code units, here limited to the 256 values
  of \<^typ>\<open>char\<close>. String lengths and indices are those of JavaScript on that range. A number that is
  always a whole number is a \<^typ>\<open>nat\<close> or an \<^typ>\<open>int\<close>; \<^verbatim>\<open>undefined\<close> is \<^const>\<open>None\<close>.
\<close>

named_theorems js_defs \<open>unfoldings of the library functions, for evaluating closed terms\<close>
named_theorems js_str \<open>facts about the string functions\<close>
named_theorems js_map \<open>facts about insertion-ordered maps\<close>

section \<open>Strings\<close>

subsection \<open>Characters\<close>

abbreviation LF :: char where
  "LF \<equiv> CHR 0x0A"

abbreviation CR :: char where
  "CR \<equiv> CHR 0x0D"

text \<open>
  White space as \<^verbatim>\<open>String.prototype.trim\<close> and the \<^verbatim>\<open>\s\<close> class see it: TAB, LF, VT, FF, CR, the space
  and the no-break space (the other members of the class lie above code unit 255).
\<close>

definition is_ws :: "char \<Rightarrow> bool" where
  "is_ws c \<longleftrightarrow> c \<in> {CHR 0x09, CHR 0x0A, CHR 0x0B, CHR 0x0C, CHR 0x0D, CHR 0x20, CHR 0xA0}"

text \<open>The \<^verbatim>\<open>\w\<close> class: ASCII letters, digits and the underscore.\<close>

definition is_word_char :: "char \<Rightarrow> bool" where
  "is_word_char c \<longleftrightarrow>
     (let n = (of_char c :: nat)
      in (48 \<le> n \<and> n \<le> 57) \<or> (65 \<le> n \<and> n \<le> 90) \<or> (97 \<le> n \<and> n \<le> 122) \<or> n = 95)"

definition is_digit_char :: "char \<Rightarrow> bool" where
  "is_digit_char c \<longleftrightarrow> (let n = (of_char c :: nat) in 48 \<le> n \<and> n \<le> 57)"

text \<open>\<^verbatim>\<open>toLowerCase\<close> on the ASCII letters (the modelled callers lower-case identifiers only).\<close>

definition lower_char :: "char \<Rightarrow> char" where
  "lower_char c =
     (let n = (of_char c :: nat) in if 65 \<le> n \<and> n \<le> 90 then char_of (n + 32) else c)"

definition toLowerCase :: "string \<Rightarrow> string" where
  "toLowerCase = map lower_char"

subsection \<open>Trimming\<close>

definition trimStart :: "string \<Rightarrow> string" where
  "trimStart s = dropWhile is_ws s"

definition trimEnd :: "string \<Rightarrow> string" where
  "trimEnd s = rev (dropWhile is_ws (rev s))"

definition trim :: "string \<Rightarrow> string" where
  "trim s = trimEnd (trimStart s)"

text \<open>A string that a condition takes for true, and the function of \<^verbatim>\<open>textUtils\<close> that drops a blank one.\<close>

definition truthy :: "string option \<Rightarrow> bool" where
  "truthy v \<longleftrightarrow> v \<noteq> None \<and> v \<noteq> Some []"

definition undefinedIfEmpty :: "string option \<Rightarrow> string option" where
  "undefinedIfEmpty v = (case v of None \<Rightarrow> None | Some s \<Rightarrow> if length (trim s) > 0 then Some s else None)"

text \<open>A string of white space only; \<^verbatim>\<open>s.trim() === ''\<close> and \<^verbatim>\<open>s.trim().length === 0\<close> decide it.\<close>

abbreviation blank :: "string \<Rightarrow> bool" where
  "blank s \<equiv> list_all is_ws s"

lemma trimEnd_Nil_iff [simp]: "trimEnd s = [] \<longleftrightarrow> blank s"
  by (auto simp: trimEnd_def list_all_iff dropWhile_eq_Nil_conv)

lemma trimStart_Nil_iff [simp]: "trimStart s = [] \<longleftrightarrow> blank s"
  by (auto simp: trimStart_def list_all_iff dropWhile_eq_Nil_conv)

lemma blank_dropWhile_ws [simp]: "blank (dropWhile is_ws s) \<longleftrightarrow> blank s"
  by (induction s) auto

lemma trim_Nil_iff [simp]: "trim s = [] \<longleftrightarrow> blank s"
  by (simp add: trim_def trimStart_def)

lemma trimEnd_decomp: "\<exists>w. blank w \<and> s = trimEnd s @ w"
proof -
  have "rev s = takeWhile is_ws (rev s) @ dropWhile is_ws (rev s)"
    by simp
  then have "s = trimEnd s @ rev (takeWhile is_ws (rev s))"
    by (metis rev_append rev_rev_ident trimEnd_def)
  moreover have "blank (rev (takeWhile is_ws (rev s)))"
    by (auto simp: list_all_iff dest: set_takeWhileD)
  ultimately show ?thesis by blast
qed

lemma trimStart_decomp: "\<exists>w. blank w \<and> s = w @ trimStart s"
proof -
  have "s = takeWhile is_ws s @ trimStart s" by (simp add: trimStart_def)
  moreover have "blank (takeWhile is_ws s)"
    by (auto simp: list_all_iff dest: set_takeWhileD)
  ultimately show ?thesis by blast
qed

lemma trim_decomp: "\<exists>u w. blank u \<and> blank w \<and> s = u @ trim s @ w"
proof -
  obtain u where "blank u" and "s = u @ trimStart s"
    using trimStart_decomp by blast
  moreover obtain w where "blank w" and "trimStart s = trimEnd (trimStart s) @ w"
    using trimEnd_decomp by blast
  ultimately show ?thesis by (metis trim_def)
qed

lemma trimEnd_prefix: "prefix (trimEnd s) s"
  using trimEnd_decomp [of s] by (metis prefixI)

lemma length_trimEnd_le: "length (trimEnd s) \<le> length s"
  using trimEnd_prefix prefix_length_le by blast

lemma length_trim_le: "length (trim s) \<le> length s"
proof -
  obtain u w where "s = u @ trim s @ w"
    using trim_decomp by blast
  then have "length s = length u + (length (trim s) + length w)"
    by (metis length_append)
  then show ?thesis by simp
qed

lemma trimEnd_no_trailing: "trimEnd s \<noteq> [] \<Longrightarrow> \<not> is_ws (last (trimEnd s))"
  by (simp add: trimEnd_def last_rev hd_dropWhile del: trimEnd_Nil_iff)

lemma trimEnd_id: "s = [] \<or> \<not> is_ws (last s) \<Longrightarrow> trimEnd s = s"
  by (cases s rule: rev_cases) (auto simp: trimEnd_def)

subsection \<open>Prefixes, suffixes, searching\<close>

definition startsWith :: "string \<Rightarrow> string \<Rightarrow> bool" where
  "startsWith s p \<longleftrightarrow> take (length p) s = p"

definition endsWith :: "string \<Rightarrow> string \<Rightarrow> bool" where
  "endsWith s p \<longleftrightarrow> length p \<le> length s \<and> drop (length s - length p) s = p"

lemma startsWith_prefix [js_str]: "startsWith s p \<longleftrightarrow> prefix p s"
  by (metis append_eq_conv_conj prefix_def startsWith_def)

lemma endsWith_suffix [js_str]: "endsWith s p \<longleftrightarrow> suffix p s"
proof
  assume "endsWith s p"
  then have "s = take (length s - length p) s @ p"
    unfolding endsWith_def by (metis append_take_drop_id)
  then show "suffix p s" by (metis suffixI)
next
  assume "suffix p s"
  then show "endsWith s p"
    unfolding endsWith_def by (auto simp: suffix_def)
qed

text \<open>\<^verbatim>\<open>s.includes(t)\<close> on strings.\<close>

fun includes_str :: "string \<Rightarrow> string \<Rightarrow> bool" where
  "includes_str [] t \<longleftrightarrow> t = []"
| "includes_str (c # s) t \<longleftrightarrow> startsWith (c # s) t \<or> includes_str s t"

lemma includes_str_sublist [js_str]: "includes_str s t \<longleftrightarrow> sublist t s"
  by (induction s) (auto simp: startsWith_prefix sublist_Cons_right)

text \<open>
  \<^verbatim>\<open>s.lastIndexOf(p)\<close>: the greatest index at which \<^verbatim>\<open>p\<close> occurs, \<^verbatim>\<open>-1\<close> when it does not; the empty
  pattern is found at the end.
\<close>

fun last_index_upto :: "string \<Rightarrow> string \<Rightarrow> nat \<Rightarrow> int" where
  "last_index_upto s p 0 = (if startsWith s p then 0 else -1)"
| "last_index_upto s p (Suc i) =
     (if startsWith (drop (Suc i) s) p then int (Suc i) else last_index_upto s p i)"

definition lastIndexOf :: "string \<Rightarrow> string \<Rightarrow> int" where
  "lastIndexOf s p = last_index_upto s p (length s)"

lemma last_index_upto_cases:
  "(last_index_upto s p n = -1 \<and> (\<forall>i\<le>n. \<not> startsWith (drop i s) p)) \<or>
   (\<exists>k\<le>n. last_index_upto s p n = int k \<and> startsWith (drop k s) p \<and>
      (\<forall>i\<le>n. k < i \<longrightarrow> \<not> startsWith (drop i s) p))"
proof (induction n)
  case 0
  then show ?case by simp
next
  case (Suc n)
  then show ?case by (cases "startsWith (drop (Suc n) s) p") (auto simp: le_Suc_eq)
qed

lemma lastIndexOf_found:
  assumes "lastIndexOf s p = int k"
  shows "\<exists>t. s = take k s @ p @ t" and "k \<le> length s"
proof -
  have k: "k \<le> length s" "startsWith (drop k s) p"
    using last_index_upto_cases [of s p "length s"] assms
    by (auto simp: lastIndexOf_def)
  then show "k \<le> length s" by simp
  from k obtain t where "drop k s = p @ t"
    by (auto simp: startsWith_prefix prefix_def)
  then show "\<exists>t. s = take k s @ p @ t"
    by (metis append_take_drop_id)
qed

lemma lastIndexOf_occurs:
  assumes "s = u @ p @ v"
  shows "int (length u) \<le> lastIndexOf s p"
proof -
  have le: "length u \<le> length s" and st: "startsWith (drop (length u) s) p"
    using assms by (auto simp: startsWith_def)
  from last_index_upto_cases [of s p "length s"] show ?thesis
  proof
    assume "last_index_upto s p (length s) = -1 \<and> (\<forall>i\<le>length s. \<not> startsWith (drop i s) p)"
    with le st show ?thesis by blast
  next
    assume "\<exists>k\<le>length s. last_index_upto s p (length s) = int k \<and> startsWith (drop k s) p \<and>
      (\<forall>i\<le>length s. k < i \<longrightarrow> \<not> startsWith (drop i s) p)"
    with le st show ?thesis by (force simp: lastIndexOf_def not_less)
  qed
qed

subsection \<open>Slicing\<close>

text \<open>\<^verbatim>\<open>s.slice(a, b)\<close>: a negative bound counts from the end; an inverted range is empty.\<close>

definition slice_bound :: "nat \<Rightarrow> int \<Rightarrow> nat" where
  "slice_bound n k = (if k < 0 then nat (max 0 (int n + k)) else min n (nat k))"

definition slice :: "'a list \<Rightarrow> int \<Rightarrow> int \<Rightarrow> 'a list" where
  "slice s a b =
     (let i = slice_bound (length s) a; j = slice_bound (length s) b in take (j - i) (drop i s))"

definition slice_from :: "'a list \<Rightarrow> int \<Rightarrow> 'a list" where
  "slice_from s a = drop (slice_bound (length s) a) s"

text \<open>
  \<^verbatim>\<open>s.substring(a, b)\<close>: both bounds are clamped to the string and swapped when they are inverted.
\<close>

definition clamp_index :: "nat \<Rightarrow> int \<Rightarrow> nat" where
  "clamp_index n k = min n (nat k)"

definition substring :: "string \<Rightarrow> int \<Rightarrow> int \<Rightarrow> string" where
  "substring s a b =
     (let i = clamp_index (length s) a; j = clamp_index (length s) b
      in take (max i j - min i j) (drop (min i j) s))"

definition substring_from :: "string \<Rightarrow> int \<Rightarrow> string" where
  "substring_from s a = drop (clamp_index (length s) a) s"

lemma slice_0_nat [simp]: "slice s 0 (int k) = take k s"
  by (simp add: slice_def slice_bound_def min_def)

lemma slice_from_neg [simp]: "0 < i \<Longrightarrow> i \<le> length s \<Longrightarrow> slice_from s (- int i) = drop (length s - i) s"
  by (simp add: slice_from_def slice_bound_def nat_diff_distrib)

lemma substring_from_nat [simp]: "substring_from s (int k) = drop k s"
  by (simp add: substring_from_def clamp_index_def min_def)

lemma substring_0_nat [simp]: "substring s 0 (int k) = take k s"
  by (simp add: substring_def clamp_index_def min_def)

subsection \<open>Replacing and splitting\<close>

text \<open>\<^verbatim>\<open>s.replaceAll('\r\n', '\n')\<close>, which is also \<^verbatim>\<open>s.replace(/\r\n/g, '\n')\<close>.\<close>

fun crlf_to_lf :: "string \<Rightarrow> string" where
  "crlf_to_lf [] = []"
| "crlf_to_lf [c] = [c]"
| "crlf_to_lf (c # d # s) =
     (if c = CR \<and> d = LF then LF # crlf_to_lf s else c # crlf_to_lf (d # s))"

lemma length_crlf_to_lf_le: "length (crlf_to_lf s) \<le> length s"
  by (induction s rule: crlf_to_lf.induct) auto

text \<open>\<^verbatim>\<open>s.split(c)\<close> for a one-character separator.\<close>

fun add_head :: "'a \<Rightarrow> 'a list list \<Rightarrow> 'a list list" where
  "add_head x [] = [[x]]"
| "add_head x (w # ws) = (x # w) # ws"

fun split_on :: "'a \<Rightarrow> 'a list \<Rightarrow> 'a list list" where
  "split_on c [] = [[]]"
| "split_on c (x # xs) = (if x = c then [] # split_on c xs else add_head x (split_on c xs))"

text \<open>\<^verbatim>\<open>s.split(/\r?\n/)\<close>.\<close>

fun split_eol :: "string \<Rightarrow> string list" where
  "split_eol [] = [[]]"
| "split_eol [c] = (if c = LF then [[], []] else [[c]])"
| "split_eol (c # d # s) =
     (if c = LF then [] # split_eol (d # s)
      else if c = CR \<and> d = LF then [] # split_eol s
      else add_head c (split_eol (d # s)))"

text \<open>\<^verbatim>\<open>s.split(/\s+/)\<close>.\<close>

function split_ws :: "string \<Rightarrow> string list" where
  "split_ws s =
     (let w = takeWhile (\<lambda>c. \<not> is_ws c) s; r = dropWhile (\<lambda>c. \<not> is_ws c) s
      in if r = [] then [w] else w # split_ws (dropWhile is_ws r))"
  by pat_completeness auto
termination
proof (relation "measure length")
  show "wf (measure length)" by simp
next
  fix s :: string and w r :: string
  assume r: "r = dropWhile (\<lambda>c. \<not> is_ws c) s" and ne: "r \<noteq> []"
  have "is_ws (hd r)" using r ne by (metis hd_dropWhile)
  with ne have "length (dropWhile is_ws r) < length r"
    by (cases r) (auto simp: le_imp_less_Suc length_dropWhile_le)
  also have "\<dots> \<le> length s" by (simp add: r length_dropWhile_le)
  finally show "(dropWhile is_ws r, s) \<in> measure length" by simp
qed

declare split_ws.simps [simp del]

text \<open>\<^verbatim>\<open>s.match(/\w+/g) || []\<close>: the maximal runs of word characters.\<close>

function word_runs :: "string \<Rightarrow> string list" where
  "word_runs s =
     (let r = dropWhile (\<lambda>c. \<not> is_word_char c) s
      in if r = [] then []
         else takeWhile is_word_char r # word_runs (dropWhile is_word_char r))"
  by pat_completeness auto
termination
proof (relation "measure length")
  show "wf (measure length)" by simp
next
  fix s r :: string
  assume r: "r = dropWhile (\<lambda>c. \<not> is_word_char c) s" and ne: "r \<noteq> []"
  have "is_word_char (hd r)" using r ne by (metis hd_dropWhile)
  with ne have "length (dropWhile is_word_char r) < length r"
    by (cases r) (auto simp: le_imp_less_Suc length_dropWhile_le)
  also have "\<dots> \<le> length s" by (simp add: r length_dropWhile_le)
  finally show "(dropWhile is_word_char r, s) \<in> measure length" by simp
qed

declare word_runs.simps [simp del]

text \<open>\<^verbatim>\<open>xs.join(sep)\<close>.\<close>

fun join_with :: "'a list \<Rightarrow> 'a list list \<Rightarrow> 'a list" where
  "join_with sep [] = []"
| "join_with sep [w] = w"
| "join_with sep (w # v # ws) = w @ sep @ join_with sep (v # ws)"

lemma split_on_ne [simp]: "split_on c s \<noteq> []"
  by (induction s) (auto elim: add_head.elims)

lemma split_eol_ne [simp]: "split_eol s \<noteq> []"
  by (induction s rule: split_eol.induct) (auto elim: add_head.elims)

lemma split_ws_ne [simp]: "split_ws s \<noteq> []"
  by (subst split_ws.simps) (simp add: Let_def)

lemma length_add_head [simp]: "ws \<noteq> [] \<Longrightarrow> length (add_head x ws) = length ws"
  by (cases ws) auto

lemma length_split_on: "length (split_on c s) = Suc (count_list s c)"
  by (induction s) auto

lemma join_with_add_head: "ws \<noteq> [] \<Longrightarrow> join_with sep (add_head x ws) = x # join_with sep ws"
  by (cases ws; cases "tl ws") auto

lemma join_with_Cons: "ws \<noteq> [] \<Longrightarrow> join_with sep (w # ws) = w @ sep @ join_with sep ws"
  by (cases ws) auto

lemma join_split_on [js_str]: "join_with [c] (split_on c s) = s"
  by (induction s) (auto simp: join_with_add_head join_with_Cons)

lemma split_on_no_sep: "c \<notin> set w \<Longrightarrow> split_on c w = [w]"
  by (induction w) auto

lemma split_on_append_sep: "c \<notin> set w \<Longrightarrow> split_on c (w @ c # s) = w # split_on c s"
  by (induction w) auto

lemma split_on_join [js_str]:
  assumes "ws \<noteq> []" and "\<forall>w\<in>set ws. c \<notin> set w"
  shows "split_on c (join_with [c] ws) = ws"
  using assms
proof (induction ws)
  case Nil
  then show ?case by simp
next
  case (Cons w ws)
  then show ?case
    by (cases ws) (auto simp: split_on_no_sep split_on_append_sep)
qed

lemma split_on_parts: "w \<in> set (split_on c s) \<Longrightarrow> c \<notin> set w"
proof (induction s arbitrary: w)
  case Nil
  then show ?case by simp
next
  case (Cons x xs)
  then show ?case
    by (cases "split_on c xs") (auto split: if_splits)
qed

lemma length_join_with_snoc:
  "ws \<noteq> [] \<Longrightarrow> length (join_with sep (ws @ [w])) = length (join_with sep ws) + length sep + length w"
proof (induction ws)
  case Nil
  then show ?case by simp
next
  case (Cons v ws)
  then show ?case by (cases ws) (auto simp: join_with_Cons)
qed

lemma last_split_on: "c \<notin> set v \<Longrightarrow> last (split_on c (u @ c # v)) = v"
proof (induction u)
  case Nil
  then show ?case by (simp add: split_on_no_sep)
next
  case (Cons x u)
  then show ?case
    by (cases "split_on c (u @ c # v)"; cases "tl (split_on c (u @ c # v))")
      (auto simp: length_split_on dest: arg_cong [where f = length])
qed

lemma split_eol_crlf: "split_eol s = split_on LF (crlf_to_lf s)"
  by (induction s rule: split_eol.induct) auto

text \<open>\<^verbatim>\<open>String(n)\<close> for whole numbers.\<close>

fun show_nat :: "nat \<Rightarrow> string" where
  "show_nat n =
     (if n < 10 then [char_of (48 + n)] else show_nat (n div 10) @ [char_of (48 + n mod 10)])"

declare show_nat.simps [simp del]

definition show_int :: "int \<Rightarrow> string" where
  "show_int i = (if i < 0 then CHR ''-'' # show_nat (nat (- i)) else show_nat (nat i))"

text \<open>\<^verbatim>\<open>xs.findIndex(p)\<close>: \<^verbatim>\<open>-1\<close> when no element satisfies the predicate.\<close>

definition findIndex :: "('a \<Rightarrow> bool) \<Rightarrow> 'a list \<Rightarrow> int" where
  "findIndex P xs =
     (if list_ex P xs then int (length (takeWhile (\<lambda>x. \<not> P x) xs)) else -1)"

lemma findIndex_none [simp]: "findIndex P xs = -1 \<longleftrightarrow> (\<forall>x\<in>set xs. \<not> P x)"
  by (auto simp: findIndex_def list_ex_iff)

text \<open>
  The properties every plain object inherits from \<^verbatim>\<open>Object.prototype\<close>: a lookup of one of these names
  finds a function or an object.
\<close>

definition prototype_keys :: "string list" where
  "prototype_keys =
     [''constructor'', ''toString'', ''valueOf'', ''hasOwnProperty'', ''isPrototypeOf'',
      ''propertyIsEnumerable'', ''toLocaleString'', ''__proto__'', ''__defineGetter__'',
      ''__defineSetter__'', ''__lookupGetter__'', ''__lookupSetter__'']"

section \<open>Insertion-ordered maps\<close>

text \<open>
  A \<^verbatim>\<open>Map\<close> (or a plain object used as a dictionary) is an association list in insertion order:
  \<^verbatim>\<open>set\<close> overwrites in place or appends, \<^verbatim>\<open>delete\<close> removes. The interface the components rely on is
  the locale below; \<^const>\<open>AList.update\<close> and \<^const>\<open>AList.delete\<close> provide it.
\<close>

definition map_set :: "'k \<Rightarrow> 'v \<Rightarrow> ('k \<times> 'v) list \<Rightarrow> ('k \<times> 'v) list" where
  "map_set k v m = AList.update k v m"

definition map_get :: "('k \<times> 'v) list \<Rightarrow> 'k \<Rightarrow> 'v option" where
  "map_get m k = map_of m k"

definition map_has :: "('k \<times> 'v) list \<Rightarrow> 'k \<Rightarrow> bool" where
  "map_has m k \<longleftrightarrow> k \<in> set (map fst m)"

definition map_del :: "'k \<Rightarrow> ('k \<times> 'v) list \<Rightarrow> ('k \<times> 'v) list" where
  "map_del k m = AList.delete k m"

definition map_wf :: "('k \<times> 'v) list \<Rightarrow> bool" where
  "map_wf m \<longleftrightarrow> distinct (map fst m)"

lemmas map_ops_defs = map_set_def map_get_def map_has_def map_del_def map_wf_def

locale ordered_map =
  fixes get :: "'m \<Rightarrow> 'k \<Rightarrow> 'v option"
    and has :: "'m \<Rightarrow> 'k \<Rightarrow> bool"
    and put :: "'k \<Rightarrow> 'v \<Rightarrow> 'm \<Rightarrow> 'm"
    and del :: "'k \<Rightarrow> 'm \<Rightarrow> 'm"
    and keys :: "'m \<Rightarrow> 'k list"
    and wf :: "'m \<Rightarrow> bool"
  assumes get_put: "get (put k v m) = (get m)(k \<mapsto> v)"
    and get_del: "get (del k m) = (get m)(k := None)"
    and has_iff: "has m k \<longleftrightarrow> get m k \<noteq> None"
    and keys_put: "keys (put k v m) = (if has m k then keys m else keys m @ [k])"
    and keys_del: "keys (del k m) = filter (\<lambda>j. j \<noteq> k) (keys m)"
    and set_keys: "set (keys m) = {k. get m k \<noteq> None}"
    and wf_keys: "wf m \<longleftrightarrow> distinct (keys m)"
begin

lemma wf_put: "wf m \<Longrightarrow> wf (put k v m)"
  by (auto simp: wf_keys keys_put set_keys has_iff)

lemma wf_del: "wf m \<Longrightarrow> wf (del k m)"
  by (simp add: wf_keys keys_del)

lemma get_put_same [simp]: "get (put k v m) k = Some v"
  by (simp add: get_put)

lemma get_put_other [simp]: "j \<noteq> k \<Longrightarrow> get (put k v m) j = get m j"
  by (simp add: get_put)

text \<open>A loop that stores a value under each key of a list.\<close>

lemma get_fold_put:
  "get (fold (\<lambda>k. put k v) ks m) j = (if j \<in> set ks then Some v else get m j)"
  by (induction ks arbitrary: m) (auto simp: get_put)

text \<open>The same loop restricted to the keys that are not there yet.\<close>

lemma get_fold_put_absent:
  "get (fold (\<lambda>k m. if has m k then m else put k v m) ks m) j =
     (if get m j = None \<and> j \<in> set ks then Some v else get m j)"
  by (induction ks arbitrary: m) (auto simp: get_put has_iff)

lemma wf_fold_put: "wf m \<Longrightarrow> wf (fold (\<lambda>k. put k v) ks m)"
  by (induction ks arbitrary: m) (auto intro: wf_put)

lemma wf_fold_put_absent:
  "wf m \<Longrightarrow> wf (fold (\<lambda>k m. if has m k then m else put k v m) ks m)"
  by (induction ks arbitrary: m) (auto intro: wf_put)

end

lemma map_fst_update: "map fst (AList.update k v m) = (if k \<in> set (map fst m) then map fst m else map fst m @ [k])"
  by (induction m) auto

lemma map_fst_delete: "map fst (AList.delete k m) = filter (\<lambda>j. j \<noteq> k) (map fst m)"
  by (induction m) auto

interpretation jsmap: ordered_map map_get map_has map_set map_del "map fst" map_wf
proof unfold_locales
  show "map_get (map_set k v m) = (map_get m)(k \<mapsto> v)" for k :: 'a and v :: 'b and m
    by (simp add: map_ops_defs update_conv' fun_eq_iff)
  show "map_get (map_del k m) = (map_get m)(k := None)" for k :: 'a and m :: "('a \<times> 'b) list"
    by (simp add: map_ops_defs delete_conv' fun_eq_iff)
  show "map_has m k \<longleftrightarrow> map_get m k \<noteq> None" for k :: 'a and m :: "('a \<times> 'b) list"
    by (auto simp: map_ops_defs map_of_eq_None_iff)
  show "map fst (map_set k v m) = (if map_has m k then map fst m else map fst m @ [k])"
    for k :: 'a and v :: 'b and m
    by (simp add: map_ops_defs map_fst_update)
  show "map fst (map_del k m) = filter (\<lambda>j. j \<noteq> k) (map fst m)" for k :: 'a and m :: "('a \<times> 'b) list"
    by (simp add: map_ops_defs map_fst_delete)
  show "set (map fst m) = {k. map_get m k \<noteq> None}" for m :: "('a \<times> 'b) list"
    by (auto simp: map_ops_defs map_of_eq_None_iff)
  show "map_wf m \<longleftrightarrow> distinct (map fst m)" for m :: "('a \<times> 'b) list"
    by (simp add: map_ops_defs)
qed

lemmas map_laws [js_map] = jsmap.get_put jsmap.get_del jsmap.has_iff jsmap.wf_put jsmap.wf_del

lemma map_get_Nil [simp]: "map_get [] k = None"
  by (simp add: map_get_def)

lemma map_has_Nil [simp]: "\<not> map_has [] k"
  by (simp add: map_has_def)

lemma map_wf_Nil [simp]: "map_wf []"
  by (simp add: map_wf_def)

lemma map_set_same: "map_get m f = Some r \<Longrightarrow> map_set f r m = m"
  by (simp add: map_get_def map_set_def update_triv)

lemma map_set_new: "map_get m f = None \<Longrightarrow> map_set f r m = m @ [(f, r)]"
  by (induction m) (auto simp: map_get_def map_set_def split: if_splits)

lemma map_set_values:
  "snd ` set (map_set k v m) \<subseteq> insert v (snd ` set m)"
  by (induction m) (auto simp: map_set_def)

section \<open>Bounded logs\<close>

lemma find_SomeD: "List.find P xs = Some x \<Longrightarrow> x \<in> set xs \<and> P x"
  by (auto simp: find_Some_iff)

lemma find_image_None: "List.find (\<lambda>x. f x = i) xs = None \<longleftrightarrow> i \<notin> set (map f xs)"
  by (auto simp: find_None_iff)

lemma in_set_tl: "x \<in> set (tl xs) \<Longrightarrow> x \<in> set xs"
  by (cases xs) auto

text \<open>
  Several components keep a list of the most recent entries only: they add at one end and drop at
  the other when a limit is passed. The contract: adding keeps the bound, the new entry is always
  kept, and what else is kept is a contiguous run of the newest old entries.
\<close>

locale bounded_log =
  fixes add :: "'a \<Rightarrow> 'l \<Rightarrow> 'l"
    and entries :: "'l \<Rightarrow> 'a list" \<comment> \<open>newest first\<close>
    and bound :: nat
  assumes entries_add: "length (entries l) \<le> bound \<Longrightarrow> entries (add x l) = take bound (x # entries l)"
    and bound_pos: "0 < bound"
begin

lemma bound_add: "length (entries l) \<le> bound \<Longrightarrow> length (entries (add x l)) \<le> bound"
  by (simp add: entries_add)

lemma newest_add: "length (entries l) \<le> bound \<Longrightarrow> hd (entries (add x l)) = x \<and> entries (add x l) \<noteq> []"
  using bound_pos by (cases bound) (auto simp: entries_add)

lemma bound_fold: "length (entries l) \<le> bound \<Longrightarrow> length (entries (fold add xs l)) \<le> bound"
  by (induction xs arbitrary: l) (auto simp: bound_add)

text \<open>After any number of additions the log holds exactly the newest entries ever added.\<close>

lemma entries_fold:
  "length (entries l) \<le> bound \<Longrightarrow> entries (fold add xs l) = take bound (rev xs @ entries l)"
proof (induction xs arbitrary: l)
  case Nil
  then show ?case by simp
next
  case (Cons x xs)
  then have "entries (fold add xs (add x l)) = take bound (rev xs @ take bound (x # entries l))"
    by (metis bound_add entries_add)
  also have "\<dots> = take bound (rev xs @ x # entries l)"
    by (simp add: take_append min_def)
  finally show ?case by simp
qed

end

section \<open>Dynamic-programming tables\<close>

text \<open>
  The sources fill a two-dimensional array with the loop
  \<^verbatim>\<open>for (i = 1; i <= m; i++) for (j = 1; j <= n; j++) dp[i][j] = ...\<close>, where a cell reads its left, upper and
  upper-left neighbours. The locale states that contract once and proves what the loop computes.
\<close>

definition set_cell :: "nat \<Rightarrow> nat \<Rightarrow> 'a \<Rightarrow> 'a list list \<Rightarrow> 'a list list" where
  "set_cell i j v dp = dp[i := (dp ! i)[j := v]]"

definition nested_for :: "nat \<Rightarrow> nat \<Rightarrow> (nat \<Rightarrow> nat \<Rightarrow> 'd \<Rightarrow> 'd) \<Rightarrow> 'd \<Rightarrow> 'd" where
  "nested_for m n body dp = fold (\<lambda>i. fold (body i) [1..<Suc n]) [1..<Suc m] dp"

definition dims :: "nat \<Rightarrow> nat \<Rightarrow> 'a list list \<Rightarrow> bool" where
  "dims m n dp \<longleftrightarrow> length dp = Suc m \<and> (\<forall>row\<in>set dp. length row = Suc n)"

lemma dims_row: "dims m n dp \<Longrightarrow> i \<le> m \<Longrightarrow> length (dp ! i) = Suc n"
  by (auto simp: dims_def)

lemma dims_set_cell: "dims m n dp \<Longrightarrow> i \<le> m \<Longrightarrow> dims m n (set_cell i j v dp)"
  by (auto simp: dims_def set_cell_def dest!: set_update_subset_insert [THEN subsetD])

lemma nth_set_cell:
  "dims m n dp \<Longrightarrow> i \<le> m \<Longrightarrow> j \<le> n \<Longrightarrow>
   set_cell i j v dp ! a ! b = (if a = i \<and> b = j then v else dp ! a ! b)"
  by (cases "a < length dp")
    (auto simp: set_cell_def dims_def nth_list_update list_update_beyond)

locale table_recurrence =
  fixes cell :: "nat \<Rightarrow> nat \<Rightarrow> 'a list list \<Rightarrow> 'a"
    and val :: "nat \<Rightarrow> nat \<Rightarrow> 'a"
    and m n :: nat
  assumes cell_val: "1 \<le> i \<Longrightarrow> i \<le> m \<Longrightarrow> 1 \<le> j \<Longrightarrow> j \<le> n \<Longrightarrow> dims m n dp \<Longrightarrow>
      dp ! (i - 1) ! (j - 1) = val (i - 1) (j - 1) \<Longrightarrow> dp ! (i - 1) ! j = val (i - 1) j \<Longrightarrow>
      dp ! i ! (j - 1) = val i (j - 1) \<Longrightarrow> cell i j dp = val i j"
begin

definition filled :: "nat \<Rightarrow> nat \<Rightarrow> 'a list list \<Rightarrow> bool" where
  "filled r c dp \<longleftrightarrow> dims m n dp \<and>
     (\<forall>a\<le>m. \<forall>b\<le>n. (a < r \<or> a = r \<and> b \<le> c \<or> b = 0) \<longrightarrow> dp ! a ! b = val a b)"

lemma filled_step:
  assumes f: "filled i j dp" and ij: "1 \<le> i" "i \<le> m" "j < n"
  shows "filled i (Suc j) (set_cell i (Suc j) (cell i (Suc j) dp) dp)"
proof -
  have d: "dims m n dp" using f by (simp add: filled_def)
  have "dp ! (i - 1) ! j = val (i - 1) j" "dp ! (i - 1) ! Suc j = val (i - 1) (Suc j)"
    "dp ! i ! j = val i j"
    using f ij by (auto simp: filled_def)
  then have "cell i (Suc j) dp = val i (Suc j)"
    using cell_val [of i "Suc j" dp] ij d by simp
  with f ij d show ?thesis
    by (auto simp: filled_def nth_set_cell dims_set_cell le_Suc_eq)
qed

lemma filled_row:
  assumes "filled i 0 dp" "1 \<le> i" "i \<le> m" "k \<le> n"
  shows "filled i k (fold (\<lambda>j dp. set_cell i j (cell i j dp) dp) [1..<Suc k] dp)"
  using assms by (induction k) (auto intro: filled_step)

lemma filled_next_row: "filled i n dp \<Longrightarrow> filled (Suc i) 0 dp"
  by (auto simp: filled_def less_Suc_eq_le le_less)

lemma filled_rows:
  assumes "filled 1 0 dp" "k \<le> m"
  shows "filled (Suc k) 0 (fold (\<lambda>i. fold (\<lambda>j dp. set_cell i j (cell i j dp) dp) [1..<Suc n]) [1..<Suc k] dp)"
  using assms(2)
proof (induction k)
  case 0
  then show ?case using assms(1) by simp
next
  case (Suc k)
  let ?dp = "fold (\<lambda>i. fold (\<lambda>j dp. set_cell i j (cell i j dp) dp) [1..<Suc n]) [1..<Suc k] dp"
  have "filled (Suc k) n (fold (\<lambda>j dp. set_cell (Suc k) j (cell (Suc k) j dp) dp) [1..<Suc n] ?dp)"
    using Suc by (intro filled_row) auto
  then have "filled (Suc (Suc k)) 0 (fold (\<lambda>j dp. set_cell (Suc k) j (cell (Suc k) j dp) dp) [1..<Suc n] ?dp)"
    by (rule filled_next_row)
  then show ?case by (simp add: upt_Suc_append del: upt_Suc)
qed

lemma table_correct:
  assumes "dims m n dp" "\<And>b. b \<le> n \<Longrightarrow> dp ! 0 ! b = val 0 b" "\<And>a. a \<le> m \<Longrightarrow> dp ! a ! 0 = val a 0"
    and "a \<le> m" "b \<le> n"
  shows "nested_for m n (\<lambda>i j dp. set_cell i j (cell i j dp) dp) dp ! a ! b = val a b"
proof -
  have "filled 1 0 dp" using assms(1-3) by (auto simp: filled_def)
  then have "filled (Suc m) 0 (nested_for m n (\<lambda>i j dp. set_cell i j (cell i j dp) dp) dp)"
    unfolding nested_for_def by (rule filled_rows) simp
  then show ?thesis using assms(4,5) by (auto simp: filled_def)
qed

end

end
