(* ===== verification/Protocol.thy ===== *)
theory Protocol
  imports Prelude Complex_Main
begin

text \<open>
  The data the inline-suggestion components exchange: positions and documents of the language
  server protocol, suggestions and requests of \<^verbatim>\<open>shared/codeWhispererService.ts\<close>, and supplemental
  context items and snapshots of \<^verbatim>\<open>shared/models/model.ts\<close>. Optional fields are options; records
  carry a short prefix because record fields share one name space.
\<close>

section \<open>Language server protocol data\<close>

text \<open>LSP positions are pairs of zero-based integers.\<close>

record position =
  pos_line :: int
  pos_character :: int

record range =
  range_start :: position
  range_end :: position

record text_document =
  td_uri :: string
  td_languageId :: string
  td_version :: int
  td_text :: string

text \<open>The state of one suggestion in the client's user interface.\<close>

record InlineCompletionStates =
  ics_seen :: bool
  ics_accepted :: bool
  ics_discarded :: bool

section \<open>Suggestions\<close>

datatype SuggestionType = EDIT | COMPLETION

text \<open>A licence reference with the span of the suggestion it covers.\<close>

record content_span =
  span_start :: "int option"
  span_end :: "int option"

record code_reference =
  ref_licenseName :: "string option"
  ref_url :: "string option"
  ref_repository :: "string option"
  ref_recommendationContentSpan :: "content_span option"

text \<open>
  A suggestion of the service, with the \<^verbatim>\<open>insertText\<close> the session manager caches on it
  (\<^verbatim>\<open>CachedSuggestion\<close>).
\<close>

record Suggestion =
  sug_itemId :: string
  sug_content :: "string option"
  sug_references :: "code_reference list option"
  sug_mostRelevantMissingImports :: "string list option"

record CachedSuggestion = Suggestion +
  sug_insertText :: "string option"

record ResponseContext =
  rc_requestId :: "string option"
  rc_codewhispererSessionId :: string
  rc_nextToken :: "string option"

record GenerateSuggestionsResponse =
  resp_suggestions :: "CachedSuggestion list"
  resp_suggestionType :: "SuggestionType option"
  resp_responseContext :: ResponseContext

text \<open>
  An item of the merged suggestion list that is shown to the user
  (\<^verbatim>\<open>InlineCompletionItemWithReferences\<close>).
\<close>

record item_reference =
  ir_licenseName :: "string option"
  ir_referenceUrl :: "string option"
  ir_referenceName :: "string option"
  ir_position :: "content_span option"

record InlineCompletionItem =
  item_itemId :: string
  item_insertText :: string
  item_range :: "range option"
  item_references :: "item_reference list option"
  item_mostRelevantMissingImports :: "string list option"

section \<open>Requests\<close>

record FileContext =
  fc_fileUri :: "string option"
  fc_filename :: string
  fc_languageName :: string
  fc_leftFileContent :: string
  fc_rightFileContent :: string

text \<open>The editor state sent along with token-authenticated requests.\<close>

record EditorState =
  es_relativeFilePath :: string
  es_languageName :: string
  es_text :: string
  es_position :: position

text \<open>A supplemental context item; the score is optional.\<close>

record CodeWhispererSupplementalContextItem =
  sci_content :: string
  sci_filePath :: string
  sci_score :: "real option"

datatype SupplementalContextStrategy =
    OpenTabs_BM25 | codemap | ByName | ByContent | NEW_UTG | recentEdits | EmptyStrategy

record CodeWhispererSupplementalContext =
  sc_isUtg :: bool
  sc_isProcessTimeout :: bool
  sc_supplementalContextItems :: "CodeWhispererSupplementalContextItem list"
  sc_contentsLength :: nat
  sc_latency :: int
  sc_strategy :: SupplementalContextStrategy

record GenerateSuggestionsRequest =
  req_fileContext :: "FileContext option"
  req_maxResults :: nat
  req_nextToken :: "string option"
  req_predictionTypes :: "SuggestionType list option"
  req_workspaceId :: "string option"
  req_editorState :: "EditorState option"
  req_supplementalContexts :: "CodeWhispererSupplementalContextItem list option"

section \<open>Document snapshots\<close>

record DocumentSnapshot =
  snap_filePath :: string
  snap_size :: int
  snap_timestamp :: int
  snap_content :: string

record FileSnapshotContent =
  fsc_filePath :: string
  fsc_content :: string
  fsc_timestamp :: int

section \<open>Trigger kinds\<close>

datatype CodewhispererTriggerType = AutoTrigger | OnDemand

datatype CodewhispererAutomatedTriggerType =
    SpecialCharacters | Enter | Classifier | IntelliSenseAcceptance

end
