(* ===== verification/Supplemental.thy ===== *)
theory Supplemental
  imports Protocol
begin

text \<open>
  Limits on supplemental context (\<^verbatim>\<open>shared/supplementalContextUtil/supplementalContextUtil.ts\<close>): the
  items sent along with a request are filtered, cut line by line and dropped from the end until they
  respect the service's limits. The platform's line separator \<^verbatim>\<open>os.EOL\<close> is a parameter \<^verbatim>\<open>eol\<close>; the
  focal-file resolver, the file system and the cross-file retrieval are parameters of
  \<^verbatim>\<open>fetchSupplementalContext\<close>.
\<close>

section \<open>Definitions\<close>

text \<open>\<^verbatim>\<open>s.split(sep)\<close> for a non-empty separator.\<close>

function split_str :: "string \<Rightarrow> string \<Rightarrow> string list" where
  "split_str sep [] = [[]]"
| "split_str sep (c # s) =
     (if sep \<noteq> [] \<and> startsWith (c # s) sep then [] # split_str sep (drop (length sep) (c # s))
      else add_head c (split_str sep s))"
  by pat_completeness auto
termination by (relation "measure (\<lambda>(sep, s). length s)") (auto simp: neq_Nil_conv)

text \<open>\<^verbatim>\<open>crossFileContextConfig\<close> and the limits of the module.\<close>

definition maxLengthEachChunk :: int where
  "maxLengthEachChunk = 10240"

definition maxContextCount :: nat where
  "maxContextCount = 5"

definition supplementalContextMaxTotalLength :: nat where
  "supplementalContextMaxTotalLength = 8192"

definition charactersLimit :: nat where
  "charactersLimit = 10000"

text \<open>The loop of \<^verbatim>\<open>truncateLineByLine\<close>: lines are dropped from the end, one character for each line break.\<close>

fun truncate_lines :: "int \<Rightarrow> int \<Rightarrow> string list \<Rightarrow> string list" where
  "truncate_lines maxLength curLen ls =
     (if curLen > maxLength \<and> ls \<noteq> []
      then truncate_lines maxLength (curLen - (int (length (last ls)) + 1)) (butlast ls)
      else ls)"

declare truncate_lines.simps [simp del]

definition truncateLineByLine :: "string \<Rightarrow> string \<Rightarrow> int \<Rightarrow> string" where
  "truncateLineByLine eol input l =
     (let maxLength = (if l > 0 then l else -1 * l)
      in if length input = 0 then []
         else let shouldAddNewLineBack = endsWith input eol;
                  r = join_with eol
                        (truncate_lines maxLength (int (length input)) (split_str eol (trim input)))
              in if shouldAddNewLineBack then r @ eol else r)"

definition truncate_item ::
    "string \<Rightarrow> CodeWhispererSupplementalContextItem \<Rightarrow> CodeWhispererSupplementalContextItem" where
  "truncate_item eol item =
     (if int (length (sci_content item)) > maxLengthEachChunk
      then item\<lparr>sci_content := truncateLineByLine eol (sci_content item) maxLengthEachChunk\<rparr>
      else item)"

definition total_content :: "CodeWhispererSupplementalContextItem list \<Rightarrow> nat" where
  "total_content c = sum_list (map (\<lambda>i. length (sci_content i)) c)"

fun drop_to_total ::
    "CodeWhispererSupplementalContextItem list \<Rightarrow> int
     \<Rightarrow> CodeWhispererSupplementalContextItem list \<times> int" where
  "drop_to_total c curTotalLength =
     (if curTotalLength \<ge> 20480 \<and> c \<noteq> []
      then drop_to_total (butlast c) (curTotalLength - int (length (sci_content (last c))))
      else (c, curTotalLength))"

declare drop_to_total.simps [simp del]

definition truncateSupplementalContext ::
    "string \<Rightarrow> CodeWhispererSupplementalContext \<Rightarrow> CodeWhispererSupplementalContext" where
  "truncateSupplementalContext eol context =
     (let c = map (truncate_item eol) (sc_supplementalContextItems context);
          c' = (if length c > maxContextCount then slice c 0 (int maxContextCount) else c);
          (c'', curTotalLength) = drop_to_total c' (int (total_content c'))
      in context\<lparr>sc_supplementalContextItems := c'', sc_contentsLength := nat curTotalLength\<rparr>)"

text \<open>The counting loop of \<^verbatim>\<open>trimSupplementalContexts\<close>: how many leading items fit.\<close>

fun fitting :: "nat \<Rightarrow> CodeWhispererSupplementalContextItem list \<Rightarrow> nat" where
  "fitting totalLength [] = 0"
| "fitting totalLength (x # xs) =
     (let t = totalLength + length (sci_content x)
      in if t > supplementalContextMaxTotalLength then 0 else Suc (fitting t xs))"

definition trimSupplementalContexts ::
    "CodeWhispererSupplementalContextItem list \<Rightarrow> int \<Rightarrow> CodeWhispererSupplementalContextItem list" where
  "trimSupplementalContexts items maxContexts =
     (if length items = 0 then items
      else let result = filter (\<lambda>x. length (sci_content x) \<le> charactersLimit) items;
               result' = (if int (length result) > maxContexts then slice result 0 maxContexts else result);
               i = fitting 0 result'
           in if i = length result' then result' else slice result' 0 (int i))"

text \<open>
  \<^verbatim>\<open>fetchSupplementalContext\<close>. The retrieval either yields items with a strategy, yields nothing, is
  cancelled, or fails with another error; an unhandled error of either branch ends in the handler.
\<close>

datatype fetch_outcome =
    FetchValue "CodeWhispererSupplementalContextItem list" SupplementalContextStrategy
  | FetchNothing
  | FetchCancelled
  | FetchFailed

definition fetchSupplementalContext ::
    "string \<Rightarrow> bool \<Rightarrow> fetch_outcome \<Rightarrow> fetch_outcome \<Rightarrow> int \<Rightarrow> int
     \<Rightarrow> CodeWhispererSupplementalContext option" where
  "fetchSupplementalContext eol isUtg utgOutcome srcOutcome timesBeforeFetching now =
     (case (if isUtg then utgOutcome else srcOutcome) of
        FetchValue items strategy \<Rightarrow>
          Some (truncateSupplementalContext eol
            \<lparr>sc_isUtg = isUtg, sc_isProcessTimeout = False,
             sc_supplementalContextItems = filter (\<lambda>i. length (trim (sci_content i)) \<noteq> 0) items,
             sc_contentsLength = total_content items,
             sc_latency = now - timesBeforeFetching, sc_strategy = strategy\<rparr>)
      | FetchNothing \<Rightarrow> None
      | FetchCancelled \<Rightarrow>
          Some \<lparr>sc_isUtg = isUtg, sc_isProcessTimeout = True, sc_supplementalContextItems = [],
                sc_contentsLength = 0, sc_latency = now - timesBeforeFetching,
                sc_strategy = EmptyStrategy\<rparr>
      | FetchFailed \<Rightarrow> None)"

section \<open>Cutting a text line by line\<close>

lemma split_str_ne [simp]: "split_str sep s \<noteq> []"
  by (induction sep s rule: split_str.induct) (auto elim: add_head.elims)

lemma join_split_str: "join_with sep (split_str sep s) = s"
proof (induction sep s rule: split_str.induct)
  case (1 sep)
  then show ?case by simp
next
  case (2 sep c s)
  show ?case
  proof (cases "sep \<noteq> [] \<and> startsWith (c # s) sep")
    case True
    then have "join_with sep (split_str sep (c # s)) = sep @ drop (length sep) (c # s)"
      using 2(1) by (simp add: join_with_Cons)
    also have "\<dots> = c # s"
      using True by (metis append_take_drop_id startsWith_def)
    finally show ?thesis .
  next
    case False
    then show ?thesis
      using 2(2) by (simp only: split_str.simps if_False join_with_add_head split_str_ne simp_thms)
  qed
qed

text \<open>The running length never falls below the length of the joined lines while a line is left.\<close>

lemma length_join_butlast:
  "ls \<noteq> [] \<Longrightarrow> butlast ls \<noteq> [] \<Longrightarrow> sep \<noteq> [] \<Longrightarrow>
   length (join_with sep (butlast ls)) + length (last ls) + 1 \<le> length (join_with sep ls)"
  using length_join_with_snoc [of "butlast ls" sep "last ls"] by (cases sep) auto

lemma truncate_lines_step:
  "cur > mx \<and> ls \<noteq> [] \<Longrightarrow>
   truncate_lines mx cur ls = truncate_lines mx (cur - (int (length (last ls)) + 1)) (butlast ls)"
  by (subst truncate_lines.simps) (rule if_P)

lemma truncate_lines_stop: "\<not> (cur > mx \<and> ls \<noteq> []) \<Longrightarrow> truncate_lines mx cur ls = ls"
  by (subst truncate_lines.simps) (rule if_not_P)

lemma truncate_lines_bound:
  assumes "sep \<noteq> []" and "ls \<noteq> [] \<Longrightarrow> int (length (join_with sep ls) + k) \<le> cur"
  shows "truncate_lines mx cur ls = [] \<or> int (length (join_with sep (truncate_lines mx cur ls)) + k) \<le> mx"
  using assms(2)
proof (induction mx cur ls rule: truncate_lines.induct)
  case (1 mx cur ls)
  show ?case
  proof (cases "cur > mx \<and> ls \<noteq> []")
    case True
    have "int (length (join_with sep (butlast ls)) + k) \<le> cur - (int (length (last ls)) + 1)"
      if "butlast ls \<noteq> []"
      using length_join_butlast [of ls sep] 1(2) True that assms(1) by linarith
    then show ?thesis unfolding truncate_lines_step [OF True] using 1(1) [OF True] by blast
  next
    case False
    then show ?thesis unfolding truncate_lines_stop [OF False] using 1(2) by force
  qed
qed

lemma truncate_lines_take: "\<exists>n. truncate_lines mx cur ls = take n ls"
proof (induction mx cur ls rule: truncate_lines.induct)
  case (1 mx cur ls)
  show ?case
  proof (cases "cur > mx \<and> ls \<noteq> []")
    case True
    then obtain n where "truncate_lines mx cur ls = take n (butlast ls)"
      unfolding truncate_lines_step [OF True] using 1 [OF True] by blast
    then show ?thesis by (metis butlast_conv_take take_take)
  next
    case False
    then have "truncate_lines mx cur ls = take (length ls) ls" by (simp add: truncate_lines_stop)
    then show ?thesis by blast
  qed
qed

lemma trim_endsWith_blank:
  assumes "suffix e s" "blank e"
  shows "length (trim s) + length e \<le> length s"
proof (cases "blank s")
  case True
  then have "trim s = []" by simp
  then show ?thesis using suffix_length_le [OF assms(1)] by (simp del: trim_Nil_iff)
next
  case False
  obtain u where u: "s = u @ e" using assms(1) by (auto simp: suffix_def)
  have "dropWhile is_ws (rev e @ rev (dropWhile is_ws u)) = dropWhile is_ws (rev (dropWhile is_ws u))"
    using assms(2) by (intro dropWhile_append2) (simp add: list_all_iff)
  moreover have "trimStart s = dropWhile is_ws u @ e"
    using False u assms(2) by (auto simp: trimStart_def list_all_iff dropWhile_append)
  ultimately have "trim s = trimEnd (dropWhile is_ws u)"
    by (simp add: trim_def trimEnd_def)
  then have "length (trim s) \<le> length u"
    using length_trimEnd_le [of "dropWhile is_ws u"] length_dropWhile_le [of is_ws u] by simp
  then show ?thesis using u by simp
qed

lemma truncateLineByLine_length:
  assumes "eol \<noteq> []" "blank eol"
  shows "int (length (truncateLineByLine eol s l)) \<le> max \<bar>l\<bar> (int (length eol))"
proof (cases "s = []")
  case True
  then show ?thesis by (simp add: truncateLineByLine_def)
next
  case False
  let ?k = "if endsWith s eol then length eol else 0"
  let ?ls = "truncate_lines \<bar>l\<bar> (int (length s)) (split_str eol (trim s))"
  have eq: "truncateLineByLine eol s l = join_with eol ?ls @ (if endsWith s eol then eol else [])"
    using False by (simp add: truncateLineByLine_def Let_def abs_if)
  have "length (trim s) + ?k \<le> length s"
    using trim_endsWith_blank [of eol s] assms(2) length_trim_le [of s] by (simp add: endsWith_suffix)
  then have "?ls = [] \<or> int (length (join_with eol ?ls) + ?k) \<le> \<bar>l\<bar>"
    by (intro truncate_lines_bound assms(1)) (simp add: join_split_str)
  then show ?thesis unfolding eq by (auto simp: le_max_iff_disj)
qed

text \<open>
  Cutting a text line by line keeps whole lines from its start: the result is the first lines of
  the trimmed text, with a line break at the end exactly when the text ended in one, and it never
  exceeds the requested length (a single line break is kept when no line fits).
\<close>

theorem truncateLineByLine_correct:
  assumes "eol \<noteq> []" "blank eol"
  shows "int (length (truncateLineByLine eol s l)) \<le> max \<bar>l\<bar> (int (length eol)) \<and>
    (s = [] \<or> (\<exists>n. truncateLineByLine eol s l =
       join_with eol (take n (split_str eol (trim s))) @ (if suffix eol s then eol else [])))"
proof (intro conjI)
  show "int (length (truncateLineByLine eol s l)) \<le> max \<bar>l\<bar> (int (length eol))"
    by (rule truncateLineByLine_length [OF assms])
  obtain n where n: "truncate_lines \<bar>l\<bar> (int (length s)) (split_str eol (trim s)) =
      take n (split_str eol (trim s))"
    using truncate_lines_take by blast
  have "truncateLineByLine eol s l =
      join_with eol (take n (split_str eol (trim s))) @ (if suffix eol s then eol else [])"
    if "s \<noteq> []"
    using that by (simp add: truncateLineByLine_def Let_def abs_if n [symmetric] endsWith_suffix)
  then show "s = [] \<or> (\<exists>n. truncateLineByLine eol s l =
       join_with eol (take n (split_str eol (trim s))) @ (if suffix eol s then eol else []))"
    by blast
qed

theorem truncateLineByLine_correct_witness:
  "int (length (truncateLineByLine [LF] ''aa bb'' 3)) \<le> 3"
  using truncateLineByLine_correct [of "[LF]" "''aa bb''" 3]
  by (simp add: is_ws_def)

section \<open>The limits of the service\<close>

lemma total_content_snoc: "c \<noteq> [] \<Longrightarrow> total_content c = total_content (butlast c) + length (sci_content (last c))"
  by (cases c rule: rev_cases) (simp_all add: total_content_def)

lemma drop_to_total_facts:
  assumes "n = int (total_content c)"
  shows "\<exists>k. fst (drop_to_total c n) = take k c"
    and "snd (drop_to_total c n) = int (total_content (fst (drop_to_total c n)))"
    and "snd (drop_to_total c n) < 20480"
proof -
  have "(\<exists>k. fst (drop_to_total c n) = take k c) \<and>
      snd (drop_to_total c n) = int (total_content (fst (drop_to_total c n))) \<and>
      snd (drop_to_total c n) < 20480"
    using assms
  proof (induction c n rule: drop_to_total.induct)
    case (1 c n)
    show ?case
    proof (cases "n \<ge> 20480 \<and> c \<noteq> []")
      case True
      have step: "drop_to_total c n = drop_to_total (butlast c) (n - int (length (sci_content (last c))))"
        using True by (subst drop_to_total.simps) (rule if_P)
      have "n - int (length (sci_content (last c))) = int (total_content (butlast c))"
        using total_content_snoc [of c] True 1(2) by simp
      from 1(1) [OF True this] show ?thesis
        unfolding step by (metis butlast_conv_take take_take)
    next
      case False
      have stop: "drop_to_total c n = (c, n)"
        using False by (subst drop_to_total.simps) (rule if_not_P)
      have "c = [] \<or> n < 20480" using False by auto
      then have "n < 20480" using 1(2) by (auto simp: total_content_def)
      then show ?thesis unfolding stop using 1(2) by (metis fst_conv snd_conv order_refl take_all)
    qed
  qed
  then show "\<exists>k. fst (drop_to_total c n) = take k c"
    and "snd (drop_to_total c n) = int (total_content (fst (drop_to_total c n)))"
    and "snd (drop_to_total c n) < 20480"
    by simp_all
qed

lemma truncate_item_bound:
  assumes "eol \<noteq> []" "blank eol" "length eol \<le> 10240"
  shows "length (sci_content (truncate_item eol i)) \<le> 10240"
  using truncateLineByLine_length [OF assms(1,2), of "sci_content i" maxLengthEachChunk] assms(3)
  by (auto simp: truncate_item_def maxLengthEachChunk_def)

lemma truncateSupplementalContext_items:
  "\<exists>k. sc_supplementalContextItems (truncateSupplementalContext eol ctx) =
     take k (take maxContextCount (map (truncate_item eol) (sc_supplementalContextItems ctx)))"
  "sc_contentsLength (truncateSupplementalContext eol ctx) =
     total_content (sc_supplementalContextItems (truncateSupplementalContext eol ctx))"
  "total_content (sc_supplementalContextItems (truncateSupplementalContext eol ctx)) < 20480"
proof -
  let ?c = "take maxContextCount (map (truncate_item eol) (sc_supplementalContextItems ctx))"
  let ?d = "drop_to_total ?c (int (total_content ?c))"
  have eq: "truncateSupplementalContext eol ctx =
      ctx\<lparr>sc_supplementalContextItems := fst ?d, sc_contentsLength := nat (snd ?d)\<rparr>"
    by (simp add: truncateSupplementalContext_def Let_def split_beta)
  note facts = drop_to_total_facts [of "int (total_content ?c)" ?c, OF refl]
  show "\<exists>k. sc_supplementalContextItems (truncateSupplementalContext eol ctx) = take k ?c"
    using facts(1) by (simp add: eq)
  show "sc_contentsLength (truncateSupplementalContext eol ctx) =
      total_content (sc_supplementalContextItems (truncateSupplementalContext eol ctx))"
    using facts(2) by (simp add: eq)
  show "total_content (sc_supplementalContextItems (truncateSupplementalContext eol ctx)) < 20480"
    using facts(2,3) by (simp add: eq)
qed

text \<open>
  The documented requirement on supplemental context holds of every truncated context: at most
  five items, each of at most 10240 characters, fewer than 20480 characters in total, with the
  reported length the total of the items that are kept; the kept items are the first ones of the
  context, in order, each cut line by line where it was too long.
\<close>

theorem truncateSupplementalContext_limits:
  assumes "eol = [LF] \<or> eol = [CR, LF]"
  shows "let r = truncateSupplementalContext eol ctx; items = sc_supplementalContextItems r
    in length items \<le> 5 \<and> list_all (\<lambda>i. length (sci_content i) \<le> 10240) items \<and>
       total_content items < 20480 \<and> sc_contentsLength r = total_content items \<and>
       prefix items (map (truncate_item eol) (sc_supplementalContextItems ctx))"
proof -
  let ?items = "sc_supplementalContextItems (truncateSupplementalContext eol ctx)"
  obtain k where k: "?items =
      take k (take maxContextCount (map (truncate_item eol) (sc_supplementalContextItems ctx)))"
    using truncateSupplementalContext_items(1) by blast
  have eol: "eol \<noteq> []" "blank eol" "length eol \<le> 10240"
    using assms by (auto simp: is_ws_def)
  have "list_all (\<lambda>i. length (sci_content i) \<le> 10240) ?items"
    unfolding k list_all_iff using truncate_item_bound [OF eol] by (auto dest!: in_set_takeD)
  moreover have "length ?items \<le> 5" unfolding k by (simp add: maxContextCount_def)
  moreover have "prefix ?items (map (truncate_item eol) (sc_supplementalContextItems ctx))"
    unfolding k by (simp add: take_is_prefix)
  ultimately show ?thesis
    using truncateSupplementalContext_items(2,3) by (simp add: Let_def)
qed

definition sample_item :: "string \<Rightarrow> CodeWhispererSupplementalContextItem" where
  "sample_item c = \<lparr>sci_content = c, sci_filePath = ''/a.ts'', sci_score = None\<rparr>"

definition sample_context :: CodeWhispererSupplementalContext where
  "sample_context =
     \<lparr>sc_isUtg = False, sc_isProcessTimeout = False,
      sc_supplementalContextItems = [sample_item ''foo'', sample_item ''bar''],
      sc_contentsLength = 6, sc_latency = 3, sc_strategy = OpenTabs_BM25\<rparr>"

theorem truncateSupplementalContext_limits_witness:
  "length (sc_supplementalContextItems (truncateSupplementalContext [LF] sample_context)) \<le> 5"
  using truncateSupplementalContext_limits [of "[LF]" sample_context] by (simp add: Let_def)

lemma total_content_Cons [simp]:
  "total_content [] = 0" "total_content (x # xs) = length (sci_content x) + total_content xs"
  by (simp_all add: total_content_def)

lemma fitting_le: "fitting t xs \<le> length xs"
  by (induction xs arbitrary: t) (auto simp: Let_def)

lemma fitting_fits: "t \<le> 8192 \<Longrightarrow> t + total_content (take (fitting t xs) xs) \<le> 8192"
proof (induction xs arbitrary: t)
  case Nil
  then show ?case by simp
next
  case (Cons x xs)
  show ?case
    using Cons.IH [of "t + length (sci_content x)"] Cons.prems
    by (simp add: Let_def supplementalContextMaxTotalLength_def add.assoc not_less)
qed

lemma fitting_maximal:
  "fitting t xs < length xs \<Longrightarrow> t + total_content (take (Suc (fitting t xs)) xs) > 8192"
proof (induction xs arbitrary: t)
  case Nil
  then show ?case by simp
next
  case (Cons x xs)
  show ?case
    using Cons.IH [of "t + length (sci_content x)"] Cons.prems
    by (simp add: Let_def supplementalContextMaxTotalLength_def add.assoc split: if_splits)
qed

lemma trimSupplementalContexts_eq:
  assumes "0 \<le> maxContexts"
  shows "trimSupplementalContexts items maxContexts =
    (let xs = take (nat maxContexts) (filter (\<lambda>x. length (sci_content x) \<le> charactersLimit) items)
     in take (fitting 0 xs) xs)"
proof -
  have limit: "(if int (length ys) > maxContexts then slice ys 0 maxContexts else ys) = take (nat maxContexts) ys"
    for ys :: "CodeWhispererSupplementalContextItem list"
    using assms slice_0_nat [of ys "nat maxContexts"] by simp
  have cut: "(if fitting 0 ys = length ys then ys else slice ys 0 (int (fitting 0 ys))) =
      take (fitting 0 ys) ys" for ys
    by simp
  show ?thesis
    unfolding trimSupplementalContexts_def Let_def limit cut by simp
qed

lemma trimSupplementalContexts_facts:
  assumes "0 \<le> maxContexts"
  shows "let allowed = take (nat maxContexts) (filter (\<lambda>x. length (sci_content x) \<le> charactersLimit) items);
      r = trimSupplementalContexts items maxContexts
    in prefix r allowed \<and> int (length r) \<le> maxContexts \<and> total_content r \<le> 8192 \<and>
       (r = allowed \<or> total_content (take (Suc (length r)) allowed) > 8192)"
proof -
  define xs where
    "xs = take (nat maxContexts) (filter (\<lambda>x. length (sci_content x) \<le> charactersLimit) items)"
  let ?n = "fitting 0 xs"
  have len: "length (take ?n xs) = ?n" using fitting_le [of 0 xs] by simp
  have "?n \<le> nat maxContexts" using fitting_le [of 0 xs] by (simp add: xs_def)
  moreover have "take ?n xs = xs \<or> total_content (take (Suc ?n) xs) > 8192"
    using fitting_maximal [of 0 xs] fitting_le [of 0 xs] by (cases "?n < length xs") auto
  ultimately show ?thesis
    unfolding trimSupplementalContexts_eq [OF assms] Let_def xs_def [symmetric] len
    using fitting_fits [of 0 xs] assms by (simp add: take_is_prefix)
qed

text \<open>
  Trimming recent-edit contexts: the result is the longest prefix of the items within the
  per-item limit that respects the requested number of items and the total of 8192 characters;
  either no item within the number limit is dropped or the next one would exceed the total.
\<close>

theorem trimSupplementalContexts_longest:
  assumes "0 \<le> maxContexts"
  shows "let allowed = take (nat maxContexts) (filter (\<lambda>x. length (sci_content x) \<le> charactersLimit) items);
      r = trimSupplementalContexts items maxContexts
    in prefix r allowed \<and> int (length r) \<le> maxContexts \<and> total_content r \<le> 8192 \<and>
       (r = allowed \<or> total_content (take (Suc (length r)) allowed) > 8192)"
  using assms by (rule trimSupplementalContexts_facts)

theorem trimSupplementalContexts_longest_witness:
  "int (length (trimSupplementalContexts [sample_item ''foo'', sample_item ''bar''] 1)) \<le> 1"
  using trimSupplementalContexts_longest [of 1 "[sample_item ''foo'', sample_item ''bar'']"]
  by (simp add: Let_def)

end
