(* ===== verification/Sessions.thy ===== *)
theory Sessions
  imports Protocol
begin

text \<open>
  The session manager of inline suggestions
  (\<^verbatim>\<open>language-server/inline-completion/session/sessionManager.ts\<close>): the life cycle of one
  suggestion session and the manager that creates, logs, closes and discards sessions.

  Sessions are mutable objects that the manager's log, its current-session field and the request
  handlers share, so a session lives in a store: \<^verbatim>\<open>session_store\<close> maps references to sessions and the
  manager keeps references. \<^verbatim>\<open>Date.now()\<close> and \<^verbatim>\<open>uuidv4()\<close> are arguments of the operations that
  call them.
\<close>

section \<open>Data\<close>

datatype SessionState = REQUESTING | ACTIVE | CLOSED | ERROR | DISCARD

datatype UserDecision =
    UD_Empty | UD_Filter | UD_Discard | UD_Accept | UD_Ignore | UD_Reject | UD_Unseen

datatype UserTriggerDecision = UTD_Accept | UTD_Reject | UTD_Empty | UTD_Discard

record SessionData =
  sd_document :: text_document
  sd_startPreprocessTimestamp :: int
  sd_startPosition :: position
  sd_triggerType :: CodewhispererTriggerType
  sd_autoTriggerType :: "CodewhispererAutomatedTriggerType option"
  sd_triggerCharacter :: "string option"
  sd_classifierResult :: "real option"
  sd_classifierThreshold :: "real option"
  sd_language :: string
  sd_requestContext :: GenerateSuggestionsRequest
  sd_credentialStartUrl :: "string option"
  sd_customizationArn :: "string option"
  sd_supplementalMetadata :: "CodeWhispererSupplementalContext option"

text \<open>
  \<^verbatim>\<open>suggestionsStates\<close> is a \<^verbatim>\<open>Map\<close>: an association list in insertion order.
  \<^verbatim>\<open>completionSessionResult\<close> is an object keyed by item id: an association list in the order in which
  \<^verbatim>\<open>Object.entries\<close> enumerates it.
\<close>

record CodeWhispererSession =
  session_id :: string
  document :: text_document
  startTime :: int
  endPreprocessTimestamp :: int
  closeTime :: int
  state :: SessionState
  codewhispererSessionId :: "string option"
  startPosition :: position
  discardInflightSessionOnNewInvocation :: bool
  suggestions :: "CachedSuggestion list"
  suggestionsAfterRightContextMerge :: "InlineCompletionItem list"
  suggestionsStates :: "(string \<times> UserDecision) list"
  decisionMadeTimestamp :: int
  acceptedSuggestionId :: "string option"
  responseContext :: "ResponseContext option"
  triggerType :: CodewhispererTriggerType
  autoTriggerType :: "CodewhispererAutomatedTriggerType option"
  triggerCharacter :: "string option"
  classifierResult :: "real option"
  classifierThreshold :: "real option"
  language :: string
  requestContext :: GenerateSuggestionsRequest
  supplementalMetadata :: "CodeWhispererSupplementalContext option"
  timeToFirstRecommendation :: int
  credentialStartUrl :: "string option"
  completionSessionResult :: "(string \<times> InlineCompletionStates) list option"
  firstCompletionDisplayLatency :: "int option"
  totalSessionDisplayTime :: "int option"
  typeaheadLength :: "int option"
  previousTriggerDecision :: "UserTriggerDecision option"
  previousTriggerDecisionTime :: "int option"
  reportedUserDecision :: bool
  customizationArn :: "string option"
  includeImportsWithSuggestions :: "bool option"
  codewhispererSuggestionImportCount :: nat
  predictionType :: "SuggestionType option"

section \<open>Operations of a session\<close>

text \<open>The constructor: \<^verbatim>\<open>sid\<close> is the generated identifier, \<^verbatim>\<open>now\<close> the time of the call.\<close>

definition new_session :: "SessionData \<Rightarrow> string \<Rightarrow> int \<Rightarrow> CodeWhispererSession" where
  "new_session d sid now =
     \<lparr>session_id = sid, document = sd_document d, startTime = sd_startPreprocessTimestamp d,
      endPreprocessTimestamp = now, closeTime = 0, state = REQUESTING,
      codewhispererSessionId = None, startPosition = sd_startPosition d,
      discardInflightSessionOnNewInvocation = False, suggestions = [],
      suggestionsAfterRightContextMerge = [], suggestionsStates = [], decisionMadeTimestamp = 0,
      acceptedSuggestionId = None, responseContext = None, triggerType = sd_triggerType d,
      autoTriggerType = sd_autoTriggerType d, triggerCharacter = sd_triggerCharacter d,
      classifierResult = sd_classifierResult d, classifierThreshold = sd_classifierThreshold d,
      language = sd_language d, requestContext = sd_requestContext d,
      supplementalMetadata = sd_supplementalMetadata d, timeToFirstRecommendation = 0,
      credentialStartUrl = sd_credentialStartUrl d, completionSessionResult = None,
      firstCompletionDisplayLatency = None, totalSessionDisplayTime = None, typeaheadLength = None,
      previousTriggerDecision = None, previousTriggerDecisionTime = None,
      reportedUserDecision = False, customizationArn = sd_customizationArn d,
      includeImportsWithSuggestions = None, codewhispererSuggestionImportCount = 0,
      predictionType = None\<rparr>"

definition preprocessLatency :: "CodeWhispererSession \<Rightarrow> int" where
  "preprocessLatency s = endPreprocessTimestamp s - startTime s"

definition setTimeToFirstRecommendation :: "CodeWhispererSession \<Rightarrow> int \<Rightarrow> CodeWhispererSession" where
  "setTimeToFirstRecommendation s now = s\<lparr>timeToFirstRecommendation := now - startTime s\<rparr>"

definition lastSuggestionIndex :: "CodeWhispererSession \<Rightarrow> int" where
  "lastSuggestionIndex s = int (length (suggestions s)) - 1"

definition activate :: "CodeWhispererSession \<Rightarrow> CodeWhispererSession" where
  "activate s = (if state s \<noteq> CLOSED \<and> state s \<noteq> DISCARD then s\<lparr>state := ACTIVE\<rparr> else s)"

definition setSuggestionState :: "string \<Rightarrow> UserDecision \<Rightarrow> CodeWhispererSession \<Rightarrow> CodeWhispererSession" where
  "setSuggestionState i d s = s\<lparr>suggestionsStates := map_set i d (suggestionsStates s)\<rparr>"

definition getSuggestionState :: "CodeWhispererSession \<Rightarrow> string \<Rightarrow> UserDecision option" where
  "getSuggestionState s i = map_get (suggestionsStates s) i"

definition close :: "CodeWhispererSession \<Rightarrow> int \<Rightarrow> CodeWhispererSession" where
  "close s now =
     (if state s = CLOSED \<or> state s = DISCARD then s
      else let st =
             (if completionSessionResult s = None
              then fold (\<lambda>i m. if map_has m i then m else map_set i UD_Discard m)
                     (map sug_itemId (suggestions s)) (suggestionsStates s)
              else suggestionsStates s)
           in s\<lparr>suggestionsStates := st, closeTime := now, state := CLOSED\<rparr>)"

definition discard :: "CodeWhispererSession \<Rightarrow> int \<Rightarrow> CodeWhispererSession" where
  "discard s now =
     (if state s = DISCARD then s
      else s\<lparr>suggestionsStates :=
               fold (\<lambda>i. map_set i UD_Discard) (map sug_itemId (suggestions s)) (suggestionsStates s),
             closeTime := now, state := DISCARD\<rparr>)"

text \<open>
  The first loop of \<^verbatim>\<open>setClientResultData\<close>: the last accepted item id of the client's results, if any.
\<close>

definition last_accepted :: "(string \<times> InlineCompletionStates) list \<Rightarrow> string option" where
  "last_accepted res = fold (\<lambda>(i, st) acc. if ics_accepted st then Some i else acc) res None"

text \<open>The decision recorded for one item, by the flags the client reports.\<close>

definition decision_of ::
    "bool \<Rightarrow> string option \<Rightarrow> string \<Rightarrow> InlineCompletionStates \<Rightarrow> UserDecision" where
  "decision_of hasAccepted acceptedId i st =
     (if ics_discarded st then UD_Discard
      else if \<not> ics_seen st then UD_Unseen
      else if ics_accepted st then UD_Accept
      else if hasAccepted \<and> acceptedId \<noteq> Some i then UD_Ignore
      else UD_Reject)"

definition setClientResultData ::
    "CodeWhispererSession \<Rightarrow> (string \<times> InlineCompletionStates) list \<Rightarrow> int option \<Rightarrow> int option
     \<Rightarrow> int option \<Rightarrow> CodeWhispererSession" where
  "setClientResultData s res latency display typeahead =
     (if state s = CLOSED \<or> state s = DISCARD \<or>
         (completionSessionResult s \<noteq> None \<and> predictionType s = Some COMPLETION)
      then s
      else let acc = last_accepted res;
               accId = (case acc of None \<Rightarrow> acceptedSuggestionId s | Some i \<Rightarrow> Some i);
               valid = map sug_itemId (suggestions s);
               st = fold (\<lambda>(i, r) m.
                      if i \<in> set valid then map_set i (decision_of (acc \<noteq> None) accId i r) m else m)
                      res (suggestionsStates s)
           in s\<lparr>completionSessionResult := Some res, acceptedSuggestionId := accId,
                suggestionsStates := st, firstCompletionDisplayLatency := latency,
                totalSessionDisplayTime := display, typeaheadLength := typeahead\<rparr>)"

text \<open>The loop over \<^verbatim>\<open>suggestionsStates.values()\<close> with its \<^verbatim>\<open>isEmpty\<close> flag.\<close>

fun aggregate_states :: "bool \<Rightarrow> UserDecision list \<Rightarrow> UserTriggerDecision" where
  "aggregate_states isEmpty [] = (if isEmpty then UTD_Empty else UTD_Discard)"
| "aggregate_states isEmpty (d # ds) =
     (if d = UD_Accept then UTD_Accept
      else if d = UD_Reject then UTD_Reject
      else aggregate_states (isEmpty \<and> d = UD_Empty) ds)"

definition getAggregatedUserTriggerDecision :: "CodeWhispererSession \<Rightarrow> UserTriggerDecision option" where
  "getAggregatedUserTriggerDecision s =
     (if state s = DISCARD then Some UTD_Discard
      else if state s \<noteq> CLOSED then None
      else Some (aggregate_states True (map snd (suggestionsStates s))))"

text \<open>An empty item id is falsy, like a missing one.\<close>

definition getUserTriggerDecision :: "CodeWhispererSession \<Rightarrow> string option \<Rightarrow> UserTriggerDecision option" where
  "getUserTriggerDecision s itemId =
     (if state s = DISCARD then Some UTD_Discard
      else if itemId = None \<or> itemId = Some [] then None
      else case getSuggestionState s (the itemId) of
             Some UD_Accept \<Rightarrow> Some UTD_Accept
           | Some UD_Reject \<Rightarrow> Some UTD_Reject
           | Some UD_Empty \<Rightarrow> Some UTD_Empty
           | _ \<Rightarrow> Some UTD_Discard)"

section \<open>The session manager\<close>

type_synonym session_ref = nat

record session_store =
  cells :: "session_ref \<Rightarrow> CodeWhispererSession"
  next_ref :: session_ref

definition update_session ::
    "session_ref \<Rightarrow> (CodeWhispererSession \<Rightarrow> CodeWhispererSession) \<Rightarrow> session_store \<Rightarrow> session_store" where
  "update_session r f h = h\<lparr>cells := (cells h)(r := f (cells h r))\<rparr>"

record SessionManager =
  currentSession :: "session_ref option"
  sessionsLog :: "session_ref list"
  userDecisionLog :: "(string \<times> UserTriggerDecision) list"

definition new_manager :: SessionManager where
  "new_manager = \<lparr>currentSession = None, sessionsLog = [], userDecisionLog = []\<rparr>"

text \<open>
  The two singletons: \<^verbatim>\<open>getInstance\<close> returns the instance of its kind, created on first use, and
  \<^verbatim>\<open>reset\<close> forgets both.
\<close>

datatype instance_kind = COMPLETIONS | EDITS

record manager_instances =
  completionInstance :: "SessionManager option"
  editInstance :: "SessionManager option"

definition getInstance :: "manager_instances \<Rightarrow> instance_kind \<Rightarrow> manager_instances \<times> SessionManager" where
  "getInstance ms k =
     (case k of
        EDITS \<Rightarrow> (case editInstance ms of
                    Some m \<Rightarrow> (ms, m)
                  | None \<Rightarrow> (ms\<lparr>editInstance := Some new_manager\<rparr>, new_manager))
      | COMPLETIONS \<Rightarrow> (case completionInstance ms of
                    Some m \<Rightarrow> (ms, m)
                  | None \<Rightarrow> (ms\<lparr>completionInstance := Some new_manager\<rparr>, new_manager)))"

definition reset_instances :: "manager_instances \<Rightarrow> manager_instances" where
  "reset_instances ms = \<lparr>completionInstance = None, editInstance = None\<rparr>"

definition maxHistorySize :: nat where
  "maxHistorySize = 5"

definition getPreviousSession :: "SessionManager \<Rightarrow> session_ref option" where
  "getPreviousSession m = (if sessionsLog m = [] then None else Some (last (sessionsLog m)))"

definition push_session :: "session_ref \<Rightarrow> session_ref list \<Rightarrow> session_ref list" where
  "push_session r refs = (if length refs > maxHistorySize then tl refs else refs) @ [r]"

definition createSession ::
    "session_store \<Rightarrow> SessionManager \<Rightarrow> SessionData \<Rightarrow> string \<Rightarrow> int
     \<Rightarrow> session_store \<times> SessionManager \<times> session_ref" where
  "createSession h m d sid now =
     (let s = new_session d sid now;
          trimmed = (if length (sessionsLog m) > maxHistorySize then tl (sessionsLog m) else sessionsLog m);
          s' = (case getPreviousSession (m\<lparr>sessionsLog := trimmed\<rparr>) of
                  None \<Rightarrow> s
                | Some p \<Rightarrow> s\<lparr>previousTriggerDecision := getAggregatedUserTriggerDecision (cells h p),
                              previousTriggerDecisionTime := Some (closeTime (cells h p))\<rparr>);
          r = next_ref h
      in (\<lparr>cells = (cells h)(r := s'), next_ref = Suc r\<rparr>,
          m\<lparr>currentSession := Some r, sessionsLog := push_session r (sessionsLog m)\<rparr>, r))"

text \<open>
  The user decision log keeps the last five Accept/Reject decisions, newest at the end; the session
  log is trimmed before the new session is pushed, so it holds one session more than
  \<^verbatim>\<open>maxHistorySize\<close>.
\<close>

definition push_decision ::
    "string \<times> UserTriggerDecision \<Rightarrow> (string \<times> UserTriggerDecision) list
     \<Rightarrow> (string \<times> UserTriggerDecision) list" where
  "push_decision e ds = (if length ds = 5 then tl ds else ds) @ [e]"

definition closeSession ::
    "session_store \<Rightarrow> SessionManager \<Rightarrow> session_ref \<Rightarrow> int \<Rightarrow> session_store \<times> SessionManager" where
  "closeSession h m r now =
     (let h' = update_session r (\<lambda>s. close s now) h; s = cells h' r
      in case getAggregatedUserTriggerDecision s of
           None \<Rightarrow> (h', m)
         | Some d \<Rightarrow>
             if d = UTD_Accept \<or> d = UTD_Reject
             then let sid = (case codewhispererSessionId s of None \<Rightarrow> ''undefined'' | Some i \<Rightarrow> i)
                  in (h', m\<lparr>userDecisionLog := push_decision (sid, d) (userDecisionLog m)\<rparr>)
             else (h', m))"

definition discardSession :: "session_store \<Rightarrow> session_ref \<Rightarrow> int \<Rightarrow> session_store" where
  "discardSession h r now = update_session r (\<lambda>s. discard s now) h"

definition getCurrentSession :: "SessionManager \<Rightarrow> session_ref option" where
  "getCurrentSession m = currentSession m"

definition getActiveSession :: "session_store \<Rightarrow> SessionManager \<Rightarrow> session_ref option" where
  "getActiveSession h m =
     (case currentSession m of
        Some r \<Rightarrow> if state (cells h r) = ACTIVE then Some r else None
      | None \<Rightarrow> None)"

definition getSessionById :: "session_store \<Rightarrow> SessionManager \<Rightarrow> string \<Rightarrow> session_ref option" where
  "getSessionById h m i =
     (case currentSession m of
        Some r \<Rightarrow> if session_id (cells h r) = i then Some r
                  else List.find (\<lambda>r. session_id (cells h r) = i) (sessionsLog m)
      | None \<Rightarrow> List.find (\<lambda>r. session_id (cells h r) = i) (sessionsLog m))"

definition activateSession :: "session_store \<Rightarrow> SessionManager \<Rightarrow> session_ref \<Rightarrow> session_store" where
  "activateSession h m r = (if currentSession m = Some r then update_session r activate h else h)"

section \<open>The life cycle of one session\<close>

lemmas session_ops = activate_def close_def discard_def setClientResultData_def setSuggestionState_def
  setTimeToFirstRecommendation_def

text \<open>One step of a session: any of its operations, with any arguments.\<close>

inductive session_step :: "CodeWhispererSession \<Rightarrow> CodeWhispererSession \<Rightarrow> bool" where
  step_activate: "session_step s (activate s)"
| step_close: "session_step s (close s now)"
| step_discard: "session_step s (discard s now)"
| step_results: "session_step s (setClientResultData s res latency display typeahead)"
| step_state: "session_step s (setSuggestionState i d s)"
| step_first: "session_step s (setTimeToFirstRecommendation s now)"

inductive_cases session_stepE: "session_step s t"

lemma state_simps [simp]:
  "state (activate s) = (if state s = CLOSED \<or> state s = DISCARD then state s else ACTIVE)"
  "state (close s now) = (if state s = DISCARD then DISCARD else CLOSED)"
  "state (discard s now) = DISCARD"
  "state (setClientResultData s res a b c) = state s"
  "state (setSuggestionState i d s) = state s"
  "state (setTimeToFirstRecommendation s now) = state s"
  by (simp_all add: session_ops Let_def)

lemma suggestions_simps [simp]:
  "suggestions (activate s) = suggestions s"
  "suggestions (close s now) = suggestions s"
  "suggestions (discard s now) = suggestions s"
  "suggestions (setClientResultData s res a b c) = suggestions s"
  "suggestions (setSuggestionState i d s) = suggestions s"
  by (simp_all add: session_ops Let_def)

lemma session_id_simps [simp]:
  "session_id (activate s) = session_id s"
  "session_id (close s now) = session_id s"
  "session_id (discard s now) = session_id s"
  "session_id (setClientResultData s res a b c) = session_id s"
  "session_id (setSuggestionState i d s) = session_id s"
  by (simp_all add: session_ops Let_def)

lemma session_step_state:
  assumes "session_step s t"
  shows "state s = DISCARD \<Longrightarrow> state t = DISCARD"
    and "state s = CLOSED \<Longrightarrow> state t \<in> {CLOSED, DISCARD}"
    and "state t = REQUESTING \<Longrightarrow> state s = REQUESTING"
    and "state t = ERROR \<Longrightarrow> state s = ERROR"
  using assms by (cases rule: session_step.cases; simp split: if_splits)+

text \<open>
  C1. Along every run of session operations: a discarded session stays discarded, a closed session
  can only stay closed or be discarded (it is never re-activated), no operation returns a session to
  the requesting state, and the error state, which the type declares, is never entered.
\<close>

theorem session_lifecycle:
  assumes "session_step\<^sup>*\<^sup>* s t"
  shows "(state s = DISCARD \<longrightarrow> state t = DISCARD) \<and>
         (state s = CLOSED \<longrightarrow> state t = CLOSED \<or> state t = DISCARD) \<and>
         (state t = REQUESTING \<longrightarrow> state s = REQUESTING) \<and>
         (state t = ERROR \<longrightarrow> state s = ERROR)"
  using assms
proof (induction rule: rtranclp_induct)
  case base
  then show ?case by simp
next
  case (step t u)
  then show ?case using session_step_state [OF step.hyps(2)] by blast
qed

text \<open>A concrete session for the examples below.\<close>

definition sample_position :: position where
  "sample_position = \<lparr>pos_line = 2, pos_character = 4\<rparr>"

definition sample_request :: GenerateSuggestionsRequest where
  "sample_request =
     \<lparr>req_fileContext = None, req_maxResults = 1, req_nextToken = None, req_predictionTypes = None,
      req_workspaceId = None, req_editorState = None, req_supplementalContexts = None\<rparr>"

definition sample_data :: SessionData where
  "sample_data =
     \<lparr>sd_document = \<lparr>td_uri = ''file:///a.ts'', td_languageId = ''typescript'', td_version = 1,
                     td_text = []\<rparr>,
      sd_startPreprocessTimestamp = 90, sd_startPosition = sample_position,
      sd_triggerType = AutoTrigger, sd_autoTriggerType = Some Classifier,
      sd_triggerCharacter = None, sd_classifierResult = None, sd_classifierThreshold = None,
      sd_language = ''typescript'', sd_requestContext = sample_request,
      sd_credentialStartUrl = None, sd_customizationArn = None, sd_supplementalMetadata = None\<rparr>"

definition sample_suggestion :: "string \<Rightarrow> CachedSuggestion" where
  "sample_suggestion i =
     \<lparr>sug_itemId = i, sug_content = Some ''x'', sug_references = None,
      sug_mostRelevantMissingImports = None, sug_insertText = None\<rparr>"

definition sample_session :: CodeWhispererSession where
  "sample_session = new_session sample_data ''s1'' 100
     \<lparr>suggestions := [sample_suggestion ''a'', sample_suggestion ''b''], state := ACTIVE\<rparr>"

lemmas sample_defs = sample_position_def sample_request_def sample_data_def sample_suggestion_def
  sample_session_def new_session_def

theorem session_lifecycle_witness:
  "state (activate (close sample_session 7)) = CLOSED \<or> state (activate (close sample_session 7)) = DISCARD"
proof -
  have "session_step\<^sup>*\<^sup>* (close sample_session 7) (activate (close sample_session 7))"
    by (intro r_into_rtranclp session_step.intros)
  from session_lifecycle [OF this] show ?thesis
    by (simp add: sample_defs)
qed

section \<open>Decisions of a session\<close>

lemma getSuggestionState_close:
  assumes "state s \<noteq> CLOSED" and "state s \<noteq> DISCARD"
  shows "getSuggestionState (close s now) i =
    (if completionSessionResult s = None \<and> getSuggestionState s i = None \<and>
        i \<in> set (map sug_itemId (suggestions s))
     then Some UD_Discard else getSuggestionState s i)"
  using assms by (simp add: close_def getSuggestionState_def jsmap.get_fold_put_absent)

lemma getSuggestionState_discard:
  assumes "state s \<noteq> DISCARD"
  shows "getSuggestionState (discard s now) i =
    (if i \<in> set (map sug_itemId (suggestions s)) then Some UD_Discard else getSuggestionState s i)"
  using assms by (simp add: discard_def getSuggestionState_def jsmap.get_fold_put)

text \<open>
  Ending a session leaves no suggestion without a decision. Closing a session for which the client
  never reported results records Discard for exactly the suggestions that had no decision yet and
  keeps every decision already recorded; discarding overwrites the decision of every suggestion
  with Discard. Decisions of other item ids are untouched.
\<close>

theorem end_of_session_decisions:
  assumes "state s \<noteq> CLOSED" and "state s \<noteq> DISCARD" and "completionSessionResult s = None"
  shows "getSuggestionState (close s now) i =
           (if i \<in> set (map sug_itemId (suggestions s))
            then Some (case getSuggestionState s i of None \<Rightarrow> UD_Discard | Some d \<Rightarrow> d)
            else getSuggestionState s i) \<and>
         getSuggestionState (discard s now) i =
           (if i \<in> set (map sug_itemId (suggestions s)) then Some UD_Discard
            else getSuggestionState s i)"
  using assms
  by (simp add: getSuggestionState_close getSuggestionState_discard del: set_map split: option.split)

theorem end_of_session_decisions_witness:
  "getSuggestionState (close sample_session 7) ''a'' = Some UD_Discard \<and>
   getSuggestionState (discard sample_session 7) ''b'' = Some UD_Discard"
  using end_of_session_decisions [of sample_session 7 "''a''"]
    end_of_session_decisions [of sample_session 7 "''b''"]
  by (simp add: sample_defs getSuggestionState_def)

text \<open>The decisions after a report with distinct item ids.\<close>

lemma get_fold_report:
  assumes "distinct (map fst res)"
  shows "map_get (fold (\<lambda>(i, r) m. if i \<in> V then map_set i (D i r) m else m) res m0) j =
    (case map_of res j of
       Some r \<Rightarrow> if j \<in> V then Some (D j r) else map_get m0 j
     | None \<Rightarrow> map_get m0 j)"
  using assms
proof (induction res arbitrary: m0)
  case Nil
  then show ?case by simp
next
  case (Cons p res)
  obtain i r where p: "p = (i, r)" by (cases p)
  have "i \<notin> fst ` set res" using Cons.prems p by simp
  then have "map_of res i = None" by (simp add: map_of_eq_None_iff)
  with Cons p show ?case
    by (cases "j = i") (simp_all add: jsmap.get_put split: option.split)
qed

lemma wf_fold_report [simp]:
  "map_wf m0 \<Longrightarrow> map_wf (fold (\<lambda>(i, r) m. if i \<in> V then map_set i (D i r) m else m) res m0)"
  by (induction res arbitrary: m0) (auto intro: jsmap.wf_put split: prod.split)

lemma last_accepted_fold:
  "fold (\<lambda>(i, st) acc. if ics_accepted st then Some i else acc) res a =
     (case last_accepted res of None \<Rightarrow> a | Some i \<Rightarrow> Some i)"
proof (induction res arbitrary: a)
  case Nil
  then show ?case by (simp add: last_accepted_def)
next
  case (Cons p res)
  obtain i r where p: "p = (i, r)" by (cases p)
  show ?case
    using Cons.IH [of "if ics_accepted r then Some i else a"]
      Cons.IH [of "if ics_accepted r then Some i else None"] p
    by (simp add: last_accepted_def split: option.split)
qed

lemma last_accepted_Cons:
  "last_accepted ((i, r) # res) =
     (case last_accepted res of None \<Rightarrow> if ics_accepted r then Some i else None | Some j \<Rightarrow> Some j)"
  using last_accepted_fold [of res "if ics_accepted r then Some i else None"]
  by (simp add: last_accepted_def)

lemma last_accepted_None: "last_accepted res = None \<longleftrightarrow> (\<forall>(i, r)\<in>set res. \<not> ics_accepted r)"
proof (induction res)
  case Nil
  then show ?case by (simp add: last_accepted_def)
next
  case (Cons p res)
  obtain i r where p: "p = (i, r)" by (cases p)
  with Cons show ?case by (cases "last_accepted res") (auto simp: last_accepted_Cons)
qed

lemma last_accepted_Some: "last_accepted res = Some i \<Longrightarrow> \<exists>r. (i, r) \<in> set res \<and> ics_accepted r"
proof (induction res)
  case Nil
  then show ?case by (simp add: last_accepted_def)
next
  case (Cons p res)
  obtain j r where p: "p = (j, r)" by (cases p)
  with Cons show ?case
    by (cases "last_accepted res") (auto simp: last_accepted_Cons split: if_splits)
qed

lemma getSuggestionState_results:
  assumes "state s \<noteq> CLOSED" "state s \<noteq> DISCARD"
    and "completionSessionResult s = None \<or> predictionType s \<noteq> Some COMPLETION"
    and "distinct (map fst res)"
  shows "getSuggestionState (setClientResultData s res a b c) j =
    (case map_of res j of
       Some r \<Rightarrow>
         if j \<in> set (map sug_itemId (suggestions s))
         then Some (decision_of (last_accepted res \<noteq> None)
                (case last_accepted res of None \<Rightarrow> acceptedSuggestionId s | Some i \<Rightarrow> Some i) j r)
         else getSuggestionState s j
     | None \<Rightarrow> getSuggestionState s j)"
proof -
  let ?a = "case last_accepted res of None \<Rightarrow> acceptedSuggestionId s | Some i \<Rightarrow> Some i"
  have "suggestionsStates (setClientResultData s res a b c) =
      fold (\<lambda>(i, r) m. if i \<in> set (map sug_itemId (suggestions s))
                        then map_set i (decision_of (last_accepted res \<noteq> None) ?a i r) m else m)
        res (suggestionsStates s)"
    using assms(1-3)
    by (cases "completionSessionResult s = None") (simp_all add: setClientResultData_def Let_def)
  then show ?thesis
    by (simp only: getSuggestionState_def get_fold_report [OF assms(4)])
qed

text \<open>
  The rule the code documents for a whole trigger: Accept if there is an Accept, else Reject if there
  is a Reject, else Empty if every decision is Empty, else Discard.
\<close>

definition documented_decision :: "UserDecision list \<Rightarrow> UserTriggerDecision" where
  "documented_decision ds =
     (if UD_Accept \<in> set ds then UTD_Accept
      else if UD_Reject \<in> set ds then UTD_Reject
      else if list_all (\<lambda>d. d = UD_Empty) ds then UTD_Empty
      else UTD_Discard)"

lemma aggregate_states_other:
  "UD_Accept \<notin> set ds \<Longrightarrow> UD_Reject \<notin> set ds \<Longrightarrow>
   aggregate_states e ds = (if e \<and> list_all (\<lambda>d. d = UD_Empty) ds then UTD_Empty else UTD_Discard)"
  by (induction ds arbitrary: e) auto

lemma aggregate_states_accept:
  "UD_Accept \<in> set ds \<Longrightarrow> UD_Reject \<notin> set ds \<Longrightarrow> aggregate_states e ds = UTD_Accept"
  by (induction ds arbitrary: e) auto

lemma aggregate_states_reject:
  "UD_Reject \<in> set ds \<Longrightarrow> UD_Accept \<notin> set ds \<Longrightarrow> aggregate_states e ds = UTD_Reject"
  by (induction ds arbitrary: e) auto

text \<open>Where Accept and Reject do not occur together, the loop computes the documented rule.\<close>

lemma aggregate_states_documented:
  "\<not> (UD_Accept \<in> set ds \<and> UD_Reject \<in> set ds) \<Longrightarrow> aggregate_states True ds = documented_decision ds"
  by (auto simp: documented_decision_def aggregate_states_other aggregate_states_accept
      aggregate_states_reject)

lemma values_map_get:
  "map_wf m \<Longrightarrow> d \<in> snd ` set m \<longleftrightarrow> (\<exists>i. map_get m i = Some d)"
  by (force simp: map_ops_defs map_of_eq_Some_iff)

lemma option_case_Some_iff:
  "(case p of None \<Rightarrow> None | Some r \<Rightarrow> if Q then Some (f r) else None) = Some d \<longleftrightarrow>
     (\<exists>r. p = Some r \<and> Q \<and> d = f r)"
  by (auto split: option.split)

lemma Nil_iff_no_member: "xs = [] \<longleftrightarrow> (\<forall>d. d \<notin> set xs)"
  by (cases xs) auto

lemma no_image_iff: "(\<forall>d. \<not> (\<exists>(i, r)\<in>A. i \<in> V \<and> d = f i r)) \<longleftrightarrow> (\<forall>(i, r)\<in>A. i \<notin> V)"
  by blast

lemma report_values:
  assumes "state s \<noteq> CLOSED" "state s \<noteq> DISCARD" "completionSessionResult s = None"
    and "suggestionsStates s = []" and "distinct (map fst res)"
  shows "d \<in> snd ` set (suggestionsStates (setClientResultData s res a b c)) \<longleftrightarrow>
    (\<exists>(i, r)\<in>set res. i \<in> set (map sug_itemId (suggestions s)) \<and>
       d = decision_of (last_accepted res \<noteq> None)
             (case last_accepted res of None \<Rightarrow> acceptedSuggestionId s | Some i \<Rightarrow> Some i) i r)"
    (is "_ \<longleftrightarrow> ?R")
proof -
  let ?S = "setClientResultData s res a b c"
  have "map_wf (suggestionsStates ?S)"
    using assms(1-4) by (simp add: setClientResultData_def Let_def)
  then have "d \<in> snd ` set (suggestionsStates ?S) \<longleftrightarrow> (\<exists>i. getSuggestionState ?S i = Some d)"
    by (simp only: values_map_get getSuggestionState_def)
  also have "\<dots> \<longleftrightarrow> (\<exists>i r. map_of res i = Some r \<and> i \<in> set (map sug_itemId (suggestions s)) \<and>
       d = decision_of (last_accepted res \<noteq> None)
             (case last_accepted res of None \<Rightarrow> acceptedSuggestionId s | Some i \<Rightarrow> Some i) i r)"
  proof -
    have "getSuggestionState s i = None" for i
      using assms(4) by (simp add: getSuggestionState_def map_ops_defs)
    note none = this
    show ?thesis
      by (simp only: getSuggestionState_results [OF assms(1,2) disjI1 [OF assms(3)] assms(5)]
          none option_case_Some_iff cong: option.case_cong if_cong)
  qed
  also have "\<dots> \<longleftrightarrow> ?R"
    using map_of_eq_Some_iff [OF assms(5)] by (simp only: Bex_def split_paired_Ex prod.case)
  finally show ?thesis .
qed

lemma reported_states:
  assumes "state s \<noteq> CLOSED" "state s \<noteq> DISCARD" "completionSessionResult s = None"
  shows "state (setClientResultData s res a b c) = state s"
    and "completionSessionResult (setClientResultData s res a b c) = Some res"
  using assms by (simp_all add: setClientResultData_def Let_def)

lemma aggregate_close:
  assumes "state s \<noteq> CLOSED" "state s \<noteq> DISCARD" "completionSessionResult s = Some res"
  shows "getAggregatedUserTriggerDecision (close s now) =
    Some (aggregate_states True (map snd (suggestionsStates s)))"
  using assms by (simp add: getAggregatedUserTriggerDecision_def close_def)

text \<open>The decision of the whole trigger that one report by the client stands for.\<close>

definition reported_decision ::
    "string list \<Rightarrow> (string \<times> InlineCompletionStates) list \<Rightarrow> UserTriggerDecision" where
  "reported_decision ids res =
     (let shown = filter (\<lambda>(i, r). i \<in> set ids) res;
          seen = filter (\<lambda>(i, r). ics_seen r \<and> \<not> ics_discarded r) shown
      in if list_ex (\<lambda>(i, r). ics_accepted r) seen then UTD_Accept
         else if seen \<noteq> [] \<and> \<not> list_ex (\<lambda>(i, r). ics_accepted r) res then UTD_Reject
         else if shown = [] then UTD_Empty
         else UTD_Discard)"

text \<open>
  For a session without decisions, reporting the client's results once and closing yields the
  decision the report stands for: Accept when a known suggestion was seen and accepted, Reject when
  known suggestions were seen and nothing was accepted, Empty when the report names no known
  suggestion, and Discard otherwise. Accept and Reject are never recorded together, so the
  order of the decisions in the map does not matter here.
\<close>

theorem single_report_decision:
  assumes "state s \<noteq> CLOSED" "state s \<noteq> DISCARD" "completionSessionResult s = None"
    and "suggestionsStates s = []" and "distinct (map fst res)"
  shows "getAggregatedUserTriggerDecision (close (setClientResultData s res a b c) now) =
    Some (reported_decision (map sug_itemId (suggestions s)) res)"
proof -
  let ?V = "set (map sug_itemId (suggestions s))"
  let ?ds = "map snd (suggestionsStates (setClientResultData s res a b c))"
  let ?acc = "last_accepted res"
  let ?id = "case ?acc of None \<Rightarrow> acceptedSuggestionId s | Some i \<Rightarrow> Some i"
  have vals: "d \<in> set ?ds \<longleftrightarrow> (\<exists>(i, r)\<in>set res. i \<in> ?V \<and> d = decision_of (?acc \<noteq> None) ?id i r)" for d
    using report_values [OF assms] by simp
  have acc: "UD_Accept \<in> set ?ds \<longleftrightarrow>
      (\<exists>(i, r)\<in>set res. i \<in> ?V \<and> ics_seen r \<and> \<not> ics_discarded r \<and> ics_accepted r)"
    unfolding vals by (auto simp: decision_of_def split: if_splits)
  have own: "i = a' \<Longrightarrow> (i, r) \<in> set res \<Longrightarrow> ?acc = Some a' \<Longrightarrow> ics_accepted r" for i r a'
    using last_accepted_Some [of res a'] assms(5) by (metis eq_key_imp_eq_value)
  have rej: "UD_Reject \<in> set ?ds \<longleftrightarrow>
      ?acc = None \<and> (\<exists>(i, r)\<in>set res. i \<in> ?V \<and> ics_seen r \<and> \<not> ics_discarded r)"
    unfolding vals using last_accepted_None [of res] own
    by (fastforce simp: decision_of_def split: if_splits)
  have emp: "UD_Empty \<notin> set ?ds"
    unfolding vals by (auto simp: decision_of_def split: if_splits)
  have nil: "?ds = [] \<longleftrightarrow> (\<forall>(i, r)\<in>set res. i \<notin> ?V)"
    by (simp only: Nil_iff_no_member vals no_image_iff)
  have none: "?acc = None \<longleftrightarrow> \<not> list_ex (\<lambda>(i, r). ics_accepted r) res"
    by (auto simp: last_accepted_None list_ex_iff)
  have all: "list_all (\<lambda>d. d = UD_Empty) ?ds \<longleftrightarrow> ?ds = []"
    using emp by (cases ?ds) auto
  have "\<not> (UD_Accept \<in> set ?ds \<and> UD_Reject \<in> set ?ds)"
    using acc rej last_accepted_None [of res] by auto
  then have "aggregate_states True ?ds = documented_decision ?ds"
    by (rule aggregate_states_documented)
  also have "\<dots> = reported_decision (map sug_itemId (suggestions s)) res"
    unfolding documented_decision_def reported_decision_def Let_def acc rej all nil none
    by (auto simp: list_ex_iff filter_empty_conv)
  finally show ?thesis
    using aggregate_close [OF _ _ reported_states(2)] reported_states(1) assms(1-3) by simp
qed

definition sample_report :: "(string \<times> InlineCompletionStates) list" where
  "sample_report =
     [(''a'', \<lparr>ics_seen = True, ics_accepted = False, ics_discarded = False\<rparr>),
      (''b'', \<lparr>ics_seen = True, ics_accepted = True, ics_discarded = False\<rparr>)]"

theorem single_report_decision_witness:
  "getAggregatedUserTriggerDecision
     (close (setClientResultData sample_session sample_report None None None) 7) = Some UTD_Accept"
  using single_report_decision [of sample_session sample_report None None None 7]
  by (simp add: sample_defs sample_report_def reported_decision_def)

section \<open>Invariants of the session manager\<close>

text \<open>Both logs are bounded logs in the sense of the prelude, read newest first.\<close>

interpretation decisions: bounded_log push_decision rev 5
proof unfold_locales
  show "rev (push_decision x l) = take 5 (x # rev l)" if "length (rev l) \<le> 5"
    for x :: "string \<times> UserTriggerDecision" and l
    using that by (cases l) (auto simp: push_decision_def)
qed simp

interpretation session_log: bounded_log push_session rev "Suc maxHistorySize"
proof unfold_locales
  show "rev (push_session x l) = take (Suc maxHistorySize) (x # rev l)"
    if "length (rev l) \<le> Suc maxHistorySize" for x :: session_ref and l
    using that by (cases l) (auto simp: push_session_def maxHistorySize_def)
qed (simp add: maxHistorySize_def)

text \<open>
  One step of the manager and the store it works on: a public operation of the manager on an
  allocated session, or an operation of a session through a reference a handler holds.
\<close>

inductive manager_step ::
    "session_store \<times> SessionManager \<Rightarrow> session_store \<times> SessionManager \<Rightarrow> bool" where
  step_create: "createSession h m d sid now = (h', m', r) \<Longrightarrow> manager_step (h, m) (h', m')"
| step_close: "r < next_ref h \<Longrightarrow> closeSession h m r now = (h', m') \<Longrightarrow> manager_step (h, m) (h', m')"
| step_discard: "r < next_ref h \<Longrightarrow> manager_step (h, m) (discardSession h r now, m)"
| step_activate: "r < next_ref h \<Longrightarrow> manager_step (h, m) (activateSession h m r, m)"
| step_session: "r < next_ref h \<Longrightarrow> session_step (cells h r) s \<Longrightarrow>
    manager_step (h, m) (update_session r (\<lambda>_. s) h, m)"

inductive_cases manager_stepE: "manager_step hm hm'"

definition decision_log_ok :: "(string \<times> UserTriggerDecision) list \<Rightarrow> bool" where
  "decision_log_ok ds \<longleftrightarrow> length ds \<le> 5 \<and> list_all (\<lambda>(i, d). d = UTD_Accept \<or> d = UTD_Reject) ds"

definition manager_inv :: "session_store \<times> SessionManager \<Rightarrow> bool" where
  "manager_inv hm \<longleftrightarrow> (case hm of (h, m) \<Rightarrow>
     length (sessionsLog m) \<le> Suc maxHistorySize \<and>
     distinct (sessionsLog m) \<and>
     (\<forall>r\<in>set (sessionsLog m). r < next_ref h) \<and>
     currentSession m = (if sessionsLog m = [] then None else Some (last (sessionsLog m))) \<and>
     decision_log_ok (userDecisionLog m))"

lemma manager_inv_init: "manager_inv (h, new_manager)"
  by (simp add: manager_inv_def new_manager_def decision_log_ok_def)

lemma next_ref_update [simp]: "next_ref (update_session r f h) = next_ref h"
  by (simp add: update_session_def)

lemma set_push_decision: "set (push_decision e ds) \<subseteq> insert e (set ds)"
  by (auto simp: push_decision_def dest: in_set_tl)

lemma set_push_session: "set (push_session r refs) \<subseteq> insert r (set refs)"
  by (auto simp: push_session_def dest: in_set_tl)

lemma distinct_push_session: "distinct refs \<Longrightarrow> r \<notin> set refs \<Longrightarrow> distinct (push_session r refs)"
  by (auto simp: push_session_def distinct_tl dest: in_set_tl)

lemma last_push_session [simp]: "last (push_session r refs) = r" "push_session r refs \<noteq> []"
  by (simp_all add: push_session_def)

lemma createSession_simps [simp]:
  "next_ref (fst (createSession h m d sid now)) = Suc (next_ref h)"
  "currentSession (fst (snd (createSession h m d sid now))) = Some (next_ref h)"
  "sessionsLog (fst (snd (createSession h m d sid now))) = push_session (next_ref h) (sessionsLog m)"
  "userDecisionLog (fst (snd (createSession h m d sid now))) = userDecisionLog m"
  "snd (snd (createSession h m d sid now)) = next_ref h"
  by (simp_all add: createSession_def Let_def)

lemma manager_inv_create:
  assumes "manager_inv (h, m)"
  shows "manager_inv (fst (createSession h m d sid now), fst (snd (createSession h m d sid now)))"
proof -
  note inv = assms(1) [unfolded manager_inv_def prod.case]
  have "next_ref h \<notin> set (sessionsLog m)"
    using inv by (metis less_irrefl)
  moreover have "\<forall>q\<in>set (push_session (next_ref h) (sessionsLog m)). q < Suc (next_ref h)"
    using inv set_push_session [of "next_ref h" "sessionsLog m"]
    by (metis insertE less_Suc_eq subsetD)
  ultimately show ?thesis
    using inv session_log.bound_add [of "sessionsLog m" "next_ref h"]
    by (simp add: manager_inv_def distinct_push_session)
qed

lemma closeSession_simps [simp]:
  "fst (closeSession h m r now) = update_session r (\<lambda>s. close s now) h"
  "sessionsLog (snd (closeSession h m r now)) = sessionsLog m"
  "currentSession (snd (closeSession h m r now)) = currentSession m"
  by (simp_all add: closeSession_def Let_def split: option.split)

lemma closeSession_log:
  "userDecisionLog (snd (closeSession h m r now)) =
     (let s = close (cells h r) now; sid = (case codewhispererSessionId s of None \<Rightarrow> ''undefined'' | Some i \<Rightarrow> i)
      in case getAggregatedUserTriggerDecision s of
           None \<Rightarrow> userDecisionLog m
         | Some d \<Rightarrow> if d = UTD_Accept \<or> d = UTD_Reject then push_decision (sid, d) (userDecisionLog m)
                     else userDecisionLog m)"
  by (simp add: closeSession_def update_session_def Let_def split: option.split)

lemma decision_log_ok_push:
  assumes "decision_log_ok ds" and "d = UTD_Accept \<or> d = UTD_Reject"
  shows "decision_log_ok (push_decision (i, d) ds)"
proof -
  have "length (push_decision (i, d) ds) \<le> 5"
    using assms(1) decisions.bound_add [of ds] by (simp add: decision_log_ok_def)
  moreover have "\<forall>(j, e)\<in>set (push_decision (i, d) ds). e = UTD_Accept \<or> e = UTD_Reject"
    using assms set_push_decision [of "(i, d)" ds] unfolding decision_log_ok_def list_all_iff by fast
  ultimately show ?thesis by (simp add: decision_log_ok_def list_all_iff)
qed

lemma manager_inv_close:
  assumes "manager_inv (h, m)"
  shows "manager_inv (closeSession h m r now)"
proof -
  have "decision_log_ok (userDecisionLog (snd (closeSession h m r now)))"
    using assms
    by (simp add: closeSession_log manager_inv_def Let_def decision_log_ok_push split: option.split)
  with assms show ?thesis
    by (simp add: manager_inv_def split_beta)
qed

lemma manager_inv_store:
  "manager_inv (h, m) \<Longrightarrow> next_ref h' = next_ref h \<Longrightarrow> manager_inv (h', m)"
  by (simp add: manager_inv_def)

lemma manager_inv_step:
  assumes "manager_step hm hm'" and "manager_inv hm"
  shows "manager_inv hm'"
  using assms(1)
proof (cases rule: manager_step.cases)
  case (step_create h m d sid now h' m' r)
  with assms(2) manager_inv_create [of h m d sid now] show ?thesis by simp
next
  case (step_close r h m now h' m')
  with assms(2) manager_inv_close [of h m r now] show ?thesis by simp
next
  case (step_discard r h m now)
  with assms(2) show ?thesis by (simp add: manager_inv_store [of h] discardSession_def)
next
  case (step_activate r h m)
  with assms(2) show ?thesis by (simp add: manager_inv_store [of h] activateSession_def)
next
  case (step_session r h s m)
  with assms(2) show ?thesis by (simp add: manager_inv_store [of h])
qed

text \<open>
  C2. In every reachable state of the manager the session log holds at most six distinct allocated
  sessions, the current session is the newest session of the log (and there is none exactly when
  no session was created), and the decision log holds at most five entries, each Accept or Reject.
\<close>

theorem manager_reachable_inv:
  assumes "manager_step\<^sup>*\<^sup>* (h, new_manager) (h', m)"
  shows "length (sessionsLog m) \<le> 6 \<and> distinct (sessionsLog m) \<and>
     list_all (\<lambda>r. r < next_ref h') (sessionsLog m) \<and>
     getCurrentSession m = getPreviousSession m \<and>
     length (userDecisionLog m) \<le> 5 \<and>
     list_all (\<lambda>(i, d). d = UTD_Accept \<or> d = UTD_Reject) (userDecisionLog m)"
proof -
  have "manager_inv (h', m)"
    using assms by (induction rule: rtranclp_induct2) (blast intro: manager_inv_init manager_inv_step)+
  then show ?thesis
    by (simp add: manager_inv_def maxHistorySize_def getCurrentSession_def getPreviousSession_def
        decision_log_ok_def list_all_iff)
qed

definition sample_store :: session_store where
  "sample_store = \<lparr>cells = (\<lambda>_. sample_session), next_ref = 0\<rparr>"

theorem manager_reachable_inv_witness:
  "length (sessionsLog (fst (snd (createSession sample_store new_manager sample_data ''s1'' 100)))) \<le> 6 \<and>
   getCurrentSession (fst (snd (createSession sample_store new_manager sample_data ''s1'' 100))) = Some 0"
proof -
  let ?c = "createSession sample_store new_manager sample_data ''s1'' 100"
  have "manager_step (sample_store, new_manager) (fst ?c, fst (snd ?c))"
    by (intro manager_step.step_create [of _ _ sample_data "''s1''" 100 _ _ "snd (snd ?c)"])
      (simp only: prod.collapse)
  then have "manager_step\<^sup>*\<^sup>* (sample_store, new_manager) (fst ?c, fst (snd ?c))"
    by (rule r_into_rtranclp)
  from manager_reachable_inv [OF this] show ?thesis
    by (simp add: getCurrentSession_def sample_store_def)
qed

text \<open>
  Looking up a session by id in a state that satisfies the manager's invariant is sound
  and complete: it returns nothing exactly when no logged session has the id; otherwise the session
  it returns is logged and has the id, and it is the current session whenever that one has the id.
\<close>

theorem getSessionById_correct:
  assumes "manager_inv (h, m)"
  shows "case getSessionById h m i of
      None \<Rightarrow> i \<notin> set (map (\<lambda>r. session_id (cells h r)) (sessionsLog m))
    | Some r \<Rightarrow> r \<in> set (sessionsLog m) \<and> session_id (cells h r) = i \<and>
        (case getCurrentSession m of
           None \<Rightarrow> False
         | Some c \<Rightarrow> session_id (cells h c) = i \<longrightarrow> r = c)"
proof -
  have cur: "currentSession m = (if sessionsLog m = [] then None else Some (last (sessionsLog m)))"
    using assms by (simp add: manager_inv_def)
  show ?thesis
  proof (cases "sessionsLog m = []")
    case True
    with cur show ?thesis by (simp add: getSessionById_def)
  next
    case False
    with cur have c: "currentSession m = Some (last (sessionsLog m))" by simp
    show ?thesis
    proof (cases "session_id (cells h (last (sessionsLog m))) = i")
      case True
      with c False show ?thesis by (simp add: getSessionById_def getCurrentSession_def)
    next
      case other: False
      have find: "getSessionById h m i = List.find (\<lambda>r. session_id (cells h r) = i) (sessionsLog m)"
        using c other by (simp add: getSessionById_def)
      show ?thesis
      proof (cases "List.find (\<lambda>r. session_id (cells h r) = i) (sessionsLog m)")
        case None
        then have "i \<notin> set (map (\<lambda>r. session_id (cells h r)) (sessionsLog m))"
          by (simp only: find_image_None not_False_eq_True)
        with None show ?thesis by (simp only: find option.case not_False_eq_True)
      next
        case (Some r)
        from find_SomeD [OF this] Some other c show ?thesis by (simp add: find getCurrentSession_def)
      qed
    qed
  qed
qed

definition sample_manager :: SessionManager where
  "sample_manager = new_manager\<lparr>currentSession := Some 0, sessionsLog := [0]\<rparr>"

theorem getSessionById_correct_witness:
  "getSessionById (sample_store\<lparr>next_ref := 1\<rparr>) sample_manager ''s1'' = Some 0 \<and>
   getSessionById (sample_store\<lparr>next_ref := 1\<rparr>) sample_manager ''s2'' = None"
proof -
  have "manager_inv (sample_store\<lparr>next_ref := 1\<rparr>, sample_manager)"
    by (simp add: manager_inv_def sample_manager_def new_manager_def decision_log_ok_def)
  from getSessionById_correct [OF this, of "''s1''"] getSessionById_correct [OF this, of "''s2''"]
  show ?thesis
    by (simp add: sample_store_def sample_defs sample_manager_def getSessionById_def split: option.splits)
qed

lemma last_trimmed:
  "length refs > maxHistorySize \<Longrightarrow> last (tl refs) = last refs \<and> tl refs \<noteq> []"
  by (cases refs) (auto simp: maxHistorySize_def)

lemma createSession_cell:
  "cells (fst (createSession h m d sid now)) r =
     (if r = next_ref h
      then (case getPreviousSession m of
              None \<Rightarrow> new_session d sid now
            | Some p \<Rightarrow> new_session d sid now
                \<lparr>previousTriggerDecision := getAggregatedUserTriggerDecision (cells h p),
                 previousTriggerDecisionTime := Some (closeTime (cells h p))\<rparr>)
      else cells h r)"
proof -
  have "getPreviousSession (m\<lparr>sessionsLog := tl (sessionsLog m)\<rparr>) = getPreviousSession m"
    if "length (sessionsLog m) > maxHistorySize"
    using last_trimmed [OF that] that by (simp add: getPreviousSession_def split: if_split)
      (metis list.sel(2))
  moreover have "getPreviousSession (m\<lparr>sessionsLog := sessionsLog m\<rparr>) = getPreviousSession m"
    by (simp add: getPreviousSession_def)
  ultimately show ?thesis
    by (simp add: createSession_def Let_def)
qed

text \<open>
  Creating a session in a state that satisfies the manager's invariant: the new session is
  requesting, becomes the current one and the newest of the log, can be found by a fresh id,
  carries the aggregated decision and the close time of the session that was current before (nothing
  when there was none), and leaves every other session as it was.
\<close>

theorem createSession_correct:
  assumes "manager_inv (h, m)" and "createSession h m d sid now = (h', m', r)"
  shows "getCurrentSession m' = Some r \<and> getSessionById h' m' sid = Some r \<and>
    state (cells h' r) = REQUESTING \<and>
    previousTriggerDecision (cells h' r) =
      (case getCurrentSession m of None \<Rightarrow> None | Some p \<Rightarrow> getAggregatedUserTriggerDecision (cells h p)) \<and>
    previousTriggerDecisionTime (cells h' r) =
      map_option (\<lambda>p. closeTime (cells h p)) (getCurrentSession m) \<and>
    (\<forall>q. q \<noteq> r \<longrightarrow> cells h' q = cells h q)"
proof -
  have eq: "h' = fst (createSession h m d sid now)" "m' = fst (snd (createSession h m d sid now))"
    "r = snd (snd (createSession h m d sid now))"
    using assms(2) by simp_all
  have cur: "getPreviousSession m = getCurrentSession m"
    using assms(1) by (simp add: manager_inv_def getPreviousSession_def getCurrentSession_def)
  show ?thesis
    unfolding eq
    by (simp add: createSession_cell cur getCurrentSession_def getSessionById_def new_session_def
        split: option.split)
qed

theorem createSession_correct_witness:
  "previousTriggerDecision (cells (fst (createSession (sample_store\<lparr>next_ref := 1\<rparr>) sample_manager
       sample_data ''s2'' 200)) 1) = None \<and>
   getCurrentSession (fst (snd (createSession (sample_store\<lparr>next_ref := 1\<rparr>) sample_manager
       sample_data ''s2'' 200))) = Some 1"
proof -
  let ?c = "createSession (sample_store\<lparr>next_ref := 1\<rparr>) sample_manager sample_data ''s2'' 200"
  have "manager_inv (sample_store\<lparr>next_ref := 1\<rparr>, sample_manager)"
    by (simp add: manager_inv_def sample_manager_def new_manager_def decision_log_ok_def)
  moreover have "?c = (fst ?c, fst (snd ?c), 1)"
    by (simp add: createSession_def Let_def)
  ultimately show ?thesis
    using createSession_correct [of "sample_store\<lparr>next_ref := 1\<rparr>" sample_manager sample_data "''s2''" 200
        "fst ?c" "fst (snd ?c)" 1]
    by (simp add: getCurrentSession_def sample_manager_def sample_store_def
        getAggregatedUserTriggerDecision_def sample_session_def)
qed

end
