(* ===== verification/Languages.thy ===== *)
theory Languages
  imports Protocol
begin

text \<open>
  Language detection (\<^verbatim>\<open>shared/languageDetection.ts\<close>): the tables of language ids and file extensions and
  the lookups over them. Language ids are strings; both tables are plain objects, so they are
  association lists in the order in which they are written.
\<close>

section \<open>Tables\<close>

definition runtimeLanguageSet :: "string list" where
  "runtimeLanguageSet =
     [''abap'', ''c'', ''cpp'', ''csharp'', ''go'', ''java'', ''javascript'', ''kotlin'',
      ''php'', ''python'', ''ruby'', ''rust'', ''scala'', ''shell'', ''sql'', ''typescript'',
      ''json'', ''yaml'', ''tf'', ''systemverilog'']"

definition supportedFileTypes :: "string list" where
  "supportedFileTypes =
     [''abap'', ''c'', ''cpp'', ''csharp'', ''dart'', ''go'', ''java'', ''javascript'', ''json'',
      ''jsx'', ''kotlin'', ''lua'', ''php'', ''powershell'', ''python'', ''r'', ''ruby'',
      ''rust'', ''scala'', ''shell'', ''sql'', ''swift'', ''systemverilog'', ''tf'',
      ''typescript'', ''vue'', ''yaml'', ''tsx'']"

definition supportedSecurityScanLanguages :: "string list" where
  "supportedSecurityScanLanguages = [''csharp'']"

definition supportedWorkspaceContextLanguages :: "string list" where
  "supportedWorkspaceContextLanguages = [''java'', ''python'', ''javascript'', ''typescript'']"

definition languageByExtension :: "(string \<times> string) list" where
  "languageByExtension =
     [(''.abap'', ''abap''), (''.c'', ''c''), (''.cpp'', ''cpp''), (''.cs'', ''csharp''),
      (''.dart'', ''dart''), (''.h'', ''c''), (''.hcl'', ''tf''), (''.cc'', ''cpp''),
      (''.hpp'', ''cpp''), (''.go'', ''go''), (''.java'', ''java''), (''.js'', ''javascript''),
      (''.json'', ''json''), (''.jsonc'', ''json''), (''.jsx'', ''jsx''), (''.kt'', ''kotlin''),
      (''.kts'', ''kotlin''), (''.lua'', ''lua''), (''.wlua'', ''lua''), (''.php'', ''php''),
      (''.ps1'', ''powershell''), (''.psm1'', ''powershell''), (''.py'', ''python''),
      (''.r'', ''r''), (''.rb'', ''ruby''), (''.rs'', ''rust''), (''.sc'', ''scala''),
      (''.scala'', ''scala''), (''.sh'', ''shell''), (''.sql'', ''sql''),
      (''.sv'', ''systemverilog''), (''.svh'', ''systemverilog''), (''.swift'', ''swift''),
      (''.tf'', ''tf''), (''.ts'', ''typescript''), (''.tsx'', ''tsx''),
      (''.vh'', ''systemverilog''), (''.vue'', ''vue''), (''.yaml'', ''yaml''),
      (''.yml'', ''yaml'')]"

definition qLanguageIdByDocumentLanguageId :: "(string \<times> string) list" where
  "qLanguageIdByDocumentLanguageId =
     [(''abap'', ''abap''), (''c'', ''c''), (''cpp'', ''cpp''), (''csharp'', ''csharp''),
      (''dart'', ''dart''), (''go'', ''go''), (''java'', ''java''),
      (''javascript'', ''javascript''), (''javascriptreact'', ''jsx''), (''json'', ''json''),
      (''jsx'', ''jsx''), (''kotlin'', ''kotlin''), (''lua'', ''lua''),
      (''powershell'', ''powershell''), (''php'', ''php''), (''python'', ''python''),
      (''r'', ''r''), (''ruby'', ''ruby''), (''rust'', ''rust''), (''scala'', ''scala''),
      (''shell'', ''shell''), (''shellscript'', ''shell''), (''sql'', ''sql''),
      (''swift'', ''swift''), (''systemverilog'', ''systemverilog''), (''tf'', ''tf''),
      (''terraform'', ''tf''), (''typescript'', ''typescript''), (''typescriptreact'', ''tsx''),
      (''vue'', ''vue''), (''yaml'', ''yaml''), (''yml'', ''yaml'')]"

section \<open>Lookups\<close>

text \<open>The scan of \<^verbatim>\<open>Object.entries\<close> for the first key that satisfies a test.\<close>

fun first_entry :: "('k \<Rightarrow> bool) \<Rightarrow> ('k \<times> 'v) list \<Rightarrow> 'v option" where
  "first_entry P [] = None"
| "first_entry P ((k, v) # es) = (if P k then Some v else first_entry P es)"

text \<open>
  The exact lookup uses the bracket operator of a plain object, which also finds the functions an
  object inherits; these are no language ids. The result type keeps them apart.
\<close>

datatype language_value = Language string | Inherited

definition getCodeWhispererLanguageIdByTextDocumentLanguageId :: "string \<Rightarrow> language_value option" where
  "getCodeWhispererLanguageIdByTextDocumentLanguageId textDocumentLanguageId =
     (case map_of qLanguageIdByDocumentLanguageId textDocumentLanguageId of
        Some l \<Rightarrow> Some (Language l)
      | None \<Rightarrow>
          if textDocumentLanguageId \<in> set prototype_keys then Some Inherited
          else map_option Language
                 (first_entry (\<lambda>languageId. toLowerCase textDocumentLanguageId = toLowerCase languageId)
                    qLanguageIdByDocumentLanguageId))"

definition getCodeWhispererLanguageIdByExtension :: "text_document \<Rightarrow> string option" where
  "getCodeWhispererLanguageIdByExtension doc =
     first_entry (\<lambda>extension. endsWith (td_uri doc) extension) languageByExtension"

definition getLanguageId :: "text_document option \<Rightarrow> language_value option" where
  "getLanguageId doc =
     (case doc of
        None \<Rightarrow> None
      | Some d \<Rightarrow>
          (case getCodeWhispererLanguageIdByTextDocumentLanguageId (td_languageId d) of
             Some v \<Rightarrow> Some v
           | None \<Rightarrow> map_option Language (getCodeWhispererLanguageIdByExtension d)))"

definition getSupportedLanguageId :: "text_document option \<Rightarrow> string list \<Rightarrow> string option" where
  "getSupportedLanguageId doc supportedLanguageIds =
     (case doc of
        None \<Rightarrow> None
      | Some d \<Rightarrow>
          (case getLanguageId (Some d) of
             Some (Language l) \<Rightarrow> if l \<in> set supportedLanguageIds then Some l else None
           | _ \<Rightarrow> None))"

definition getRuntimeLanguage :: "string \<Rightarrow> string" where
  "getRuntimeLanguage language =
     (if language = ''jsx'' then ''javascript''
      else if language = ''tsx'' then ''typescript''
      else if language = ''systemVerilog'' then ''systemverilog''
      else language)"

definition getCodeWhispererLanguageIdFromPath :: "string \<Rightarrow> string option" where
  "getCodeWhispererLanguageIdFromPath filePath =
     (if endsWith filePath ''package.json'' then Some ''javascript''
      else map_option getRuntimeLanguage
             (first_entry (\<lambda>extension. endsWith filePath extension) languageByExtension))"

definition isJavaProjectFileFromPath :: "string \<Rightarrow> bool" where
  "isJavaProjectFileFromPath filePath \<longleftrightarrow>
     endsWith filePath ''build.gradle'' \<or> endsWith filePath ''build.gradle.kts'' \<or>
     endsWith filePath ''pom.xml'' \<or> endsWith filePath ''build.xml''"

section \<open>The scans as table lookups\<close>

lemma first_entry_map_of: "first_entry (\<lambda>k. k = x) es = map_of es x"
  by (induction es) auto

lemma first_entry_cong:
  assumes "\<And>k. k \<in> fst ` set es \<Longrightarrow> P k \<longleftrightarrow> Q k"
  shows "first_entry P es = first_entry Q es"
  using assms by (induction es) auto

text \<open>The last dot of a name and what follows it.\<close>

definition file_extension :: "string \<Rightarrow> string option" where
  "file_extension p =
     (if CHR ''.'' \<in> set p then Some (CHR ''.'' # last (split_on CHR ''.'' p)) else None)"

lemma suffix_dotted:
  assumes "CHR ''.'' \<notin> set w"
  shows "suffix (CHR ''.'' # w) p \<longleftrightarrow> file_extension p = Some (CHR ''.'' # w)"
proof
  assume "suffix (CHR ''.'' # w) p"
  then obtain u where "p = u @ CHR ''.'' # w" by (auto simp: suffix_def)
  with assms show "file_extension p = Some (CHR ''.'' # w)"
    by (simp add: file_extension_def last_split_on)
next
  assume f: "file_extension p = Some (CHR ''.'' # w)"
  then have "CHR ''.'' \<in> set p" by (simp add: file_extension_def split: if_splits)
  then obtain u v where p: "p = u @ CHR ''.'' # v" "CHR ''.'' \<notin> set v"
    using split_list_last by metis
  with f have "v = w" by (simp add: file_extension_def last_split_on)
  with p show "suffix (CHR ''.'' # w) p" by (simp add: suffix_def)
qed

lemma extensions_dotted:
  "list_all (\<lambda>e. e \<noteq> [] \<and> hd e = CHR ''.'' \<and> CHR ''.'' \<notin> set (tl e)) (map fst languageByExtension)"
  by (simp add: languageByExtension_def)

lemma extension_scan:
  "first_entry (\<lambda>e. endsWith p e) languageByExtension =
     (case file_extension p of None \<Rightarrow> None | Some e \<Rightarrow> map_of languageByExtension e)"
proof -
  have ends: "endsWith p e \<longleftrightarrow> file_extension p = Some e" if "e \<in> fst ` set languageByExtension" for e
  proof -
    have "e \<noteq> [] \<and> hd e = CHR ''.'' \<and> CHR ''.'' \<notin> set (tl e)"
      using that extensions_dotted unfolding list_all_iff set_map by blast
    then obtain w where "e = CHR ''.'' # w" "CHR ''.'' \<notin> set w" by (cases e) auto
    then show ?thesis by (simp add: endsWith_suffix suffix_dotted)
  qed
  have "first_entry (\<lambda>e. endsWith p e) languageByExtension =
      first_entry (\<lambda>e. file_extension p = Some e) languageByExtension"
    by (rule first_entry_cong) (rule ends)
  also have "\<dots> = (case file_extension p of None \<Rightarrow> None | Some e \<Rightarrow> map_of languageByExtension e)"
  proof (cases "file_extension p")
    case None
    have "first_entry (\<lambda>_. False) es = None" for es :: "(string \<times> string) list"
      by (induction es) auto
    with None show ?thesis by simp
  next
    case (Some e)
    have "(\<lambda>k. e = k) = (\<lambda>k. k = e)" by auto
    with Some show ?thesis by (simp add: first_entry_map_of)
  qed
  finally show ?thesis .
qed

lemma ids_lower: "list_all (\<lambda>k. toLowerCase k = k) (map fst qLanguageIdByDocumentLanguageId)"
  by (simp add: qLanguageIdByDocumentLanguageId_def toLowerCase_def lower_char_def)

lemma id_scan:
  "first_entry (\<lambda>k. toLowerCase i = toLowerCase k) qLanguageIdByDocumentLanguageId =
     map_of qLanguageIdByDocumentLanguageId (toLowerCase i)"
proof -
  have "first_entry (\<lambda>k. toLowerCase i = toLowerCase k) qLanguageIdByDocumentLanguageId =
      first_entry (\<lambda>k. k = toLowerCase i) qLanguageIdByDocumentLanguageId"
    by (rule first_entry_cong) (use ids_lower in \<open>auto simp: list_all_iff\<close>)
  then show ?thesis by (simp only: first_entry_map_of)
qed

lemma lower_idem: "toLowerCase (toLowerCase s) = toLowerCase s"
proof -
  have "lower_char (lower_char c) = lower_char c" for c
    by (simp add: lower_char_def Let_def)
  then show ?thesis by (simp add: toLowerCase_def)
qed

lemma id_exact_lower:
  "map_of qLanguageIdByDocumentLanguageId i = Some l \<Longrightarrow>
   map_of qLanguageIdByDocumentLanguageId (toLowerCase i) = Some l"
proof -
  assume l: "map_of qLanguageIdByDocumentLanguageId i = Some l"
  then have "i \<in> set (map fst qLanguageIdByDocumentLanguageId)"
    by (metis map_of_eq_None_iff option.distinct(1) set_map)
  then have "toLowerCase i = i" using ids_lower unfolding list_all_iff by blast
  with l show ?thesis by simp
qed

lemma table_languages_supported:
  "snd ` set qLanguageIdByDocumentLanguageId \<subseteq> set supportedFileTypes"
  "snd ` set languageByExtension \<subseteq> set supportedFileTypes"
  by (simp_all add: qLanguageIdByDocumentLanguageId_def languageByExtension_def supportedFileTypes_def)

text \<open>
  Which language a document has: the entry of its lower-cased language id, else the entry of the
  extension after the last dot of its URI. Neither answer depends on the order in which the code
  scans its tables, every language found is a supported one, and a language id that names a
  property all objects inherit makes the document unsupported whatever its extension.
\<close>

theorem supported_language_lookup:
  "getSupportedLanguageId (Some d) supportedFileTypes =
     (if td_languageId d \<in> set prototype_keys then None
      else case map_of qLanguageIdByDocumentLanguageId (toLowerCase (td_languageId d)) of
             Some l \<Rightarrow> Some l
           | None \<Rightarrow> (case file_extension (td_uri d) of
                        None \<Rightarrow> None
                      | Some e \<Rightarrow> map_of languageByExtension e))"
proof -
  let ?i = "td_languageId d"
  have proto: "?i \<in> set prototype_keys \<Longrightarrow> map_of qLanguageIdByDocumentLanguageId ?i = None"
    by (auto simp: prototype_keys_def qLanguageIdByDocumentLanguageId_def)
  have sup: "l \<in> set supportedFileTypes"
    if "map_of qLanguageIdByDocumentLanguageId k = Some l \<or> map_of languageByExtension k = Some l" for k l
    using that table_languages_supported by (auto dest!: map_of_SomeD)
  show ?thesis
  proof (cases "map_of qLanguageIdByDocumentLanguageId ?i")
    case (Some l)
    then show ?thesis
      using proto id_exact_lower [OF Some] sup [of ?i l]
      by (auto simp: getSupportedLanguageId_def getLanguageId_def
          getCodeWhispererLanguageIdByTextDocumentLanguageId_def)
  next
    case None
    show ?thesis
    proof (cases "?i \<in> set prototype_keys")
      case True
      then show ?thesis
        using None by (simp add: getSupportedLanguageId_def getLanguageId_def
            getCodeWhispererLanguageIdByTextDocumentLanguageId_def)
    next
      case False
      then show ?thesis
        using None sup
        by (auto simp: getSupportedLanguageId_def getLanguageId_def id_scan extension_scan
            getCodeWhispererLanguageIdByTextDocumentLanguageId_def getCodeWhispererLanguageIdByExtension_def
            split: option.split)
    qed
  qed
qed

end
