(* ===== verification/Documents.thy ===== *)
theory Documents
  imports Languages
begin

text \<open>
  What is read from an open document: the context around the cursor (\<^verbatim>\<open>ClientFileContextClss\<close> of
  \<^verbatim>\<open>shared/codeWhispererService.ts\<close>), the editor state sent with token requests
  (\<^verbatim>\<open>inline-completion/utils/textDocumentUtils.ts\<close>) and the positions and kinds of suggestions
  (\<^verbatim>\<open>shared/utils.ts\<close>). The document class belongs to a third-party package: its methods \<^verbatim>\<open>offsetAt\<close> and
  \<^verbatim>\<open>positionAt\<close> are parameters, and \<^verbatim>\<open>getText\<close> of a range is the substring between two offsets.
\<close>

section \<open>Constants\<close>

definition FILE_URI_CHARS_LIMIT :: nat where
  "FILE_URI_CHARS_LIMIT = 1024"

definition FILENAME_CHARS_LIMIT :: nat where
  "FILENAME_CHARS_LIMIT = 1024"

definition CONTEXT_CHARACTERS_LIMIT :: nat where
  "CONTEXT_CHARACTERS_LIMIT = 10240"

definition EDITOR_STATE_MAX_LENGTH :: nat where
  "EDITOR_STATE_MAX_LENGTH = 40000"

definition ABAP_EXTENSIONS :: "string list" where
  "ABAP_EXTENSIONS =
     [''asprog'', ''aclass'', ''asinc'', ''aint'', ''assrvds'', ''asbdef'', ''asddls'', ''astablds'',
      ''astabldt'', ''amdp'', ''apack'', ''asrv'', ''aobj'', ''aexit'', ''abdef'', ''acinc'', ''asfugr'',
      ''apfugr'', ''asfunc'', ''asfinc'', ''apfunc'', ''apfinc'']"

section \<open>The document class\<close>

record document_methods =
  offsetAt :: "text_document \<Rightarrow> position \<Rightarrow> nat"
  positionAt :: "text_document \<Rightarrow> nat \<Rightarrow> position"
  lineEnd :: "text_document \<Rightarrow> int \<Rightarrow> nat" \<comment> \<open>\<^verbatim>\<open>offsetAt\<close> of a position past the end of the line\<close>

definition getText_between :: "text_document \<Rightarrow> nat \<Rightarrow> nat \<Rightarrow> string" where
  "getText_between doc a b = substring (td_text doc) (int a) (int b)"

text \<open>
  The documented behaviour of the class: offsets lie inside the text, the origin is the start, and
  the position of the end of the text is the end.
\<close>

definition document_laws :: "document_methods \<Rightarrow> bool" where
  "document_laws m \<longleftrightarrow>
     (\<forall>doc p. offsetAt m doc p \<le> length (td_text doc)) \<and>
     (\<forall>doc. offsetAt m doc \<lparr>pos_line = 0, pos_character = 0\<rparr> = 0) \<and>
     (\<forall>doc. offsetAt m doc (positionAt m doc (length (td_text doc))) = length (td_text doc))"

section \<open>The context around the cursor\<close>

record ClientFileContextClss =
  cfc_leftFileContent :: string
  cfc_rightFileContent :: string
  cfc_filename :: string
  cfc_fileUri :: string
  cfc_languageName :: string
  cfc_leftContextAtCurLine :: string
  cfc_rightContextAtCurLine :: string

text \<open>
  \<^verbatim>\<open>relativeFilePath\<close> is the path relative to the workspace folder, or the base name: both come from
  path libraries and are computed before.
\<close>

definition getFileContext ::
    "document_methods \<Rightarrow> string \<Rightarrow> text_document \<Rightarrow> position \<Rightarrow> string \<Rightarrow> ClientFileContextClss" where
  "getFileContext m relativeFilePath doc pos inferredLanguageId =
     (let left = getText_between doc (offsetAt m doc \<lparr>pos_line = 0, pos_character = 0\<rparr>) (offsetAt m doc pos);
          trimmedLeft = crlf_to_lf (slice_from left (- int CONTEXT_CHARACTERS_LIMIT));
          right = getText_between doc (offsetAt m doc pos)
                    (offsetAt m doc (positionAt m doc (length (td_text doc))));
          trimmedRight = crlf_to_lf (slice right 0 (int CONTEXT_CHARACTERS_LIMIT))
      in \<lparr>cfc_leftFileContent = trimmedLeft,
          cfc_rightFileContent = trimmedRight,
          cfc_filename = substring relativeFilePath 0 (int FILENAME_CHARS_LIMIT),
          cfc_fileUri = substring (td_uri doc) 0 (int FILE_URI_CHARS_LIMIT),
          cfc_languageName = getRuntimeLanguage inferredLanguageId,
          cfc_leftContextAtCurLine =
            getText_between doc (offsetAt m doc \<lparr>pos_line = pos_line pos, pos_character = 0\<rparr>)
              (offsetAt m doc pos),
          cfc_rightContextAtCurLine = getText_between doc (offsetAt m doc pos) (lineEnd m doc (pos_line pos))\<rparr>)"

definition toServiceModel :: "ClientFileContextClss \<Rightarrow> FileContext" where
  "toServiceModel c =
     \<lparr>fc_fileUri = Some (cfc_fileUri c), fc_filename = cfc_filename c, fc_languageName = cfc_languageName c,
      fc_leftFileContent = cfc_leftFileContent c, fc_rightFileContent = cfc_rightFileContent c\<rparr>"

section \<open>The editor state\<close>

definition getEditorState ::
    "document_methods \<Rightarrow> text_document \<Rightarrow> position \<Rightarrow> string \<Rightarrow> EditorState" where
  "getEditorState m doc pos languageName =
     (let documentText = td_text doc;
          cursorOffset = int (offsetAt m doc pos);
          fileText =
            (if length documentText > EDITOR_STATE_MAX_LENGTH
             then let halfLength = int (EDITOR_STATE_MAX_LENGTH div 2);
                      leftPart = substring documentText (max 0 (cursorOffset - halfLength)) cursorOffset;
                      rightPart = substring documentText cursorOffset (cursorOffset + halfLength)
                  in leftPart @ rightPart
             else documentText)
      in \<lparr>es_relativeFilePath = td_uri doc, es_languageName = languageName, es_text = fileText,
          es_position = pos\<rparr>)"

text \<open>\<^verbatim>\<open>uri.split('.').pop()\<close> never fails, so neither does the function.\<close>

definition getLanguageIdFromUri :: "string \<Rightarrow> string" where
  "getLanguageIdFromUri uri =
     (if startsWith uri ''vscode-notebook-cell:'' then ''python''
      else let extension = toLowerCase (last (split_on CHR ''.'' uri))
           in if extension \<in> set ABAP_EXTENSIONS then ''abap'' else [])"

text \<open>The open document, else one created from the file, when the file can be read.\<close>

definition getTextDocument :: "text_document option \<Rightarrow> string option \<Rightarrow> string \<Rightarrow> text_document option" where
  "getTextDocument opened readFile uri =
     (case opened of
        Some d \<Rightarrow> Some d
      | None \<Rightarrow>
          map_option (\<lambda>content. \<lparr>td_uri = uri, td_languageId = getLanguageIdFromUri uri, td_version = 0,
                                 td_text = content\<rparr>) readFile)"

section \<open>Positions and kinds of suggestions\<close>

datatype completion_type = Line | Block

definition getCompletionType :: "string option \<Rightarrow> completion_type" where
  "getCompletionType content =
     (case content of
        None \<Rightarrow> Line
      | Some c \<Rightarrow> if length (filter (\<lambda>line. trim line \<noteq> []) (split_on LF c)) > 1 then Block else Line)"

definition getEndPositionForAcceptedSuggestion :: "string option \<Rightarrow> position \<Rightarrow> position" where
  "getEndPositionForAcceptedSuggestion content start =
     (let c = (case content of None \<Rightarrow> [] | Some s \<Rightarrow> s);
          insertedLines = split_on LF c;
          n = length insertedLines
      in if n = 1
         then \<lparr>pos_line = pos_line start, pos_character = pos_character start + int (length c)\<rparr>
         else \<lparr>pos_line = pos_line start + int n - 1,
               pos_character = int (length (insertedLines ! (n - 1)))\<rparr>)"

section \<open>Properties\<close>

lemma substring_take_drop: "i \<le> j \<Longrightarrow> substring s (int i) (int j) = take (j - i) (drop i s)"
  by (auto simp: substring_def clamp_index_def min_def max_def)

lemma crlf_to_lf_id: "CR \<notin> set s \<Longrightarrow> crlf_to_lf s = s"
  by (induction s rule: crlf_to_lf.induct) auto

lemma slice_from_last: "0 < n \<Longrightarrow> slice_from s (- int n) = drop (length s - n) s"
  by (cases "n \<le> length s") (simp_all add: slice_from_def slice_bound_def nat_diff_distrib)

lemma file_context_sides:
  fixes m :: document_methods and doc :: text_document and pos :: position
  assumes "document_laws m"
  defines "k \<equiv> offsetAt m doc pos"
  shows "cfc_leftFileContent (getFileContext m rel doc pos lang) = crlf_to_lf (drop (k - 10240) (take k (td_text doc)))"
    and "cfc_rightFileContent (getFileContext m rel doc pos lang) = crlf_to_lf (take 10240 (drop k (td_text doc)))"
proof -
  have k: "k \<le> length (td_text doc)" using assms by (simp add: document_laws_def)
  have left: "getText_between doc (offsetAt m doc \<lparr>pos_line = 0, pos_character = 0\<rparr>) k = take k (td_text doc)"
    using assms substring_take_drop [of 0 k "td_text doc"] by (simp add: document_laws_def getText_between_def)
  have right: "getText_between doc k (offsetAt m doc (positionAt m doc (length (td_text doc)))) =
      drop k (td_text doc)"
    using assms k substring_take_drop [of k "length (td_text doc)" "td_text doc"]
    by (simp add: document_laws_def getText_between_def)
  show "cfc_leftFileContent (getFileContext m rel doc pos lang) = crlf_to_lf (drop (k - 10240) (take k (td_text doc)))"
    using left k slice_from_last [of 10240 "take k (td_text doc)"]
    by (simp add: getFileContext_def k_def CONTEXT_CHARACTERS_LIMIT_def)
  show "cfc_rightFileContent (getFileContext m rel doc pos lang) = crlf_to_lf (take 10240 (drop k (td_text doc)))"
    using right slice_0_nat [of "drop k (td_text doc)" 10240]
    by (simp add: getFileContext_def k_def CONTEXT_CHARACTERS_LIMIT_def)
qed

text \<open>
  The context around the cursor loses nothing it need not lose: the two sides are at most 10240
  characters each, they are the text next to the cursor with line ends normalised, and together they
  are the whole document when the document has no carriage return and neither side exceeds the limit.
\<close>

theorem file_context_around_cursor:
  assumes "document_laws m"
  shows "let c = getFileContext m rel doc pos lang; k = offsetAt m doc pos;
      l = cfc_leftFileContent c; r = cfc_rightFileContent c
    in length l \<le> 10240 \<and> length r \<le> 10240 \<and>
       (if CR \<in> set (td_text doc) then True else suffix l (take k (td_text doc)) \<and> prefix r (drop k (td_text doc))) \<and>
       (if CR \<notin> set (td_text doc) \<and> k \<le> 10240 \<and> length (td_text doc) - k \<le> 10240
        then l @ r = td_text doc else True)"
proof -
  let ?k = "offsetAt m doc pos" and ?t = "td_text doc"
  have k: "?k \<le> length ?t" using assms by (simp add: document_laws_def)
  have len: "length (crlf_to_lf (drop (?k - 10240) (take ?k ?t))) \<le> 10240"
    "length (crlf_to_lf (take 10240 (drop ?k ?t))) \<le> 10240"
    using length_crlf_to_lf_le [of "drop (?k - 10240) (take ?k ?t)"]
      length_crlf_to_lf_le [of "take 10240 (drop ?k ?t)"] k by (simp_all add: min_def split: if_splits)
  have "CR \<notin> set ?t \<Longrightarrow> CR \<notin> set (drop (?k - 10240) (take ?k ?t))"
    "CR \<notin> set ?t \<Longrightarrow> CR \<notin> set (take 10240 (drop ?k ?t))"
    by (auto dest!: in_set_dropD in_set_takeD)
  then show ?thesis
    unfolding Let_def file_context_sides [OF assms]
    using len by (auto simp: crlf_to_lf_id suffix_drop take_is_prefix)
qed

text \<open>A document class in which lines are not needed: positions count characters.\<close>

definition flat_document :: document_methods where
  "flat_document =
     \<lparr>offsetAt = (\<lambda>doc p. min (length (td_text doc)) (nat (pos_character p))),
      positionAt = (\<lambda>doc n. \<lparr>pos_line = 0, pos_character = int n\<rparr>),
      lineEnd = (\<lambda>doc l. length (td_text doc))\<rparr>"

lemma flat_document_laws: "document_laws flat_document"
  by (simp add: document_laws_def flat_document_def)

definition flat_sample :: text_document where
  "flat_sample = \<lparr>td_uri = ''file:///a.py'', td_languageId = ''python'', td_version = 1, td_text = ''ab''\<rparr>"

theorem file_context_around_cursor_witness:
  "cfc_leftFileContent (getFileContext flat_document ''a.py'' flat_sample \<lparr>pos_line = 0, pos_character = 1\<rparr> ''python'') @
   cfc_rightFileContent (getFileContext flat_document ''a.py'' flat_sample \<lparr>pos_line = 0, pos_character = 1\<rparr> ''python'') =
   ''ab''"
  using file_context_around_cursor [OF flat_document_laws,
      of "''a.py''" flat_sample "\<lparr>pos_line = 0, pos_character = 1\<rparr>" "''python''"]
  by (simp add: Let_def flat_document_def flat_sample_def)

text \<open>
  The editor state sent with a request is a piece of the document around the cursor: at most 40000
  characters, contiguous, with the cursor inside or at its border, and the whole document when that is
  not longer.
\<close>

theorem editor_state_excerpt:
  assumes "document_laws m"
  shows "let t = es_text (getEditorState m doc pos lang); k = offsetAt m doc pos
    in length t \<le> 40000 \<and>
       (\<exists>a b. td_text doc = a @ t @ b \<and> length a \<le> k \<and> k \<le> length a + length t \<and>
          (if length (td_text doc) \<le> 40000 then a = [] \<and> b = [] else True))"
proof -
  let ?k = "offsetAt m doc pos" and ?t = "td_text doc"
  have k: "?k \<le> length ?t" using assms by (simp add: document_laws_def)
  show ?thesis
  proof (cases "length ?t > 40000")
    case False
    with k show ?thesis
      by (intro exI [of _ "[]"] | simp add: getEditorState_def EDITOR_STATE_MAX_LENGTH_def Let_def)+
  next
    case True
    have max: "max 0 (int ?k - 20000) = int (?k - 20000)" by simp
    have l: "substring ?t (max 0 (int ?k - 20000)) (int ?k) = drop (?k - 20000) (take ?k ?t)"
      unfolding max by (simp add: substring_take_drop drop_take)
    have r: "substring ?t (int ?k) (int ?k + 20000) = take 20000 (drop ?k ?t)"
      using substring_take_drop [of ?k "?k + 20000" ?t] by simp
    have e: "es_text (getEditorState m doc pos lang) = drop (?k - 20000) (take ?k ?t) @ take 20000 (drop ?k ?t)"
      using True l r by (simp add: getEditorState_def EDITOR_STATE_MAX_LENGTH_def Let_def)
    have "?t = take (?k - 20000) (take ?k ?t) @ (drop (?k - 20000) (take ?k ?t) @ take 20000 (drop ?k ?t)) @
        drop 20000 (drop ?k ?t)"
      by (metis append.assoc append_take_drop_id)
    moreover have "length (take (?k - 20000) (take ?k ?t)) \<le> ?k" by simp
    moreover have "?k \<le> length (take (?k - 20000) (take ?k ?t)) +
        length (drop (?k - 20000) (take ?k ?t) @ take 20000 (drop ?k ?t))"
      using k by simp
    moreover have "length (drop (?k - 20000) (take ?k ?t) @ take 20000 (drop ?k ?t)) \<le> 40000"
      using k by simp
    ultimately show ?thesis unfolding Let_def e using True by (metis not_le)
  qed
qed

theorem editor_state_excerpt_witness:
  "length (es_text (getEditorState flat_document flat_sample \<lparr>pos_line = 0, pos_character = 1\<rparr> ''python'')) \<le> 40000"
  using editor_state_excerpt [OF flat_document_laws,
      of flat_sample "\<lparr>pos_line = 0, pos_character = 1\<rparr>" "''python''"]
  by (simp only: Let_def)

end
