(* ===== verification/Trackers.thy ===== *)
theory Trackers
  imports Protocol
begin

text \<open>
  The small trackers behind inline suggestions: the acceptance streak
  (\<^verbatim>\<open>tracker/streakTracker.ts\<close>), the last-modification clock (\<^verbatim>\<open>documentChangedListener.ts\<close>), the
  per-language counters of code percentage and user-written code
  (\<^verbatim>\<open>tracker/codePercentageTracker.ts\<close>, \<^verbatim>\<open>shared/userWrittenCodeTracker.ts\<close>), and the memory of rejected
  edits (\<^verbatim>\<open>tracker/rejectedEditTracker.ts\<close>). Timers and the telemetry service are outside the model: the
  interval callbacks are the operations they run. JavaScript numbers that are not whole are reals.
\<close>

section \<open>The acceptance streak\<close>

record StreakTracker =
  streakLength :: nat

definition new_streak :: StreakTracker where
  "new_streak = \<lparr>streakLength = 0\<rparr>"

text \<open>A missing flag is falsy, like a rejection.\<close>

definition getAndUpdateStreakLength :: "StreakTracker \<Rightarrow> bool option \<Rightarrow> StreakTracker \<times> int" where
  "getAndUpdateStreakLength t isAccepted =
     (if isAccepted \<noteq> Some True \<and> streakLength t \<noteq> 0
      then (t\<lparr>streakLength := 0\<rparr>, int (streakLength t))
      else if isAccepted = Some True then (t\<lparr>streakLength := streakLength t + 1\<rparr>, -1)
      else (t, -1))"

fun streak_run :: "StreakTracker \<Rightarrow> bool option list \<Rightarrow> StreakTracker \<times> int list" where
  "streak_run t [] = (t, [])"
| "streak_run t (b # bs) =
     (let (t', r) = getAndUpdateStreakLength t b; (t'', rs) = streak_run t' bs in (t'', r # rs))"

section \<open>The modification clock\<close>

record DocumentChangedListener =
  lastUserModificationTime :: int
  timeSinceLastUserModification :: int

definition onDocumentChanged :: "DocumentChangedListener \<Rightarrow> int \<Rightarrow> int \<Rightarrow> DocumentChangedListener" where
  "onDocumentChanged s now now' =
     (let s' = (if lastUserModificationTime s \<noteq> 0
                then s\<lparr>timeSinceLastUserModification := now - lastUserModificationTime s\<rparr> else s)
      in s'\<lparr>lastUserModificationTime := now'\<rparr>)"

section \<open>Per-language buckets\<close>

text \<open>
  Both counters keep a dictionary of buckets by language; a bucket is created by the first
  operation that touches its language. The locale states what such a dictionary computes.
\<close>

definition get_bucket :: "'b \<Rightarrow> string \<Rightarrow> (string \<times> 'b) list \<Rightarrow> 'b" where
  "get_bucket fresh lang m = (case map_get m lang of None \<Rightarrow> fresh | Some b \<Rightarrow> b)"

lemma distinct_map_filter: "distinct (map f xs) \<Longrightarrow> distinct (map f (filter P xs))"
  by (induction xs) auto

locale bucket_counter =
  fixes fresh :: 'b
    and effect :: "'o \<Rightarrow> 'b \<Rightarrow> 'b"
    and lang_of :: "'o \<Rightarrow> string"
    and step :: "'o \<Rightarrow> (string \<times> 'b) list \<Rightarrow> (string \<times> 'b) list"
  assumes step_effect: "step op m = map_set (lang_of op) (effect op (get_bucket fresh (lang_of op) m)) m"
begin

lemma get_step:
  "map_get (step op m) l = (if l = lang_of op then Some (effect op (get_bucket fresh l m)) else map_get m l)"
  by (simp add: step_effect jsmap.get_put)

lemma wf_step: "map_wf m \<Longrightarrow> map_wf (step op m)"
  by (simp add: step_effect jsmap.wf_put)

lemma wf_run: "map_wf m \<Longrightarrow> map_wf (fold step ops m)"
  by (induction ops arbitrary: m) (simp_all add: wf_step)

lemma get_run_from:
  "map_get (fold step ops m) l =
     (if l \<in> lang_of ` set ops
      then Some (fold effect (filter (\<lambda>op. lang_of op = l) ops) (get_bucket fresh l m))
      else map_get m l)"
proof (induction ops arbitrary: m)
  case Nil
  then show ?case by simp
next
  case (Cons op ops)
  show ?case
  proof (cases "lang_of op = l")
    case True
    then have "get_bucket fresh l (step op m) = effect op (get_bucket fresh l m)"
      by (simp add: get_bucket_def [of fresh l "step op m"] get_step)
    moreover have "map_get (step op m) l = Some (effect op (get_bucket fresh l m))"
      using True by (simp add: get_step)
    moreover have "filter (\<lambda>op. lang_of op = l) ops = []" if "l \<notin> lang_of ` set ops"
      using that by (auto simp: filter_empty_conv)
    ultimately show ?thesis using Cons.IH [of "step op m"] True by auto
  next
    case False
    then have "get_bucket fresh l (step op m) = get_bucket fresh l m"
      by (simp add: get_bucket_def get_step)
    then show ?thesis using Cons.IH [of "step op m"] False by (auto simp: get_step)
  qed
qed

text \<open>Starting empty, a bucket is the effect of exactly the operations on its language.\<close>

lemma get_run:
  "map_get (fold step ops []) l =
     (if l \<in> lang_of ` set ops then Some (fold effect (filter (\<lambda>op. lang_of op = l) ops) fresh) else None)"
  using get_run_from [of ops "[]" l] by (simp add: get_bucket_def)

lemma mem_run:
  "(l, b) \<in> set (fold step ops []) \<longleftrightarrow>
     l \<in> lang_of ` set ops \<and> b = fold effect (filter (\<lambda>op. lang_of op = l) ops) fresh"
proof -
  have "map_wf (fold step ops [])" by (simp add: wf_run)
  then have "(l, b) \<in> set (fold step ops []) \<longleftrightarrow> map_get (fold step ops []) l = Some b"
    by (simp add: map_wf_def map_get_def map_of_eq_Some_iff)
  then show ?thesis by (auto simp: get_run)
qed

text \<open>The languages reported at the end of a period, with their buckets.\<close>

lemma reported_run:
  "set (filter (\<lambda>(l, b). live b) (fold step ops [])) =
     (\<lambda>l. (l, fold effect (filter (\<lambda>op. lang_of op = l) ops) fresh)) `
       {l \<in> lang_of ` set ops. live (fold effect (filter (\<lambda>op. lang_of op = l) ops) fresh)}"
  by (auto simp: mem_run)

lemma reported_distinct: "distinct (map fst (filter (\<lambda>(l, b). live b) (fold step ops [])))"
  using wf_run [of "[]" ops] by (simp add: map_wf_def distinct_map_filter)

end

section \<open>Code percentage\<close>

definition INSERT_CUTOFF_THRESHOLD :: nat where
  "INSERT_CUTOFF_THRESHOLD = 50"

record cp_bucket =
  totalTokens :: nat
  acceptedTokens :: nat
  invocationCount :: nat
  successCount :: nat

definition cp_fresh :: cp_bucket where
  "cp_fresh = \<lparr>totalTokens = 0, acceptedTokens = 0, invocationCount = 0, successCount = 0\<rparr>"

type_synonym cp_buckets = "(string \<times> cp_bucket) list"

text \<open>\<^verbatim>\<open>getLanguageBucket\<close> followed by an update of the bucket it returns.\<close>

definition with_bucket :: "'b \<Rightarrow> string \<Rightarrow> ('b \<Rightarrow> 'b) \<Rightarrow> (string \<times> 'b) list \<Rightarrow> (string \<times> 'b) list" where
  "with_bucket fresh lang f m = map_set lang (f (get_bucket fresh lang m)) m"

definition getCharacterCountFromComplexEvent :: "string \<Rightarrow> nat" where
  "getCharacterCountFromComplexEvent tokens =
     (if (startsWith tokens [LF] \<or> startsWith tokens [CR, LF]) \<and> length (trim tokens) = 0 then 1 else 0)"

text \<open>What \<^verbatim>\<open>countTotalTokens\<close> adds to the bucket.\<close>

definition total_tokens_of :: "string \<Rightarrow> bool \<Rightarrow> nat" where
  "total_tokens_of tokens fromCodeWhisperer =
     (if fromCodeWhisperer \<and> length tokens \<ge> INSERT_CUTOFF_THRESHOLD then length tokens
      else if length tokens = 1 then 1
      else let complexEventCount = getCharacterCountFromComplexEvent tokens
           in if complexEventCount \<noteq> 0 then complexEventCount
              else if \<not> fromCodeWhisperer \<and> length tokens < INSERT_CUTOFF_THRESHOLD \<and> length (trim tokens) > 0
              then length tokens else 0)"

definition countTotalTokens :: "string \<Rightarrow> string \<Rightarrow> bool \<Rightarrow> cp_buckets \<Rightarrow> cp_buckets" where
  "countTotalTokens lang tokens fromCodeWhisperer =
     with_bucket cp_fresh lang (\<lambda>b. b\<lparr>totalTokens := totalTokens b + total_tokens_of tokens fromCodeWhisperer\<rparr>)"

definition addTotalTokensForEdits :: "string \<Rightarrow> nat \<Rightarrow> cp_buckets \<Rightarrow> cp_buckets" where
  "addTotalTokensForEdits lang count =
     with_bucket cp_fresh lang
       (\<lambda>b. if count \<ge> INSERT_CUTOFF_THRESHOLD then b\<lparr>totalTokens := totalTokens b + count\<rparr> else b)"

definition countAcceptedTokensUsingCount :: "string \<Rightarrow> nat \<Rightarrow> cp_buckets \<Rightarrow> cp_buckets" where
  "countAcceptedTokensUsingCount lang count =
     with_bucket cp_fresh lang (\<lambda>b. b\<lparr>acceptedTokens := acceptedTokens b + count\<rparr>)"

definition countAcceptedTokens :: "string \<Rightarrow> string \<Rightarrow> cp_buckets \<Rightarrow> cp_buckets" where
  "countAcceptedTokens lang tokens = countAcceptedTokensUsingCount lang (length tokens)"

definition countInvocation :: "string \<Rightarrow> cp_buckets \<Rightarrow> cp_buckets" where
  "countInvocation lang = with_bucket cp_fresh lang (\<lambda>b. b\<lparr>invocationCount := invocationCount b + 1\<rparr>)"

definition countSuccess :: "string \<Rightarrow> cp_buckets \<Rightarrow> cp_buckets" where
  "countSuccess lang = with_bucket cp_fresh lang (\<lambda>b. b\<lparr>successCount := successCount b + 1\<rparr>)"

text \<open>The quotient of two counts can leave the finite numbers.\<close>

datatype js_number = Finite real | PosInfinity | NotANumber

definition div_counts :: "nat \<Rightarrow> nat \<Rightarrow> js_number" where
  "div_counts a b = (if b \<noteq> 0 then Finite (real a / real b) else if a \<noteq> 0 then PosInfinity else NotANumber)"

definition roundTwoDecimals :: "real \<Rightarrow> real" where
  "roundTwoDecimals n = of_int \<lfloor>(n + 1 / 2 ^ 52) * 100 + 1 / 2\<rfloor> / 100"

text \<open>\<^verbatim>\<open>roundTwoDecimals((accepted / total) * 100) || 0\<close>: \<^verbatim>\<open>NaN\<close> and zero become 0, infinity stays.\<close>

definition code_percentage :: "cp_bucket \<Rightarrow> js_number" where
  "code_percentage b =
     (case div_counts (acceptedTokens b) (totalTokens b) of
        Finite q \<Rightarrow> Finite (roundTwoDecimals (q * 100))
      | PosInfinity \<Rightarrow> PosInfinity
      | NotANumber \<Rightarrow> Finite 0)"

record CodePercentageEvent =
  ev_totalTokens :: nat
  ev_language :: string
  ev_suggestedTokens :: nat
  ev_percentage :: js_number
  ev_successCount :: nat

definition cp_event :: "string \<times> cp_bucket \<Rightarrow> CodePercentageEvent" where
  "cp_event e = (case e of (lang, b) \<Rightarrow>
     \<lparr>ev_totalTokens = totalTokens b, ev_language = lang, ev_suggestedTokens = acceptedTokens b,
      ev_percentage = code_percentage b, ev_successCount = successCount b\<rparr>)"

definition cp_rotate :: "cp_buckets \<Rightarrow> cp_buckets \<times> cp_buckets" where
  "cp_rotate m = ([], m)"

definition cp_getEventDataAndRotate :: "cp_buckets \<Rightarrow> cp_buckets \<times> CodePercentageEvent list" where
  "cp_getEventDataAndRotate m =
     (let (m', previousBuckets) = cp_rotate m
      in (m', map cp_event (filter (\<lambda>(l, b). invocationCount b > 0) previousBuckets)))"

text \<open>The operations as data, for statements about a whole reporting period.\<close>

datatype cp_op =
    CountTotal string string bool
  | TotalForEdits string nat
  | Accepted string nat
  | Invocation string
  | Success string

fun cp_step :: "cp_op \<Rightarrow> cp_buckets \<Rightarrow> cp_buckets" where
  "cp_step (CountTotal l t f) = countTotalTokens l t f"
| "cp_step (TotalForEdits l n) = addTotalTokensForEdits l n"
| "cp_step (Accepted l n) = countAcceptedTokensUsingCount l n"
| "cp_step (Invocation l) = countInvocation l"
| "cp_step (Success l) = countSuccess l"

fun cp_lang :: "cp_op \<Rightarrow> string" where
  "cp_lang (CountTotal l t f) = l"
| "cp_lang (TotalForEdits l n) = l"
| "cp_lang (Accepted l n) = l"
| "cp_lang (Invocation l) = l"
| "cp_lang (Success l) = l"

fun cp_total :: "cp_op \<Rightarrow> nat" where
  "cp_total (CountTotal l t f) = total_tokens_of t f"
| "cp_total (TotalForEdits l n) = (if n \<ge> INSERT_CUTOFF_THRESHOLD then n else 0)"
| "cp_total _ = 0"

fun cp_accepted :: "cp_op \<Rightarrow> nat" where
  "cp_accepted (Accepted l n) = n"
| "cp_accepted _ = 0"

fun cp_invocation :: "cp_op \<Rightarrow> nat" where
  "cp_invocation (Invocation l) = 1"
| "cp_invocation _ = 0"

fun cp_success :: "cp_op \<Rightarrow> nat" where
  "cp_success (Success l) = 1"
| "cp_success _ = 0"

definition cp_effect :: "cp_op \<Rightarrow> cp_bucket \<Rightarrow> cp_bucket" where
  "cp_effect op b =
     \<lparr>totalTokens = totalTokens b + cp_total op, acceptedTokens = acceptedTokens b + cp_accepted op,
      invocationCount = invocationCount b + cp_invocation op, successCount = successCount b + cp_success op\<rparr>"

lemmas cp_op_defs = countTotalTokens_def addTotalTokensForEdits_def countAcceptedTokensUsingCount_def
  countInvocation_def countSuccess_def with_bucket_def

lemma cp_effect_simps:
  "cp_effect (CountTotal l t f) b = b\<lparr>totalTokens := totalTokens b + total_tokens_of t f\<rparr>"
  "cp_effect (TotalForEdits l n) b =
     (if n \<ge> INSERT_CUTOFF_THRESHOLD then b\<lparr>totalTokens := totalTokens b + n\<rparr> else b)"
  "cp_effect (Accepted l n) b = b\<lparr>acceptedTokens := acceptedTokens b + n\<rparr>"
  "cp_effect (Invocation l) b = b\<lparr>invocationCount := invocationCount b + 1\<rparr>"
  "cp_effect (Success l) b = b\<lparr>successCount := successCount b + 1\<rparr>"
  by (cases b; simp add: cp_effect_def)+

interpretation cp: bucket_counter cp_fresh cp_effect cp_lang cp_step
proof unfold_locales
  show "cp_step op m = map_set (cp_lang op) (cp_effect op (get_bucket cp_fresh (cp_lang op) m)) m" for op m
    by (cases op) (simp_all add: cp_op_defs cp_effect_simps)
qed

lemma cp_effect_fold:
  "fold cp_effect ops b =
     \<lparr>totalTokens = totalTokens b + sum_list (map cp_total ops),
      acceptedTokens = acceptedTokens b + sum_list (map cp_accepted ops),
      invocationCount = invocationCount b + sum_list (map cp_invocation ops),
      successCount = successCount b + sum_list (map cp_success ops)\<rparr>"
  by (induction ops arbitrary: b) (simp_all add: cp_effect_def)

lemma invoked_iff:
  "sum_list (map cp_invocation (filter (\<lambda>op. cp_lang op = l) ops)) > 0 \<longleftrightarrow> Invocation l \<in> set ops"
proof (induction ops)
  case Nil
  then show ?case by simp
next
  case (Cons op ops)
  then show ?case by (cases op) auto
qed

text \<open>
  The events of a reporting period are exact: after any operations on an empty tracker there is
  one event for each language that was invoked and none for any other, its counts are the sums over
  the operations on that language, and reporting empties the tracker.
\<close>

theorem code_percentage_events:
  "fst (cp_getEventDataAndRotate (fold cp_step ops [])) = [] \<and>
   distinct (map ev_language (snd (cp_getEventDataAndRotate (fold cp_step ops [])))) \<and>
   (\<lambda>e. (ev_language e, ev_totalTokens e, ev_suggestedTokens e, ev_successCount e)) `
       set (snd (cp_getEventDataAndRotate (fold cp_step ops []))) =
     (\<lambda>l. let os = filter (\<lambda>op. cp_lang op = l) ops
           in (l, sum_list (map cp_total os), sum_list (map cp_accepted os), sum_list (map cp_success os))) `
       {l. Invocation l \<in> set ops}"
proof -
  let ?os = "\<lambda>l. filter (\<lambda>op. cp_lang op = l) ops"
  let ?sel = "filter (\<lambda>(l, b). invocationCount b > 0) (fold cp_step ops [])"
  have rot: "cp_getEventDataAndRotate (fold cp_step ops []) = ([], map cp_event ?sel)"
    by (simp add: cp_getEventDataAndRotate_def cp_rotate_def)
  have langs: "map ev_language (map cp_event ms) = map fst ms" for ms
    by (induction ms) (auto simp: cp_event_def)
  have "{l \<in> cp_lang ` set ops. invocationCount (fold cp_effect (?os l) cp_fresh) > 0} =
      {l. Invocation l \<in> set ops}"
    by (simp add: cp_effect_fold cp_fresh_def invoked_iff) (force intro: image_eqI)
  then have "set ?sel = (\<lambda>l. (l, fold cp_effect (?os l) cp_fresh)) ` {l. Invocation l \<in> set ops}"
    unfolding cp.reported_run by simp
  then have "(\<lambda>e. (ev_language e, ev_totalTokens e, ev_suggestedTokens e, ev_successCount e)) ` set (map cp_event ?sel) =
      (\<lambda>l. (l, sum_list (map cp_total (?os l)), sum_list (map cp_accepted (?os l)), sum_list (map cp_success (?os l)))) `
       {l. Invocation l \<in> set ops}"
    by (simp only: list.set_map) (simp add: image_image cp_event_def cp_effect_fold cp_fresh_def)
  with cp.reported_distinct show ?thesis
    unfolding rot by (simp only: fst_conv snd_conv langs Let_def simp_thms)
qed

lemma roundTwoDecimals_bounds:
  assumes "0 \<le> x" "x \<le> 100"
  shows "0 \<le> roundTwoDecimals x" "roundTwoDecimals x \<le> 100"
proof -
  have "(x + 1 / 2 ^ 52) * 100 + 1 / 2 < 10001" using assms by simp
  then have "\<lfloor>(x + 1 / 2 ^ 52) * 100 + 1 / 2\<rfloor> \<le> 10000" by (simp add: floor_le_iff)
  then show "roundTwoDecimals x \<le> 100" by (simp add: roundTwoDecimals_def)
  show "0 \<le> roundTwoDecimals x" using assms by (simp add: roundTwoDecimals_def)
qed

text \<open>
  The reported percentage lies between 0 and 100 whenever no more characters were accepted
  than were counted in total, and it is 0 for a language with no counted characters at all; with
  accepted but no counted characters it is infinite.
\<close>

theorem code_percentage_bounds:
  "(acceptedTokens b \<le> totalTokens b \<longrightarrow> (\<exists>p. code_percentage b = Finite p \<and> 0 \<le> p \<and> p \<le> 100)) \<and>
   (totalTokens b = 0 \<longrightarrow> code_percentage b = (if acceptedTokens b = 0 then Finite 0 else PosInfinity))"
proof (intro conjI impI)
  assume le: "acceptedTokens b \<le> totalTokens b"
  show "\<exists>p. code_percentage b = Finite p \<and> 0 \<le> p \<and> p \<le> 100"
  proof (cases "totalTokens b = 0")
    case True
    then show ?thesis using le by (simp add: code_percentage_def div_counts_def)
  next
    case False
    then have "real (acceptedTokens b) / real (totalTokens b) * 100 \<le> 100"
      using le by (simp add: divide_le_eq)
    then show ?thesis
      using False roundTwoDecimals_bounds [of "real (acceptedTokens b) / real (totalTokens b) * 100"]
      by (simp add: code_percentage_def div_counts_def)
  qed
qed (simp add: code_percentage_def div_counts_def)

theorem code_percentage_bounds_witness:
  "\<exists>p. code_percentage (cp_fresh\<lparr>totalTokens := 4, acceptedTokens := 3\<rparr>) = Finite p \<and> 0 \<le> p \<and> p \<le> 100"
  using code_percentage_bounds [of "cp_fresh\<lparr>totalTokens := 4, acceptedTokens := 3\<rparr>"] by simp

section \<open>User-written code\<close>

definition RESET_Q_EDITING_THRESHOLD :: real where
  "RESET_Q_EDITING_THRESHOLD = 2 * 60 * 1000"

record uw_bucket =
  userWrittenCodeCharacterCount :: nat
  userWrittenCodeLineCount :: nat
  uw_invocationCount :: nat

definition uw_fresh :: uw_bucket where
  "uw_fresh = \<lparr>userWrittenCodeCharacterCount = 0, userWrittenCodeLineCount = 0, uw_invocationCount = 0\<rparr>"

record UserWrittenCodeTracker =
  qIsMakingEdits :: bool
  lastQInvocationTime :: real
  uw_buckets :: "(string \<times> uw_bucket) list"

definition new_user_written :: UserWrittenCodeTracker where
  "new_user_written = \<lparr>qIsMakingEdits = False, lastQInvocationTime = 0, uw_buckets = []\<rparr>"

definition recordUsageCount :: "string \<Rightarrow> real \<Rightarrow> UserWrittenCodeTracker \<Rightarrow> UserWrittenCodeTracker" where
  "recordUsageCount lang now t =
     t\<lparr>uw_buckets := with_bucket uw_fresh lang (\<lambda>b. b\<lparr>uw_invocationCount := uw_invocationCount b + 1\<rparr>)
         (uw_buckets t),
       lastQInvocationTime := now\<rparr>"

definition onQStartsMakingEdits :: "UserWrittenCodeTracker \<Rightarrow> UserWrittenCodeTracker" where
  "onQStartsMakingEdits t = t\<lparr>qIsMakingEdits := True\<rparr>"

definition onQFinishesEdits :: "UserWrittenCodeTracker \<Rightarrow> UserWrittenCodeTracker" where
  "onQFinishesEdits t = t\<lparr>qIsMakingEdits := False\<rparr>"

definition uw_reset :: "UserWrittenCodeTracker \<Rightarrow> UserWrittenCodeTracker" where
  "uw_reset t = t\<lparr>qIsMakingEdits := False, lastQInvocationTime := 0\<rparr>"

definition countNewLines :: "string \<Rightarrow> nat" where
  "countNewLines str = length (split_on LF str) - 1"

definition countUserWrittenTokens ::
    "string \<Rightarrow> string \<Rightarrow> real \<Rightarrow> UserWrittenCodeTracker \<Rightarrow> UserWrittenCodeTracker" where
  "countUserWrittenTokens lang tokens now t =
     (if qIsMakingEdits t
      then if now - lastQInvocationTime t > RESET_Q_EDITING_THRESHOLD then t\<lparr>qIsMakingEdits := False\<rparr> else t
      else t\<lparr>uw_buckets := with_bucket uw_fresh lang
               (\<lambda>b. if length tokens > INSERT_CUTOFF_THRESHOLD then b
                    else b\<lparr>userWrittenCodeCharacterCount := userWrittenCodeCharacterCount b + length tokens,
                           userWrittenCodeLineCount := userWrittenCodeLineCount b + countNewLines tokens\<rparr>)
               (uw_buckets t)\<rparr>)"

record UserWrittenPercentageEvent =
  uwe_language :: string
  uwe_characterCount :: nat
  uwe_lineCount :: nat

definition uw_event :: "string \<times> uw_bucket \<Rightarrow> UserWrittenPercentageEvent" where
  "uw_event e = (case e of (lang, b) \<Rightarrow>
     \<lparr>uwe_language = lang, uwe_characterCount = userWrittenCodeCharacterCount b,
      uwe_lineCount = userWrittenCodeLineCount b\<rparr>)"

definition uw_rotate :: "UserWrittenCodeTracker \<Rightarrow> UserWrittenCodeTracker \<times> (string \<times> uw_bucket) list" where
  "uw_rotate t = (t\<lparr>uw_buckets := []\<rparr>, uw_buckets t)"

definition uw_getEventDataAndRotate ::
    "UserWrittenCodeTracker \<Rightarrow> UserWrittenCodeTracker \<times> UserWrittenPercentageEvent list" where
  "uw_getEventDataAndRotate t =
     (let (t', previousBuckets) = uw_rotate t
      in (t', map uw_event (filter (\<lambda>(l, b). uw_invocationCount b > 0) previousBuckets)))"

text \<open>The tracker's operations as data, and the part of a run that reaches the buckets.\<close>

datatype uw_op =
    RecordUsage string real
  | StartEdits
  | FinishEdits
  | ResetEdits
  | CountTokens string string real

fun uw_step :: "uw_op \<Rightarrow> UserWrittenCodeTracker \<Rightarrow> UserWrittenCodeTracker" where
  "uw_step (RecordUsage l now) = recordUsageCount l now"
| "uw_step StartEdits = onQStartsMakingEdits"
| "uw_step FinishEdits = onQFinishesEdits"
| "uw_step ResetEdits = uw_reset"
| "uw_step (CountTokens l s now) = countUserWrittenTokens l s now"

datatype uw_count = Usage string | Typed string string

fun uw_lang :: "uw_count \<Rightarrow> string" where
  "uw_lang (Usage l) = l"
| "uw_lang (Typed l s) = l"

fun uw_effect :: "uw_count \<Rightarrow> uw_bucket \<Rightarrow> uw_bucket" where
  "uw_effect (Usage l) b = b\<lparr>uw_invocationCount := uw_invocationCount b + 1\<rparr>"
| "uw_effect (Typed l s) b =
     (if length s > INSERT_CUTOFF_THRESHOLD then b
      else b\<lparr>userWrittenCodeCharacterCount := userWrittenCodeCharacterCount b + length s,
             userWrittenCodeLineCount := userWrittenCodeLineCount b + countNewLines s\<rparr>)"

definition uw_count_step :: "uw_count \<Rightarrow> (string \<times> uw_bucket) list \<Rightarrow> (string \<times> uw_bucket) list" where
  "uw_count_step c = with_bucket uw_fresh (uw_lang c) (uw_effect c)"

interpretation uw: bucket_counter uw_fresh uw_effect uw_lang uw_count_step
  by unfold_locales (simp add: uw_count_step_def with_bucket_def)

text \<open>
  What of a run counts: every use of a feature, and typed text except while the assistant is
  editing; a count that arrives more than two minutes after the last use clears the editing flag
  but is itself not counted.
\<close>

fun effective :: "bool \<Rightarrow> real \<Rightarrow> uw_op list \<Rightarrow> uw_count list" where
  "effective q t [] = []"
| "effective q t (RecordUsage l now # ops) = Usage l # effective q now ops"
| "effective q t (StartEdits # ops) = effective True t ops"
| "effective q t (FinishEdits # ops) = effective False t ops"
| "effective q t (ResetEdits # ops) = effective False 0 ops"
| "effective q t (CountTokens l s now # ops) =
     (if q then effective (now - t \<le> RESET_Q_EDITING_THRESHOLD) t ops
      else Typed l s # effective False t ops)"

definition typed_text :: "string \<Rightarrow> uw_count list \<Rightarrow> string list" where
  "typed_text l cs =
     concat (map (\<lambda>c. case c of Typed l' s \<Rightarrow> if l' = l \<and> length s \<le> 50 then [s] else [] | Usage _ \<Rightarrow> []) cs)"

lemma uw_run_buckets:
  "uw_buckets (fold uw_step ops t) =
     fold uw_count_step (effective (qIsMakingEdits t) (lastQInvocationTime t) ops) (uw_buckets t)"
proof (induction ops arbitrary: t)
  case Nil
  then show ?case by simp
next
  case (Cons op ops)
  then show ?case
    by (cases op) (simp_all add: recordUsageCount_def onQStartsMakingEdits_def onQFinishesEdits_def
        uw_reset_def countUserWrittenTokens_def uw_count_step_def not_less [symmetric] with_bucket_def)
qed

lemma uw_effect_fold:
  "fold uw_effect (filter (\<lambda>c. uw_lang c = l) cs) b =
     \<lparr>userWrittenCodeCharacterCount = userWrittenCodeCharacterCount b + sum_list (map length (typed_text l cs)),
      userWrittenCodeLineCount = userWrittenCodeLineCount b + sum_list (map (\<lambda>s. count_list s LF) (typed_text l cs)),
      uw_invocationCount = uw_invocationCount b + count_list cs (Usage l)\<rparr>"
proof (induction cs arbitrary: b)
  case Nil
  then show ?case by (simp add: typed_text_def)
next
  case (Cons c cs)
  then show ?case
    by (cases c) (auto simp: typed_text_def countNewLines_def length_split_on INSERT_CUTOFF_THRESHOLD_def)
qed

text \<open>
  User-written code is reported exactly: after any run of a new tracker the report has one event
  for each language in which a feature was used and no other, with the characters and line breaks
  of the texts of at most 50 characters typed in that language while the assistant was not editing.
\<close>

theorem user_written_events:
  "let t = fold uw_step ops new_user_written; cs = effective False 0 ops;
       (t', events) = uw_getEventDataAndRotate t
   in uw_buckets t' = [] \<and> distinct (map uwe_language events) \<and>
      (\<lambda>e. (uwe_language e, uwe_characterCount e, uwe_lineCount e)) ` set events =
      (\<lambda>l. (l, sum_list (map length (typed_text l cs)),
            sum_list (map (\<lambda>s. count_list s LF) (typed_text l cs)))) ` {l. Usage l \<in> set cs}"
proof -
  let ?cs = "effective False 0 ops"
  let ?sel = "filter (\<lambda>(l, b). uw_invocationCount b > 0) (fold uw_count_step ?cs [])"
  have buckets: "uw_buckets (fold uw_step ops new_user_written) = fold uw_count_step ?cs []"
    by (simp add: uw_run_buckets new_user_written_def)
  have rot: "uw_getEventDataAndRotate (fold uw_step ops new_user_written) =
      ((fold uw_step ops new_user_written)\<lparr>uw_buckets := []\<rparr>, map uw_event ?sel)"
    by (simp add: uw_getEventDataAndRotate_def uw_rotate_def buckets)
  have langs: "map uwe_language (map uw_event ms) = map fst ms" for ms
    by (induction ms) (auto simp: uw_event_def)
  have "{l \<in> uw_lang ` set ?cs. uw_invocationCount (fold uw_effect (filter (\<lambda>c. uw_lang c = l) ?cs) uw_fresh) > 0} =
      {l. Usage l \<in> set ?cs}"
    by (simp add: uw_effect_fold uw_fresh_def neq0_conv [symmetric] count_list_0_iff del: neq0_conv)
      (force intro: image_eqI)
  then have "set ?sel = (\<lambda>l. (l, fold uw_effect (filter (\<lambda>c. uw_lang c = l) ?cs) uw_fresh)) ` {l. Usage l \<in> set ?cs}"
    unfolding uw.reported_run by simp
  then have "(\<lambda>e. (uwe_language e, uwe_characterCount e, uwe_lineCount e)) ` set (map uw_event ?sel) =
      (\<lambda>l. (l, sum_list (map length (typed_text l ?cs)),
            sum_list (map (\<lambda>s. count_list s LF) (typed_text l ?cs)))) ` {l. Usage l \<in> set ?cs}"
    by (simp only: list.set_map) (simp add: image_image uw_event_def uw_effect_fold uw_fresh_def)
  moreover have "uw_buckets (t\<lparr>uw_buckets := []\<rparr>) = []" for t :: UserWrittenCodeTracker by simp
  ultimately show ?thesis
    unfolding rot Let_def prod.case langs using uw.reported_distinct by (simp only: simp_thms)
qed

section \<open>Streaks\<close>

text \<open>The reported streaks, without the placeholder -1.\<close>

definition reported_streaks :: "int list \<Rightarrow> int list" where
  "reported_streaks rs = filter (\<lambda>r. r \<noteq> -1) rs"

text \<open>
  Streaks account for every acceptance exactly once: along any run of a new tracker the reported
  streaks and the streak still running add up to the number of accepted suggestions, every reported
  streak is positive, and a run of acceptances is reported by the first decision that ends it.
\<close>

theorem streak_accounts_for_accepts:
  "let (t, rs) = streak_run new_streak bs
   in sum_list (reported_streaks rs) + int (streakLength t) = int (count_list bs (Some True)) \<and>
      list_all (\<lambda>r. r > 0) (reported_streaks rs) \<and>
      snd (getAndUpdateStreakLength t (Some False)) = (if streakLength t = 0 then -1 else int (streakLength t))"
proof -
  have run: "sum_list (reported_streaks (snd (streak_run t bs))) + int (streakLength (fst (streak_run t bs))) =
      int (streakLength t) + int (count_list bs (Some True)) \<and>
      list_all (\<lambda>r. r > 0) (reported_streaks (snd (streak_run t bs)))" for t
  proof (induction bs arbitrary: t)
    case Nil
    then show ?case by (simp add: reported_streaks_def)
  next
    case (Cons b bs)
    show ?case
      using Cons.IH [of "fst (getAndUpdateStreakLength t b)"]
      by (auto simp: reported_streaks_def getAndUpdateStreakLength_def Let_def split_beta split: if_splits)
  qed
  show ?thesis
    using run [of new_streak] by (simp add: split_beta new_streak_def getAndUpdateStreakLength_def)
qed

end
