(* ===== verification/Rejected_Edits.thy ===== *)
theory Rejected_Edits
  imports Protocol
begin

text \<open>
  The memory of rejected edits (\<^verbatim>\<open>inline-completion/tracker/rejectedEditTracker.ts\<close>): the newest rejected
  edits are kept, and a new edit is compared with those of the same document after normalisation. The
  function \<^verbatim>\<open>distance\<close> of the package \<^verbatim>\<open>fastest-levenshtein\<close> is a parameter.
\<close>

section \<open>Definitions\<close>

record RejectedEditEntry =
  rej_content :: string
  rej_timestamp :: int
  rej_documentUri :: string
  rej_position :: position

record RejectedEditTrackerConfig =
  maxEntries :: nat
  similarityThreshold :: real

definition DEFAULT_REJECTED_EDIT_TRACKER_CONFIG :: RejectedEditTrackerConfig where
  "DEFAULT_REJECTED_EDIT_TRACKER_CONFIG = \<lparr>maxEntries = 50, similarityThreshold = 1\<rparr>"

record RejectedEditTracker =
  rejectedEdits :: "RejectedEditEntry list"

definition new_rejected :: RejectedEditTracker where
  "new_rejected = \<lparr>rejectedEdits = []\<rparr>"

definition enforceMaxEntries :: "RejectedEditTrackerConfig \<Rightarrow> RejectedEditTracker \<Rightarrow> RejectedEditTracker" where
  "enforceMaxEntries cfg t =
     (if length (rejectedEdits t) > maxEntries cfg
      then t\<lparr>rejectedEdits := take (maxEntries cfg) (rejectedEdits t)\<rparr> else t)"

definition recordRejectedEdit ::
    "RejectedEditTrackerConfig \<Rightarrow> RejectedEditEntry \<Rightarrow> RejectedEditTracker \<Rightarrow> RejectedEditTracker" where
  "recordRejectedEdit cfg edit t = enforceMaxEntries cfg (t\<lparr>rejectedEdits := edit # rejectedEdits t\<rparr>)"

definition clear :: "RejectedEditTracker \<Rightarrow> RejectedEditTracker" where
  "clear t = t\<lparr>rejectedEdits := []\<rparr>"

definition getCount :: "RejectedEditTracker \<Rightarrow> nat" where
  "getCount t = length (rejectedEdits t)"

definition dispose :: "RejectedEditTracker \<Rightarrow> RejectedEditTracker" where
  "dispose t = clear t"

subsection \<open>Normalisation\<close>

text \<open>
  The regular expression \<^verbatim>\<open>@@\s+-\d+,\d+\s+\+\d+,\d+\s+@@\<close> at the start of a string: the rest behind the
  match. Each repetition is followed by a character outside its class, so matching never backtracks.
\<close>

definition expect :: "string \<Rightarrow> string \<Rightarrow> string option" where
  "expect lit s = (if startsWith s lit then Some (drop (length lit) s) else None)"

definition some_of :: "(char \<Rightarrow> bool) \<Rightarrow> string \<Rightarrow> string option" where
  "some_of P s = (case s of [] \<Rightarrow> None | c # _ \<Rightarrow> if P c then Some (dropWhile P s) else None)"

definition digits_pair :: "string \<Rightarrow> string option" where
  "digits_pair s =
     Option.bind (some_of is_digit_char s) (\<lambda>s1.
     Option.bind (expect '','' s1) (\<lambda>s2. some_of is_digit_char s2))"

definition hunk_header :: "string \<Rightarrow> string option" where
  "hunk_header s =
     Option.bind (expect ''@@'' s) (\<lambda>s1.
     Option.bind (some_of is_ws s1) (\<lambda>s2.
     Option.bind (expect ''-'' s2) (\<lambda>s3.
     Option.bind (digits_pair s3) (\<lambda>s4.
     Option.bind (some_of is_ws s4) (\<lambda>s5.
     Option.bind (expect ''+'' s5) (\<lambda>s6.
     Option.bind (digits_pair s6) (\<lambda>s7.
     Option.bind (some_of is_ws s7) (\<lambda>s8. expect ''@@'' s8))))))))"

lemma expect_length: "expect lit s = Some r \<Longrightarrow> length r \<le> length s"
  by (auto simp: expect_def split: if_splits)

lemma some_of_length: "some_of P s = Some r \<Longrightarrow> length r < length s"
  by (auto simp: some_of_def less_Suc_eq_le length_dropWhile_le split: list.splits if_splits)

lemma digits_pair_length: "digits_pair s = Some r \<Longrightarrow> length r < length s"
  unfolding digits_pair_def bind_eq_Some_conv by (auto dest!: some_of_length expect_length)

lemma hunk_header_length: "hunk_header s = Some r \<Longrightarrow> length r < length s"
  unfolding hunk_header_def bind_eq_Some_conv
  by (auto dest!: some_of_length expect_length digits_pair_length)

text \<open>\<^verbatim>\<open>replace(..., '')\<close> with the global flag.\<close>

function remove_hunk_headers :: "string \<Rightarrow> string" where
  "remove_hunk_headers [] = []"
| "remove_hunk_headers (c # s) =
     (case hunk_header (c # s) of
        Some r \<Rightarrow> remove_hunk_headers r
      | None \<Rightarrow> c # remove_hunk_headers s)"
  by pat_completeness auto
termination
  by (relation "measure length") (auto dest: hunk_header_length)

definition strip_blank_lines :: "string list \<Rightarrow> string list" where
  "strip_blank_lines ls =
     rev (dropWhile (\<lambda>l. trim l = []) (rev (dropWhile (\<lambda>l. trim l = []) ls)))"

text \<open>The \<^verbatim>\<open>reduce\<close> that starts at \<^verbatim>\<open>Infinity\<close>; \<^const>\<open>None\<close> is infinite.\<close>

definition min_indent :: "string list \<Rightarrow> nat option" where
  "min_indent ls =
     fold (\<lambda>line m. let indent = length line - length (trimStart line)
                     in case m of None \<Rightarrow> Some indent | Some k \<Rightarrow> Some (if indent < k then indent else k))
       (filter (\<lambda>line. length (trim line) > 0) ls) None"

definition remove_indent :: "string list \<Rightarrow> string list" where
  "remove_indent ls =
     (if length ls > 0
      then case min_indent ls of
             None \<Rightarrow> ls
           | Some k \<Rightarrow> if k > 0
                       then map (\<lambda>l. if length l \<ge> k then substring_from l (int k) else l) ls
                       else ls
      else ls)"

definition normalizeEditContent :: "string \<Rightarrow> string" where
  "normalizeEditContent content =
     trim (join_with [LF] (remove_indent (strip_blank_lines
       (split_on LF (crlf_to_lf (remove_hunk_headers content))))))"

subsection \<open>Similarity\<close>

definition calculateSimilarity :: "(string \<Rightarrow> string \<Rightarrow> nat) \<Rightarrow> string \<Rightarrow> string \<Rightarrow> real" where
  "calculateSimilarity distance str1 str2 =
     (if str1 = str2 then 1
      else if length str1 = 0 \<or> length str2 = 0 then 0
      else 1 - real (distance str1 str2) / real (max (length str1) (length str2)))"

definition isSimilarToRejected ::
    "(string \<Rightarrow> string \<Rightarrow> nat) \<Rightarrow> RejectedEditTrackerConfig \<Rightarrow> RejectedEditTracker \<Rightarrow> string \<Rightarrow> string \<Rightarrow> bool" where
  "isSimilarToRejected distance cfg t content documentUri =
     list_ex (\<lambda>rejection.
         calculateSimilarity distance (normalizeEditContent content)
           (normalizeEditContent (rej_content rejection)) \<ge> similarityThreshold cfg)
       (filter (\<lambda>edit. rej_documentUri edit = documentUri) (rejectedEdits t))"

section \<open>Properties\<close>

abbreviation record_default :: "RejectedEditEntry \<Rightarrow> RejectedEditTracker \<Rightarrow> RejectedEditTracker" where
  "record_default \<equiv> recordRejectedEdit DEFAULT_REJECTED_EDIT_TRACKER_CONFIG"

lemma recordRejectedEdit_entries:
  "rejectedEdits (recordRejectedEdit cfg e t) = take (maxEntries cfg) (e # rejectedEdits t)"
  by (simp add: recordRejectedEdit_def enforceMaxEntries_def)

interpretation rejected: bounded_log record_default rejectedEdits 50
  by unfold_locales
    (simp_all add: recordRejectedEdit_entries DEFAULT_REJECTED_EDIT_TRACKER_CONFIG_def)

lemma similarity_one_iff:
  assumes "\<And>s t. distance s t = 0 \<longleftrightarrow> s = t"
  shows "calculateSimilarity distance s t \<ge> 1 \<longleftrightarrow> s = t"
proof (cases "s = t")
  case False
  then have "distance s t > 0" using assms by (metis neq0_conv)
  moreover have "s \<noteq> [] \<Longrightarrow> max (length s) (length t) > 0" by (cases s) auto
  ultimately show ?thesis using False
    by (auto simp: calculateSimilarity_def divide_le_0_iff)
qed (simp add: calculateSimilarity_def)

text \<open>
  With the default configuration an edit is suppressed exactly when it equals, after normalisation,
  one of the fifty most recently rejected edits, and that edit was rejected in the same document. The
  string distance is assumed to vanish on equal strings only.
\<close>

theorem rejected_memory_exact:
  assumes "\<And>s t. distance s t = 0 \<longleftrightarrow> s = t"
  shows "isSimilarToRejected distance DEFAULT_REJECTED_EDIT_TRACKER_CONFIG
      (fold record_default es new_rejected) content uri \<longleftrightarrow>
    list_ex (\<lambda>e. rej_documentUri e = uri \<and> normalizeEditContent (rej_content e) = normalizeEditContent content)
      (take 50 (rev es))"
proof -
  have "rejectedEdits (fold record_default es new_rejected) = take 50 (rev es)"
    using rejected.entries_fold [of new_rejected es] by (simp add: new_rejected_def)
  then show ?thesis
    by (auto simp: isSimilarToRejected_def DEFAULT_REJECTED_EDIT_TRACKER_CONFIG_def
        similarity_one_iff [OF assms] list_ex_iff)
qed

definition sample_rejection :: "string \<Rightarrow> RejectedEditEntry" where
  "sample_rejection c =
     \<lparr>rej_content = c, rej_timestamp = 1, rej_documentUri = ''file:///a.ts'',
      rej_position = \<lparr>pos_line = 0, pos_character = 0\<rparr>\<rparr>"

theorem rejected_memory_exact_witness:
  "isSimilarToRejected (\<lambda>s t. if s = t then 0 else 1) DEFAULT_REJECTED_EDIT_TRACKER_CONFIG
     (fold record_default [sample_rejection ''x''] new_rejected) ''x'' ''file:///a.ts''"
  using rejected_memory_exact [of "\<lambda>s t. if s = t then 0 else 1" "[sample_rejection ''x'']" "''x''" "''file:///a.ts''"]
  by (simp add: sample_rejection_def)

end
