(* ===== verification/Code_Diff.thy ===== *)
theory Code_Diff
  imports Protocol "HOL-Library.Multiset"
begin

text \<open>
  How much of an accepted suggestion the user keeps
  (\<^verbatim>\<open>inline-completion/tracker/codeDiffTracker.ts\<close>, with \<^verbatim>\<open>getUnmodifiedAcceptedTokens\<close> of
  \<^verbatim>\<open>shared/utils.ts\<close>): accepted suggestions wait in a queue until they are old enough to be compared
  with the document. The Levenshtein \<^verbatim>\<open>distance\<close> of the package \<^verbatim>\<open>fastest-levenshtein\<close> and the documents
  of the workspace are parameters.

  A flush awaits the telemetry of each entry, so new suggestions can be queued while it runs. The flush
  is therefore split at its iterations: \<^verbatim>\<open>flushing\<close> holds the position of the loop in the live queue and
  the entries kept so far, and a step relation interleaves the iterations with \<^verbatim>\<open>enqueue\<close>.
\<close>

section \<open>Measuring a modification\<close>

definition checkDiff :: "(string \<Rightarrow> string \<Rightarrow> nat) \<Rightarrow> string option \<Rightarrow> string option \<Rightarrow> real" where
  "checkDiff distance currString acceptedString =
     (case (currString, acceptedString) of
        (Some c, Some a) \<Rightarrow>
          if c = [] \<or> a = [] then 1 else min 1 (real (distance c a) / real (length a))
      | _ \<Rightarrow> 1)"

definition getUnmodifiedAcceptedTokens :: "(string \<Rightarrow> string \<Rightarrow> nat) \<Rightarrow> string \<Rightarrow> string \<Rightarrow> int" where
  "getUnmodifiedAcceptedTokens distance origin after =
     int (max (length origin) (length after)) - int (distance origin after)"

record AcceptedSuggestionEntry =
  acc_fileUrl :: string
  acc_time :: int
  acc_originalString :: string
  acc_startPosition :: position
  acc_endPosition :: position
  acc_customizationArn :: "string option"

record 'e metric =
  met_entry :: "'e AcceptedSuggestionEntry_scheme"
  met_percentage :: real
  met_unmodified :: int

text \<open>
  The telemetry of one entry: none when the document is gone. \<^verbatim>\<open>getText\<close> maps a document address to the
  text function of the open document; an error while reading it is logged and swallowed, like a
  missing document.
\<close>

definition emitTelemetryOnSuggestion ::
    "(string \<Rightarrow> string \<Rightarrow> nat) \<Rightarrow> (string \<Rightarrow> (range \<Rightarrow> string) option) \<Rightarrow> 'e AcceptedSuggestionEntry_scheme \<Rightarrow> 'e metric option" where
  "emitTelemetryOnSuggestion distance getText e =
     (case (if acc_fileUrl e = [] then None else getText (acc_fileUrl e)) of
        None \<Rightarrow> None
      | Some read \<Rightarrow>
          let currString = read \<lparr>range_start = acc_startPosition e, range_end = acc_endPosition e\<rparr>
          in Some \<lparr>met_entry = e,
                   met_percentage = checkDiff distance (Some currString) (Some (acc_originalString e)),
                   met_unmodified = getUnmodifiedAcceptedTokens distance (acc_originalString e) currString\<rparr>)"

section \<open>The queue and its timer\<close>

record 'e CodeDiffTracker =
  eventQueue :: "'e AcceptedSuggestionEntry_scheme list"
  interval :: bool \<comment> \<open>a timer is armed\<close>
  flushInterval :: int
  timeElapsedThreshold :: int
  maxQueueSize :: nat

definition new_code_diff :: "int option \<Rightarrow> int option \<Rightarrow> nat option \<Rightarrow> 'e CodeDiffTracker" where
  "new_code_diff fi te mq =
     \<lparr>eventQueue = [], interval = False,
      flushInterval = (case fi of None \<Rightarrow> 1000 * 60 | Some x \<Rightarrow> x),
      timeElapsedThreshold = (case te of None \<Rightarrow> 1000 * 60 * 5 | Some x \<Rightarrow> x),
      maxQueueSize = (case mq of None \<Rightarrow> 10000 | Some x \<Rightarrow> x)\<rparr>"

text \<open>\<^verbatim>\<open>while (queue.length > max) queue.shift()\<close>.\<close>

fun shift_to_size :: "nat \<Rightarrow> 'a list \<Rightarrow> 'a list" where
  "shift_to_size n [] = []"
| "shift_to_size n (x # xs) = (if length (x # xs) > n then shift_to_size n xs else x # xs)"

definition startInterval :: "'e CodeDiffTracker \<Rightarrow> 'e CodeDiffTracker" where
  "startInterval t = (if \<not> interval t then t\<lparr>interval := True\<rparr> else t)"

definition clearInterval :: "'e CodeDiffTracker \<Rightarrow> 'e CodeDiffTracker" where
  "clearInterval t = t\<lparr>interval := False\<rparr>"

definition enqueue :: "'e AcceptedSuggestionEntry_scheme \<Rightarrow> 'e CodeDiffTracker \<Rightarrow> 'e CodeDiffTracker" where
  "enqueue e t = startInterval (t\<lparr>eventQueue := shift_to_size (maxQueueSize t) (eventQueue t @ [e])\<rparr>)"

text \<open>One iteration of the loop of \<^verbatim>\<open>flush\<close>: emit what is due, keep the rest.\<close>

definition is_due :: "'e CodeDiffTracker \<Rightarrow> int \<Rightarrow> 'e AcceptedSuggestionEntry_scheme \<Rightarrow> bool" where
  "is_due t now e \<longleftrightarrow> now - acc_time e \<ge> timeElapsedThreshold t"

text \<open>The end of \<^verbatim>\<open>flush\<close>: the kept entries become the queue and an empty queue clears the timer.\<close>

definition finish_flush :: "'e AcceptedSuggestionEntry_scheme list \<Rightarrow> 'e CodeDiffTracker \<Rightarrow> 'e CodeDiffTracker" where
  "finish_flush newEventQueue t =
     (let t' = t\<lparr>eventQueue := newEventQueue\<rparr>
      in if length (eventQueue t') = 0 then clearInterval t' else t')"

text \<open>A flush that runs without interruption, at one time; the emitted entries come second.\<close>

definition flush :: "int \<Rightarrow> 'e CodeDiffTracker \<Rightarrow> 'e CodeDiffTracker \<times> 'e AcceptedSuggestionEntry_scheme list" where
  "flush now t =
     (finish_flush (filter (\<lambda>e. \<not> is_due t now e) (eventQueue t)) t, filter (is_due t now) (eventQueue t))"

text \<open>
  The timer callback: flush, and in the \<^verbatim>\<open>finally\<close> branch arm the next timer. \<^verbatim>\<open>shutdown\<close> clears the timer
  and flushes.
\<close>

definition timer_callback :: "int \<Rightarrow> 'e CodeDiffTracker \<Rightarrow> 'e CodeDiffTracker \<times> 'e AcceptedSuggestionEntry_scheme list" where
  "timer_callback now t = (case flush now t of (t', es) \<Rightarrow> (t'\<lparr>interval := True\<rparr>, es))"

definition shutdown :: "int \<Rightarrow> 'e CodeDiffTracker \<Rightarrow> 'e CodeDiffTracker \<times> 'e AcceptedSuggestionEntry_scheme list" where
  "shutdown now t = flush now (clearInterval t)"

section \<open>Interleaved flushes\<close>

record 'e flush_state =
  tracker :: "'e CodeDiffTracker"
  flushing :: "(nat \<times> 'e AcceptedSuggestionEntry_scheme list) option"
  emitted :: "'e AcceptedSuggestionEntry_scheme list" \<comment> \<open>history of the telemetry calls\<close>
  queued :: "'e AcceptedSuggestionEntry_scheme list" \<comment> \<open>history of \<^verbatim>\<open>enqueue\<close>\<close>

inductive flush_step :: "'e flush_state \<Rightarrow> 'e flush_state \<Rightarrow> bool" where
  enqueue_step: "length (eventQueue (tracker s)) < maxQueueSize (tracker s) \<Longrightarrow>
    flush_step s (s\<lparr>tracker := enqueue e (tracker s), queued := queued s @ [e]\<rparr>)"
| start_step: "flushing s = None \<Longrightarrow> flush_step s (s\<lparr>flushing := Some (0, [])\<rparr>)"
| emit_step: "flushing s = Some (i, kept) \<Longrightarrow> i < length (eventQueue (tracker s)) \<Longrightarrow>
    is_due (tracker s) now (eventQueue (tracker s) ! i) \<Longrightarrow>
    flush_step s (s\<lparr>flushing := Some (Suc i, kept), emitted := emitted s @ [eventQueue (tracker s) ! i]\<rparr>)"
| keep_step: "flushing s = Some (i, kept) \<Longrightarrow> i < length (eventQueue (tracker s)) \<Longrightarrow>
    \<not> is_due (tracker s) now (eventQueue (tracker s) ! i) \<Longrightarrow>
    flush_step s (s\<lparr>flushing := Some (Suc i, kept @ [eventQueue (tracker s) ! i])\<rparr>)"
| finish_step: "flushing s = Some (i, kept) \<Longrightarrow> i \<ge> length (eventQueue (tracker s)) \<Longrightarrow>
    flush_step s (s\<lparr>flushing := None, tracker := finish_flush kept (tracker s)\<rparr>)"

inductive_cases flush_stepE: "flush_step s s'"

text \<open>The entries that are still to be handled.\<close>

definition pending :: "'e flush_state \<Rightarrow> 'e AcceptedSuggestionEntry_scheme list" where
  "pending s = (case flushing s of
       None \<Rightarrow> eventQueue (tracker s)
     | Some (i, kept) \<Rightarrow> kept @ drop i (eventQueue (tracker s)))"

definition accounted :: "'e flush_state \<Rightarrow> bool" where
  "accounted s \<longleftrightarrow> mset (queued s) = mset (emitted s) + mset (pending s)"

lemma shift_to_size_id: "length xs \<le> n \<Longrightarrow> shift_to_size n xs = xs"
  by (cases xs) auto

lemma shift_to_size_take: "shift_to_size n xs = drop (length xs - n) xs"
proof (induction n xs rule: shift_to_size.induct)
  case (2 n x xs)
  then show ?case by (cases "length xs < n") (auto simp: Suc_diff_le not_less)
qed simp

lemma enqueue_queue:
  "length (eventQueue t) < maxQueueSize t \<Longrightarrow> eventQueue (enqueue e t) = eventQueue t @ [e]"
  by (simp add: enqueue_def startInterval_def shift_to_size_id)

lemma finish_flush_queue [simp]: "eventQueue (finish_flush es t) = es"
  by (simp add: finish_flush_def clearInterval_def Let_def)

text \<open>The loop position stays within the queue, which only grows while a flush runs.\<close>

definition position_ok :: "'e flush_state \<Rightarrow> bool" where
  "position_ok s \<longleftrightarrow> (case flushing s of None \<Rightarrow> True | Some (i, kept) \<Rightarrow> i \<le> length (eventQueue (tracker s)))"

lemma flush_step_inv:
  assumes "flush_step s s'" and "accounted s" and "position_ok s"
  shows "accounted s' \<and> position_ok s'"
  using assms(1)
proof (cases rule: flush_step.cases)
  case (enqueue_step e)
  have q: "eventQueue (enqueue e (tracker s)) = eventQueue (tracker s) @ [e]"
    using enqueue_step(2) by (rule enqueue_queue)
  show ?thesis
    using assms(2,3) unfolding enqueue_step(1)
    by (cases "flushing s") (auto simp: accounted_def pending_def position_ok_def q)
next
  case start_step
  then show ?thesis using assms(2) by (simp add: accounted_def pending_def position_ok_def)
next
  case (emit_step i kept now)
  have "mset (drop i (eventQueue (tracker s))) =
      {#eventQueue (tracker s) ! i#} + mset (drop (Suc i) (eventQueue (tracker s)))"
    using emit_step(3) by (simp add: Cons_nth_drop_Suc [symmetric])
  then show ?thesis using assms(2) emit_step by (simp add: accounted_def pending_def position_ok_def)
next
  case (keep_step i kept now)
  have "mset (drop i (eventQueue (tracker s))) =
      {#eventQueue (tracker s) ! i#} + mset (drop (Suc i) (eventQueue (tracker s)))"
    using keep_step(3) by (simp add: Cons_nth_drop_Suc [symmetric])
  then show ?thesis using assms(2) keep_step by (simp add: accounted_def pending_def position_ok_def)
next
  case (finish_step i kept)
  then show ?thesis using assms(2) by (simp add: accounted_def pending_def position_ok_def)
qed

definition initial_flush_state :: "'e CodeDiffTracker \<Rightarrow> 'e flush_state" where
  "initial_flush_state t = \<lparr>tracker = t, flushing = None, emitted = [], queued = eventQueue t\<rparr>"

text \<open>
  While the queue does not overflow, every accepted suggestion is measured exactly once however
  enqueuing interleaves with flushing: at any time the queued suggestions are, with their
  multiplicities, those already emitted together with those still pending.
\<close>

theorem flush_accounts_for_all:
  assumes "flush_step\<^sup>*\<^sup>* (initial_flush_state t) s"
  shows "mset (queued s) = mset (emitted s) + mset (pending s)"
proof -
  have "accounted s \<and> position_ok s"
    using assms
  proof (induction rule: rtranclp_induct)
    case base
    then show ?case by (simp add: accounted_def pending_def position_ok_def initial_flush_state_def)
  next
    case (step y z)
    then show ?case using flush_step_inv by blast
  qed
  then show ?thesis by (simp add: accounted_def)
qed

definition sample_accepted :: AcceptedSuggestionEntry where
  "sample_accepted =
     \<lparr>acc_fileUrl = ''file:///a.ts'', acc_time = 0, acc_originalString = ''foo'',
      acc_startPosition = \<lparr>pos_line = 0, pos_character = 0\<rparr>,
      acc_endPosition = \<lparr>pos_line = 0, pos_character = 3\<rparr>, acc_customizationArn = None\<rparr>"

theorem flush_accounts_for_all_witness:
  "mset [sample_accepted] = mset (pending
     ((initial_flush_state (new_code_diff None None None))
        \<lparr>tracker := enqueue sample_accepted (new_code_diff None None None), queued := [sample_accepted]\<rparr>))"
proof -
  let ?s = "initial_flush_state (new_code_diff None None None)"
  have "flush_step ?s (?s\<lparr>tracker := enqueue sample_accepted (tracker ?s), queued := queued ?s @ [sample_accepted]\<rparr>)"
    by (rule enqueue_step) (simp add: initial_flush_state_def new_code_diff_def)
  then have "flush_step\<^sup>*\<^sup>* ?s (?s\<lparr>tracker := enqueue sample_accepted (tracker ?s), queued := queued ?s @ [sample_accepted]\<rparr>)"
    by (rule r_into_rtranclp)
  from flush_accounts_for_all [OF this] show ?thesis
    by (simp add: initial_flush_state_def new_code_diff_def)
qed

section \<open>Bounds and the timer\<close>

text \<open>
  The queue keeps the newest entries and never exceeds its maximum, every queued entry leaves an armed
  timer, and an uninterrupted flush partitions the queue: it emits, in order, exactly the entries
  that have reached the time threshold and keeps the others. The timer callback always re-arms the
  timer, also when the flush has just cleared it because the queue is empty.
\<close>

theorem code_diff_queue:
  "eventQueue (enqueue e t) = drop (Suc (length (eventQueue t)) - maxQueueSize t) (eventQueue t @ [e]) \<and>
   length (eventQueue (enqueue e t)) \<le> maxQueueSize t \<and> interval (enqueue e t) \<and>
   (let (t', es) = flush now t
    in es = filter (\<lambda>e. acc_time e + timeElapsedThreshold t \<le> now) (eventQueue t) \<and>
       eventQueue t' = filter (\<lambda>e. \<not> acc_time e + timeElapsedThreshold t \<le> now) (eventQueue t) \<and>
       interval t' = (interval t \<and> eventQueue t' \<noteq> [])) \<and>
   interval (fst (timer_callback now t))"
proof -
  have due: "is_due t now = (\<lambda>e. acc_time e + timeElapsedThreshold t \<le> now)"
    by (auto simp: is_due_def)
  have "eventQueue (enqueue e t) = drop (Suc (length (eventQueue t)) - maxQueueSize t) (eventQueue t @ [e])"
    by (simp add: enqueue_def startInterval_def shift_to_size_take)
  moreover from this have "length (eventQueue (enqueue e t)) \<le> maxQueueSize t"
    by (simp only: length_drop length_append list.size)
  moreover have "interval (enqueue e t)" by (simp add: enqueue_def startInterval_def)
  ultimately show ?thesis
    by (simp add: flush_def timer_callback_def due finish_flush_def clearInterval_def Let_def split_beta)
qed

text \<open>
  The reported modification is a fraction between 0 and 1, it is 0 exactly for an unchanged text,
  and the number of unmodified characters is never negative and at most the longer of the two texts.
  The string distance is assumed to be bounded by the longer text and to vanish on equal strings only.
\<close>

theorem modification_bounds:
  assumes "\<And>s t. distance s t \<le> max (length s) (length t)" and "\<And>s t. distance s t = 0 \<longleftrightarrow> s = t"
    and "emitTelemetryOnSuggestion distance getText e = Some m"
  shows "0 \<le> met_percentage m \<and> met_percentage m \<le> 1 \<and> 0 \<le> met_unmodified m \<and>
    (met_percentage m = 0 \<longrightarrow> met_unmodified m = int (length (acc_originalString e)))"
proof -
  obtain read where read: "getText (acc_fileUrl e) = Some read"
    and m: "m = \<lparr>met_entry = e,
        met_percentage = checkDiff distance (Some (read \<lparr>range_start = acc_startPosition e, range_end = acc_endPosition e\<rparr>))
          (Some (acc_originalString e)),
        met_unmodified = getUnmodifiedAcceptedTokens distance (acc_originalString e)
          (read \<lparr>range_start = acc_startPosition e, range_end = acc_endPosition e\<rparr>)\<rparr>"
    using assms(3) by (auto simp: emitTelemetryOnSuggestion_def Let_def split: option.splits if_splits)
  define c where "c = read \<lparr>range_start = acc_startPosition e, range_end = acc_endPosition e\<rparr>"
  have unmod: "0 \<le> met_unmodified m"
    using assms(1) [of "acc_originalString e" c] by (simp add: m getUnmodifiedAcceptedTokens_def c_def)
  have pct: "0 \<le> met_percentage m" "met_percentage m \<le> 1"
    by (simp_all add: m checkDiff_def)
  have "met_unmodified m = int (length (acc_originalString e))" if "met_percentage m = 0"
  proof -
    have "c = acc_originalString e"
      using that assms(2) [of c "acc_originalString e"]
      by (auto simp: m checkDiff_def c_def [symmetric] min_def split: if_splits)
    then show ?thesis
      using assms(2) by (simp add: m getUnmodifiedAcceptedTokens_def c_def [symmetric])
  qed
  with unmod pct show ?thesis by blast
qed

theorem modification_bounds_witness:
  "0 \<le> met_unmodified (the (emitTelemetryOnSuggestion (\<lambda>s t. if s = t then 0 else 1) (\<lambda>_. Some (\<lambda>_. ''fo'')) sample_accepted))"
proof -
  let ?d = "\<lambda>s t :: string. if s = t then 0 else 1 :: nat"
  have "emitTelemetryOnSuggestion ?d (\<lambda>_. Some (\<lambda>_. ''fo'')) sample_accepted \<noteq> None"
    by (simp add: emitTelemetryOnSuggestion_def sample_accepted_def Let_def)
  then obtain m where m: "emitTelemetryOnSuggestion ?d (\<lambda>_. Some (\<lambda>_. ''fo'')) sample_accepted = Some m"
    by blast
  have le: "?d s t \<le> max (length s) (length t)" for s t
    by (cases s; cases t) auto
  have zero: "?d s t = 0 \<longleftrightarrow> s = t" for s t by simp
  show ?thesis using modification_bounds [OF le zero m] m by simp
qed

end
