(* ===== verification/Merge_Right.thy ===== *)
theory Merge_Right
  imports Protocol
begin

text \<open>
  Merging suggestions with the text to the right of the cursor
  (\<^verbatim>\<open>inline-completion/utils/mergeRightUtils.ts\<close>): the end of a suggestion that repeats the start of the
  right context is cut off, and the licence references are restricted to what is left.
\<close>

section \<open>Definitions\<close>

text \<open>The \<^verbatim>\<open>while\<close> loop of \<^verbatim>\<open>getPrefixSuffixOverlap\<close>: the largest matching length not above \<^verbatim>\<open>i\<close>.\<close>

fun overlap_loop :: "string \<Rightarrow> string \<Rightarrow> nat \<Rightarrow> nat" where
  "overlap_loop a b 0 = 0"
| "overlap_loop a b (Suc i) =
     (if slice b 0 (int (Suc i)) = slice_from a (- int (Suc i)) then Suc i else overlap_loop a b i)"

definition getPrefixSuffixOverlap :: "string \<Rightarrow> string \<Rightarrow> string" where
  "getPrefixSuffixOverlap firstString secondString =
     slice secondString 0
       (int (overlap_loop firstString secondString (min (length firstString) (length secondString))))"

text \<open>The right context that is compared: \<^verbatim>\<open>replace(/^[^\S\n]+/, '')\<close> drops leading white space up to a line feed.\<close>

definition right_context :: "string \<Rightarrow> string" where
  "right_context rightFileContent =
     dropWhile (\<lambda>c. is_ws c \<and> c \<noteq> LF) (crlf_to_lf (substring rightFileContent 0 5000))"

definition truncateOverlapWithRightContext :: "string \<Rightarrow> string \<Rightarrow> string" where
  "truncateOverlapWithRightContext rightFileContent suggestion =
     (let trimmedSuggestion = trim suggestion;
          rightContext = right_context rightFileContent;
          overlap = getPrefixSuffixOverlap trimmedSuggestion rightContext;
          overlapIndex = lastIndexOf suggestion overlap
      in if overlapIndex \<ge> 0
         then let truncated = slice suggestion 0 overlapIndex
              in if length (trim truncated) \<noteq> 0 then truncated else []
         else suggestion)"

text \<open>A reference is kept unless it starts behind the inserted text; a zero or missing start is falsy.\<close>

definition keep_reference :: "string \<Rightarrow> code_reference \<Rightarrow> bool" where
  "keep_reference insertText ref \<longleftrightarrow>
     \<not> (case ref_recommendationContentSpan ref of
           None \<Rightarrow> False
         | Some sp \<Rightarrow> (case span_start sp of
               None \<Rightarrow> False
             | Some st \<Rightarrow> st \<noteq> 0 \<and> int (length insertText) \<le> st))
     \<and> length insertText \<noteq> 0"

definition convert_reference :: "string \<Rightarrow> code_reference \<Rightarrow> item_reference" where
  "convert_reference insertText r =
     \<lparr>ir_licenseName = ref_licenseName r, ir_referenceUrl = ref_url r, ir_referenceName = ref_repository r,
      ir_position = map_option (\<lambda>sp.
        \<lparr>span_start = span_start sp,
         span_end = (case span_end sp of
             None \<Rightarrow> None
           | Some e \<Rightarrow> Some (if e \<noteq> 0 then min e (int (length insertText) - 1) else e))\<rparr>)
        (ref_recommendationContentSpan r)\<rparr>"

definition merge_item ::
    "string \<Rightarrow> bool \<Rightarrow> range option \<Rightarrow> CachedSuggestion \<Rightarrow> InlineCompletionItem" where
  "merge_item rightFileContext includeImports rng suggestion =
     (let insertText = truncateOverlapWithRightContext rightFileContext
            (case sug_content suggestion of None \<Rightarrow> [] | Some c \<Rightarrow> c);
          references = map_option (\<lambda>rs. map (convert_reference insertText)
            (filter (keep_reference insertText) rs)) (sug_references suggestion)
      in \<lparr>item_itemId = sug_itemId suggestion, item_insertText = insertText, item_range = rng,
          item_references = (case references of None \<Rightarrow> None | Some rs \<Rightarrow> if rs \<noteq> [] then Some rs else None),
          item_mostRelevantMissingImports =
            (if includeImports then sug_mostRelevantMissingImports suggestion else None)\<rparr>)"

definition mergeSuggestionsWithRightContext ::
    "string \<Rightarrow> CachedSuggestion list \<Rightarrow> bool \<Rightarrow> range option \<Rightarrow> InlineCompletionItem list" where
  "mergeSuggestionsWithRightContext rightFileContext suggs includeImportsWithSuggestions rng =
     map (merge_item rightFileContext includeImportsWithSuggestions rng) suggs"

section \<open>The overlap\<close>

lemma overlap_loop_cases:
  assumes "n \<le> length a" "n \<le> length b"
  shows "overlap_loop a b n \<le> n \<and>
    take (overlap_loop a b n) b = drop (length a - overlap_loop a b n) a \<and>
    (\<forall>k\<le>n. take k b = drop (length a - k) a \<longrightarrow> k \<le> overlap_loop a b n)"
  using assms
proof (induction n)
  case 0
  then show ?case by simp
next
  case (Suc n)
  have "slice b 0 (int (Suc n)) = slice_from a (- int (Suc n)) \<longleftrightarrow>
      take (Suc n) b = drop (length a - Suc n) a"
    using Suc.prems by (simp only: slice_0_nat slice_from_neg zero_less_Suc)
  then have step: "overlap_loop a b (Suc n) =
      (if take (Suc n) b = drop (length a - Suc n) a then Suc n else overlap_loop a b n)"
    by (simp only: overlap_loop.simps)
  show ?case
  proof (cases "take (Suc n) b = drop (length a - Suc n) a")
    case True
    then have "overlap_loop a b (Suc n) = Suc n" by (simp add: step del: overlap_loop.simps)
    with True show ?thesis by presburger
  next
    case False
    then have "overlap_loop a b (Suc n) = overlap_loop a b n" by (simp add: step del: overlap_loop.simps)
    with False Suc show ?thesis by (metis Suc_leD le_SucI le_Suc_eq)
  qed
qed

lemma suffix_drop_iff: "suffix w a \<longleftrightarrow> length w \<le> length a \<and> w = drop (length a - length w) a"
  by (auto simp: suffix_def) (metis append_take_drop_id)

lemma prefix_take_iff: "prefix w b \<longleftrightarrow> length w \<le> length b \<and> w = take (length w) b"
  by (auto simp: prefix_def) (metis append_take_drop_id)

lemma overlap_facts:
  "suffix (getPrefixSuffixOverlap a b) a" "prefix (getPrefixSuffixOverlap a b) b"
  "suffix w a \<Longrightarrow> prefix w b \<Longrightarrow> length w \<le> length (getPrefixSuffixOverlap a b)"
proof -
  let ?k = "overlap_loop a b (min (length a) (length b))"
  have k: "?k \<le> length a" "?k \<le> length b" "take ?k b = drop (length a - ?k) a"
    and max: "\<And>k. k \<le> min (length a) (length b) \<Longrightarrow> take k b = drop (length a - k) a \<Longrightarrow> k \<le> ?k"
    using overlap_loop_cases [of "min (length a) (length b)" a b] by auto
  have eq: "getPrefixSuffixOverlap a b = take ?k b"
    by (simp add: getPrefixSuffixOverlap_def)
  show "prefix (getPrefixSuffixOverlap a b) b" by (simp add: eq take_is_prefix)
  show "suffix (getPrefixSuffixOverlap a b) a" by (simp add: eq k(3) suffix_drop)
  show "length w \<le> length (getPrefixSuffixOverlap a b)" if "suffix w a" "prefix w b"
    using that max [of "length w"] k(2) by (auto simp: eq suffix_drop_iff prefix_take_iff)
qed

text \<open>
  The overlap is the longest string that is a suffix of the first and a prefix of the second argument.
\<close>

theorem getPrefixSuffixOverlap_longest:
  "suffix (getPrefixSuffixOverlap a b) a \<and> prefix (getPrefixSuffixOverlap a b) b \<and>
   (\<forall>w. suffix w a \<and> prefix w b \<longrightarrow> suffix w (getPrefixSuffixOverlap a b))"
proof (intro conjI allI impI)
  fix w assume w: "suffix w a \<and> prefix w b"
  then have "length w \<le> length (getPrefixSuffixOverlap a b)" by (blast intro: overlap_facts)
  with w overlap_facts(1) [of a b] show "suffix w (getPrefixSuffixOverlap a b)"
    by (blast intro: suffix_length_suffix)
qed (rule overlap_facts)+

theorem getPrefixSuffixOverlap_longest_witness:
  "suffix ''31'' (getPrefixSuffixOverlap ''adwg31'' ''31ggrs'')"
proof -
  have "suffix ''31'' ''adwg31''" "prefix ''31'' ''31ggrs''"
    by (simp_all add: suffix_drop_iff prefix_take_iff)
  then show ?thesis using getPrefixSuffixOverlap_longest [of "''adwg31''" "''31ggrs''"] by blast
qed

section \<open>Truncation\<close>

lemma trim_last: "trim s \<noteq> [] \<Longrightarrow> \<not> is_ws (last (trim s))"
  unfolding trim_def by (rule trimEnd_no_trailing)

lemma lastIndexOf_Nil: "lastIndexOf s [] = int (length s)"
  by (cases "length s") (simp_all add: lastIndexOf_def startsWith_def)

text \<open>A pattern that ends in a visible character occurs last where only white space follows it.\<close>

lemma lastIndexOf_before_blank:
  assumes s: "s = u @ p @ w" and p: "p \<noteq> []" "\<not> is_ws (last p)" and w: "blank w"
  shows "lastIndexOf s p = int (length u)"
proof -
  have ge: "int (length u) \<le> lastIndexOf s p"
    using lastIndexOf_occurs [OF s] .
  then obtain k where k: "lastIndexOf s p = int k"
    using nonneg_int_cases [of "lastIndexOf s p"] by auto
  obtain t where t: "s = take k s @ p @ t"
    using lastIndexOf_found(1) [OF k] by blast
  have kl: "k \<le> length s" using lastIndexOf_found(2) [OF k] .
  have "k \<le> length u"
  proof (rule ccontr)
    assume "\<not> k \<le> length u"
    then have gt: "length u < k" by simp
    let ?i = "k + (length p - 1)"
    have "s ! ?i = (take k s @ p @ t) ! ?i"
      by (rule arg_cong [OF t])
    then have "s ! ?i = p ! (length p - 1)"
      using kl p(1) by (simp add: nth_append)
    then have last: "s ! ?i = last p" using p(1) by (simp add: last_conv_nth)
    have len: "?i < length s"
      using arg_cong [OF t, of length] kl p(1) by (cases p) auto
    have "?i \<ge> length (u @ p)" using gt p(1) by (cases p) auto
    moreover have "s = (u @ p) @ w" using s by simp
    ultimately have "s ! ?i = w ! (?i - length (u @ p))" and "?i - length (u @ p) < length w"
      using len by (auto simp: nth_append)
    then have "is_ws (s ! ?i)" using w by (simp add: list_all_length)
    with last p(2) show False by simp
  qed
  with ge k show ?thesis by simp
qed

lemma trim_trimEnd: "\<exists>u. blank u \<and> trimEnd s = u @ trim s" if "\<not> blank s"
proof -
  obtain u where u: "blank u" "s = u @ trimStart s" using trimStart_decomp by blast
  have ne: "trimEnd (trimStart s) \<noteq> []" using that by (simp add: trimStart_def)
  obtain w where w: "blank w" "trimStart s = trimEnd (trimStart s) @ w" using trimEnd_decomp by blast
  let ?t = "trimEnd (trimStart s)"
  have s: "s = (u @ ?t) @ w" using u w by (metis append_assoc)
  have "dropWhile is_ws (rev w @ rev (u @ ?t)) = dropWhile is_ws (rev (u @ ?t))"
    using w(1) by (intro dropWhile_append2) (simp add: list_all_iff)
  then have "trimEnd s = trimEnd (u @ ?t)"
    by (subst s) (simp add: trimEnd_def)
  also have "\<dots> = u @ ?t"
    using ne trimEnd_no_trailing [OF ne] by (intro trimEnd_id) simp
  finally show ?thesis using u(1) by (auto simp: trim_def)
qed

lemma drop_trimEnd_blank: "blank (drop (length (trimEnd s)) s)"
  using trimEnd_decomp [of s] by (metis append_eq_conv_conj)

lemma truncateOverlap_split:
  "\<exists>kept w. s = kept @ getPrefixSuffixOverlap (trim s) (right_context r) @ w \<and>
     w = (if getPrefixSuffixOverlap (trim s) (right_context r) = [] then [] else drop (length (trimEnd s)) s) \<and>
     blank w \<and> truncateOverlapWithRightContext r s = (if blank kept then [] else kept)"
proof -
  let ?o = "getPrefixSuffixOverlap (trim s) (right_context r)"
  show ?thesis
  proof (cases "?o = []")
    case True
    then have "truncateOverlapWithRightContext r s = (if blank s then [] else s)"
      by (simp add: truncateOverlapWithRightContext_def lastIndexOf_Nil Let_def)
    with True show ?thesis by (intro exI [of _ s] exI [of _ "[]"]) simp
  next
    case False
    obtain v where v: "trim s = v @ ?o" using overlap_facts(1) by (auto simp: suffix_def)
    then have "\<not> blank s" using False by (metis append_is_Nil_conv trim_Nil_iff)
    then obtain u where u: "trimEnd s = u @ trim s" using trim_trimEnd by blast
    let ?w = "drop (length (trimEnd s)) s"
    have s: "s = (u @ v) @ ?o @ ?w"
      using u v trimEnd_prefix [of s] by (metis append_assoc append_eq_conv_conj prefix_def)
    have "last ?o = last (trim s)" using v False by (metis last_appendR)
    then have "\<not> is_ws (last ?o)" using trim_last v False by (metis append_is_Nil_conv)
    then have "lastIndexOf s ?o = int (length (u @ v))"
      using lastIndexOf_before_blank [OF s False _ drop_trimEnd_blank] by blast
    moreover have "take (length (u @ v)) s = u @ v"
      using arg_cong [OF s, of "take (length (u @ v))"] by simp
    ultimately have "lastIndexOf s ?o \<ge> 0 \<and> slice s 0 (lastIndexOf s ?o) = u @ v"
      by (simp only: slice_0_nat of_nat_0_le_iff simp_thms)
    then have "truncateOverlapWithRightContext r s = (if blank (u @ v) then [] else u @ v)"
      by (auto simp: truncateOverlapWithRightContext_def Let_def)
    with s False show ?thesis
      by (intro exI [of _ "u @ v"] exI [of _ ?w]) (simp add: drop_trimEnd_blank)
  qed
qed

text \<open>
  Truncation removes exactly the overlap: the suggestion is what is kept, followed by the longest
  overlap with the right context, followed by white space only (by nothing, when there is no
  overlap). The result is the kept part, or the empty string when only white space is kept. So no
  visible character of a suggestion is lost that the right context does not already provide.
\<close>

theorem truncateOverlap_exact:
  "\<exists>kept w. s = kept @ getPrefixSuffixOverlap (trim s) (right_context r) @ w \<and>
     w = (if getPrefixSuffixOverlap (trim s) (right_context r) = [] then [] else drop (length (trimEnd s)) s) \<and>
     blank w \<and> truncateOverlapWithRightContext r s = (if blank kept then [] else kept)"
  by (rule truncateOverlap_split)

section \<open>Merged items\<close>

lemma keep_reference_start:
  "keep_reference t r \<Longrightarrow> ref_recommendationContentSpan r = Some sp \<Longrightarrow> span_start sp = Some a \<Longrightarrow>
   a < int (length t)"
  by (auto simp: keep_reference_def)

text \<open>A span of a merged item lies inside the inserted text.\<close>

definition span_inside :: "nat \<Rightarrow> content_span \<Rightarrow> bool" where
  "span_inside n sp \<longleftrightarrow>
     (case span_start sp of None \<Rightarrow> True | Some a \<Rightarrow> a < int n) \<and>
     (case span_end sp of None \<Rightarrow> True | Some e \<Rightarrow> e < int n)"

lemma convert_reference_inside:
  assumes "keep_reference t r" and "ir_position (convert_reference t r) = Some sp"
  shows "span_inside (length t) sp"
proof -
  obtain sp0 where sp0: "ref_recommendationContentSpan r = Some sp0"
    and sp: "sp = \<lparr>span_start = span_start sp0, span_end = (case span_end sp0 of None \<Rightarrow> None
      | Some e \<Rightarrow> Some (if e \<noteq> 0 then min e (int (length t) - 1) else e))\<rparr>"
    using assms(2) by (auto simp: convert_reference_def)
  have "0 < length t" using assms(1) by (auto simp: keep_reference_def)
  with keep_reference_start [OF assms(1) sp0] show ?thesis
    by (auto simp: sp span_inside_def split: option.split)
qed

text \<open>References are attributed only to text that the item inserts.\<close>

definition references_inside :: "InlineCompletionItem \<Rightarrow> bool" where
  "references_inside it =
     (case item_references it of
        None \<Rightarrow> True
      | Some rs \<Rightarrow> item_insertText it \<noteq> [] \<and> rs \<noteq> [] \<and>
          list_all (\<lambda>x. case ir_position x of
              None \<Rightarrow> True | Some sp \<Rightarrow> span_inside (length (item_insertText it)) sp) rs)"

lemma merge_item_references: "references_inside (merge_item r imp rng s)"
proof (cases "item_references (merge_item r imp rng s)")
  case None
  then show ?thesis by (simp add: references_inside_def)
next
  case (Some rs)
  let ?t = "item_insertText (merge_item r imp rng s)"
  from Some obtain rs0
    where rs: "rs = map (convert_reference ?t) (filter (keep_reference ?t) rs0)" "rs \<noteq> []"
    by (auto simp: merge_item_def Let_def split: option.splits if_splits)
  then obtain x where "keep_reference ?t x" by (auto simp: filter_empty_conv)
  then have "?t \<noteq> []" by (auto simp: keep_reference_def)
  with Some rs show ?thesis
    by (auto simp: references_inside_def list_all_iff split: option.split intro: convert_reference_inside)
qed

text \<open>
  Merging keeps one item per suggestion, in order and under the same id, inserts the truncated
  content, and attributes references only to text that is inserted: an item with references
  has a non-empty insert text, and every reference position starts and ends inside it.
\<close>

theorem mergeSuggestions_items:
  "map item_itemId (mergeSuggestionsWithRightContext r suggs imp rng) = map sug_itemId suggs \<and>
   map item_insertText (mergeSuggestionsWithRightContext r suggs imp rng) =
     map (\<lambda>s. truncateOverlapWithRightContext r (case sug_content s of None \<Rightarrow> [] | Some c \<Rightarrow> c)) suggs \<and>
   list_all references_inside (mergeSuggestionsWithRightContext r suggs imp rng)"
  by (simp add: mergeSuggestionsWithRightContext_def merge_item_references list_all_iff)
    (simp add: merge_item_def Let_def)

end
