(* ===== verification/Diffs.thy ===== *)
theory Diffs
  imports Merge_Right Supplemental
begin

text \<open>
  Unified diffs (\<^verbatim>\<open>inline-completion/utils/diffUtils.ts\<close>): supplemental contexts made of diffs against
  earlier snapshots, character differences by longest common subsequence, and the decision whether an
  edit suggestion is a plain insertion at the cursor. The functions \<^verbatim>\<open>createTwoFilesPatch\<close> and
  \<^verbatim>\<open>parsePatch\<close> of the \<^verbatim>\<open>diff\<close> package are the parameters \<^verbatim>\<open>createPatch\<close> and \<^verbatim>\<open>parsePatch\<close>; they return
  \<^const>\<open>None\<close> where the package throws.
\<close>

section \<open>Diff contexts\<close>

type_synonym patch_maker =
  "string \<Rightarrow> string \<Rightarrow> string \<Rightarrow> string \<Rightarrow> string \<Rightarrow> string \<Rightarrow> nat \<Rightarrow> string option"

definition generateUnifiedDiffWithTimestamps ::
    "patch_maker \<Rightarrow> string \<Rightarrow> string \<Rightarrow> string \<Rightarrow> string \<Rightarrow> int \<Rightarrow> int \<Rightarrow> nat \<Rightarrow> string option" where
  "generateUnifiedDiffWithTimestamps createPatch oldFilePath newFilePath oldContent newContent
       oldTimestamp newTimestamp contextSize =
     (case createPatch oldFilePath newFilePath oldContent newContent
             (show_int oldTimestamp) (show_int newTimestamp) contextSize of
        None \<Rightarrow> None
      | Some patchResult \<Rightarrow>
          let ls = split_on LF patchResult
          in if length ls \<ge> 2 \<and> startsWith (ls ! 0) ''Index:''
             then Some (join_with [LF] (drop 2 ls))
             else Some patchResult)"

text \<open>
  One iteration of the loop over the snapshots: a diff that is blank, or that cannot be made, adds
  nothing.
\<close>

definition diff_item ::
    "patch_maker \<Rightarrow> string \<Rightarrow> string \<Rightarrow> int \<Rightarrow> FileSnapshotContent
     \<Rightarrow> CodeWhispererSupplementalContextItem list" where
  "diff_item createPatch filePath currentContent currentTimestamp snapshot =
     (case generateUnifiedDiffWithTimestamps createPatch (fsc_filePath snapshot) filePath
             (fsc_content snapshot) currentContent (fsc_timestamp snapshot) currentTimestamp 3 of
        None \<Rightarrow> []
      | Some unifiedDiff \<Rightarrow>
          if length (trim unifiedDiff) > 0
          then [\<lparr>sci_content = unifiedDiff, sci_filePath = fsc_filePath snapshot, sci_score = Some 1\<rparr>]
          else [])"

text \<open>The clock is read three times: at the start, for the diff headers and at the end.\<close>

definition generateDiffContexts ::
    "patch_maker \<Rightarrow> int \<times> int \<times> int \<Rightarrow> string \<Rightarrow> string \<Rightarrow> FileSnapshotContent list \<Rightarrow> int
     \<Rightarrow> CodeWhispererSupplementalContext" where
  "generateDiffContexts createPatch clock filePath currentContent snapshotContents maxContexts =
     (if length snapshotContents = 0
      then \<lparr>sc_isUtg = False, sc_isProcessTimeout = False, sc_supplementalContextItems = [],
            sc_contentsLength = 0, sc_latency = 0, sc_strategy = recentEdits\<rparr>
      else let (startTime, currentTimestamp, endTime) = clock;
               items = concat (map (diff_item createPatch filePath currentContent currentTimestamp)
                         (rev snapshotContents));
               trimmed = trimSupplementalContexts items maxContexts
           in \<lparr>sc_isUtg = False, sc_isProcessTimeout = False, sc_supplementalContextItems = trimmed,
               sc_contentsLength = total_content trimmed, sc_latency = endTime - startTime,
               sc_strategy = recentEdits\<rparr>)"

section \<open>Character differences\<close>

definition getAddedAndDeletedLines :: "string \<Rightarrow> string list \<times> string list" where
  "getAddedAndDeletedLines unifiedDiff =
     (let ls = split_on LF unifiedDiff
      in (map (\<lambda>l. slice_from l 1) (filter (\<lambda>l. startsWith l ''+'' \<and> \<not> startsWith l ''+++'') ls),
          map (\<lambda>l. slice_from l 1) (filter (\<lambda>l. startsWith l ''-'' \<and> \<not> startsWith l ''---'') ls)))"

record CharDiffResult =
  charactersAdded :: int
  charactersRemoved :: int

text \<open>The table of \<^verbatim>\<open>lcsLength\<close>, filled in place.\<close>

definition lcs_cell :: "'a list \<Rightarrow> 'a list \<Rightarrow> nat \<Rightarrow> nat \<Rightarrow> nat list list \<Rightarrow> nat" where
  "lcs_cell str1 str2 i j dp =
     (if str1 ! (i - 1) = str2 ! (j - 1) then dp ! (i - 1) ! (j - 1) + 1
      else max (dp ! (i - 1) ! j) (dp ! i ! (j - 1)))"

definition lcsLength :: "string \<Rightarrow> string \<Rightarrow> nat list list" where
  "lcsLength str1 str2 =
     (let m = length str1; n = length str2;
          dp = map (\<lambda>_. replicate (n + 1) 0) (replicate (m + 1) ())
      in nested_for m n (\<lambda>i j dp. set_cell i j (lcs_cell str1 str2 i j dp) dp) dp)"

definition getCharacterDifferences :: "string list \<Rightarrow> string list \<Rightarrow> CharDiffResult" where
  "getCharacterDifferences addedLines deletedLines =
     (let addedText = join_with [LF] addedLines; deletedText = join_with [LF] deletedLines
      in if length addedText = 0
         then \<lparr>charactersAdded = 0, charactersRemoved = int (length deletedText)\<rparr>
         else if length deletedText = 0
         then \<lparr>charactersAdded = int (length addedText), charactersRemoved = 0\<rparr>
         else let lcsTable = lcsLength deletedText addedText;
                  lcsLen = lcsTable ! length deletedText ! length addedText
              in \<lparr>charactersAdded = int (length addedText) - int lcsLen,
                  charactersRemoved = int (length deletedText) - int lcsLen\<rparr>)"

section \<open>Reading and categorising a diff\<close>

text \<open>The fields of a parsed hunk that the code reads; a patch is its list of hunks.\<close>

record Hunk =
  hunk_oldStart :: int

type_synonym patch_parser = "string \<Rightarrow> Hunk list list option"

record UnifiedDiff =
  linesWithoutHeaders :: "string list"
  firstMinusIndex :: int
  firstPlusIndex :: int
  minusIndexes :: "nat list"
  plusIndexes :: "nat list"
  hunk :: Hunk

datatype diff_error = ParseFailed | PatchCount | NullHunk | NotParsable

definition readUdiff :: "patch_parser \<Rightarrow> string \<Rightarrow> diff_error + UnifiedDiff" where
  "readUdiff parsePatch unifiedDiff =
     (case parsePatch unifiedDiff of
        None \<Rightarrow> Inl ParseFailed
      | Some patches \<Rightarrow>
          if length patches \<noteq> 1 then Inl PatchCount
          else case patches ! 0 of
            [] \<Rightarrow> Inl NullHunk
          | h # _ \<Rightarrow>
              let ls = split_on LF unifiedDiff; headerEndIndex = findIndex (\<lambda>l. startsWith l ''@@'') ls
              in if headerEndIndex = -1 then Inl NotParsable
                 else let relevantLines = slice_from ls (headerEndIndex + 1)
                      in if length relevantLines = 0 then Inl NotParsable
                         else Inr \<lparr>linesWithoutHeaders = relevantLines,
                           firstMinusIndex = findIndex (\<lambda>l. startsWith l ''-'') relevantLines,
                           firstPlusIndex = findIndex (\<lambda>l. startsWith l ''+'') relevantLines,
                           minusIndexes = filter (\<lambda>i. startsWith (relevantLines ! i) ''-'')
                             [0..<length relevantLines],
                           plusIndexes = filter (\<lambda>i. \<not> startsWith (relevantLines ! i) ''-'' \<and>
                               startsWith (relevantLines ! i) ''+'')
                             [0..<length relevantLines],
                           hunk = h\<rparr>)"

text \<open>The loop of \<^verbatim>\<open>extractAdditions\<close>; its second component is \<^verbatim>\<open>isInAdditionBlock\<close>.\<close>

fun additions_step :: "string \<Rightarrow> string \<times> bool \<Rightarrow> string \<times> bool" where
  "additions_step line (completionSuggestion, isInAdditionBlock) =
     (if startsWith line ''+++'' \<or> startsWith line ''---'' then (completionSuggestion, isInAdditionBlock)
      else if startsWith line ''@@'' then (completionSuggestion, isInAdditionBlock)
      else if startsWith line ''+''
      then (completionSuggestion @ substring_from line 1 @ [LF], True)
      else if isInAdditionBlock \<and> \<not> startsWith line ''+'' then (completionSuggestion, False)
      else (completionSuggestion, isInAdditionBlock))"

definition extractAdditions :: "string \<Rightarrow> string" where
  "extractAdditions unifiedDiff = trimEnd (fst (fold additions_step (split_on LF unifiedDiff) ([], False)))"

text \<open>The index loop of \<^verbatim>\<open>longestCommonPrefix\<close> stops at the first difference.\<close>

fun common_prefix_loop :: "string \<Rightarrow> string \<Rightarrow> nat list \<Rightarrow> string \<Rightarrow> string" where
  "common_prefix_loop str1 str2 [] p = p"
| "common_prefix_loop str1 str2 (i # is) p =
     (if str1 ! i = str2 ! i then common_prefix_loop str1 str2 is (p @ [str1 ! i]) else p)"

definition longestCommonPrefix :: "string \<Rightarrow> string \<Rightarrow> string" where
  "longestCommonPrefix str1 str2 =
     common_prefix_loop str1 str2 [0..<min (length str1) (length str2)] []"

definition removeOverlapCodeFromSuggestion :: "string \<Rightarrow> string \<Rightarrow> string" where
  "removeOverlapCodeFromSuggestion code suggestion =
     (let firstLineSuggestion = split_on LF suggestion ! 0;
          s = getPrefixSuffixOverlap code firstLineSuggestion
      in substring_from suggestion (int (length s)))"

datatype diff_category = addOnly | deleteOnly | edit

text \<open>
  The value of \<^verbatim>\<open>acc++\<close> is the value before the increment; the incremented copy is a local variable of
  the reducer and is lost.
\<close>

definition post_increment :: "nat \<Rightarrow> nat \<times> nat" where
  "post_increment acc = (acc, Suc acc)"

definition nonempty_minus_count :: "string list \<Rightarrow> nat list \<Rightarrow> nat" where
  "nonempty_minus_count ls idx =
     fold (\<lambda>cur acc. if length (trim (ls ! cur)) > 0 then fst (post_increment acc) else acc) idx 0"

text \<open>The comparison of the last \<^verbatim>\<open>-\<close> line with the added code.\<close>

definition is_extension :: "string \<Rightarrow> string \<Rightarrow> bool" where
  "is_extension minusLine pluscode =
     (let commonPrefix = longestCommonPrefix minusLine pluscode;
          minusLinesDelta = substring_from minusLine (int (length commonPrefix));
          pluscodeDelta = substring_from pluscode (int (length commonPrefix))
      in length (trim minusLinesDelta) = 0 \<or> endsWith pluscodeDelta minusLinesDelta)"

definition categorizeUnifieddiff :: "patch_parser \<Rightarrow> string \<Rightarrow> int option \<Rightarrow> diff_category" where
  "categorizeUnifieddiff parsePatch unifiedDiff userTriggerAtLine =
     (case readUdiff parsePatch unifiedDiff of
        Inl _ \<Rightarrow> edit
      | Inr d \<Rightarrow>
          if firstMinusIndex d = -1 \<and> firstPlusIndex d = -1 then edit
          else let firstLineEdited = hunk_oldStart (hunk d) - 1 +
                     int (Min (set (minusIndexes d @ plusIndexes d)))
               in if userTriggerAtLine \<noteq> None \<and> userTriggerAtLine \<noteq> Some firstLineEdited then edit
                  else if firstMinusIndex d = -1 \<and> firstPlusIndex d \<noteq> -1 then addOnly
                  else if firstMinusIndex d \<noteq> -1 \<and> firstPlusIndex d = -1 then deleteOnly
                  else if nonempty_minus_count (linesWithoutHeaders d) (minusIndexes d) > 1 then edit
                  else if plusIndexes d ! 0 = last (minusIndexes d) + 1 \<and>
                    is_extension (substring_from (linesWithoutHeaders d ! last (minusIndexes d)) 1)
                      (extractAdditions unifiedDiff)
                  then addOnly
                  else edit)"

text \<open>\<^verbatim>\<open>document.getText\<close> is the parameter \<^verbatim>\<open>getText\<close>.\<close>

definition processEditSuggestion ::
    "patch_parser \<Rightarrow> (range \<Rightarrow> string) \<Rightarrow> string \<Rightarrow> position \<Rightarrow> string \<Rightarrow> string \<times> SuggestionType" where
  "processEditSuggestion parsePatch getText unifiedDiff triggerPosition rightContext =
     (if categorizeUnifieddiff parsePatch unifiedDiff (Some (pos_line triggerPosition)) = addOnly
      then let preprocessAdd = extractAdditions unifiedDiff;
               leftContextAtTriggerLine = getText
                 \<lparr>range_start = \<lparr>pos_line = pos_line triggerPosition, pos_character = 0\<rparr>,
                  range_end = triggerPosition\<rparr>;
               processedAdd = removeOverlapCodeFromSuggestion leftContextAtTriggerLine preprocessAdd
           in (truncateOverlapWithRightContext rightContext processedAdd, COMPLETION)
      else (unifiedDiff, EDIT))"

section \<open>Longest common subsequences\<close>

text \<open>The reference: the length of a longest common subsequence by recursion on both lists.\<close>

fun lcs_len :: "'a list \<Rightarrow> 'a list \<Rightarrow> nat" where
  "lcs_len [] ys = 0"
| "lcs_len (x # xs) [] = 0"
| "lcs_len (x # xs) (y # ys) =
     (if x = y then Suc (lcs_len xs ys) else max (lcs_len xs (y # ys)) (lcs_len (x # xs) ys))"

lemma lcs_len_Nil2 [simp]: "lcs_len xs [] = 0"
  by (cases xs) auto

lemma lcs_len_upper: "subseq w xs \<Longrightarrow> subseq w ys \<Longrightarrow> length w \<le> lcs_len xs ys"
proof (induction xs ys arbitrary: w rule: lcs_len.induct)
  case (3 x xs y ys)
  show ?case
  proof (cases w)
    case (Cons z v)
    show ?thesis
    proof (cases "x = y")
      case True
      have "subseq v xs" "subseq v ys"
        using 3(4,5) Cons True by (auto dest: subseq_Cons' split: if_splits)
      then show ?thesis using 3(1) True Cons by simp
    next
      case False
      then have "subseq w xs \<or> subseq w ys"
        using 3(4,5) Cons by (metis subseq_Cons2_neq)
      then show ?thesis
        using 3(2) [OF False] 3(3) [OF False] 3(4,5) False by (auto simp: le_max_iff_disj)
    qed
  qed simp
qed auto

lemma lcs_len_attained: "\<exists>w. subseq w xs \<and> subseq w ys \<and> length w = lcs_len xs ys"
proof (induction xs ys rule: lcs_len.induct)
  case (3 x xs y ys)
  show ?case
  proof (cases "x = y")
    case True
    then obtain w where "subseq w xs" "subseq w ys" "length w = lcs_len xs ys"
      using 3(1) by blast
    then show ?thesis using True by (intro exI [of _ "x # w"]) simp
  next
    case False
    then obtain v w where "subseq v xs" "subseq v (y # ys)" "length v = lcs_len xs (y # ys)"
      and "subseq w (x # xs)" "subseq w ys" "length w = lcs_len (x # xs) ys"
      using 3(2,3) by blast
    then show ?thesis
      using False by (cases "length v \<le> length w") (auto simp: max_def intro: list_emb_Cons)
  qed
qed auto

text \<open>The loop computes the reference on all prefixes of the two strings.\<close>

definition lcs_val :: "'a list \<Rightarrow> 'a list \<Rightarrow> nat \<Rightarrow> nat \<Rightarrow> nat" where
  "lcs_val s t i j = lcs_len (rev (take i s)) (rev (take j t))"

lemma rev_take_Suc: "1 \<le> i \<Longrightarrow> i \<le> length s \<Longrightarrow> rev (take i s) = s ! (i - 1) # rev (take (i - 1) s)"
  by (cases i) (simp_all add: take_Suc_conv_app_nth)

interpretation lcs: table_recurrence "lcs_cell s t" "lcs_val s t" "length s" "length t" for s t
proof unfold_locales
  fix i j dp
  assume "1 \<le> i" "i \<le> length s" "1 \<le> j" "j \<le> length t"
    and "dp ! (i - 1) ! (j - 1) = lcs_val s t (i - 1) (j - 1)"
      "dp ! (i - 1) ! j = lcs_val s t (i - 1) j" "dp ! i ! (j - 1) = lcs_val s t i (j - 1)"
  then show "lcs_cell s t i j dp = lcs_val s t i j"
    unfolding lcs_cell_def lcs_val_def by (simp add: rev_take_Suc)
qed

lemma lcsLength_table:
  "i \<le> length s \<Longrightarrow> j \<le> length t \<Longrightarrow> lcsLength s t ! i ! j = lcs_val s t i j"
  unfolding lcsLength_def Let_def
  by (rule lcs.table_correct)
    (auto simp: dims_def lcs_val_def nth_append less_Suc_eq_le simp del: replicate_Suc)

lemma lcsLength_last: "lcsLength s t ! length s ! length t = lcs_len (rev s) (rev t)"
  by (simp add: lcsLength_table lcs_val_def)

lemma subseq_revI: "subseq xs ys \<Longrightarrow> subseq (rev xs) (rev ys)"
  by (induction rule: list_emb.induct) (auto intro: subseq_rev_drop_many list_emb_append_mono)

lemma lcs_rev_upper: "subseq w s \<Longrightarrow> subseq w t \<Longrightarrow> length w \<le> lcs_len (rev s) (rev t)"
  using lcs_len_upper [of "rev w" "rev s" "rev t"] by (simp add: subseq_revI)

lemma lcs_rev_attained: "\<exists>w. subseq w s \<and> subseq w t \<and> length w = lcs_len (rev s) (rev t)"
proof -
  obtain w where "subseq w (rev s)" "subseq w (rev t)" "length w = lcs_len (rev s) (rev t)"
    using lcs_len_attained by blast
  then show ?thesis by (intro exI [of _ "rev w"]) (metis length_rev rev_rev_ident subseq_revI)
qed

text \<open>A longest common subsequence of two texts.\<close>

definition is_lcs :: "'a list \<Rightarrow> 'a list \<Rightarrow> 'a list \<Rightarrow> bool" where
  "is_lcs w a d \<longleftrightarrow> subseq w a \<and> subseq w d \<and> (\<forall>v. subseq v a \<and> subseq v d \<longrightarrow> length v \<le> length w)"

text \<open>
  C10. The character differences are optimal: some string of the computed common length is a common
  subsequence of the added and the deleted text, no longer one exists, and the two counts are what is
  left of either text. In particular both counts are non-negative and no smaller pair of counts
  turns the deleted text into the added one.
\<close>

theorem getCharacterDifferences_optimal:
  "let a = join_with [LF] addedLines; d = join_with [LF] deletedLines;
       r = getCharacterDifferences addedLines deletedLines
   in (\<exists>w. is_lcs w a d \<and>
         charactersAdded r = int (length a) - int (length w) \<and>
         charactersRemoved r = int (length d) - int (length w))"
proof -
  define a where "a = join_with [LF] addedLines"
  define d where "d = join_with [LF] deletedLines"
  obtain w where w: "subseq w d" "subseq w a" "length w = lcs_len (rev d) (rev a)"
    using lcs_rev_attained by blast
  have r: "getCharacterDifferences addedLines deletedLines =
      \<lparr>charactersAdded = int (length a) - int (length w), charactersRemoved = int (length d) - int (length w)\<rparr>"
    using w by (auto simp: getCharacterDifferences_def Let_def a_def [symmetric] d_def [symmetric]
        lcsLength_last)
  show ?thesis
    unfolding Let_def a_def [symmetric] d_def [symmetric] r
    using w lcs_rev_upper [of _ d a] by (auto simp: is_lcs_def)
qed

section \<open>Extracting and comparing added code\<close>

definition is_added :: "string \<Rightarrow> bool" where
  "is_added l \<longleftrightarrow> startsWith l ''+'' \<and> \<not> startsWith l ''+++''"

lemma is_added_cases:
  "startsWith l ''+'' \<Longrightarrow> \<not> startsWith l ''---'' \<and> \<not> startsWith l ''@@''"
  by (cases l) (auto simp: startsWith_def)

lemma additions_fold:
  "fst (fold additions_step ls (acc, b)) = acc @ concat (map (\<lambda>l. drop 1 l @ [LF]) (filter is_added ls))"
proof (induction ls arbitrary: acc b)
  case Nil
  then show ?case by simp
next
  case (Cons l ls)
  have "substring_from l 1 = drop 1 l" using substring_from_nat [of l 1] by simp
  then show ?case
    using is_added_cases [of l] by (simp add: Cons.IH is_added_def)
qed

lemma concat_lines: "ls \<noteq> [] \<Longrightarrow> concat (map (\<lambda>l. l @ [LF]) ls) = join_with [LF] ls @ [LF]"
  by (induction ls rule: induct_list012) auto

lemma trimEnd_snoc_LF [simp]: "trimEnd (s @ [LF]) = trimEnd s"
  by (simp add: trimEnd_def is_ws_def)

lemma trimEnd_concat_lines: "trimEnd (concat (map (\<lambda>l. l @ [LF]) ls)) = trimEnd (join_with [LF] ls)"
  by (cases "ls = []") (simp_all add: concat_lines)

text \<open>
  Extracting the additions of a diff gives exactly its added lines, joined by line feeds, without
  trailing white space: the block flag of the loop has no influence, and the two readers of added
  lines in the module agree.
\<close>

theorem extractAdditions_added_lines:
  "extractAdditions u = trimEnd (join_with [LF] (fst (getAddedAndDeletedLines u)))"
proof -
  have drop: "slice_from l 1 = drop 1 l" for l :: string
    by (cases l) (simp_all add: slice_from_def slice_bound_def)
  let ?ls = "map (drop 1) (filter is_added (split_on LF u))"
  have "extractAdditions u = trimEnd (concat (map (\<lambda>l. l @ [LF]) ?ls))"
    by (simp add: extractAdditions_def additions_fold comp_def)
  also have "\<dots> = trimEnd (join_with [LF] ?ls)"
    by (rule trimEnd_concat_lines)
  finally show ?thesis
    by (simp add: getAddedAndDeletedLines_def Let_def is_added_def [abs_def] drop)
qed

lemma common_prefix_loop_upt:
  "n \<le> length a \<Longrightarrow> n \<le> length b \<Longrightarrow> take k a = take k b \<Longrightarrow> k \<le> n \<Longrightarrow>
   prefix (common_prefix_loop a b [k..<n] (take k a)) a \<and>
   prefix (common_prefix_loop a b [k..<n] (take k a)) b \<and>
   (let l = length (common_prefix_loop a b [k..<n] (take k a)) in l = n \<or> l < n \<and> a ! l \<noteq> b ! l)"
proof (induction "n - k" arbitrary: k)
  case 0
  then show ?case by (simp add: take_is_prefix Let_def) (metis take_is_prefix)
next
  case (Suc d)
  then have k: "k < n" by simp
  then have upt: "[k..<n] = k # [Suc k..<n]" by (rule upt_conv_Cons)
  show ?case
  proof (cases "a ! k = b ! k")
    case True
    then have "take (Suc k) a = take (Suc k) b"
      using Suc k by (simp add: take_Suc_conv_app_nth)
    moreover have "take k a @ [a ! k] = take (Suc k) a"
      using Suc k by (simp add: take_Suc_conv_app_nth)
    ultimately show ?thesis using True Suc.hyps(1) [of "Suc k"] Suc.hyps(2) Suc.prems k by (simp add: upt)
  next
    case False
    then show ?thesis using k Suc.prems by (simp add: upt Let_def take_is_prefix) (metis take_is_prefix)
  qed
qed

lemma longestCommonPrefix_facts:
  "prefix (longestCommonPrefix a b) a" "prefix (longestCommonPrefix a b) b"
  "prefix w a \<Longrightarrow> prefix w b \<Longrightarrow> prefix w (longestCommonPrefix a b)"
proof -
  let ?p = "longestCommonPrefix a b" and ?n = "min (length a) (length b)"
  have p: "prefix ?p a" "prefix ?p b"
    and l: "length ?p = ?n \<or> length ?p < ?n \<and> a ! length ?p \<noteq> b ! length ?p"
    using common_prefix_loop_upt [of ?n a b 0] by (simp_all add: longestCommonPrefix_def Let_def)
  show "prefix ?p a" "prefix ?p b" using p .
  show "prefix w ?p" if w: "prefix w a" "prefix w b"
  proof -
    have "length w \<le> length ?p"
    proof (rule ccontr)
      assume "\<not> length w \<le> length ?p"
      then have lt: "length ?p < length w" by simp
      then have "length ?p < ?n" using w prefix_length_le by fastforce
      with l have "a ! length ?p \<noteq> b ! length ?p" by simp
      moreover have "a ! length ?p = w ! length ?p" "b ! length ?p = w ! length ?p"
        using w lt by (auto simp: prefix_def nth_append)
      ultimately show False by simp
    qed
    then show ?thesis using w(1) p(1) by (blast intro: prefix_length_prefix)
  qed
qed

lemma unique_split:
  "m = l @ d \<Longrightarrow> p = l @ q \<Longrightarrow> (\<exists>d' q'. m = l @ d' \<and> p = l @ q' \<and> R d' q') \<longleftrightarrow> R d q"
  by auto

text \<open>What it means that the added code extends the deleted line.\<close>

lemma is_extension_iff:
  "is_extension m p \<longleftrightarrow>
   (\<exists>d q. m = longestCommonPrefix m p @ d \<and> p = longestCommonPrefix m p @ q \<and> (blank d \<or> suffix d q))"
proof -
  obtain d q where d: "m = longestCommonPrefix m p @ d" and q: "p = longestCommonPrefix m p @ q"
    using longestCommonPrefix_facts(1,2) by (metis prefixE)
  have "drop (length (longestCommonPrefix m p)) m = d" "drop (length (longestCommonPrefix m p)) p = q"
    using d q by (metis append_eq_conv_conj)+
  then have "is_extension m p \<longleftrightarrow> blank d \<or> suffix d q"
    by (simp add: is_extension_def Let_def endsWith_suffix)
  moreover have "(\<exists>d' q'. m = longestCommonPrefix m p @ d' \<and> p = longestCommonPrefix m p @ q' \<and>
      (blank d' \<or> suffix d' q')) \<longleftrightarrow> blank d \<or> suffix d q"
    by (rule unique_split) (use d q in simp_all)
  ultimately show ?thesis by simp
qed

lemma longestCommonPrefix_library:
  "longestCommonPrefix a b = longest_common_prefix a b"
proof (rule prefix_order.antisym)
  show "prefix (longestCommonPrefix a b) (longest_common_prefix a b)"
    by (intro longest_common_prefix_max_prefix longestCommonPrefix_facts)
  show "prefix (longest_common_prefix a b) (longestCommonPrefix a b)"
    by (intro longestCommonPrefix_facts(3) longest_common_prefix_prefix1 longest_common_prefix_prefix2)
qed

text \<open>
  The computed common prefix is the longest one: it is a prefix of both strings and every common
  prefix is a prefix of it; it is the common prefix that the list library defines.
\<close>

theorem longestCommonPrefix_correct:
  "longestCommonPrefix a b = longest_common_prefix a b"
  by (rule longestCommonPrefix_library)

section \<open>The category of a diff\<close>

lemma nonempty_minus_count_0: "nonempty_minus_count ls idx = 0"
  unfolding nonempty_minus_count_def by (induction idx) (simp_all add: post_increment_def)

lemma readUdiff_Inr:
  assumes "readUdiff parsePatch u = Inr d"
  shows "firstMinusIndex d = -1 \<longleftrightarrow> minusIndexes d = []"
    and "firstPlusIndex d = -1 \<longleftrightarrow> plusIndexes d = []"
    and "set (minusIndexes d) = {i. i < length (linesWithoutHeaders d) \<and> startsWith (linesWithoutHeaders d ! i) ''-''}"
    and "set (plusIndexes d) = {i. i < length (linesWithoutHeaders d) \<and> startsWith (linesWithoutHeaders d ! i) ''+''}"
proof -
  from assms obtain ls where d: "linesWithoutHeaders d = ls"
    "firstMinusIndex d = findIndex (\<lambda>l. startsWith l ''-'') ls"
    "firstPlusIndex d = findIndex (\<lambda>l. startsWith l ''+'') ls"
    "minusIndexes d = filter (\<lambda>i. startsWith (ls ! i) ''-'') [0..<length ls]"
    "plusIndexes d = filter (\<lambda>i. \<not> startsWith (ls ! i) ''-'' \<and> startsWith (ls ! i) ''+'') [0..<length ls]"
    unfolding readUdiff_def Let_def
    by (auto split: option.splits if_splits list.splits)
  have excl: "startsWith l ''+'' \<Longrightarrow> \<not> startsWith l ''-''" for l
    by (cases l) (auto simp: startsWith_def)
  show "firstMinusIndex d = -1 \<longleftrightarrow> minusIndexes d = []"
    by (auto simp: d filter_empty_conv set_conv_nth)
  show "firstPlusIndex d = -1 \<longleftrightarrow> plusIndexes d = []"
    using excl by (auto simp: d filter_empty_conv set_conv_nth)
  show "set (minusIndexes d) = {i. i < length (linesWithoutHeaders d) \<and> startsWith (linesWithoutHeaders d ! i) ''-''}"
    by (auto simp: d)
  show "set (plusIndexes d) = {i. i < length (linesWithoutHeaders d) \<and> startsWith (linesWithoutHeaders d ! i) ''+''}"
    using excl by (auto simp: d)
qed

text \<open>The line an edit starts at, by the hunk header and the first changed line of the hunk.\<close>

definition first_changed_line :: "UnifiedDiff \<Rightarrow> int" where
  "first_changed_line d =
     hunk_oldStart (hunk d) - 1 +
     int (Min {i. i < length (linesWithoutHeaders d) \<and>
       (startsWith (linesWithoutHeaders d ! i) ''-'' \<or> startsWith (linesWithoutHeaders d ! i) ''+'')})"

lemma first_changed_line_Min:
  assumes "readUdiff parsePatch u = Inr d"
  shows "hunk_oldStart (hunk d) - 1 + int (Min (set (minusIndexes d @ plusIndexes d))) = first_changed_line d"
proof -
  have "set (minusIndexes d @ plusIndexes d) =
      {i. i < length (linesWithoutHeaders d) \<and>
        (startsWith (linesWithoutHeaders d ! i) ''-'' \<or> startsWith (linesWithoutHeaders d ! i) ''+'')}"
    by (auto simp: readUdiff_Inr(3,4) [OF assms])
  then show ?thesis by (simp only: first_changed_line_def)
qed

text \<open>
  When a diff counts as a plain insertion: exactly when it can be read, its first changed line is
  the line of the trigger, it adds lines, and either it deletes none or the first added line directly
  follows the last deleted one and the added code extends that line, that is, what remains of the
  deleted line behind the common prefix is white space or also ends the added code.
\<close>

theorem categorize_addOnly_iff:
  "categorizeUnifieddiff parsePatch u (Some line) = addOnly \<longleftrightarrow>
   (\<exists>d. readUdiff parsePatch u = Inr d \<and> line = first_changed_line d \<and> plusIndexes d \<noteq> [] \<and>
      (if minusIndexes d = [] then True
       else hd (plusIndexes d) = last (minusIndexes d) + 1 \<and>
         (\<exists>p s q. linesWithoutHeaders d ! last (minusIndexes d) = CHR ''-'' # p @ s \<and>
            p = longest_common_prefix (p @ s) (extractAdditions u) \<and>
            extractAdditions u = p @ q \<and> (blank s \<or> suffix s q))))"
proof (cases "readUdiff parsePatch u")
  case (Inl e)
  then show ?thesis by (simp add: categorizeUnifieddiff_def)
next
  case (Inr d)
  note rd = readUdiff_Inr [OF Inr]
  have minus: "linesWithoutHeaders d ! last (minusIndexes d) =
      CHR ''-'' # drop 1 (linesWithoutHeaders d ! last (minusIndexes d))" if "minusIndexes d \<noteq> []"
  proof -
    have "last (minusIndexes d) \<in> set (minusIndexes d)" using that by simp
    then have "startsWith (linesWithoutHeaders d ! last (minusIndexes d)) ''-''"
      unfolding rd(3) by simp
    then show ?thesis
      by (cases "linesWithoutHeaders d ! last (minusIndexes d)") (auto simp: startsWith_def)
  qed
  have ext: "is_extension (drop 1 l) x \<longleftrightarrow>
      (\<exists>p s q. l = CHR ''-'' # p @ s \<and> p = longest_common_prefix (p @ s) x \<and> x = p @ q \<and>
        (blank s \<or> suffix s q))" if "l = CHR ''-'' # drop 1 l" for l x
  proof -
    have "is_extension (drop 1 l) x \<longleftrightarrow> (\<exists>p s q. drop 1 l = p @ s \<and> p = longestCommonPrefix (drop 1 l) x \<and>
        x = p @ q \<and> (blank s \<or> suffix s q))"
      unfolding is_extension_iff by auto
    also have "\<dots> \<longleftrightarrow> (\<exists>p s q. l = CHR ''-'' # p @ s \<and> p = longestCommonPrefix (p @ s) x \<and>
        x = p @ q \<and> (blank s \<or> suffix s q))"
      using that by (metis list.sel(3) drop_Suc drop0 One_nat_def)
    finally show ?thesis unfolding longestCommonPrefix_library .
  qed
  have one: "substring_from l 1 = drop 1 l" for l
    using substring_from_nat [of l 1] by simp
  show ?thesis
    using ext [OF minus] first_changed_line_Min [OF Inr]
    by (auto simp: categorizeUnifieddiff_def Inr rd(1,2) Let_def nonempty_minus_count_0 one hd_conv_nth
        split: if_splits)
qed

definition two_deletions :: string where
  "two_deletions = join_with [LF] [''@@ -1,2 +1,1 @@'', ''-foo'', ''-bar'', ''+bar baz'']"

lemma split_two_deletions:
  "split_on LF two_deletions = [''@@ -1,2 +1,1 @@'', ''-foo'', ''-bar'', ''+bar baz'']"
  unfolding two_deletions_def by (rule split_on_join) simp_all

text \<open>
  The guard against several deleted lines never fires. A diff that deletes the two non-empty lines
  \<^verbatim>\<open>foo\<close> and \<^verbatim>\<open>bar\<close> and adds \<^verbatim>\<open>bar baz\<close> counts as a plain insertion at the line of the trigger, for every
  parser that reads it as one patch whose hunk starts at line 1: the counter of non-empty deleted
  lines returns the value before its increment, so it is 0 for every diff.
\<close>

theorem deletions_counted_as_insertion:
  assumes "parsePatch two_deletions = Some [[\<lparr>hunk_oldStart = 1\<rparr>]]"
  shows "snd (getAddedAndDeletedLines two_deletions) = [''foo'', ''bar''] \<and>
    nonempty_minus_count ls idx = 0 \<and>
    categorizeUnifieddiff parsePatch two_deletions (Some 0) = addOnly"
proof (intro conjI)
  have eval: "drop 1 (c # s) = s" "slice_from (c # s) 1 = s" for c :: char and s
    by (simp_all add: slice_from_def slice_bound_def)
  show "snd (getAddedAndDeletedLines two_deletions) = [''foo'', ''bar'']"
    by (simp add: getAddedAndDeletedLines_def split_two_deletions startsWith_def eval)
  show "nonempty_minus_count ls idx = 0" by (rule nonempty_minus_count_0)
  have additions: "extractAdditions two_deletions = ''bar baz''"
    by (simp add: extractAdditions_def split_two_deletions startsWith_def substring_from_def
        clamp_index_def trimEnd_def is_ws_def)
  have upt: "[0..<3] = [0, 1, 2::nat]" by (simp add: upt_rec)
  have read: "readUdiff parsePatch two_deletions =
      Inr \<lparr>linesWithoutHeaders = [''-foo'', ''-bar'', ''+bar baz''], firstMinusIndex = 0, firstPlusIndex = 2,
           minusIndexes = [0, 1], plusIndexes = [2], hunk = \<lparr>hunk_oldStart = 1\<rparr>\<rparr>"
    by (simp add: readUdiff_def assms split_two_deletions findIndex_def startsWith_def slice_from_def
        slice_bound_def upt Let_def)
  have "is_extension ''bar'' ''bar baz''"
    by (simp add: is_extension_def longestCommonPrefix_library Let_def substring_from_def clamp_index_def)
  then show "categorizeUnifieddiff parsePatch two_deletions (Some 0) = addOnly"
    by (simp add: categorizeUnifieddiff_def read nonempty_minus_count_0 additions Let_def
        substring_from_def clamp_index_def)
qed

theorem deletions_counted_as_insertion_witness:
  "categorizeUnifieddiff (\<lambda>_. Some [[\<lparr>hunk_oldStart = 1\<rparr>]]) two_deletions (Some 0) = addOnly"
  using deletions_counted_as_insertion [of "\<lambda>_. Some [[\<lparr>hunk_oldStart = 1\<rparr>]]"] by blast

section \<open>Presenting an edit as an insertion\<close>

lemma hd_split_on_prefix: "prefix (split_on c s ! 0) s"
proof (cases "split_on c s")
  case (Cons w ws)
  then have "s = join_with [c] (w # ws)" using join_split_on [of c s] by simp
  then show ?thesis using Cons by (cases ws) simp_all
qed simp

lemma removeOverlap_split:
  "s = getPrefixSuffixOverlap code (split_on LF s ! 0) @ removeOverlapCodeFromSuggestion code s"
proof -
  have "prefix (getPrefixSuffixOverlap code (split_on LF s ! 0)) s"
    by (rule prefix_order.trans [OF overlap_facts(2) hd_split_on_prefix])
  then have "getPrefixSuffixOverlap code (split_on LF s ! 0) =
      take (length (getPrefixSuffixOverlap code (split_on LF s ! 0))) s"
    unfolding prefix_take_iff by (rule conjunct2)
  moreover have "removeOverlapCodeFromSuggestion code s =
      drop (length (getPrefixSuffixOverlap code (split_on LF s ! 0))) s"
    by (simp add: removeOverlapCodeFromSuggestion_def Let_def)
  ultimately show ?thesis by (metis append_take_drop_id)
qed

text \<open>
  An edit is either passed on unchanged as an edit, or presented as an insertion whose text is a
  middle part of the added code: in front of it is the longest overlap of the line up to the cursor
  with the first added line, behind it the longest overlap with the right context, then white space.
  So inserting it at the cursor reproduces the added code and repeats nothing around the cursor.
\<close>

theorem processEditSuggestion_correct:
  "case processEditSuggestion parsePatch getText u pos right of
     (content, EDIT) \<Rightarrow> content = u \<and> categorizeUnifieddiff parsePatch u (Some (pos_line pos)) \<noteq> addOnly
   | (content, COMPLETION) \<Rightarrow>
       categorizeUnifieddiff parsePatch u (Some (pos_line pos)) = addOnly \<and>
       (\<exists>front kept after w.
          extractAdditions u = front @ kept @ after @ w \<and>
          front = getPrefixSuffixOverlap
            (getText \<lparr>range_start = \<lparr>pos_line = pos_line pos, pos_character = 0\<rparr>, range_end = pos\<rparr>)
            (split_on LF (extractAdditions u) ! 0) \<and>
          after = getPrefixSuffixOverlap (trim (kept @ after @ w)) (right_context right) \<and>
          blank w \<and> content = (if blank kept then [] else kept))"
proof (cases "categorizeUnifieddiff parsePatch u (Some (pos_line pos)) = addOnly")
  case False
  then show ?thesis by (simp add: processEditSuggestion_def)
next
  case True
  let ?left = "getText \<lparr>range_start = \<lparr>pos_line = pos_line pos, pos_character = 0\<rparr>, range_end = pos\<rparr>"
  let ?r = "removeOverlapCodeFromSuggestion ?left (extractAdditions u)"
  let ?front = "getPrefixSuffixOverlap ?left (split_on LF (extractAdditions u) ! 0)"
  let ?after = "getPrefixSuffixOverlap (trim ?r) (right_context right)"
  have front: "extractAdditions u = ?front @ ?r" by (rule removeOverlap_split)
  obtain kept w where kept: "?r = kept @ ?after @ w" "blank w"
    and res: "truncateOverlapWithRightContext right ?r = (if blank kept then [] else kept)"
    using truncateOverlap_split [of ?r right] by blast
  have res': "processEditSuggestion parsePatch getText u pos right =
      (if blank kept then [] else kept, COMPLETION)"
    using True res by (simp add: processEditSuggestion_def Let_def)
  have whole: "extractAdditions u = ?front @ kept @ ?after @ w"
    using front unfolding kept(1) [symmetric] .
  have behind: "?after = getPrefixSuffixOverlap (trim (kept @ ?after @ w)) (right_context right)"
    unfolding kept(1) [symmetric] ..
  show ?thesis
    unfolding res' prod.case SuggestionType.case
    by (intro conjI exI [of _ ?front] exI [of _ kept] exI [of _ ?after] exI [of _ w])
      (rule True whole refl behind kept(2))+
qed

section \<open>Recent edits as context\<close>

lemma subseq_list_all: "subseq xs ys \<Longrightarrow> list_all P ys \<Longrightarrow> list_all P xs"
  by (induction rule: list_emb.induct) auto

lemma trimSupplementalContexts_subseq:
  assumes "0 \<le> maxContexts"
  shows "subseq (trimSupplementalContexts items maxContexts) items"
proof -
  let ?f = "filter (\<lambda>x. length (sci_content x) \<le> charactersLimit) items"
  have "prefix (trimSupplementalContexts items maxContexts) (take (nat maxContexts) ?f)"
    using trimSupplementalContexts_facts [OF assms, of items] by (simp only: Let_def)
  then have "prefix (trimSupplementalContexts items maxContexts) ?f"
    using prefix_order.trans take_is_prefix by blast
  then show ?thesis
    using subseq_order.trans prefix_imp_subseq subseq_filter_left by blast
qed

text \<open>
  The recent-edit context of a file: diffs from the newest snapshot to the oldest, each non-blank,
  at most the requested number and at most 8192 characters in total, with the reported length the
  total of what is sent. A diff that cannot be made is left out and never fails the request.
\<close>

theorem generateDiffContexts_limits:
  assumes "0 \<le> maxContexts"
  shows "let r = generateDiffContexts createPatch (t0, t1, t2) file cur snaps maxContexts;
      items = sc_supplementalContextItems r
    in subseq items (concat (map (diff_item createPatch file cur t1) (rev snaps))) \<and>
       list_all (\<lambda>i. \<not> blank (sci_content i)) items \<and>
       int (length items) \<le> maxContexts \<and> total_content items \<le> 8192 \<and>
       sc_contentsLength r = total_content items"
proof -
  let ?all = "concat (map (diff_item createPatch file cur t1) (rev snaps))"
  let ?items = "trimSupplementalContexts ?all maxContexts"
  have items: "sc_supplementalContextItems (generateDiffContexts createPatch (t0, t1, t2) file cur snaps maxContexts) = ?items"
    by (simp add: generateDiffContexts_def trimSupplementalContexts_def Let_def)
  have len: "sc_contentsLength (generateDiffContexts createPatch (t0, t1, t2) file cur snaps maxContexts) = total_content ?items"
    by (simp add: generateDiffContexts_def trimSupplementalContexts_def Let_def)
  have sub: "subseq ?items ?all" by (rule trimSupplementalContexts_subseq [OF assms])
  have "list_all (\<lambda>i. \<not> blank (sci_content i)) ?all"
    by (auto simp: list_all_iff diff_item_def split: option.splits if_splits)
  then have "list_all (\<lambda>i. \<not> blank (sci_content i)) ?items"
    by (rule subseq_list_all [OF sub])
  then show ?thesis
    unfolding Let_def items len using sub trimSupplementalContexts_facts [OF assms, of ?all]
    by (simp only: Let_def simp_thms)
qed

definition sample_snapshot :: FileSnapshotContent where
  "sample_snapshot = \<lparr>fsc_filePath = ''/a.ts'', fsc_content = ''x'', fsc_timestamp = 1\<rparr>"

theorem generateDiffContexts_limits_witness:
  "total_content (sc_supplementalContextItems
     (generateDiffContexts (\<lambda>_ _ _ _ _ _ _. Some ''+y'') (0, 1, 2) ''/a.ts'' ''y'' [sample_snapshot] 15)) \<le> 8192"
  using generateDiffContexts_limits [of 15 "\<lambda>_ _ _ _ _ _ _. Some ''+y''" 0 1 2 "''/a.ts''" "''y''" "[sample_snapshot]"]
  by (simp add: Let_def)

end
