(* ===== verification/Edit_Distance.thy ===== *)
theory Edit_Distance
  imports Diffs
begin

text \<open>
  The edit distance of the edit-suggestion classifier (\<^verbatim>\<open>EditClassifier.editDistance\<close> in
  \<^verbatim>\<open>inline-completion/auto-trigger/editPredictionAutoTrigger.ts\<close>): the table as the code fills it, the least number of
  insertions, deletions and substitutions as the specification, and the proof that the first
  computes the second.
\<close>

section \<open>The table of the source\<close>

definition distance_cell :: "'a list \<Rightarrow> 'a list \<Rightarrow> nat \<Rightarrow> nat \<Rightarrow> nat list list \<Rightarrow> nat" where
  "distance_cell s1 s2 i j dp =
     (if s1 ! (i - 1) = s2 ! (j - 1) then dp ! (i - 1) ! (j - 1)
      else 1 + min (dp ! (i - 1) ! j) (min (dp ! i ! (j - 1)) (dp ! (i - 1) ! (j - 1))))"

definition distance_init :: "nat \<Rightarrow> nat \<Rightarrow> nat list list" where
  "distance_init rows cols =
     fold (\<lambda>j dp. set_cell 0 j j dp) [0..<cols]
       (fold (\<lambda>i dp. set_cell i 0 i dp) [0..<rows] (replicate rows (replicate cols 0)))"

definition editDistance :: "string \<Rightarrow> string \<Rightarrow> nat" where
  "editDistance s1 s2 =
     (if length s1 = 0 then length s2
      else if length s2 = 0 then length s1
      else let rows = length s1 + 1; cols = length s2 + 1;
               dp = nested_for (rows - 1) (cols - 1)
                      (\<lambda>i j dp. set_cell i j (distance_cell s1 s2 i j dp) dp) (distance_init rows cols)
           in dp ! (rows - 1) ! (cols - 1))"

section \<open>The specification\<close>

text \<open>One edit: a character is inserted, deleted or replaced at some place.\<close>

inductive edit1 :: "'a list \<Rightarrow> 'a list \<Rightarrow> bool" where
  edit_insert: "edit1 (u @ v) (u @ c # v)"
| edit_delete: "edit1 (u @ c # v) (u @ v)"
| edit_replace: "edit1 (u @ c # v) (u @ d # v)"

definition is_edit_distance :: "'a list \<Rightarrow> 'a list \<Rightarrow> nat \<Rightarrow> bool" where
  "is_edit_distance s t d \<longleftrightarrow> (edit1 ^^ d) s t \<and> (\<forall>n. (edit1 ^^ n) s t \<longrightarrow> d \<le> n)"

section \<open>The recurrence\<close>

fun lev :: "'a list \<Rightarrow> 'a list \<Rightarrow> nat" where
  "lev [] ys = length ys"
| "lev (x # xs) [] = Suc (length xs)"
| "lev (x # xs) (y # ys) =
     (if x = y then lev xs ys
      else Suc (min (lev xs (y # ys)) (min (lev (x # xs) ys) (lev xs ys))))"

lemma lev_Nil2 [simp]: "lev xs [] = length xs"
  by (cases xs) auto

lemma lev_self [simp]: "lev xs xs = 0"
  by (induction xs) auto

lemma lev_length: "length ys \<le> length xs + lev xs ys \<and> length xs \<le> length ys + lev xs ys"
  by (induction xs ys rule: lev.induct) auto

text \<open>Growing one argument at its front changes the value by at most one.\<close>

lemma lev_grow:
  "lev (x # xs) ys \<le> Suc (lev xs ys) \<and> lev xs ys \<le> Suc (lev (x # xs) ys) \<and>
   lev xs (y # ys) \<le> Suc (lev xs ys) \<and> lev xs ys \<le> Suc (lev xs (y # ys))"
proof (induction "length xs + length ys" arbitrary: x xs y ys rule: less_induct)
  case less
  show ?case
  proof (cases xs; cases ys)
    fix a as b bs assume eq: "xs = a # as" "ys = b # bs"
    have "lev (x # xs) ys \<le> Suc (lev xs ys) \<and> lev xs ys \<le> Suc (lev (x # xs) ys)"
      using less [of xs bs x b] by (auto simp: eq(2) min_def)
    moreover have "lev xs (y # ys) \<le> Suc (lev xs ys) \<and> lev xs ys \<le> Suc (lev xs (y # ys))"
      using less [of as ys a y] by (auto simp: eq(1) min_def)
    ultimately show ?thesis by blast
  next
    fix b bs assume eq: "xs = []" "ys = b # bs"
    show ?thesis using lev_length [of bs "[x]"] less [of "[]" bs x b] by (auto simp: eq min_def)
  next
    fix a as assume eq: "xs = a # as" "ys = []"
    show ?thesis using lev_length [of "[y]" as] less [of as "[]" a y] by (auto simp: eq min_def)
  qed auto
qed

lemma min3_mono:
  "a \<le> Suc a' \<Longrightarrow> b \<le> Suc b' \<Longrightarrow> c \<le> Suc c' \<Longrightarrow> min a (min b c) \<le> Suc (min a' (min b' c'))"
  by (simp add: min_le_iff_disj min_def)

text \<open>So does one edit at any place of the second argument.\<close>

lemma lev_insert: "lev s (u @ c # v) \<le> Suc (lev s (u @ v))"
proof (induction "length s + length u" arbitrary: s u rule: less_induct)
  case less
  show ?case
  proof (cases u)
    case Nil
    then show ?thesis using lev_grow [of undefined s v c] by simp
  next
    case (Cons x w)
    then show ?thesis
      using less [of "tl s" u] less [of s w] less [of "tl s" w] by (cases s) (simp_all add: min3_mono)
  qed
qed

lemma lev_delete: "lev s (u @ v) \<le> Suc (lev s (u @ c # v))"
proof (induction "length s + length u" arbitrary: s u rule: less_induct)
  case less
  show ?case
  proof (cases u)
    case Nil
    then show ?thesis using lev_grow [of undefined s v c] by simp
  next
    case (Cons x w)
    then show ?thesis
      using less [of "tl s" u] less [of s w] less [of "tl s" w] by (cases s) (simp_all add: min3_mono)
  qed
qed

lemma lev_replace_head: "lev s (d # v) \<le> Suc (lev s (c # v))"
proof (induction s)
  case Nil
  then show ?case by simp
next
  case (Cons a s)
  then show ?case
    using lev_grow [of a s v d] lev_grow [of a s v c] lev_grow [of a s "d # v"] by auto
qed

lemma lev_replace: "lev s (u @ d # v) \<le> Suc (lev s (u @ c # v))"
proof (induction "length s + length u" arbitrary: s u rule: less_induct)
  case less
  show ?case
  proof (cases u)
    case Nil
    then show ?thesis using lev_replace_head by simp
  next
    case (Cons x w)
    then show ?thesis
      using less [of "tl s" u] less [of s w] less [of "tl s" w] by (cases s) (simp_all add: min3_mono)
  qed
qed

lemma lev_edit1: "edit1 t t' \<Longrightarrow> lev s t' \<le> Suc (lev s t)"
  by (induction rule: edit1.induct) (auto intro: lev_insert lev_delete lev_replace)

lemma lev_lower: "(edit1 ^^ n) s t \<Longrightarrow> lev s t \<le> n"
proof (induction n arbitrary: t)
  case 0
  then show ?case by simp
next
  case (Suc n)
  then obtain r where "(edit1 ^^ n) s r" "edit1 r t" by auto
  then show ?case using Suc.IH lev_edit1 [of r t s] by (meson Suc_le_mono le_trans)
qed

text \<open>The recurrence is attained by a sequence of edits.\<close>

lemma edit1_Cons: "edit1 s t \<Longrightarrow> edit1 (x # s) (x # t)"
  by (induction rule: edit1.induct)
    (metis append_Cons edit1.intros)+

lemma edits_Cons: "(edit1 ^^ n) s t \<Longrightarrow> (edit1 ^^ n) (x # s) (x # t)"
  by (induction n arbitrary: t) (auto intro: edit1_Cons)

lemma edits_first: "edit1 s r \<Longrightarrow> (edit1 ^^ n) r t \<Longrightarrow> (edit1 ^^ Suc n) s t"
  by (rule relpowp_Suc_I2)

lemma edit1_front: "edit1 s (c # s)" "edit1 (c # s) s" "edit1 (c # s) (d # s)"
  using edit1.intros [of "[]"] by simp_all

lemma lev_attained: "(edit1 ^^ lev xs ys) xs ys"
proof (induction xs ys rule: lev.induct)
  case (1 ys)
  show ?case
  proof (induction ys)
    case (Cons y ys)
    then show ?case by (auto intro: edit1_front)
  qed simp
next
  case (2 x xs)
  have "(edit1 ^^ length s) s []" for s :: "'a list"
  proof (induction s)
    case (Cons y ys)
    then show ?case using edits_first [OF edit1_front(2)] by fastforce
  qed simp
  from this [of "x # xs"] show ?case by simp
next
  case (3 x xs y ys)
  show ?case
  proof (cases "x = y")
    case True
    then show ?thesis using 3(1) edits_Cons by simp
  next
    case False
    have "(edit1 ^^ Suc (lev xs (y # ys))) (x # xs) (y # ys)"
      by (rule edits_first [OF edit1_front(2) 3(2) [OF False]])
    moreover have "(edit1 ^^ Suc (lev (x # xs) ys)) (x # xs) (y # ys)"
      by (rule relpowp_Suc_I [OF 3(3) [OF False] edit1_front(1)])
    moreover have "(edit1 ^^ Suc (lev xs ys)) (x # xs) (y # ys)"
      by (rule edits_first [OF edit1_front(3) edits_Cons [OF 3(4) [OF False]]])
    ultimately show ?thesis using False by (simp add: min_def del: relpowp.simps)
  qed
qed

section \<open>The table computes the recurrence\<close>

definition lev_val :: "'a list \<Rightarrow> 'a list \<Rightarrow> nat \<Rightarrow> nat \<Rightarrow> nat" where
  "lev_val s t i j = lev (rev (take i s)) (rev (take j t))"

interpretation levenshtein: table_recurrence "distance_cell s t" "lev_val s t" "length s" "length t" for s t
proof unfold_locales
  fix i j dp
  assume i: "1 \<le> i" "i \<le> length s" and j: "1 \<le> j" "j \<le> length t"
    and dp: "dp ! (i - 1) ! (j - 1) = lev_val s t (i - 1) (j - 1)"
      "dp ! (i - 1) ! j = lev_val s t (i - 1) j" "dp ! i ! (j - 1) = lev_val s t i (j - 1)"
  show "distance_cell s t i j dp = lev_val s t i j"
    unfolding distance_cell_def dp lev_val_def rev_take_Suc [OF i] rev_take_Suc [OF j] by simp
qed

text \<open>The two loops that fill the first column and the first row.\<close>

lemma init_column:
  assumes "dims m n dp" "k \<le> Suc m"
  shows "dims m n (fold (\<lambda>i dp. set_cell i 0 i dp) [0..<k] dp) \<and>
   (\<forall>a b. fold (\<lambda>i dp. set_cell i 0 i dp) [0..<k] dp ! a ! b = (if b = 0 \<and> a < k then a else dp ! a ! b))"
  using assms(2)
proof (induction k)
  case 0
  then show ?case using assms(1) by simp
next
  case (Suc k)
  let ?d = "fold (\<lambda>i dp. set_cell i 0 i dp) [0..<k] dp"
  have d: "dims m n ?d" and v: "\<And>a b. ?d ! a ! b = (if b = 0 \<and> a < k then a else dp ! a ! b)"
    using Suc by simp_all
  have "set_cell k 0 k ?d ! a ! b = (if b = 0 \<and> a < Suc k then a else dp ! a ! b)" for a b
    using nth_set_cell [OF d, of k 0 k a b] v [of a b] Suc.prems by (auto simp: less_Suc_eq)
  moreover have "dims m n (set_cell k 0 k ?d)"
    using d Suc.prems by (simp add: dims_set_cell)
  moreover have "fold (\<lambda>i dp. set_cell i 0 i dp) [0..<Suc k] dp = set_cell k 0 k ?d" by simp
  ultimately show ?case by (simp only:) blast
qed

lemma init_row:
  assumes "dims m n dp" "k \<le> Suc n"
  shows "dims m n (fold (\<lambda>j dp. set_cell 0 j j dp) [0..<k] dp) \<and>
   (\<forall>a b. fold (\<lambda>j dp. set_cell 0 j j dp) [0..<k] dp ! a ! b = (if a = 0 \<and> b < k then b else dp ! a ! b))"
  using assms(2)
proof (induction k)
  case 0
  then show ?case using assms(1) by simp
next
  case (Suc k)
  let ?d = "fold (\<lambda>j dp. set_cell 0 j j dp) [0..<k] dp"
  have d: "dims m n ?d" and v: "\<And>a b. ?d ! a ! b = (if a = 0 \<and> b < k then b else dp ! a ! b)"
    using Suc by simp_all
  have "set_cell 0 k k ?d ! a ! b = (if a = 0 \<and> b < Suc k then b else dp ! a ! b)" for a b
    using nth_set_cell [OF d, of 0 k k a b] v [of a b] Suc.prems by (auto simp: less_Suc_eq)
  moreover have "dims m n (set_cell 0 k k ?d)"
    using d by (simp add: dims_set_cell)
  moreover have "fold (\<lambda>j dp. set_cell 0 j j dp) [0..<Suc k] dp = set_cell 0 k k ?d" by simp
  ultimately show ?case by (simp only:) blast
qed

lemma distance_init_cells:
  "dims m n (distance_init (Suc m) (Suc n))"
  "b \<le> n \<Longrightarrow> distance_init (Suc m) (Suc n) ! 0 ! b = b"
  "a \<le> m \<Longrightarrow> distance_init (Suc m) (Suc n) ! a ! 0 = a"
proof -
  let ?z = "replicate (Suc m) (replicate (Suc n) (0 :: nat))"
  have z: "dims m n ?z" by (simp add: dims_def del: replicate_Suc)
  note r = init_row [OF conjunct1 [OF init_column [OF z, of "Suc m"]], of "Suc n"]
  have d: "dims m n (distance_init (Suc m) (Suc n))"
    unfolding distance_init_def using r by blast
  have v: "distance_init (Suc m) (Suc n) ! a ! b =
      (if a = 0 \<and> b < Suc n then b else if b = 0 \<and> a < Suc m then a else ?z ! a ! b)" for a b
    unfolding distance_init_def using r init_column [OF z, of "Suc m"] by (simp del: upt_Suc replicate_Suc)
  show "dims m n (distance_init (Suc m) (Suc n))" by (rule d)
  show "b \<le> n \<Longrightarrow> distance_init (Suc m) (Suc n) ! 0 ! b = b" by (simp add: v)
  show "a \<le> m \<Longrightarrow> distance_init (Suc m) (Suc n) ! a ! 0 = a" by (simp add: v)
qed

lemma editDistance_lev: "editDistance s t = lev (rev s) (rev t)"
proof (cases "s = [] \<or> t = []")
  case True
  then show ?thesis by (auto simp: editDistance_def)
next
  case False
  have "nested_for (length s) (length t) (\<lambda>i j dp. set_cell i j (distance_cell s t i j dp) dp)
      (distance_init (Suc (length s)) (Suc (length t))) ! length s ! length t = lev_val s t (length s) (length t)"
    by (rule levenshtein.table_correct)
      (simp_all add: distance_init_cells lev_val_def)
  with False show ?thesis by (simp add: editDistance_def lev_val_def)
qed

lemma edit1_rev: "edit1 s t \<Longrightarrow> edit1 (rev s) (rev t)"
  by (induction rule: edit1.induct) (auto intro: edit1.intros)

lemma edits_rev: "(edit1 ^^ n) s t \<Longrightarrow> (edit1 ^^ n) (rev s) (rev t)"
  by (induction n arbitrary: t) (auto intro: edit1_rev)

text \<open>
  C9. The edit distance of the classifier is the Levenshtein distance: the two strings are that many
  single-character insertions, deletions and substitutions apart, and no shorter sequence of such
  edits leads from one to the other.
\<close>

theorem editDistance_optimal: "is_edit_distance s1 s2 (editDistance s1 s2)"
proof -
  have "(edit1 ^^ editDistance s1 s2) s1 s2"
    using edits_rev [OF lev_attained [of "rev s1" "rev s2"]] by (simp add: editDistance_lev)
  moreover have "(edit1 ^^ n) s1 s2 \<Longrightarrow> editDistance s1 s2 \<le> n" for n
    using lev_lower [OF edits_rev] by (simp add: editDistance_lev)
  ultimately show ?thesis by (simp add: is_edit_distance_def)
qed

end
