(* ===== verification/Edit_History.thy ===== *)
theory Edit_History
  imports Diffs
begin

text \<open>
  The tracker of recent edits (\<^verbatim>\<open>inline-completion/tracker/codeEditTracker.ts\<close>): snapshots of edited files
  with a debounce interval, a storage limit and an age limit.

  The arrays of snapshots are shared between the map \<^verbatim>\<open>snapshots\<close> and the closures of the age timers, so
  they live in a store: \<^verbatim>\<open>arrays\<close> gives the content of each array reference. A snapshot object is
  compared by identity, which is its \<^verbatim>\<open>snap_ref\<close>. A pending age timer is a triple of the array, the
  snapshot and the file it was started for. Logging is left out.
\<close>

section \<open>State\<close>

record RecentEditTrackerConfig =
  maxFiles :: nat
  maxStorageSizeKb :: int
  debounceIntervalMs :: int
  maxAgeMs :: int
  maxSupplementalContext :: int

definition RecentEditTrackerDefaultConfig :: RecentEditTrackerConfig where
  "RecentEditTrackerDefaultConfig =
     \<lparr>maxFiles = 25, maxStorageSizeKb = 10000, debounceIntervalMs = 2000, maxAgeMs = 30000,
      maxSupplementalContext = 15\<rparr>"

record tracked_snapshot = DocumentSnapshot +
  snap_ref :: nat

record RecentEditTracker =
  arrays :: "nat \<Rightarrow> tracked_snapshot list"
  next_array :: nat
  next_snap :: nat
  snapshots :: "(string \<times> nat) list"
  shadowCopies :: "(string \<times> string) list"
  activeDocuments :: "string set"
  storageSize :: int
  age_timers :: "(nat \<times> tracked_snapshot) list"

definition new_edit_tracker :: RecentEditTracker where
  "new_edit_tracker =
     \<lparr>arrays = (\<lambda>_. []), next_array = 0, next_snap = 0, snapshots = [], shadowCopies = [],
      activeDocuments = {}, storageSize = 0, age_timers = []\<rparr>"

text \<open>\<^verbatim>\<open>Buffer.byteLength(content, 'utf8')\<close>: code units from 128 on take two bytes (up to 255).\<close>

definition byteLength :: "string \<Rightarrow> int" where
  "byteLength s = int (sum_list (map (\<lambda>c. if (of_char c :: nat) < 128 then 1 else 2) s))"

definition MAX_SAFE_INTEGER :: int where
  "MAX_SAFE_INTEGER = 2 ^ 53 - 1"

section \<open>Limits\<close>

text \<open>\<^verbatim>\<open>findOldestFile\<close>: the loop keeps the oldest first snapshot seen so far.\<close>

fun oldest_loop ::
    "(nat \<Rightarrow> tracked_snapshot list) \<Rightarrow> (string \<times> nat) list \<Rightarrow> int \<Rightarrow> string option \<Rightarrow> string option" where
  "oldest_loop arr [] oldestTime oldestFile = oldestFile"
| "oldest_loop arr ((filePath, r) # es) oldestTime oldestFile =
     (case arr r of
        [] \<Rightarrow> oldest_loop arr es oldestTime oldestFile
      | s # _ \<Rightarrow>
          if snap_timestamp s < oldestTime
          then oldest_loop arr es (snap_timestamp s) (Some filePath)
          else oldest_loop arr es oldestTime oldestFile)"

definition findOldestFile :: "RecentEditTracker \<Rightarrow> string option" where
  "findOldestFile t = oldest_loop (arrays t) (snapshots t) MAX_SAFE_INTEGER None"

text \<open>One iteration of \<^verbatim>\<open>enforceMemoryLimits\<close> for the file found; an empty path is falsy and ends the loop.\<close>

definition evict :: "string \<Rightarrow> RecentEditTracker \<Rightarrow> RecentEditTracker" where
  "evict oldestFile t =
     (case map_get (snapshots t) oldestFile of
        None \<Rightarrow> t\<lparr>snapshots := map_del oldestFile (snapshots t)\<rparr>
      | Some r \<Rightarrow>
          (case arrays t r of
             [] \<Rightarrow> t\<lparr>snapshots := map_del oldestFile (snapshots t)\<rparr>
           | s # rest \<Rightarrow>
               let t' = t\<lparr>arrays := (arrays t)(r := rest), storageSize := storageSize t - snap_size s\<rparr>
               in if length rest = 0 then t'\<lparr>snapshots := map_del oldestFile (snapshots t)\<rparr> else t'))"

lemma oldest_loop_some:
  "oldest_loop arr es m f = Some g \<Longrightarrow> f = Some g \<or> (\<exists>r. (g, r) \<in> set es \<and> arr r \<noteq> [])"
proof (induction arr es m f rule: oldest_loop.induct)
  case (2 arr filePath r es oldestTime oldestFile)
  then show ?case by (auto split: list.splits if_splits)
qed simp

lemma findOldestFile_some: "findOldestFile t = Some f \<Longrightarrow> \<exists>r. (f, r) \<in> set (snapshots t) \<and> arrays t r \<noteq> []"
  unfolding findOldestFile_def using oldest_loop_some by blast

text \<open>The work left: the snapshots in all mapped arrays and the number of mapped files.\<close>

definition eviction_work :: "RecentEditTracker \<Rightarrow> nat" where
  "eviction_work t = (\<Sum>r\<in>snd ` set (snapshots t). length (arrays t r)) + length (snapshots t)"

lemma map_del_subset: "set (map_del k m) \<subseteq> set m"
  by (auto simp: map_del_def AList.delete_eq)

lemma length_map_del_less: "map_get m k = Some v \<Longrightarrow> length (map_del k m) < length m"
proof (induction m)
  case (Cons p m)
  then show ?case
    by (cases p) (auto simp: map_del_def map_get_def AList.delete_eq length_filter_le less_Suc_eq_le split: if_splits)
qed (simp add: map_get_def)

lemma evict_work:
  assumes "findOldestFile t = Some f"
  shows "eviction_work (evict f t) < eviction_work t"
proof -
  from findOldestFile_some [OF assms] obtain r0 where "(f, r0) \<in> set (snapshots t)" by blast
  then obtain r where r: "map_get (snapshots t) f = Some r"
    by (metis map_get_def not_None_eq weak_map_of_SomeI)
  then have mem: "r \<in> snd ` set (snapshots t)"
    by (auto simp: map_get_def dest: map_of_SomeD intro: rev_image_eqI)
  have del: "snd ` set (map_del f (snapshots t)) \<subseteq> snd ` set (snapshots t)"
    using map_del_subset by (rule image_mono)
  show ?thesis
  proof (cases "arrays t r")
    case Nil
    have "(\<Sum>r\<in>snd ` set (map_del f (snapshots t)). length (arrays t r)) \<le>
        (\<Sum>r\<in>snd ` set (snapshots t). length (arrays t r))"
      by (rule sum_mono2) (use del in auto)
    then show ?thesis
      using r Nil length_map_del_less [OF r] by (simp add: evict_def eviction_work_def)
  next
    case (Cons s rest)
    let ?arr = "(arrays t)(r := rest)"
    have "(\<Sum>q\<in>snd ` set (snapshots t). length (?arr q)) < (\<Sum>q\<in>snd ` set (snapshots t). length (arrays t q))"
      by (rule sum_strict_mono_ex1) (use mem Cons in \<open>auto intro!: bexI [of _ r]\<close>)
    moreover have "(\<Sum>q\<in>snd ` set (map_del f (snapshots t)). length (?arr q)) \<le>
        (\<Sum>q\<in>snd ` set (snapshots t). length (?arr q))"
      by (rule sum_mono2) (use del in auto)
    ultimately show ?thesis
      using r Cons length_map_del_less [OF r]
      by (cases "rest = []") (simp_all add: evict_def eviction_work_def Let_def)
  qed
qed

function enforceMemoryLimits :: "RecentEditTrackerConfig \<Rightarrow> RecentEditTracker \<Rightarrow> RecentEditTracker" where
  "enforceMemoryLimits cfg t =
     (if storageSize t > maxStorageSizeKb cfg * 1024
      then (case findOldestFile t of
              None \<Rightarrow> t
            | Some f \<Rightarrow> if f = [] then t else enforceMemoryLimits cfg (evict f t))
      else t)"
  by pat_completeness auto
termination
  by (relation "measure (\<lambda>(cfg, t). eviction_work t)") (auto simp: evict_work)

declare enforceMemoryLimits.simps [simp del]

definition enforceTimeLimits :: "tracked_snapshot \<Rightarrow> RecentEditTracker \<Rightarrow> RecentEditTracker" where
  "enforceTimeLimits s t =
     (case map_get (snapshots t) (snap_filePath s) of
        None \<Rightarrow> t
      | Some r \<Rightarrow> t\<lparr>age_timers := age_timers t @ [(r, s)]\<rparr>)"

text \<open>The callback of an age timer, on the array it captured.\<close>

definition age_out :: "nat \<Rightarrow> tracked_snapshot \<Rightarrow> RecentEditTracker \<Rightarrow> RecentEditTracker" where
  "age_out r s t =
     (let index = findIndex (\<lambda>x. snap_ref x = snap_ref s) (arrays t r)
      in if index \<noteq> -1
         then let rest = take (nat index) (arrays t r) @ drop (Suc (nat index)) (arrays t r);
                  t' = t\<lparr>arrays := (arrays t)(r := rest), storageSize := storageSize t - snap_size s\<rparr>
              in if length rest = 0 then t'\<lparr>snapshots := map_del (snap_filePath s) (snapshots t')\<rparr> else t'
         else t)"

section \<open>Document events\<close>

definition processEdit ::
    "RecentEditTrackerConfig \<Rightarrow> int \<Rightarrow> text_document \<Rightarrow> string \<Rightarrow> RecentEditTracker \<Rightarrow> RecentEditTracker" where
  "processEdit cfg now document previousContent t =
     (let filePath = td_uri document
      in if \<not> startsWith (td_uri document) ''file'' then t
         else let (r, known) = (case map_get (snapshots t) filePath of
                                  Some r \<Rightarrow> (r, arrays t r) | None \<Rightarrow> (next_array t, []));
                  shouldAddSnapshot = (length known = 0 \<or>
                    now - snap_timestamp (last known) > debounceIntervalMs cfg)
              in if \<not> shouldAddSnapshot then t
                 else let size = byteLength previousContent;
                          snapshot = \<lparr>snap_filePath = filePath, snap_size = size, snap_timestamp = now,
                                      snap_content = previousContent, snap_ref = next_snap t\<rparr>;
                          t1 = t\<lparr>arrays := (arrays t)(r := known @ [snapshot]),
                                 next_array := (if map_get (snapshots t) filePath = None
                                                then Suc (next_array t) else next_array t),
                                 next_snap := Suc (next_snap t),
                                 snapshots := map_set filePath r (snapshots t),
                                 storageSize := storageSize t + size\<rparr>
                      in enforceTimeLimits snapshot (enforceMemoryLimits cfg t1))"

definition updateShadowCopy :: "text_document \<Rightarrow> RecentEditTracker \<Rightarrow> RecentEditTracker" where
  "updateShadowCopy document t =
     (if startsWith (td_uri document) ''file''
      then t\<lparr>shadowCopies := map_set (td_uri document) (td_text document) (shadowCopies t)\<rparr> else t)"

definition getShadowCopy :: "RecentEditTracker \<Rightarrow> string \<Rightarrow> string option" where
  "getShadowCopy t uri = map_get (shadowCopies t) uri"

definition trackActiveDocument :: "text_document \<Rightarrow> RecentEditTracker \<Rightarrow> RecentEditTracker" where
  "trackActiveDocument document t =
     (if startsWith (td_uri document) ''file''
      then updateShadowCopy document (t\<lparr>activeDocuments := insert (td_uri document) (activeDocuments t)\<rparr>)
      else t)"

definition untrackDocument :: "string \<Rightarrow> RecentEditTracker \<Rightarrow> RecentEditTracker" where
  "untrackDocument uri t =
     (if uri \<in> activeDocuments t then t\<lparr>activeDocuments := activeDocuments t - {uri}\<rparr> else t)"

definition handleDocumentOpen :: "text_document \<Rightarrow> RecentEditTracker \<Rightarrow> RecentEditTracker" where
  "handleDocumentOpen document t =
     (if startsWith (td_uri document) ''file'' then trackActiveDocument document t else t)"

definition handleDocumentClose :: "string \<Rightarrow> RecentEditTracker \<Rightarrow> RecentEditTracker" where
  "handleDocumentClose uri t = untrackDocument uri t"

text \<open>An empty shadow copy is falsy, like a missing one.\<close>

definition handleDocumentChange ::
    "RecentEditTrackerConfig \<Rightarrow> int \<Rightarrow> text_document \<Rightarrow> RecentEditTracker \<Rightarrow> RecentEditTracker" where
  "handleDocumentChange cfg now updatedDocument t =
     updateShadowCopy updatedDocument
       (case getShadowCopy t (td_uri updatedDocument) of
          None \<Rightarrow> t
        | Some previousContent \<Rightarrow>
            if previousContent = [] then t else processEdit cfg now updatedDocument previousContent t)"

section \<open>Queries\<close>

definition getFileSnapshots :: "RecentEditTracker \<Rightarrow> string \<Rightarrow> tracked_snapshot list" where
  "getFileSnapshots t filePath =
     (case map_get (snapshots t) filePath of Some r \<Rightarrow> arrays t r | None \<Rightarrow> [])"

definition getTrackedFiles :: "RecentEditTracker \<Rightarrow> string list" where
  "getTrackedFiles t = map fst (snapshots t)"

definition getTotalSnapshotCount :: "RecentEditTracker \<Rightarrow> nat" where
  "getTotalSnapshotCount t = fold (\<lambda>(f, r) count. count + length (arrays t r)) (snapshots t) 0"

definition empty_edit_context :: CodeWhispererSupplementalContext where
  "empty_edit_context =
     \<lparr>sc_isUtg = False, sc_isProcessTimeout = False, sc_supplementalContextItems = [],
      sc_contentsLength = 0, sc_latency = 0, sc_strategy = recentEdits\<rparr>"

definition generatePredictionSupplementalContext ::
    "patch_maker \<Rightarrow> int \<times> int \<times> int \<Rightarrow> int \<times> int \<Rightarrow> RecentEditTrackerConfig \<Rightarrow> RecentEditTracker
     \<Rightarrow> text_document \<Rightarrow> CodeWhispererSupplementalContext" where
  "generatePredictionSupplementalContext createPatch clock outer cfg t activeDocument =
     (let filePath = td_uri activeDocument; snaps = getFileSnapshots t filePath
      in if length snaps = 0 then empty_edit_context
         else let contextItems = generateDiffContexts createPatch clock filePath (td_text activeDocument)
                    (map (\<lambda>s. \<lparr>fsc_filePath = snap_filePath s, fsc_content = snap_content s,
                               fsc_timestamp = snap_timestamp s\<rparr>) snaps)
                    (maxSupplementalContext cfg)
              in \<lparr>sc_isUtg = False, sc_isProcessTimeout = False,
                  sc_supplementalContextItems = sc_supplementalContextItems contextItems,
                  sc_contentsLength = total_content (sc_supplementalContextItems contextItems),
                  sc_latency = snd outer - fst outer, sc_strategy = recentEdits\<rparr>)"

text \<open>Without an active document there is none to be found, and the context is empty.\<close>

definition generateEditBasedContext ::
    "patch_maker \<Rightarrow> int \<times> int \<times> int \<Rightarrow> int \<times> int \<Rightarrow> RecentEditTrackerConfig \<Rightarrow> RecentEditTracker
     \<Rightarrow> text_document option \<Rightarrow> CodeWhispererSupplementalContext" where
  "generateEditBasedContext createPatch clock outer cfg t activeDocument =
     (case activeDocument of
        None \<Rightarrow> empty_edit_context
      | Some d \<Rightarrow> generatePredictionSupplementalContext createPatch clock outer cfg t d)"

definition hasRecentEditInLine ::
    "RecentEditTracker \<Rightarrow> int \<Rightarrow> string option \<Rightarrow> int \<Rightarrow> int \<Rightarrow> int \<Rightarrow> bool" where
  "hasRecentEditInLine t now documentUri lineNum timeThresholdMs lineRange =
     (case documentUri of
        None \<Rightarrow> False
      | Some uri \<Rightarrow>
          if uri = [] then False
          else let snaps = getFileSnapshots t uri;
                   cutoffTime = now - timeThresholdMs;
                   recentSnapshots = filter (\<lambda>s. snap_timestamp s \<ge> cutoffTime) snaps
               in if length snaps = 0 \<or> length recentSnapshots = 0 then False
                  else let oldestRecentSnapshot = sort_key snap_timestamp recentSnapshots ! 0
                       in case getShadowCopy t uri of
                            None \<Rightarrow> False
                          | Some currentContent \<Rightarrow>
                              if currentContent = [] then False
                              else let currentLines = split_eol currentContent;
                                       snapshotLines = split_eol (snap_content oldestRecentSnapshot);
                                       startLine = max 0 (lineNum - lineRange);
                                       endLine = min (max (int (length currentLines)) (int (length snapshotLines)))
                                                   (lineNum + lineRange + 1)
                                   in list_ex (\<lambda>i.
                                        let inSnapshot = i < int (length snapshotLines);
                                            inCurrent = i < int (length currentLines)
                                        in (inSnapshot \<and> inCurrent \<and> currentLines ! nat i \<noteq> snapshotLines ! nat i) \<or>
                                           inSnapshot \<noteq> inCurrent)
                                        [startLine..endLine - 1])"

definition dispose_edits :: "RecentEditTracker \<Rightarrow> RecentEditTracker" where
  "dispose_edits t =
     t\<lparr>snapshots := [], shadowCopies := [], activeDocuments := {}, storageSize := 0\<rparr>"

section \<open>Invariant\<close>

definition array_size :: "tracked_snapshot list \<Rightarrow> int" where
  "array_size ss = sum_list (map snap_size ss)"

lemma array_size_simps [simp]:
  "array_size [] = 0" "array_size (s # ss) = snap_size s + array_size ss"
  "array_size (ss @ ss') = array_size ss + array_size ss'"
  by (simp_all add: array_size_def)

text \<open>
  Mapped arrays belong to one file and are never empty, all other arrays are empty, the storage size is
  the size of all arrays, and snapshot objects are told apart by their reference.
\<close>

definition snapshot_ok :: "nat \<Rightarrow> tracked_snapshot \<Rightarrow> bool" where
  "snapshot_ok n s \<longleftrightarrow> snap_timestamp s < MAX_SAFE_INTEGER \<and> 0 \<le> snap_size s \<and> snap_ref s < n \<and>
     snap_filePath s \<noteq> []"

definition mapping_ok :: "(nat \<Rightarrow> tracked_snapshot list) \<Rightarrow> nat \<Rightarrow> (string \<times> nat) list \<Rightarrow> bool" where
  "mapping_ok arr n m \<longleftrightarrow>
     map_wf m \<and> distinct (map snd m) \<and>
     (\<forall>(f, r)\<in>set m. r < n \<and> arr r \<noteq> [] \<and> (\<forall>s\<in>set (arr r). snap_filePath s = f)) \<and>
     (\<forall>r. r \<notin> snd ` set m \<longrightarrow> arr r = [])"

definition identity_ok :: "(nat \<Rightarrow> tracked_snapshot list) \<Rightarrow> (nat \<times> tracked_snapshot) list \<Rightarrow> bool" where
  "identity_ok arr timers \<longleftrightarrow>
     (\<forall>r. distinct (map snap_ref (arr r))) \<and>
     (\<forall>(r0, s)\<in>set timers. \<forall>r. \<forall>x\<in>set (arr r). snap_ref x = snap_ref s \<longrightarrow> x = s)"

definition edit_inv :: "RecentEditTracker \<Rightarrow> bool" where
  "edit_inv t \<longleftrightarrow>
     mapping_ok (arrays t) (next_array t) (snapshots t) \<and>
     (\<forall>r. \<forall>s\<in>set (arrays t r). snapshot_ok (next_snap t) s) \<and>
     identity_ok (arrays t) (age_timers t) \<and>
     (\<forall>(r, s)\<in>set (age_timers t). snapshot_ok (next_snap t) s) \<and>
     storageSize t = (\<Sum>r<next_array t. array_size (arrays t r))"

lemma edit_inv_init: "edit_inv new_edit_tracker"
  by (simp add: edit_inv_def mapping_ok_def identity_ok_def new_edit_tracker_def)

lemma sum_array_upd:
  fixes r n :: nat
  assumes "r < n"
  shows "(\<Sum>q<n. array_size ((arr(r := x)) q)) = (\<Sum>q<n. array_size (arr q)) - array_size (arr r) + array_size x"
proof -
  have "(\<Sum>q<n. array_size ((arr(r := x)) q)) =
      array_size x + (\<Sum>q\<in>{..<n} - {r}. array_size ((arr(r := x)) q))"
    using assms by (subst sum.remove [of _ r]) auto
  also have "(\<Sum>q\<in>{..<n} - {r}. array_size ((arr(r := x)) q)) = (\<Sum>q\<in>{..<n} - {r}. array_size (arr q))"
    by (rule sum.cong) auto
  also have "(\<Sum>q\<in>{..<n} - {r}. array_size (arr q)) = (\<Sum>q<n. array_size (arr q)) - array_size (arr r)"
    using assms by (subst sum.remove [of "{..<n}" r]) auto
  finally show ?thesis by simp
qed

lemma mapping_okI:
  assumes "map_wf m" "distinct (map snd m)"
    and "\<And>f r. (f, r) \<in> set m \<Longrightarrow> r < n" "\<And>f r. (f, r) \<in> set m \<Longrightarrow> arr r \<noteq> []"
    and "\<And>f r s. (f, r) \<in> set m \<Longrightarrow> s \<in> set (arr r) \<Longrightarrow> snap_filePath s = f"
    and "\<And>r. r \<notin> snd ` set m \<Longrightarrow> arr r = []"
  shows "mapping_ok arr n m"
  unfolding mapping_ok_def using assms by blast

lemma mapping_okD:
  assumes "mapping_ok arr n m"
  shows "map_wf m" "distinct (map snd m)"
    and "(f, r) \<in> set m \<Longrightarrow> r < n" "(f, r) \<in> set m \<Longrightarrow> arr r \<noteq> []"
    and "(f, r) \<in> set m \<Longrightarrow> s \<in> set (arr r) \<Longrightarrow> snap_filePath s = f"
    and "arr r \<noteq> [] \<Longrightarrow> r \<in> snd ` set m"
  using assms unfolding mapping_ok_def by blast+

lemma mapping_inj: "mapping_ok arr n m \<Longrightarrow> (f, r) \<in> set m \<Longrightarrow> (g, r) \<in> set m \<Longrightarrow> f = g"
  by (drule mapping_okD(2)) (metis Pair_inject distinct_map inj_onD snd_conv)

lemma mapping_get_iff: "mapping_ok arr n m \<Longrightarrow> map_get m f = Some r \<longleftrightarrow> (f, r) \<in> set m"
  by (drule mapping_okD(1)) (simp add: map_wf_def map_get_def)

lemma mem_map_del: "(g, q) \<in> set (map_del f m) \<longleftrightarrow> (g, q) \<in> set m \<and> g \<noteq> f"
  by (auto simp: map_del_def AList.delete_eq)

lemma map_del_ok:
  assumes ok: "mapping_ok arr n m" and fr: "(f, r) \<in> set m"
  shows "mapping_ok (arr(r := [])) n (map_del f m)"
proof (rule mapping_okI)
  show "map_wf (map_del f m)" using mapping_okD(1) [OF ok] by (rule jsmap.wf_del)
  show "distinct (map snd (map_del f m))"
    using mapping_okD(2) [OF ok] by (auto simp: map_del_def AList.delete_eq distinct_map intro: inj_on_subset)
next
  fix g q assume gq: "(g, q) \<in> set (map_del f m)"
  then have mem: "(g, q) \<in> set m" "g \<noteq> f" by (simp_all add: mem_map_del)
  have qr: "q \<noteq> r" using mapping_inj [OF ok _ fr] mem by blast
  show "q < n" using mapping_okD(3) [OF ok] mem by blast
  show "(arr(r := [])) q \<noteq> []" using qr mapping_okD(4) [OF ok mem(1)] by simp
  show "snap_filePath s = g" if "s \<in> set ((arr(r := [])) q)" for s
    using qr mapping_okD(5) [OF ok mem(1)] that by simp
next
  fix q assume q: "q \<notin> snd ` set (map_del f m)"
  show "(arr(r := [])) q = []"
  proof (rule ccontr)
    assume "(arr(r := [])) q \<noteq> []"
    then have "q \<noteq> r" "arr q \<noteq> []" by (auto split: if_splits)
    then obtain g where g: "(g, q) \<in> set m" using mapping_okD(6) [OF ok] by force
    then have "g \<noteq> f" using fr \<open>q \<noteq> r\<close> mapping_get_iff [OF ok] by (metis option.inject)
    with g have "(g, q) \<in> set (map_del f m)" by (simp add: mem_map_del)
    with q show False by (metis imageI snd_conv)
  qed
qed

lemma replace_ok:
  assumes ok: "mapping_ok arr n m" and fr: "(f, r) \<in> set m" and "x \<noteq> []"
    and "\<And>s. s \<in> set x \<Longrightarrow> snap_filePath s = f"
  shows "mapping_ok (arr(r := x)) n m"
proof (rule mapping_okI)
  fix g q assume gq: "(g, q) \<in> set m"
  show "q < n" by (rule mapping_okD(3) [OF ok gq])
  show "(arr(r := x)) q \<noteq> []" using assms(3) mapping_okD(4) [OF ok gq] by simp
  show "snap_filePath s = g" if "s \<in> set ((arr(r := x)) q)" for s
  proof (cases "q = r")
    case True
    then show ?thesis using that assms(4) mapping_inj [OF ok fr] gq by simp
  next
    case False
    then show ?thesis using that mapping_okD(5) [OF ok gq] by simp
  qed
next
  fix q assume "q \<notin> snd ` set m"
  then show "(arr(r := x)) q = []" using mapping_okD(6) [OF ok] fr by force
qed (use mapping_okD(1,2) [OF ok] in auto)

lemma identity_ok_shrink:
  assumes "identity_ok arr timers" and "\<And>q. set (arr' q) \<subseteq> set (arr q)"
    and "\<And>q. distinct (map snap_ref (arr' q))"
  shows "identity_ok arr' timers"
  unfolding identity_ok_def
proof (intro conjI allI)
  show "distinct (map snap_ref (arr' r))" for r by (rule assms(3))
  show "\<forall>(r0, s)\<in>set timers. \<forall>r. \<forall>x\<in>set (arr' r). snap_ref x = snap_ref s \<longrightarrow> x = s"
    using assms(1) assms(2) unfolding identity_ok_def by blast
qed

lemma edit_invD:
  assumes "edit_inv t"
  shows "mapping_ok (arrays t) (next_array t) (snapshots t)"
    and "\<And>r s. s \<in> set (arrays t r) \<Longrightarrow> snapshot_ok (next_snap t) s"
    and "identity_ok (arrays t) (age_timers t)"
    and "\<And>r s. (r, s) \<in> set (age_timers t) \<Longrightarrow> snapshot_ok (next_snap t) s"
    and "storageSize t = (\<Sum>r<next_array t. array_size (arrays t r))"
  using assms unfolding edit_inv_def by blast+

text \<open>Removing one snapshot from the array of its file, with the map entry when it was the last one.\<close>

definition drop_snapshot :: "nat \<Rightarrow> tracked_snapshot list \<Rightarrow> tracked_snapshot \<Rightarrow> RecentEditTracker \<Rightarrow> RecentEditTracker" where
  "drop_snapshot r rest s t =
     t\<lparr>arrays := (arrays t)(r := rest), storageSize := storageSize t - snap_size s,
       snapshots := (if rest = [] then map_del (snap_filePath s) (snapshots t) else snapshots t)\<rparr>"

lemma drop_snapshot_inv:
  assumes inv: "edit_inv t" and arr: "arrays t r = pre @ s # post"
  shows "edit_inv (drop_snapshot r (pre @ post) s t)"
proof -
  note i = edit_invD [OF inv]
  obtain f where f: "(f, r) \<in> set (snapshots t)"
    using mapping_okD(6) [OF i(1), of r] arr by force
  have paths: "x \<in> set (pre @ s # post) \<Longrightarrow> snap_filePath x = f" for x
    using mapping_okD(5) [OF i(1) f] arr by simp
  have rn: "r < next_array t" by (rule mapping_okD(3) [OF i(1) f])
  let ?arr = "(arrays t)(r := pre @ post)"
  let ?m = "if pre @ post = [] then map_del (snap_filePath s) (snapshots t) else snapshots t"
  have sub: "set (?arr q) \<subseteq> set (arrays t q)" for q using arr by auto
  have "mapping_ok ?arr (next_array t) ?m"
  proof (cases "pre @ post = []")
    case True
    then show ?thesis using map_del_ok [OF i(1) f] paths by simp
  next
    case False
    show ?thesis
      unfolding if_not_P [OF False] by (rule replace_ok [OF i(1) f False]) (use paths in auto)
  qed
  moreover have "identity_ok ?arr (age_timers t)"
  proof (rule identity_ok_shrink [OF i(3) sub])
    have d: "distinct (map snap_ref (arrays t q))" for q using i(3) by (simp add: identity_ok_def)
    show "distinct (map snap_ref (?arr q))" for q
      using d [of q] d [of r] unfolding arr by auto
  qed
  moreover have "(\<Sum>q<next_array t. array_size (?arr q)) = storageSize t - snap_size s"
    unfolding sum_array_upd [OF rn] i(5) using arr by simp
  moreover have "snapshot_ok (next_snap t) x" if "x \<in> set (?arr q)" for q x
    using sub that i(2) by blast
  ultimately show ?thesis
    using i(4) unfolding edit_inv_def drop_snapshot_def by simp blast
qed

lemma evict_drop:
  assumes inv: "edit_inv t" and f: "(f, r) \<in> set (snapshots t)" and arr: "arrays t r = s # rest"
  shows "evict f t = drop_snapshot r rest s t"
proof -
  have "map_get (snapshots t) f = Some r"
    using f mapping_get_iff [OF edit_invD(1) [OF inv]] by simp
  moreover have "snap_filePath s = f"
    using mapping_okD(5) [OF edit_invD(1) [OF inv] f] arr by simp
  ultimately show ?thesis using arr by (simp add: evict_def drop_snapshot_def Let_def)
qed

lemma evict_inv:
  assumes "edit_inv t" "findOldestFile t = Some f"
  shows "edit_inv (evict f t)"
proof -
  obtain r s rest where "(f, r) \<in> set (snapshots t)" "arrays t r = s # rest"
    using findOldestFile_some [OF assms(2)] by (auto simp: neq_Nil_conv)
  then show ?thesis
    using evict_drop [OF assms(1)] drop_snapshot_inv [OF assms(1), of r "[]" s rest] by simp
qed

lemma oldest_loop_none:
  "oldest_loop arr es m f = None \<Longrightarrow> f = None \<and> (\<forall>(g, r)\<in>set es. arr r = [] \<or> snap_timestamp (hd (arr r)) \<ge> m)"
proof (induction arr es m f rule: oldest_loop.induct)
  case (2 arr filePath r es oldestTime oldestFile)
  then show ?case by (auto split: list.splits if_splits)
qed simp

text \<open>With room for time stamps, no oldest file means that nothing is stored.\<close>

lemma findOldestFile_none:
  assumes "edit_inv t" "findOldestFile t = None"
  shows "storageSize t = 0"
proof -
  note i = edit_invD [OF assms(1)]
  have "arrays t r = []" for r
  proof (rule ccontr)
    assume ne: "arrays t r \<noteq> []"
    then obtain f where "(f, r) \<in> set (snapshots t)" using mapping_okD(6) [OF i(1)] by force
    then have "snap_timestamp (hd (arrays t r)) \<ge> MAX_SAFE_INTEGER"
      using assms(2) ne oldest_loop_none unfolding findOldestFile_def by blast
    moreover have "snap_timestamp (hd (arrays t r)) < MAX_SAFE_INTEGER"
      using i(2) [of "hd (arrays t r)" r] ne by (simp add: snapshot_ok_def)
    ultimately show False by simp
  qed
  then show ?thesis unfolding i(5) by simp
qed

lemma findOldestFile_path: "edit_inv t \<Longrightarrow> findOldestFile t = Some f \<Longrightarrow> f \<noteq> []"
  using findOldestFile_some [of t f] mapping_okD(5) [OF edit_invD(1)] edit_invD(2)
  by (metis list.set_sel(1) snapshot_ok_def)

lemma enforceMemoryLimits_inv:
  assumes "edit_inv t" "0 \<le> maxStorageSizeKb cfg"
  shows "edit_inv (enforceMemoryLimits cfg t) \<and>
    storageSize (enforceMemoryLimits cfg t) \<le> maxStorageSizeKb cfg * 1024 \<and>
    next_snap (enforceMemoryLimits cfg t) = next_snap t \<and>
    age_timers (enforceMemoryLimits cfg t) = age_timers t \<and>
    (\<forall>r. set (arrays (enforceMemoryLimits cfg t) r) \<subseteq> set (arrays t r))"
  using assms
proof (induction cfg t rule: enforceMemoryLimits.induct)
  case (1 cfg t)
  show ?case
  proof (cases "storageSize t > maxStorageSizeKb cfg * 1024")
    case False
    then have "enforceMemoryLimits cfg t = t" by (subst enforceMemoryLimits.simps) simp
    then show ?thesis using False 1(2) by simp
  next
    case True
    then have "findOldestFile t \<noteq> None"
      using findOldestFile_none [OF 1(2)] 1(3) by force
    then obtain f where f: "findOldestFile t = Some f" by blast
    have ne: "f \<noteq> []" by (rule findOldestFile_path [OF 1(2) f])
    have step: "enforceMemoryLimits cfg t = enforceMemoryLimits cfg (evict f t)"
      using True f ne by (subst enforceMemoryLimits.simps) simp
    obtain r s rest where rs: "(f, r) \<in> set (snapshots t)" "arrays t r = s # rest"
      using findOldestFile_some [OF f] by (auto simp: neq_Nil_conv)
    have ev: "evict f t = drop_snapshot r rest s t" by (rule evict_drop [OF 1(2) rs])
    have sub: "set (arrays (evict f t) q) \<subseteq> set (arrays t q)" for q
      using rs(2) by (auto simp: ev drop_snapshot_def)
    have same: "next_snap (evict f t) = next_snap t" "age_timers (evict f t) = age_timers t"
      by (simp_all add: ev drop_snapshot_def)
    show ?thesis
      unfolding step using 1(1) [OF True f ne evict_inv [OF 1(2) f] 1(3)] sub unfolding same
      by (meson order_trans)
  qed
qed

text \<open>Taking a snapshot.\<close>

definition add_snapshot :: "nat \<Rightarrow> tracked_snapshot \<Rightarrow> RecentEditTracker \<Rightarrow> RecentEditTracker" where
  "add_snapshot r s t =
     t\<lparr>arrays := (arrays t)(r := arrays t r @ [s]),
       next_array := (if map_get (snapshots t) (snap_filePath s) = None then Suc (next_array t) else next_array t),
       next_snap := Suc (next_snap t), snapshots := map_set (snap_filePath s) r (snapshots t),
       storageSize := storageSize t + snap_size s\<rparr>"

lemma add_mapping_new:
  assumes ok: "mapping_ok arr n m" and f: "map_get m f = None" and s: "snap_filePath s = f"
  shows "mapping_ok (arr(n := [s])) (Suc n) (map_set f n m)"
proof -
  have m: "map_set f n m = m @ [(f, n)]" by (rule map_set_new [OF f])
  have new: "n \<notin> snd ` set m" using mapping_okD(3) [OF ok] by force
  show ?thesis
  proof (rule mapping_okI)
    show "map_wf (map_set f n m)" using mapping_okD(1) [OF ok] by (rule jsmap.wf_put)
    show "distinct (map snd (map_set f n m))" using mapping_okD(2) [OF ok] new by (simp add: m)
    show "r < Suc n" if "(g, r) \<in> set (map_set f n m)" for g r
      using that mapping_okD(3) [OF ok, of g r] by (auto simp: m)
    show "(arr(n := [s])) r \<noteq> []" if "(g, r) \<in> set (map_set f n m)" for g r
      using that mapping_okD(4) [OF ok, of g r] by (auto simp: m)
    show "snap_filePath x = g" if "(g, r) \<in> set (map_set f n m)" "x \<in> set ((arr(n := [s])) r)" for g r x
      using that mapping_okD(5) [OF ok, of g r x] mapping_okD(3) [OF ok, of g r] s
      by (auto simp: m split: if_splits)
    show "(arr(n := [s])) r = []" if "r \<notin> snd ` set (map_set f n m)" for r
      using that mapping_okD(6) [OF ok, of r] by (auto simp: m)
  qed
qed

lemma add_snapshot_inv:
  assumes inv: "edit_inv t"
    and s: "snap_ref s = next_snap t" "snapshot_ok (Suc (next_snap t)) s"
    and r: "r = (case map_get (snapshots t) (snap_filePath s) of Some q \<Rightarrow> q | None \<Rightarrow> next_array t)"
  shows "edit_inv (add_snapshot r s t)"
proof -
  note i = edit_invD [OF inv]
  let ?t = "add_snapshot r s t"
  have fresh: "x \<in> set (arrays t q) \<Longrightarrow> snap_ref x < next_snap t" for q x
    using i(2) by (simp add: snapshot_ok_def)
  have unmapped: "arrays t (next_array t) = []"
    using mapping_okD(3,6) [OF i(1)] by fastforce
  have map: "mapping_ok (arrays ?t) (next_array ?t) (snapshots ?t)"
  proof (cases "map_get (snapshots t) (snap_filePath s)")
    case None
    then show ?thesis
      using add_mapping_new [OF i(1) None refl] unmapped r by (simp add: add_snapshot_def)
  next
    case (Some q)
    then have mem: "(snap_filePath s, q) \<in> set (snapshots t)" using mapping_get_iff [OF i(1)] by simp
    then show ?thesis
      using replace_ok [OF i(1) mem, of "arrays t q @ [s]"] mapping_okD(5) [OF i(1) mem] Some r
      by (auto simp: add_snapshot_def map_set_same)
  qed
  have ok: "snapshot_ok (next_snap ?t) x" if "x \<in> set (arrays ?t q)" for q x
    using that s(2) i(2) [of x q] by (auto simp: add_snapshot_def snapshot_ok_def split: if_splits)
  have ident: "identity_ok (arrays ?t) (age_timers ?t)"
    unfolding identity_ok_def
  proof (intro conjI allI)
    have d: "distinct (map snap_ref (arrays t q))" for q using i(3) by (simp add: identity_ok_def)
    show "distinct (map snap_ref (arrays ?t q))" for q
      using d [of q] fresh s(1) by (force simp: add_snapshot_def)
    have same: "x = u" if "(r0, u) \<in> set (age_timers t)" "x \<in> set (arrays ?t q)" "snap_ref x = snap_ref u" for r0 u q x
    proof -
      have "snap_ref u < next_snap t" using i(4) [OF that(1)] by (simp add: snapshot_ok_def)
      then have "x \<noteq> s" using that(3) s(1) by auto
      then have "x \<in> set (arrays t q)" using that(2) by (auto simp: add_snapshot_def split: if_splits)
      then show ?thesis using i(3) that(1,3) unfolding identity_ok_def by blast
    qed
    have timers: "age_timers ?t = age_timers t" by (simp add: add_snapshot_def)
    show "\<forall>(r0, u)\<in>set (age_timers ?t). \<forall>q. \<forall>x\<in>set (arrays ?t q). snap_ref x = snap_ref u \<longrightarrow> x = u"
      unfolding timers using same by blast
  qed
  have size: "storageSize ?t = (\<Sum>q<next_array ?t. array_size (arrays ?t q))"
  proof (cases "map_get (snapshots t) (snap_filePath s)")
    case None
    then show ?thesis using r i(5) unmapped by (simp add: add_snapshot_def)
  next
    case (Some q)
    then have "q < next_array t" using mapping_get_iff [OF i(1)] mapping_okD(3) [OF i(1)] by blast
    then show ?thesis
      using r Some i(5) by (simp add: add_snapshot_def sum_array_upd del: fun_upd_apply)
  qed
  have timers: "snapshot_ok (next_snap ?t) u" if "(r0, u) \<in> set (age_timers ?t)" for r0 u
    using that i(4) [of r0 u] by (simp add: add_snapshot_def snapshot_ok_def)
  show ?thesis unfolding edit_inv_def using map ok ident timers size by blast
qed

lemma findIndex_split:
  assumes "findIndex P xs \<noteq> -1"
  shows "\<exists>pre x post. xs = pre @ x # post \<and> P x \<and> nat (findIndex P xs) = length pre"
proof -
  have ex: "list_ex P xs" using assms by (auto simp: findIndex_def split: if_splits)
  let ?pre = "takeWhile (\<lambda>x. \<not> P x) xs"
  have ne: "dropWhile (\<lambda>x. \<not> P x) xs \<noteq> []" using ex by (auto simp: list_ex_iff)
  then obtain x post where d: "dropWhile (\<lambda>x. \<not> P x) xs = x # post" by (meson neq_Nil_conv)
  then have "xs = ?pre @ x # post" by (metis takeWhile_dropWhile_id)
  moreover have "P x" using d by (metis dropWhile_eq_Cons_conv)
  moreover have "nat (findIndex P xs) = length ?pre" using ex by (simp add: findIndex_def)
  ultimately show ?thesis by blast
qed

lemma age_out_inv:
  assumes inv: "edit_inv t" and timer: "(r, s) \<in> set (age_timers t)"
  shows "edit_inv (age_out r s t)" and "storageSize (age_out r s t) \<le> storageSize t"
proof -
  note i = edit_invD [OF inv]
  have "edit_inv (age_out r s t) \<and> storageSize (age_out r s t) \<le> storageSize t"
  proof (cases "findIndex (\<lambda>x. snap_ref x = snap_ref s) (arrays t r) = -1")
    case True
    then have "age_out r s t = t" by (simp add: age_out_def del: findIndex_none)
    then show ?thesis using inv by simp
  next
    case False
    then obtain pre x post where split: "arrays t r = pre @ x # post" "snap_ref x = snap_ref s"
      "nat (findIndex (\<lambda>x. snap_ref x = snap_ref s) (arrays t r)) = length pre"
      using findIndex_split by blast
    have "x \<in> set (arrays t r)" using split(1) by simp
    then have x: "x = s" using i(3) timer split(2) unfolding identity_ok_def by blast
    have "age_out r s t = drop_snapshot r (pre @ post) s t"
      using False split(1,3) x by (simp add: age_out_def drop_snapshot_def Let_def del: findIndex_none)
    moreover have "0 \<le> snap_size s" using i(4) [OF timer] by (simp add: snapshot_ok_def)
    ultimately show ?thesis
      using drop_snapshot_inv [OF inv, of r pre s post] split(1) x by (simp add: drop_snapshot_def)
  qed
  then show "edit_inv (age_out r s t)" "storageSize (age_out r s t) \<le> storageSize t" by simp_all
qed

lemma byteLength_nonneg: "0 \<le> byteLength s"
  by (simp add: byteLength_def)

lemma enforceTimeLimits_inv:
  assumes inv: "edit_inv t" and s: "snapshot_ok (next_snap t) s"
    and id: "\<And>r x. x \<in> set (arrays t r) \<Longrightarrow> snap_ref x = snap_ref s \<Longrightarrow> x = s"
  shows "edit_inv (enforceTimeLimits s t)"
proof (cases "map_get (snapshots t) (snap_filePath s)")
  case None
  then show ?thesis using inv by (simp add: enforceTimeLimits_def)
next
  case (Some r)
  note i = edit_invD [OF inv]
  have "identity_ok (arrays t) (age_timers t @ [(r, s)])"
    using i(3) id unfolding identity_ok_def by auto
  then show ?thesis
    using i Some s unfolding edit_inv_def enforceTimeLimits_def by auto
qed

lemma processEdit_inv:
  assumes inv: "edit_inv t" and cfg: "0 \<le> maxStorageSizeKb cfg" and now: "now < MAX_SAFE_INTEGER"
    and bound: "storageSize t \<le> maxStorageSizeKb cfg * 1024"
  shows "edit_inv (processEdit cfg now d prev t) \<and>
    storageSize (processEdit cfg now d prev t) \<le> maxStorageSizeKb cfg * 1024"
proof -
  let ?s = "\<lparr>snap_filePath = td_uri d, snap_size = byteLength prev, snap_timestamp = now,
             snap_content = prev, snap_ref = next_snap t\<rparr>"
  let ?r = "case map_get (snapshots t) (td_uri d) of Some q \<Rightarrow> q | None \<Rightarrow> next_array t"
  let ?u = "add_snapshot ?r ?s t"
  let ?v = "enforceMemoryLimits cfg ?u"
  have same: "processEdit cfg now d prev t = t \<or>
      (startsWith (td_uri d) ''file'' \<and> processEdit cfg now d prev t = enforceTimeLimits ?s ?v)"
  proof -
    have "arrays t (next_array t) = []"
      using mapping_okD(3,6) [OF edit_invD(1) [OF inv]] by fastforce
    then show ?thesis
      by (cases "map_get (snapshots t) (td_uri d)") (simp_all add: processEdit_def add_snapshot_def Let_def)
  qed
  show ?thesis
  proof (cases "processEdit cfg now d prev t = t")
    case True
    then show ?thesis using inv bound by simp
  next
    case False
    then have path: "td_uri d \<noteq> []" and eq: "processEdit cfg now d prev t = enforceTimeLimits ?s ?v"
      using same by (auto simp: startsWith_def)
    have ok: "snapshot_ok (Suc (next_snap t)) ?s"
      using now path byteLength_nonneg by (simp add: snapshot_ok_def)
    have u: "edit_inv ?u" by (rule add_snapshot_inv [OF inv]) (use ok in simp_all)
    note v = enforceMemoryLimits_inv [OF u cfg]
    have id: "x = ?s" if "x \<in> set (arrays ?v q)" "snap_ref x = snap_ref ?s" for q x
    proof (rule ccontr)
      assume "x \<noteq> ?s"
      moreover have "x \<in> set (arrays ?u q)" using that(1) v by blast
      ultimately have "x \<in> set (arrays t q)"
        by (auto simp: add_snapshot_def split: if_splits option.splits)
      then show False using edit_invD(2) [OF inv] that(2) by (fastforce simp: snapshot_ok_def)
    qed
    have "next_snap ?u = Suc (next_snap t)" by (simp add: add_snapshot_def)
    then have "edit_inv (enforceTimeLimits ?s ?v)"
      using enforceTimeLimits_inv [OF _ _ id] v ok by simp
    moreover have "storageSize (enforceTimeLimits ?s ?v) = storageSize ?v"
      by (simp add: enforceTimeLimits_def split: option.split)
    ultimately show ?thesis unfolding eq using v by simp
  qed
qed

section \<open>Runs of the tracker\<close>

text \<open>Time stamps are those of \<^verbatim>\<open>Date.now()\<close>, which stays below \<^verbatim>\<open>Number.MAX_SAFE_INTEGER\<close>.\<close>

inductive edit_step :: "RecentEditTrackerConfig \<Rightarrow> RecentEditTracker \<Rightarrow> RecentEditTracker \<Rightarrow> bool"
  for cfg where
  open_step: "edit_step cfg t (handleDocumentOpen d t)"
| close_step: "edit_step cfg t (handleDocumentClose uri t)"
| change_step: "now < MAX_SAFE_INTEGER \<Longrightarrow> edit_step cfg t (handleDocumentChange cfg now d t)"
| timer_step: "(r, s) \<in> set (age_timers t) \<Longrightarrow>
    edit_step cfg t ((age_out r s t)\<lparr>age_timers := remove1 (r, s) (age_timers t)\<rparr>)"

lemma inv_cong:
  assumes "edit_inv t" "arrays t' = arrays t" "next_array t' = next_array t" "next_snap t' = next_snap t"
    "snapshots t' = snapshots t" "storageSize t' = storageSize t" "set (age_timers t') \<subseteq> set (age_timers t)"
  shows "edit_inv t'"
proof -
  have "identity_ok (arrays t) (age_timers t')"
    using edit_invD(3) [OF assms(1)] assms(7) unfolding identity_ok_def by blast
  then show ?thesis using edit_invD [OF assms(1)] assms(2-7) unfolding edit_inv_def by auto
qed

lemma updateShadowCopy_fields [simp]:
  "arrays (updateShadowCopy d t) = arrays t" "next_array (updateShadowCopy d t) = next_array t"
  "next_snap (updateShadowCopy d t) = next_snap t" "snapshots (updateShadowCopy d t) = snapshots t"
  "storageSize (updateShadowCopy d t) = storageSize t" "age_timers (updateShadowCopy d t) = age_timers t"
  by (simp_all add: updateShadowCopy_def)

lemma age_out_timers [simp]: "age_timers (age_out r s t) = age_timers t"
  by (simp add: age_out_def Let_def)

lemma edit_step_inv:
  assumes "edit_step cfg t t'" "edit_inv t" "storageSize t \<le> maxStorageSizeKb cfg * 1024"
    "0 \<le> maxStorageSizeKb cfg"
  shows "edit_inv t' \<and> storageSize t' \<le> maxStorageSizeKb cfg * 1024"
  using assms(1)
proof (cases rule: edit_step.cases)
  case (open_step d)
  have "edit_inv t'"
    unfolding open_step by (rule inv_cong [OF assms(2)]) (simp_all add: handleDocumentOpen_def trackActiveDocument_def)
  then show ?thesis using assms(3) by (simp add: open_step handleDocumentOpen_def trackActiveDocument_def)
next
  case (close_step uri)
  have "edit_inv t'"
    unfolding close_step by (rule inv_cong [OF assms(2)]) (simp_all add: handleDocumentClose_def untrackDocument_def)
  then show ?thesis using assms(3) by (simp add: close_step handleDocumentClose_def untrackDocument_def)
next
  case (change_step now d)
  let ?u = "case getShadowCopy t (td_uri d) of None \<Rightarrow> t
    | Some p \<Rightarrow> if p = [] then t else processEdit cfg now d p t"
  have u: "edit_inv ?u \<and> storageSize ?u \<le> maxStorageSizeKb cfg * 1024"
    using assms(2,3) processEdit_inv [OF assms(2,4) change_step(2) assms(3)]
    by (simp split: option.split)
  have "edit_inv (updateShadowCopy d ?u)"
    by (rule inv_cong [OF conjunct1 [OF u]]) simp_all
  with u show ?thesis by (simp add: change_step handleDocumentChange_def)
next
  case (timer_step r s)
  have "edit_inv (age_out r s t)" "storageSize (age_out r s t) \<le> maxStorageSizeKb cfg * 1024"
    using age_out_inv [OF assms(2) timer_step(2)] assms(3) by simp_all
  moreover have "set (remove1 (r, s) (age_timers t)) \<subseteq> set (age_timers (age_out r s t))"
    by (simp add: set_remove1_subset)
  ultimately show ?thesis unfolding timer_step(1)
    using inv_cong [of "age_out r s t" "(age_out r s t)\<lparr>age_timers := remove1 (r, s) (age_timers t)\<rparr>"] by simp
qed

lemma edit_run_inv:
  assumes "(edit_step cfg)\<^sup>*\<^sup>* new_edit_tracker t" "0 \<le> maxStorageSizeKb cfg"
  shows "edit_inv t \<and> storageSize t \<le> maxStorageSizeKb cfg * 1024"
  using assms(1)
proof (induction rule: rtranclp_induct)
  case base
  then show ?case using edit_inv_init assms(2) by (simp add: new_edit_tracker_def)
next
  case (step y z)
  then show ?case using edit_step_inv assms(2) by blast
qed

lemma getFileSnapshots_eq:
  assumes "edit_inv t" "(f, r) \<in> set (snapshots t)"
  shows "getFileSnapshots t f = arrays t r"
proof -
  have "map_get (snapshots t) f = Some r"
    using assms(2) mapping_get_iff [OF edit_invD(1) [OF assms(1)]] by blast
  then show ?thesis by (simp add: getFileSnapshots_def)
qed

lemma storageSize_files:
  assumes "edit_inv t"
  shows "storageSize t = sum_list (map (\<lambda>f. array_size (getFileSnapshots t f)) (getTrackedFiles t))"
proof -
  note i = edit_invD [OF assms]
  let ?m = "snapshots t"
  have sub: "snd ` set ?m \<subseteq> {..<next_array t}"
    using mapping_okD(3) [OF i(1)] by (auto simp del: lessThan_iff simp: lessThan_def)
  have "(\<Sum>r<next_array t. array_size (arrays t r)) = (\<Sum>r\<in>snd ` set ?m. array_size (arrays t r))"
    by (rule sum.mono_neutral_right) (use sub mapping_okD(6) [OF i(1)] in force)+
  also have "\<dots> = sum_list (map (\<lambda>r. array_size (arrays t r)) (map snd ?m))"
    by (subst sum_list_distinct_conv_sum_set [OF mapping_okD(2) [OF i(1)]]) simp
  also have "\<dots> = sum_list (map (\<lambda>f. array_size (getFileSnapshots t f)) (map fst ?m))"
  proof -
    have "map (\<lambda>r. array_size (arrays t r)) (map snd ?m) =
        map (\<lambda>f. array_size (getFileSnapshots t f)) (map fst ?m)"
      using getFileSnapshots_eq [OF assms] by (auto simp: split_beta)
    then show ?thesis by (rule arg_cong)
  qed
  finally show ?thesis by (simp add: i(5) getTrackedFiles_def)
qed


definition sample_doc :: "string \<Rightarrow> text_document" where
  "sample_doc txt = \<lparr>td_uri = ''file:///a.ts'', td_languageId = ''typescript'', td_version = 1, td_text = txt\<rparr>"


section \<open>Recent edits around a line\<close>

definition line_at :: "string list \<Rightarrow> nat \<Rightarrow> string option" where
  "line_at ls i = (if i < length ls then Some (ls ! i) else None)"

lemma window_scan:
  assumes "0 \<le> a"
  shows "list_ex (\<lambda>i. let inS = i < int (length ss); inC = i < int (length cs)
        in (inS \<and> inC \<and> cs ! nat i \<noteq> ss ! nat i) \<or> inS \<noteq> inC)
      [a..min (max (int (length cs)) (int (length ss))) e - 1] \<longleftrightarrow>
    (\<exists>i. a \<le> int i \<and> int i < e \<and> line_at cs i \<noteq> line_at ss i)"
proof -
  have differ: "(\<lambda>i. let inS = i < int (length ss); inC = i < int (length cs)
        in (inS \<and> inC \<and> cs ! nat i \<noteq> ss ! nat i) \<or> inS \<noteq> inC) (int k) \<longleftrightarrow>
      line_at cs k \<noteq> line_at ss k" for k
    by (auto simp: line_at_def Let_def)
  have beyond: "line_at cs k \<noteq> line_at ss k \<Longrightarrow> int k < max (int (length cs)) (int (length ss))" for k
    by (auto simp: line_at_def split: if_splits)
  show ?thesis
  proof
    assume "list_ex (\<lambda>i. let inS = i < int (length ss); inC = i < int (length cs)
        in (inS \<and> inC \<and> cs ! nat i \<noteq> ss ! nat i) \<or> inS \<noteq> inC)
      [a..min (max (int (length cs)) (int (length ss))) e - 1]"
    then obtain i where i: "a \<le> i" "i < e" and d: "(\<lambda>i. let inS = i < int (length ss); inC = i < int (length cs)
        in (inS \<and> inC \<and> cs ! nat i \<noteq> ss ! nat i) \<or> inS \<noteq> inC) i"
      by (auto simp: list_ex_iff)
    obtain k where "i = int k" using i(1) assms nonneg_int_cases by (metis order.trans)
    then show "\<exists>i. a \<le> int i \<and> int i < e \<and> line_at cs i \<noteq> line_at ss i"
      using i d differ [of k] by blast
  next
    assume "\<exists>i. a \<le> int i \<and> int i < e \<and> line_at cs i \<noteq> line_at ss i"
    then obtain k where k: "a \<le> int k" "int k < e" "line_at cs k \<noteq> line_at ss k" by blast
    have "int k \<in> set [a..min (max (int (length cs)) (int (length ss))) e - 1]"
      using k beyond [OF k(3)] by auto
    then show "list_ex (\<lambda>i. let inS = i < int (length ss); inC = i < int (length cs)
        in (inS \<and> inC \<and> cs ! nat i \<noteq> ss ! nat i) \<or> inS \<noteq> inC)
      [a..min (max (int (length cs)) (int (length ss))) e - 1]"
      using k(3) differ [of k] unfolding list_ex_iff by blast
  qed
qed

text \<open>
  The recent-edit test of a line is exact: it holds if and only if the document has a non-empty current
  text and a snapshot within the time threshold, and some line at most the given distance away
  differs between the oldest such snapshot and the current text, where a line that only one of
  the two has counts as different.
\<close>

theorem hasRecentEditInLine_iff:
  "hasRecentEditInLine t now (Some uri) lineNum threshold rng \<longleftrightarrow>
   uri \<noteq> [] \<and>
   (\<exists>cur recent. getShadowCopy t uri = Some cur \<and> cur \<noteq> [] \<and>
      recent = filter (\<lambda>s. snap_timestamp s \<ge> now - threshold) (getFileSnapshots t uri) \<and> recent \<noteq> [] \<and>
      (\<exists>i. lineNum - rng \<le> int i \<and> int i \<le> lineNum + rng \<and>
         line_at (split_eol cur) i \<noteq> line_at (split_eol (snap_content (hd (sort_key snap_timestamp recent)))) i))"
proof -
  let ?recent = "filter (\<lambda>s. snap_timestamp s \<ge> now - threshold) (getFileSnapshots t uri)"
  have ne: "sort_key snap_timestamp ?recent \<noteq> []" if "?recent \<noteq> []"
    using that by (metis set_empty set_sort)
  have win: "(\<exists>i. max 0 (lineNum - rng) \<le> int i \<and> int i < lineNum + rng + 1 \<and> P i) \<longleftrightarrow>
      (\<exists>i. lineNum - rng \<le> int i \<and> int i \<le> lineNum + rng \<and> P i)" for P
    by (rule arg_cong [where f = Ex]) auto
  show ?thesis
  proof (cases "uri = [] \<or> ?recent = [] \<or> getShadowCopy t uri = None \<or> getShadowCopy t uri = Some []")
    case True
    then show ?thesis by (auto simp: hasRecentEditInLine_def Let_def split: option.split)
  next
    case False
    then obtain cur where cur: "getShadowCopy t uri = Some cur" "cur \<noteq> []" by auto
    have snaps: "getFileSnapshots t uri \<noteq> []" using False by auto
    have "hasRecentEditInLine t now (Some uri) lineNum threshold rng \<longleftrightarrow>
        (\<exists>i. max 0 (lineNum - rng) \<le> int i \<and> int i < lineNum + rng + 1 \<and>
         line_at (split_eol cur) i \<noteq> line_at (split_eol (snap_content (hd (sort_key snap_timestamp ?recent)))) i)"
      using False cur snaps ne unfolding hasRecentEditInLine_def
      by (subst window_scan [symmetric]) (simp_all add: Let_def hd_conv_nth)
    then show ?thesis using False cur unfolding win by auto
  qed
qed

text \<open>
  Disposing of the tracker does not stop its timers: when a timer of a kept snapshot with content
  expires after the tracker was disposed, the storage size becomes negative, so a tracker that is used
  again afterwards stores more than its limit.
\<close>

theorem dispose_leaves_timers:
  assumes "edit_inv t" "(r, s) \<in> set (age_timers t)" "s \<in> set (arrays t r)" "snap_size s > 0"
  shows "storageSize (age_out r s (dispose_edits t)) < 0"
proof -
  have "findIndex (\<lambda>x. snap_ref x = snap_ref s) (arrays t r) \<noteq> -1"
    using assms(3) by auto
  then show ?thesis using assms(4) by (simp add: age_out_def dispose_edits_def Let_def del: findIndex_none)
qed

theorem dispose_leaves_timers_witness:
  "\<exists>r s. storageSize (age_out r s (dispose_edits
     (processEdit RecentEditTrackerDefaultConfig 5 (sample_doc ''xy'') ''x'' new_edit_tracker))) < 0"
proof -
  let ?c = RecentEditTrackerDefaultConfig
  let ?t = "processEdit ?c 5 (sample_doc ''xy'') ''x'' new_edit_tracker"
  let ?s = "\<lparr>snap_filePath = ''file:///a.ts'', snap_size = 1, snap_timestamp = 5,
             snap_content = ''x'', snap_ref = 0\<rparr>"
  have one: "byteLength ''x'' = 1" by (simp add: byteLength_def)
  have stop: "storageSize u \<le> 10240000 \<Longrightarrow> enforceMemoryLimits ?c u = u" for u
    by (subst enforceMemoryLimits.simps) (simp add: RecentEditTrackerDefaultConfig_def)
  have t: "age_timers ?t = [(0, ?s)]" "arrays ?t 0 = [?s]"
    by (simp_all add: processEdit_def sample_doc_def new_edit_tracker_def startsWith_def one stop
        enforceTimeLimits_def Let_def jsmap.get_put)
  have inv: "edit_inv ?t"
    using processEdit_inv [OF edit_inv_init, of ?c 5]
    by (simp add: RecentEditTrackerDefaultConfig_def MAX_SAFE_INTEGER_def new_edit_tracker_def)
  show ?thesis
    using dispose_leaves_timers [OF inv, of 0 ?s] unfolding t by (intro exI) simp
qed

end
