(* ===== verification/Cursor.thy ===== *)
theory Cursor
  imports Protocol
begin

text \<open>
  Cursor positions over time (\<^verbatim>\<open>inline-completion/tracker/cursorTracker.ts\<close>). As in the edit tracker, the
  history arrays are shared between the map \<^verbatim>\<open>cursorHistory\<close> and the closures of the age timers, so they
  live in a store of arrays; a pending timer is the array it captured together with its cursor position.
\<close>

section \<open>Definitions\<close>

record CursorPosition =
  cur_uri :: string
  cur_position :: position
  cur_timestamp :: int

record CursorTracker =
  histories :: "nat \<Rightarrow> CursorPosition list"
  next_history :: nat
  cursorHistory :: "(string \<times> nat) list"
  cursor_timers :: "(nat \<times> CursorPosition) list"

definition MAX_HISTORY_SIZE :: nat where
  "MAX_HISTORY_SIZE = 100"

definition new_cursor_tracker :: CursorTracker where
  "new_cursor_tracker =
     \<lparr>histories = (\<lambda>_. []), next_history = 0, cursorHistory = [], cursor_timers = []\<rparr>"

definition isSamePosition :: "position \<Rightarrow> position \<Rightarrow> bool" where
  "isSamePosition pos1 pos2 \<longleftrightarrow> pos_line pos1 = pos_line pos2 \<and> pos_character pos1 = pos_character pos2"

text \<open>\<^verbatim>\<open>history.push(p); if (history.length > MAX_HISTORY_SIZE) history.shift()\<close>.\<close>

definition push_position :: "CursorPosition \<Rightarrow> CursorPosition list \<Rightarrow> CursorPosition list" where
  "push_position p history =
     (let history' = history @ [p] in if length history' > MAX_HISTORY_SIZE then tl history' else history')"

definition enforceTimeLimits :: "CursorPosition \<Rightarrow> CursorTracker \<Rightarrow> CursorTracker" where
  "enforceTimeLimits p t =
     (case map_get (cursorHistory t) (cur_uri p) of
        None \<Rightarrow> t
      | Some r \<Rightarrow> t\<lparr>cursor_timers := cursor_timers t @ [(r, p)]\<rparr>)"

definition trackPosition :: "int \<Rightarrow> string \<Rightarrow> position \<Rightarrow> CursorTracker \<Rightarrow> CursorTracker \<times> CursorPosition" where
  "trackPosition now uri pos t =
     (let cursorPosition = \<lparr>cur_uri = uri, cur_position = pos, cur_timestamp = now\<rparr>;
          t1 = (if \<not> map_has (cursorHistory t) uri
                then t\<lparr>histories := (histories t)(next_history t := []), next_history := Suc (next_history t),
                       cursorHistory := map_set uri (next_history t) (cursorHistory t)\<rparr>
                else t);
          r = the (map_get (cursorHistory t1) uri);
          t2 = t1\<lparr>histories := (histories t1)(r := push_position cursorPosition (histories t1 r))\<rparr>
      in (enforceTimeLimits cursorPosition t2, cursorPosition))"

text \<open>The callback of an age timer.\<close>

definition forget_position :: "nat \<Rightarrow> CursorPosition \<Rightarrow> CursorTracker \<Rightarrow> CursorTracker" where
  "forget_position r p t =
     (let index = findIndex (\<lambda>pos. cur_timestamp pos = cur_timestamp p \<and>
                    isSamePosition (cur_position pos) (cur_position p)) (histories t r)
      in if index \<noteq> -1
         then let rest = take (nat index) (histories t r) @ drop (Suc (nat index)) (histories t r);
                  t' = t\<lparr>histories := (histories t)(r := rest)\<rparr>
              in if length rest = 0 then t'\<lparr>cursorHistory := map_del (cur_uri p) (cursorHistory t')\<rparr> else t'
         else t)"

definition getHistory :: "CursorTracker \<Rightarrow> string \<Rightarrow> CursorPosition list" where
  "getHistory t uri = (case map_get (cursorHistory t) uri of None \<Rightarrow> [] | Some r \<Rightarrow> histories t r)"

definition getTrackedDocuments :: "CursorTracker \<Rightarrow> string list" where
  "getTrackedDocuments t = map fst (cursorHistory t)"

text \<open>The loop from the newest entry backwards.\<close>

fun last_timestamp :: "position \<Rightarrow> CursorPosition list \<Rightarrow> int option" where
  "last_timestamp pos [] = None"
| "last_timestamp pos (e # older) =
     (if isSamePosition (cur_position e) pos then Some (cur_timestamp e) else last_timestamp pos older)"

definition getLastPositionTimestamp :: "CursorTracker \<Rightarrow> string \<Rightarrow> position \<Rightarrow> int option" where
  "getLastPositionTimestamp t uri pos =
     (case map_get (cursorHistory t) uri of
        None \<Rightarrow> None
      | Some r \<Rightarrow> last_timestamp pos (rev (histories t r)))"

text \<open>A zero time stamp is falsy, like a missing one.\<close>

definition hasPositionChanged :: "CursorTracker \<Rightarrow> int \<Rightarrow> string \<Rightarrow> position \<Rightarrow> int \<Rightarrow> bool" where
  "hasPositionChanged t now uri pos durationMs =
     (case getLastPositionTimestamp t uri pos of
        None \<Rightarrow> True
      | Some lastTimestamp \<Rightarrow> if lastTimestamp = 0 then True else now - lastTimestamp \<ge> durationMs)"

definition clearHistory :: "string \<Rightarrow> CursorTracker \<Rightarrow> CursorTracker" where
  "clearHistory uri t = t\<lparr>cursorHistory := map_del uri (cursorHistory t)\<rparr>"

definition dispose_cursors :: "CursorTracker \<Rightarrow> CursorTracker" where
  "dispose_cursors t = t\<lparr>cursorHistory := []\<rparr>"

section \<open>The history of one document\<close>

interpretation positions: bounded_log push_position rev 100
proof unfold_locales
  show "rev (push_position x l) = take 100 (x # rev l)" if "length (rev l) \<le> 100" for x l
    using that by (cases l) (auto simp: push_position_def MAX_HISTORY_SIZE_def Let_def)
qed simp

definition cursor_wf :: "CursorTracker \<Rightarrow> bool" where
  "cursor_wf t \<longleftrightarrow>
     (\<forall>(u, r)\<in>set (cursorHistory t). r < next_history t) \<and> distinct (map snd (cursorHistory t)) \<and>
     map_wf (cursorHistory t) \<and> (\<forall>r. length (histories t r) \<le> 100)"

lemma getHistory_track:
  assumes wf: "cursor_wf t"
  shows "getHistory (fst (trackPosition now uri pos t)) v =
    (if v = uri then push_position \<lparr>cur_uri = uri, cur_position = pos, cur_timestamp = now\<rparr> (getHistory t uri)
     else getHistory t v)"
proof -
  have get: "map_get (cursorHistory t) v = Some r \<Longrightarrow> (v, r) \<in> set (cursorHistory t)" for v r
    by (auto simp: map_get_def dest: map_of_SomeD)
  have lt: "map_get (cursorHistory t) v = Some r \<Longrightarrow> r < next_history t" for v r
    using get wf unfolding cursor_wf_def by blast
  have inj: "map_get (cursorHistory t) v = Some r \<Longrightarrow> map_get (cursorHistory t) w = Some r \<Longrightarrow> v = w" for v w r
    using get wf unfolding cursor_wf_def distinct_map by (metis inj_onD Pair_inject snd_conv)
  have timers: "getHistory (enforceTimeLimits p u) v = getHistory u v" for p u
    by (simp add: enforceTimeLimits_def getHistory_def split: option.split)
  show ?thesis
  proof (cases "map_get (cursorHistory t) uri")
    case None
    then have "\<not> map_has (cursorHistory t) uri" by (simp add: jsmap.has_iff)
    then show ?thesis
      using None lt [of v] unfolding trackPosition_def Let_def fst_conv timers
      by (auto simp: getHistory_def jsmap.get_put split: option.split)
  next
    case (Some r)
    then have "map_has (cursorHistory t) uri" by (simp add: jsmap.has_iff)
    then show ?thesis
      using Some inj unfolding trackPosition_def Let_def fst_conv timers
      by (auto simp: getHistory_def split: option.split)
  qed
qed

lemma cursor_wf_track:
  assumes wf: "cursor_wf t"
  shows "cursor_wf (fst (trackPosition now uri pos t))"
proof -
  have len: "length (push_position p l) \<le> 100" if "length l \<le> 100" for p l
    using positions.bound_add [of l p] that by simp
  have timers: "cursor_wf (enforceTimeLimits p u) = cursor_wf u" for p u
    by (simp add: enforceTimeLimits_def cursor_wf_def split: option.split)
  show ?thesis
  proof (cases "map_has (cursorHistory t) uri")
    case True
    then show ?thesis
      using wf len unfolding trackPosition_def Let_def fst_conv timers by (auto simp: cursor_wf_def)
  next
    case False
    have new: "map_set uri n (cursorHistory t) = cursorHistory t @ [(uri, n)]" for n
      using False by (simp add: map_set_new jsmap.has_iff)
    have "next_history t \<notin> snd ` set (cursorHistory t)" using wf by (auto simp: cursor_wf_def)
    moreover have "uri \<notin> fst ` set (cursorHistory t)" using False by (simp add: map_has_def)
    ultimately show ?thesis
      using False wf len unfolding trackPosition_def Let_def fst_conv timers
      by (auto simp: cursor_wf_def new map_wf_def)
  qed
qed

text \<open>Tracking a sequence of positions, with the time of each.\<close>

definition track_all :: "(int \<times> string \<times> position) list \<Rightarrow> CursorTracker \<Rightarrow> CursorTracker" where
  "track_all es t = fold (\<lambda>(now, uri, pos) t. fst (trackPosition now uri pos t)) es t"

lemma track_all_history:
  assumes "cursor_wf t"
  shows "getHistory (track_all es t) v =
    fold push_position (map (\<lambda>(now, uri, pos). \<lparr>cur_uri = uri, cur_position = pos, cur_timestamp = now\<rparr>)
      (filter (\<lambda>(now, uri, pos). uri = v) es)) (getHistory t v)"
  using assms
proof (induction es arbitrary: t)
  case Nil
  then show ?case by (simp add: track_all_def)
next
  case (Cons e es)
  obtain now uri pos where e: "e = (now, uri, pos)" by (cases e)
  have "getHistory (track_all es (fst (trackPosition now uri pos t))) v =
      fold push_position (map (\<lambda>(now, uri, pos). \<lparr>cur_uri = uri, cur_position = pos, cur_timestamp = now\<rparr>)
        (filter (\<lambda>(now, uri, pos). uri = v) es)) (getHistory (fst (trackPosition now uri pos t)) v)"
    by (rule Cons.IH [OF cursor_wf_track [OF Cons.prems]])
  then show ?case using getHistory_track [OF Cons.prems] e by (simp add: track_all_def)
qed

text \<open>
  The cursor history of a document is the newest hundred positions tracked for it, and the cursor
  counts as settled exactly by the newest of them at the asked position: it has changed when no such
  entry exists or when the newest one is at least the given duration old.
\<close>

theorem cursor_history_newest:
  assumes "list_all (\<lambda>(now, uri, pos). now \<noteq> 0) es"
  shows "let t = track_all es new_cursor_tracker;
      mine = take 100 (rev (filter (\<lambda>(now, uri, pos). uri = v) es))
    in map (\<lambda>e. (cur_timestamp e, cur_uri e, cur_position e)) (rev (getHistory t v)) = mine \<and>
       hasPositionChanged t now v pos d =
         (case List.find (\<lambda>(n, u, p). p = pos) mine of None \<Rightarrow> True | Some (n, u, p) \<Rightarrow> now - n \<ge> d)"
proof -
  let ?t = "track_all es new_cursor_tracker"
  let ?f = "\<lambda>(now, uri, pos). \<lparr>cur_uri = uri, cur_position = pos, cur_timestamp = now\<rparr>"
  let ?mine = "take 100 (rev (filter (\<lambda>(now, uri, pos). uri = v) es))"
  have "cursor_wf new_cursor_tracker" by (simp add: cursor_wf_def new_cursor_tracker_def)
  then have "getHistory ?t v = fold push_position (map ?f (filter (\<lambda>(now, uri, pos). uri = v) es)) []"
    using track_all_history by (simp add: getHistory_def new_cursor_tracker_def)
  then have hist: "rev (getHistory ?t v) = map ?f ?mine"
    using positions.entries_fold [of "[]"] by (simp add: take_map rev_map)
  have last: "last_timestamp pos (map ?f ms) =
      map_option (\<lambda>(n, u, p). n) (List.find (\<lambda>(n, u, p). p = pos) ms)" for ms
    by (induction ms) (auto simp: isSamePosition_def)
  have query: "getLastPositionTimestamp ?t v pos = last_timestamp pos (rev (getHistory ?t v))"
    by (simp add: getLastPositionTimestamp_def getHistory_def split: option.split)
  have "n \<noteq> 0" if "List.find (\<lambda>(n, u, p). p = pos) ?mine = Some (n, u, p)" for n u p
    using find_SomeD [OF that] assms by (auto simp: list_all_iff dest!: in_set_takeD)
  then have "hasPositionChanged ?t now v pos d =
      (case List.find (\<lambda>(n, u, p). p = pos) ?mine of None \<Rightarrow> True | Some (n, u, p) \<Rightarrow> now - n \<ge> d)"
    unfolding hasPositionChanged_def query hist last by (auto split: option.split)
  moreover have "map (\<lambda>e. (cur_timestamp e, cur_uri e, cur_position e)) (map ?f ms) = ms" for ms
    by (induction ms) auto
  ultimately show ?thesis unfolding Let_def hist by blast
qed

theorem cursor_history_newest_witness:
  "hasPositionChanged (track_all [(5, ''file:///a.ts'', \<lparr>pos_line = 1, pos_character = 2\<rparr>)] new_cursor_tracker)
     7 ''file:///a.ts'' \<lparr>pos_line = 1, pos_character = 2\<rparr> 2"
  using cursor_history_newest [of "[(5, ''file:///a.ts'', \<lparr>pos_line = 1, pos_character = 2\<rparr>)]" "''file:///a.ts''"
      7 "\<lparr>pos_line = 1, pos_character = 2\<rparr>" 2]
  by (simp add: Let_def)

section \<open>Timers that outlive a cleared history\<close>

text \<open>
  A timer that outlives its history removes a newer one: when a document is tracked, its history is
  cleared (as closing the document does) and it is tracked again, the timer of the first position
  empties the detached array and deletes the document's new history, although its position has not expired.
\<close>

theorem stale_timer_deletes_history:
  "let t1 = fst (trackPosition n1 uri p new_cursor_tracker);
       t2 = clearHistory uri t1;
       t3 = fst (trackPosition n2 uri q t2);
       (r, e) = hd (cursor_timers t3)
   in cur_timestamp e = n1 \<and>
      getHistory t3 uri = [\<lparr>cur_uri = uri, cur_position = q, cur_timestamp = n2\<rparr>] \<and>
      getHistory (forget_position r e t3) uri = []"
proof -
  define e1 where "e1 = \<lparr>cur_uri = uri, cur_position = p, cur_timestamp = n1\<rparr>"
  define e2 where "e2 = \<lparr>cur_uri = uri, cur_position = q, cur_timestamp = n2\<rparr>"
  have maps: "map_get [(uri, k)] uri = Some k" "map_set uri k [] = [(uri, k)]" "map_del uri [(uri, k)] = []"
    "map_has [(uri, k)] uri" for k :: nat
    by (simp_all add: map_get_def map_set_def map_del_def map_has_def)
  have push: "push_position e [] = [e]" for e by (simp add: push_position_def MAX_HISTORY_SIZE_def)
  have uri: "cur_uri e1 = uri" "cur_uri e2 = uri" by (simp_all add: e1_def e2_def)
  have t1: "clearHistory uri (fst (trackPosition n1 uri p new_cursor_tracker)) =
      \<lparr>histories = (\<lambda>_. [])(0 := [e1]), next_history = 1, cursorHistory = [], cursor_timers = [(0, e1)]\<rparr>"
    unfolding trackPosition_def e1_def [symmetric]
    by (simp add: new_cursor_tracker_def maps push uri clearHistory_def enforceTimeLimits_def Let_def)
  define t3 where "t3 = \<lparr>histories = (\<lambda>_. [])(0 := [e1], 1 := [e2]), next_history = 2,
      cursorHistory = [(uri, 1)], cursor_timers = [(0, e1), (1, e2)]\<rparr>"
  have t3: "fst (trackPosition n2 uri q (clearHistory uri (fst (trackPosition n1 uri p new_cursor_tracker)))) = t3"
    unfolding t1 unfolding trackPosition_def e2_def [symmetric] t3_def
    by (simp add: maps push uri enforceTimeLimits_def Let_def numeral_2_eq_2)
  have "findIndex (\<lambda>pos. cur_timestamp pos = cur_timestamp e1 \<and>
      isSamePosition (cur_position pos) (cur_position e1)) [e1] = 0"
    by (simp add: findIndex_def isSamePosition_def)
  then have "getHistory (forget_position 0 e1 t3) uri = []"
    by (simp add: forget_position_def t3_def Let_def uri maps getHistory_def)
  moreover have "getHistory t3 uri = [e2]" by (simp add: getHistory_def t3_def maps)
  moreover have "hd (cursor_timers t3) = (0, e1)" "cur_timestamp e1 = n1" by (simp_all add: t3_def e1_def)
  ultimately show ?thesis unfolding Let_def t3 e2_def by simp
qed

end
