(* ===== verification/Auto_Trigger.thy ===== *)
theory Auto_Trigger
  imports Sessions
begin

text \<open>
  When typing triggers a suggestion (\<^verbatim>\<open>inline-completion/auto-trigger/autoTrigger.ts\<close> and the character
  and token helpers of \<^verbatim>\<open>inline-completion/utils/triggerUtils.ts\<close>). The coefficients of the file
  \<^verbatim>\<open>coefficients.json\<close> are a record argument. JavaScript numbers are reals here; the one way in which the
  code leaves them is a table lookup that finds a property of \<^verbatim>\<open>Object.prototype\<close> instead of a
  coefficient, after which the sum is not a number.
\<close>

section \<open>Keystrokes\<close>

definition special_strings :: "string list" where
  "special_strings = [''('', ''()'', ''['', ''[]'', ''{'', ''{}'', '':'']"

definition isSpecialCharacter :: "string \<Rightarrow> bool" where
  "isSpecialCharacter c \<longleftrightarrow> c \<in> set special_strings"

text \<open>\<^verbatim>\<open>s.at(-1) || ''\<close>: the last code unit as a string.\<close>

definition last_char :: "string \<Rightarrow> string" where
  "last_char s = (if s = [] then [] else [last s])"

definition triggerType_of :: "FileContext \<Rightarrow> CodewhispererAutomatedTriggerType" where
  "triggerType_of fileContext =
     (let left = fc_leftFileContent fileContext; trimmedLeftContext = trimEnd left
      in if isSpecialCharacter (last_char trimmedLeftContext) then SpecialCharacters
         else let lastCRLF = lastIndexOf left [CR, LF]
              in if lastCRLF \<ge> 0 \<and> trim (substring_from left (lastCRLF + 2)) = [] then Enter
                 else let lastLF = lastIndexOf left [LF]
                      in if lastLF \<ge> 0 \<and> trim (substring_from left (lastLF + 1)) = [] then Enter
                         else Classifier)"

definition isEnterKey :: "string \<Rightarrow> bool" where
  "isEnterKey str =
     (if length str = 0 then False
      else (startsWith str [CR, LF] \<and> trim (substring_from str 2) = []) \<or>
           (str ! 0 = LF \<and> trim (substring_from str 1) = []))"

definition isSingleLine :: "string \<Rightarrow> bool" where
  "isSingleLine str =
     (let newLineCounts = fold (\<lambda>ch n. if ch = LF then n + 1 else n) str (0 :: nat)
      in if isEnterKey str then True else if newLineCounts \<ge> 1 then False else True)"

definition isUserTypingSpecialChar :: "string \<Rightarrow> bool" where
  "isUserTypingSpecialChar str \<longleftrightarrow> str \<in> set special_strings"

definition isTabKey :: "string \<Rightarrow> bool" where
  "isTabKey str = (if length str mod 4 = 0 \<and> trim str = [] then True else False)"

definition isIntelliSenseAcceptance :: "string \<Rightarrow> bool" where
  "isIntelliSenseAcceptance str \<longleftrightarrow> str = ''IntelliSenseAcceptance''"

text \<open>The texts of the content changes of one document event.\<close>

definition getAutoTriggerType :: "string list \<Rightarrow> CodewhispererAutomatedTriggerType option" where
  "getAutoTriggerType contentChanges =
     (if length contentChanges < 1 \<or> length contentChanges > 2 then None
      else let changedText = contentChanges ! 0
           in if isSingleLine changedText
              then if length changedText = 0 then None
                   else if isEnterKey changedText then Some Enter
                   else if isTabKey changedText then None
                   else if isUserTypingSpecialChar changedText then Some SpecialCharacters
                   else if isIntelliSenseAcceptance changedText then Some IntelliSenseAcceptance
                   else if length changedText = 1 then Some Classifier
                   else if changedText \<noteq> [] \<and> list_all (\<lambda>c. c = CHR '' '') changedText then None
                   else None
              else None)"

definition getNormalizeOsName :: "string \<Rightarrow> string \<Rightarrow> string" where
  "getNormalizeOsName name version =
     (let lowercaseName = toLowerCase name
      in if includes_str lowercaseName ''windows''
         then if version = [] then ''Windows''
              else if includes_str version ''Windows NT 10'' \<or> startsWith version ''10'' then ''Windows 10''
              else if includes_str version ''6.1'' then ''Windows 7''
              else if includes_str version ''6.3'' then ''Windows 8.1''
              else ''Windows''
         else if includes_str lowercaseName ''macos'' \<or> includes_str lowercaseName ''mac os'' \<or>
                 includes_str lowercaseName ''darwin'' then ''Mac OS X''
         else if includes_str lowercaseName ''linux'' then ''Linux''
         else name)"

text \<open>\<^verbatim>\<open>/^\n[\s\t]+$/\<close>.\<close>

definition isDocumentChangedFromNewLine :: "string \<Rightarrow> bool" where
  "isDocumentChangedFromNewLine s \<longleftrightarrow> (case s of [] \<Rightarrow> False | c # r \<Rightarrow> c = LF \<and> r \<noteq> [] \<and> blank r)"

text \<open>The texts of the content changes, when the client sends them; a missing text is \<^const>\<open>None\<close>.\<close>

definition inferTriggerChar :: "string \<Rightarrow> string option list option \<Rightarrow> string" where
  "inferTriggerChar leftFileContent changes =
     (case changes of
        Some (Some chars # _) \<Rightarrow>
          if length chars = 0 then last_char (trim leftFileContent)
          else if length chars > 1
          then if isDocumentChangedFromNewLine chars then [LF]
               else if chars = [CHR 39, CHR 39] then [CHR 39]
               else if chars = [CHR 34, CHR 34] then [CHR 34]
               else if chars = ''()'' then ''(''
               else if chars = ''{}'' then ''{''
               else if chars = ''[]'' then ''[''
               else chars
          else chars
      | _ \<Rightarrow> last_char (trim leftFileContent))"

definition lastTokenFromString :: "string \<Rightarrow> string" where
  "lastTokenFromString str =
     (let tokens = split_ws (trim str)
      in if length tokens = 0 then []
         else let candidate = tokens ! (length tokens - 1); finalCandate = word_runs candidate
              in if finalCandate = [] then [] else last finalCandate)"

section \<open>The classifier\<close>

record feature_range =
  lenRight :: real
  lenLeftCur :: real
  lenLeftPrev :: real
  range_lineNum :: real

record Coefficients =
  charCoefficient :: "(string \<times> real) list"
  languageCoefficient :: "(string \<times> real) list"
  triggerTypeCoefficient :: "(string \<times> real) list"
  osCoefficient :: "(string \<times> real) list"
  ideCoefficient :: "(string \<times> real) list"
  minn :: feature_range
  maxx :: feature_range
  prevDecisionAcceptCoefficient :: real
  prevDecisionRejectCoefficient :: real
  prevDecisionOtherCoefficient :: real
  lengthOfRightCoefficient :: real
  lengthOfLeftCurrentCoefficient :: real
  lengthOfLeftPrevCoefficient :: real
  lineNumCoefficient :: real
  lengthLeft0To5Coefficient :: real
  lengthLeft5To10Coefficient :: real
  lengthLeft10To20Coefficient :: real
  lengthLeft20To30Coefficient :: real
  lengthLeft30To40Coefficient :: real
  lengthLeft40To50Coefficient :: real
  intercept :: real

text \<open>
  \<^verbatim>\<open>table[key] ?? 0\<close> on a plain object: an own entry, else a property inherited from
  \<^verbatim>\<open>Object.prototype\<close>, which is not a number (\<^const>\<open>None\<close>), else 0.
\<close>

definition lookup_coefficient :: "(string \<times> real) list \<Rightarrow> string \<Rightarrow> real option" where
  "lookup_coefficient tab key =
     (case map_of tab key of
        Some v \<Rightarrow> Some v
      | None \<Rightarrow> if key \<in> set prototype_keys then None else Some 0)"

definition TRIGGER_THRESHOLD :: real where
  "TRIGGER_THRESHOLD = 43 / 100"

definition sigmoid :: "real \<Rightarrow> real" where
  "sigmoid x = 1 / (1 + exp (- x))"

definition normalize :: "Coefficients \<Rightarrow> real \<Rightarrow> (feature_range \<Rightarrow> real) \<Rightarrow> real" where
  "normalize cf val field = (val - field (minn cf)) / (field (maxx cf) - field (minn cf))"

definition previousDecisionCoefficient :: "Coefficients \<Rightarrow> UserTriggerDecision option \<Rightarrow> real" where
  "previousDecisionCoefficient cf previousDecision =
     (case previousDecision of
        Some UTD_Accept \<Rightarrow> prevDecisionAcceptCoefficient cf
      | Some UTD_Reject \<Rightarrow> prevDecisionRejectCoefficient cf
      | Some UTD_Discard \<Rightarrow> prevDecisionOtherCoefficient cf
      | Some UTD_Empty \<Rightarrow> prevDecisionOtherCoefficient cf
      | None \<Rightarrow> 0)"

definition leftContextLengthCoefficient :: "Coefficients \<Rightarrow> nat \<Rightarrow> real" where
  "leftContextLengthCoefficient cf n =
     (if 0 \<le> n \<and> n < 5 then lengthLeft0To5Coefficient cf
      else if 5 \<le> n \<and> n < 10 then lengthLeft5To10Coefficient cf
      else if 10 \<le> n \<and> n < 20 then lengthLeft10To20Coefficient cf
      else if 20 \<le> n \<and> n < 30 then lengthLeft20To30Coefficient cf
      else if 30 \<le> n \<and> n < 40 then lengthLeft30To40Coefficient cf
      else if 40 \<le> n \<and> n < 50 then lengthLeft40To50Coefficient cf
      else 0)"

record AutoTriggerParams =
  atp_fileContext :: FileContext
  atp_char :: string
  atp_triggerType :: string
  atp_os :: string
  atp_previousDecision :: "UserTriggerDecision option"
  atp_ide :: string
  atp_lineNum :: int

text \<open>The guard on text to the right of the cursor.\<close>

definition blocked_by_right_context :: "AutoTriggerParams \<Rightarrow> bool" where
  "blocked_by_right_context p =
     (let rightContextAtCurrentLine = split_eol (fc_rightFileContent (atp_fileContext p)) ! 0
      in length rightContextAtCurrentLine \<noteq> 0 \<and> \<not> startsWith rightContextAtCurrentLine '' '' \<and>
         trim rightContextAtCurrentLine \<noteq> ''}'' \<and> trim rightContextAtCurrentLine \<noteq> '')'' \<and>
         atp_ide p \<in> {''VSCODE'', ''JETBRAINS''})"

text \<open>The linear combination; \<^const>\<open>None\<close> when a lookup is not a number.\<close>

definition classifier_sum :: "Coefficients \<Rightarrow> AutoTriggerParams \<Rightarrow> real option" where
  "classifier_sum cf p =
     (let fc = atp_fileContext p;
          leftContextLines = split_eol (fc_leftFileContent fc);
          lastToken = lastTokenFromString (fc_leftFileContent fc);
          keyword = (if length lastToken > 1 then lastToken else []);
          lengthOfLeftCurrent = length (leftContextLines ! (length leftContextLines - 1));
          lengthOfLeftPrev = (if length leftContextLines \<ge> 2
                              then length (leftContextLines ! (length leftContextLines - 2)) else 0);
          lengthOfRight = length (trim (fc_rightFileContent fc));
          lookups = [lookup_coefficient (osCoefficient cf) (atp_os p),
                     lookup_coefficient (triggerTypeCoefficient cf) (atp_triggerType p),
                     lookup_coefficient (charCoefficient cf) (atp_char p),
                     lookup_coefficient (charCoefficient cf) keyword,
                     lookup_coefficient (ideCoefficient cf) (atp_ide p),
                     lookup_coefficient (languageCoefficient cf) (fc_languageName fc)]
      in if None \<in> set lookups then None
         else Some (lengthOfRightCoefficient cf * normalize cf (real lengthOfRight) lenRight +
                    lengthOfLeftCurrentCoefficient cf * normalize cf (real lengthOfLeftCurrent) lenLeftCur +
                    lengthOfLeftPrevCoefficient cf * normalize cf (real lengthOfLeftPrev) lenLeftPrev +
                    lineNumCoefficient cf * normalize cf (of_int (atp_lineNum p)) range_lineNum +
                    sum_list (map the lookups) + intercept cf +
                    previousDecisionCoefficient cf (atp_previousDecision p) +
                    leftContextLengthCoefficient cf (length (fc_leftFileContent fc))))"

record AutoTriggerResult =
  shouldTrigger :: bool
  classifier_result :: "real option" \<comment> \<open>\<^const>\<open>None\<close> is \<^verbatim>\<open>NaN\<close>\<close>
  classifier_threshold :: real

definition autoTrigger :: "Coefficients \<Rightarrow> AutoTriggerParams \<Rightarrow> AutoTriggerResult" where
  "autoTrigger cf p =
     (if blocked_by_right_context p
      then \<lparr>shouldTrigger = False, classifier_result = Some 0, classifier_threshold = TRIGGER_THRESHOLD\<rparr>
      else case classifier_sum cf p of
             None \<Rightarrow> \<lparr>shouldTrigger = False, classifier_result = None, classifier_threshold = TRIGGER_THRESHOLD\<rparr>
           | Some x \<Rightarrow> \<lparr>shouldTrigger = sigmoid x > TRIGGER_THRESHOLD, classifier_result = Some (sigmoid x),
                        classifier_threshold = TRIGGER_THRESHOLD\<rparr>)"

section \<open>What the keystroke classes are\<close>

lemma lastIndexOf_LF:
  assumes "LF \<notin> set v"
  shows "lastIndexOf (u @ LF # v) [LF] = int (length u)"
proof -
  let ?s = "u @ LF # v"
  have ge: "int (length u) \<le> lastIndexOf ?s [LF]"
    by (rule lastIndexOf_occurs [where v = v]) simp
  then obtain k where k: "lastIndexOf ?s [LF] = int k"
    using nonneg_int_cases [of "lastIndexOf ?s [LF]"] by auto
  obtain t where t: "?s = take k ?s @ [LF] @ t" and le: "k \<le> length ?s"
    using lastIndexOf_found [OF k] by blast
  have "\<not> length u < k"
  proof
    assume lt: "length u < k"
    have "LF # t = drop k ?s" using t le
      by (metis append_Cons append_Nil append_eq_conv_conj length_take min.absorb2)
    also have "\<dots> = drop (k - Suc (length u)) v"
      using lt by (cases k) (auto simp: Suc_diff_le)
    finally have "LF \<in> set v" by (metis in_set_dropD list.set_intros(1))
    with assms show False ..
  qed
  with ge k show ?thesis by simp
qed

lemma lastIndexOf_no_LF: "LF \<notin> set s \<Longrightarrow> lastIndexOf s [LF] < 0"
proof (rule ccontr)
  assume no: "LF \<notin> set s" and "\<not> lastIndexOf s [LF] < 0"
  then obtain k where "lastIndexOf s [LF] = int k"
    using nonneg_int_cases [of "lastIndexOf s [LF]"] by auto
  then obtain t where t: "s = take k s @ [LF] @ t" using lastIndexOf_found by blast
  have "LF \<in> set (take k s @ [LF] @ t)" by simp
  with no show False unfolding t [symmetric] ..
qed

text \<open>The text after the last line feed.\<close>

definition current_line :: "string \<Rightarrow> string" where
  "current_line s = last (split_on LF s)"

lemma enter_by_LF:
  "(lastIndexOf s [LF] \<ge> 0 \<and> blank (substring_from s (lastIndexOf s [LF] + 1))) \<longleftrightarrow>
   LF \<in> set s \<and> blank (current_line s)"
proof (cases "LF \<in> set s")
  case True
  then obtain u v where s: "s = u @ LF # v" "LF \<notin> set v"
    using split_list_last by metis
  have "substring_from (u @ LF # v) (int (Suc (length u))) = v"
    unfolding substring_from_nat by simp
  with s show ?thesis
    by (simp add: lastIndexOf_LF last_split_on current_line_def add.commute)
next
  case False
  then show ?thesis using lastIndexOf_no_LF [of s] by auto
qed

lemma enter_by_CRLF:
  assumes "lastIndexOf s [CR, LF] \<ge> 0" and "blank (substring_from s (lastIndexOf s [CR, LF] + 2))"
  shows "LF \<in> set s \<and> blank (current_line s)"
proof -
  obtain k where k: "lastIndexOf s [CR, LF] = int k"
    using assms(1) nonneg_int_cases by metis
  obtain t where t: "s = take k s @ [CR, LF] @ t" and le: "k \<le> length s"
    using lastIndexOf_found [OF k] by blast
  have "blank (drop (k + 2) s)"
    using assms(2) unfolding k by (metis of_nat_add of_nat_numeral substring_from_nat)
  moreover have "drop (k + 2) s = t"
    using arg_cong [OF t, of "drop (k + 2)"] le by simp
  ultimately have bt: "blank t" by simp
  have mem: "LF \<in> set (take k s @ [CR, LF] @ t)" by simp
  have "blank (current_line ((take k s @ [CR]) @ LF # t))"
  proof (cases "LF \<in> set t")
    case True
    then obtain u v where "t = u @ LF # v" "LF \<notin> set v" using split_list_last by metis
    then show ?thesis
      using bt last_split_on [of LF v "take k s @ [CR, LF] @ u"] by (simp add: current_line_def)
  next
    case False
    then show ?thesis using bt last_split_on [of LF t "take k s @ [CR]"] by (simp add: current_line_def)
  qed
  moreover have "(take k s @ [CR]) @ LF # t = s" using t by simp
  ultimately have "blank (current_line s)" by (simp only:)
  moreover from mem have "LF \<in> set s" by (simp only: t [symmetric])
  ultimately show ?thesis by blast
qed

text \<open>
  The trigger type read off the text left of the cursor: a special character when the last
  non-blank character is one of the opening brackets or the colon, else Enter exactly when the
  cursor is on a blank line after a line break, else a classifier trigger. The separate search for
  a carriage return and line feed decides nothing that the search for the line feed does not.
\<close>

theorem triggerType_correct:
  "triggerType_of fc =
     (if last_char (trimEnd (fc_leftFileContent fc)) \<in> {''('', ''['', ''{'', '':''} then SpecialCharacters
      else if LF \<in> set (fc_leftFileContent fc) \<and> blank (current_line (fc_leftFileContent fc)) then Enter
      else Classifier)"
proof -
  have sp: "isSpecialCharacter (last_char t) \<longleftrightarrow> last_char t \<in> {''('', ''['', ''{'', '':''}" for t
    by (auto simp: isSpecialCharacter_def special_strings_def last_char_def)
  show ?thesis
    using enter_by_LF [of "fc_leftFileContent fc"] enter_by_CRLF [of "fc_leftFileContent fc"]
    by (simp only: triggerType_of_def Let_def sp trim_Nil_iff) auto
qed

lemma fold_count_LF: "fold (\<lambda>ch n. if ch = LF then n + 1 else n) s (n :: nat) = n + count_list s LF"
  by (induction s arbitrary: n) auto

lemma isSingleLine_iff: "isSingleLine s \<longleftrightarrow> isEnterKey s \<or> LF \<notin> set s"
  by (simp add: isSingleLine_def fold_count_LF Suc_le_eq not_less count_list_0_iff flip: neq0_conv)

lemma isEnterKey_iff:
  "isEnterKey s \<longleftrightarrow> (\<exists>t. blank t \<and> (s = CR # LF # t \<or> s = LF # t))"
proof -
  have two: "substring_from s 2 = drop 2 s" for s
    using substring_from_nat [of s 2] by simp
  have one: "substring_from s 1 = drop 1 s" for s
    using substring_from_nat [of s 1] by simp
  show ?thesis
    by (cases s; cases "tl s") (auto simp: isEnterKey_def two one startsWith_def)
qed

text \<open>
  The trigger type read off a change event: exactly the events with one or two changes whose
  first text is a line break followed by blanks, one of the bracket or colon strings, the
  IntelliSense marker, or a single character, trigger. The test for the tab key and the one for a
  run of spaces never change the answer.
\<close>

theorem getAutoTriggerType_correct:
  "getAutoTriggerType cs =
     (if length cs \<noteq> 1 \<and> length cs \<noteq> 2 then None
      else if \<exists>t. blank t \<and> (hd cs = CR # LF # t \<or> hd cs = LF # t) then Some Enter
      else if hd cs \<in> set special_strings then Some SpecialCharacters
      else if hd cs = ''IntelliSenseAcceptance'' then Some IntelliSenseAcceptance
      else if length (hd cs) = 1 then Some Classifier
      else None)"
proof (cases "length cs \<noteq> 1 \<and> length cs \<noteq> 2")
  case True
  then have "length cs < 1 \<or> length cs > 2" by linarith
  with True show ?thesis by (simp add: getAutoTriggerType_def)
next
  case False
  then obtain c r where cs: "cs = c # r" and len: "\<not> (length cs < 1 \<or> length cs > 2)"
    by (cases cs) auto
  have tab: "isTabKey c \<Longrightarrow> c \<notin> set special_strings \<and> c \<noteq> ''IntelliSenseAcceptance'' \<and> length c \<noteq> 1"
    by (auto simp: isTabKey_def special_strings_def is_ws_def split: if_splits)
  have lf: "LF \<in> set c \<Longrightarrow> \<not> isEnterKey c \<Longrightarrow>
      c \<notin> set special_strings \<and> c \<noteq> ''IntelliSenseAcceptance'' \<and> length c \<noteq> 1"
    using isEnterKey_iff [of "[LF]"] by (cases c) (auto simp: special_strings_def)
  have nil: "c = [] \<Longrightarrow> \<not> isEnterKey c \<and> c \<notin> set special_strings"
    by (simp add: isEnterKey_def special_strings_def)
  show ?thesis
    unfolding isEnterKey_iff [symmetric]
    using False len tab lf nil
    by (auto simp: cs getAutoTriggerType_def isSingleLine_iff isUserTypingSpecialChar_def
        isIntelliSenseAcceptance_def)
qed

section \<open>What the classifier decides\<close>

lemma sigmoid_range: "0 < sigmoid x \<and> sigmoid x < 1"
  by (simp add: sigmoid_def add_pos_pos)

lemma sigmoid_above: 
  assumes "0 < t" "t < 1"
  shows "t < sigmoid x \<longleftrightarrow> ln (t / (1 - t)) < x"
proof -
  have "t < sigmoid x \<longleftrightarrow> t * (1 + exp (- x)) < 1"
    by (simp add: sigmoid_def pos_less_divide_eq add_pos_pos)
  also have "\<dots> \<longleftrightarrow> exp (- x) < (1 - t) / t"
    using assms by (simp add: pos_less_divide_eq algebra_simps)
  also have "\<dots> \<longleftrightarrow> - x < ln ((1 - t) / t)"
    using assms by (metis divide_pos_pos diff_gt_0_iff_gt exp_less_cancel_iff exp_ln)
  also have "ln ((1 - t) / t) = - ln (t / (1 - t))"
    using assms by (simp add: ln_div)
  finally show ?thesis by simp
qed

lemma lookup_coefficient_None:
  "lookup_coefficient tab key = None \<longleftrightarrow> key \<in> set prototype_keys \<and> key \<notin> fst ` set tab"
proof (cases "map_of tab key")
  case None
  then have "key \<notin> fst ` set tab" by (metis map_of_eq_None_iff)
  with None show ?thesis by (simp add: lookup_coefficient_def)
next
  case (Some v)
  then have "map_of tab key \<noteq> None" by simp
  then have "key \<in> fst ` set tab" by (metis map_of_eq_None_iff)
  with Some show ?thesis by (simp add: lookup_coefficient_def)
qed

text \<open>The keyword looked up beside the typed character.\<close>

definition classifier_keyword :: "AutoTriggerParams \<Rightarrow> string" where
  "classifier_keyword p =
     (let t = lastTokenFromString (fc_leftFileContent (atp_fileContext p)) in if length t > 1 then t else [])"

lemma classifier_sum_keyword_None:
  assumes "classifier_keyword p \<in> set prototype_keys" and "classifier_keyword p \<notin> fst ` set (charCoefficient cf)"
  shows "classifier_sum cf p = None"
proof -
  have "lookup_coefficient (charCoefficient cf) (classifier_keyword p) = None"
    using assms by (simp add: lookup_coefficient_None)
  then show ?thesis
    by (simp add: classifier_sum_def classifier_keyword_def Let_def)
qed

text \<open>
  The classifier is a linear threshold. It triggers exactly when the cursor is not blocked by
  text on its right, every coefficient found is a number, and the weighted sum of the features
  exceeds the logit of the threshold; the reported score is then a probability strictly between 0
  and 1, and the score of a blocked position is 0.
\<close>

theorem autoTrigger_linear_threshold:
  "shouldTrigger (autoTrigger cf p) =
     (\<not> blocked_by_right_context p \<and>
      (case classifier_sum cf p of None \<Rightarrow> False | Some x \<Rightarrow> ln (43 / 57) < x)) \<and>
   classifier_threshold (autoTrigger cf p) = 43 / 100 \<and>
   (case classifier_result (autoTrigger cf p) of
      None \<Rightarrow> \<not> blocked_by_right_context p \<and> classifier_sum cf p = None
    | Some r \<Rightarrow> if blocked_by_right_context p then r = 0 else 0 < r \<and> r < 1)"
proof -
  have "(43 / 100 :: real) / (1 - 43 / 100) = 43 / 57" by simp
  then have "43 / 100 < sigmoid x \<longleftrightarrow> ln (43 / 57) < x" for x
    using sigmoid_above [of "43 / 100" x] by simp
  then show ?thesis
    by (auto simp: autoTrigger_def TRIGGER_THRESHOLD_def sigmoid_range split: option.splits)
qed

text \<open>A better previous decision can only help: the sum is monotone in its coefficient.\<close>

lemma classifier_sum_previous:
  "classifier_sum cf (p\<lparr>atp_previousDecision := d\<rparr>) =
     map_option (\<lambda>x. x - previousDecisionCoefficient cf (atp_previousDecision p)
                       + previousDecisionCoefficient cf d) (classifier_sum cf p)"
  by (simp add: classifier_sum_def Let_def)

end
