(* ===== verification/Edit_Trigger.thy ===== *)
theory Edit_Trigger
  imports Edit_Distance Edit_History Cursor Auto_Trigger Documents
begin

text \<open>
  When an edit suggestion is requested (\<^verbatim>\<open>inline-completion/auto-trigger/editPredictionAutoTrigger.ts\<close>, its
  configuration \<^verbatim>\<open>editPredictionConfig.ts\<close> and \<^verbatim>\<open>shouldTriggerEdits\<close> of \<^verbatim>\<open>utils/triggerUtils.ts\<close>): the
  rule-based trigger and the logistic classifier. The decimal coefficients are the rationals they
  write.
\<close>

section \<open>Configuration\<close>

record EditPredictionConfig =
  recentEditThresholdMs :: int
  userPauseThresholdMs :: int
  recentRejectionThresholdMs :: int
  cursorUpdateIntervalMs :: int
  editHistoryDurationMs :: int
  editAdjacentLineRange :: int
  maxLinesToScanForContent :: int
  enableLanguageKeywordTrigger :: bool
  enableOperatorDelimiterTrigger :: bool
  enableUserPauseTrigger :: bool
  enableLineBeginningTrigger :: bool

definition DEFAULT_EDIT_PREDICTION_CONFIG :: EditPredictionConfig where
  "DEFAULT_EDIT_PREDICTION_CONFIG =
     \<lparr>recentEditThresholdMs = 20000, userPauseThresholdMs = 10000, recentRejectionThresholdMs = 30000,
      cursorUpdateIntervalMs = 250, editHistoryDurationMs = 300000, editAdjacentLineRange = 3,
      maxLinesToScanForContent = 3, enableLanguageKeywordTrigger = True,
      enableOperatorDelimiterTrigger = True, enableUserPauseTrigger = True,
      enableLineBeginningTrigger = True\<rparr>"

text \<open>
  The manager is a singleton that owns one configuration; a partial update is a function that
  overwrites the fields it names.
\<close>

record EditPredictionConfigManager =
  epc_config :: EditPredictionConfig

definition new_config_manager :: EditPredictionConfigManager where
  "new_config_manager = \<lparr>epc_config = DEFAULT_EDIT_PREDICTION_CONFIG\<rparr>"

definition getConfig :: "EditPredictionConfigManager \<Rightarrow> EditPredictionConfig" where
  "getConfig m = epc_config m"

definition updateConfig ::
    "EditPredictionConfigManager \<Rightarrow> (EditPredictionConfig \<Rightarrow> EditPredictionConfig) \<Rightarrow>
     EditPredictionConfigManager" where
  "updateConfig m updates = m\<lparr>epc_config := updates (epc_config m)\<rparr>"

definition resetToDefaults :: "EditPredictionConfigManager \<Rightarrow> EditPredictionConfigManager" where
  "resetToDefaults m = m\<lparr>epc_config := DEFAULT_EDIT_PREDICTION_CONFIG\<rparr>"

section \<open>The rule\<close>

definition editPredictionAutoTrigger ::
    "EditPredictionConfig \<Rightarrow> RecentEditTracker \<Rightarrow> int \<Rightarrow> FileContext \<Rightarrow> int \<Rightarrow> bool" where
  "editPredictionAutoTrigger config tracker now fileContext lineNum =
     (let rightContextLines = split_eol (fc_rightFileContent fileContext);
          hasRecentEdit = hasRecentEditInLine tracker now (fc_fileUri fileContext) lineNum
                            (recentEditThresholdMs config) (editAdjacentLineRange config);
          maxLines = min (int (length rightContextLines)) (maxLinesToScanForContent config + 1);
          hasNonEmptySuffix = (if maxLines > 0
                               then list_ex (\<lambda>line. length (trim line) > 0) (slice rightContextLines 1 maxLines)
                               else False)
      in hasRecentEdit \<and> hasNonEmptySuffix)"

text \<open>
  \<^verbatim>\<open>shouldTriggerEdits\<close>: the trigger characters and the previous decision are handed to the rule, which
  does not read them. The service check and the feature flag come first.
\<close>

definition shouldTriggerEdits ::
    "bool \<Rightarrow> EditPredictionConfig \<Rightarrow> FileContext \<Rightarrow> position \<Rightarrow> RecentEditTracker \<Rightarrow> int \<Rightarrow> bool \<Rightarrow> unit option" where
  "shouldTriggerEdits tokenService config fileContext pos tracker now editsEnabled =
     (if \<not> editsEnabled then None
      else if \<not> tokenService then None
      else if editPredictionAutoTrigger config tracker now fileContext (pos_line pos) then Some ()
      else None)"

section \<open>The classifier\<close>

subsection \<open>Coefficients\<close>

definition keyWordCoefficients :: "(string \<times> real) list" where
  "keyWordCoefficients =
     [(''get'', 11710 / 10000), (''const'', - 7697 / 10000), (''try'', 7182 / 10000),
      (''number'', 6706 / 10000), (''this'', 6271 / 10000), (''return'', - 3991 / 10000),
      (''from'', - 3515 / 10000), (''None'', - 3409 / 10000), (''True'', - 3653 / 10000),
      (''true'', - 2502 / 10000), (''async'', - 3212 / 10000), (''false'', 3478 / 10000),
      (''else'', 3154 / 10000), (''type'', - 2662 / 10000), (''null'', - 1576 / 10000),
      (''if'', - 1276 / 10000), (''in'', - 905 / 10000), (''void'', 1712 / 10000),
      (''any'', 1663 / 10000), (''as'', 1390 / 10000), (''import'', 1424 / 10000),
      (''for'', 252 / 10000), (''is'', 1023 / 10000), (''string'', 691 / 10000)]"

definition lastCharCoefficients :: "(string \<times> real) list" where
  "lastCharCoefficients =
     [(''a'', 773 / 10000), (''c'', 1191 / 10000), (''d'', - 938 / 10000), (''e'', - 1517 / 10000),
      (''f'', 4246 / 10000), (''i'', 1540 / 10000), (''l'', 2188 / 10000), (''m'', - 3026 / 10000),
      (''n'', - 324 / 10000), (''o'', 1960 / 10000), (''p'', - 2283 / 10000),
      (''Q'', - 205 / 10000), (''r'', 1418 / 10000), (''s'', 387 / 10000), (''S'', 3369 / 10000),
      (''t'', 1863 / 10000), (''u'', 3599 / 10000), (''y'', 456 / 10000), (''0'', 415 / 10000),
      (''1'', - 1826 / 10000), (''2'', - 1085 / 10000), (''('', 539 / 10000), ('')'', 996 / 10000),
      (''{'', 2644 / 10000), (''}'', 1122 / 10000), ('';'', 2225 / 10000), (''/'', - 745 / 10000),
      (''>'', - 378 / 10000), (''.'', 244 / 10000), ('','', - 274 / 10000), ([LF], 1023 / 10000),
      ('' '', - 660 / 10000), (''_'', 781 / 10000), ([CHR 39], - 360 / 10000),
      ([CHR 34], 629 / 10000)]"

definition languageCoefficients :: "(string \<times> real) list" where
  "languageCoefficients =
     [(''c'', 1013 / 10000), (''cpp'', - 1371 / 10000), (''sql'', - 1509 / 10000),
      (''java'', 564 / 10000), (''javascript'', 1183 / 10000), (''json'', 811 / 10000),
      (''kotlin'', - 3022 / 10000), (''python'', 914 / 10000), (''rust'', - 1024 / 10000),
      (''scala'', 1648 / 10000), (''shell'', 1292 / 10000), (''tf'', - 3823 / 10000),
      (''typescript'', 928 / 10000), (''yaml'', - 2578 / 10000)]"

definition leftContextLineCount_lte25 :: real where
  "leftContextLineCount_lte25 = - 417 / 10000"

definition rightContextLineCountCoefficient :: "nat \<Rightarrow> real" where
  "rightContextLineCountCoefficient n = (if n \<le> 3 then 0 else if n \<ge> 4 \<and> n \<le> 6 then 0 else 0)"

record EditHistoryFeature =
  changedCharacters :: real
  addedLines :: real
  deletedLines :: real

definition editHistoryCoefficients :: EditHistoryFeature where
  "editHistoryCoefficients =
     \<lparr>changedCharacters = 194 / 10000, addedLines = 594 / 10000, deletedLines = - 840 / 10000\<rparr>"

definition arCoefficient_previous5 :: real where
  "arCoefficient_previous5 = 4723 / 10000"

definition EDIT_THRESHOLD :: real where
  "EDIT_THRESHOLD = 53 / 100"

definition EDIT_INTERCEPT :: real where
  "EDIT_INTERCEPT = - 2782 / 10000"

subsection \<open>Features\<close>

record EditAutoTriggerInput =
  eat_fileContext :: ClientFileContextClss
  eat_triggerChar :: string
  eat_recentEdits :: CodeWhispererSupplementalContext
  eat_recentDecisions :: "UserTriggerDecision list"

record EditClassifierFeatures =
  lastCharacter :: string
  lastLineLength :: nat
  leftContextLineCount :: nat
  rightContextLineCount :: nat
  normalizedEditHistory :: "EditHistoryFeature option"
  feature_language :: string
  feature_keyword :: string
  userAR :: real

definition processEditHistory :: "string \<Rightarrow> EditHistoryFeature" where
  "processEditHistory udiff =
     (let lns = split_on LF udiff;
          added = map (\<lambda>line. substring_from line 1)
                    (filter (\<lambda>line. startsWith line ''+'' \<and> \<not> startsWith line ''+++'') lns);
          deleted = map (\<lambda>line. substring_from line 1)
                    (filter (\<lambda>line. startsWith line ''-'' \<and> \<not> startsWith line ''---'') lns);
          deletedText = join_with [LF] deleted;
          addedText = join_with [LF] added
      in \<lparr>changedCharacters = real (editDistance deletedText addedText),
          addedLines = real (length added), deletedLines = real (length deleted)\<rparr>)"

definition normalizedRecentEdit :: "EditHistoryFeature \<Rightarrow> EditHistoryFeature" where
  "normalizedRecentEdit e =
     \<lparr>changedCharacters = (changedCharacters e - 0) / (261 - 0),
      addedLines = (addedLines e - 0) / (7 - 0),
      deletedLines = (deletedLines e - 0) / (6 - 0)\<rparr>"

definition accept_rate :: "UserTriggerDecision list \<Rightarrow> real" where
  "accept_rate ds =
     (if length ds = 0 then 3 / 10
      else fold (\<lambda>cur acc. if cur = UTD_Accept then acc + 1 else acc) ds 0 / real (length ds))"

text \<open>
  The oldest edit is the last item. With no item the features are still computable, but the log
  message reads \<^verbatim>\<open>oldest.content\<close> and raises a \<^verbatim>\<open>TypeError\<close>.
\<close>

datatype classifier_error = TypeError

definition prepareFeatures :: "EditAutoTriggerInput \<Rightarrow> classifier_error + EditClassifierFeatures" where
  "prepareFeatures params =
     (let fc = eat_fileContext params;
          items = sc_supplementalContextItems (eat_recentEdits params);
          oldest = (if items = [] then None else Some (items ! (length items - 1)));
          editHistory = map_option (\<lambda>it. processEditHistory (sci_content it)) oldest;
          normalized = map_option normalizedRecentEdit editHistory
      in case oldest of
           None \<Rightarrow> Inl TypeError
         | Some _ \<Rightarrow>
             Inr \<lparr>lastCharacter = eat_triggerChar params,
                  lastLineLength = length (cfc_leftContextAtCurLine fc),
                  leftContextLineCount = length (split_on LF (cfc_leftFileContent fc)),
                  rightContextLineCount = length (split_on LF (cfc_rightFileContent fc)),
                  normalizedEditHistory = normalized,
                  feature_language = cfc_languageName fc,
                  feature_keyword = lastTokenFromString (cfc_leftFileContent fc),
                  userAR = accept_rate (eat_recentDecisions params)\<rparr>)"

subsection \<open>Score\<close>

text \<open>The object: the cached score, which no method assigns, and the features.\<close>

record EditClassifier =
  ec_score :: "real option"
  ec_features :: EditClassifierFeatures

definition new_EditClassifier :: "EditAutoTriggerInput \<Rightarrow> classifier_error + EditClassifier" where
  "new_EditClassifier params =
     (case prepareFeatures params of
        Inl e \<Rightarrow> Inl e
      | Inr f \<Rightarrow> Inr \<lparr>ec_score = None, ec_features = f\<rparr>)"

definition edit_logit :: "EditClassifierFeatures \<Rightarrow> real option" where
  "edit_logit f =
     (let lookups = [lookup_coefficient lastCharCoefficients (lastCharacter f),
                     lookup_coefficient languageCoefficients (feature_language f),
                     lookup_coefficient keyWordCoefficients (feature_keyword f)];
          myLastLineLengthCoef = (if lastLineLength f \<le> 4 then 293 / 10000
                                  else if lastLineLength f \<ge> 5 \<and> lastLineLength f \<le> 12 then - 12 / 10000 else 0);
          myLeftContextLineCountCoef = (if leftContextLineCount f \<le> 25 then leftContextLineCount_lte25 else 0);
          myRightContextLineCountCoef = rightContextLineCountCoefficient (rightContextLineCount f);
          editH = normalizedEditHistory f;
          get = (\<lambda>sel. case editH of None \<Rightarrow> 0 | Some e \<Rightarrow> sel e);
          myAdded = get addedLines * addedLines editHistoryCoefficients;
          myDeleted = get deletedLines * deletedLines editHistoryCoefficients;
          myChanged = get changedCharacters * changedCharacters editHistoryCoefficients;
          myArCoef = arCoefficient_previous5 * userAR f
      in if None \<in> set lookups then None
         else Some (sum_list (map the lookups) + myLastLineLengthCoef + myLeftContextLineCountCoef +
                    myRightContextLineCountCoef + myAdded + myDeleted + myChanged + myArCoef + EDIT_INTERCEPT))"

definition score :: "EditClassifier \<Rightarrow> real option" where
  "score c = (case ec_score c of Some s \<Rightarrow> Some s | None \<Rightarrow> map_option sigmoid (edit_logit (ec_features c)))"

record edit_decision =
  ed_shouldTrigger :: bool
  ed_threshold :: real
  ed_score :: "real option"

definition classifier_shouldTriggerEdits :: "EditClassifier \<Rightarrow> edit_decision" where
  "classifier_shouldTriggerEdits c =
     (let s = score c
      in \<lparr>ed_shouldTrigger = (case s of None \<Rightarrow> False | Some r \<Rightarrow> r > EDIT_THRESHOLD),
          ed_threshold = EDIT_THRESHOLD, ed_score = s\<rparr>)"

section \<open>What the triggers decide\<close>

lemma list_ex_tl: "list_ex P (tl ys) \<longleftrightarrow> (\<exists>i. 1 \<le> i \<and> i < length ys \<and> P (ys ! i))"
  by (cases ys) (auto simp: list_ex_length Suc_le_eq gr0_conv_Suc)

lemma list_ex_slice:
  "list_ex P (slice xs 1 (int k)) \<longleftrightarrow> (\<exists>i. 1 \<le> i \<and> i < k \<and> i < length xs \<and> P (xs ! i))"
proof -
  have "slice xs 1 (int k) = tl (take k xs)"
    by (cases xs; cases k) (auto simp: slice_def slice_bound_def min_def simp del: of_nat_Suc)
  then show ?thesis by (auto simp: list_ex_tl)
qed

lemma accept_rate_count: "ds \<noteq> [] \<Longrightarrow> accept_rate ds = real (count_list ds UTD_Accept) / real (length ds)"
proof -
  have "fold (\<lambda>cur acc. if cur = UTD_Accept then acc + 1 else acc) ds a = a + real (count_list ds UTD_Accept)"
    for a :: real
    by (induction ds arbitrary: a) auto
  then show "ds \<noteq> [] \<Longrightarrow> ?thesis" by (simp add: accept_rate_def)
qed

lemma accept_rate_range: "0 \<le> accept_rate ds \<and> accept_rate ds \<le> 1"
proof (cases "ds = []")
  case True
  then show ?thesis by (simp add: accept_rate_def)
next
  case False
  have "count_list ds UTD_Accept \<le> length ds" by (rule count_le_length)
  with False show ?thesis by (simp add: accept_rate_count)
qed

text \<open>
  The edit classifier as built from an input. Its constructor raises a type error exactly when
  there is no recent edit; otherwise the acceptance rate it uses lies between 0 and 1, and it asks for
  an edit suggestion exactly when the weighted sum of the features is a number above the logit of
  the threshold 0.53.
\<close>

theorem edit_classifier_decision:
  "case new_EditClassifier p of
     Inl e \<Rightarrow> sc_supplementalContextItems (eat_recentEdits p) = []
   | Inr c \<Rightarrow> sc_supplementalContextItems (eat_recentEdits p) \<noteq> [] \<and>
       0 \<le> userAR (ec_features c) \<and> userAR (ec_features c) \<le> 1 \<and>
       ed_shouldTrigger (classifier_shouldTriggerEdits c) =
         (case edit_logit (ec_features c) of None \<Rightarrow> False | Some x \<Rightarrow> ln (53 / 47) < x)"
proof -
  have "(53 / 100 :: real) / (1 - 53 / 100) = 53 / 47" by simp
  then have th: "EDIT_THRESHOLD < sigmoid x \<longleftrightarrow> ln (53 / 47) < x" for x
    unfolding EDIT_THRESHOLD_def using sigmoid_above [of "53 / 100" x] by simp
  show ?thesis
    by (cases "sc_supplementalContextItems (eat_recentEdits p) = []")
      (simp_all add: new_EditClassifier_def prepareFeatures_def Let_def accept_rate_range
        classifier_shouldTriggerEdits_def score_def th case_map_option
        split: option.split)
qed

text \<open>The rule of the edit trigger, with the slice of the lines below the cursor spelled out.\<close>

lemma editPredictionAutoTrigger_iff:
  assumes "0 \<le> maxLinesToScanForContent config"
  shows "editPredictionAutoTrigger config t now fc lineNum \<longleftrightarrow>
     hasRecentEditInLine t now (fc_fileUri fc) lineNum (recentEditThresholdMs config) (editAdjacentLineRange config) \<and>
     (\<exists>i. 1 \<le> i \<and> int i \<le> maxLinesToScanForContent config \<and> i < length (split_eol (fc_rightFileContent fc)) \<and>
        \<not> blank (split_eol (fc_rightFileContent fc) ! i))"
proof -
  let ?r = "split_eol (fc_rightFileContent fc)"
  let ?k = "min (length ?r) (nat (maxLinesToScanForContent config) + 1)"
  have k: "min (int (length ?r)) (maxLinesToScanForContent config + 1) = int ?k"
    using assms by simp
  have "0 < ?k" by simp
  then show ?thesis
    using assms unfolding editPredictionAutoTrigger_def Let_def k list_ex_slice
    by (auto simp: nat_le_iff less_Suc_eq_le le_nat_iff)
qed

end
