(* ===== verification/Inline_State.thy ===== *)
theory Inline_State
  imports Sessions Documents Trackers Rejected_Edits Code_Diff Edit_Trigger
begin

text \<open>
  The state the inline-suggestion server closes over (\<^verbatim>\<open>inline-completion/codeWhispererServer.ts\<close>): its two
  session managers over one store of sessions, its trackers, the flags of its handlers and the
  telemetry emitted so far; and the telemetry functions of \<^verbatim>\<open>inline-completion/telemetry/telemetry.ts\<close> with
  \<^verbatim>\<open>emitUserTriggerDecision\<close> of \<^verbatim>\<open>shared/telemetry/telemetryService.ts\<close>.

  An awaited report of a decision is one step: nothing in a handler runs between the report and the
  flag that marks the session as reported. The one report that is not awaited sets its flag in a
  step of its own, so its session waits in \<^verbatim>\<open>sv_pendingReports\<close>.
\<close>

section \<open>Telemetry events\<close>

text \<open>The fields of the session and of its supplemental context that several events repeat.\<close>

record service_invocation =
  si_requestId :: "string option"
  si_sessionId :: "string option"
  si_lastSuggestionIndex :: int
  si_completionType :: "completion_type option"
  si_triggerType :: CodewhispererTriggerType
  si_autoTriggerType :: "CodewhispererAutomatedTriggerType option"
  si_reason :: "string option"
  si_duration :: int
  si_lineNumber :: int
  si_cursorOffset :: int
  si_language :: string
  si_credentialStartUrl :: "string option"
  si_supplementalContext :: "(bool \<times> bool \<times> int \<times> nat) option" \<comment> \<open>timeout, test context, latency, length\<close>
  si_customizationArn :: "string option"
  si_importRecommendationEnabled :: "bool option"
  si_succeeded :: bool

record perceived_latency =
  pl_requestId :: "string option"
  pl_sessionId :: "string option"
  pl_completionType :: "completion_type option"
  pl_triggerType :: CodewhispererTriggerType
  pl_duration :: "int option"
  pl_language :: string
  pl_credentialStartUrl :: "string option"
  pl_customizationArn :: "string option"

datatype UserDecisionReason = ExplicitReject | ImplicitReject

text \<open>The metric for the toolkit and the event for the service, both sent with one decision.\<close>

record toolkit_decision =
  tk_sessionId :: string
  tk_firstRequestId :: string
  tk_credentialStartUrl :: "string option"
  tk_suggestionState :: "UserTriggerDecision option"
  tk_completionType :: "completion_type option"
  tk_language :: string
  tk_triggerType :: CodewhispererTriggerType
  tk_autoTriggerType :: "CodewhispererAutomatedTriggerType option"
  tk_triggerCharacter :: "string option"
  tk_lineNumber :: int
  tk_cursorOffset :: int
  tk_suggestionCount :: nat
  tk_classifierResult :: "real option"
  tk_classifierThreshold :: "real option"
  tk_totalShownTime :: int
  tk_typeaheadLength :: int
  tk_timeSinceLastDocumentChange :: "int option"
  tk_timeSinceLastUserDecision :: "int option"
  tk_timeToFirstRecommendation :: int
  tk_previousSuggestionState :: "UserTriggerDecision option"
  tk_supplementalContext :: "(bool \<times> bool \<times> nat \<times> SupplementalContextStrategy) option"
  tk_customizationArn :: "string option"
  tk_charactersAccepted :: nat
  tk_suggestionImportCount :: nat

record service_decision =
  ste_sessionId :: string
  ste_requestId :: string
  ste_customizationArn :: "string option"
  ste_languageName :: string
  ste_completionType :: completion_type
  ste_suggestionState :: UserTriggerDecision
  ste_recommendationLatency :: int
  ste_triggerToResponseLatency :: int
  ste_referenceCount :: nat
  ste_generatedLine :: "nat option"
  ste_numberOfRecommendations :: nat
  ste_perceivedLatency :: "int option"
  ste_acceptedCharacterCount :: "int option"
  ste_addedCharacterCount :: "int option"
  ste_deletedCharacterCount :: "int option"
  ste_streakLength :: int
  ste_suggestionType :: "SuggestionType option"
  ste_userDecisionReason :: "UserDecisionReason option"

datatype telemetry_event =
    ServiceInvocation session_ref service_invocation
  | PerceivedLatency session_ref perceived_latency
  | TriggerDecision session_ref toolkit_decision service_decision

section \<open>The server state\<close>

record AcceptedInlineSuggestionEntry = AcceptedSuggestionEntry +
  acc_sessionId :: string
  acc_requestId :: string
  acc_languageId :: string
  acc_completionType :: completion_type
  acc_triggerType :: CodewhispererTriggerType
  acc_credentialStartUrl :: "string option"

record inline_server =
  sv_store :: session_store
  sv_completions :: SessionManager
  sv_edits :: SessionManager
  sv_cp :: cp_buckets
  sv_cpCustomizationArn :: "string option"
  sv_uw :: "UserWrittenCodeTracker option"
  sv_uwCustomizationArn :: "string option"
  sv_inlineTracksUsage :: bool \<comment> \<open>the completion handler was built with the tracker\<close>
  sv_optOutPreference :: string
  sv_codeDiff :: "unit AcceptedInlineSuggestionEntry_ext CodeDiffTracker"
  sv_rejected :: RejectedEditTracker
  sv_recent :: RecentEditTracker
  sv_cursor :: CursorTracker
  sv_streak :: StreakTracker
  sv_listener :: DocumentChangedListener
  sv_lastUserModificationTime :: int
  sv_timeSinceLastUserModification :: int
  sv_editsEnabled :: bool
  sv_inlineInProgress :: bool
  sv_editInProgress :: bool
  sv_events :: "telemetry_event list"
  sv_pendingReports :: "session_ref list"

abbreviation session_of :: "inline_server \<Rightarrow> session_ref \<Rightarrow> CodeWhispererSession" where
  "session_of sv r \<equiv> cells (sv_store sv) r"

definition modify_session ::
    "session_ref \<Rightarrow> (CodeWhispererSession \<Rightarrow> CodeWhispererSession) \<Rightarrow> inline_server \<Rightarrow> inline_server" where
  "modify_session r f sv = sv\<lparr>sv_store := update_session r f (sv_store sv)\<rparr>"

definition emit :: "telemetry_event \<Rightarrow> inline_server \<Rightarrow> inline_server" where
  "emit e sv = sv\<lparr>sv_events := sv_events sv @ [e]\<rparr>"

section \<open>Telemetry functions\<close>

text \<open>\<^verbatim>\<open>value || default\<close> on an optional string: the empty string counts as missing.\<close>

definition or_else :: "string option \<Rightarrow> string \<Rightarrow> string" where
  "or_else v d = (case v of None \<Rightarrow> d | Some s \<Rightarrow> if s = [] then d else s)"

definition first_completion_type :: "CodeWhispererSession \<Rightarrow> completion_type option" where
  "first_completion_type s =
     (case suggestions s of [] \<Rightarrow> None | g # _ \<Rightarrow> Some (getCompletionType (sug_content g)))"

definition supplemental_summary :: "CodeWhispererSession \<Rightarrow> (bool \<times> bool \<times> int \<times> nat) option" where
  "supplemental_summary s =
     map_option (\<lambda>c. (sc_isProcessTimeout c, sc_isUtg c, sc_latency c, sc_contentsLength c))
       (supplementalMetadata s)"

definition emitServiceInvocationTelemetry ::
    "int \<Rightarrow> session_ref \<Rightarrow> string option \<Rightarrow> inline_server \<Rightarrow> inline_server" where
  "emitServiceInvocationTelemetry now r requestId sv =
     (let s = session_of sv r
      in emit (ServiceInvocation r
           \<lparr>si_requestId = requestId,
            si_sessionId = map_option rc_codewhispererSessionId (responseContext s),
            si_lastSuggestionIndex = int (length (suggestions s)) - 1,
            si_completionType = first_completion_type s,
            si_triggerType = triggerType s, si_autoTriggerType = autoTriggerType s,
            si_reason = None, si_duration = now - startTime s,
            si_lineNumber = pos_line (startPosition s), si_cursorOffset = pos_character (startPosition s),
            si_language = language s, si_credentialStartUrl = credentialStartUrl s,
            si_supplementalContext = supplemental_summary s, si_customizationArn = customizationArn s,
            si_importRecommendationEnabled = includeImportsWithSuggestions s, si_succeeded = True\<rparr>) sv)"

text \<open>
  An error of the service: its name and message, its request id when it is a service exception, its
  code, whether it is an \<^verbatim>\<open>AmazonQError\<close> and whether \<^verbatim>\<open>hasConnectionExpired\<close> holds of it.
\<close>

record service_error =
  err_name :: string
  err_message :: string
  err_code :: string
  err_requestId :: "string option"
  err_isAmazonQ :: bool
  err_expired :: bool

definition emitServiceInvocationFailure ::
    "int \<Rightarrow> session_ref \<Rightarrow> service_error \<Rightarrow> inline_server \<Rightarrow> inline_server" where
  "emitServiceInvocationFailure now r e sv =
     (let s = session_of sv r
      in emit (ServiceInvocation r
           \<lparr>si_requestId = err_requestId e, si_sessionId = None, si_lastSuggestionIndex = -1,
            si_completionType = None, si_triggerType = triggerType s, si_autoTriggerType = autoTriggerType s,
            si_reason = Some (''CodeWhisperer Invocation Exception: '' @
                              (if err_name e = [] then ''UnknownError'' else err_name e)),
            si_duration = now - startTime s,
            si_lineNumber = pos_line (startPosition s), si_cursorOffset = pos_character (startPosition s),
            si_language = language s, si_credentialStartUrl = credentialStartUrl s,
            si_supplementalContext = supplemental_summary s, si_customizationArn = customizationArn s,
            si_importRecommendationEnabled = includeImportsWithSuggestions s, si_succeeded = False\<rparr>) sv)"

definition emitPerceivedLatencyTelemetry :: "session_ref \<Rightarrow> inline_server \<Rightarrow> inline_server" where
  "emitPerceivedLatencyTelemetry r sv =
     (let s = session_of sv r
      in emit (PerceivedLatency r
           \<lparr>pl_requestId = Option.bind (responseContext s) rc_requestId,
            pl_sessionId = map_option rc_codewhispererSessionId (responseContext s),
            pl_completionType = first_completion_type s, pl_triggerType = triggerType s,
            pl_duration = firstCompletionDisplayLatency s, pl_language = language s,
            pl_credentialStartUrl = credentialStartUrl s, pl_customizationArn = customizationArn s\<rparr>) sv)"

definition accepted_suggestion :: "CodeWhispererSession \<Rightarrow> CachedSuggestion option" where
  "accepted_suggestion s =
     (case acceptedSuggestionId s of
        None \<Rightarrow> None
      | Some i \<Rightarrow> List.find (\<lambda>g. sug_itemId g = i) (suggestions s))"

definition getAcceptedCharacterCount :: "CodeWhispererSession \<Rightarrow> nat" where
  "getAcceptedCharacterCount s =
     (case Option.bind (accepted_suggestion s) sug_content of None \<Rightarrow> 0 | Some c \<Rightarrow> length c)"

text \<open>What the handlers pass with a decision.\<close>

record decision_args =
  da_timeSinceLastUserModification :: "int option"
  da_addedChars :: "int option"
  da_deletedChars :: "int option"
  da_streakLength :: "int option"
  da_reason :: "UserDecisionReason option"

definition no_decision_args :: "int \<Rightarrow> decision_args" where
  "no_decision_args since =
     \<lparr>da_timeSinceLastUserModification = Some since, da_addedChars = None, da_deletedChars = None,
      da_streakLength = None, da_reason = None\<rparr>"

definition toolkit_decision_of :: "CodeWhispererSession \<Rightarrow> decision_args \<Rightarrow> toolkit_decision" where
  "toolkit_decision_of s a =
     \<lparr>tk_sessionId = or_else (codewhispererSessionId s) [],
      tk_firstRequestId = or_else (Option.bind (responseContext s) rc_requestId) [],
      tk_credentialStartUrl = credentialStartUrl s,
      tk_suggestionState = getAggregatedUserTriggerDecision s,
      tk_completionType = first_completion_type s, tk_language = language s,
      tk_triggerType = triggerType s, tk_autoTriggerType = autoTriggerType s,
      tk_triggerCharacter = (if autoTriggerType s = Some SpecialCharacters then triggerCharacter s else None),
      tk_lineNumber = pos_line (startPosition s), tk_cursorOffset = pos_character (startPosition s),
      tk_suggestionCount = length (suggestions s),
      tk_classifierResult = classifierResult s, tk_classifierThreshold = classifierThreshold s,
      tk_totalShownTime = (case totalSessionDisplayTime s of None \<Rightarrow> 0 | Some t \<Rightarrow> t),
      tk_typeaheadLength = (case typeaheadLength s of None \<Rightarrow> 0 | Some t \<Rightarrow> t),
      tk_timeSinceLastDocumentChange = da_timeSinceLastUserModification a,
      tk_timeSinceLastUserDecision =
        (case previousTriggerDecisionTime s of
           None \<Rightarrow> None | Some t \<Rightarrow> if t = 0 then None else Some (startTime s - t)),
      tk_timeToFirstRecommendation = timeToFirstRecommendation s,
      tk_previousSuggestionState = previousTriggerDecision s,
      tk_supplementalContext =
        map_option (\<lambda>c. (sc_isProcessTimeout c, sc_isUtg c, sc_contentsLength c, sc_strategy c))
          (supplementalMetadata s),
      tk_customizationArn = customizationArn s,
      tk_charactersAccepted = getAcceptedCharacterCount s,
      tk_suggestionImportCount = codewhispererSuggestionImportCount s\<rparr>"

definition service_decision_of ::
    "CodeWhispererSession \<Rightarrow> UserTriggerDecision \<Rightarrow> decision_args \<Rightarrow> service_decision" where
  "service_decision_of s d a =
     (let acc = accepted_suggestion s;
          generatedLines =
            (case acc of
               None \<Rightarrow> Some 0
             | Some g \<Rightarrow> (case sug_content g of
                            None \<Rightarrow> None
                          | Some c \<Rightarrow> if blank c then Some 0 else Some (length (split_on LF c))));
          referenceCount =
            (case acc of
               None \<Rightarrow> 0
             | Some g \<Rightarrow> (case sug_references g of None \<Rightarrow> 0 | Some rs \<Rightarrow> if length rs > 0 then 1 else 0));
          acceptedCharacterCount = int (getAcceptedCharacterCount s);
          isInlineEdit = (predictionType s = Some EDIT)
      in \<lparr>ste_sessionId = or_else (codewhispererSessionId s) [],
          ste_requestId = or_else (Option.bind (responseContext s) rc_requestId) [],
          ste_customizationArn = (if customizationArn s = Some [] then None else customizationArn s),
          ste_languageName = getRuntimeLanguage (language s),
          ste_completionType = (case first_completion_type s of None \<Rightarrow> Line | Some t \<Rightarrow> t),
          ste_suggestionState = d,
          ste_recommendationLatency = (case firstCompletionDisplayLatency s of None \<Rightarrow> 0 | Some t \<Rightarrow> t),
          ste_triggerToResponseLatency = timeToFirstRecommendation s,
          ste_referenceCount = referenceCount, ste_generatedLine = generatedLines,
          ste_numberOfRecommendations = length (suggestions s),
          ste_perceivedLatency =
            (if triggerType s = OnDemand then Some (timeToFirstRecommendation s)
             else da_timeSinceLastUserModification a),
          ste_acceptedCharacterCount = (if isInlineEdit then da_addedChars a else Some acceptedCharacterCount),
          ste_addedCharacterCount = (if isInlineEdit then da_addedChars a else Some acceptedCharacterCount),
          ste_deletedCharacterCount = (if isInlineEdit then da_deletedChars a else Some 0),
          ste_streakLength = (case da_streakLength a of None \<Rightarrow> 0 | Some n \<Rightarrow> n),
          ste_suggestionType = predictionType s, ste_userDecisionReason = da_reason a\<rparr>)"

definition emitUserTriggerDecision ::
    "int \<Rightarrow> session_ref \<Rightarrow> UserTriggerDecision \<Rightarrow> decision_args \<Rightarrow> inline_server \<Rightarrow> inline_server" where
  "emitUserTriggerDecision now r d a sv =
     (let sv' = modify_session r (\<lambda>s. s\<lparr>decisionMadeTimestamp := now\<rparr>) sv; s = session_of sv' r
      in emit (TriggerDecision r (toolkit_decision_of s a) (service_decision_of s d a)) sv')"

definition emitUserTriggerDecisionTelemetry ::
    "int \<Rightarrow> session_ref \<Rightarrow> decision_args \<Rightarrow> string option \<Rightarrow> inline_server \<Rightarrow> inline_server" where
  "emitUserTriggerDecisionTelemetry now r a itemId sv =
     (let s = session_of sv r
      in if reportedUserDecision s then sv
         else case (if predictionType s = Some EDIT then getUserTriggerDecision s itemId
                    else getAggregatedUserTriggerDecision s) of
                None \<Rightarrow> sv
              | Some d \<Rightarrow> modify_session r (\<lambda>s. s\<lparr>reportedUserDecision := True\<rparr>)
                            (emitUserTriggerDecision now r d a sv))"

text \<open>The report that is not awaited, and the step that sets its flag.\<close>

definition emitEmptyUserTriggerDecisionTelemetry ::
    "int \<Rightarrow> session_ref \<Rightarrow> int \<Rightarrow> int \<Rightarrow> inline_server \<Rightarrow> inline_server" where
  "emitEmptyUserTriggerDecisionTelemetry now r since streak sv =
     (if reportedUserDecision (session_of sv r) then sv
      else let sv' = emitUserTriggerDecision now r UTD_Empty
                       \<lparr>da_timeSinceLastUserModification = Some since, da_addedChars = Some 0,
                        da_deletedChars = Some 0, da_streakLength = Some streak, da_reason = None\<rparr> sv
           in sv'\<lparr>sv_pendingReports := r # sv_pendingReports sv'\<rparr>)"

definition settle_report :: "session_ref \<Rightarrow> inline_server \<Rightarrow> inline_server" where
  "settle_report r sv =
     (modify_session r (\<lambda>s. s\<lparr>reportedUserDecision := True\<rparr>) sv)
       \<lparr>sv_pendingReports := removeAll r (sv_pendingReports sv)\<rparr>"

text \<open>The streak reported with a decision, when edits are enabled.\<close>

definition report_streak :: "bool \<Rightarrow> inline_server \<Rightarrow> inline_server \<times> int" where
  "report_streak accepted sv =
     (if sv_editsEnabled sv
      then let (t, n) = getAndUpdateStreakLength (sv_streak sv) (Some accepted) in (sv\<lparr>sv_streak := t\<rparr>, n)
      else (sv, 0))"

section \<open>Reports of decisions\<close>

text \<open>The sessions for which a decision was reported, in order.\<close>

definition decision_ref :: "telemetry_event \<Rightarrow> session_ref option" where
  "decision_ref e = (case e of TriggerDecision r _ _ \<Rightarrow> Some r | _ \<Rightarrow> None)"

definition reported :: "inline_server \<Rightarrow> session_ref list" where
  "reported sv = List.map_filter decision_ref (sv_events sv)"

lemma reported_emit [simp]:
  "reported (emit e sv) = reported sv @ (case decision_ref e of None \<Rightarrow> [] | Some r \<Rightarrow> [r])"
  by (simp add: reported_def emit_def List.map_filter_def split: option.split)

lemma decision_ref_simps [simp]:
  "decision_ref (ServiceInvocation r x) = None" "decision_ref (PerceivedLatency r y) = None"
  "decision_ref (TriggerDecision r t u) = Some r"
  by (simp_all add: decision_ref_def)

lemma modify_session_simps [simp]:
  "reported (modify_session r f sv) = reported sv"
  "sv_pendingReports (modify_session r f sv) = sv_pendingReports sv"
  "sv_completions (modify_session r f sv) = sv_completions sv"
  "sv_edits (modify_session r f sv) = sv_edits sv"
  "session_of (modify_session r f sv) q = (if q = r then f (session_of sv r) else session_of sv q)"
  "next_ref (sv_store (modify_session r f sv)) = next_ref (sv_store sv)"
  by (simp_all add: modify_session_def update_session_def reported_def)

lemma emit_simps [simp]:
  "sv_pendingReports (emit e sv) = sv_pendingReports sv"
  "sv_completions (emit e sv) = sv_completions sv" "sv_edits (emit e sv) = sv_edits sv"
  "sv_store (emit e sv) = sv_store sv"
  by (simp_all add: emit_def)

end
