(* ===== verification/Inline_Handler.thy ===== *)
theory Inline_Handler
  imports Inline_State
begin

text \<open>
  The handler of completion requests (\<^verbatim>\<open>inline-completion/handler/inlineCompletionHandler.ts\<close>). A request awaits
  the document, the supplemental context and the service; the handler is cut at these three places, so
  that other events of the server can come in between. What it reads from its surroundings (the
  configuration, the client, the operating system) is an environment record.
\<close>

section \<open>Requests and replies\<close>

record inline_env =
  env_managerReady :: bool
  env_tokenService :: bool
  env_coefficients :: Coefficients
  env_os :: string
  env_ide :: "string option"
  env_methods :: document_methods
  env_relativePath :: string
  env_workspaceId :: "string option"
  env_extraContext :: "string option"
  env_includeImports :: bool
  env_includeReferences :: bool
  env_startUrl :: "string option"
  env_customizationArn :: "string option"

record context_override =
  ov_leftFileContent :: string
  ov_rightFileContent :: string
  ov_filename :: string
  ov_fileUri :: "string option"
  ov_programmingLanguage :: "string option"

record inline_params =
  ip_uri :: string
  ip_position :: position
  ip_automatic :: bool
  ip_partialResultToken :: "string option"
  ip_selectionRange :: "range option"
  ip_override :: "context_override option"
  ip_changes :: "string option list option"

record completion_list =
  cl_items :: "InlineCompletionItem list"
  cl_sessionId :: string
  cl_partialResultToken :: "string option"

definition EMPTY_RESULT :: completion_list where
  "EMPTY_RESULT = \<lparr>cl_items = [], cl_sessionId = [], cl_partialResultToken = None\<rparr>"

text \<open>A request is answered with a list or fails with a message and an error code.\<close>

datatype 'a reply = Reply 'a | RequestFailed string string

section \<open>The start of a request\<close>

text \<open>
  Up to the document: the request is dropped while another one runs or before the service manager
  exists. Otherwise a session that is still requesting is marked, unless this is a request for
  the next page, and the cursor is tracked. The session current at this time is kept for later.
\<close>

definition inline_start ::
    "inline_env \<Rightarrow> int \<Rightarrow> inline_params \<Rightarrow> inline_server \<Rightarrow> inline_server \<times> session_ref option option" where
  "inline_start env now p sv =
     (if sv_inlineInProgress sv then (sv, None)
      else if \<not> env_managerReady env then (sv, None)
      else let sv1 = sv\<lparr>sv_inlineInProgress := True\<rparr>;
               cur = getCurrentSession (sv_completions sv1);
               sv2 = (case cur of
                        Some r \<Rightarrow>
                          if state (session_of sv1 r) = REQUESTING \<and> \<not> truthy (ip_partialResultToken p)
                          then modify_session r (\<lambda>s. s\<lparr>discardInflightSessionOnNewInvocation := True\<rparr>) sv1
                          else sv1
                      | None \<Rightarrow> sv1);
               sv3 = sv2\<lparr>sv_cursor := fst (trackPosition now (ip_uri p) (ip_position p) (sv_cursor sv2))\<rparr>
           in (sv3, Some cur))"

section \<open>A new session: before the supplemental context\<close>

record prepared_request =
  pr_document :: text_document
  pr_fileContext :: FileContext
  pr_startPreprocessTimestamp :: int
  pr_autoTriggerType :: "CodewhispererAutomatedTriggerType option"
  pr_triggerCharacters :: string
  pr_autoTriggerResult :: "AutoTriggerResult option"

definition trigger_name :: "CodewhispererAutomatedTriggerType \<Rightarrow> string" where
  "trigger_name t =
     (case t of
        SpecialCharacters \<Rightarrow> ''SpecialCharacters'' | Enter \<Rightarrow> ''Enter'' | Classifier \<Rightarrow> ''Classifier''
      | IntelliSenseAcceptance \<Rightarrow> ''IntelliSenseAcceptance'')"

definition inferred_language :: "inline_params \<Rightarrow> text_document \<Rightarrow> string option" where
  "inferred_language p doc =
     (case Option.bind (ip_override p) ov_programmingLanguage of
        Some l \<Rightarrow> if l = [] then getSupportedLanguageId (Some doc) supportedFileTypes else Some l
      | None \<Rightarrow> getSupportedLanguageId (Some doc) supportedFileTypes)"

definition request_file_context :: "inline_env \<Rightarrow> inline_params \<Rightarrow> text_document \<Rightarrow> string \<Rightarrow> FileContext" where
  "request_file_context env p doc lang =
     (case ip_override p of
        Some ov \<Rightarrow> \<lparr>fc_fileUri = ov_fileUri ov, fc_filename = ov_filename ov, fc_languageName = lang,
                    fc_leftFileContent = ov_leftFileContent ov, fc_rightFileContent = ov_rightFileContent ov\<rparr>
      | None \<Rightarrow> toServiceModel
                  (getFileContext (env_methods env) (env_relativePath env) doc (ip_position p) lang))"

text \<open>The decision of the previous session, when it was reported less than two minutes ago.\<close>

definition previous_decision :: "int \<Rightarrow> inline_server \<Rightarrow> UserTriggerDecision option" where
  "previous_decision now sv =
     (case getPreviousSession (sv_completions sv) of
        None \<Rightarrow> None
      | Some r \<Rightarrow>
          if now - decisionMadeTimestamp (session_of sv r) \<le> 2 * 60 * 1000
          then getAggregatedUserTriggerDecision (session_of sv r) else None)"

text \<open>The characters that triggered and the kind of trigger.\<close>

definition trigger_of :: "inline_params \<Rightarrow> FileContext \<Rightarrow> string \<times> CodewhispererAutomatedTriggerType option" where
  "trigger_of p fc =
     (case ip_changes p of
        Some (Some chars # rest) \<Rightarrow> (chars, getAutoTriggerType (chars # map (\<lambda>c. case c of None \<Rightarrow> [] | Some t \<Rightarrow> t) rest))
      | _ \<Rightarrow> (last_char (trim (fc_leftFileContent fc)), Some (triggerType_of fc)))"

definition prepare_request ::
    "inline_env \<Rightarrow> int \<Rightarrow> inline_params \<Rightarrow> text_document option \<Rightarrow> inline_server \<Rightarrow> prepared_request option" where
  "prepare_request env now p textDocument sv =
     (case textDocument of
        None \<Rightarrow> None
      | Some doc \<Rightarrow>
          (case inferred_language p doc of
             None \<Rightarrow> None
           | Some lang \<Rightarrow>
               let fc = request_file_context env p doc lang
               in if ip_automatic p
                  then let (chars, kind) = trigger_of p fc
                       in case kind of
                            None \<Rightarrow> None
                          | Some k \<Rightarrow>
                              let res = autoTrigger (env_coefficients env)
                                    \<lparr>atp_fileContext = fc, atp_char = chars, atp_triggerType = trigger_name k,
                                     atp_os = env_os env, atp_previousDecision = previous_decision now sv,
                                     atp_ide = (case env_ide env of None \<Rightarrow> [] | Some i \<Rightarrow> i),
                                     atp_lineNum = pos_line (ip_position p)\<rparr>
                              in if k = Classifier \<and> \<not> shouldTrigger res then None
                                 else Some \<lparr>pr_document = doc, pr_fileContext = fc,
                                            pr_startPreprocessTimestamp = now, pr_autoTriggerType = Some k,
                                            pr_triggerCharacters = chars, pr_autoTriggerResult = Some res\<rparr>
                  else Some \<lparr>pr_document = doc, pr_fileContext = fc, pr_startPreprocessTimestamp = now,
                             pr_autoTriggerType = None, pr_triggerCharacters = [],
                             pr_autoTriggerResult = None\<rparr>))"

section \<open>A new session: the request\<close>

text \<open>
  After the supplemental context: an active session is discarded and reported, except in JetBrains
  clients; then the new session is created. The request of the session and the request that is sent
  share one file context object, so the extra context shows in both.
\<close>

definition discard_active :: "inline_env \<Rightarrow> int \<Rightarrow> inline_server \<Rightarrow> inline_server" where
  "discard_active env now sv =
     (case getCurrentSession (sv_completions sv) of
        Some r \<Rightarrow>
          if state (session_of sv r) = ACTIVE \<and> env_ide env \<noteq> Some ''JETBRAINS''
          then let sv1 = sv\<lparr>sv_store := discardSession (sv_store sv) r now\<rparr>;
                   (sv2, streak) = report_streak False sv1
               in emitUserTriggerDecisionTelemetry now r
                    \<lparr>da_timeSinceLastUserModification = Some (sv_timeSinceLastUserModification sv),
                     da_addedChars = Some 0, da_deletedChars = Some 0, da_streakLength = Some streak,
                     da_reason = Some ImplicitReject\<rparr> None sv2
          else sv
      | None \<Rightarrow> sv)"

definition extend_left :: "string option \<Rightarrow> FileContext \<Rightarrow> FileContext" where
  "extend_left extra fc =
     (if truthy extra then fc\<lparr>fc_leftFileContent := the extra @ [LF] @ fc_leftFileContent fc\<rparr> else fc)"

definition send_request ::
    "inline_env \<Rightarrow> int \<Rightarrow> string \<Rightarrow> inline_params \<Rightarrow> prepared_request \<Rightarrow>
     (CodeWhispererSupplementalContextItem list \<times> CodeWhispererSupplementalContext) option \<Rightarrow>
     inline_server \<Rightarrow> inline_server \<times> session_ref \<times> GenerateSuggestionsRequest" where
  "send_request env now sid p pr supplementalContext sv =
     (let sv1 = discard_active env now sv;
          req = \<lparr>req_fileContext = Some (extend_left (env_extraContext env) (pr_fileContext pr)),
                 req_maxResults = (if ip_automatic p then 1 else 5), req_nextToken = None,
                 req_predictionTypes = None, req_workspaceId = None, req_editorState = None,
                 req_supplementalContexts = map_option fst supplementalContext\<rparr>;
          d = \<lparr>sd_document = pr_document pr, sd_startPreprocessTimestamp = pr_startPreprocessTimestamp pr,
               sd_startPosition = ip_position p,
               sd_triggerType = (if ip_automatic p then AutoTrigger else OnDemand),
               sd_autoTriggerType = (if ip_automatic p then pr_autoTriggerType pr else None),
               sd_triggerCharacter = Some (pr_triggerCharacters pr),
               sd_classifierResult = Option.bind (pr_autoTriggerResult pr) classifier_result,
               sd_classifierThreshold = map_option classifier_threshold (pr_autoTriggerResult pr),
               sd_language = fc_languageName (pr_fileContext pr), sd_requestContext = req,
               sd_credentialStartUrl = env_startUrl env,
               sd_customizationArn = undefinedIfEmpty (env_customizationArn env),
               sd_supplementalMetadata = map_option snd supplementalContext\<rparr>;
          (h, m, r) = createSession (sv_store sv1) (sv_completions sv1) d sid now;
          sv2 = sv1\<lparr>sv_store := h, sv_completions := m\<rparr>;
          sent = (if env_tokenService env
                  then req\<lparr>req_workspaceId := (if truthy (env_workspaceId env) then env_workspaceId env else None),
                           req_editorState := Some (getEditorState (env_methods env) (pr_document pr)
                             (ip_position p) (fc_languageName (pr_fileContext pr)))\<rparr>
                  else req)
      in (sv2, r, sent))"

text \<open>The request for the next page of a session.\<close>

definition page_request :: "inline_params \<Rightarrow> CodeWhispererSession \<Rightarrow> GenerateSuggestionsRequest" where
  "page_request p s = (requestContext s)\<lparr>req_nextToken := ip_partialResultToken p\<rparr>"

section \<open>The response\<close>

text \<open>The two filters on the suggestions of a response, each recording a state for what it drops.\<close>

definition empty_filter :: "CachedSuggestion list \<Rightarrow> CachedSuggestion list \<times> (string \<times> UserDecision) list" where
  "empty_filter gs =
     (filter (\<lambda>g. sug_content g \<noteq> Some []) gs,
      map (\<lambda>g. (sug_itemId g, UD_Empty)) (filter (\<lambda>g. sug_content g = Some []) gs))"

definition has_references :: "CachedSuggestion \<Rightarrow> bool" where
  "has_references g \<longleftrightarrow> (case sug_references g of None \<Rightarrow> False | Some rs \<Rightarrow> length rs \<noteq> 0)"

definition reference_filter ::
    "bool \<Rightarrow> CachedSuggestion list \<Rightarrow> CachedSuggestion list \<times> (string \<times> UserDecision) list" where
  "reference_filter include gs =
     (filter (\<lambda>g. include \<or> \<not> has_references g) gs,
      map (\<lambda>g. (sug_itemId g, UD_Filter)) (filter (\<lambda>g. \<not> (include \<or> \<not> has_references g)) gs))"

definition insert_text_filter :: "InlineCompletionItem list \<Rightarrow> InlineCompletionItem list \<times> (string \<times> UserDecision) list" where
  "insert_text_filter is =
     (filter (\<lambda>i. item_insertText i \<noteq> []) is,
      map (\<lambda>i. (item_itemId i, UD_Discard)) (filter (\<lambda>i. item_insertText i = []) is))"

definition record_states :: "(string \<times> UserDecision) list \<Rightarrow> CodeWhispererSession \<Rightarrow> CodeWhispererSession" where
  "record_states ds s = fold (\<lambda>(i, d). setSuggestionState i d) ds s"

text \<open>\<^verbatim>\<open>cachedSuggestion.insertText = ...\<close> on the first suggestion with the id of each shown item.\<close>

fun cache_insert_text :: "string \<Rightarrow> string \<Rightarrow> CachedSuggestion list \<Rightarrow> CachedSuggestion list" where
  "cache_insert_text i t [] = []"
| "cache_insert_text i t (g # gs) =
     (if sug_itemId g = i then g\<lparr>sug_insertText := Some t\<rparr> # gs else g # cache_insert_text i t gs)"

definition cache_items :: "InlineCompletionItem list \<Rightarrow> CachedSuggestion list \<Rightarrow> CachedSuggestion list" where
  "cache_items is gs = fold (\<lambda>i. cache_insert_text (item_itemId i) (item_insertText i)) is gs"

definition import_count :: "InlineCompletionItem list \<Rightarrow> nat" where
  "import_count is =
     sum_list (map (\<lambda>i. case item_mostRelevantMissingImports i of None \<Rightarrow> 0 | Some xs \<Rightarrow> length xs) is)"

text \<open>The part before the session may be found closed: counting, storing the response, telemetry.\<close>

definition store_response ::
    "bool \<Rightarrow> bool \<Rightarrow> int \<Rightarrow> GenerateSuggestionsResponse \<Rightarrow> CodeWhispererSession \<Rightarrow> CodeWhispererSession" where
  "store_response includeImports isNew now resp s =
     (let s1 = s\<lparr>includeImportsWithSuggestions := Some includeImports\<rparr>
      in if isNew
         then (setTimeToFirstRecommendation
                (s1\<lparr>suggestions := resp_suggestions resp, responseContext := Some (resp_responseContext resp),
                    codewhispererSessionId := Some (rc_codewhispererSessionId (resp_responseContext resp))\<rparr>) now)
              \<lparr>predictionType := Some COMPLETION\<rparr>
         else s1\<lparr>suggestions := suggestions s1 @ resp_suggestions resp\<rparr>)"

definition receive_response ::
    "inline_env \<Rightarrow> int \<Rightarrow> real \<Rightarrow> session_ref \<Rightarrow> bool \<Rightarrow> GenerateSuggestionsResponse \<Rightarrow> inline_server \<Rightarrow> inline_server" where
  "receive_response env now perf r isNew resp sv =
     (let lang = language (session_of sv r);
          sv1 = sv\<lparr>sv_cp := countInvocation lang (sv_cp sv),
                   sv_uw := (if sv_inlineTracksUsage sv then map_option (recordUsageCount lang perf) (sv_uw sv)
                            else sv_uw sv)\<rparr>;
          sv2 = modify_session r (store_response (env_includeImports env) isNew now resp) sv1;
          sv3 = emitServiceInvocationTelemetry now r (rc_requestId (resp_responseContext resp)) sv2
      in if discardInflightSessionOnNewInvocation (session_of sv3 r)
         then let sv4 = modify_session r (\<lambda>s. s\<lparr>discardInflightSessionOnNewInvocation := False\<rparr>) sv3;
                  sv5 = sv4\<lparr>sv_store := discardSession (sv_store sv4) r now\<rparr>;
                  (sv6, streak) = report_streak False sv5
              in emitUserTriggerDecisionTelemetry now r
                   \<lparr>da_timeSinceLastUserModification = Some (sv_timeSinceLastUserModification sv),
                    da_addedChars = Some 0, da_deletedChars = Some 0, da_streakLength = Some streak,
                    da_reason = Some ImplicitReject\<rparr> None sv6
         else sv3)"

text \<open>What is shown of a response: the items and the states of what is not shown.\<close>

definition shown_items ::
    "inline_env \<Rightarrow> string \<Rightarrow> range option \<Rightarrow> CachedSuggestion list \<Rightarrow>
     InlineCompletionItem list \<times> (string \<times> UserDecision) list" where
  "shown_items env right rng gs =
     (let (gs1, ds1) = empty_filter gs;
          (gs2, ds2) = reference_filter (env_includeReferences env) gs1;
          (items, ds3) = insert_text_filter
            (mergeSuggestionsWithRightContext right gs2 (env_includeImports env) rng)
      in (items, ds1 @ ds2 @ ds3))"

definition show_items ::
    "inline_env \<Rightarrow> range option \<Rightarrow> GenerateSuggestionsResponse \<Rightarrow> CodeWhispererSession \<Rightarrow>
     CodeWhispererSession \<times> InlineCompletionItem list" where
  "show_items env rng resp s =
     (let right = (case req_fileContext (requestContext s) of None \<Rightarrow> [] | Some fc \<Rightarrow> fc_rightFileContent fc);
          (items, ds) = shown_items env right rng (resp_suggestions resp);
          s1 = record_states ds s
      in (s1\<lparr>suggestions := cache_items items (suggestions s1),
             suggestionsAfterRightContextMerge := suggestionsAfterRightContextMerge s1 @ items,
             codewhispererSuggestionImportCount := codewhispererSuggestionImportCount s1 + import_count items\<rparr>,
          items))"

definition processSuggestionResponse ::
    "inline_env \<Rightarrow> int \<Rightarrow> real \<Rightarrow> session_ref \<Rightarrow> bool \<Rightarrow> range option \<Rightarrow> GenerateSuggestionsResponse \<Rightarrow>
     inline_server \<Rightarrow> inline_server \<times> completion_list" where
  "processSuggestionResponse env now perf r isNew rng resp sv =
     (let sv1 = receive_response env now perf r isNew resp sv; s = session_of sv1 r
      in if predictionType s \<noteq> Some EDIT \<and> (state s = CLOSED \<or> state s = DISCARD) then (sv1, EMPTY_RESULT)
         else let sv2 = sv1\<lparr>sv_store := activateSession (sv_store sv1) (sv_completions sv1) r\<rparr>;
                  (s', items) = show_items env rng resp (session_of sv2 r);
                  sv3 = modify_session r (\<lambda>_. s') sv2
              in if suggestionsAfterRightContextMerge s' = [] \<and>
                    \<not> truthy (rc_nextToken (resp_responseContext resp))
                 then let (h, m) = closeSession (sv_store sv3) (sv_completions sv3) r now;
                          sv4 = sv3\<lparr>sv_store := h, sv_completions := m\<rparr>
                      in (emitUserTriggerDecisionTelemetry now r
                            (no_decision_args (sv_timeSinceLastUserModification sv)) None sv4, EMPTY_RESULT)
                 else (sv3, \<lparr>cl_items = items, cl_sessionId = session_id s',
                             cl_partialResultToken = rc_nextToken (resp_responseContext resp)\<rparr>))"

section \<open>Errors\<close>

definition connection_expired_code :: string where
  "connection_expired_code = ''E_AMAZON_Q_CONNECTION_EXPIRED''"

definition translate_error :: "service_error \<Rightarrow> 'a \<Rightarrow> 'a reply" where
  "translate_error e nothing =
     (if err_expired e
      then RequestFailed (if err_message e = [] then ''Error processing suggestion requests'' else err_message e)
             connection_expired_code
      else if err_isAmazonQ e
      then RequestFailed (if err_message e = [] then ''Error processing suggestion requests'' else err_message e)
             (err_code e)
      else Reply nothing)"

definition handleSuggestionsErrors ::
    "int \<Rightarrow> service_error \<Rightarrow> session_ref \<Rightarrow> inline_server \<Rightarrow> inline_server \<times> completion_list reply" where
  "handleSuggestionsErrors now e r sv =
     (let sv1 = emitServiceInvocationFailure now r e sv;
          (h, m) = closeSession (sv_store sv1) (sv_completions sv1) r now
      in (sv1\<lparr>sv_store := h, sv_completions := m\<rparr>, translate_error e EMPTY_RESULT))"

text \<open>The end of a request: the service answered or failed; in both cases the handler is free again.\<close>

definition inline_finish ::
    "inline_env \<Rightarrow> int \<Rightarrow> real \<Rightarrow> session_ref \<Rightarrow> bool \<Rightarrow> range option \<Rightarrow> service_error + GenerateSuggestionsResponse \<Rightarrow>
     inline_server \<Rightarrow> inline_server \<times> completion_list reply" where
  "inline_finish env now perf r isNew rng answer sv =
     (let (sv', reply) =
            (case answer of
               Inr resp \<Rightarrow> (case processSuggestionResponse env now perf r isNew rng resp sv of (sv1, l) \<Rightarrow> (sv1, Reply l))
             | Inl e \<Rightarrow> handleSuggestionsErrors now e r sv)
      in (sv'\<lparr>sv_inlineInProgress := False\<rparr>, reply))"

text \<open>A request that is answered before the service is asked.\<close>

definition inline_abandon :: "inline_server \<Rightarrow> inline_server \<times> completion_list reply" where
  "inline_abandon sv = (sv\<lparr>sv_inlineInProgress := False\<rparr>, Reply EMPTY_RESULT)"

end
