(* ===== verification/Edit_Handler.thy ===== *)
theory Edit_Handler
  imports Inline_Handler
begin

text \<open>
  The handler of edit requests (\<^verbatim>\<open>inline-completion/handler/editCompletionHandler.ts\<close>), cut at the places where
  it awaits the document, the supplemental context and the service. Its flag is set only after the
  document has arrived, so unlike completion requests several edit requests can run at a time.
\<close>

section \<open>Environment and replies\<close>

record edit_env = inline_env +
  ee_config :: EditPredictionConfig
  ee_createPatch :: patch_maker
  ee_parsePatch :: patch_parser
  ee_distance :: "string \<Rightarrow> string \<Rightarrow> nat"
  ee_editTrackerConfig :: RecentEditTrackerConfig
  ee_getText :: "text_document \<Rightarrow> range \<Rightarrow> string"

record edit_item =
  ei_insertText :: string
  ei_isInlineEdit :: bool
  ei_itemId :: string

record edit_list =
  el_items :: "edit_item list"
  el_sessionId :: string
  el_partialResultToken :: "string option"

definition EMPTY_EDIT_RESULT :: edit_list where
  "EMPTY_EDIT_RESULT = \<lparr>el_items = [], el_sessionId = [], el_partialResultToken = None\<rparr>"

section \<open>The start of a request\<close>

definition edit_start ::
    "int \<Rightarrow> inline_params \<Rightarrow> inline_server \<Rightarrow> inline_server \<times> session_ref option option" where
  "edit_start now p sv =
     (if sv_editInProgress sv then (sv, None)
      else let cur = getCurrentSession (sv_edits sv);
               sv1 = (case cur of
                        Some r \<Rightarrow>
                          if state (session_of sv r) = REQUESTING \<and> \<not> truthy (ip_partialResultToken p)
                          then modify_session r (\<lambda>s. s\<lparr>discardInflightSessionOnNewInvocation := True\<rparr>) sv
                          else sv
                      | None \<Rightarrow> sv)
           in (sv1\<lparr>sv_cursor := fst (trackPosition now (ip_uri p) (ip_position p) (sv_cursor sv1))\<rparr>, Some cur))"

text \<open>
  After the document: only token services and supported languages go on, and now the flag is set.
\<close>

definition edit_admit :: "'a edit_env_scheme \<Rightarrow> text_document option \<Rightarrow> inline_server \<Rightarrow> inline_server \<times> (text_document \<times> string) option" where
  "edit_admit env textDocument sv =
     (case textDocument of
        None \<Rightarrow> (sv, None)
      | Some doc \<Rightarrow>
          if \<not> env_tokenService env then (sv, None)
          else case getSupportedLanguageId (Some doc) supportedFileTypes of
                 None \<Rightarrow> (sv, None)
               | Some lang \<Rightarrow> (sv\<lparr>sv_editInProgress := True\<rparr>, Some (doc, lang)))"

section \<open>The next page\<close>

definition edit_page ::
    "int \<Rightarrow> int \<Rightarrow> string \<Rightarrow> inline_params \<Rightarrow> text_document \<Rightarrow> session_ref \<Rightarrow> inline_server \<Rightarrow>
     inline_server \<times> session_ref \<times> GenerateSuggestionsRequest" where
  "edit_page start now sid p doc cur sv =
     (let sv1 = (if state (session_of sv cur) = ACTIVE
                 then sv\<lparr>sv_store := discardSession (sv_store sv) cur now\<rparr> else sv);
          c = session_of sv1 cur;
          d = \<lparr>sd_document = doc, sd_startPreprocessTimestamp = start, sd_startPosition = ip_position p,
               sd_triggerType = AutoTrigger, sd_autoTriggerType = None, sd_triggerCharacter = Some [],
               sd_classifierResult = None, sd_classifierThreshold = None, sd_language = language c,
               sd_requestContext = requestContext c, sd_credentialStartUrl = credentialStartUrl c,
               sd_customizationArn = customizationArn c, sd_supplementalMetadata = supplementalMetadata c\<rparr>;
          (h, m, r) = createSession (sv_store sv1) (sv_edits sv1) d sid now;
          sv2 = sv1\<lparr>sv_store := h, sv_edits := m\<rparr>
      in (sv2, r, (requestContext (session_of sv2 r))\<lparr>req_nextToken := ip_partialResultToken p\<rparr>))"

section \<open>A new request\<close>

text \<open>
  Both triggers have to agree. The classifier is built first and raises when there is no recent edit;
  the handler does not catch that, so the request fails.
\<close>

datatype edit_trigger = Fire ClientFileContextClss | Hold | TriggerRaised

definition edit_should_fire ::
    "'a edit_env_scheme \<Rightarrow> int \<Rightarrow> int \<times> int \<times> int \<Rightarrow> int \<times> int \<Rightarrow> inline_params \<Rightarrow> text_document \<Rightarrow> string \<Rightarrow>
     inline_server \<Rightarrow> edit_trigger" where
  "edit_should_fire env now clock outer p doc lang sv =
     (let fc = getFileContext (env_methods env) (env_relativePath env) doc (ip_position p) lang;
          chars = inferTriggerChar (cfc_leftFileContent fc) (ip_changes p);
          recent = generateEditBasedContext (ee_createPatch env) clock outer (ee_editTrackerConfig env)
                     (sv_recent sv) (Some doc)
      in case new_EditClassifier
                \<lparr>eat_fileContext = fc, eat_triggerChar = chars, eat_recentEdits = recent,
                 eat_recentDecisions = map snd (userDecisionLog (sv_edits sv))\<rparr> of
           Inl _ \<Rightarrow> TriggerRaised
         | Inr c \<Rightarrow>
             if ed_shouldTrigger (classifier_shouldTriggerEdits c) \<and>
                shouldTriggerEdits (env_tokenService env) (ee_config env) (toServiceModel fc) (ip_position p)
                  (sv_recent sv) now True \<noteq> None
             then Fire fc else Hold)"

definition edit_discard_active :: "int \<Rightarrow> session_ref option \<Rightarrow> inline_server \<Rightarrow> inline_server" where
  "edit_discard_active now cur sv =
     (case cur of
        Some r \<Rightarrow>
          if state (session_of sv r) = ACTIVE
          then let sv1 = sv\<lparr>sv_store := discardSession (sv_store sv) r now\<rparr>;
                   (sv2, streak) = report_streak False sv1
               in emitUserTriggerDecisionTelemetry now r
                    \<lparr>da_timeSinceLastUserModification = Some (timeSinceLastUserModification (sv_listener sv)),
                     da_addedChars = Some 0, da_deletedChars = Some 0, da_streakLength = Some streak,
                     da_reason = None\<rparr> None sv2
          else sv
      | None \<Rightarrow> sv)"

definition edit_send ::
    "'a edit_env_scheme \<Rightarrow> int \<Rightarrow> int \<Rightarrow> string \<Rightarrow> inline_params \<Rightarrow> text_document \<Rightarrow> ClientFileContextClss \<Rightarrow>
     session_ref option \<Rightarrow> (CodeWhispererSupplementalContextItem list \<times> CodeWhispererSupplementalContext) option \<Rightarrow>
     inline_server \<Rightarrow> inline_server \<times> session_ref \<times> GenerateSuggestionsRequest" where
  "edit_send env start now sid p doc fc cur supplementalContext sv =
     (let req = \<lparr>req_fileContext = Some (toServiceModel fc), req_maxResults = (if ip_automatic p then 1 else 5),
                 req_nextToken = None, req_predictionTypes = Some [EDIT], req_workspaceId = env_workspaceId env,
                 req_editorState = Some (getEditorState (env_methods env) doc (ip_position p) (cfc_languageName fc)),
                 req_supplementalContexts = map_option fst supplementalContext\<rparr>;
          sv1 = edit_discard_active now cur sv;
          d = \<lparr>sd_document = doc, sd_startPreprocessTimestamp = start, sd_startPosition = ip_position p,
               sd_triggerType = (if ip_automatic p then AutoTrigger else OnDemand), sd_autoTriggerType = None,
               sd_triggerCharacter = Some [], sd_classifierResult = None, sd_classifierThreshold = None,
               sd_language = cfc_languageName fc, sd_requestContext = req,
               sd_credentialStartUrl = env_startUrl env,
               sd_customizationArn = undefinedIfEmpty (env_customizationArn env),
               sd_supplementalMetadata = map_option snd supplementalContext\<rparr>;
          (h, m, r) = createSession (sv_store sv1) (sv_edits sv1) d sid now
      in (sv1\<lparr>sv_store := h, sv_edits := m\<rparr>, r, req))"

section \<open>The response\<close>

definition edit_store_response :: "bool \<Rightarrow> int \<Rightarrow> GenerateSuggestionsResponse \<Rightarrow> CodeWhispererSession \<Rightarrow> CodeWhispererSession" where
  "edit_store_response isNew now resp s =
     (if isNew
      then (setTimeToFirstRecommendation
             (s\<lparr>suggestions := resp_suggestions resp, responseContext := Some (resp_responseContext resp),
                codewhispererSessionId := Some (rc_codewhispererSessionId (resp_responseContext resp))\<rparr>) now)
           \<lparr>predictionType := Some EDIT\<rparr>
      else s\<lparr>suggestions := suggestions s @ resp_suggestions resp\<rparr>)"

text \<open>
  One suggestion: it is dropped when it is like a rejected edit. The document is an optional argument
  of the method; without it the rejected edits of the document with the empty address are asked.
\<close>

definition edit_item_of ::
    "'a edit_env_scheme \<Rightarrow> RejectedEditTracker \<Rightarrow> text_document option \<Rightarrow> CodeWhispererSession \<Rightarrow> CachedSuggestion \<Rightarrow>
     edit_item \<times> bool" where
  "edit_item_of env rejected textDocument s g =
     (let content = (case sug_content g of None \<Rightarrow> [] | Some c \<Rightarrow> c);
          uri = (case textDocument of None \<Rightarrow> [] | Some d \<Rightarrow> td_uri d);
          similar = isSimilarToRejected (ee_distance env) DEFAULT_REJECTED_EDIT_TRACKER_CONFIG rejected content uri;
          right = (case req_fileContext (requestContext s) of None \<Rightarrow> [] | Some fc \<Rightarrow> fc_rightFileContent fc);
          (processed, kind) = processEditSuggestion (ee_parsePatch env) (ee_getText env (document s)) content
                                (startPosition s) right
      in (\<lparr>ei_insertText = (if similar then [] else processed), ei_isInlineEdit = (kind = EDIT),
           ei_itemId = sug_itemId g\<rparr>, similar))"

definition edit_processSuggestionResponse ::
    "'a edit_env_scheme \<Rightarrow> int \<Rightarrow> session_ref \<Rightarrow> bool \<Rightarrow> text_document option \<Rightarrow> GenerateSuggestionsResponse \<Rightarrow>
     inline_server \<Rightarrow> inline_server \<times> edit_list" where
  "edit_processSuggestionResponse env now r isNew textDocument resp sv =
     (let since = timeSinceLastUserModification (sv_listener sv);
          sv1 = modify_session r (edit_store_response isNew now resp) sv;
          sv2 = emitServiceInvocationTelemetry now r (rc_requestId (resp_responseContext resp)) sv1;
          sv3 = (if discardInflightSessionOnNewInvocation (session_of sv2 r)
                 then let a = modify_session r (\<lambda>s. s\<lparr>discardInflightSessionOnNewInvocation := False\<rparr>) sv2;
                          b = a\<lparr>sv_store := discardSession (sv_store a) r now\<rparr>;
                          (c, streak) = report_streak False b
                      in emitUserTriggerDecisionTelemetry now r
                           \<lparr>da_timeSinceLastUserModification = Some since, da_addedChars = Some 0,
                            da_deletedChars = Some 0, da_streakLength = Some streak, da_reason = None\<rparr> None c
                 else sv2);
          sv4 = sv3\<lparr>sv_store := activateSession (sv_store sv3) (sv_edits sv3) r\<rparr>
      in if length (resp_suggestions resp) = 0
         then let (h, m) = closeSession (sv_store sv4) (sv_edits sv4) r now;
                  sv5 = sv4\<lparr>sv_store := h, sv_edits := m\<rparr>;
                  (sv6, streak) = report_streak False sv5
              in (emitEmptyUserTriggerDecisionTelemetry now r since streak sv6, EMPTY_EDIT_RESULT)
         else let s = session_of sv4 r;
                  rs = map (edit_item_of env (sv_rejected sv4) textDocument s) (resp_suggestions resp);
                  sv5 = modify_session r
                          (record_states (map (\<lambda>(i, _). (ei_itemId i, UD_Reject)) (filter snd rs))) sv4
              in (sv5, \<lparr>el_items = filter (\<lambda>i. ei_insertText i \<noteq> []) (map fst rs), el_sessionId = session_id s,
                        el_partialResultToken = rc_nextToken (resp_responseContext resp)\<rparr>))"

definition edit_handleSuggestionsErrors ::
    "int \<Rightarrow> service_error \<Rightarrow> session_ref \<Rightarrow> inline_server \<Rightarrow> inline_server \<times> edit_list reply" where
  "edit_handleSuggestionsErrors now e r sv =
     (let sv1 = emitServiceInvocationFailure now r e sv;
          (h, m) = closeSession (sv_store sv1) (sv_edits sv1) r now
      in (sv1\<lparr>sv_store := h, sv_edits := m\<rparr>, translate_error e EMPTY_EDIT_RESULT))"

text \<open>
  The end of a request. Both callers leave the document argument out. A failure of a request for the
  next page closes the session that was current at its start (\<^verbatim>\<open>errorRef\<close>), not the one it created.
\<close>

definition edit_finish ::
    "'a edit_env_scheme \<Rightarrow> int \<Rightarrow> session_ref \<Rightarrow> session_ref \<Rightarrow> service_error + GenerateSuggestionsResponse \<Rightarrow>
     inline_server \<Rightarrow> inline_server \<times> edit_list reply" where
  "edit_finish env now r errorRef answer sv =
     (let (sv', reply) =
            (case answer of
               Inr resp \<Rightarrow> (case edit_processSuggestionResponse env now r True None resp sv of (sv1, l) \<Rightarrow> (sv1, Reply l))
             | Inl e \<Rightarrow> edit_handleSuggestionsErrors now e errorRef sv)
      in (sv'\<lparr>sv_editInProgress := False\<rparr>, reply))"

end
