(* ===== verification/Results_Handler.thy ===== *)
theory Results_Handler
  imports Inline_State
begin

text \<open>
  The handler of the results the client logs for a session
  (\<^verbatim>\<open>inline-completion/handler/sessionResultsHandler.ts\<close>): it counts what was accepted, remembers rejected edits,
  closes the session and reports its decision.
\<close>

section \<open>Definitions\<close>

text \<open>The parameters; the results are in the order of \<^verbatim>\<open>Object.keys\<close>.\<close>

record results_params =
  rp_sessionId :: string
  rp_results :: "(string \<times> InlineCompletionStates) list"
  rp_firstCompletionDisplayLatency :: "int option"
  rp_totalSessionDisplayTime :: "int option"
  rp_typeaheadLength :: "int option"
  rp_isInlineEdit :: bool
  rp_reason :: "string option"

definition enqueueCodeDiffEntry ::
    "int \<Rightarrow> CodeWhispererSession \<Rightarrow> CachedSuggestion \<Rightarrow> string option \<Rightarrow> inline_server \<Rightarrow> inline_server" where
  "enqueueCodeDiffEntry now s g addedCharactersForEdit sv =
     (let original = (case addedCharactersForEdit of
                        Some a \<Rightarrow> if a \<noteq> [] then Some a else sug_content g
                      | None \<Rightarrow> sug_content g)
      in sv\<lparr>sv_codeDiff := enqueue
           \<lparr>acc_fileUrl = td_uri (document s), acc_time = now,
            acc_originalString = (case original of None \<Rightarrow> [] | Some c \<Rightarrow> c),
            acc_startPosition = startPosition s,
            acc_endPosition = getEndPositionForAcceptedSuggestion (sug_content g) (startPosition s),
            acc_customizationArn = customizationArn s,
            acc_sessionId = or_else (codewhispererSessionId s) [],
            acc_requestId = or_else (Option.bind (responseContext s) rc_requestId) [],
            acc_languageId = language s, acc_completionType = getCompletionType (sug_content g),
            acc_triggerType = triggerType s, acc_credentialStartUrl = credentialStartUrl s\<rparr> (sv_codeDiff sv)\<rparr>)"

text \<open>The first key with an accepted result; the empty key is falsy.\<close>

definition accepted_item :: "(string \<times> InlineCompletionStates) list \<Rightarrow> string option" where
  "accepted_item res = map_option fst (List.find (\<lambda>(_, st). ics_accepted st) res)"

definition is_accepted :: "(string \<times> InlineCompletionStates) list \<Rightarrow> bool" where
  "is_accepted res \<longleftrightarrow> (case accepted_item res of None \<Rightarrow> False | Some i \<Rightarrow> i \<noteq> [])"

text \<open>An accepted suggestion: counted and enqueued. The added and deleted lengths of an edit come second.\<close>

definition count_accepted ::
    "int \<Rightarrow> CodeWhispererSession \<Rightarrow> (string \<times> InlineCompletionStates) list \<Rightarrow> inline_server \<Rightarrow>
     inline_server \<times> int \<times> int" where
  "count_accepted now s res sv =
     (case Option.bind (accepted_item res) (\<lambda>i. List.find (\<lambda>g. sug_itemId g = i) (suggestions s)) of
        None \<Rightarrow> (sv, 0, 0)
      | Some g \<Rightarrow>
          let lang = language s;
              sv1 = sv\<lparr>sv_cp := countSuccess lang (sv_cp sv)\<rparr>;
              content = (case sug_content g of None \<Rightarrow> [] | Some c \<Rightarrow> c);
              inserted = (case sug_insertText g of None \<Rightarrow> [] | Some t \<Rightarrow> t)
          in if predictionType s = Some EDIT \<and> content \<noteq> []
             then let (addedLines, deletedLines) = getAddedAndDeletedLines content;
                      cd = getCharacterDifferences addedLines deletedLines;
                      sv2 = sv1\<lparr>sv_cp := addTotalTokensForEdits lang (nat (charactersAdded cd))
                                   (countAcceptedTokensUsingCount lang (nat (charactersAdded cd)) (sv_cp sv1))\<rparr>
                  in (enqueueCodeDiffEntry now s g (Some (join_with [LF] addedLines)) sv2,
                      charactersAdded cd, charactersRemoved cd)
             else if inserted \<noteq> []
             then let sv2 = sv1\<lparr>sv_cp := countTotalTokens lang inserted True
                                   (countAcceptedTokens lang inserted (sv_cp sv1))\<rparr>
                  in (enqueueCodeDiffEntry now s g None sv2, 0, 0)
             else (sv1, 0, 0))"

text \<open>The seen and not accepted suggestions of an edit session with nothing accepted are remembered.\<close>

definition rejected_suggestions ::
    "(string \<times> InlineCompletionStates) list \<Rightarrow> CachedSuggestion list \<Rightarrow> CachedSuggestion list" where
  "rejected_suggestions res gs =
     filter (\<lambda>g. case map_get res (sug_itemId g) of None \<Rightarrow> False | Some st \<Rightarrow> ics_seen st \<and> \<not> ics_accepted st) gs"

definition record_rejected :: "int \<Rightarrow> CodeWhispererSession \<Rightarrow> CachedSuggestion \<Rightarrow> RejectedEditTracker \<Rightarrow> RejectedEditTracker" where
  "record_rejected now s g t =
     (case sug_content g of
        None \<Rightarrow> t
      | Some c \<Rightarrow>
          if c = [] then t
          else recordRejectedEdit DEFAULT_REJECTED_EDIT_TRACKER_CONFIG
                 \<lparr>rej_content = c, rej_timestamp = now, rej_documentUri = td_uri (document s),
                  rej_position = startPosition s\<rparr> t)"

definition remember_rejected :: "int \<Rightarrow> CodeWhispererSession \<Rightarrow> results_params \<Rightarrow> inline_server \<Rightarrow> inline_server" where
  "remember_rejected now s p sv =
     (if rp_isInlineEdit p \<and> \<not> is_accepted (rp_results p)
      then sv\<lparr>sv_rejected := fold (record_rejected now s) (rejected_suggestions (rp_results p) (suggestions s))
                (sv_rejected sv)\<rparr>
      else sv)"

definition rejection_reason :: "results_params \<Rightarrow> UserDecisionReason option" where
  "rejection_reason p =
     (if \<not> is_accepted (rp_results p) \<and> list_ex (\<lambda>(_, st). ics_seen st) (rp_results p)
      then Some (if rp_reason p = Some ''IMPLICIT_REJECT'' then ImplicitReject else ExplicitReject)
      else None)"

text \<open>The session with an id: the manager of edits is asked first. The flag tells whose session it is.\<close>

definition find_session :: "string \<Rightarrow> inline_server \<Rightarrow> (session_ref \<times> bool) option" where
  "find_session i sv =
     (case getSessionById (sv_store sv) (sv_edits sv) i of
        Some r \<Rightarrow> Some (r, True)
      | None \<Rightarrow> map_option (\<lambda>r. (r, False)) (getSessionById (sv_store sv) (sv_completions sv) i))"

definition close_in :: "bool \<Rightarrow> int \<Rightarrow> session_ref \<Rightarrow> inline_server \<Rightarrow> inline_server" where
  "close_in isEdit now r sv =
     (if isEdit
      then let (h, m) = closeSession (sv_store sv) (sv_edits sv) r now in sv\<lparr>sv_store := h, sv_edits := m\<rparr>
      else let (h, m) = closeSession (sv_store sv) (sv_completions sv) r now
           in sv\<lparr>sv_store := h, sv_completions := m\<rparr>)"

definition handleSessionResults :: "int \<Rightarrow> results_params \<Rightarrow> inline_server \<Rightarrow> inline_server" where
  "handleSessionResults now p sv =
     (case find_session (rp_sessionId p) sv of
        None \<Rightarrow> sv
      | Some (r, isEdit) \<Rightarrow>
          let s = session_of sv r
          in if state s \<noteq> ACTIVE then sv
             else let (sv1, added, deleted) = count_accepted now s (rp_results p) sv;
                      sv2 = remember_rejected now s p sv1;
                      sv3 = modify_session r
                              (\<lambda>s. setClientResultData s (rp_results p) (rp_firstCompletionDisplayLatency p)
                                     (rp_totalSessionDisplayTime p) (rp_typeaheadLength p)) sv2;
                      sv4 = (if rp_firstCompletionDisplayLatency p \<noteq> None \<and>
                                rp_firstCompletionDisplayLatency p \<noteq> Some 0
                             then emitPerceivedLatencyTelemetry r sv3 else sv3);
                      sv5 = close_in isEdit now r sv4;
                      (sv6, streak) = report_streak (is_accepted (rp_results p)) sv5
                  in emitUserTriggerDecisionTelemetry now r
                       \<lparr>da_timeSinceLastUserModification = Some (sv_timeSinceLastUserModification sv),
                        da_addedChars = Some added, da_deletedChars = Some deleted,
                        da_streakLength = Some streak, da_reason = rejection_reason p\<rparr>
                       (case rp_results p of [] \<Rightarrow> None | (i, _) # _ \<Rightarrow> Some i) sv6)"

end
