(* ===== verification/Inline_Server.thy ===== *)
theory Inline_Server
  imports Inline_Handler Edit_Handler Results_Handler
begin

text \<open>
  The inline-suggestion server (\<^verbatim>\<open>inline-completion/codeWhispererServer.ts\<close>): its initialisation, its handlers of
  configuration and document events, and how its handlers interleave. A handler that awaits leaves a
  \<^verbatim>\<open>waiting\<close> value behind; one step of the server is an event that arrives or a waiting handler that goes
  on, in any order.
\<close>

section \<open>Configuration and initialisation\<close>

record AmazonQWorkspaceConfig =
  cfg_customizationArn :: "string option"
  cfg_optOutTelemetryPreference :: string
  cfg_sendUserWrittenCodeMetrics :: bool

text \<open>\<^verbatim>\<open>getInstance\<close> makes the tracker on first use; turning the metrics off does not drop it.\<close>

definition updateConfiguration :: "AmazonQWorkspaceConfig \<Rightarrow> inline_server \<Rightarrow> inline_server" where
  "updateConfiguration cfg sv =
     (let sv1 = sv\<lparr>sv_cpCustomizationArn := cfg_customizationArn cfg\<rparr>;
          sv2 = (if cfg_sendUserWrittenCodeMetrics cfg
                 then sv1\<lparr>sv_uw := Some (case sv_uw sv1 of None \<Rightarrow> new_user_written | Some t \<Rightarrow> t)\<rparr> else sv1);
          sv3 = (if sv_uw sv2 \<noteq> None then sv2\<lparr>sv_uwCustomizationArn := cfg_customizationArn cfg\<rparr> else sv2)
      in sv3\<lparr>sv_optOutPreference := cfg_optOutTelemetryPreference cfg\<rparr>)"

text \<open>
  The state the factory closes over before \<^verbatim>\<open>onInitialized\<close>; \<^verbatim>\<open>onInitialized\<close> reads the client's edit support,
  brings the configuration up to date and builds the completion handler with the tracker of that time.
\<close>

definition new_server :: "(session_ref \<Rightarrow> CodeWhispererSession) \<Rightarrow> inline_server" where
  "new_server mem =
     \<lparr>sv_store = \<lparr>cells = mem, next_ref = 0\<rparr>, sv_completions = new_manager, sv_edits = new_manager,
      sv_cp = [], sv_cpCustomizationArn = None, sv_uw = None, sv_uwCustomizationArn = None,
      sv_inlineTracksUsage = False, sv_optOutPreference = [],
      sv_codeDiff = new_code_diff None None None, sv_rejected = new_rejected, sv_recent = new_edit_tracker,
      sv_cursor = new_cursor_tracker, sv_streak = new_streak,
      sv_listener = \<lparr>lastUserModificationTime = 0, timeSinceLastUserModification = 0\<rparr>,
      sv_lastUserModificationTime = 0, sv_timeSinceLastUserModification = 0, sv_editsEnabled = False,
      sv_inlineInProgress = False, sv_editInProgress = False, sv_events = [], sv_pendingReports = []\<rparr>"

definition onInitializedHandler :: "bool option \<Rightarrow> AmazonQWorkspaceConfig \<Rightarrow> inline_server \<Rightarrow> inline_server" where
  "onInitializedHandler inlineEditSupport cfg sv =
     (let sv1 = sv\<lparr>sv_editsEnabled := (case inlineEditSupport of None \<Rightarrow> False | Some b \<Rightarrow> b)\<rparr>;
          sv2 = updateConfiguration cfg sv1
      in sv2\<lparr>sv_inlineTracksUsage := (sv_uw sv2 \<noteq> None)\<rparr>)"

section \<open>Document events\<close>

text \<open>One content change: all tokens are counted; the user's own only when they are no suggestion's text.\<close>

definition from_suggestion :: "inline_server \<Rightarrow> string \<Rightarrow> bool" where
  "from_suggestion sv t \<longleftrightarrow>
     (case getCurrentSession (sv_completions sv) of
        None \<Rightarrow> False
      | Some r \<Rightarrow> list_ex (\<lambda>g. truthy (sug_insertText g) \<and> sug_insertText g = Some t) (suggestions (session_of sv r)))"

definition count_change :: "bool \<Rightarrow> string \<Rightarrow> real \<Rightarrow> string \<Rightarrow> inline_server \<Rightarrow> inline_server" where
  "count_change sendMetrics lang perf t sv =
     (let sv1 = sv\<lparr>sv_cp := countTotalTokens lang t False (sv_cp sv)\<rparr>
      in if sendMetrics \<and> \<not> from_suggestion sv1 t
         then sv1\<lparr>sv_uw := map_option (countUserWrittenTokens lang t perf) (sv_uw sv1)\<rparr> else sv1)"

definition onDidChangeTextDocument ::
    "bool \<Rightarrow> RecentEditTrackerConfig \<Rightarrow> int \<Rightarrow> real \<Rightarrow> string \<Rightarrow> string list \<Rightarrow> text_document option \<Rightarrow>
     inline_server \<Rightarrow> inline_server" where
  "onDidChangeTextDocument sendMetrics cfg now perf uri changes textDocument sv =
     (case (textDocument, getSupportedLanguageId textDocument supportedFileTypes) of
        (Some doc, Some lang) \<Rightarrow>
          let sv1 = fold (count_change sendMetrics lang perf) changes sv;
              sv2 = (if sv_lastUserModificationTime sv1 \<noteq> 0
                     then sv1\<lparr>sv_timeSinceLastUserModification := now - sv_lastUserModificationTime sv1\<rparr> else sv1);
              sv3 = sv2\<lparr>sv_lastUserModificationTime := now, sv_listener := onDocumentChanged (sv_listener sv2) now now\<rparr>
          in if sv_editsEnabled sv3
             then sv3\<lparr>sv_recent := handleDocumentChange cfg now (doc\<lparr>td_uri := uri\<rparr>) (sv_recent sv3)\<rparr>
             else sv3
      | _ \<Rightarrow> sv)"

definition onDidOpenTextDocument :: "text_document \<Rightarrow> inline_server \<Rightarrow> inline_server" where
  "onDidOpenTextDocument doc sv = sv\<lparr>sv_recent := handleDocumentOpen doc (sv_recent sv)\<rparr>"

definition onDidCloseTextDocument :: "string \<Rightarrow> inline_server \<Rightarrow> inline_server" where
  "onDidCloseTextDocument uri sv =
     sv\<lparr>sv_recent := handleDocumentClose uri (sv_recent sv), sv_cursor := clearHistory uri (sv_cursor sv)\<rparr>"

text \<open>The end of the server; disposing the percentage tracker only stops its timer.\<close>

definition dispose_server :: "int \<Rightarrow> inline_server \<Rightarrow> inline_server" where
  "dispose_server now sv =
     sv\<lparr>sv_uw := map_option uw_reset (sv_uw sv), sv_codeDiff := fst (shutdown now (sv_codeDiff sv)),
        sv_recent := dispose_edits (sv_recent sv), sv_cursor := dispose_cursors (sv_cursor sv),
        sv_rejected := dispose (sv_rejected sv)\<rparr>"

section \<open>Interleaved handlers\<close>

text \<open>Where a handler waits, with what it still needs.\<close>

datatype waiting =
    InlineDocument inline_params "session_ref option"
  | InlineContext inline_params prepared_request
  | InlineService session_ref bool "range option"
  | EditDocument inline_params "session_ref option"
  | EditContext inline_params text_document ClientFileContextClss "session_ref option" int
  | EditService session_ref session_ref

record server_run =
  run_server :: inline_server
  run_waiting :: "waiting list"

text \<open>
  A request for the next page names a session; any other goes on as a new request. An await can also
  fail: the completion handler then clears its flag in its \<^verbatim>\<open>finally\<close> block, the edit handler only once
  it has set it.
\<close>

definition wants_page :: "inline_params \<Rightarrow> session_ref option \<Rightarrow> bool" where
  "wants_page p cur \<longleftrightarrow> truthy (ip_partialResultToken p) \<and> cur \<noteq> None"

definition edit_abandon :: "inline_server \<Rightarrow> inline_server" where
  "edit_abandon sv = sv\<lparr>sv_editInProgress := False\<rparr>"

inductive server_step :: "server_run \<Rightarrow> server_run \<Rightarrow> bool" where
  inline_requested:
    "inline_start env now p sv = (sv', cur) \<Longrightarrow>
     server_step \<lparr>run_server = sv, run_waiting = W\<rparr>
       \<lparr>run_server = sv', run_waiting = W @ (case cur of None \<Rightarrow> [] | Some c \<Rightarrow> [InlineDocument p c])\<rparr>"
| inline_paged:
    "wants_page p (Some r) \<Longrightarrow>
     server_step \<lparr>run_server = sv, run_waiting = A @ InlineDocument p (Some r) # B\<rparr>
       \<lparr>run_server = sv, run_waiting = A @ InlineService r False (ip_selectionRange p) # B\<rparr>"
| inline_prepared:
    "\<not> wants_page p cur \<Longrightarrow> prepare_request env now p doc sv = Some pr \<Longrightarrow>
     server_step \<lparr>run_server = sv, run_waiting = A @ InlineDocument p cur # B\<rparr>
       \<lparr>run_server = sv, run_waiting = A @ InlineContext p pr # B\<rparr>"
| inline_declined:
    "\<not> wants_page p cur \<Longrightarrow> prepare_request env now p doc sv = None \<Longrightarrow>
     server_step \<lparr>run_server = sv, run_waiting = A @ InlineDocument p cur # B\<rparr>
       \<lparr>run_server = fst (inline_abandon sv), run_waiting = A @ B\<rparr>"
| inline_raised:
    "w = InlineDocument p cur \<or> w = InlineContext p pr \<Longrightarrow>
     server_step \<lparr>run_server = sv, run_waiting = A @ w # B\<rparr>
       \<lparr>run_server = fst (inline_abandon sv), run_waiting = A @ B\<rparr>"
| inline_sent:
    "send_request env now sid p pr ctx sv = (sv', r, req) \<Longrightarrow>
     server_step \<lparr>run_server = sv, run_waiting = A @ InlineContext p pr # B\<rparr>
       \<lparr>run_server = sv', run_waiting = A @ InlineService r True (ip_selectionRange p) # B\<rparr>"
| inline_answered:
    "server_step \<lparr>run_server = sv, run_waiting = A @ InlineService r isNew rng # B\<rparr>
       \<lparr>run_server = fst (inline_finish env now perf r isNew rng answer sv), run_waiting = A @ B\<rparr>"
| edit_requested:
    "edit_start now p sv = (sv', cur) \<Longrightarrow>
     server_step \<lparr>run_server = sv, run_waiting = W\<rparr>
       \<lparr>run_server = sv', run_waiting = W @ (case cur of None \<Rightarrow> [] | Some c \<Rightarrow> [EditDocument p c])\<rparr>"
| edit_declined:
    "edit_admit (eenv :: edit_env) doc sv = (sv', None) \<Longrightarrow>
     server_step \<lparr>run_server = sv, run_waiting = A @ EditDocument p cur # B\<rparr>
       \<lparr>run_server = sv', run_waiting = A @ B\<rparr>"
| edit_raised:
    "server_step \<lparr>run_server = sv, run_waiting = A @ EditDocument p cur # B\<rparr>
       \<lparr>run_server = sv, run_waiting = A @ B\<rparr>"
| edit_paged:
    "edit_admit (eenv :: edit_env) doc sv = (sv1, Some (d, lang)) \<Longrightarrow> wants_page p (Some c) \<Longrightarrow>
     edit_page start now sid p d c sv1 = (sv2, r, req) \<Longrightarrow>
     server_step \<lparr>run_server = sv, run_waiting = A @ EditDocument p (Some c) # B\<rparr>
       \<lparr>run_server = sv2, run_waiting = A @ EditService r c # B\<rparr>"
| edit_fired:
    "edit_admit (eenv :: edit_env) doc sv = (sv1, Some (d, lang)) \<Longrightarrow> \<not> wants_page p cur \<Longrightarrow>
     edit_should_fire eenv now clock outer p d lang sv1 = Fire fc \<Longrightarrow>
     server_step \<lparr>run_server = sv, run_waiting = A @ EditDocument p cur # B\<rparr>
       \<lparr>run_server = sv1, run_waiting = A @ EditContext p d fc cur start # B\<rparr>"
| edit_held:
    "edit_admit (eenv :: edit_env) doc sv = (sv1, Some (d, lang)) \<Longrightarrow> \<not> wants_page p cur \<Longrightarrow>
     (\<forall>fc. edit_should_fire eenv now clock outer p d lang sv1 \<noteq> Fire fc) \<Longrightarrow>
     server_step \<lparr>run_server = sv, run_waiting = A @ EditDocument p cur # B\<rparr>
       \<lparr>run_server = edit_abandon sv1, run_waiting = A @ B\<rparr>"
| edit_context_raised:
    "server_step \<lparr>run_server = sv, run_waiting = A @ EditContext p d fc cur start # B\<rparr>
       \<lparr>run_server = edit_abandon sv, run_waiting = A @ B\<rparr>"
| edit_sent:
    "edit_send (eenv :: edit_env) start now sid p d fc cur ctx sv = (sv', r, req) \<Longrightarrow>
     server_step \<lparr>run_server = sv, run_waiting = A @ EditContext p d fc cur start # B\<rparr>
       \<lparr>run_server = sv', run_waiting = A @ EditService r r # B\<rparr>"
| edit_answered:
    "server_step \<lparr>run_server = sv, run_waiting = A @ EditService r errorRef # B\<rparr>
       \<lparr>run_server = fst (edit_finish (eenv :: edit_env) now r errorRef answer sv), run_waiting = A @ B\<rparr>"
| report_settled:
    "r \<in> set (sv_pendingReports sv) \<Longrightarrow>
     server_step \<lparr>run_server = sv, run_waiting = W\<rparr> \<lparr>run_server = settle_report r sv, run_waiting = W\<rparr>"
| results_logged:
    "server_step \<lparr>run_server = sv, run_waiting = W\<rparr>
       \<lparr>run_server = handleSessionResults now rp sv, run_waiting = W\<rparr>"
| document_changed:
    "server_step \<lparr>run_server = sv, run_waiting = W\<rparr>
       \<lparr>run_server = onDidChangeTextDocument sendMetrics ecfg now perf uri changes doc sv, run_waiting = W\<rparr>"
| document_opened:
    "server_step \<lparr>run_server = sv, run_waiting = W\<rparr>
       \<lparr>run_server = onDidOpenTextDocument d sv, run_waiting = W\<rparr>"
| document_closed:
    "server_step \<lparr>run_server = sv, run_waiting = W\<rparr>
       \<lparr>run_server = onDidCloseTextDocument uri sv, run_waiting = W\<rparr>"
| configuration_changed:
    "server_step \<lparr>run_server = sv, run_waiting = W\<rparr>
       \<lparr>run_server = updateConfiguration cfg sv, run_waiting = W\<rparr>"

definition initial_run :: "(session_ref \<Rightarrow> CodeWhispererSession) \<Rightarrow> bool option \<Rightarrow> AmazonQWorkspaceConfig \<Rightarrow> server_run" where
  "initial_run mem inlineEditSupport cfg =
     \<lparr>run_server = onInitializedHandler inlineEditSupport cfg (new_server mem), run_waiting = []\<rparr>"

end
