(* ===== verification/Server_Reports.thy ===== *)
theory Server_Reports
  imports Inline_Server
begin

text \<open>
  What holds along every run of the inline-suggestion server, whatever the interleaving of its handlers:
  no decision is reported twice, and completion requests run one at a time.
\<close>

section \<open>How the store evolves\<close>

definition final :: "CodeWhispererSession \<Rightarrow> bool" where
  "final s \<longleftrightarrow> state s = CLOSED \<or> state s = DISCARD"

definition progress :: "CodeWhispererSession \<Rightarrow> CodeWhispererSession \<Rightarrow> bool" where
  "progress s s' \<longleftrightarrow> (final s \<longrightarrow> final s') \<and> (reportedUserDecision s \<longrightarrow> reportedUserDecision s') \<and>
     (state s' = REQUESTING \<longrightarrow> state s = REQUESTING)"

definition evolves :: "session_store \<Rightarrow> session_store \<Rightarrow> bool" where
  "evolves h h' \<longleftrightarrow> (\<forall>r<next_ref h. progress (cells h r) (cells h' r))"

lemma progress_refl [simp]: "progress s s"
  by (simp add: progress_def)

lemma progress_trans: "progress a b \<Longrightarrow> progress b c \<Longrightarrow> progress a c"
  by (auto simp: progress_def)

lemma progress_same: "state s' = state s \<Longrightarrow> reportedUserDecision s' = reportedUserDecision s \<Longrightarrow> progress s s'"
  by (simp add: progress_def final_def)

lemma progress_activate: "progress s (activate s)"
  by (simp add: progress_def final_def activate_def)

lemma final_close [simp]: "final (close s now)"
  by (simp add: final_def close_def Let_def)

lemma progress_close: "progress s (close s now)"
  by (simp add: progress_def) (simp add: close_def Let_def)

lemma final_discard [simp]: "final (discard s now)"
  by (simp add: final_def discard_def)

lemma progress_discard: "progress s (discard s now)"
  by (simp add: progress_def) (simp add: discard_def)

lemma progress_results: "progress s (setClientResultData s res a b c)"
  by (rule progress_same) (simp_all add: setClientResultData_def Let_def)

lemma progress_store_response: "progress s (store_response i n now resp s)"
  by (rule progress_same) (simp_all add: store_response_def setTimeToFirstRecommendation_def Let_def)

lemma progress_edit_store_response: "progress s (edit_store_response n now resp s)"
  by (rule progress_same) (simp_all add: edit_store_response_def setTimeToFirstRecommendation_def Let_def)

lemma record_states_simps [simp]:
  "state (record_states ds s) = state s"
  "reportedUserDecision (record_states ds s) = reportedUserDecision s"
  "suggestions (record_states ds s) = suggestions s"
  "session_id (record_states ds s) = session_id s"
  "predictionType (record_states ds s) = predictionType s"
  "suggestionsAfterRightContextMerge (record_states ds s) = suggestionsAfterRightContextMerge s"
  unfolding record_states_def by (induction ds arbitrary: s) (auto simp: setSuggestionState_def)

lemma progress_record_states: "progress s (record_states ds s)"
  by (rule progress_same) simp_all

lemma show_items_simps [simp]:
  "state (fst (show_items env rng resp s)) = state s"
  "reportedUserDecision (fst (show_items env rng resp s)) = reportedUserDecision s"
  "session_id (fst (show_items env rng resp s)) = session_id s"
  by (simp_all add: show_items_def Let_def split: prod.split)

lemma progress_show_items: "progress s (fst (show_items env rng resp s))"
  by (rule progress_same) simp_all

section \<open>Steps without a report\<close>

definition manager_refs :: "SessionManager \<Rightarrow> session_ref set" where
  "manager_refs m = set_option (currentSession m) \<union> set (sessionsLog m)"

definition same_refs :: "inline_server \<Rightarrow> inline_server \<Rightarrow> bool" where
  "same_refs sv sv' \<longleftrightarrow>
     next_ref (sv_store sv') = next_ref (sv_store sv) \<and>
     currentSession (sv_completions sv') = currentSession (sv_completions sv) \<and>
     currentSession (sv_edits sv') = currentSession (sv_edits sv) \<and>
     sessionsLog (sv_completions sv') = sessionsLog (sv_completions sv) \<and>
     sessionsLog (sv_edits sv') = sessionsLog (sv_edits sv)"

definition quiet :: "inline_server \<Rightarrow> inline_server \<Rightarrow> bool" where
  "quiet sv sv' \<longleftrightarrow>
     evolves (sv_store sv) (sv_store sv') \<and> reported sv' = reported sv \<and>
     sv_pendingReports sv' = sv_pendingReports sv"

lemma same_refs_refl [simp]: "same_refs sv sv"
  by (simp add: same_refs_def)

lemma same_refs_trans [trans]: "same_refs a b \<Longrightarrow> same_refs b c \<Longrightarrow> same_refs a c"
  by (simp add: same_refs_def)

lemma quiet_refl [simp]: "quiet sv sv"
  by (simp add: quiet_def evolves_def)

lemma quiet_trans: "quiet a b \<Longrightarrow> same_refs a b \<Longrightarrow> quiet b c \<Longrightarrow> quiet a c"
  unfolding quiet_def evolves_def same_refs_def using progress_trans by metis

lemma same_refs_modify [simp]: "same_refs sv (modify_session r f sv)"
  by (simp add: same_refs_def)

lemma quiet_modify: "(\<And>s. progress s (f s)) \<Longrightarrow> quiet sv (modify_session r f sv)"
  by (simp add: quiet_def evolves_def)

lemma quiet_fields:
  "sv_store sv' = sv_store sv \<Longrightarrow> sv_events sv' = sv_events sv \<Longrightarrow> sv_pendingReports sv' = sv_pendingReports sv
   \<Longrightarrow> quiet sv sv'"
  by (simp add: quiet_def evolves_def reported_def)

lemma same_refs_fields:
  "sv_store sv' = sv_store sv \<Longrightarrow> sv_completions sv' = sv_completions sv \<Longrightarrow> sv_edits sv' = sv_edits sv
   \<Longrightarrow> same_refs sv sv'"
  by (simp add: same_refs_def)

lemma quiet_emit: "decision_ref e = None \<Longrightarrow> quiet sv (emit e sv)"
  by (simp add: quiet_def evolves_def)

lemma same_refs_emit [simp]: "same_refs sv (emit e sv)"
  by (simp add: same_refs_def)

lemma closeSession_store: "fst (closeSession h m r now) = update_session r (\<lambda>s. close s now) h"
  by (simp add: closeSession_def Let_def split: option.split)

lemma closeSession_refs:
  "currentSession (snd (closeSession h m r now)) = currentSession m"
  "sessionsLog (snd (closeSession h m r now)) = sessionsLog m"
  by (simp_all add: closeSession_def Let_def split: option.split)

lemma discard_as_modify: "sv\<lparr>sv_store := discardSession (sv_store sv) r now\<rparr> = modify_session r (\<lambda>s. discard s now) sv"
  by (simp add: modify_session_def discardSession_def)

lemma quiet_discard: "quiet sv (sv\<lparr>sv_store := discardSession (sv_store sv) r now\<rparr>)"
  unfolding discard_as_modify by (rule quiet_modify) (rule progress_discard)

lemma same_refs_discard: "same_refs sv (sv\<lparr>sv_store := discardSession (sv_store sv) r now\<rparr>)"
  unfolding discard_as_modify by simp

lemma quiet_activate: "quiet sv (sv\<lparr>sv_store := activateSession (sv_store sv) m r\<rparr>)"
  by (simp add: quiet_def evolves_def activateSession_def update_session_def reported_def progress_activate)

lemma same_refs_activate: "same_refs sv (sv\<lparr>sv_store := activateSession (sv_store sv) m r\<rparr>)"
  by (simp add: same_refs_def activateSession_def)

lemma close_in_store: "sv_store (close_in e now r sv) = update_session r (\<lambda>s. close s now) (sv_store sv)"
  by (simp add: close_in_def split_def closeSession_store)

lemma quiet_close_in: "quiet sv (close_in e now r sv)"
proof -
  have "sv_events (close_in e now r sv) = sv_events sv" "sv_pendingReports (close_in e now r sv) = sv_pendingReports sv"
    by (simp_all add: close_in_def split_def)
  then show ?thesis
    by (simp add: quiet_def evolves_def close_in_store reported_def update_session_def progress_close)
qed

lemma same_refs_close_in: "same_refs sv (close_in e now r sv)"
  unfolding same_refs_def close_in_store by (simp add: close_in_def split_def closeSession_refs)

lemma final_close_in: "final (session_of (close_in e now r sv) r)"
  by (simp add: close_in_store update_session_def)

lemma close_completion_as:
  "(let (h, m) = closeSession (sv_store sv) (sv_completions sv) r now in sv\<lparr>sv_store := h, sv_completions := m\<rparr>)
   = close_in False now r sv"
  by (simp add: close_in_def)

lemma close_edit_as:
  "(let (h, m) = closeSession (sv_store sv) (sv_edits sv) r now in sv\<lparr>sv_store := h, sv_edits := m\<rparr>)
   = close_in True now r sv"
  by (simp add: close_in_def)

lemma report_streak_store: "sv_store (fst (report_streak a sv)) = sv_store sv"
  by (simp add: report_streak_def split_def Let_def)

lemma quiet_streak: "quiet sv (fst (report_streak a sv))"
  by (rule quiet_fields) (simp_all add: report_streak_def split_def Let_def)

lemma same_refs_streak: "same_refs sv (fst (report_streak a sv))"
  by (rule same_refs_fields) (simp_all add: report_streak_def split_def Let_def)

lemmas quiet_ops = quiet_discard quiet_activate quiet_close_in quiet_streak
lemmas same_refs_ops = same_refs_discard same_refs_activate same_refs_close_in same_refs_streak

section \<open>Reports\<close>

text \<open>
  The discipline of reports: every session is reported at most once; a reported session is marked or
  its mark is on its way; a session whose mark is on its way is final and neither a completion session
  (\<^verbatim>\<open>C\<close>) nor an edit session whose answer is awaited (\<^verbatim>\<open>F\<close>). \<^verbatim>\<open>E\<close> holds the other references in use.
\<close>

definition reports_ok :: "session_ref set \<Rightarrow> session_ref set \<Rightarrow> session_ref list \<Rightarrow> inline_server \<Rightarrow> bool" where
  "reports_ok C E F sv \<longleftrightarrow>
     distinct (reported sv) \<and>
     (\<forall>r\<in>set (reported sv). r < next_ref (sv_store sv) \<and>
        (reportedUserDecision (session_of sv r) \<or> r \<in> set (sv_pendingReports sv))) \<and>
     (\<forall>r\<in>set (sv_pendingReports sv). r < next_ref (sv_store sv) \<and> final (session_of sv r) \<and> r \<notin> C \<union> set F) \<and>
     distinct F \<and> (\<forall>r\<in>C \<union> E \<union> set F. r < next_ref (sv_store sv)) \<and> C \<inter> set F = {}"

lemma reports_ok_quiet: "reports_ok C E F sv \<Longrightarrow> quiet sv sv' \<Longrightarrow> same_refs sv sv' \<Longrightarrow> reports_ok C E F sv'"
  unfolding reports_ok_def quiet_def same_refs_def evolves_def progress_def by auto

lemma reports_ok_mono:
  "reports_ok C E F sv \<Longrightarrow> C' \<subseteq> C \<Longrightarrow> E' \<subseteq> C \<union> E \<union> set F \<Longrightarrow> set F' \<subseteq> set F \<Longrightarrow> distinct F' \<Longrightarrow> reports_ok C' E' F' sv"
  unfolding reports_ok_def by blast

lemma reported_pending [simp]: "reported (sv\<lparr>sv_pendingReports := ps\<rparr>) = reported sv"
  by (simp add: reported_def)

lemma emit_decision_store:
  "session_of (emitUserTriggerDecision now r d a sv) q =
     (if q = r then (session_of sv r)\<lparr>decisionMadeTimestamp := now\<rparr> else session_of sv q)"
  "next_ref (sv_store (emitUserTriggerDecision now r d a sv)) = next_ref (sv_store sv)"
  "reported (emitUserTriggerDecision now r d a sv) = reported sv @ [r]"
  "sv_pendingReports (emitUserTriggerDecision now r d a sv) = sv_pendingReports sv"
  "sv_completions (emitUserTriggerDecision now r d a sv) = sv_completions sv"
  "sv_edits (emitUserTriggerDecision now r d a sv) = sv_edits sv"
  by (simp_all add: emitUserTriggerDecision_def Let_def)

lemma final_timestamp [simp]: "final (s\<lparr>decisionMadeTimestamp := t\<rparr>) = final s"
  "final (s\<lparr>reportedUserDecision := b\<rparr>) = final s"
  by (simp_all add: final_def)

lemma report_same_refs [simp]: "same_refs sv (emitUserTriggerDecisionTelemetry now r a i sv)"
  unfolding emitUserTriggerDecisionTelemetry_def
  by (simp add: Let_def same_refs_def emit_decision_store split: option.split)

lemma report_session:
  "progress (session_of sv q) (session_of (emitUserTriggerDecisionTelemetry now r a i sv) q)"
  "state (session_of (emitUserTriggerDecisionTelemetry now r a i sv) q) = state (session_of sv q)"
  unfolding emitUserTriggerDecisionTelemetry_def
  by (auto simp add: Let_def emit_decision_store progress_def split: option.split)

lemma reports_ok_unmarked:
  assumes "reports_ok C E F sv" "r \<notin> set (sv_pendingReports sv)" "\<not> reportedUserDecision (session_of sv r)"
  shows "r \<notin> set (reported sv)"
  using assms unfolding reports_ok_def by blast

lemma reports_ok_report:
  assumes ok: "reports_ok C E F sv" and r: "r \<notin> set (sv_pendingReports sv)" "r < next_ref (sv_store sv)"
  shows "reports_ok C E F (emitUserTriggerDecisionTelemetry now r a i sv)"
proof -
  let ?d = "if predictionType (session_of sv r) = Some EDIT then getUserTriggerDecision (session_of sv r) i
            else getAggregatedUserTriggerDecision (session_of sv r)"
  show ?thesis
  proof (cases "reportedUserDecision (session_of sv r) \<or> ?d = None")
    case True
    then have "emitUserTriggerDecisionTelemetry now r a i sv = sv"
      unfolding emitUserTriggerDecisionTelemetry_def Let_def by (elim disjE) (simp_all only: if_True option.case if_cancel)
    then show ?thesis using ok by simp
  next
    case False
    then obtain d where d: "?d = Some d" and n: "\<not> reportedUserDecision (session_of sv r)" by blast
    have e: "emitUserTriggerDecisionTelemetry now r a i sv =
        modify_session r (\<lambda>s. s\<lparr>reportedUserDecision := True\<rparr>) (emitUserTriggerDecision now r d a sv)"
      unfolding emitUserTriggerDecisionTelemetry_def Let_def d using n by simp
    show ?thesis
      using ok r(2) reports_ok_unmarked [OF ok r(1) n] unfolding reports_ok_def e
      by (auto simp: emit_decision_store)
  qed
qed

text \<open>The report of an empty response: its session is final and no longer awaited.\<close>

lemma reports_ok_empty_report:
  assumes ok: "reports_ok C E (F1 @ r # F2) sv" and fin: "final (session_of sv r)"
  shows "reports_ok C E (F1 @ F2) (emitEmptyUserTriggerDecisionTelemetry now r since streak sv)"
proof -
  have r: "r \<notin> set (sv_pendingReports sv)" "r < next_ref (sv_store sv)"
    using ok unfolding reports_ok_def by auto
  have ok': "reports_ok C E (F1 @ F2) sv" by (rule reports_ok_mono [OF ok]) (use ok in \<open>auto simp: reports_ok_def\<close>)
  show ?thesis
  proof (cases "reportedUserDecision (session_of sv r)")
    case True
    then show ?thesis using ok' by (simp add: emitEmptyUserTriggerDecisionTelemetry_def)
  next
    case False
    show ?thesis
      using ok' fin r reports_ok_unmarked [OF ok r(1) False] ok False
      unfolding reports_ok_def emitEmptyUserTriggerDecisionTelemetry_def Let_def
      by (auto simp: emit_decision_store)
  qed
qed

lemma empty_report_same_refs [simp]: "same_refs sv (emitEmptyUserTriggerDecisionTelemetry now r since streak sv)"
  unfolding emitEmptyUserTriggerDecisionTelemetry_def
  by (simp add: Let_def same_refs_def emit_decision_store)

lemma reports_ok_settle: "reports_ok C E F sv \<Longrightarrow> reports_ok C E F (settle_report r sv)"
  unfolding reports_ok_def settle_report_def reported_def
  by (auto simp: modify_session_def update_session_def)

lemma settle_same_refs [simp]: "same_refs sv (settle_report r sv)"
  by (simp add: same_refs_def settle_report_def)

text \<open>A session that is not final can be reported: its mark is not on its way.\<close>

lemma reports_ok_discarding:
  assumes ok: "reports_ok C E F sv" and r: "r < next_ref (sv_store sv)" "\<not> final (session_of sv r)"
    and q: "quiet sv sv'" "same_refs sv sv'"
  shows "reports_ok C E F (emitUserTriggerDecisionTelemetry now r a i sv')"
proof (rule reports_ok_report)
  show "reports_ok C E F sv'" by (rule reports_ok_quiet [OF ok q])
  show "r \<notin> set (sv_pendingReports sv')" using ok r(2) q(1) unfolding reports_ok_def quiet_def by auto
  show "r < next_ref (sv_store sv')" using r(1) q(2) by (simp add: same_refs_def)
qed

section \<open>The handlers keep the discipline\<close>

lemma quiet_pending: "quiet sv sv' \<Longrightarrow> sv_pendingReports sv' = sv_pendingReports sv"
  by (simp add: quiet_def)

lemma same_refs_next: "same_refs sv sv' \<Longrightarrow> next_ref (sv_store sv') = next_ref (sv_store sv)"
  by (simp add: same_refs_def)

lemma report_pending [simp]:
  "sv_pendingReports (emitUserTriggerDecisionTelemetry now r a i sv) = sv_pendingReports sv"
  unfolding emitUserTriggerDecisionTelemetry_def
  by (simp add: Let_def emit_decision_store split: option.split)

text \<open>Discarding a session and reporting it: the step three places of the handlers share.\<close>

definition discard_and_report ::
    "int \<Rightarrow> session_ref \<Rightarrow> (int \<Rightarrow> decision_args) \<Rightarrow> inline_server \<Rightarrow> inline_server" where
  "discard_and_report now r args sv =
     (let (sv', streak) = report_streak False (sv\<lparr>sv_store := discardSession (sv_store sv) r now\<rparr>)
      in emitUserTriggerDecisionTelemetry now r (args streak) None sv')"

lemma discard_streak_quiet:
  "quiet sv (fst (report_streak False (sv\<lparr>sv_store := discardSession (sv_store sv) r now\<rparr>)))"
  "same_refs sv (fst (report_streak False (sv\<lparr>sv_store := discardSession (sv_store sv) r now\<rparr>)))"
  by (rule quiet_trans [OF quiet_discard same_refs_discard quiet_streak])
    (rule same_refs_trans [OF same_refs_discard same_refs_streak])

lemma discard_and_report_refs: "same_refs sv (discard_and_report now r args sv)"
  unfolding discard_and_report_def split_def Let_def
  by (rule same_refs_trans [OF discard_streak_quiet(2) report_same_refs])

lemma discard_and_report_pending: "sv_pendingReports (discard_and_report now r args sv) = sv_pendingReports sv"
  unfolding discard_and_report_def split_def Let_def
  using quiet_pending [OF discard_streak_quiet(1)] by simp

lemma discard_and_report_ok:
  assumes "reports_ok C E F sv" "r \<notin> set (sv_pendingReports sv)" "r < next_ref (sv_store sv)"
  shows "reports_ok C E F (discard_and_report now r args sv)"
  unfolding discard_and_report_def split_def Let_def
proof (rule reports_ok_report)
  show "reports_ok C E F (fst (report_streak False (sv\<lparr>sv_store := discardSession (sv_store sv) r now\<rparr>)))"
    by (rule reports_ok_quiet [OF assms(1) discard_streak_quiet])
qed (simp_all only: quiet_pending [OF discard_streak_quiet(1)] same_refs_next [OF discard_streak_quiet(2)] assms(2,3)
       not_False_eq_True)

lemma not_final_not_pending:
  "reports_ok C E F sv \<Longrightarrow> \<not> final (session_of sv r) \<Longrightarrow> r \<notin> set (sv_pendingReports sv)"
  unfolding reports_ok_def by blast

lemma discard_active_as:
  "\<exists>args. discard_active env now sv =
     (case getCurrentSession (sv_completions sv) of
        Some r \<Rightarrow> if state (session_of sv r) = ACTIVE \<and> env_ide env \<noteq> Some ''JETBRAINS''
                  then discard_and_report now r args sv else sv
      | None \<Rightarrow> sv)"
  unfolding discard_active_def discard_and_report_def split_def Let_def
  by (rule exI [of _ "\<lambda>streak. \<lparr>da_timeSinceLastUserModification = Some (sv_timeSinceLastUserModification sv),
                     da_addedChars = Some 0, da_deletedChars = Some 0, da_streakLength = Some streak,
                     da_reason = Some ImplicitReject\<rparr>"]) simp

lemma edit_discard_active_as:
  "\<exists>args. edit_discard_active now cur sv =
     (case cur of
        Some r \<Rightarrow> if state (session_of sv r) = ACTIVE then discard_and_report now r args sv else sv
      | None \<Rightarrow> sv)"
  unfolding edit_discard_active_def discard_and_report_def split_def Let_def
  by (rule exI [of _ "\<lambda>streak. \<lparr>da_timeSinceLastUserModification = Some (timeSinceLastUserModification (sv_listener sv)),
                     da_addedChars = Some 0, da_deletedChars = Some 0, da_streakLength = Some streak,
                     da_reason = None\<rparr>"]) simp

lemma discard_current_ok:
  assumes ok: "reports_ok C E F sv" and c: "set_option cur \<subseteq> C \<union> E \<union> set F"
    and x: "x = (case cur of Some r \<Rightarrow> if state (session_of sv r) = ACTIVE \<and> g then discard_and_report now r args sv else sv
                 | None \<Rightarrow> sv)"
  shows "reports_ok C E F x \<and> same_refs sv x"
proof (cases cur)
  case (Some r)
  have r: "r < next_ref (sv_store sv)" using ok c Some unfolding reports_ok_def by auto
  show ?thesis
  proof (cases "state (session_of sv r) = ACTIVE \<and> g")
    case True
    then have "\<not> final (session_of sv r)" by (simp add: final_def)
    then show ?thesis
      using True discard_and_report_ok [OF ok not_final_not_pending [OF ok] r] discard_and_report_refs
      by (simp add: x Some)
  next
    case False
    then have "x = sv" by (simp only: x Some option.case if_False)
    then show ?thesis using ok by simp
  qed
qed (simp add: x ok)

text \<open>A new session, in either manager.\<close>

lemma createSession_facts:
  assumes "createSession h m d sid now = (h', m', r)"
  shows "r = next_ref h" "next_ref h' = Suc (next_ref h)" "q \<noteq> next_ref h \<Longrightarrow> cells h' q = cells h q"
    "currentSession m' = Some r" "manager_refs m' \<subseteq> insert r (manager_refs m)"
    "state (cells h' r) = REQUESTING" "\<not> discardInflightSessionOnNewInvocation (cells h' r)"
proof -
  let ?s = "new_session d sid now"
  have s: "state ?s = REQUESTING" "\<not> discardInflightSessionOnNewInvocation ?s" by (simp_all add: new_session_def)
  show "r = next_ref h" "next_ref h' = Suc (next_ref h)" "q \<noteq> next_ref h \<Longrightarrow> cells h' q = cells h q"
    "currentSession m' = Some r" "manager_refs m' \<subseteq> insert r (manager_refs m)"
    using assms set_push_session [of r "sessionsLog m"] unfolding createSession_def Let_def manager_refs_def by auto
  show "state (cells h' r) = REQUESTING" "\<not> discardInflightSessionOnNewInvocation (cells h' r)"
    using assms s unfolding createSession_def Let_def by (auto split: option.splits)
qed

lemma reports_ok_create:
  assumes ok: "reports_ok C E F sv"
    and h: "next_ref (sv_store sv') = Suc (next_ref (sv_store sv))"
      "\<And>q. q \<noteq> next_ref (sv_store sv) \<Longrightarrow> session_of sv' q = session_of sv q"
    and e: "sv_events sv' = sv_events sv" "sv_pendingReports sv' = sv_pendingReports sv"
  shows "reports_ok (insert (next_ref (sv_store sv)) C) E F sv'" "reports_ok C E (next_ref (sv_store sv) # F) sv'"
proof -
  let ?n = "next_ref (sv_store sv)"
  have rep: "reported sv' = reported sv" by (simp add: reported_def e)
  have lt: "\<forall>r\<in>set (reported sv) \<union> set (sv_pendingReports sv) \<union> C \<union> E \<union> set F. r < ?n"
    using ok unfolding reports_ok_def by auto
  then have same: "\<forall>r\<in>set (reported sv) \<union> set (sv_pendingReports sv). session_of sv' r = session_of sv r"
    using h(2) by (metis UnCI less_irrefl)
  show "reports_ok (insert ?n C) E F sv'" "reports_ok C E (?n # F) sv'"
    using ok lt same unfolding reports_ok_def rep e h(1) by (auto simp: less_Suc_eq)
qed

text \<open>None of these steps touches the flag of the completion handler.\<close>

lemma flag_simps [simp]:
  "sv_inlineInProgress (modify_session r f sv) = sv_inlineInProgress sv"
  "sv_inlineInProgress (emit e sv) = sv_inlineInProgress sv"
  "sv_inlineInProgress (emitServiceInvocationTelemetry now r i sv) = sv_inlineInProgress sv"
  "sv_inlineInProgress (emitServiceInvocationFailure now r err sv) = sv_inlineInProgress sv"
  "sv_inlineInProgress (emitPerceivedLatencyTelemetry r sv) = sv_inlineInProgress sv"
  "sv_inlineInProgress (emitUserTriggerDecision now r d a sv) = sv_inlineInProgress sv"
  "sv_inlineInProgress (close_in b now r sv) = sv_inlineInProgress sv"
  "sv_inlineInProgress (fst (report_streak b sv)) = sv_inlineInProgress sv"
  "sv_inlineInProgress (settle_report r sv) = sv_inlineInProgress sv"
  "sv_inlineInProgress (edit_abandon sv) = sv_inlineInProgress sv"
  by (simp_all add: modify_session_def emit_def emitServiceInvocationTelemetry_def emitServiceInvocationFailure_def
    emitPerceivedLatencyTelemetry_def emitUserTriggerDecision_def close_in_def split_def report_streak_def
    settle_report_def edit_abandon_def Let_def)

lemma flag_report [simp]:
  "sv_inlineInProgress (emitUserTriggerDecisionTelemetry now r a i sv) = sv_inlineInProgress sv"
  "sv_inlineInProgress (emitEmptyUserTriggerDecisionTelemetry now r since streak sv) = sv_inlineInProgress sv"
  by (simp_all add: emitUserTriggerDecisionTelemetry_def emitEmptyUserTriggerDecisionTelemetry_def Let_def split: option.split)

lemma flag_discard_and_report [simp]: "sv_inlineInProgress (discard_and_report now r args sv) = sv_inlineInProgress sv"
  by (simp add: discard_and_report_def split_def Let_def)

text \<open>Both response handlers first store the response without a report, then may discard the session.\<close>

lemma stored_response_quiet:
  assumes "\<And>s. progress s (f s)"
    and "sv_store sv1 = sv_store sv" "sv_events sv1 = sv_events sv" "sv_pendingReports sv1 = sv_pendingReports sv"
    and "sv_completions sv1 = sv_completions sv" "sv_edits sv1 = sv_edits sv"
  shows "quiet sv (emitServiceInvocationTelemetry now r i (modify_session r f sv1))"
    "same_refs sv (emitServiceInvocationTelemetry now r i (modify_session r f sv1))"
proof -
  have 1: "quiet sv sv1" "same_refs sv sv1"
    using assms(2-) by (simp_all add: quiet_fields same_refs_fields)
  have 2: "quiet sv (modify_session r f sv1)" "same_refs sv (modify_session r f sv1)"
    by (rule quiet_trans [OF 1 quiet_modify [OF assms(1)]]) (rule same_refs_trans [OF 1(2) same_refs_modify])
  show "quiet sv (emitServiceInvocationTelemetry now r i (modify_session r f sv1))"
    "same_refs sv (emitServiceInvocationTelemetry now r i (modify_session r f sv1))"
    unfolding emitServiceInvocationTelemetry_def Let_def
    by (rule quiet_trans [OF 2 quiet_emit], simp) (rule same_refs_trans [OF 2(2) same_refs_emit])
qed

lemma unflag_quiet:
  "quiet sv (modify_session r (\<lambda>s. s\<lparr>discardInflightSessionOnNewInvocation := False\<rparr>) sv)"
  by (rule quiet_modify) (simp add: progress_same)

lemma receive_response_cases:
  obtains sv3 args where "quiet sv sv3" "same_refs sv sv3"
    "receive_response env now perf r isNew resp sv = sv3 \<or>
     receive_response env now perf r isNew resp sv = discard_and_report now r args sv3"
proof -
  let ?lang = "language (session_of sv r)"
  let ?sv1 = "sv\<lparr>sv_cp := countInvocation ?lang (sv_cp sv),
      sv_uw := (if sv_inlineTracksUsage sv then map_option (recordUsageCount ?lang perf) (sv_uw sv) else sv_uw sv)\<rparr>"
  let ?sv3 = "emitServiceInvocationTelemetry now r (rc_requestId (resp_responseContext resp))
      (modify_session r (store_response (env_includeImports env) isNew now resp) ?sv1)"
  let ?sv4 = "modify_session r (\<lambda>s. s\<lparr>discardInflightSessionOnNewInvocation := False\<rparr>) ?sv3"
  let ?args = "\<lambda>streak. \<lparr>da_timeSinceLastUserModification = Some (sv_timeSinceLastUserModification sv),
      da_addedChars = Some 0, da_deletedChars = Some 0, da_streakLength = Some streak, da_reason = Some ImplicitReject\<rparr>"
  have 3: "quiet sv ?sv3" "same_refs sv ?sv3"
    by (rule stored_response_quiet; simp add: progress_store_response)+
  have 4: "quiet sv ?sv4" "same_refs sv ?sv4"
    by (rule quiet_trans [OF 3 unflag_quiet]) (rule same_refs_trans [OF 3(2) same_refs_modify])
  have "receive_response env now perf r isNew resp sv =
      (if discardInflightSessionOnNewInvocation (session_of ?sv3 r) then discard_and_report now r ?args ?sv4 else ?sv3)"
    unfolding receive_response_def discard_and_report_def split_def Let_def by (rule refl)
  then show ?thesis using that [OF 3] that [OF 4] by metis
qed

lemma receive_response_ok:
  assumes ok: "reports_ok C E F sv" and r: "r \<notin> set (sv_pendingReports sv)" "r < next_ref (sv_store sv)"
  shows "reports_ok C E F (receive_response env now perf r isNew resp sv)"
    "same_refs sv (receive_response env now perf r isNew resp sv)"
    "sv_pendingReports (receive_response env now perf r isNew resp sv) = sv_pendingReports sv"
proof -
  let ?x = "receive_response env now perf r isNew resp sv"
  obtain sv3 args where 3: "quiet sv sv3" "same_refs sv sv3"
    and x: "?x = sv3 \<or> ?x = discard_and_report now r args sv3"
    by (rule receive_response_cases)
  have ok3: "reports_ok C E F sv3" by (rule reports_ok_quiet [OF ok 3])
  have r3: "r \<notin> set (sv_pendingReports sv3)" "r < next_ref (sv_store sv3)"
    using r quiet_pending [OF 3(1)] same_refs_next [OF 3(2)] by simp_all
  show "reports_ok C E F ?x" using x ok3 discard_and_report_ok [OF ok3 r3] by metis
  show "same_refs sv ?x" using x 3(2) same_refs_trans [OF 3(2) discard_and_report_refs] by metis
  show "sv_pendingReports ?x = sv_pendingReports sv"
    using x quiet_pending [OF 3(1)] discard_and_report_pending [of now r args sv3] by metis
qed

lemma show_quiet:
  "quiet sv (modify_session r (\<lambda>_. fst (show_items env rng resp (session_of sv r))) sv)"
  by (simp add: quiet_def evolves_def progress_show_items)

lemma processSuggestionResponse_ok:
  assumes ok: "reports_ok C E F sv" and r: "r \<notin> set (sv_pendingReports sv)" "r < next_ref (sv_store sv)"
  shows "reports_ok C E F (fst (processSuggestionResponse env now perf r isNew rng resp sv))
    \<and> same_refs sv (fst (processSuggestionResponse env now perf r isNew rng resp sv))"
proof -
  let ?sv1 = "receive_response env now perf r isNew resp sv"
  let ?sv2 = "?sv1\<lparr>sv_store := activateSession (sv_store ?sv1) (sv_completions ?sv1) r\<rparr>"
  let ?sv3 = "modify_session r (\<lambda>_. fst (show_items env rng resp (session_of ?sv2 r))) ?sv2"
  let ?sv4 = "close_in False now r ?sv3"
  let ?x = "fst (processSuggestionResponse env now perf r isNew rng resp sv)"
  note 1 = receive_response_ok [OF ok r, of env now perf isNew resp]
  have 3: "quiet ?sv1 ?sv3" "same_refs ?sv1 ?sv3"
    by (rule quiet_trans [OF quiet_activate same_refs_activate show_quiet])
      (rule same_refs_trans [OF same_refs_activate same_refs_modify])
  have 4: "quiet ?sv1 ?sv4" "same_refs ?sv1 ?sv4"
    by (rule quiet_trans [OF 3 quiet_close_in]) (rule same_refs_trans [OF 3(2) same_refs_close_in])
  have r4: "r \<notin> set (sv_pendingReports ?sv4)" "r < next_ref (sv_store ?sv4)"
    using r quiet_pending [OF 4(1)] same_refs_next [OF 4(2)] 1(3) same_refs_next [OF 1(2)] by simp_all
  note ok3 = reports_ok_quiet [OF 1(1) 3] and ok4 = reports_ok_quiet [OF 1(1) 4]
  have "?x = (if predictionType (session_of ?sv1 r) \<noteq> Some EDIT \<and>
        (state (session_of ?sv1 r) = CLOSED \<or> state (session_of ?sv1 r) = DISCARD) then ?sv1
      else if suggestionsAfterRightContextMerge (fst (show_items env rng resp (session_of ?sv2 r))) = [] \<and>
        \<not> truthy (rc_nextToken (resp_responseContext resp))
      then emitUserTriggerDecisionTelemetry now r (no_decision_args (sv_timeSinceLastUserModification sv)) None ?sv4
      else ?sv3)"
    unfolding processSuggestionResponse_def Let_def split_def close_in_def if_False if_distrib [of fst] fst_conv
    by (rule refl)
  then have "?x = ?sv1 \<or> ?x = ?sv3 \<or> (\<exists>a. ?x = emitUserTriggerDecisionTelemetry now r a None ?sv4)"
    by metis
  then show ?thesis
    using 1 ok3 reports_ok_report [OF ok4 r4] same_refs_trans [OF 1(2) 3(2)]
      same_refs_trans [OF same_refs_trans [OF 1(2) 4(2)] report_same_refs] by metis
qed

lemma failure_quiet:
  "quiet sv (close_in e now q (emitServiceInvocationFailure now r err sv))"
  "same_refs sv (close_in e now q (emitServiceInvocationFailure now r err sv))"
proof -
  have 1: "quiet sv (emitServiceInvocationFailure now r err sv)" "same_refs sv (emitServiceInvocationFailure now r err sv)"
    unfolding emitServiceInvocationFailure_def Let_def by (rule quiet_emit, simp) simp
  show "quiet sv (close_in e now q (emitServiceInvocationFailure now r err sv))"
    "same_refs sv (close_in e now q (emitServiceInvocationFailure now r err sv))"
    by (rule quiet_trans [OF 1 quiet_close_in]) (rule same_refs_trans [OF 1(2) same_refs_close_in])
qed

lemma handleSuggestionsErrors_as:
  "fst (handleSuggestionsErrors now e r sv) = close_in False now r (emitServiceInvocationFailure now r e sv)"
  "fst (edit_handleSuggestionsErrors now e r sv) = close_in True now r (emitServiceInvocationFailure now r e sv)"
  by (simp_all add: handleSuggestionsErrors_def edit_handleSuggestionsErrors_def close_in_def split_def Let_def)

lemma edit_response_cases:
  obtains sv4 args where "quiet sv sv4 \<and> same_refs sv sv4 \<or>
      (\<exists>sv3. quiet sv sv3 \<and> same_refs sv sv3 \<and> quiet (discard_and_report now r args sv3) sv4
         \<and> same_refs (discard_and_report now r args sv3) sv4)"
    "fst (edit_processSuggestionResponse env now r isNew doc resp sv) =
       (if length (resp_suggestions resp) = 0
        then emitEmptyUserTriggerDecisionTelemetry now r (timeSinceLastUserModification (sv_listener sv))
               (snd (report_streak False (close_in True now r sv4))) (fst (report_streak False (close_in True now r sv4)))
        else modify_session r (record_states (map (\<lambda>(i, _). (ei_itemId i, UD_Reject)) (filter snd
               (map (edit_item_of env (sv_rejected sv4) doc (session_of sv4 r)) (resp_suggestions resp))))) sv4)"
    "sv_inlineInProgress sv4 = sv_inlineInProgress sv"
proof -
  let ?since = "timeSinceLastUserModification (sv_listener sv)"
  define sv2 where "sv2 = emitServiceInvocationTelemetry now r (rc_requestId (resp_responseContext resp))
      (modify_session r (edit_store_response isNew now resp) sv)"
  define a where "a = modify_session r (\<lambda>s. s\<lparr>discardInflightSessionOnNewInvocation := False\<rparr>) sv2"
  define args where "args = (\<lambda>streak. \<lparr>da_timeSinceLastUserModification = Some ?since, da_addedChars = Some 0,
      da_deletedChars = Some 0, da_streakLength = Some streak, da_reason = None\<rparr>)"
  define sv3 where "sv3 = (if discardInflightSessionOnNewInvocation (session_of sv2 r)
      then discard_and_report now r args a else sv2)"
  define sv4 where "sv4 = sv3\<lparr>sv_store := activateSession (sv_store sv3) (sv_edits sv3) r\<rparr>"
  have 2: "quiet sv sv2" "same_refs sv sv2"
    unfolding sv2_def by (rule stored_response_quiet; simp add: progress_edit_store_response)+
  have a: "quiet sv a" "same_refs sv a"
    unfolding a_def by (rule quiet_trans [OF 2 unflag_quiet]) (rule same_refs_trans [OF 2(2) same_refs_modify])
  have 4: "quiet sv3 sv4" "same_refs sv3 sv4" unfolding sv4_def by (rule quiet_activate same_refs_activate)+
  have q: "quiet sv sv4 \<and> same_refs sv sv4 \<or> (\<exists>sv3. quiet sv sv3 \<and> same_refs sv sv3 \<and>
      quiet (discard_and_report now r args sv3) sv4 \<and> same_refs (discard_and_report now r args sv3) sv4)"
  proof (cases "discardInflightSessionOnNewInvocation (session_of sv2 r)")
    case True
    then have "sv3 = discard_and_report now r args a" by (simp add: sv3_def)
    then show ?thesis using a 4 by blast
  next
    case False
    then have "sv3 = sv2" by (simp add: sv3_def)
    then show ?thesis using quiet_trans [OF 2] same_refs_trans [OF 2(2)] 4 by blast
  qed
  have f: "sv_inlineInProgress sv4 = sv_inlineInProgress sv" by (simp add: sv4_def sv3_def a_def sv2_def)
  show ?thesis
    by (rule that [OF q _ f]) (simp only: edit_processSuggestionResponse_def discard_and_report_def Let_def split_def
      close_in_def if_True if_distrib [of fst] fst_conv sv4_def sv3_def sv2_def a_def args_def)
qed

lemma edit_processSuggestionResponse_ok:
  assumes ok: "reports_ok C E (F1 @ r # F2) sv"
  shows "reports_ok C E (F1 @ F2) (fst (edit_processSuggestionResponse env now r isNew doc resp sv))
    \<and> same_refs sv (fst (edit_processSuggestionResponse env now r isNew doc resp sv))"
proof -
  let ?x = "fst (edit_processSuggestionResponse env now r isNew doc resp sv)"
  have r: "r \<notin> set (sv_pendingReports sv)" "r < next_ref (sv_store sv)" using ok unfolding reports_ok_def by auto
  obtain sv4 args where 4: "quiet sv sv4 \<and> same_refs sv sv4 \<or>
      (\<exists>sv3. quiet sv sv3 \<and> same_refs sv sv3 \<and> quiet (discard_and_report now r args sv3) sv4
         \<and> same_refs (discard_and_report now r args sv3) sv4)"
    and x: "?x = (if length (resp_suggestions resp) = 0
        then emitEmptyUserTriggerDecisionTelemetry now r (timeSinceLastUserModification (sv_listener sv))
               (snd (report_streak False (close_in True now r sv4))) (fst (report_streak False (close_in True now r sv4)))
        else modify_session r (record_states (map (\<lambda>(i, _). (ei_itemId i, UD_Reject)) (filter snd
               (map (edit_item_of env (sv_rejected sv4) doc (session_of sv4 r)) (resp_suggestions resp))))) sv4)"
    by (rule edit_response_cases) (rule that)
  have ok4: "reports_ok C E (F1 @ r # F2) sv4 \<and> same_refs sv sv4"
    using 4
  proof (elim disjE exE conjE)
    fix sv3 assume 3: "quiet sv sv3" "same_refs sv sv3"
      and 4: "quiet (discard_and_report now r args sv3) sv4" "same_refs (discard_and_report now r args sv3) sv4"
    have r3: "r \<notin> set (sv_pendingReports sv3)" "r < next_ref (sv_store sv3)"
      using r quiet_pending [OF 3(1)] same_refs_next [OF 3(2)] by simp_all
    have ok3: "reports_ok C E (F1 @ r # F2) sv3" by (rule reports_ok_quiet [OF ok 3])
    show ?thesis
      using reports_ok_quiet [OF discard_and_report_ok [OF ok3 r3] 4]
        same_refs_trans [OF same_refs_trans [OF 3(2) discard_and_report_refs] 4(2)] by simp
  qed (use reports_ok_quiet [OF ok] in simp)
  let ?c = "fst (report_streak False (close_in True now r sv4))"
  have c: "quiet sv4 ?c" "same_refs sv4 ?c"
    by (rule quiet_trans [OF quiet_close_in same_refs_close_in quiet_streak])
      (rule same_refs_trans [OF same_refs_close_in same_refs_streak])
  have fin: "final (session_of ?c r)" by (simp only: report_streak_store final_close_in)
  have okc: "reports_ok C E (F1 @ r # F2) ?c" using reports_ok_quiet [OF _ c] ok4 by simp
  have refs: "same_refs sv ?c" using same_refs_trans [OF _ c(2)] ok4 by simp
  have ok5: "reports_ok C E (F1 @ F2) (modify_session r (record_states ds) sv4)" for ds
    by (rule reports_ok_quiet [OF reports_ok_mono [OF conjunct1 [OF ok4]] quiet_modify same_refs_modify])
      (use ok in \<open>auto simp: progress_record_states reports_ok_def\<close>)
  have "same_refs sv (modify_session r f sv4)" for f
    using same_refs_trans [OF _ same_refs_modify] ok4 by simp
  then show ?thesis
    using x ok5 reports_ok_empty_report [OF okc fin] same_refs_trans [OF refs empty_report_same_refs] by metis
qed

lemma edit_finish_ok:
  assumes ok: "reports_ok C E (F1 @ r # F2) sv"
  shows "reports_ok C E (F1 @ F2) (fst (edit_finish env now r q answer sv)) \<and> same_refs sv (fst (edit_finish env now r q answer sv))"
proof -
  have drop: "reports_ok C E (F1 @ F2) sv"
    by (rule reports_ok_mono [OF ok]) (use ok in \<open>auto simp: reports_ok_def\<close>)
  have flag: "quiet x (x\<lparr>sv_editInProgress := False\<rparr>)" "same_refs x (x\<lparr>sv_editInProgress := False\<rparr>)" for x
    by (simp_all add: quiet_fields same_refs_fields)
  have closing: "reports_ok C E (F1 @ F2) x \<and> same_refs sv x \<Longrightarrow>
      reports_ok C E (F1 @ F2) (x\<lparr>sv_editInProgress := False\<rparr>) \<and> same_refs sv (x\<lparr>sv_editInProgress := False\<rparr>)" for x
    using reports_ok_quiet [OF _ flag] same_refs_trans [OF _ flag(2)] by blast
  show ?thesis
  proof (cases answer)
    case (Inl e)
    show ?thesis
      unfolding edit_finish_def Inl sum.case split_def Let_def fst_conv handleSuggestionsErrors_as
      by (rule closing) (use reports_ok_quiet [OF drop failure_quiet] failure_quiet(2) in blast)
  next
    case (Inr resp)
    show ?thesis
      unfolding edit_finish_def Inr sum.case split_def Let_def fst_conv
      by (rule closing) (rule edit_processSuggestionResponse_ok [OF ok])
  qed
qed

lemma inline_finish_ok:
  assumes ok: "reports_ok C E F sv" and r: "r \<notin> set (sv_pendingReports sv)" "r < next_ref (sv_store sv)"
  shows "reports_ok C E F (fst (inline_finish env now perf r isNew rng answer sv))
    \<and> same_refs sv (fst (inline_finish env now perf r isNew rng answer sv))"
proof -
  have flag: "quiet x (x\<lparr>sv_inlineInProgress := False\<rparr>)" "same_refs x (x\<lparr>sv_inlineInProgress := False\<rparr>)" for x
    by (simp_all add: quiet_fields same_refs_fields)
  have closing: "reports_ok C E F x \<and> same_refs sv x \<Longrightarrow>
      reports_ok C E F (x\<lparr>sv_inlineInProgress := False\<rparr>) \<and> same_refs sv (x\<lparr>sv_inlineInProgress := False\<rparr>)" for x
    using reports_ok_quiet [OF _ flag] same_refs_trans [OF _ flag(2)] by blast
  show ?thesis
  proof (cases answer)
    case (Inl e)
    show ?thesis
      unfolding inline_finish_def Inl sum.case split_def Let_def fst_conv handleSuggestionsErrors_as
      by (rule closing) (use reports_ok_quiet [OF ok failure_quiet] failure_quiet(2) in blast)
  next
    case (Inr resp)
    show ?thesis
      unfolding inline_finish_def Inr sum.case split_def Let_def fst_conv
      by (rule closing) (rule processSuggestionResponse_ok [OF ok r])
  qed
qed

lemma counted_fields:
  "sv_store (fst (count_accepted now s res sv)) = sv_store sv \<and> sv_events (fst (count_accepted now s res sv)) = sv_events sv \<and>
   sv_pendingReports (fst (count_accepted now s res sv)) = sv_pendingReports sv \<and>
   sv_completions (fst (count_accepted now s res sv)) = sv_completions sv \<and>
   sv_edits (fst (count_accepted now s res sv)) = sv_edits sv"
  by (simp add: count_accepted_def enqueueCodeDiffEntry_def Let_def split_def split: option.split)

lemma flag_counted: "sv_inlineInProgress (fst (count_accepted now s res sv)) = sv_inlineInProgress sv"
  by (simp add: count_accepted_def enqueueCodeDiffEntry_def Let_def split_def split: option.split)

lemma counted_quiet:
  "quiet sv (remember_rejected now s p (fst (count_accepted now s res sv)))"
  "same_refs sv (remember_rejected now s p (fst (count_accepted now s res sv)))"
  using counted_fields [of now s res sv]
  by (simp_all add: quiet_fields same_refs_fields remember_rejected_def)

lemma find_session_refs:
  assumes "find_session i sv = Some (r, e)"
  shows "r \<in> manager_refs (sv_completions sv) \<union> manager_refs (sv_edits sv)"
proof -
  have get: "getSessionById h m i = Some r \<Longrightarrow> r \<in> manager_refs m" for h m
    unfolding getSessionById_def manager_refs_def by (auto simp: find_Some_iff split: option.splits if_splits)
  then show ?thesis using assms unfolding find_session_def by (auto split: option.splits)
qed

lemma handleSessionResults_as:
  obtains "handleSessionResults now p sv = sv"
  | r e sv5 a i where "find_session (rp_sessionId p) sv = Some (r, e)" "state (session_of sv r) = ACTIVE"
      "quiet sv sv5" "same_refs sv sv5" "final (session_of sv5 r)" "sv_inlineInProgress sv5 = sv_inlineInProgress sv"
      "handleSessionResults now p sv = emitUserTriggerDecisionTelemetry now r a i sv5"
proof (cases "find_session (rp_sessionId p) sv")
  case None
  then show ?thesis using that(1) by (simp add: handleSessionResults_def)
next
  case (Some x)
  obtain r e where x: "x = (r, e)" by (cases x)
  show ?thesis
  proof (cases "state (session_of sv r) = ACTIVE")
    case False
    then show ?thesis using that(1) by (simp add: handleSessionResults_def Some x)
  next
    case True
    define s where "s = session_of sv r"
    define sv2 where "sv2 = remember_rejected now s p (fst (count_accepted now s (rp_results p) sv))"
    define sv3 where "sv3 = modify_session r (\<lambda>s. setClientResultData s (rp_results p)
      (rp_firstCompletionDisplayLatency p) (rp_totalSessionDisplayTime p) (rp_typeaheadLength p)) sv2"
    define sv4 where "sv4 = (if rp_firstCompletionDisplayLatency p \<noteq> None \<and> rp_firstCompletionDisplayLatency p \<noteq> Some 0
      then emitPerceivedLatencyTelemetry r sv3 else sv3)"
    define sv5 where "sv5 = fst (report_streak (is_accepted (rp_results p)) (close_in e now r sv4))"
    have 2: "quiet sv sv2" "same_refs sv sv2" unfolding sv2_def by (rule counted_quiet)+
    have 3: "quiet sv2 sv3" "same_refs sv2 sv3"
      unfolding sv3_def by (rule quiet_modify, rule progress_results) simp
    have 4: "quiet sv3 sv4" "same_refs sv3 sv4"
      unfolding sv4_def by (simp_all add: emitPerceivedLatencyTelemetry_def Let_def quiet_emit)
    have 5: "quiet sv4 sv5" "same_refs sv4 sv5"
      unfolding sv5_def by (rule quiet_trans [OF quiet_close_in same_refs_close_in quiet_streak])
        (rule same_refs_trans [OF same_refs_close_in same_refs_streak])
    have s4: "same_refs sv sv4" by (rule same_refs_trans [OF same_refs_trans [OF 2(2) 3(2)] 4(2)])
    have q4: "quiet sv sv4" by (rule quiet_trans [OF quiet_trans [OF 2 3(1)] same_refs_trans [OF 2(2) 3(2)] 4(1)])
    have q: "quiet sv sv5" "same_refs sv sv5" by (rule quiet_trans [OF q4 s4 5(1)], rule same_refs_trans [OF s4 5(2)])
    have fin: "final (session_of sv5 r)" by (simp only: sv5_def report_streak_store final_close_in)
    have flag: "sv_inlineInProgress sv5 = sv_inlineInProgress sv"
      by (simp add: sv5_def sv4_def sv3_def sv2_def remember_rejected_def flag_counted)
    show ?thesis
      by (rule that(2) [OF _ True q fin flag])
        (simp_all only: Some x handleSessionResults_def option.case prod.case True simp_thms if_False
          Let_def split_def fst_conv snd_conv sv5_def sv4_def sv3_def sv2_def s_def)
  qed
qed

lemma handleSessionResults_ok:
  assumes ok: "reports_ok C E F sv"
    and m: "manager_refs (sv_completions sv) \<union> manager_refs (sv_edits sv) \<subseteq> C \<union> E \<union> set F"
  shows "reports_ok C E F (handleSessionResults now p sv) \<and> same_refs sv (handleSessionResults now p sv)"
proof (rule handleSessionResults_as [of now p sv])
  fix r e sv5 a i
  assume f: "find_session (rp_sessionId p) sv = Some (r, e)" and s: "state (session_of sv r) = ACTIVE"
    and q: "quiet sv sv5" "same_refs sv sv5"
    and h: "handleSessionResults now p sv = emitUserTriggerDecisionTelemetry now r a i sv5"
  have "r < next_ref (sv_store sv)" using ok m find_session_refs [OF f] unfolding reports_ok_def by blast
  moreover have "\<not> final (session_of sv r)" using s by (simp add: final_def)
  ultimately show ?thesis
    unfolding h using reports_ok_discarding [OF ok _ _ q] same_refs_trans [OF q(2) report_same_refs] by blast
qed (use ok in simp)

lemma create_split:
  assumes "(case c of (h, m, r) \<Rightarrow> (f h m r, r, g h m r)) = (sv', r', req)"
  obtains h m where "c = (h, m, r')" "sv' = f h m r'"
  using assms by (cases c) simp

lemma send_request_ok:
  assumes ok: "reports_ok C E F sv" and m: "manager_refs (sv_completions sv) \<subseteq> C"
    and s: "send_request env now sid p pr ctx sv = (sv', r, req)"
  shows "reports_ok (insert r C) E F sv'" "r = next_ref (sv_store sv)"
    "manager_refs (sv_completions sv') \<subseteq> insert r (manager_refs (sv_completions sv))" "sv_edits sv' = sv_edits sv"
proof -
  let ?sv1 = "discard_active env now sv"
  obtain args where "?sv1 =
     (case getCurrentSession (sv_completions sv) of
        Some r \<Rightarrow> if state (session_of sv r) = ACTIVE \<and> env_ide env \<noteq> Some ''JETBRAINS''
                  then discard_and_report now r args sv else sv
      | None \<Rightarrow> sv)" using discard_active_as by blast
  moreover have "set_option (getCurrentSession (sv_completions sv)) \<subseteq> C \<union> E \<union> set F"
    using m by (auto simp: manager_refs_def getCurrentSession_def)
  ultimately have 1: "reports_ok C E F ?sv1 \<and> same_refs sv ?sv1" using discard_current_ok [OF ok] by blast
  have e: "sv_edits ?sv1 = sv_edits sv"
    unfolding discard_active_def by (simp add: report_streak_def split_def Let_def emitUserTriggerDecisionTelemetry_def
      emit_decision_store split: option.split)
  obtain h m' d where c: "createSession (sv_store ?sv1) (sv_completions ?sv1) d sid now = (h, m', r)"
    and sv': "sv' = ?sv1\<lparr>sv_store := h, sv_completions := m'\<rparr>"
    by (rule create_split [OF s [unfolded send_request_def Let_def]]) (rule that)
  note f = createSession_facts [OF c]
  show "r = next_ref (sv_store sv)" using f(1) 1 by (simp add: same_refs_def)
  show "reports_ok (insert r C) E F sv'"
    unfolding f(1) sv' by (rule reports_ok_create(1) [OF conjunct1 [OF 1]]) (simp_all add: f(2,3))
  show "manager_refs (sv_completions sv') \<subseteq> insert r (manager_refs (sv_completions sv))"
    using f(5) 1 by (simp add: sv' manager_refs_def same_refs_def)
  show "sv_edits sv' = sv_edits sv" by (simp add: sv' e)
qed

lemma edit_send_ok:
  assumes ok: "reports_ok C E F sv" and m: "set_option cur \<subseteq> C \<union> E \<union> set F"
    and s: "edit_send env start now sid p doc fc cur ctx sv = (sv', r, req)"
  shows "reports_ok C E (r # F) sv'" "r = next_ref (sv_store sv)"
    "manager_refs (sv_edits sv') \<subseteq> insert r (manager_refs (sv_edits sv))" "sv_completions sv' = sv_completions sv"
proof -
  let ?sv1 = "edit_discard_active now cur sv"
  obtain args where "?sv1 =
     (case cur of Some r \<Rightarrow> if state (session_of sv r) = ACTIVE \<and> True then discard_and_report now r args sv else sv
      | None \<Rightarrow> sv)" using edit_discard_active_as by (metis (full_types) simp_thms(21))
  then have 1: "reports_ok C E F ?sv1 \<and> same_refs sv ?sv1" using discard_current_ok [OF ok m] by blast
  have e: "sv_completions ?sv1 = sv_completions sv"
    unfolding edit_discard_active_def by (simp add: report_streak_def split_def Let_def emitUserTriggerDecisionTelemetry_def
      emit_decision_store split: option.split)
  obtain h m' d where c: "createSession (sv_store ?sv1) (sv_edits ?sv1) d sid now = (h, m', r)"
    and sv': "sv' = ?sv1\<lparr>sv_store := h, sv_edits := m'\<rparr>"
    by (rule create_split [OF s [unfolded edit_send_def Let_def]]) (rule that)
  note f = createSession_facts [OF c]
  show "r = next_ref (sv_store sv)" using f(1) 1 by (simp add: same_refs_def)
  show "reports_ok C E (r # F) sv'"
    unfolding f(1) sv' by (rule reports_ok_create(2) [OF conjunct1 [OF 1]]) (simp_all add: f(2,3))
  show "manager_refs (sv_edits sv') \<subseteq> insert r (manager_refs (sv_edits sv))"
    using f(5) 1 by (simp add: sv' manager_refs_def same_refs_def)
  show "sv_completions sv' = sv_completions sv" by (simp add: sv' e)
qed

lemma edit_page_ok:
  assumes ok: "reports_ok C E F sv" and s: "edit_page start now sid p doc cur sv = (sv', r, req)"
  shows "reports_ok C E (r # F) sv'" "r = next_ref (sv_store sv)"
    "manager_refs (sv_edits sv') \<subseteq> insert r (manager_refs (sv_edits sv))" "sv_completions sv' = sv_completions sv"
proof -
  let ?sv1 = "if state (session_of sv cur) = ACTIVE then sv\<lparr>sv_store := discardSession (sv_store sv) cur now\<rparr> else sv"
  have q: "quiet sv ?sv1" "same_refs sv ?sv1" by (simp_all add: quiet_discard same_refs_discard)
  note 1 = reports_ok_quiet [OF ok q]
  obtain h m' d where c: "createSession (sv_store ?sv1) (sv_edits ?sv1) d sid now = (h, m', r)"
    and sv': "sv' = ?sv1\<lparr>sv_store := h, sv_edits := m'\<rparr>"
    by (rule create_split [OF s [unfolded edit_page_def Let_def]]) (rule that)
  note f = createSession_facts [OF c]
  show "r = next_ref (sv_store sv)" using f(1) same_refs_next [OF q(2)] by simp
  show "reports_ok C E (r # F) sv'"
    unfolding f(1) sv' by (rule reports_ok_create(2) [OF 1]) (simp_all add: f(2,3))
  show "manager_refs (sv_edits sv') \<subseteq> insert r (manager_refs (sv_edits sv))"
    using f(5) by (simp add: sv' split: if_splits)
  show "sv_completions sv' = sv_completions sv" by (simp add: sv')
qed

section \<open>The invariant of a run\<close>

fun inline_refs :: "waiting \<Rightarrow> session_ref set" where
  "inline_refs (InlineDocument p cur) = set_option cur"
| "inline_refs (InlineService r isNew rng) = {r}"
| "inline_refs _ = {}"

fun edit_refs :: "waiting \<Rightarrow> session_ref set" where
  "edit_refs (EditDocument p cur) = set_option cur"
| "edit_refs (EditContext p d fc cur start) = set_option cur"
| "edit_refs (EditService r q) = {q}"
| "edit_refs _ = {}"

fun flight :: "waiting \<Rightarrow> session_ref list" where
  "flight (EditService r q) = [r]"
| "flight _ = []"

definition completion_refs :: "inline_server \<Rightarrow> waiting list \<Rightarrow> session_ref set" where
  "completion_refs sv W = manager_refs (sv_completions sv) \<union> \<Union> (inline_refs ` set W)"

definition other_refs :: "inline_server \<Rightarrow> waiting list \<Rightarrow> session_ref set" where
  "other_refs sv W = manager_refs (sv_edits sv) \<union> \<Union> (edit_refs ` set W)"

definition run_ok :: "server_run \<Rightarrow> bool" where
  "run_ok R \<longleftrightarrow> reports_ok (completion_refs (run_server R) (run_waiting R)) (other_refs (run_server R) (run_waiting R))
     (concat (map flight (run_waiting R))) (run_server R)"

lemmas run_defs = run_ok_def completion_refs_def other_refs_def

text \<open>A step that keeps the managers and changes the waiting handlers.\<close>

lemma run_ok_step:
  assumes "reports_ok C E F sv" "C = completion_refs sv0 W" "E = other_refs sv0 W" "F = concat (map flight W)"
    and "same_refs sv0 sv"
    and "\<Union> (inline_refs ` set W') \<subseteq> C" "\<Union> (edit_refs ` set W') \<subseteq> C \<union> E \<union> set F"
    and "set (concat (map flight W')) \<subseteq> set F" "distinct (concat (map flight W'))"
  shows "run_ok \<lparr>run_server = sv, run_waiting = W'\<rparr>"
proof -
  have m: "manager_refs (sv_completions sv) \<subseteq> C" "manager_refs (sv_edits sv) \<subseteq> E"
    using assms(2,3,5) by (auto simp: completion_refs_def other_refs_def manager_refs_def same_refs_def)
  show ?thesis
    unfolding run_ok_def server_run.simps
    by (rule reports_ok_mono [OF assms(1)]) (use assms(6-) m in \<open>auto simp: completion_refs_def other_refs_def\<close>)
qed

lemma distinct_flight: "run_ok \<lparr>run_server = sv, run_waiting = W\<rparr> \<Longrightarrow> distinct (concat (map flight W))"
  by (simp add: run_ok_def reports_ok_def)

lemma run_ok_quiet:
  assumes ok: "run_ok \<lparr>run_server = sv, run_waiting = W\<rparr>" and q: "quiet sv sv'" "same_refs sv sv'"
    and W: "\<Union> (inline_refs ` set W') \<subseteq> completion_refs sv W"
      "\<Union> (edit_refs ` set W') \<subseteq> completion_refs sv W \<union> other_refs sv W" "concat (map flight W') = concat (map flight W)"
  shows "run_ok \<lparr>run_server = sv', run_waiting = W'\<rparr>"
proof (rule run_ok_step [OF _ refl refl refl q(2)])
  show "reports_ok (completion_refs sv W) (other_refs sv W) (concat (map flight W)) sv'"
    using reports_ok_quiet [OF _ q] ok by (simp add: run_ok_def)
qed (use W distinct_flight [OF ok] in auto)

text \<open>The start of both handlers: a session that is still requesting is marked, the cursor is tracked.\<close>

lemma started_quiet:
  fixes sv :: inline_server and cur :: "session_ref option" and b :: "session_ref \<Rightarrow> bool"
  defines "sv2 \<equiv> (case cur of
      Some r \<Rightarrow> if b r then modify_session r (\<lambda>s. s\<lparr>discardInflightSessionOnNewInvocation := True\<rparr>) sv else sv
    | None \<Rightarrow> sv)"
  shows "quiet sv (sv2\<lparr>sv_cursor := t\<rparr>)" "same_refs sv (sv2\<lparr>sv_cursor := t\<rparr>)"
proof -
  have m: "quiet sv (modify_session r (\<lambda>s. s\<lparr>discardInflightSessionOnNewInvocation := True\<rparr>) sv)" for r
    by (rule quiet_modify) (simp add: progress_same)
  have 2: "quiet sv sv2" "same_refs sv sv2" using m by (auto simp: sv2_def split: option.split)
  have 3: "quiet sv2 (sv2\<lparr>sv_cursor := t\<rparr>)" "same_refs sv2 (sv2\<lparr>sv_cursor := t\<rparr>)"
    by (simp_all add: quiet_fields same_refs_fields)
  show "quiet sv (sv2\<lparr>sv_cursor := t\<rparr>)" "same_refs sv (sv2\<lparr>sv_cursor := t\<rparr>)"
    by (rule quiet_trans [OF 2 3(1)], rule same_refs_trans [OF 2(2) 3(2)])
qed

lemma inline_start_quiet:
  assumes "inline_start env now p sv = (sv', c)"
  shows "quiet sv sv'" "same_refs sv sv'" "c = Some cur \<Longrightarrow> cur = currentSession (sv_completions sv)"
proof -
  let ?sv1 = "sv\<lparr>sv_inlineInProgress := True\<rparr>"
  have 1: "quiet sv ?sv1" "same_refs sv ?sv1" by (simp_all add: quiet_fields same_refs_fields)
  have "sv' = sv \<or> quiet ?sv1 sv' \<and> same_refs ?sv1 sv'"
    using assms started_quiet [where sv = ?sv1 and cur = "currentSession (sv_completions sv)"]
    unfolding inline_start_def getCurrentSession_def Let_def by (auto split: if_splits)
  then show "quiet sv sv'" "same_refs sv sv'" using quiet_trans [OF 1] same_refs_trans [OF 1(2)] by auto
  show "c = Some cur \<Longrightarrow> cur = currentSession (sv_completions sv)"
    using assms unfolding inline_start_def getCurrentSession_def Let_def by (auto split: if_splits)
qed

lemma edit_start_quiet:
  assumes "edit_start now p sv = (sv', c)"
  shows "quiet sv sv'" "same_refs sv sv'" "c = Some cur \<Longrightarrow> cur = currentSession (sv_edits sv)"
proof -
  have "sv' = sv \<or> quiet sv sv' \<and> same_refs sv sv'"
    using assms started_quiet [where sv = sv and cur = "currentSession (sv_edits sv)"]
    unfolding edit_start_def getCurrentSession_def Let_def by (auto split: if_splits)
  then show "quiet sv sv'" "same_refs sv sv'" by auto
  show "c = Some cur \<Longrightarrow> cur = currentSession (sv_edits sv)"
    using assms unfolding edit_start_def getCurrentSession_def Let_def by (auto split: if_splits)
qed

lemma edit_admit_fields:
  assumes "edit_admit env doc sv = (sv', x)"
  shows "sv' = sv \<or> sv' = sv\<lparr>sv_editInProgress := True\<rparr>"
  using assms unfolding edit_admit_def by (auto split: option.splits if_splits)

lemma edit_admit_quiet:
  assumes "edit_admit env doc sv = (sv', x)"
  shows "quiet sv sv'" "same_refs sv sv'"
  using edit_admit_fields [OF assms] by (auto simp: quiet_fields same_refs_fields)

lemma abandon_quiet:
  "quiet sv (fst (inline_abandon sv))" "same_refs sv (fst (inline_abandon sv))"
  "quiet sv (edit_abandon sv)" "same_refs sv (edit_abandon sv)"
  by (simp_all add: quiet_fields same_refs_fields inline_abandon_def edit_abandon_def)

lemma count_changes_fields:
  "sv_store (fold (count_change b lang perf) cs sv) = sv_store sv \<and> sv_events (fold (count_change b lang perf) cs sv) = sv_events sv
   \<and> sv_pendingReports (fold (count_change b lang perf) cs sv) = sv_pendingReports sv
   \<and> sv_completions (fold (count_change b lang perf) cs sv) = sv_completions sv
   \<and> sv_edits (fold (count_change b lang perf) cs sv) = sv_edits sv
   \<and> sv_inlineInProgress (fold (count_change b lang perf) cs sv) = sv_inlineInProgress sv"
proof (induction cs arbitrary: sv)
  case (Cons c cs)
  show ?case using Cons [of "count_change b lang perf c sv"] by (simp add: count_change_def Let_def)
qed simp

lemma change_fields:
  "sv_store (onDidChangeTextDocument b cfg now perf uri cs doc sv) = sv_store sv"
  "sv_events (onDidChangeTextDocument b cfg now perf uri cs doc sv) = sv_events sv"
  "sv_pendingReports (onDidChangeTextDocument b cfg now perf uri cs doc sv) = sv_pendingReports sv"
  "sv_completions (onDidChangeTextDocument b cfg now perf uri cs doc sv) = sv_completions sv"
  "sv_edits (onDidChangeTextDocument b cfg now perf uri cs doc sv) = sv_edits sv"
  "sv_inlineInProgress (onDidChangeTextDocument b cfg now perf uri cs doc sv) = sv_inlineInProgress sv"
  using count_changes_fields unfolding onDidChangeTextDocument_def
  by (auto simp: Let_def split: option.split)

lemma configuration_fields:
  "sv_store (updateConfiguration cfg sv) = sv_store sv" "sv_events (updateConfiguration cfg sv) = sv_events sv"
  "sv_pendingReports (updateConfiguration cfg sv) = sv_pendingReports sv"
  "sv_completions (updateConfiguration cfg sv) = sv_completions sv" "sv_edits (updateConfiguration cfg sv) = sv_edits sv"
  "sv_inlineInProgress (updateConfiguration cfg sv) = sv_inlineInProgress sv"
  by (simp_all add: updateConfiguration_def Let_def)

lemmas event_fields = change_fields configuration_fields onDidOpenTextDocument_def onDidCloseTextDocument_def

section \<open>Every step keeps the invariant\<close>

lemma run_ok_events:
  assumes ok: "run_ok \<lparr>run_server = sv, run_waiting = W\<rparr>"
    and "sv_store sv' = sv_store sv" "sv_events sv' = sv_events sv" "sv_pendingReports sv' = sv_pendingReports sv"
      "sv_completions sv' = sv_completions sv" "sv_edits sv' = sv_edits sv"
  shows "run_ok \<lparr>run_server = sv', run_waiting = W\<rparr>"
  by (rule run_ok_quiet [OF ok quiet_fields same_refs_fields])
    (auto simp: assms completion_refs_def other_refs_def)

lemma run_ok_inline_new:
  assumes ok: "run_ok \<lparr>run_server = sv, run_waiting = A @ InlineContext p pr # B\<rparr>"
    and s: "send_request env now sid p pr ctx sv = (sv', r, req)"
  shows "run_ok \<lparr>run_server = sv', run_waiting = A @ InlineService r True rng # B\<rparr>"
proof -
  let ?W = "A @ InlineContext p pr # B"
  have ok': "reports_ok (completion_refs sv ?W) (other_refs sv ?W) (concat (map flight ?W)) sv"
    using ok by (simp add: run_ok_def)
  have "manager_refs (sv_completions sv) \<subseteq> completion_refs sv ?W" by (auto simp: completion_refs_def)
  note n = send_request_ok [OF ok' this s]
  show ?thesis
    unfolding run_ok_def server_run.simps
    by (rule reports_ok_mono [OF n(1)]) (use n(3,4) distinct_flight [OF ok] in \<open>auto simp: completion_refs_def other_refs_def\<close>)
qed

lemma run_ok_edit_new:
  assumes n: "reports_ok (completion_refs sv W) (other_refs sv W) (r # concat (map flight W)) sv'"
    "manager_refs (sv_edits sv') \<subseteq> insert r (manager_refs (sv_edits sv))" "sv_completions sv' = sv_completions sv"
    and W: "W = A @ w # B" "flight w = []" "q \<in> insert r (edit_refs w)"
  shows "run_ok \<lparr>run_server = sv', run_waiting = A @ EditService r q # B\<rparr>"
proof -
  have d: "distinct (r # concat (map flight W))" using n(1) by (simp add: reports_ok_def)
  show ?thesis
    unfolding run_ok_def server_run.simps
    by (rule reports_ok_mono [OF n(1)]) (use n(2,3) W d in \<open>auto simp: completion_refs_def other_refs_def\<close>)
qed

lemma run_ok_inline_answer:
  assumes ok: "run_ok \<lparr>run_server = sv, run_waiting = A @ InlineService r isNew rng # B\<rparr>"
  shows "run_ok \<lparr>run_server = fst (inline_finish env now perf r isNew rng answer sv), run_waiting = A @ B\<rparr>"
proof -
  let ?W = "A @ InlineService r isNew rng # B"
  have ok': "reports_ok (completion_refs sv ?W) (other_refs sv ?W) (concat (map flight ?W)) sv"
    using ok by (simp add: run_ok_def)
  have "r \<in> completion_refs sv ?W" by (simp add: completion_refs_def)
  then have r: "r \<notin> set (sv_pendingReports sv)" "r < next_ref (sv_store sv)" using ok' unfolding reports_ok_def by auto
  note n = inline_finish_ok [OF ok' r, of env now perf isNew rng answer]
  show ?thesis
    by (rule run_ok_step [OF conjunct1 [OF n] refl refl refl conjunct2 [OF n]])
      (use distinct_flight [OF ok] in \<open>auto simp: completion_refs_def other_refs_def\<close>)
qed

lemma run_ok_edit_answer:
  assumes ok: "run_ok \<lparr>run_server = sv, run_waiting = A @ EditService r q # B\<rparr>"
  shows "run_ok \<lparr>run_server = fst (edit_finish env now r q answer sv), run_waiting = A @ B\<rparr>"
proof -
  let ?W = "A @ EditService r q # B"
  let ?F1 = "concat (map flight A)" and ?F2 = "concat (map flight B)"
  have ok': "reports_ok (completion_refs sv ?W) (other_refs sv ?W) (?F1 @ r # ?F2) sv"
    using ok by (simp add: run_ok_def)
  note n = edit_finish_ok [OF ok', of env now q answer]
  have m: "manager_refs (sv_completions (fst (edit_finish env now r q answer sv))) = manager_refs (sv_completions sv)"
    "manager_refs (sv_edits (fst (edit_finish env now r q answer sv))) = manager_refs (sv_edits sv)"
    using n by (simp_all add: same_refs_def manager_refs_def)
  show ?thesis
    unfolding run_ok_def server_run.simps
    by (rule reports_ok_mono [OF conjunct1 [OF n]])
      (use distinct_flight [OF ok] m in \<open>auto simp: completion_refs_def other_refs_def\<close>)
qed

lemma run_ok_server_step: "server_step R R' \<Longrightarrow> run_ok R \<Longrightarrow> run_ok R'"
proof (induction rule: server_step.induct)
  case (inline_requested env now p sv sv' c W)
  note q = inline_start_quiet [OF inline_requested(1)]
  show ?case
    by (rule run_ok_quiet [OF inline_requested(2) q(1,2)])
      (use q(3) in \<open>auto simp: completion_refs_def other_refs_def manager_refs_def split: option.split\<close>)
next
  case (edit_requested now p sv sv' c W)
  note q = edit_start_quiet [OF edit_requested(1)]
  show ?case
    by (rule run_ok_quiet [OF edit_requested(2) q(1,2)])
      (use q(3) in \<open>auto simp: completion_refs_def other_refs_def manager_refs_def split: option.split\<close>)
next
  case (inline_sent env now sid p pr ctx sv sv' r req A B)
  then show ?case using run_ok_inline_new by blast
next
  case (inline_answered sv A r isNew rng B env now perf answer)
  then show ?case by (rule run_ok_inline_answer)
next
  case (edit_paged eenv doc sv sv1 d lang p c start now sid sv2 r req A B)
  let ?W = "A @ EditDocument p (Some c) # B"
  note q = edit_admit_quiet [OF edit_paged(1)]
  have e: "completion_refs sv1 ?W = completion_refs sv ?W" "other_refs sv1 ?W = other_refs sv ?W"
    using q(2) by (simp_all add: completion_refs_def other_refs_def manager_refs_def same_refs_def)
  have "reports_ok (completion_refs sv1 ?W) (other_refs sv1 ?W) (concat (map flight ?W)) sv1"
    using edit_paged(4) reports_ok_quiet [OF _ q] unfolding e run_ok_def by simp
  note n = edit_page_ok [OF this edit_paged(3)]
  show ?case by (rule run_ok_edit_new [OF n(1,3,4) refl]) simp_all
next
  case (edit_sent eenv start now sid p d fc cur ctx sv sv' r req A B)
  let ?W = "A @ EditContext p d fc cur start # B"
  have ok: "reports_ok (completion_refs sv ?W) (other_refs sv ?W) (concat (map flight ?W)) sv"
    using edit_sent(2) by (simp add: run_ok_def)
  have "set_option cur \<subseteq> completion_refs sv ?W \<union> other_refs sv ?W \<union> set (concat (map flight ?W))"
    by (auto simp: other_refs_def)
  note n = edit_send_ok [OF ok this edit_sent(1)]
  show ?case by (rule run_ok_edit_new [OF n(1,3,4) refl]) simp_all
next
  case (edit_answered sv A r errorRef B eenv now answer)
  then show ?case by (rule run_ok_edit_answer)
next
  case (report_settled r sv W)
  have "reports_ok (completion_refs sv W) (other_refs sv W) (concat (map flight W)) sv"
    using report_settled(2) by (simp add: run_ok_def)
  note n = reports_ok_settle [OF this, of r]
  show ?case
    by (rule run_ok_step [OF n refl refl refl settle_same_refs])
      (use distinct_flight [OF report_settled(2)] in \<open>auto simp: completion_refs_def other_refs_def\<close>)
next
  case (results_logged sv W now rp)
  have ok: "reports_ok (completion_refs sv W) (other_refs sv W) (concat (map flight W)) sv"
    using results_logged by (simp add: run_ok_def)
  have m: "manager_refs (sv_completions sv) \<union> manager_refs (sv_edits sv) \<subseteq>
      completion_refs sv W \<union> other_refs sv W \<union> set (concat (map flight W))"
    by (auto simp: completion_refs_def other_refs_def)
  note n = handleSessionResults_ok [OF ok m, of now rp]
  show ?case
    by (rule run_ok_step [OF conjunct1 [OF n] refl refl refl conjunct2 [OF n]])
      (use distinct_flight [OF results_logged] in \<open>auto simp: completion_refs_def other_refs_def\<close>)
next
  case (edit_held eenv doc sv sv1 d lang p cur now clock outer A B)
  note q = edit_admit_quiet [OF edit_held(1)]
  show ?case
    by (rule run_ok_quiet [OF edit_held(4) quiet_trans [OF q abandon_quiet(3)] same_refs_trans [OF q(2) abandon_quiet(4)]])
      (auto simp: completion_refs_def other_refs_def)
next
  case (edit_declined eenv doc sv sv' A p cur B)
  then show ?case
    by (intro run_ok_quiet [OF edit_declined(2) edit_admit_quiet [OF edit_declined(1)]]) (auto simp: completion_refs_def other_refs_def)
next
  case (edit_fired eenv doc sv sv1 d lang p cur now clock outer fc A B start)
  show ?case
    by (rule run_ok_quiet [OF edit_fired(4) edit_admit_quiet [OF edit_fired(1)]]) (auto simp: completion_refs_def other_refs_def)
next
  case (edit_context_raised sv A p d fc cur start B)
  show ?case by (rule run_ok_quiet [OF edit_context_raised abandon_quiet(3,4)]) (auto simp: completion_refs_def other_refs_def)
next
  case (edit_raised sv A p cur B)
  show ?case by (rule run_ok_quiet [OF edit_raised quiet_refl same_refs_refl]) (auto simp: completion_refs_def other_refs_def)
next
  case (inline_paged p r sv A B)
  show ?case by (rule run_ok_quiet [OF inline_paged(2) quiet_refl same_refs_refl]) (auto simp: completion_refs_def other_refs_def)
next
  case (inline_prepared p cur env now doc sv pr A B)
  show ?case by (rule run_ok_quiet [OF inline_prepared(3) quiet_refl same_refs_refl]) (auto simp: completion_refs_def other_refs_def)
next
  case (inline_declined p cur env now doc sv A B)
  show ?case by (rule run_ok_quiet [OF inline_declined(3) abandon_quiet(1,2)]) (auto simp: completion_refs_def other_refs_def)
next
  case (inline_raised w p cur pr sv A B)
  show ?case by (rule run_ok_quiet [OF inline_raised(2) abandon_quiet(1,2)])
    (use inline_raised(1) in \<open>auto simp: completion_refs_def other_refs_def\<close>)
qed (erule run_ok_events; simp add: event_fields)+

end
