(* ===== verification/Server_Runs.thy ===== *)
theory Server_Runs
  imports Server_Reports
begin

text \<open>
  Completion requests run one at a time: the second invariant of the runs of the inline-suggestion server,
  beside the discipline of reports of \<^verbatim>\<open>Server_Reports\<close>.
\<close>

section \<open>What the handlers leave of the sessions\<close>

lemma evolves_trans: "evolves a b \<Longrightarrow> next_ref b = next_ref a \<Longrightarrow> evolves b c \<Longrightarrow> evolves a c"
  unfolding evolves_def using progress_trans by metis

lemma evolves_quiet: "quiet sv sv' \<Longrightarrow> evolves (sv_store sv) (sv_store sv')"
  by (simp add: quiet_def)

lemma evolves_refl [simp]: "evolves h h"
  by (simp add: evolves_def)

lemma evolves_report: "evolves (sv_store sv) (sv_store (emitUserTriggerDecisionTelemetry now r a i sv))"
  by (simp add: evolves_def report_session)

lemma evolves_empty_report:
  "evolves (sv_store sv) (sv_store (emitEmptyUserTriggerDecisionTelemetry now r since streak sv))"
  unfolding emitEmptyUserTriggerDecisionTelemetry_def Let_def evolves_def
  by (simp add: emit_decision_store progress_same)

lemma evolves_via:
  "quiet sv sv1 \<Longrightarrow> same_refs sv sv1 \<Longrightarrow> evolves (sv_store sv1) h \<Longrightarrow> evolves (sv_store sv) h"
  by (rule evolves_trans [OF evolves_quiet]) (simp_all add: same_refs_def)

lemma evolves_discard_and_report: "evolves (sv_store sv) (sv_store (discard_and_report now r args sv))"
  unfolding discard_and_report_def Let_def split_def
  by (rule evolves_via [OF discard_streak_quiet evolves_report])

lemma evolves_receive_response:
  "evolves (sv_store sv) (sv_store (receive_response env now perf r isNew resp sv))"
proof (rule receive_response_cases [of sv env now perf r isNew resp])
  fix sv3 args
  assume 3: "quiet sv sv3" "same_refs sv sv3"
    and x: "receive_response env now perf r isNew resp sv = sv3 \<or>
      receive_response env now perf r isNew resp sv = discard_and_report now r args sv3"
  then show ?thesis using evolves_quiet [OF 3(1)] evolves_via [OF 3 evolves_discard_and_report] by metis
qed

lemma evolves_results: "evolves (sv_store sv) (sv_store (handleSessionResults now p sv))"
proof (rule handleSessionResults_as [of now p sv])
  fix r e sv5 a i
  assume q: "quiet sv sv5" "same_refs sv sv5"
    and h: "handleSessionResults now p sv = emitUserTriggerDecisionTelemetry now r a i sv5"
  show ?thesis unfolding h by (rule evolves_via [OF q evolves_report])
qed simp

lemma evolves_discard_active: "evolves (sv_store sv) (sv_store (discard_active env now sv))"
proof -
  obtain args where "discard_active env now sv =
     (case getCurrentSession (sv_completions sv) of
        Some r \<Rightarrow> if state (session_of sv r) = ACTIVE \<and> env_ide env \<noteq> Some ''JETBRAINS''
                  then discard_and_report now r args sv else sv
      | None \<Rightarrow> sv)" using discard_active_as by blast
  then show ?thesis by (simp add: evolves_discard_and_report split: option.split)
qed

lemma evolves_edit_discard_active: "evolves (sv_store sv) (sv_store (edit_discard_active now cur sv))"
proof -
  obtain args where "edit_discard_active now cur sv =
     (case cur of Some r \<Rightarrow> if state (session_of sv r) = ACTIVE then discard_and_report now r args sv else sv
      | None \<Rightarrow> sv)" using edit_discard_active_as by blast
  then show ?thesis by (simp add: evolves_discard_and_report split: option.split)
qed

lemma evolves_edit_response:
  "evolves (sv_store sv) (sv_store (fst (edit_processSuggestionResponse env now r isNew doc resp sv)))"
proof (rule edit_response_cases [of sv now r env isNew doc resp], goal_cases)
  case (1 sv4 args)
  let ?x = "fst (edit_processSuggestionResponse env now r isNew doc resp sv)"
  note 4 = 1(1) and x = 1(2)
  have e4: "evolves (sv_store sv) (sv_store sv4) \<and> next_ref (sv_store sv4) = next_ref (sv_store sv)"
    using 4
  proof (elim disjE exE conjE)
    fix sv3 assume 3: "quiet sv sv3" "same_refs sv sv3"
      and q: "quiet (discard_and_report now r args sv3) sv4" "same_refs (discard_and_report now r args sv3) sv4"
    have n: "next_ref (sv_store (discard_and_report now r args sv3)) = next_ref (sv_store sv3)"
      by (rule same_refs_next [OF discard_and_report_refs])
    have "evolves (sv_store sv3) (sv_store sv4)"
      by (rule evolves_trans [OF evolves_discard_and_report n evolves_quiet [OF q(1)]])
    then show ?thesis
      using evolves_via [OF 3] n same_refs_next [OF 3(2)] same_refs_next [OF q(2)] by simp
  qed (simp add: evolves_quiet same_refs_next)
  have c: "quiet sv4 (fst (report_streak False (close_in True now r sv4)))"
      "same_refs sv4 (fst (report_streak False (close_in True now r sv4)))"
    by (rule quiet_trans [OF quiet_close_in same_refs_close_in quiet_streak],
        rule same_refs_trans [OF same_refs_close_in same_refs_streak])
  have "evolves (sv_store sv4) (sv_store ?x)"
    unfolding x using evolves_via [OF c evolves_empty_report]
      evolves_quiet [OF quiet_modify [OF progress_record_states]] by simp
  then show ?thesis using evolves_trans e4 by blast
qed

lemma evolves_edit_finish: "evolves (sv_store sv) (sv_store (fst (edit_finish env now r q answer sv)))"
proof (cases answer)
  case (Inl e)
  show ?thesis
    using evolves_quiet [OF failure_quiet(1)]
    by (simp add: edit_finish_def Inl split_def Let_def handleSuggestionsErrors_as)
next
  case (Inr resp)
  show ?thesis
    using evolves_edit_response by (simp add: edit_finish_def Inr split_def Let_def)
qed

lemma processSuggestionResponse_as:
  fixes sv :: inline_server and r :: session_ref and env :: inline_env and now :: int and perf :: real
    and isNew :: bool and rng :: "range option" and resp :: GenerateSuggestionsResponse
  defines "sv1 \<equiv> receive_response env now perf r isNew resp sv"
  defines "sv2 \<equiv> sv1\<lparr>sv_store := activateSession (sv_store sv1) (sv_completions sv1) r\<rparr>"
  defines "sv3 \<equiv> modify_session r (\<lambda>_. fst (show_items env rng resp (session_of sv2 r))) sv2"
  shows "processSuggestionResponse env now perf r isNew rng resp sv =
     (if predictionType (session_of sv1 r) \<noteq> Some EDIT \<and>
        (state (session_of sv1 r) = CLOSED \<or> state (session_of sv1 r) = DISCARD) then (sv1, EMPTY_RESULT)
      else if suggestionsAfterRightContextMerge (fst (show_items env rng resp (session_of sv2 r))) = [] \<and>
        \<not> truthy (rc_nextToken (resp_responseContext resp))
      then (emitUserTriggerDecisionTelemetry now r (no_decision_args (sv_timeSinceLastUserModification sv)) None
              (close_in False now r sv3), EMPTY_RESULT)
      else (sv3, \<lparr>cl_items = snd (show_items env rng resp (session_of sv2 r)),
                  cl_sessionId = session_id (fst (show_items env rng resp (session_of sv2 r))),
                  cl_partialResultToken = rc_nextToken (resp_responseContext resp)\<rparr>))"
  unfolding processSuggestionResponse_def Let_def split_def close_in_def if_False sv1_def sv2_def sv3_def
  by (rule refl)

lemma answered_states:
  fixes sv :: inline_server and r :: session_ref and env :: inline_env and now :: int and perf :: real
    and isNew :: bool and rng :: "range option" and resp :: GenerateSuggestionsResponse
  defines "x \<equiv> fst (processSuggestionResponse env now perf r isNew rng resp sv)"
  shows "evolves (sv_store sv) (sv_store x)"
    and "currentSession (sv_completions sv) = Some r \<Longrightarrow> state (session_of x r) \<noteq> REQUESTING"
proof -
  define sv1 where "sv1 = receive_response env now perf r isNew resp sv"
  define sv2 where "sv2 = sv1\<lparr>sv_store := activateSession (sv_store sv1) (sv_completions sv1) r\<rparr>"
  define sv3 where "sv3 = modify_session r (\<lambda>_. fst (show_items env rng resp (session_of sv2 r))) sv2"
  define sv4 where "sv4 = close_in False now r sv3"
  have "\<exists>b c a. x = (if b \<and> final (session_of sv1 r) then sv1 else if c
      then emitUserTriggerDecisionTelemetry now r a None sv4 else sv3)"
    unfolding x_def processSuggestionResponse_as final_def sv1_def [symmetric] sv2_def [symmetric]
      sv3_def [symmetric] sv4_def [symmetric] if_distrib [of fst] fst_conv by (intro exI) (rule refl)
  then obtain b c a where x: "x = (if b \<and> final (session_of sv1 r) then sv1 else if c
      then emitUserTriggerDecisionTelemetry now r a None sv4 else sv3)" by blast
  have e1: "evolves (sv_store sv) (sv_store sv1)" unfolding sv1_def by (rule evolves_receive_response)
  have 1: "same_refs sv sv1"
    unfolding sv1_def by (rule receive_response_cases [of sv env now perf r isNew resp])
      (metis same_refs_trans discard_and_report_refs)
  have 3: "quiet sv1 sv3" "same_refs sv1 sv3" unfolding sv3_def sv2_def
    by (rule quiet_trans [OF quiet_activate same_refs_activate show_quiet])
      (rule same_refs_trans [OF same_refs_activate same_refs_modify])
  have 4: "quiet sv1 sv4" "same_refs sv1 sv4" unfolding sv4_def
    by (rule quiet_trans [OF 3 quiet_close_in]) (rule same_refs_trans [OF 3(2) same_refs_close_in])
  have "evolves (sv_store sv1) (sv_store x)"
    unfolding x using evolves_quiet [OF 3(1)] evolves_via [OF 4 evolves_report] by simp
  then show "evolves (sv_store sv) (sv_store x)" using evolves_trans [OF e1 same_refs_next [OF 1]] by blast
  assume cur: "currentSession (sv_completions sv) = Some r"
  then have "currentSession (sv_completions sv1) = Some r" using 1 by (simp add: same_refs_def)
  then have s2: "state (session_of sv2 r) \<noteq> REQUESTING"
    by (simp add: sv2_def activateSession_def update_session_def activate_def)
  have "state (session_of sv4 r) \<noteq> REQUESTING"
    using final_close_in [of False now r sv3] unfolding sv4_def [symmetric] by (auto simp: final_def)
  then show "state (session_of x r) \<noteq> REQUESTING"
    unfolding x using s2 by (auto simp: report_session sv3_def final_def)
qed

lemma inline_finish_states:
  "evolves (sv_store sv) (sv_store (fst (inline_finish env now perf r isNew rng answer sv)))"
  "currentSession (sv_completions sv) = Some r \<Longrightarrow>
     state (session_of (fst (inline_finish env now perf r isNew rng answer sv)) r) \<noteq> REQUESTING"
proof -
  have "evolves (sv_store sv) (sv_store (fst (inline_finish env now perf r isNew rng answer sv))) \<and>
    (currentSession (sv_completions sv) = Some r \<longrightarrow>
       state (session_of (fst (inline_finish env now perf r isNew rng answer sv)) r) \<noteq> REQUESTING)"
  proof (cases answer)
    case (Inl e)
    have x: "sv_store (fst (inline_finish env now perf r isNew rng answer sv)) =
        sv_store (close_in False now r (emitServiceInvocationFailure now r e sv))"
      by (simp add: inline_finish_def Inl split_def Let_def handleSuggestionsErrors_as)
    have "state (session_of (close_in False now r (emitServiceInvocationFailure now r e sv)) r) \<noteq> REQUESTING"
      using final_close_in [of False now r "emitServiceInvocationFailure now r e sv"] by (auto simp: final_def)
    then show ?thesis unfolding x using evolves_quiet [OF failure_quiet(1)] by blast
  next
    case (Inr resp)
    have x: "sv_store (fst (inline_finish env now perf r isNew rng answer sv)) =
        sv_store (fst (processSuggestionResponse env now perf r isNew rng resp sv))"
      by (simp add: inline_finish_def Inr split_def Let_def)
    show ?thesis unfolding x using answered_states by blast
  qed
  then show "evolves (sv_store sv) (sv_store (fst (inline_finish env now perf r isNew rng answer sv)))"
    "currentSession (sv_completions sv) = Some r \<Longrightarrow>
     state (session_of (fst (inline_finish env now perf r isNew rng answer sv)) r) \<noteq> REQUESTING" by blast+
qed

section \<open>One completion request at a time\<close>

fun is_inline :: "waiting \<Rightarrow> bool" where
  "is_inline (InlineDocument p cur) = True"
| "is_inline (InlineContext p pr) = True"
| "is_inline (InlineService r isNew rng) = True"
| "is_inline _ = False"

lemma flag_edit_start: "sv_inlineInProgress (fst (edit_start now p sv)) = sv_inlineInProgress sv"
  by (simp add: edit_start_def Let_def split: option.split)

lemma flag_edit_page: "sv_inlineInProgress (fst (edit_page start now sid p doc cur sv)) = sv_inlineInProgress sv"
  by (simp add: edit_page_def Let_def split_def)

lemma flag_edit_send:
  "sv_inlineInProgress (fst (edit_send env start now sid p doc fc cur ctx sv)) = sv_inlineInProgress sv"
proof -
  have "sv_inlineInProgress (edit_discard_active now cur sv) = sv_inlineInProgress sv"
    by (simp add: edit_discard_active_def Let_def split_def split: option.split)
  then show ?thesis by (simp add: edit_send_def Let_def split_def)
qed

lemma flag_edit_finish: "sv_inlineInProgress (fst (edit_finish env now r q answer sv)) = sv_inlineInProgress sv"
proof -
  have "sv_inlineInProgress (fst (edit_processSuggestionResponse env now r b doc resp sv)) = sv_inlineInProgress sv" for b doc resp
    by (rule edit_response_cases [of sv now r env b doc resp]) simp
  then show ?thesis
    by (simp add: edit_finish_def handleSuggestionsErrors_as split_def Let_def split: sum.split)
qed

lemma flag_results: "sv_inlineInProgress (handleSessionResults now p sv) = sv_inlineInProgress sv"
  by (rule handleSessionResults_as [of now p sv]) simp_all

lemma flag_send: "sv_inlineInProgress (fst (send_request env now sid p pr ctx sv)) = sv_inlineInProgress sv"
proof -
  have "sv_inlineInProgress (discard_active env now sv) = sv_inlineInProgress sv"
    by (simp add: discard_active_def Let_def split_def split: option.split)
  then show ?thesis by (simp add: send_request_def Let_def split_def)
qed

lemma flag_inline_start:
  assumes "inline_start env now p sv = (sv', x)"
  shows "case x of None \<Rightarrow> sv' = sv | Some c \<Rightarrow> \<not> sv_inlineInProgress sv \<and> sv_inlineInProgress sv'"
proof -
  have "inline_start env now p sv = (sv, None) \<or>
    \<not> sv_inlineInProgress sv \<and> sv_inlineInProgress (fst (inline_start env now p sv)) \<and> snd (inline_start env now p sv) \<noteq> None"
    by (simp add: inline_start_def Let_def split: option.split)
  then show ?thesis unfolding assms by (auto split: option.split)
qed

lemma flag_inline_end:
  "\<not> sv_inlineInProgress (fst (inline_finish env now perf r isNew rng answer sv))"
  "\<not> sv_inlineInProgress (fst (inline_abandon sv))"
  by (simp_all add: inline_finish_def inline_abandon_def Let_def split_def)

definition exclusive :: "server_run \<Rightarrow> bool" where
  "exclusive R \<longleftrightarrow>
     length (filter is_inline (run_waiting R)) = (if sv_inlineInProgress (run_server R) then 1 else 0) \<and>
     (case currentSession (sv_completions (run_server R)) of
        None \<Rightarrow> True
      | Some r \<Rightarrow> state (session_of (run_server R) r) = REQUESTING \<longrightarrow>
                    (\<exists>rng. InlineService r True rng \<in> set (run_waiting R)))"

lemma run_ok_current:
  "run_ok \<lparr>run_server = sv, run_waiting = W\<rparr> \<Longrightarrow> currentSession (sv_completions sv) = Some r \<Longrightarrow> r < next_ref (sv_store sv)"
  unfolding run_ok_def reports_ok_def completion_refs_def manager_refs_def by auto

lemma exclusive_keep:
  assumes ok: "run_ok \<lparr>run_server = sv, run_waiting = W\<rparr>" and ex: "exclusive \<lparr>run_server = sv, run_waiting = W\<rparr>"
    and e: "evolves (sv_store sv) (sv_store sv')" "currentSession (sv_completions sv') = currentSession (sv_completions sv)"
      "sv_inlineInProgress sv' = sv_inlineInProgress sv"
    and W: "filter is_inline W' = filter is_inline W"
  shows "exclusive \<lparr>run_server = sv', run_waiting = W'\<rparr>"
proof -
  have in_W: "InlineService r b rng \<in> set W' \<longleftrightarrow> InlineService r b rng \<in> set W" for r b rng
  proof -
    have "InlineService r b rng \<in> set (filter is_inline W') \<longleftrightarrow> InlineService r b rng \<in> set (filter is_inline W)"
      by (simp only: W)
    then show ?thesis by simp
  qed
  have earlier: "currentSession (sv_completions sv) = Some r \<Longrightarrow> state (session_of sv' r) = REQUESTING \<Longrightarrow>
      state (session_of sv r) = REQUESTING" for r
    using e(1) run_ok_current [OF ok] unfolding evolves_def progress_def by blast
  show ?thesis
  proof (cases "currentSession (sv_completions sv)")
    case (Some r)
    show ?thesis using ex earlier [OF Some] by (simp add: exclusive_def e W in_W Some)
  qed (use ex in \<open>simp add: exclusive_def e W\<close>)
qed

text \<open>When the only waiting completion request goes, the current session must not be requesting any more.\<close>

lemma exclusive_leave:
  assumes ok: "run_ok \<lparr>run_server = sv, run_waiting = A @ w # B\<rparr>"
    and ex: "exclusive \<lparr>run_server = sv, run_waiting = A @ w # B\<rparr>" and w: "is_inline w"
    and e: "evolves (sv_store sv) (sv_store sv')" "currentSession (sv_completions sv') = currentSession (sv_completions sv)"
      "\<not> sv_inlineInProgress sv'"
    and s: "\<And>r rng. w = InlineService r True rng \<Longrightarrow> currentSession (sv_completions sv) = Some r \<Longrightarrow>
      state (session_of sv' r) \<noteq> REQUESTING"
  shows "exclusive \<lparr>run_server = sv', run_waiting = A @ B\<rparr>"
proof -
  have len: "filter is_inline A = []" "filter is_inline B = []"
    using ex w by (auto simp: exclusive_def split: if_splits)
  then have only: "InlineService r b rng \<in> set (A @ w # B) \<Longrightarrow> w = InlineService r b rng" for r b rng
    by (auto simp: filter_empty_conv)
  have "state (session_of sv' r) \<noteq> REQUESTING" if c: "currentSession (sv_completions sv) = Some r" for r
  proof
    assume q: "state (session_of sv' r) = REQUESTING"
    then have "state (session_of sv r) = REQUESTING"
      using e(1) run_ok_current [OF ok c] unfolding evolves_def progress_def by blast
    then obtain rng where "InlineService r True rng \<in> set (A @ w # B)" using ex c by (auto simp: exclusive_def)
    then show False using only s c q by blast
  qed
  then show ?thesis using len e by (auto simp: exclusive_def split: option.split)
qed

lemma exclusive_replace:
  assumes ex: "exclusive \<lparr>run_server = sv, run_waiting = A @ w # B\<rparr>"
    and w: "is_inline w" "is_inline w'" "\<And>r rng. w \<noteq> InlineService r True rng"
  shows "exclusive \<lparr>run_server = sv, run_waiting = A @ w' # B\<rparr>"
proof -
  have "InlineService r True rng \<in> set (A @ w' # B)" if "InlineService r True rng \<in> set (A @ w # B)" for r rng
    using that w(3) [of r rng] by auto
  then show ?thesis using ex w(1,2) unfolding exclusive_def by (auto split: option.splits)
qed

lemma send_request_current:
  assumes "send_request env now sid p pr ctx sv = (sv', r, req)"
  shows "currentSession (sv_completions sv') = Some r"
  by (rule create_split [OF assms [unfolded send_request_def Let_def]]) (simp add: createSession_facts(4))

lemma send_request_flag:
  "send_request env now sid p pr ctx sv = (sv', r, req) \<Longrightarrow> sv_inlineInProgress sv' = sv_inlineInProgress sv"
  using flag_send [of env now sid p pr ctx sv] by simp

lemma exclusive_request:
  assumes ok: "run_ok \<lparr>run_server = sv, run_waiting = W\<rparr>" and ex: "exclusive \<lparr>run_server = sv, run_waiting = W\<rparr>"
    and s: "inline_start env now p sv = (sv', x)"
  shows "exclusive \<lparr>run_server = sv', run_waiting = W @ (case x of None \<Rightarrow> [] | Some c \<Rightarrow> [InlineDocument p c])\<rparr>"
proof (cases x)
  case None
  then show ?thesis using ex flag_inline_start [OF s] by simp
next
  case (Some c)
  note q = inline_start_quiet [OF s]
  have "exclusive \<lparr>run_server = sv'\<lparr>sv_inlineInProgress := sv_inlineInProgress sv\<rparr>, run_waiting = W\<rparr>"
    by (rule exclusive_keep [OF ok ex]) (use evolves_quiet [OF q(1)] q(2) in \<open>simp_all add: same_refs_def\<close>)
  then show ?thesis
    using flag_inline_start [OF s] unfolding Some exclusive_def by (auto split: option.splits)
qed

lemma edit_create_evolves:
  assumes c: "createSession (sv_store sv1) m d sid now = (h, m', r)"
    and e: "evolves (sv_store sv) (sv_store sv1)" "next_ref (sv_store sv1) = next_ref (sv_store sv)"
  shows "evolves (sv_store sv) h"
  using e createSession_facts(3) [OF c] unfolding evolves_def by auto

lemma evolves_edit_send:
  assumes s: "edit_send env start now sid p doc fc cur ctx sv = (sv', r, req)"
  shows "evolves (sv_store sv) (sv_store sv')"
proof -
  let ?sv1 = "edit_discard_active now cur sv"
  obtain args where "?sv1 =
     (case cur of Some r \<Rightarrow> if state (session_of sv r) = ACTIVE then discard_and_report now r args sv else sv
      | None \<Rightarrow> sv)" using edit_discard_active_as by blast
  then have n: "next_ref (sv_store ?sv1) = next_ref (sv_store sv)"
    using same_refs_next [OF discard_and_report_refs] by (simp split: option.split)
  have "\<exists>d m. createSession (sv_store ?sv1) (sv_edits ?sv1) d sid now = (sv_store sv', m, r)"
    by (rule create_split [OF s [unfolded edit_send_def Let_def]]) (intro exI, simp)
  then show ?thesis using edit_create_evolves [OF _ evolves_edit_discard_active n] by blast
qed

lemma evolves_edit_page:
  assumes s: "edit_page start now sid p doc cur sv = (sv', r, req)"
  shows "evolves (sv_store sv) (sv_store sv')"
proof -
  let ?sv1 = "if state (session_of sv cur) = ACTIVE then sv\<lparr>sv_store := discardSession (sv_store sv) cur now\<rparr> else sv"
  have q: "quiet sv ?sv1" "same_refs sv ?sv1" by (simp_all add: quiet_discard same_refs_discard)
  have "\<exists>d m. createSession (sv_store ?sv1) (sv_edits ?sv1) d sid now = (sv_store sv', m, r)"
    by (rule create_split [OF s [unfolded edit_page_def Let_def]]) (intro exI, simp)
  then show ?thesis using edit_create_evolves [OF _ evolves_quiet [OF q(1)] same_refs_next [OF q(2)]] by blast
qed

lemma exclusive_sent:
  assumes ok: "run_ok \<lparr>run_server = sv, run_waiting = A @ InlineContext p pr # B\<rparr>"
    and ex: "exclusive \<lparr>run_server = sv, run_waiting = A @ InlineContext p pr # B\<rparr>"
    and s: "send_request env now sid p pr ctx sv = (sv', r, req)"
  shows "exclusive \<lparr>run_server = sv', run_waiting = A @ InlineService r True rng # B\<rparr>"
  using ex send_request_current [OF s] send_request_flag [OF s] by (auto simp: exclusive_def)

lemma exclusive_server_step: "server_step R R' \<Longrightarrow> run_ok R \<Longrightarrow> exclusive R \<Longrightarrow> exclusive R'"
proof (induction rule: server_step.induct)
  case (inline_requested env now p sv sv' c W)
  show ?case by (rule exclusive_request [OF inline_requested(2,3,1)])
next
  case (inline_paged p r sv A B)
  show ?case by (rule exclusive_replace [OF inline_paged(3)]) simp_all
next
  case (inline_prepared p cur env now doc sv pr A B)
  show ?case by (rule exclusive_replace [OF inline_prepared(4)]) simp_all
next
  case (inline_declined p cur env now doc sv A B)
  show ?case
    by (rule exclusive_leave [OF inline_declined(3,4)]) (simp_all add: inline_abandon_def)
next
  case (inline_raised w p cur pr sv A B)
  show ?case
    by (rule exclusive_leave [OF inline_raised(2,3)]) (use inline_raised(1) in \<open>auto simp: inline_abandon_def\<close>)
next
  case (inline_sent env now sid p pr ctx sv sv' r req A B)
  show ?case by (rule exclusive_sent [OF inline_sent(2,3,1)])
next
  case (inline_answered sv A r isNew rng B env now perf answer)
  have r: "r \<notin> set (sv_pendingReports sv)" "r < next_ref (sv_store sv)"
    using inline_answered(1) unfolding run_ok_def reports_ok_def by (auto simp: completion_refs_def)
  have "same_refs sv (fst (inline_finish env now perf r isNew rng answer sv))"
    using inline_finish_ok [OF _ r] inline_answered(1) unfolding run_ok_def server_run.simps by blast
  then show ?case
    by (intro exclusive_leave [OF inline_answered(1,2)])
      (simp_all add: inline_finish_states flag_inline_end same_refs_def)
next
  case (edit_requested now p sv sv' c W)
  note q = edit_start_quiet [OF edit_requested(1)]
  have "sv_inlineInProgress sv' = sv_inlineInProgress sv"
    using flag_edit_start [of now p sv] by (simp add: edit_requested(1))
  then show ?case
    by (intro exclusive_keep [OF edit_requested(2,3) evolves_quiet [OF q(1)]])
      (use q(2) in \<open>simp_all add: same_refs_def split: option.split\<close>)
next
  case (edit_declined eenv doc sv sv' A p cur B)
  note q = edit_admit_quiet [OF edit_declined(1)]
  show ?case
    by (rule exclusive_keep [OF edit_declined(2,3) evolves_quiet [OF q(1)]])
      (use q(2) edit_admit_fields [OF edit_declined(1)] in \<open>auto simp: same_refs_def\<close>)
next
  case (edit_raised sv A p cur B)
  show ?case by (rule exclusive_keep [OF edit_raised]) simp_all
next
  case (edit_paged eenv doc sv sv1 d lang p c start now sid sv2 r req A B)
  note q = edit_admit_quiet [OF edit_paged(1)]
  have f: "sv_inlineInProgress sv2 = sv_inlineInProgress sv1"
    using flag_edit_page [of start now sid p d c sv1] by (simp add: edit_paged(3))
  have f1: "sv_inlineInProgress sv1 = sv_inlineInProgress sv" using edit_admit_fields [OF edit_paged(1)] by auto
  have "reports_ok {} {} [] sv"
    using edit_paged(4) reports_ok_mono [where C' = "{}" and E' = "{}" and F' = "[]"] by (simp add: run_ok_def)
  note ok = reports_ok_quiet [OF this q]
  have "sv_completions sv2 = sv_completions sv1" by (rule edit_page_ok(4) [OF ok edit_paged(3)])
  moreover have "evolves (sv_store sv) (sv_store sv2)"
    by (rule evolves_via [OF q evolves_edit_page [OF edit_paged(3)]])
  ultimately show ?case
    by (intro exclusive_keep [OF edit_paged(4,5)]) (use q(2) f f1 in \<open>simp_all add: same_refs_def\<close>)
next
  case (edit_fired eenv doc sv sv1 d lang p cur now clock outer fc A B start)
  note q = edit_admit_quiet [OF edit_fired(1)]
  show ?case
    by (rule exclusive_keep [OF edit_fired(4,5) evolves_quiet [OF q(1)]])
      (use q(2) edit_admit_fields [OF edit_fired(1)] in \<open>auto simp: same_refs_def\<close>)
next
  case (edit_held eenv doc sv sv1 d lang p cur now clock outer A B)
  note q = edit_admit_quiet [OF edit_held(1)]
  show ?case
    by (rule exclusive_keep [OF edit_held(4,5) evolves_via [OF q evolves_quiet [OF abandon_quiet(3)]]])
      (use same_refs_trans [OF q(2) abandon_quiet(4)] edit_admit_fields [OF edit_held(1)] in \<open>auto simp: same_refs_def\<close>)
next
  case (edit_context_raised sv A p d fc cur start B)
  show ?case
    by (rule exclusive_keep [OF edit_context_raised]) (simp_all add: edit_abandon_def)
next
  case (edit_sent eenv start now sid p d fc cur ctx sv sv' r req A B)
  let ?W = "A @ EditContext p d fc cur start # B"
  have ok: "reports_ok (completion_refs sv ?W) (other_refs sv ?W) (concat (map flight ?W)) sv"
    using edit_sent(2) by (simp add: run_ok_def)
  have "set_option cur \<subseteq> completion_refs sv ?W \<union> other_refs sv ?W \<union> set (concat (map flight ?W))"
    by (auto simp: other_refs_def)
  note c = edit_send_ok(4) [OF ok this edit_sent(1)]
  have "sv_inlineInProgress sv' = sv_inlineInProgress sv"
    using flag_edit_send [of eenv start now sid p d fc cur ctx sv] by (simp add: edit_sent(1))
  then show ?case
    by (intro exclusive_keep [OF edit_sent(2,3) evolves_edit_send [OF edit_sent(1)]]) (simp_all add: c)
next
  case (edit_answered sv A r errorRef B eenv now answer)
  have ok: "reports_ok (completion_refs sv (A @ EditService r errorRef # B)) (other_refs sv (A @ EditService r errorRef # B))
      (concat (map flight A) @ r # concat (map flight B)) sv"
    using edit_answered(1) by (simp add: run_ok_def)
  show ?case
    by (rule exclusive_keep [OF edit_answered evolves_edit_finish])
      (use edit_finish_ok [OF ok, of eenv now errorRef answer] in \<open>simp_all add: same_refs_def flag_edit_finish\<close>)
next
  case (report_settled r sv W)
  show ?case
    by (rule exclusive_keep [OF report_settled(2,3)])
      (simp_all add: settle_report_def evolves_def progress_def)
next
  case (results_logged sv W now rp)
  have ok: "reports_ok (completion_refs sv W) (other_refs sv W) (concat (map flight W)) sv"
    using results_logged(1) by (simp add: run_ok_def)
  have m: "manager_refs (sv_completions sv) \<union> manager_refs (sv_edits sv) \<subseteq>
      completion_refs sv W \<union> other_refs sv W \<union> set (concat (map flight W))"
    by (auto simp: completion_refs_def other_refs_def)
  show ?case
    by (rule exclusive_keep [OF results_logged evolves_results])
      (use handleSessionResults_ok [OF ok m, of now rp] in \<open>simp_all add: same_refs_def flag_results\<close>)
qed (erule (1) exclusive_keep; simp add: event_fields)+

end
