(* ===== verification/Responses.thy ===== *)
theory Responses
  imports Server_Runs
begin

text \<open>
  What the completion handler makes of a response: which suggestions are shown, what is recorded for the
  others, and how the session ends up.
\<close>

section \<open>What is shown\<close>

lemma merged_ids [simp]: "item_itemId (merge_item right imports rng g) = sug_itemId g"
  by (simp add: merge_item_def Let_def)

text \<open>What becomes of one suggestion: it is shown or one state is recorded for it.\<close>

definition suggestion_fate :: "inline_env \<Rightarrow> string \<Rightarrow> range option \<Rightarrow> CachedSuggestion \<Rightarrow> UserDecision option" where
  "suggestion_fate env right rng g =
     (if sug_content g = Some [] then Some UD_Empty
      else if \<not> env_includeReferences env \<and> has_references g then Some UD_Filter
      else if item_insertText (merge_item right (env_includeImports env) rng g) = [] then Some UD_Discard
      else None)"

lemma fate_None:
  "suggestion_fate env right rng g = None \<longleftrightarrow> sug_content g \<noteq> Some [] \<and> (env_includeReferences env \<or> \<not> has_references g) \<and>
     item_insertText (merge_item right (env_includeImports env) rng g) \<noteq> []"
  by (simp add: suggestion_fate_def)

lemma shown_items_as:
  "fst (shown_items env right rng gs) =
     map (merge_item right (env_includeImports env) rng) (filter (\<lambda>g. suggestion_fate env right rng g = None) gs)"
  by (simp add: shown_items_def empty_filter_def reference_filter_def insert_text_filter_def
    mergeSuggestionsWithRightContext_def fate_None filter_map comp_def conj_ac)

lemma recorded_states_as:
  "snd (shown_items env right rng gs) =
     map (\<lambda>g. (sug_itemId g, UD_Empty)) (filter (\<lambda>g. sug_content g = Some []) gs) @
     map (\<lambda>g. (sug_itemId g, UD_Filter)) (filter (\<lambda>g. sug_content g \<noteq> Some [] \<and> \<not> env_includeReferences env \<and> has_references g) gs) @
     map (\<lambda>g. (sug_itemId g, UD_Discard)) (filter (\<lambda>g. sug_content g \<noteq> Some [] \<and>
       (env_includeReferences env \<or> \<not> has_references g) \<and> item_insertText (merge_item right (env_includeImports env) rng g) = []) gs)"
  by (simp add: shown_items_def empty_filter_def reference_filter_def insert_text_filter_def
    mergeSuggestionsWithRightContext_def filter_map comp_def conj_ac)

lemma recorded_states_iff:
  "(i, d) \<in> set (snd (shown_items env right rng gs)) \<longleftrightarrow>
     (\<exists>g\<in>set gs. sug_itemId g = i \<and> suggestion_fate env right rng g = Some d)"
  unfolding recorded_states_as suggestion_fate_def by (cases d) (simp_all add: image_iff, blast+)

lemma record_states_out:
  "\<forall>e. (i, e) \<notin> set ds \<Longrightarrow> getSuggestionState (record_states ds s) i = getSuggestionState s i"
  unfolding record_states_def
  by (induction ds arbitrary: s) (auto simp: setSuggestionState_def getSuggestionState_def js_map)

lemma record_states_in:
  assumes "(i, d) \<in> set ds" "\<And>e. (i, e) \<in> set ds \<Longrightarrow> e = d"
  shows "getSuggestionState (record_states ds s) i = Some d"
  using assms
proof (induction ds arbitrary: s rule: rev_induct)
  case (snoc x ds)
  obtain j e where x: "x = (j, e)" by (cases x)
  have step: "record_states (ds @ [(j, e)]) s = setSuggestionState j e (record_states ds s)"
    by (simp add: record_states_def)
  show ?case
  proof (cases "j = i")
    case True
    then have "e = d" using snoc.prems(2) [of e] by (simp add: x)
    then show ?thesis unfolding x step using True by (simp add: setSuggestionState_def getSuggestionState_def js_map)
  next
    case False
    have "(i, d) \<in> set ds" using snoc.prems(1) False by (simp add: x)
    moreover have "(i, e') \<in> set ds \<Longrightarrow> e' = d" for e' using snoc.prems(2) [of e'] by simp
    ultimately have "getSuggestionState (record_states ds s) i = Some d" by (rule snoc.IH)
    then show ?thesis unfolding x step using False by (simp add: setSuggestionState_def getSuggestionState_def js_map)
  qed
qed simp

lemma fates_recorded:
  assumes d: "distinct (map sug_itemId gs)" and g: "g \<in> set gs" and s: "suggestionsStates s = []"
  shows "getSuggestionState (record_states (snd (shown_items env right rng gs)) s) (sug_itemId g) =
    suggestion_fate env right rng g"
proof -
  have iff: "(sug_itemId g, e) \<in> set (snd (shown_items env right rng gs)) \<longleftrightarrow> suggestion_fate env right rng g = Some e" for e
    unfolding recorded_states_iff using d g by (metis distinct_map inj_onD)
  show ?thesis
  proof (cases "suggestion_fate env right rng g")
    case None
    then show ?thesis using record_states_out iff by (simp add: getSuggestionState_def s)
  next
    case (Some e)
    show ?thesis unfolding Some by (rule record_states_in) (simp_all add: iff Some)
  qed
qed

section \<open>The session after a response\<close>

lemma reported_update [simp]:
  "reported (sv\<lparr>sv_cp := a\<rparr>) = reported sv" "reported (sv\<lparr>sv_uw := b\<rparr>) = reported sv"
  "reported (sv\<lparr>sv_store := h\<rparr>) = reported sv"
  by (simp_all add: reported_def)

lemma receive_new_response:
  assumes "\<not> discardInflightSessionOnNewInvocation (session_of sv r)"
  shows "session_of (receive_response env now perf r True resp sv) r =
      store_response (env_includeImports env) True now resp (session_of sv r)"
    "reported (receive_response env now perf r True resp sv) = reported sv"
    "sv_completions (receive_response env now perf r True resp sv) = sv_completions sv"
proof -
  let ?lang = "language (session_of sv r)"
  let ?sv1 = "sv\<lparr>sv_cp := countInvocation ?lang (sv_cp sv),
      sv_uw := (if sv_inlineTracksUsage sv then map_option (recordUsageCount ?lang perf) (sv_uw sv) else sv_uw sv)\<rparr>"
  let ?sv3 = "emitServiceInvocationTelemetry now r (rc_requestId (resp_responseContext resp))
      (modify_session r (store_response (env_includeImports env) True now resp) ?sv1)"
  have "receive_response env now perf r True resp sv = ?sv3"
    using assms unfolding receive_response_def Let_def
    by (simp add: emitServiceInvocationTelemetry_def store_response_def setTimeToFirstRecommendation_def Let_def)
  then show "session_of (receive_response env now perf r True resp sv) r =
      store_response (env_includeImports env) True now resp (session_of sv r)"
    "reported (receive_response env now perf r True resp sv) = reported sv"
    "sv_completions (receive_response env now perf r True resp sv) = sv_completions sv"
    by (simp_all add: emitServiceInvocationTelemetry_def Let_def)
qed

definition session_right :: "CodeWhispererSession \<Rightarrow> string" where
  "session_right s = (case req_fileContext (requestContext s) of None \<Rightarrow> [] | Some fc \<Rightarrow> fc_rightFileContent fc)"

lemma stored_session:
  "state (store_response b True now resp s) = state s"
  "predictionType (store_response b True now resp s) = Some COMPLETION"
  "suggestionsStates (store_response b True now resp s) = suggestionsStates s"
  "suggestionsAfterRightContextMerge (store_response b True now resp s) = suggestionsAfterRightContextMerge s"
  "session_id (store_response b True now resp s) = session_id s"
  "reportedUserDecision (store_response b True now resp s) = reportedUserDecision s"
  "requestContext (store_response b True now resp s) = requestContext s"
  by (simp_all add: store_response_def setTimeToFirstRecommendation_def Let_def)

lemma activated_session:
  assumes "state s = REQUESTING"
  shows "activate s = s\<lparr>state := ACTIVE\<rparr>"
  using assms by (simp add: activate_def)

lemma show_items_as:
  "snd (show_items env rng resp s) = fst (shown_items env (session_right s) rng (resp_suggestions resp))"
  "suggestionsStates (fst (show_items env rng resp s)) =
     suggestionsStates (record_states (snd (shown_items env (session_right s) rng (resp_suggestions resp))) s)"
  "suggestionsAfterRightContextMerge (fst (show_items env rng resp s)) =
     suggestionsAfterRightContextMerge s @ fst (shown_items env (session_right s) rng (resp_suggestions resp))"
  "predictionType (fst (show_items env rng resp s)) = predictionType s"
  by (simp_all add: show_items_def session_right_def Let_def split_def)

lemma report_closed:
  assumes "state (session_of sv r) = CLOSED" "\<not> reportedUserDecision (session_of sv r)"
    "predictionType (session_of sv r) = Some COMPLETION"
  shows "reported (emitUserTriggerDecisionTelemetry now r a None sv) = reported sv @ [r]"
    "state (session_of (emitUserTriggerDecisionTelemetry now r a None sv) r) = CLOSED"
  using assms
  by (simp_all add: emitUserTriggerDecisionTelemetry_def getAggregatedUserTriggerDecision_def Let_def emit_decision_store)

text \<open>
  The session of a first response is shown or closed. \<^verbatim>\<open>fresh\<close> holds of the session a request has just
  created.
\<close>

definition fresh :: "CodeWhispererSession \<Rightarrow> bool" where
  "fresh s \<longleftrightarrow> state s = REQUESTING \<and> \<not> discardInflightSessionOnNewInvocation s \<and> \<not> reportedUserDecision s \<and>
     suggestionsStates s = [] \<and> suggestionsAfterRightContextMerge s = []"

lemma close_active_session:
  assumes "state (session_of sv r) = ACTIVE"
  shows "state (session_of (close_in e now r sv) r) = CLOSED"
    "reportedUserDecision (session_of (close_in e now r sv) r) = reportedUserDecision (session_of sv r)"
    "predictionType (session_of (close_in e now r sv) r) = predictionType (session_of sv r)"
    "reported (close_in e now r sv) = reported sv"
  using assms quiet_close_in [of sv e now r]
  by (simp_all add: close_in_store update_session_def close_def Let_def quiet_def)

lemma first_response:
  fixes sv :: inline_server and r :: session_ref and env :: inline_env and now :: int and perf :: real
    and rng :: "range option" and resp :: GenerateSuggestionsResponse
  assumes f: "fresh (session_of sv r)" and c: "currentSession (sv_completions sv) = Some r"
    and d: "distinct (map sug_itemId (resp_suggestions resp))"
  defines "shown \<equiv> filter (\<lambda>g. suggestion_fate env (session_right (session_of sv r)) rng g = None) (resp_suggestions resp)"
  defines "x \<equiv> processSuggestionResponse env now perf r True rng resp sv"
  shows "if shown = [] \<and> \<not> truthy (rc_nextToken (resp_responseContext resp))
    then snd x = EMPTY_RESULT \<and> state (session_of (fst x) r) = CLOSED \<and> reported (fst x) = reported sv @ [r]
    else snd x = \<lparr>cl_items = map (merge_item (session_right (session_of sv r)) (env_includeImports env) rng) shown,
                  cl_sessionId = session_id (session_of sv r),
                  cl_partialResultToken = rc_nextToken (resp_responseContext resp)\<rparr> \<and>
         state (session_of (fst x) r) = ACTIVE \<and> reported (fst x) = reported sv \<and>
         (\<forall>g\<in>set (resp_suggestions resp). getSuggestionState (session_of (fst x) r) (sug_itemId g) =
            suggestion_fate env (session_right (session_of sv r)) rng g)"
proof -
  let ?s = "session_of sv r" and ?gs = "resp_suggestions resp"
  let ?token = "rc_nextToken (resp_responseContext resp)"
  define sv1 where "sv1 = receive_response env now perf r True resp sv"
  define sv2 where "sv2 = sv1\<lparr>sv_store := activateSession (sv_store sv1) (sv_completions sv1) r\<rparr>"
  define sv3 where "sv3 = modify_session r (\<lambda>_. fst (show_items env rng resp (session_of sv2 r))) sv2"
  have nf: "\<not> discardInflightSessionOnNewInvocation ?s" and st: "state ?s = REQUESTING" using f by (simp_all add: fresh_def)
  note 1 = receive_new_response [OF nf, of env now perf resp, folded sv1_def]
  have s2: "session_of sv2 r = (store_response (env_includeImports env) True now resp ?s)\<lparr>state := ACTIVE\<rparr>"
    using c by (simp add: sv2_def activateSession_def update_session_def 1 activated_session stored_session st)
  have rc: "session_right (session_of sv2 r) = session_right ?s" by (simp add: s2 session_right_def stored_session)
  have id2: "session_id (session_of sv2 r) = session_id ?s" by (simp add: s2 stored_session)
  have none: "suggestionsAfterRightContextMerge (session_of sv2 r) = []" "suggestionsStates (session_of sv2 r) = []"
    using f by (simp_all add: s2 stored_session fresh_def)
  have items: "snd (show_items env rng resp (session_of sv2 r)) =
      map (merge_item (session_right ?s) (env_includeImports env) rng) shown"
    by (simp add: show_items_as rc shown_items_as shown_def)
  have after: "suggestionsAfterRightContextMerge (fst (show_items env rng resp (session_of sv2 r))) =
      map (merge_item (session_right ?s) (env_includeImports env) rng) shown"
    by (simp add: show_items_as rc shown_items_as shown_def none)
  have x: "x = (if shown = [] \<and> \<not> truthy ?token
      then (emitUserTriggerDecisionTelemetry now r (no_decision_args (sv_timeSinceLastUserModification sv)) None
              (close_in False now r sv3), EMPTY_RESULT)
      else (sv3, \<lparr>cl_items = map (merge_item (session_right ?s) (env_includeImports env) rng) shown,
                  cl_sessionId = session_id ?s, cl_partialResultToken = ?token\<rparr>))"
    unfolding x_def processSuggestionResponse_as sv1_def [symmetric] sv2_def [symmetric] sv3_def [symmetric]
    by (simp add: 1 stored_session st after items id2)
  have s3: "state (session_of sv3 r) = ACTIVE" "reportedUserDecision (session_of sv3 r) = reportedUserDecision ?s"
    "predictionType (session_of sv3 r) = Some COMPLETION" "reported sv3 = reported sv"
    by (simp_all add: sv3_def s2 stored_session show_items_as) (simp add: sv2_def 1)
  have fate: "getSuggestionState (session_of sv3 r) (sug_itemId g) = suggestion_fate env (session_right ?s) rng g"
    if "g \<in> set ?gs" for g
    using fates_recorded [OF d that none(2)] by (simp add: sv3_def getSuggestionState_def show_items_as rc)
  note cl = close_active_session [OF s3(1), of False now]
  show ?thesis
    using f fate s3 report_closed [OF cl(1), of now] cl unfolding x by (auto simp: fresh_def)
qed

section \<open>Failures of the service\<close>

text \<open>
  C7. When the service fails, the completion handler leaves a consistent server: its session is final, no
  other session changes, no decision is reported, the handler is free for the next request, and the
  request fails exactly when the credentials expired or the error is one of the service manager's own
  (with its code, or the code for expired connections); every other error yields an empty list.
\<close>

theorem service_failure_outcome:
  "let x = inline_finish env now perf r isNew rng (Inl e) sv
   in state (session_of (fst x) r) \<in> {CLOSED, DISCARD} \<and> (\<forall>q. q = r \<or> session_of (fst x) q = session_of sv q) \<and>
      reported (fst x) = reported sv \<and> \<not> sv_inlineInProgress (fst x) \<and>
      snd x = (if err_expired e \<or> err_isAmazonQ e
               then RequestFailed (if err_message e = [] then ''Error processing suggestion requests'' else err_message e)
                      (if err_expired e then ''E_AMAZON_Q_CONNECTION_EXPIRED'' else err_code e)
               else Reply \<lparr>cl_items = [], cl_sessionId = [], cl_partialResultToken = None\<rparr>)"
proof -
  let ?x = "inline_finish env now perf r isNew rng (Inl e) sv"
  let ?c = "close_in False now r (emitServiceInvocationFailure now r e sv)"
  have fst: "fst ?x = ?c\<lparr>sv_inlineInProgress := False\<rparr>"
    by (simp add: inline_finish_def split_def Let_def handleSuggestionsErrors_as)
  have snd: "snd ?x = translate_error e EMPTY_RESULT"
    by (simp add: inline_finish_def split_def Let_def handleSuggestionsErrors_def)
  have store: "sv_store ?c = update_session r (\<lambda>s. close s now) (sv_store sv)"
    by (simp add: close_in_store emitServiceInvocationFailure_def Let_def)
  have "reported (fst ?x) = reported sv"
    using failure_quiet(1) [of sv False now r r e] by (simp add: fst quiet_def reported_def)
  moreover have "state (session_of (fst ?x) r) \<in> {CLOSED, DISCARD}"
    using final_close [of "session_of sv r" now] by (simp add: fst store update_session_def final_def)
  moreover have "\<forall>q. q = r \<or> session_of (fst ?x) q = session_of sv q" by (simp add: fst store update_session_def)
  ultimately show ?thesis
    by (simp add: Let_def snd fst translate_error_def connection_expired_code_def EMPTY_RESULT_def)
qed

section \<open>Results of a session\<close>

lemma results_store:
  assumes f: "find_session (rp_sessionId p) sv = Some (r, e)" and a: "state (session_of sv r) = ACTIVE"
  obtains sv5 args where "session_of sv5 = (session_of sv)(r := close (setClientResultData (session_of sv r) (rp_results p)
        (rp_firstCompletionDisplayLatency p) (rp_totalSessionDisplayTime p) (rp_typeaheadLength p)) now)"
    "reported sv5 = reported sv"
    "handleSessionResults now p sv = emitUserTriggerDecisionTelemetry now r args
       (case rp_results p of [] \<Rightarrow> None | (i, _) # _ \<Rightarrow> Some i) sv5"
proof -
  define s where "s = session_of sv r"
  define sv2 where "sv2 = remember_rejected now s p (fst (count_accepted now s (rp_results p) sv))"
  define sv3 where "sv3 = modify_session r (\<lambda>s. setClientResultData s (rp_results p)
    (rp_firstCompletionDisplayLatency p) (rp_totalSessionDisplayTime p) (rp_typeaheadLength p)) sv2"
  define sv4 where "sv4 = (if rp_firstCompletionDisplayLatency p \<noteq> None \<and> rp_firstCompletionDisplayLatency p \<noteq> Some 0
    then emitPerceivedLatencyTelemetry r sv3 else sv3)"
  define sv5 where "sv5 = fst (report_streak (is_accepted (rp_results p)) (close_in e now r sv4))"
  have st2: "sv_store sv2 = sv_store sv" "reported sv2 = reported sv"
    using counted_fields [of now s "rp_results p" sv] by (simp_all add: sv2_def remember_rejected_def reported_def)
  have st4: "sv_store sv4 = sv_store sv3" "reported sv4 = reported sv"
    by (simp_all add: sv4_def sv3_def emitPerceivedLatencyTelemetry_def Let_def st2)
  have rep: "reported sv5 = reported sv"
    using quiet_trans [OF quiet_close_in same_refs_close_in quiet_streak] st4(2) unfolding sv5_def quiet_def by metis
  have cells: "session_of sv5 = (session_of sv)(r := close (setClientResultData (session_of sv r) (rp_results p)
        (rp_firstCompletionDisplayLatency p) (rp_totalSessionDisplayTime p) (rp_typeaheadLength p)) now)"
    by (simp add: sv5_def report_streak_store close_in_store st4 sv3_def modify_session_def update_session_def st2 fun_eq_iff)
  show ?thesis
    by (rule that [OF cells rep]) (simp only: f a handleSessionResults_def option.case prod.case simp_thms if_False
      Let_def split_def fst_conv snd_conv sv5_def sv4_def sv3_def sv2_def s_def)
qed

lemma item_decision_None:
  "state s = CLOSED \<Longrightarrow> getUserTriggerDecision s i = None \<longleftrightarrow> i = None \<or> i = Some []"
  unfolding getUserTriggerDecision_def by (auto split: option.split UserDecision.split)

lemma report_closed_item:
  assumes "state (session_of sv r) = CLOSED"
  shows "reported (emitUserTriggerDecisionTelemetry now r a i sv) = reported sv @
    (if reportedUserDecision (session_of sv r) \<or>
        predictionType (session_of sv r) = Some EDIT \<and> (i = None \<or> i = Some []) then [] else [r])"
proof -
  have agg: "getAggregatedUserTriggerDecision (session_of sv r) \<noteq> None"
    by (simp add: getAggregatedUserTriggerDecision_def assms)
  show ?thesis
    unfolding emitUserTriggerDecisionTelemetry_def Let_def
    using agg item_decision_None [OF assms, of i] by (auto simp: emit_decision_store split: option.split)
qed

text \<open>
  C6. Logged results count once, for an active session: for an unknown or a not active session nothing at
  all changes; for an active one the session is closed, no other session changes, and its decision is
  reported unless it already was or it is an edit session without a named first item.
\<close>

theorem session_results_effect:
  "let x = handleSessionResults now p sv
   in case find_session (rp_sessionId p) sv of
        None \<Rightarrow> x = sv
      | Some (r, e) \<Rightarrow>
          let s = session_of sv r
          in if state s \<noteq> ACTIVE then x = sv
             else state (session_of x r) = CLOSED \<and> (\<forall>q. q = r \<or> session_of x q = session_of sv q) \<and>
                  reported x = reported sv @
                    (if reportedUserDecision s \<or>
                        predictionType s = Some EDIT \<and> (case rp_results p of [] \<Rightarrow> True | (i, _) # _ \<Rightarrow> i = [])
                     then [] else [r])"
proof (cases "find_session (rp_sessionId p) sv")
  case None
  then show ?thesis by (simp add: handleSessionResults_def)
next
  case (Some x)
  obtain r e where x: "x = (r, e)" by (cases x)
  note f = Some [unfolded x]
  show ?thesis
  proof (cases "state (session_of sv r) = ACTIVE")
    case False
    then show ?thesis by (simp add: handleSessionResults_def f Let_def)
  next
    case True
    let ?s = "session_of sv r"
    let ?s5 = "close (setClientResultData ?s (rp_results p) (rp_firstCompletionDisplayLatency p)
        (rp_totalSessionDisplayTime p) (rp_typeaheadLength p)) now"
    let ?i = "case rp_results p of [] \<Rightarrow> None | (i, _) # _ \<Rightarrow> Some i"
    obtain sv5 args where c: "session_of sv5 = (session_of sv)(r := ?s5)" and rep: "reported sv5 = reported sv"
      and h: "handleSessionResults now p sv = emitUserTriggerDecisionTelemetry now r args ?i sv5"
      by (rule results_store [OF f True])
    have s5: "state ?s5 = CLOSED" "reportedUserDecision ?s5 = reportedUserDecision ?s" "predictionType ?s5 = predictionType ?s"
      using True by (simp_all add: close_def setClientResultData_def Let_def)
    have r: "session_of sv5 r = ?s5" using c by simp
    have "reported (emitUserTriggerDecisionTelemetry now r args ?i sv5) = reported sv5 @
        (if reportedUserDecision ?s \<or> predictionType ?s = Some EDIT \<and> (?i = None \<or> ?i = Some []) then [] else [r])"
      using report_closed_item [of sv5 r now args ?i] unfolding r s5 by simp
    moreover have "(?i = None \<or> ?i = Some []) = (case rp_results p of [] \<Rightarrow> True | (i, _) # _ \<Rightarrow> i = [])"
      by (cases "rp_results p") (auto split: prod.split)
    moreover have "\<forall>q. q = r \<or> session_of (emitUserTriggerDecisionTelemetry now r args ?i sv5) q = session_of sv q"
      unfolding emitUserTriggerDecisionTelemetry_def Let_def by (simp add: emit_decision_store c split: option.split)
    ultimately show ?thesis
      using True report_session(2) [of now r args ?i sv5 r] s5(1) by (simp add: f h rep c r Let_def)
  qed
qed

end
