(* ===== verification/Server_Properties.thy ===== *)
theory Server_Properties
  imports Responses
begin

text \<open>
  What holds of every run of the inline-suggestion server, from its initialisation on, and a sample run.
\<close>

section \<open>Properties of every run\<close>

lemma initial_run_ok: "run_ok (initial_run mem edits cfg)" "exclusive (initial_run mem edits cfg)"
proof -
  let ?sv = "onInitializedHandler edits cfg (new_server mem)"
  have f: "sv_store ?sv = \<lparr>cells = mem, next_ref = 0\<rparr>" "sv_events ?sv = []" "sv_pendingReports ?sv = []"
    "sv_completions ?sv = new_manager" "sv_edits ?sv = new_manager" "\<not> sv_inlineInProgress ?sv"
    by (simp_all add: onInitializedHandler_def Let_def configuration_fields new_server_def)
  have "reported ?sv = []" using f(2) by (simp add: reported_def List.map_filter_def)
  then show "run_ok (initial_run mem edits cfg)"
    by (simp add: initial_run_def run_ok_def reports_ok_def completion_refs_def other_refs_def manager_refs_def f new_manager_def)
  show "exclusive (initial_run mem edits cfg)"
    by (simp add: initial_run_def exclusive_def f new_manager_def)
qed

lemma reachable_ok:
  "server_step\<^sup>*\<^sup>* (initial_run mem edits cfg) R \<Longrightarrow> run_ok R \<and> exclusive R"
  by (induction rule: rtranclp_induct) (use initial_run_ok run_ok_server_step exclusive_server_step in blast)+


text \<open>
  C4. Completion requests run one at a time: along every run the number of completion requests that wait
  for something is one while the handler's flag is set and none otherwise, so the flag never stays set
  without a request. A consequence: a new completion request never meets a session that is still
  requesting, so it never marks one for being discarded; it changes no session.
\<close>

theorem completion_requests_exclusive:
  assumes "server_step\<^sup>*\<^sup>* (initial_run mem edits cfg) R"
  shows "length (filter is_inline (run_waiting R)) = (if sv_inlineInProgress (run_server R) then 1 else 0) \<and>
    sv_store (fst (inline_start env now p (run_server R))) = sv_store (run_server R)"
proof
  have ex: "exclusive R" using reachable_ok [OF assms] by blast
  then show len: "length (filter is_inline (run_waiting R)) = (if sv_inlineInProgress (run_server R) then 1 else 0)"
    by (simp add: exclusive_def)
  have "state (session_of (run_server R) r) \<noteq> REQUESTING"
    if "\<not> sv_inlineInProgress (run_server R)" "currentSession (sv_completions (run_server R)) = Some r" for r
    using ex that len unfolding exclusive_def by (auto simp: filter_empty_conv)
  then show "sv_store (fst (inline_start env now p (run_server R))) = sv_store (run_server R)"
    by (simp add: inline_start_def getCurrentSession_def Let_def split: option.split)
qed

section \<open>A sample run\<close>

definition sample_env :: "Coefficients \<Rightarrow> inline_env" where
  "sample_env c =
     \<lparr>env_managerReady = True, env_tokenService = False, env_coefficients = c, env_os = ''Linux'', env_ide = None,
      env_methods = flat_document, env_relativePath = ''a.py'', env_workspaceId = None, env_extraContext = None,
      env_includeImports = False, env_includeReferences = True, env_startUrl = None, env_customizationArn = None\<rparr>"

definition sample_params :: inline_params where
  "sample_params =
     \<lparr>ip_uri = ''file:///a.py'', ip_position = sample_position, ip_automatic = False, ip_partialResultToken = None,
      ip_selectionRange = None,
      ip_override = Some \<lparr>ov_leftFileContent = ''x'', ov_rightFileContent = [], ov_filename = ''a.py'',
                          ov_fileUri = None, ov_programmingLanguage = Some ''python''\<rparr>,
      ip_changes = None\<rparr>"

definition sample_config :: AmazonQWorkspaceConfig where
  "sample_config =
     \<lparr>cfg_customizationArn = None, cfg_optOutTelemetryPreference = ''OPTIN'', cfg_sendUserWrittenCodeMetrics = False\<rparr>"

definition sample_prepared :: prepared_request where
  "sample_prepared =
     \<lparr>pr_document = flat_sample,
      pr_fileContext = \<lparr>fc_fileUri = None, fc_filename = ''a.py'', fc_languageName = ''python'',
                        fc_leftFileContent = ''x'', fc_rightFileContent = []\<rparr>,
      pr_startPreprocessTimestamp = 2, pr_autoTriggerType = None, pr_triggerCharacters = [],
      pr_autoTriggerResult = None\<rparr>"

definition no_suggestions :: GenerateSuggestionsResponse where
  "no_suggestions =
     \<lparr>resp_suggestions = [], resp_suggestionType = None,
      resp_responseContext = \<lparr>rc_requestId = Some ''q'', rc_codewhispererSessionId = ''s'', rc_nextToken = None\<rparr>\<rparr>"

definition sample_server :: inline_server where
  "sample_server = onInitializedHandler None sample_config (new_server (\<lambda>_. sample_session))"

definition requested_server :: "Coefficients \<Rightarrow> inline_server" where
  "requested_server c = fst (send_request (sample_env c) 3 ''id'' sample_params sample_prepared None
     (fst (inline_start (sample_env c) 1 sample_params sample_server)))"

lemmas sample_run_defs = sample_env_def sample_params_def sample_config_def sample_prepared_def no_suggestions_def
  sample_server_def requested_server_def onInitializedHandler_def updateConfiguration_def new_server_def new_manager_def

lemma sample_run_requested:
  "server_step\<^sup>*\<^sup>* (initial_run (\<lambda>_. sample_session) None sample_config)
     \<lparr>run_server = requested_server c, run_waiting = [InlineService 0 True None]\<rparr>"
proof -
  let ?env = "sample_env c"
  let ?sv1 = "fst (inline_start ?env 1 sample_params sample_server)"
  have 1: "inline_start ?env 1 sample_params sample_server = (?sv1, Some None)"
    by (simp add: inline_start_def sample_run_defs getCurrentSession_def Let_def)
  have 2: "prepare_request ?env 2 sample_params (Some flat_sample) ?sv1 = Some sample_prepared"
    by (simp add: prepare_request_def inferred_language_def request_file_context_def sample_params_def sample_prepared_def Let_def)
  have 3: "send_request ?env 3 ''id'' sample_params sample_prepared None ?sv1 =
      (requested_server c, 0, snd (snd (send_request ?env 3 ''id'' sample_params sample_prepared None ?sv1)))"
    by (simp add: send_request_def requested_server_def discard_active_def inline_start_def getCurrentSession_def
      sample_run_defs createSession_def Let_def split_def)
  have np: "\<not> wants_page sample_params None" by (simp add: wants_page_def)
  have s1: "server_step (initial_run (\<lambda>_. sample_session) None sample_config)
      \<lparr>run_server = ?sv1, run_waiting = [InlineDocument sample_params None]\<rparr>"
    using server_step.inline_requested [OF 1, of "[]"] by (simp add: initial_run_def sample_server_def)
  have s2: "server_step \<lparr>run_server = ?sv1, run_waiting = [InlineDocument sample_params None]\<rparr>
      \<lparr>run_server = ?sv1, run_waiting = [InlineContext sample_params sample_prepared]\<rparr>"
    using server_step.inline_prepared [OF np 2, of "[]" "[]"] by simp
  have s3: "server_step \<lparr>run_server = ?sv1, run_waiting = [InlineContext sample_params sample_prepared]\<rparr>
      \<lparr>run_server = requested_server c, run_waiting = [InlineService 0 True None]\<rparr>"
    using server_step.inline_sent [OF 3, of "[]" "[]"] by (simp add: sample_params_def)
  show ?thesis
    by (rule converse_rtranclp_into_rtranclp [where r = server_step, OF s1
        converse_rtranclp_into_rtranclp [where r = server_step, OF s2 r_into_rtranclp [where r = server_step, OF s3]]])
qed

theorem completion_requests_exclusive_witness:
  "\<forall>c. length (filter is_inline [InlineService 0 True None]) = (if sv_inlineInProgress (requested_server c) then 1 else 0)"
  using completion_requests_exclusive [OF sample_run_requested] by simp

lemma sample_run_answered:
  "server_step\<^sup>*\<^sup>* (initial_run (\<lambda>_. sample_session) None sample_config)
     \<lparr>run_server = fst (inline_finish (sample_env c) 4 0 0 True None (Inr no_suggestions) (requested_server c)),
      run_waiting = []\<rparr>"
  using rtranclp.rtrancl_into_rtrancl [OF sample_run_requested
    server_step.inline_answered [where A = "[]" and B = "[]", simplified]] .

lemma requested_session:
  "fresh (session_of (requested_server c) 0)" "currentSession (sv_completions (requested_server c)) = Some 0"
  "session_right (session_of (requested_server c) 0) = []" "session_id (session_of (requested_server c) 0) = ''id''"
  "reported (requested_server c) = []"
  by (simp_all add: fresh_def session_right_def send_request_def requested_server_def discard_active_def inline_start_def getCurrentSession_def sample_run_defs createSession_def new_session_def getPreviousSession_def reported_def List.map_filter_def extend_left_def truthy_def Let_def split_def)


section \<open>The first response of a session\<close>


definition two_suggestions :: GenerateSuggestionsResponse where
  "two_suggestions = no_suggestions\<lparr>resp_suggestions :=
     [sample_suggestion ''a'', (sample_suggestion ''b'')\<lparr>sug_content := Some []\<rparr>]\<rparr>"

lemma two_suggestions_simps:
  "resp_suggestions two_suggestions = [sample_suggestion ''a'', (sample_suggestion ''b'')\<lparr>sug_content := Some []\<rparr>]"
  "rc_nextToken (resp_responseContext two_suggestions) = None"
  "sug_itemId (sample_suggestion i) = i"
  by (simp_all add: two_suggestions_def no_suggestions_def sample_suggestion_def)

lemma two_suggestions_fates:
  "suggestion_fate (sample_env c) [] None (sample_suggestion ''a'') = None"
  "suggestion_fate (sample_env c) [] None ((sample_suggestion ''b'')\<lparr>sug_content := Some []\<rparr>) = Some UD_Empty"
proof -
  have "truncateOverlapWithRightContext [] ''x'' = ''x''" by code_simp
  then show "suggestion_fate (sample_env c) [] None (sample_suggestion ''a'') = None"
    by (simp add: suggestion_fate_def sample_env_def sample_suggestion_def has_references_def merge_item_def Let_def)
qed (simp add: suggestion_fate_def)


section \<open>Rejected edits and late metrics\<close>

text \<open>
  The filter for rejected edits never fires: both callers of the response handler leave the document out,
  so the rejected edits of the document with the empty address are asked. As long as no edit was
  rejected in such a document, every suggestion is processed as if nothing had ever been rejected.
\<close>

theorem rejected_edits_not_filtered:
  assumes "\<forall>e\<in>set (rejectedEdits t). rej_documentUri e \<noteq> []"
  shows "edit_item_of env t None s g = edit_item_of env new_rejected None s g \<and> \<not> snd (edit_item_of env t None s g)"
proof -
  have "filter (\<lambda>edit. rej_documentUri edit = []) (rejectedEdits t) = []" using assms by (simp add: filter_empty_conv)
  then show ?thesis
    by (simp add: edit_item_of_def isSimilarToRejected_def new_rejected_def Let_def split_def)
qed

theorem rejected_edits_not_filtered_witness:
  "\<forall>env :: edit_env. \<forall>s. \<not> snd (edit_item_of env \<lparr>rejectedEdits = [sample_rejection ''x'']\<rparr> None s (sample_suggestion ''a''))"
proof -
  have "\<forall>e\<in>set (rejectedEdits \<lparr>rejectedEdits = [sample_rejection ''x'']\<rparr>). rej_documentUri e \<noteq> []"
    by (simp add: sample_rejection_def)
  then show ?thesis using rejected_edits_not_filtered by blast
qed

lemma usage_simps [simp]:
  "sv_uw (modify_session r f sv) = sv_uw sv" "sv_uw (emit e sv) = sv_uw sv" "sv_uw (fst (report_streak b sv)) = sv_uw sv"
  "sv_uw (emitServiceInvocationTelemetry now r i sv) = sv_uw sv"
  "sv_uw (emitUserTriggerDecision now r d a sv) = sv_uw sv"
  "sv_uw (emitUserTriggerDecisionTelemetry now r a i sv) = sv_uw sv"
  by (simp_all add: modify_session_def emit_def report_streak_def emitServiceInvocationTelemetry_def
    emitUserTriggerDecision_def emitUserTriggerDecisionTelemetry_def Let_def split_def split: option.split)

text \<open>
  The completion handler keeps the user-written-code tracker it was built with. When the metrics are off at
  initialisation and turned on later, the server has a tracker and counts typed tokens with it, but
  responses of the service are not counted as usage.
\<close>

theorem late_metrics_not_counted:
  "let sv = updateConfiguration (cfg2\<lparr>cfg_sendUserWrittenCodeMetrics := True\<rparr>)
              (onInitializedHandler edits (cfg1\<lparr>cfg_sendUserWrittenCodeMetrics := False\<rparr>) (new_server mem))
   in sv_uw sv = Some new_user_written \<and> sv_uw (receive_response env now perf r isNew resp sv) = sv_uw sv"
proof -
  let ?sv = "updateConfiguration (cfg2\<lparr>cfg_sendUserWrittenCodeMetrics := True\<rparr>)
      (onInitializedHandler edits (cfg1\<lparr>cfg_sendUserWrittenCodeMetrics := False\<rparr>) (new_server mem))"
  have 1: "sv_uw ?sv = Some new_user_written" "\<not> sv_inlineTracksUsage ?sv"
    by (simp_all add: updateConfiguration_def onInitializedHandler_def new_server_def Let_def)
  have "sv_uw (receive_response env now perf r isNew resp sv) = sv_uw sv" if "\<not> sv_inlineTracksUsage sv" for sv
    using that unfolding receive_response_def Let_def split_def by simp
  then show ?thesis using 1 by (simp add: Let_def)
qed

end
