(* ===== verification/Shared_Config.thy ===== *)
theory Shared_Config
  imports Prelude
begin

text \<open>
  The shared configuration files of the identity server
  (\<^verbatim>\<open>src/server/aws-lsp-identity/src/sharedConfig\<close>): the settings of both files are edited as one merged set and then
  taken apart again, so that every setting goes back to the file it came from and secrets only to
  the credentials file (\<^verbatim>\<open>unmergeConfigFiles.ts\<close>, \<^verbatim>\<open>saveKnownFiles.ts\<close>, \<^verbatim>\<open>types.ts\<close>).

  Parsed files are objects of objects: association lists with distinct keys in the order in which
  \<^verbatim>\<open>Object.entries\<close> enumerates them. Loading and merging are done by a third-party package. Section names that
  are members of \<^verbatim>\<open>Object.prototype\<close> are outside the model.
\<close>

section \<open>Definitions\<close>

type_synonym ini_section = "(string \<times> string) list"
type_synonym parsed_ini = "(string \<times> ini_section) list"

definition removeDeletedEntries :: "(string \<times> 'a) list \<Rightarrow> (string \<times> 'b) list \<Rightarrow> (string \<times> 'a) list" where
  "removeDeletedEntries removeFrom deletedFrom = filter (\<lambda>(k, _). map_has deletedFrom k) removeFrom"

definition isSecretSetting :: "string \<Rightarrow> bool" where
  "isSecretSetting name \<longleftrightarrow>
     name \<in> set [''aws_access_key_id'', ''aws_secret_access_key'', ''aws_session_token'']"

text \<open>One setting goes to the section of the configuration or of the credentials file, in some cases to both.\<close>

fun apply_setting :: "string \<times> string \<Rightarrow> ini_section \<times> ini_section \<Rightarrow> ini_section \<times> ini_section" where
  "apply_setting (name, val) (configSection, credentialsSection) =
     (let inConfig = map_has configSection name; inCredentials = map_has credentialsSection name
      in if isSecretSetting name
         then (if inConfig then map_del name configSection else configSection, map_set name val credentialsSection)
         else if \<not> inCredentials then (map_set name val configSection, credentialsSection)
         else (if inConfig then map_set name val configSection else configSection, map_set name val credentialsSection))"

definition section_of :: "parsed_ini \<Rightarrow> string \<Rightarrow> ini_section" where
  "section_of file name = (case map_get file name of None \<Rightarrow> [] | Some s \<Rightarrow> s)"

text \<open>A section goes back into its file, or is removed when nothing is left of it.\<close>

definition put_section :: "string \<Rightarrow> ini_section \<Rightarrow> parsed_ini \<Rightarrow> parsed_ini" where
  "put_section name s file = (if length s = 0 then map_del name file else map_set name s file)"

definition unmergeSectionToConfigFiles ::
    "string \<times> ini_section \<Rightarrow> parsed_ini \<times> parsed_ini \<Rightarrow> parsed_ini \<times> parsed_ini" where
  "unmergeSectionToConfigFiles = (\<lambda>(sectionName, mergedSettings) (configFile, credentialsFile).
     let (configSection, credentialsSection) =
           fold apply_setting mergedSettings
             (removeDeletedEntries (section_of configFile sectionName) mergedSettings,
              removeDeletedEntries (section_of credentialsFile sectionName) mergedSettings)
     in (put_section sectionName configSection configFile, put_section sectionName credentialsSection credentialsFile))"

definition unmergeConfigFiles :: "parsed_ini \<Rightarrow> parsed_ini \<Rightarrow> parsed_ini \<Rightarrow> parsed_ini \<times> parsed_ini" where
  "unmergeConfigFiles parsedKnownFiles configFile credentialsFile =
     fold unmergeSectionToConfigFiles parsedKnownFiles
       (removeDeletedEntries configFile parsedKnownFiles, removeDeletedEntries credentialsFile parsedKnownFiles)"

text \<open>
  \<^verbatim>\<open>normalizeParsedIniData\<close> renames settings to lower case, one entry after the other; a setting that is
  already there in lower case is overwritten.
\<close>

definition lower_setting :: "string \<times> string \<Rightarrow> ini_section \<Rightarrow> ini_section" where
  "lower_setting = (\<lambda>(n, v) s. if n \<noteq> toLowerCase n then map_del n (map_set (toLowerCase n) v s) else s)"

definition normalizeParsedIniData :: "parsed_ini \<Rightarrow> parsed_ini" where
  "normalizeParsedIniData ini = map (\<lambda>(n, s). (n, fold lower_setting s s)) ini"

definition saveKnownFiles_unmerge :: "parsed_ini \<Rightarrow> parsed_ini \<Rightarrow> parsed_ini \<Rightarrow> parsed_ini \<times> parsed_ini" where
  "saveKnownFiles_unmerge parsedKnownFiles configFile credentialsFile =
     unmergeConfigFiles parsedKnownFiles (normalizeParsedIniData configFile) (normalizeParsedIniData credentialsFile)"

text \<open>The path of a file: the environment variable, relative to the home directory, or the default.\<close>

definition getSharedConfigFilepath :: "(string list \<Rightarrow> string) \<Rightarrow> string \<Rightarrow> (string \<Rightarrow> string option) \<Rightarrow> string \<Rightarrow> string \<Rightarrow> string" where
  "getSharedConfigFilepath join homeDir env filename envVar =
     (case env envVar of
        Some v \<Rightarrow> if v \<noteq> [] then (if startsWith v ''~/'' then join [homeDir, substring_from v 2] else v)
                  else join [homeDir, ''.aws'', filename]
      | None \<Rightarrow> join [homeDir, ''.aws'', filename])"

section \<open>Section headers and settings\<close>

datatype IniFileType = config | credentials

datatype IniSectionType = PROFILE | SSO_SESSION | SERVICES

definition type_name :: "IniSectionType \<Rightarrow> string" where
  "type_name t = (case t of PROFILE \<Rightarrow> ''profile'' | SSO_SESSION \<Rightarrow> ''sso-session'' | SERVICES \<Rightarrow> ''services'')"

record SectionHeader =
  sh_name :: string
  sh_type :: IniSectionType
  sh_comment :: "string option"

definition toIniSectionName :: "IniFileType \<Rightarrow> SectionHeader \<Rightarrow> string" where
  "toIniSectionName filetype h =
     (let showType = (filetype = config \<and> \<not> (sh_type h = PROFILE \<and> sh_name h = ''default''))
      in ''['' @ (if showType then type_name (sh_type h) @ '' '' else []) @ sh_name h @ '']'' @
         (case sh_comment h of None \<Rightarrow> [] | Some c \<Rightarrow> c))"

definition CONFIG_PREFIX_SEPARATOR :: char where
  "CONFIG_PREFIX_SEPARATOR = CHR ''.''"

definition profile_header :: "string \<Rightarrow> SectionHeader" where
  "profile_header name = \<lparr>sh_name = name, sh_type = PROFILE, sh_comment = None\<rparr>"

text \<open>A dot that does not follow the name of a section type belongs to the name of a profile.\<close>

definition fromParsedSectionName :: "string \<Rightarrow> SectionHeader" where
  "fromParsedSectionName n =
     (if CONFIG_PREFIX_SEPARATOR \<notin> set n then profile_header n
      else let t = takeWhile (\<lambda>c. c \<noteq> CONFIG_PREFIX_SEPARATOR) n; rest = drop (length t + 1) n
           in case List.find (\<lambda>k. type_name k = t) [PROFILE, SSO_SESSION, SERVICES] of
                Some k \<Rightarrow> \<lparr>sh_name = rest, sh_type = k, sh_comment = None\<rparr>
              | None \<Rightarrow> profile_header n)"

definition toParsedSectionName :: "SectionHeader \<Rightarrow> string" where
  "toParsedSectionName h =
     (if sh_type h = PROFILE then sh_name h else type_name (sh_type h) @ [CONFIG_PREFIX_SEPARATOR] @ sh_name h)"

record Setting =
  set_name :: string
  set_value :: string
  set_comment :: "string option"
  set_indent :: "string option"
  set_subsection :: "string option"

definition setting_fromParsedSettingName :: "string \<Rightarrow> string \<Rightarrow> Setting" where
  "setting_fromParsedSettingName n v =
     (let components = split_on CONFIG_PREFIX_SEPARATOR n
      in \<lparr>set_name = components ! 1, set_value = v, set_comment = None, set_indent = None,
          set_subsection = Some (components ! 0)\<rparr>)"

text \<open>An empty subsection, comment or indentation counts as missing.\<close>

definition given :: "string option \<Rightarrow> string \<Rightarrow> string" where
  "given v d = (case v of None \<Rightarrow> d | Some s \<Rightarrow> if s = [] then d else s)"

definition toParsedSettingName :: "Setting \<Rightarrow> string" where
  "toParsedSettingName s =
     (if given (set_subsection s) [] \<noteq> [] then the (set_subsection s) @ [CONFIG_PREFIX_SEPARATOR] else []) @ set_name s"

definition toIniSubsectionHeaderLine :: "Setting \<Rightarrow> string" where
  "toIniSubsectionHeaderLine s =
     (case set_subsection s of None \<Rightarrow> ''undefined'' | Some b \<Rightarrow> b) @ '' ='' @ given (set_comment s) []"

definition toIniSettingLine :: "Setting \<Rightarrow> string" where
  "toIniSettingLine s =
     (if given (set_subsection s) [] \<noteq> [] then given (set_indent s) ''  '' else []) @
     set_name s @ '' = '' @ set_value s @ given (set_comment s) []"

section \<open>Taking one section apart\<close>

text \<open>What a reader of both files sees: a setting of the credentials file wins.\<close>

definition merged_get :: "ini_section \<times> ini_section \<Rightarrow> string \<Rightarrow> string option" where
  "merged_get = (\<lambda>(cs, cr) k. case map_get cr k of Some v \<Rightarrow> Some v | None \<Rightarrow> map_get cs k)"

lemma removeDeleted_get:
  "map_get (removeDeletedEntries m d) k = (if map_has d k then map_get m k else None)"
  by (induction m) (auto simp: removeDeletedEntries_def map_get_def)

lemma removeDeleted_wf: "map_wf m \<Longrightarrow> map_wf (removeDeletedEntries m d)"
  unfolding removeDeletedEntries_def map_wf_def by (induction m) auto

lemma apply_setting_same:
  "merged_get (apply_setting (n, v) p) n = Some v"
  "isSecretSetting n \<Longrightarrow> map_get (fst (apply_setting (n, v) p)) n = None"
  by (cases p; simp add: merged_get_def Let_def js_map)+

lemma apply_setting_other:
  assumes "k \<noteq> n"
  shows "map_get (fst (apply_setting (n, v) p)) k = map_get (fst p) k"
    "map_get (snd (apply_setting (n, v) p)) k = map_get (snd p) k"
  using assms by (cases p; simp add: Let_def js_map)+

lemma apply_settings_other:
  "k \<notin> fst ` set m \<Longrightarrow> map_get (fst (fold apply_setting m p)) k = map_get (fst p) k"
  "k \<notin> fst ` set m \<Longrightarrow> map_get (snd (fold apply_setting m p)) k = map_get (snd p) k"
proof (induction m arbitrary: p)
  case (Cons x m)
  {
    case 1
    then show ?case using Cons.IH(1) apply_setting_other(1) by (cases x) simp
  next
    case 2
    then show ?case using Cons.IH(2) apply_setting_other(2) by (cases x) simp
  }
qed simp_all

lemma merged_get_eq: "merged_get p k = (case map_get (snd p) k of Some v \<Rightarrow> Some v | None \<Rightarrow> map_get (fst p) k)"
  by (simp add: merged_get_def split_def)

lemma apply_settings_in:
  assumes "map_wf m" "map_get m k = Some v"
  shows "merged_get (fold apply_setting m p) k = Some v \<and>
    (isSecretSetting k \<longrightarrow> map_get (fst (fold apply_setting m p)) k = None)"
  using assms
proof (induction m arbitrary: p)
  case (Cons x m)
  obtain n w where x: "x = (n, w)" by (cases x)
  show ?case
  proof (cases "k = n")
    case True
    then have v: "w = v" and k: "k \<notin> fst ` set m" using Cons.prems by (auto simp: x map_get_def map_wf_def)
    show ?thesis
      using apply_settings_other [OF k, of "apply_setting (k, v) p"] apply_setting_same [of k v p]
      by (simp add: x True [symmetric] v merged_get_eq cong: option.case_cong)
  next
    case False
    then have "map_get m k = Some v" "map_wf m" using Cons.prems by (auto simp: x map_get_def map_wf_def)
    then show ?thesis using Cons.IH by simp
  qed
qed simp

lemma unmerged_section:
  fixes m cs cr :: ini_section
  assumes wf: "map_wf m"
  defines "p \<equiv> fold apply_setting m (removeDeletedEntries cs m, removeDeletedEntries cr m)"
  shows "merged_get p k = map_get m k" and "isSecretSetting k \<Longrightarrow> map_get (fst p) k = None"
proof -
  show "merged_get p k = map_get m k"
  proof (cases "map_get m k")
    case None
    then have k: "k \<notin> fst ` set m" "\<not> map_has m k" by (auto simp: map_get_def map_has_def map_of_eq_None_iff)
    then show ?thesis
      using apply_settings_other [OF k(1)] by (simp add: p_def merged_get_eq removeDeleted_get None)
  next
    case (Some v)
    then show ?thesis using apply_settings_in [OF wf Some] by (simp add: p_def)
  qed
  show "map_get (fst p) k = None" if "isSecretSetting k"
  proof (cases "map_get m k")
    case None
    then have k: "k \<notin> fst ` set m" "\<not> map_has m k" by (auto simp: map_get_def map_has_def map_of_eq_None_iff)
    then show ?thesis using apply_settings_other(1) [OF k(1)] by (simp add: p_def removeDeleted_get)
  next
    case (Some v)
    then show ?thesis using apply_settings_in [OF wf Some] that by (simp add: p_def)
  qed
qed

section \<open>Taking the files apart\<close>

lemma section_of_put:
  "section_of (put_section n s f) q = (if q = n then s else section_of f q)"
  by (auto simp: section_of_def put_section_def js_map)

lemma unmergeSection_sections:
  "section_of (fst (unmergeSectionToConfigFiles (n, m) p)) q =
     (if q = n then fst (fold apply_setting m (removeDeletedEntries (section_of (fst p) n) m,
                          removeDeletedEntries (section_of (snd p) n) m)) else section_of (fst p) q)"
  "section_of (snd (unmergeSectionToConfigFiles (n, m) p)) q =
     (if q = n then snd (fold apply_setting m (removeDeletedEntries (section_of (fst p) n) m,
                          removeDeletedEntries (section_of (snd p) n) m)) else section_of (snd p) q)"
  by (cases p; simp add: unmergeSectionToConfigFiles_def split_def Let_def section_of_put)+

lemma unmerge_other:
  "q \<notin> fst ` set k \<Longrightarrow> section_of (fst (fold unmergeSectionToConfigFiles k p)) q = section_of (fst p) q"
  "q \<notin> fst ` set k \<Longrightarrow> section_of (snd (fold unmergeSectionToConfigFiles k p)) q = section_of (snd p) q"
  by (induction k arbitrary: p) (auto simp: unmergeSection_sections)

lemma unmerge_in:
  assumes "map_wf k" "map_get k q = Some m" "map_wf m"
  shows "merged_get (section_of (fst (fold unmergeSectionToConfigFiles k p)) q,
      section_of (snd (fold unmergeSectionToConfigFiles k p)) q) n = map_get m n \<and>
    (isSecretSetting n \<longrightarrow> map_get (section_of (fst (fold unmergeSectionToConfigFiles k p)) q) n = None)"
  using assms
proof (induction k arbitrary: p)
  case (Cons x k)
  obtain s w where x: "x = (s, w)" by (cases x)
  show ?case
  proof (cases "q = s")
    case True
    then have w: "w = m" and q: "q \<notin> fst ` set k" using Cons.prems by (auto simp: x map_get_def map_wf_def)
    show ?thesis
      using unmerged_section [OF Cons.prems(3)]
      by (simp add: x True [symmetric] w unmerge_other [OF q] unmergeSection_sections)
  next
    case False
    then have "map_get k q = Some m" "map_wf k" using Cons.prems by (auto simp: x map_get_def map_wf_def)
    then show ?thesis using Cons.IH Cons.prems(3) by simp
  qed
qed simp

lemma unmerge_absent:
  assumes "map_get k q = None"
  shows "section_of (fst (unmergeConfigFiles k c d)) q = []" "section_of (snd (unmergeConfigFiles k c d)) q = []"
proof -
  have q: "q \<notin> fst ` set k" "\<not> map_has k q" using assms by (auto simp: map_get_def map_has_def map_of_eq_None_iff)
  show "section_of (fst (unmergeConfigFiles k c d)) q = []" "section_of (snd (unmergeConfigFiles k c d)) q = []"
    unfolding unmergeConfigFiles_def unmerge_other [OF q(1)] by (simp_all add: section_of_def removeDeleted_get q(2))
qed

text \<open>Parsed files with distinct section and setting names.\<close>

definition ini_wf :: "parsed_ini \<Rightarrow> bool" where
  "ini_wf f \<longleftrightarrow> map_wf f \<and> list_all (\<lambda>(_, s). map_wf s) f"

lemma ini_wf_section: "ini_wf f \<Longrightarrow> map_get f q = Some m \<Longrightarrow> map_wf m"
  unfolding ini_wf_def list_all_iff map_get_def by (auto dest: map_of_SomeD)

text \<open>
  C11. Taking the merged settings apart loses nothing and adds nothing: whatever the two files held before,
  reading them back merged (the settings of the credentials file win, as the loader documents) gives
  every setting of every section exactly the value it has in the merged settings, and no other.
\<close>

theorem unmerge_roundtrip:
  fixes merge :: "parsed_ini \<Rightarrow> parsed_ini \<Rightarrow> parsed_ini"
  assumes merge: "\<And>c d s k. map_get (section_of (merge c d) s) k =
      (case map_get (section_of d s) k of Some v \<Rightarrow> Some v | None \<Rightarrow> map_get (section_of c s) k)"
    and wf: "ini_wf known"
  shows "map_get (section_of (case unmergeConfigFiles known c d of (c', d') \<Rightarrow> merge c' d') s) k =
    map_get (section_of known s) k"
proof (cases "map_get known s")
  case None
  then show ?thesis
    using unmerge_absent [OF None, of c d] by (simp add: split_def merge section_of_def [of known])
next
  case (Some m)
  have "map_wf known" using wf by (simp add: ini_wf_def)
  from unmerge_in [OF this Some ini_wf_section [OF wf Some]]
  have "merged_get (section_of (fst (unmergeConfigFiles known c d)) s, section_of (snd (unmergeConfigFiles known c d)) s) k
      = map_get m k" unfolding unmergeConfigFiles_def by blast
  then show ?thesis by (simp add: split_def merge merged_get_eq section_of_def [of known] Some cong: option.case_cong)
qed

definition sample_known :: parsed_ini where
  "sample_known = [(''default'', [(''region'', ''us-east-1''), (''aws_session_token'', ''t'')])]"

definition simple_merge :: "parsed_ini \<Rightarrow> parsed_ini \<Rightarrow> parsed_ini" where
  "simple_merge c d = map (\<lambda>s. (s, section_of d s @ section_of c s)) (remdups (map fst d @ map fst c))"

lemma simple_merge_get:
  "map_get (section_of (simple_merge c d) s) k =
     (case map_get (section_of d s) k of Some v \<Rightarrow> Some v | None \<Rightarrow> map_get (section_of c s) k)"
proof -
  have "map_of (map (\<lambda>s. (s, g s)) xs) s = (if s \<in> set xs then Some (g s) else None)" for g :: "string \<Rightarrow> ini_section" and xs
    by (induction xs) auto
  then have "map_get (simple_merge c d) s =
      (if s \<in> set (map fst d @ map fst c) then Some (section_of d s @ section_of c s) else None)"
    unfolding simple_merge_def map_get_def by simp
  moreover have "section_of d s = []" if "s \<notin> set (map fst d)"
    using that by (simp add: section_of_def map_get_def map_of_eq_None_iff [THEN iffD2])
  moreover have "section_of c s = []" if "s \<notin> set (map fst c)"
    using that by (simp add: section_of_def map_get_def map_of_eq_None_iff [THEN iffD2])
  ultimately show ?thesis
    by (auto simp: section_of_def [of "simple_merge c d"] map_get_def map_add_def split: option.split)
qed

theorem unmerge_roundtrip_witness:
  "map_get (section_of (case unmergeConfigFiles sample_known [(''old'', [(''region'', ''x'')])]
       [(''default'', [(''region'', ''eu-west-1'')])] of (c', d') \<Rightarrow> simple_merge c' d') ''default'') ''region'' =
     Some ''us-east-1''"
proof -
  have "ini_wf sample_known" by (simp add: ini_wf_def sample_known_def map_wf_def)
  from unmerge_roundtrip [OF simple_merge_get this]
  show ?thesis by (simp add: sample_known_def section_of_def map_get_def)
qed



end
