(* ===== verification/Ini_File.thy ===== *)
theory Ini_File
  imports Shared_Config
begin

text \<open>
  Writing a shared configuration file (\<^verbatim>\<open>sharedConfig/saveSharedConfigFile.ts\<close>): the file is read line by line and
  rewritten with the settings in memory, so that comments, blank lines and the order of what stays are
  kept. The regular expressions of the iterator are matching functions on characters; a group that
  did not take part is \<^verbatim>\<open>None\<close>. \<^verbatim>\<open>localeCompare\<close> is a parameter.
\<close>

section \<open>Lines\<close>

text \<open>What \<^verbatim>\<open>.\<close> matches: no line terminator.\<close>

definition is_dot :: "char \<Rightarrow> bool" where
  "is_dot c \<longleftrightarrow> c \<noteq> LF \<and> c \<noteq> CR"

definition is_hash :: "char \<Rightarrow> bool" where
  "is_hash c \<longleftrightarrow> c = CHR ''#'' \<or> c = CHR '';''"

definition comment_line :: "string \<Rightarrow> bool" where
  "comment_line s \<longleftrightarrow> (case dropWhile is_ws s of [] \<Rightarrow> False | c # rest \<Rightarrow> is_hash c \<and> list_all is_dot rest)"

definition empty_line :: "string \<Rightarrow> bool" where
  "empty_line s \<longleftrightarrow> list_all is_ws s"

text \<open>
  The end of a line, \<^verbatim>\<open>(?<comment>\s*[#;].*)?\s*$\<close>, with at least \<^verbatim>\<open>n\<close> blanks in front of a comment: \<^verbatim>\<open>None\<close> when it
  does not match, else the comment.
\<close>

definition match_tail :: "nat \<Rightarrow> string \<Rightarrow> string option option" where
  "match_tail n s =
     (let w = takeWhile is_ws s; r = dropWhile is_ws s
      in if r = [] then Some None
         else if is_hash (hd r) \<and> length w \<ge> n
         then let d = takeWhile is_dot (tl r); e = dropWhile is_dot (tl r)
              in if list_all is_ws e then Some (Some (w @ hd r # d)) else None
         else None)"

text \<open>The first match among candidates, as a backtracking matcher finds it.\<close>

fun first_match :: "('a \<Rightarrow> 'b option) \<Rightarrow> 'a list \<Rightarrow> 'b option" where
  "first_match f [] = None"
| "first_match f (x # xs) = (case f x of Some y \<Rightarrow> Some y | None \<Rightarrow> first_match f xs)"

text \<open>\<^verbatim>\<open>(?<name>.+)\](?<comment>...)?\s*$\<close>: the longest name.\<close>

definition match_name :: "string \<Rightarrow> (string \<times> string option) option" where
  "match_name s =
     first_match (\<lambda>n. if list_all is_dot (take n s) \<and> drop n s \<noteq> [] \<and> hd (drop n s) = CHR '']''
                      then map_option (\<lambda>c. (take n s, c)) (match_tail 0 (drop (n + 1) s)) else None)
       (rev [1..<length s + 1])"

definition match_typed :: "string \<Rightarrow> IniSectionType \<Rightarrow> SectionHeader option" where
  "match_typed s t =
     (let p = type_name t; r = drop (length p) s
      in if startsWith s p \<and> r \<noteq> [] \<and> is_ws (hd r)
         then map_option (\<lambda>(n, c). \<lparr>sh_name = n, sh_type = t, sh_comment = c\<rparr>) (match_name (tl r)) else None)"

text \<open>An untyped header is a profile, by the default of the constructor.\<close>

definition match_section_header :: "string \<Rightarrow> SectionHeader option" where
  "match_section_header s =
     (case dropWhile is_ws s of
        [] \<Rightarrow> None
      | c # r \<Rightarrow>
          if c \<noteq> CHR ''['' then None
          else case first_match (match_typed r) [PROFILE, SERVICES, SSO_SESSION] of
                 Some h \<Rightarrow> Some h
               | None \<Rightarrow> map_option (\<lambda>(n, c). \<lparr>sh_name = n, sh_type = PROFILE, sh_comment = c\<rparr>) (match_name r))"

text \<open>A name, blanks and an equals sign; what follows it comes second.\<close>

definition match_assignment :: "string \<Rightarrow> (string \<times> string) option" where
  "match_assignment s =
     (let n = takeWhile is_word_char s; r = dropWhile is_ws (dropWhile is_word_char s)
      in if n \<noteq> [] \<and> r \<noteq> [] \<and> hd r = CHR ''='' then Some (n, tl r) else None)"

text \<open>
  \<^verbatim>\<open>\s*(?<value>.+?)(?<comment>\s+[#;].*)?\s*$\<close>: the blanks are as many as possible, the value as short as
  possible.
\<close>

definition match_value :: "string \<Rightarrow> (string \<times> string option) option" where
  "match_value s =
     first_match (\<lambda>w. first_match (\<lambda>n.
         let v = take n (drop w s)
         in if list_all is_dot v then map_option (\<lambda>c. (v, c)) (match_tail 1 (drop (w + n) s)) else None)
         [1..<length s - w + 1])
       (rev [0..<length (takeWhile is_ws s) + 1])"

definition match_subsection_header :: "string \<Rightarrow> string option" where
  "match_subsection_header s =
     (case match_assignment s of
        None \<Rightarrow> None
      | Some (n, r) \<Rightarrow> if match_tail 1 r \<noteq> None then Some n else None)"

definition match_setting :: "string \<Rightarrow> Setting option" where
  "match_setting s =
     (case match_assignment s of
        None \<Rightarrow> None
      | Some (n, r) \<Rightarrow>
          map_option (\<lambda>(v, c). \<lparr>set_name = toLowerCase n, set_value = v, set_comment = c, set_indent = None,
                                set_subsection = None\<rparr>) (match_value r))"

definition match_subsection_setting :: "string \<Rightarrow> string \<Rightarrow> Setting option" where
  "match_subsection_setting b s =
     (let w = takeWhile is_ws s
      in if w = [] then None
         else map_option (\<lambda>x. x\<lparr>set_indent := Some w, set_subsection := Some b\<rparr>) (match_setting (dropWhile is_ws s)))"

section \<open>One section\<close>

text \<open>
  The output so far, the settings of the section that are still to be written, and the positions after
  which new settings go: of the header, of the last setting and of the subsections.
\<close>

record section_state =
  ss_output :: "string list"
  ss_section :: ini_section
  ss_header :: nat
  ss_next :: nat
  ss_subsections :: "(string \<times> nat) list"

definition push_line :: "string \<Rightarrow> section_state \<Rightarrow> section_state" where
  "push_line l st = st\<lparr>ss_output := ss_output st @ [l]\<rparr>"

definition known_subsection :: "section_state \<Rightarrow> string \<Rightarrow> bool" where
  "known_subsection st b \<longleftrightarrow> (case map_get (ss_subsections st) b of None \<Rightarrow> False | Some n \<Rightarrow> n \<noteq> 0)"

text \<open>The handler for a setting that is in the file: dropped, or rewritten with the value in memory.\<close>

definition handle_setting :: "Setting \<Rightarrow> section_state \<Rightarrow> section_state" where
  "handle_setting s st =
     (let name = toParsedSettingName s
      in case map_get (ss_section st) name of
           None \<Rightarrow> st
         | Some v \<Rightarrow>
             if v = [] then st
             else let s' = s\<lparr>set_value := v\<rparr>;
                      st1 = st\<lparr>ss_section := map_del name (ss_section st)\<rparr>;
                      st2 = (case set_subsection s' of
                               Some b \<Rightarrow>
                                 if b \<noteq> [] \<and> \<not> known_subsection st1 b
                                 then let o' = ss_output st1 @ [toIniSubsectionHeaderLine s']
                                      in st1\<lparr>ss_output := o', ss_subsections := map_set b (length o') (ss_subsections st1)\<rparr>
                                 else st1
                             | None \<Rightarrow> st1);
                      o'' = ss_output st2 @ [toIniSettingLine s']
                  in st2\<lparr>ss_output := o'', ss_next := length o''\<rparr>)"

text \<open>
  \<^verbatim>\<open>nextSectionHeader\<close>: up to the next header, which comes with the lines after it. Comments and blank lines
  are always passed on; the other lines only go to the handler, if there is one.
\<close>

fun nextSectionHeader ::
    "bool \<Rightarrow> string option \<Rightarrow> string list \<Rightarrow> section_state \<Rightarrow> section_state \<times> (SectionHeader \<times> string list) option" where
  "nextSectionHeader handled sub [] st = (st, None)"
| "nextSectionHeader handled sub (l # ls) st =
     (if comment_line l \<or> empty_line l then nextSectionHeader handled sub ls (push_line l st)
      else case match_section_header l of
             Some h \<Rightarrow> (st, Some (h, ls))
           | None \<Rightarrow>
               if \<not> handled then nextSectionHeader handled sub ls st
               else case match_subsection_header l of
                      Some b \<Rightarrow> nextSectionHeader handled (Some b) ls st
                    | None \<Rightarrow>
                        (case Option.bind sub (\<lambda>b. match_subsection_setting b l) of
                           Some s \<Rightarrow> nextSectionHeader handled sub ls (handle_setting s st)
                         | None \<Rightarrow>
                             (case match_setting l of
                                Some s \<Rightarrow> nextSectionHeader handled None ls (handle_setting s st)
                              | None \<Rightarrow> nextSectionHeader handled sub ls (push_line (''# '' @ l) st))))"

text \<open>\<^verbatim>\<open>Object.entries(...).sort(compareObjectEntries)\<close>, a stable sort.\<close>

fun insert_entry :: "(string \<Rightarrow> string \<Rightarrow> int) \<Rightarrow> string \<times> 'a \<Rightarrow> (string \<times> 'a) list \<Rightarrow> (string \<times> 'a) list" where
  "insert_entry cmp x [] = [x]"
| "insert_entry cmp x (y # ys) = (if cmp (fst x) (fst y) \<le> 0 then x # y # ys else y # insert_entry cmp x ys)"

definition sort_entries :: "(string \<Rightarrow> string \<Rightarrow> int) \<Rightarrow> (string \<times> 'a) list \<Rightarrow> (string \<times> 'a) list" where
  "sort_entries cmp xs = foldr (insert_entry cmp) xs []"

text \<open>\<^verbatim>\<open>output.splice(i, 0, line)\<close>.\<close>

definition splice_in :: "nat \<Rightarrow> 'a \<Rightarrow> 'a list \<Rightarrow> 'a list" where
  "splice_in i x xs = take i xs @ x # drop i xs"

definition entry_setting :: "string \<Rightarrow> string \<Rightarrow> Setting" where
  "entry_setting n v =
     (if CONFIG_PREFIX_SEPARATOR \<in> set n then setting_fromParsedSettingName n v
      else \<lparr>set_name = n, set_value = v, set_comment = None, set_indent = None, set_subsection = None\<rparr>)"

definition open_subsection :: "Setting \<Rightarrow> section_state \<Rightarrow> section_state" where
  "open_subsection s st =
     (let b = given (set_subsection s) []
      in if b \<noteq> [] \<and> \<not> known_subsection st b
         then st\<lparr>ss_output := splice_in (ss_next st) (toIniSubsectionHeaderLine s) (ss_output st),
                 ss_subsections := map_set b (ss_next st + 1) (ss_subsections st),
                 ss_next := ss_next st + 1\<rparr>
         else st)"

definition setting_index :: "Setting \<Rightarrow> section_state \<Rightarrow> nat" where
  "setting_index s st =
     (let b = given (set_subsection s) []
      in if b \<noteq> [] then (case map_get (ss_subsections st) b of None \<Rightarrow> 0 | Some k \<Rightarrow> k) else ss_next st)"

definition output_setting :: "string \<times> string \<Rightarrow> section_state \<Rightarrow> section_state" where
  "output_setting = (\<lambda>(n, v) st.
     if n = [] \<or> v = [] then st
     else let s = entry_setting n v; st1 = open_subsection s st
          in st1\<lparr>ss_output := splice_in (setting_index s st1) (toIniSettingLine s) (ss_output st1),
                 ss_next := ss_next st1 + 1\<rparr>)"

definition outputNewSettings :: "(string \<Rightarrow> string \<Rightarrow> int) \<Rightarrow> section_state \<Rightarrow> section_state" where
  "outputNewSettings cmp st =
     fold output_setting (sort_entries cmp (ss_section st))
       (st\<lparr>ss_next := (if ss_next st = 0 then ss_header st else ss_next st)\<rparr>)"

definition open_section :: "string list \<Rightarrow> string \<Rightarrow> ini_section \<Rightarrow> section_state" where
  "open_section out header s =
     \<lparr>ss_output = out @ [header], ss_section = s, ss_header = length out + 1, ss_next = 0, ss_subsections = []\<rparr>"

section \<open>The file\<close>

lemma nextSectionHeader_shorter:
  "nextSectionHeader handled sub ls st = (st', Some (h, rest)) \<Longrightarrow> length rest < length ls"
  by (induction handled sub ls st rule: nextSectionHeader.induct)
    (auto split: if_splits option.splits simp: less_SucI)

definition no_section :: "string list \<Rightarrow> section_state" where
  "no_section out = \<lparr>ss_output = out, ss_section = [], ss_header = 0, ss_next = 0, ss_subsections = []\<rparr>"

text \<open>The section of a header: rewritten, or left out when there are no settings for it.\<close>

definition rewrite_section ::
    "(string \<Rightarrow> string \<Rightarrow> int) \<Rightarrow> IniFileType \<Rightarrow> SectionHeader \<Rightarrow> string list \<Rightarrow> string list \<Rightarrow> parsed_ini \<Rightarrow>
     section_state \<times> (SectionHeader \<times> string list) option" where
  "rewrite_section cmp filetype h ls out f =
     (let s = section_of f (toParsedSectionName h)
      in if s \<noteq> []
         then (case nextSectionHeader True None ls (open_section out (toIniSectionName filetype h) s) of
                 (st, nxt) \<Rightarrow> (outputNewSettings cmp st, nxt))
         else nextSectionHeader False None ls (no_section out))"

lemma rewrite_section_shorter:
  "rewrite_section cmp filetype h ls out f = (st, Some (h', ls')) \<Longrightarrow> length ls' < length ls"
  unfolding rewrite_section_def Let_def by (auto split: if_splits prod.splits dest: nextSectionHeader_shorter)

text \<open>A section and all after it; the sections of the file in memory that are left come second.\<close>

function rewrite_sections ::
    "(string \<Rightarrow> string \<Rightarrow> int) \<Rightarrow> IniFileType \<Rightarrow> SectionHeader \<Rightarrow> string list \<Rightarrow> string list \<Rightarrow> parsed_ini \<Rightarrow>
     string list \<times> parsed_ini" where
  "rewrite_sections cmp filetype h ls out f =
     (case rewrite_section cmp filetype h ls out f of
        (st, None) \<Rightarrow> (ss_output st, map_del (toParsedSectionName h) f)
      | (st, Some (h', ls')) \<Rightarrow>
          rewrite_sections cmp filetype h' ls' (ss_output st) (map_del (toParsedSectionName h) f))"
  by pat_completeness auto
termination
  by (relation "measure (\<lambda>(_, _, _, ls, _, _). length ls)")
    (auto dest: rewrite_section_shorter rewrite_section_shorter [OF sym])

declare rewrite_sections.simps [simp del]

definition append_section ::
    "(string \<Rightarrow> string \<Rightarrow> int) \<Rightarrow> IniFileType \<Rightarrow> string \<times> ini_section \<Rightarrow> string list \<Rightarrow> string list" where
  "append_section cmp filetype = (\<lambda>(n, s) out.
     if n \<noteq> [] \<and> s \<noteq> []
     then ss_output (outputNewSettings cmp
            (open_section (out @ [[]]) (toIniSectionName filetype (fromParsedSectionName n)) s))
     else out)"

text \<open>The sections of an existing file (\<^verbatim>\<open>None\<close> when there is none), and the ones that are new.\<close>

definition rewrite_file ::
    "(string \<Rightarrow> string \<Rightarrow> int) \<Rightarrow> IniFileType \<Rightarrow> string option \<Rightarrow> parsed_ini \<Rightarrow> string list \<times> parsed_ini" where
  "rewrite_file cmp filetype contents f =
     (case contents of
        None \<Rightarrow> ([], f)
      | Some c \<Rightarrow>
          (case nextSectionHeader False None (split_eol c) (no_section []) of
             (st, None) \<Rightarrow> (ss_output st, f)
           | (st, Some (h, ls)) \<Rightarrow> rewrite_sections cmp filetype h ls (ss_output st) f))"

definition saved_lines ::
    "(string \<Rightarrow> string \<Rightarrow> int) \<Rightarrow> IniFileType \<Rightarrow> string option \<Rightarrow> parsed_ini \<Rightarrow> string list" where
  "saved_lines cmp filetype contents f =
     (let (out, rest) = rewrite_file cmp filetype contents f
      in fold (append_section cmp filetype) (sort_entries cmp rest) out)"

definition saveSharedConfigFile ::
    "(string \<Rightarrow> string \<Rightarrow> int) \<Rightarrow> string \<Rightarrow> IniFileType \<Rightarrow> string option \<Rightarrow> parsed_ini \<Rightarrow> string" where
  "saveSharedConfigFile cmp EOL filetype contents file = join_with EOL (saved_lines cmp filetype contents file)"

section \<open>Comments and blank lines\<close>

abbreviation kept_line :: "string \<Rightarrow> bool" where
  "kept_line l \<equiv> comment_line l \<or> empty_line l"

lemma subseq_splice_in: "subseq xs ys \<Longrightarrow> subseq xs (splice_in i y ys)"
  unfolding splice_in_def
  by (metis append_take_drop_id subseq_order.trans list_emb_append_mono subseq_order.refl list_emb_Cons)

lemma subseq_extended: "subseq xs ys \<Longrightarrow> subseq xs (ys @ zs)"
  using list_emb_append_mono [of "(=)" xs ys "[]" zs] by simp

lemma push_line_output: "ss_output (push_line l st) = ss_output st @ [l]"
  by (simp add: push_line_def)

lemma handle_setting_output: "\<exists>e. ss_output (handle_setting s st) = ss_output st @ e"
  by (simp add: handle_setting_def Let_def split: option.split)

lemma open_subsection_keeps: "subseq xs (ss_output st) \<Longrightarrow> subseq xs (ss_output (open_subsection s st))"
  by (simp add: open_subsection_def Let_def subseq_splice_in)

lemma output_setting_keeps:
  assumes "subseq xs (ss_output st)"
  shows "subseq xs (ss_output (output_setting p st))"
  using assms by (cases p) (simp add: output_setting_def Let_def subseq_splice_in open_subsection_keeps)

lemma outputNewSettings_keeps:
  assumes "subseq xs (ss_output st)"
  shows "subseq xs (ss_output (outputNewSettings cmp st))"
proof -
  have "subseq xs (ss_output (fold output_setting ps t))" if "subseq xs (ss_output t)" for ps t
    using that by (induction ps arbitrary: t) (simp_all add: output_setting_keeps)
  then show ?thesis unfolding outputNewSettings_def using assms by simp
qed

lemma nextSectionHeader_keeps:
  "subseq xs (ss_output st) \<Longrightarrow> nextSectionHeader handled sub ls st = (st', next) \<Longrightarrow>
   \<exists>c r. filter kept_line ls = c @ r \<and> subseq (xs @ c) (ss_output st') \<and>
     r = (case next of None \<Rightarrow> [] | Some (h, rest) \<Rightarrow> filter kept_line rest)"
proof (induction handled sub ls st arbitrary: xs rule: nextSectionHeader.induct)
  case (1 handled sub st)
  then show ?case by auto
next
  case (2 handled sub l ls st)
  have hs: "subseq xs (ss_output (handle_setting s st))" for s
    using handle_setting_output [of s st] "2.prems"(1) by (auto intro: subseq_extended)
  show ?case
  proof (cases "kept_line l")
    case True
    have "subseq (xs @ [l]) (ss_output (push_line l st))"
      using "2.prems"(1) by (simp add: push_line_output)
    from "2.IH"(1) [OF True this] obtain c r where "filter kept_line ls = c @ r" "subseq ((xs @ [l]) @ c) (ss_output st')"
      "r = (case next of None \<Rightarrow> [] | Some (h, rest) \<Rightarrow> filter kept_line rest)"
      using "2.prems"(2) True by auto
    then show ?thesis using True by (intro exI [of _ "l # c"] exI [of _ r]) simp
  next
    case False
    have push: "subseq xs (ss_output (push_line (''# '' @ l) st))"
      using "2.prems"(1) by (simp add: push_line_output subseq_extended)
    show ?thesis
      using "2.IH"(2-) False "2.prems" hs push
      by (auto split: option.splits if_splits simp: Let_def)
  qed
qed

lemma rewrite_section_keeps:
  assumes "subseq xs out" "rewrite_section cmp filetype h ls out f = (st, nxt)"
  shows "\<exists>c. filter kept_line ls = c @ (case nxt of None \<Rightarrow> [] | Some (h, rest) \<Rightarrow> filter kept_line rest) \<and>
    subseq (xs @ c) (ss_output st)"
proof -
  define s where "s = section_of f (toParsedSectionName h)"
  define st0 where "st0 = (if s \<noteq> [] then open_section out (toIniSectionName filetype h) s else no_section out)"
  obtain st1 where n: "nextSectionHeader (s \<noteq> []) None ls st0 = (st1, nxt)"
    and st: "st = (if s \<noteq> [] then outputNewSettings cmp st1 else st1)"
    using assms(2) unfolding rewrite_section_def
    by (auto simp: s_def [symmetric] st0_def Let_def split: if_splits prod.splits)
  have "subseq xs (ss_output st0)"
    using assms(1) by (simp add: st0_def open_section_def no_section_def subseq_extended)
  from nextSectionHeader_keeps [OF this n] show ?thesis unfolding st using outputNewSettings_keeps by auto
qed

lemma rewrite_sections_keeps:
  "subseq xs out \<Longrightarrow> subseq (xs @ filter kept_line ls) (fst (rewrite_sections cmp filetype h ls out f))"
proof (induction cmp filetype h ls out f arbitrary: xs rule: rewrite_sections.induct)
  case (1 cmp filetype h ls out f)
  obtain st nxt where r: "rewrite_section cmp filetype h ls out f = (st, nxt)"
    by (cases "rewrite_section cmp filetype h ls out f")
  from rewrite_section_keeps [OF "1.prems" r] obtain c where
    c: "filter kept_line ls = c @ (case nxt of None \<Rightarrow> [] | Some (h, rest) \<Rightarrow> filter kept_line rest)"
      and sub: "subseq (xs @ c) (ss_output st)" by blast
  show ?case
  proof (cases nxt)
    case None
    then show ?thesis using c sub by (subst rewrite_sections.simps) (simp add: r)
  next
    case (Some p)
    obtain h' ls' where p: "p = (h', ls')" by (cases p)
    have "subseq ((xs @ c) @ filter kept_line ls')
      (fst (rewrite_sections cmp filetype h' ls' (ss_output st) (map_del (toParsedSectionName h) f)))"
      using "1.IH" [OF r [symmetric] Some p [symmetric] sub] .
    then show ?thesis using c by (subst rewrite_sections.simps) (simp add: r Some p)
  qed
qed

lemma append_section_keeps: "subseq xs out \<Longrightarrow> subseq xs (append_section cmp filetype p out)"
  by (cases p) (simp add: append_section_def open_section_def outputNewSettings_keeps subseq_extended)

lemma append_sections_keep: "subseq xs out \<Longrightarrow> subseq xs (fold (append_section cmp filetype) ps out)"
  by (induction ps arbitrary: out) (simp_all add: append_section_keeps)

text \<open>
  Rewriting a shared configuration file keeps what people wrote around the settings: every comment line
  and every blank line of the file is in the lines written, in the same order, whatever settings and
  sections are changed, added or removed.
\<close>

theorem comments_survive:
  "subseq (filter kept_line (split_eol c)) (saved_lines cmp filetype (Some c) f)"
proof -
  obtain st nxt where n: "nextSectionHeader False None (split_eol c) (no_section []) = (st, nxt)"
    by (cases "nextSectionHeader False None (split_eol c) (no_section [])")
  have "subseq [] (ss_output (no_section []))" by simp
  from nextSectionHeader_keeps [OF this n] obtain d where
    d: "filter kept_line (split_eol c) = d @ (case nxt of None \<Rightarrow> [] | Some (h, rest) \<Rightarrow> filter kept_line rest)"
      "subseq d (ss_output st)" by auto
  show ?thesis
    using d rewrite_sections_keeps [OF d(2)]
    by (auto simp: saved_lines_def rewrite_file_def n split_def Let_def append_sections_keep split: option.splits)
qed

section \<open>Sections\<close>

lemma map_del_member: "p \<in> set (map_del k f) \<longleftrightarrow> p \<in> set f \<and> fst p \<noteq> k"
  by (cases p) (auto simp: map_del_def AList.delete_eq)

lemma section_of_member: "map_wf f \<Longrightarrow> (n, s) \<in> set f \<Longrightarrow> section_of f n = s"
  by (simp add: section_of_def map_get_def map_wf_def)

lemma set_subseq: "subseq xs ys \<Longrightarrow> set xs \<subseteq> set ys"
  by (auto dest: list_emb_set)

lemma rewrite_section_output:
  assumes "rewrite_section cmp filetype h ls out f = (st, nxt)"
  shows "set out \<subseteq> set (ss_output st)"
    and "section_of f (toParsedSectionName h) \<noteq> [] \<Longrightarrow> toIniSectionName filetype h \<in> set (ss_output st)"
proof -
  show "set out \<subseteq> set (ss_output st)"
    using rewrite_section_keeps [OF subseq_order.refl assms] set_subseq [of "out @ _" "ss_output st"] by fastforce
  assume s: "section_of f (toParsedSectionName h) \<noteq> []"
  define st0 where "st0 = open_section out (toIniSectionName filetype h) (section_of f (toParsedSectionName h))"
  obtain st1 where n: "nextSectionHeader True None ls st0 = (st1, nxt)" and st: "st = outputNewSettings cmp st1"
    using assms s unfolding rewrite_section_def by (auto simp: st0_def Let_def split: prod.splits)
  have "subseq [toIniSectionName filetype h] (ss_output st0)"
    by (simp add: st0_def open_section_def subseq_singleton_left)
  from nextSectionHeader_keeps [OF this n] obtain c where "subseq ([toIniSectionName filetype h] @ c) (ss_output st1)"
    by blast
  from set_subseq [OF outputNewSettings_keeps [OF this, of cmp]] show "toIniSectionName filetype h \<in> set (ss_output st)"
    unfolding st by simp
qed

lemma rewrite_sections_written:
  "map_wf f \<Longrightarrow> (n, s) \<in> set f \<Longrightarrow> s \<noteq> [] \<Longrightarrow> rewrite_sections cmp filetype h ls out f = (out', f') \<Longrightarrow>
   (n, s) \<in> set f' \<or> (\<exists>h'. toParsedSectionName h' = n \<and> toIniSectionName filetype h' \<in> set out')"
proof (induction cmp filetype h ls out f rule: rewrite_sections.induct)
  case (1 cmp filetype h ls out f)
  obtain st nxt where r: "rewrite_section cmp filetype h ls out f = (st, nxt)"
    by (cases "rewrite_section cmp filetype h ls out f")
  have wf: "map_wf (map_del (toParsedSectionName h) f)" using "1.prems"(1) by (simp add: js_map)
  have out: "set (ss_output st) \<subseteq> set out'"
  proof (cases nxt)
    case (Some p)
    then show ?thesis
      using "1.prems"(4) rewrite_sections_keeps [OF subseq_order.refl, of "ss_output st"]
      by (subst (asm) rewrite_sections.simps) (auto simp: r split: prod.splits dest!: set_subseq, metis fst_conv set_subseq append_Nil2 subset_iff UnI1 set_append)
  qed (use "1.prems"(4) in \<open>subst (asm) rewrite_sections.simps, simp add: r\<close>)
  show ?case
  proof (cases "n = toParsedSectionName h")
    case True
    have "section_of f (toParsedSectionName h) \<noteq> []"
      using section_of_member [OF "1.prems"(1,2)] "1.prems"(3) True by simp
    then show ?thesis using rewrite_section_output(2) [OF r] out True by blast
  next
    case False
    then have m: "(n, s) \<in> set (map_del (toParsedSectionName h) f)" using "1.prems"(2) by (simp add: map_del_member)
    show ?thesis
    proof (cases nxt)
      case None
      then show ?thesis using "1.prems"(4) m by (subst (asm) rewrite_sections.simps) (simp add: r)
    next
      case (Some p)
      obtain h' ls' where p: "p = (h', ls')" by (cases p)
      have "rewrite_sections cmp filetype h' ls' (ss_output st) (map_del (toParsedSectionName h) f) = (out', f')"
        using "1.prems"(4) by (subst (asm) rewrite_sections.simps) (simp add: r Some p)
      from "1.IH" [OF r [symmetric] Some p [symmetric] wf m "1.prems"(3) this] show ?thesis .
    qed
  qed
qed

lemma fromParsedSectionName_dot:
  assumes "CONFIG_PREFIX_SEPARATOR \<in> set n"
  obtains t r where "n = t @ CONFIG_PREFIX_SEPARATOR # r"
    "fromParsedSectionName n = (case List.find (\<lambda>k. type_name k = t) [PROFILE, SSO_SESSION, SERVICES] of
       Some k \<Rightarrow> \<lparr>sh_name = r, sh_type = k, sh_comment = None\<rparr> | None \<Rightarrow> profile_header n)"
proof -
  from split_list_first [OF assms] obtain t r
    where n: "n = t @ CONFIG_PREFIX_SEPARATOR # r" and t: "CONFIG_PREFIX_SEPARATOR \<notin> set t" by blast
  have "takeWhile (\<lambda>c. c \<noteq> CONFIG_PREFIX_SEPARATOR) n = t"
    unfolding n using t by (subst takeWhile_append2) auto
  then show thesis using that [OF n] assms unfolding fromParsedSectionName_def Let_def by (simp add: n)
qed

lemma parsed_name_again:
  assumes "\<not> startsWith n ''profile.''"
  shows "toParsedSectionName (fromParsedSectionName n) = n"
proof (cases "CONFIG_PREFIX_SEPARATOR \<in> set n")
  case True
  then obtain t r where n: "n = t @ CONFIG_PREFIX_SEPARATOR # r"
    and f: "fromParsedSectionName n = (case List.find (\<lambda>k. type_name k = t) [PROFILE, SSO_SESSION, SERVICES] of
       Some k \<Rightarrow> \<lparr>sh_name = r, sh_type = k, sh_comment = None\<rparr> | None \<Rightarrow> profile_header n)"
    by (rule fromParsedSectionName_dot)
  have "type_name PROFILE \<noteq> t"
    using assms by (auto simp: n type_name_def CONFIG_PREFIX_SEPARATOR_def startsWith_def)
  then show ?thesis unfolding f by (auto simp: toParsedSectionName_def profile_header_def n)
qed (simp add: fromParsedSectionName_def toParsedSectionName_def profile_header_def)

lemma set_sort_entries: "set (sort_entries cmp xs) = set xs"
proof -
  have "set (insert_entry cmp x ys) = insert x (set ys)" for x and ys :: "(string \<times> 'a) list"
    by (induction ys) auto
  then show ?thesis unfolding sort_entries_def by (induction xs) simp_all
qed

lemma append_section_header:
  assumes "n \<noteq> []" "s \<noteq> []"
  shows "toIniSectionName filetype (fromParsedSectionName n) \<in> set (append_section cmp filetype (n, s) out)"
proof -
  define st where "st = open_section (out @ [[]]) (toIniSectionName filetype (fromParsedSectionName n)) s"
  have "subseq (ss_output st) (ss_output (outputNewSettings cmp st))" by (rule outputNewSettings_keeps) simp
  moreover have "toIniSectionName filetype (fromParsedSectionName n) \<in> set (ss_output st)"
    by (simp add: st_def open_section_def)
  ultimately show ?thesis using assms set_subseq by (fastforce simp: append_section_def st_def)
qed

lemma append_sections_header:
  assumes "(n, s) \<in> set ps" "n \<noteq> []" "s \<noteq> []"
  shows "toIniSectionName filetype (fromParsedSectionName n) \<in> set (fold (append_section cmp filetype) ps out)"
  using assms(1)
proof (induction ps arbitrary: out)
  case (Cons p ps)
  show ?case
  proof (cases "p = (n, s)")
    case True
    have "subseq (append_section cmp filetype p out) (fold (append_section cmp filetype) (p # ps) out)"
      by (simp add: append_sections_keep)
    then show ?thesis using append_section_header [OF assms(2,3)] set_subseq True by blast
  qed (use Cons in simp)
qed simp

text \<open>
  No section is lost: for every section with settings that is to be saved, the lines written have a
  section header of its name and type, whether the file had the section before or not. (A name that
  begins with \<^verbatim>\<open>profile.\<close> is not among them: a new section of such a name is written without that prefix.)
\<close>

theorem sections_written:
  assumes "map_wf f" "(n, s) \<in> set f" "n \<noteq> []" "s \<noteq> []" "\<not> startsWith n ''profile.''"
  shows "\<exists>h. toParsedSectionName h = n \<and> toIniSectionName filetype h \<in> set (saved_lines cmp filetype contents f)"
proof -
  obtain out rest where r: "rewrite_file cmp filetype contents f = (out, rest)"
    by (cases "rewrite_file cmp filetype contents f")
  have lines: "saved_lines cmp filetype contents f = fold (append_section cmp filetype) (sort_entries cmp rest) out"
    by (simp add: saved_lines_def r)
  have "(n, s) \<in> set rest \<or> (\<exists>h. toParsedSectionName h = n \<and> toIniSectionName filetype h \<in> set out)"
    using r assms(2) rewrite_sections_written [OF assms(1,2,4)]
    by (auto simp: rewrite_file_def split: option.splits prod.splits)
  then show ?thesis
  proof
    assume "(n, s) \<in> set rest"
    then have "toIniSectionName filetype (fromParsedSectionName n) \<in> set (saved_lines cmp filetype contents f)"
      unfolding lines using assms by (intro append_sections_header) (auto simp: set_sort_entries)
    then show ?thesis using parsed_name_again [OF assms(5)] by blast
  next
    have "set out \<subseteq> set (saved_lines cmp filetype contents f)"
      unfolding lines by (rule set_subseq) (simp add: append_sections_keep)
    moreover assume "\<exists>h. toParsedSectionName h = n \<and> toIniSectionName filetype h \<in> set out"
    ultimately show ?thesis by blast
  qed
qed

theorem sections_written_witness:
  "map_wf [(''sso-session.q'', [(''sso_region'', ''eu'')])] \<and>
   (\<exists>h. toParsedSectionName h = ''sso-session.q'' \<and> toIniSectionName config h \<in>
      set (saved_lines (\<lambda>_ _. 0) config (Some ''[default]'') [(''sso-session.q'', [(''sso_region'', ''eu'')])]))"
  by (rule conjI, simp add: map_wf_def, rule sections_written [where s = "[(''sso_region'', ''eu'')]"])
    (simp_all add: map_wf_def startsWith_def)

section \<open>Lines read back\<close>

text \<open>A value that a line can hold: no line terminator, no blanks at its ends, nothing that starts a comment.\<close>

fun comment_free :: "string \<Rightarrow> bool" where
  "comment_free [] \<longleftrightarrow> True"
| "comment_free [a] \<longleftrightarrow> True"
| "comment_free (a # b # s) \<longleftrightarrow> \<not> (is_ws a \<and> is_hash b) \<and> comment_free (b # s)"

definition writable_value :: "string \<Rightarrow> bool" where
  "writable_value v \<longleftrightarrow> v \<noteq> [] \<and> list_all is_dot v \<and> \<not> is_ws (hd v) \<and> \<not> is_hash (hd v) \<and>
     \<not> is_ws (last v) \<and> comment_free v"

definition writable_name :: "string \<Rightarrow> bool" where
  "writable_name n \<longleftrightarrow> n \<noteq> [] \<and> list_all is_word_char n \<and> toLowerCase n = n"

lemma first_match_none: "(\<And>x. x \<in> set xs \<Longrightarrow> f x = None) \<Longrightarrow> first_match f (xs @ ys) = first_match f ys"
  by (induction xs) auto

lemma comment_free_drop: "comment_free s \<Longrightarrow> comment_free (drop m s)"
proof (induction s arbitrary: m rule: comment_free.induct)
  case (3 a b s)
  then show ?case by (cases m) auto
next
  case (2 v)
  then show ?case by (cases m) auto
qed simp

lemma comment_free_after_blanks:
  "comment_free s \<Longrightarrow> takeWhile is_ws s \<noteq> [] \<Longrightarrow> dropWhile is_ws s \<noteq> [] \<Longrightarrow> \<not> is_hash (hd (dropWhile is_ws s))"
proof (induction s rule: comment_free.induct)
  case (3 a b s)
  then show ?case by (cases "is_ws a"; cases "is_ws b") simp_all
next
  case (2 v)
  then show ?case by (cases "is_ws v") simp_all
qed simp

lemma match_tail_none:
  "dropWhile is_ws s \<noteq> [] \<Longrightarrow> \<not> is_hash (hd (dropWhile is_ws s)) \<or> takeWhile is_ws s = [] \<Longrightarrow> match_tail 1 s = None"
  by (simp add: match_tail_def Let_def)

lemma blanks_then_last: "s \<noteq> [] \<Longrightarrow> \<not> is_ws (last s) \<Longrightarrow> dropWhile is_ws s \<noteq> []"
  using last_in_set by fastforce

lemma tail_of_value:
  assumes "writable_value v" "m < length v"
  shows "match_tail 1 (drop m v) = None"
proof (rule match_tail_none)
  show r: "dropWhile is_ws (drop m v) \<noteq> []"
    by (rule blanks_then_last) (use assms in \<open>simp_all add: writable_value_def\<close>)
  have d: "comment_free (drop m v)" using assms(1) by (simp add: writable_value_def comment_free_drop)
  show "\<not> is_hash (hd (dropWhile is_ws (drop m v))) \<or> takeWhile is_ws (drop m v) = []"
    using comment_free_after_blanks [OF d _ r] by (rule disjCI) 
qed

lemma match_value_written:
  assumes "writable_value v"
  shows "match_value (CHR '' '' # v) = Some (v, None)"
proof -
  have v: "v \<noteq> []" "list_all is_dot v" "\<not> is_ws (hd v)" using assms by (auto simp: writable_value_def)
  have w: "takeWhile is_ws (CHR '' '' # v) = '' ''" using v by (cases v) (auto simp: is_ws_def)
  let ?f = "\<lambda>n. let u = take n (drop 1 (CHR '' '' # v))
    in if list_all is_dot u then map_option (\<lambda>c. (u, c)) (match_tail 1 (drop (1 + n) (CHR '' '' # v))) else None"
  have s: "[1..<length (CHR '' '' # v) - 1 + 1] = [1..<length v] @ [length v]"
    using v by (simp add: Suc_leI)
  have "first_match ?f ([1..<length v] @ [length v]) = first_match ?f [length v]"
    by (rule first_match_none) (use tail_of_value [OF assms] in \<open>simp add: Let_def\<close>)
  also have "\<dots> = Some (v, None)" using v by (simp add: match_tail_def)
  finally have "first_match ?f [1..<length (CHR '' '' # v) - 1 + 1] = Some (v, None)" unfolding s .
  moreover have "rev [0..<length (takeWhile is_ws (CHR '' '' # v)) + 1] = [1, 0]" unfolding w by (simp add: upt_rec)
  ultimately show ?thesis unfolding match_value_def by (simp only: first_match.simps option.case)
qed

lemma word_not_blank: "is_word_char c \<Longrightarrow> \<not> is_ws c \<and> \<not> is_hash c \<and> c \<noteq> CHR ''[''"
  by (auto simp: is_word_char_def is_ws_def is_hash_def Let_def)

lemma match_assignment_written:
  assumes "list_all is_word_char n" "n \<noteq> []"
  shows "match_assignment (n @ '' ='' @ r) = Some (n, r)"
proof -
  have w: "\<not> is_word_char (CHR '' '')" "is_ws (CHR '' '')" "\<not> is_ws (CHR ''='')"
    by (simp_all add: is_word_char_def is_ws_def)
  have "takeWhile is_word_char (n @ '' ='' @ r) = n" "dropWhile is_word_char (n @ '' ='' @ r) = '' ='' @ r"
    using assms(1) w by (simp_all add: list_all_iff)
  then show ?thesis using assms(2) w by (simp add: match_assignment_def Let_def)
qed

lemma word_line_plain:
  assumes "list_all is_word_char n" "n \<noteq> []"
  shows "\<not> kept_line (n @ r)" "match_section_header (n @ r) = None" "match_subsection_setting b (n @ r) = None"
  using assms word_not_blank [of "hd n"]
  by (cases n; simp add: comment_line_def empty_line_def match_section_header_def match_subsection_setting_def)+

lemma match_setting_written:
  assumes "writable_name n" "writable_value v"
  shows "match_setting (n @ '' ='' @ CHR '' '' # v) =
      Some \<lparr>set_name = n, set_value = v, set_comment = None, set_indent = None, set_subsection = None\<rparr>"
    and "match_subsection_header (n @ '' ='' @ CHR '' '' # v) = None"
proof -
  note a = match_assignment_written [of n]
  have n: "list_all is_word_char n" "n \<noteq> []" "toLowerCase n = n" using assms(1) by (auto simp: writable_name_def)
  show "match_setting (n @ '' ='' @ CHR '' '' # v) =
      Some \<lparr>set_name = n, set_value = v, set_comment = None, set_indent = None, set_subsection = None\<rparr>"
    unfolding match_setting_def a [OF n(1,2)] by (simp add: match_value_written [OF assms(2)] n(3))
  have v: "v \<noteq> []" "\<not> is_ws (hd v)" "\<not> is_hash (hd v)" using assms(2) by (auto simp: writable_value_def)
  show "match_subsection_header (n @ '' ='' @ CHR '' '' # v) = None"
    unfolding match_subsection_header_def a [OF n(1,2)] using v
    by (cases v) (auto simp: match_tail_def Let_def is_ws_def)
qed

lemma match_name_written:
  assumes "n \<noteq> []" "list_all is_dot n"
  shows "match_name (n @ '']'') = Some (n, None)"
proof -
  have "rev [1..<length (n @ '']'') + 1] = Suc (length n) # length n # rev [1..<length n]"
    using assms(1) by (simp add: Suc_leI)
  then show ?thesis using assms unfolding match_name_def by (simp add: match_tail_def)
qed

lemma match_typed_written:
  assumes "n \<noteq> []" "list_all is_dot n"
  shows "match_typed (type_name t @ '' '' @ n @ '']'') k =
    (if k = t then Some \<lparr>sh_name = n, sh_type = t, sh_comment = None\<rparr> else None)"
  using match_name_written [OF assms]
  by (cases t; cases k) (simp_all add: match_typed_def type_name_def startsWith_def Let_def is_ws_def)

lemma match_section_header_written:
  assumes "sh_name h \<noteq> []" "list_all is_dot (sh_name h)" "sh_comment h = None"
  shows "match_section_header (toIniSectionName config h) = Some h"
proof (cases "sh_type h = PROFILE \<and> sh_name h = ''default''")
  case True
  have "match_typed (''default]'') k = None" for k
    by (cases k) (simp_all add: match_typed_def type_name_def startsWith_def Let_def)
  moreover have "match_name (''default'' @ '']'') = Some (''default'', None)"
    by (rule match_name_written) (simp_all add: is_dot_def)
  ultimately show ?thesis
    using True assms(3) by (simp add: toIniSectionName_def match_section_header_def is_ws_def Let_def)
next
  case False
  have "first_match (match_typed (type_name (sh_type h) @ '' '' @ sh_name h @ '']'')) [PROFILE, SERVICES, SSO_SESSION] = Some h"
    using assms(3) match_typed_written [OF assms(1,2), simplified]
    by (cases "sh_type h") (simp_all add: SectionHeader.equality)
  then show ?thesis
    using False assms(3) by (simp add: toIniSectionName_def match_section_header_def is_ws_def Let_def)
qed

text \<open>
  C?. What is written can be read back. In a file that was written, the iterator finds for the line of a
  setting exactly that setting, and passes it to the handler, and it stops at the line of a section header
  with exactly that header, provided that the name and the value can be written on one line.
\<close>

lemma setting_line_read:
  assumes "writable_name n" "writable_value v"
    "s = \<lparr>set_name = n, set_value = v, set_comment = None, set_indent = None, set_subsection = None\<rparr>"
  shows "nextSectionHeader True sub (toIniSettingLine s # ls) st = nextSectionHeader True None ls (handle_setting s st)"
proof -
  have line: "toIniSettingLine s = n @ '' ='' @ CHR '' '' # v" by (simp add: toIniSettingLine_def assms(3) given_def)
  have n: "list_all is_word_char n" "n \<noteq> []" using assms(1) by (auto simp: writable_name_def)
  have b: "Option.bind sub (\<lambda>b. match_subsection_setting b (n @ r)) = None" for r
    by (cases sub) (simp_all add: word_line_plain(3) [OF n])
  show ?thesis
    using word_line_plain(1,2) [OF n, of "'' ='' @ CHR '' '' # v"]
    unfolding line nextSectionHeader.simps b match_setting_written [OF assms(1,2)] assms(3) [symmetric] by simp
qed

lemma header_line_read:
  assumes "sh_name h \<noteq> []" "list_all is_dot (sh_name h)" "sh_comment h = None"
  shows "nextSectionHeader handled sub (toIniSectionName config h # ls) st = (st, Some (h, ls))"
proof -
  have "\<not> kept_line (toIniSectionName config h)"
    by (simp add: comment_line_def empty_line_def toIniSectionName_def Let_def is_ws_def is_hash_def)
  then show ?thesis by (simp add: match_section_header_written [OF assms])
qed



section \<open>Positions that go stale\<close>

text \<open>
  A new setting of a subsection is put below the header of the subsection, at a position that was taken
  before other new settings were put in. With a new setting in each of two subsections, the one of the
  second subsection lands above its header, in the first; and the comment behind the first setting of a
  subsection is written behind its header as well.
\<close>

lemma new_setting_in_wrong_subsection:
  "saved_lines (\<lambda>_ _. 0) config (Some (join_with [LF] [''[default]'', ''api ='', ''  x = 1'', ''s3 ='', ''  y = 2 # k'']))
     [(''default'', [(''api.x'', ''1''), (''s3.y'', ''2''), (''api.n'', ''5''), (''s3.m'', ''7'')])] =
   [''[default]'', ''api ='', ''  n = 5'', ''  x = 1'', ''  m = 7'', ''s3 = # k'', ''  y = 2 # k'']"
  by code_simp

end
