(* ===== verification/Profiles.thy ===== *)
theory Profiles
  imports Ini_File "HOL-Library.List_Lexorder"
begin

text \<open>
  Profiles and sso-sessions (\<^verbatim>\<open>duckTyper.ts\<close>, \<^verbatim>\<open>language-server/profiles\<close>): reading them out of the parsed shared
  configuration, applying a client's changes to it, and the checks of \<^verbatim>\<open>updateProfile\<close>.

  The settings of a profile or sso-session are an object with distinct keys. A setting is missing
  (\<^verbatim>\<open>undefined\<close> or \<^verbatim>\<open>null\<close>), a string (a number or a boolean appears as its text), a list of strings or some
  other object. The parser of the files is a third-party package: its outcome is a parameter.
\<close>

section \<open>Errors\<close>

datatype AwsErrorCodes =
    E_CANNOT_READ_SHARED_CONFIG | E_CANNOT_WRITE_SHARED_CONFIG | E_INVALID_PROFILE | E_INVALID_SSO_SESSION
  | E_CANNOT_CREATE_PROFILE | E_CANNOT_CREATE_SSO_SESSION | E_CANNOT_OVERWRITE_SSO_SESSION
  | E_INVALID_SSO_CLIENT | E_INVALID_SSO_TOKEN | E_CANNOT_CREATE_SSO_TOKEN | E_SSO_TOKEN_EXPIRED
  | E_CANNOT_REFRESH_SSO_TOKEN | E_CANNOT_REGISTER_CLIENT | E_CANNOT_READ_SSO_CACHE | E_CANNOT_WRITE_SSO_CACHE
  | E_SSO_TOKEN_SOURCE_NOT_SUPPORTED | E_PROFILE_NOT_FOUND | E_SSO_SESSION_NOT_FOUND | E_TIMEOUT | E_CANCELLED
  | E_UNKNOWN

datatype js_error = AwsError (err_message: string) (err_code: AwsErrorCodes) | Other_error "string option"

text \<open>\<^verbatim>\<open>AwsError.wrap\<close>: the innermost error with a code is kept.\<close>

fun wrap_error :: "js_error \<Rightarrow> AwsErrorCodes \<Rightarrow> js_error" where
  "wrap_error (AwsError m c) code = AwsError m c"
| "wrap_error (Other_error m) code = AwsError (case m of None \<Rightarrow> ''Unknown error'' | Some s \<Rightarrow> s) code"

abbreviation and_then :: "js_error + 'a \<Rightarrow> ('a \<Rightarrow> js_error + 'b) \<Rightarrow> js_error + 'b" where
  "and_then r f \<equiv> (case r of Inl e \<Rightarrow> Inl e | Inr x \<Rightarrow> f x)"

definition catch_wrap :: "js_error + 'a \<Rightarrow> AwsErrorCodes \<Rightarrow> js_error + 'a" where
  "catch_wrap r code = (case r of Inl e \<Rightarrow> Inl (wrap_error e code) | Inr x \<Rightarrow> Inr x)"

section \<open>Duck typing\<close>

datatype duck_rule = requireProperty | optionalProperty | disallowProperty

type_synonym DuckTyper = "(string \<times> duck_rule) list"

text \<open>The rules in order, on the property names not yet matched; \<^verbatim>\<open>None\<close> when a rule is violated.\<close>

fun duck_rules :: "DuckTyper \<Rightarrow> string list \<Rightarrow> string list option" where
  "duck_rules [] names = Some names"
| "duck_rules ((p, r) # rules) names =
     (case r of
        requireProperty \<Rightarrow> if p \<in> set names then duck_rules rules (removeAll p names) else None
      | optionalProperty \<Rightarrow> duck_rules rules (removeAll p names)
      | disallowProperty \<Rightarrow> if p \<in> set names then None else duck_rules rules names)"

definition duck_eval :: "DuckTyper \<Rightarrow> bool \<Rightarrow> string list option \<Rightarrow> bool" where
  "duck_eval rules unmatchedOptional value =
     (case value of
        None \<Rightarrow> False
      | Some names \<Rightarrow>
          (case duck_rules rules names of None \<Rightarrow> False | Some rest \<Rightarrow> unmatchedOptional \<or> rest = []))"

definition SsoTokenProfile_typer :: DuckTyper where
  "SsoTokenProfile_typer = [(''sso_session'', requireProperty)]"

definition SsoProfile_typer :: DuckTyper where
  "SsoProfile_typer =
     [(''sso_session'', requireProperty), (''sso_account_id'', requireProperty), (''sso_role_name'', requireProperty)]"

definition ssoSessionDuckTyper :: DuckTyper where
  "ssoSessionDuckTyper =
     [(''sso_start_url'', requireProperty), (''sso_region'', requireProperty), (''sso_registration_scopes'', optionalProperty)]"

abbreviation looks_like :: "DuckTyper \<Rightarrow> (string \<times> 'a) list \<Rightarrow> bool" where
  "looks_like rules obj \<equiv> duck_eval rules True (Some (map fst obj))"

section \<open>Data\<close>

datatype setting_value = SV_missing | SV_string string | SV_list "string list" | SV_object

type_synonym settings = "(string \<times> setting_value) list"

datatype ProfileKind = Unknown | SsoTokenProfile

record Profile =
  pf_kinds :: "ProfileKind list"
  pf_name :: string
  pf_settings :: "settings option"

record SsoSession =
  sn_name :: string
  sn_settings :: "settings option"

record ProfileData =
  pd_profiles :: "Profile list"
  pd_ssoSessions :: "SsoSession list"

text \<open>Duplicates go, the first occurrence stays; then the items are trimmed, and sorted by code units.\<close>

definition normalize_items :: "string list \<Rightarrow> string list" where
  "normalize_items xs =
     sort_key (map (of_char :: char \<Rightarrow> nat)) (filter (\<lambda>s. s \<noteq> []) (map trim (rev (remdups (rev xs)))))"

definition normalizeSettingList :: "setting_value \<Rightarrow> string list option" where
  "normalizeSettingList v =
     (case v of
        SV_missing \<Rightarrow> None
      | SV_string s \<Rightarrow> if s = [] then None else Some (normalize_items (split_on (CHR '','') s))
      | SV_list xs \<Rightarrow> Some (normalize_items xs)
      | SV_object \<Rightarrow> None)"

section \<open>Loading\<close>

definition setting_of :: "ini_section \<Rightarrow> string \<Rightarrow> setting_value" where
  "setting_of s k = (case map_get s k of None \<Rightarrow> SV_missing | Some v \<Rightarrow> SV_string v)"

definition present_setting :: "ini_section \<Rightarrow> string \<Rightarrow> settings" where
  "present_setting s k = (case map_get s k of None \<Rightarrow> [] | Some v \<Rightarrow> if v = [] then [] else [(k, SV_string v)])"

definition load_profile :: "string \<Rightarrow> ini_section \<Rightarrow> Profile" where
  "load_profile name s =
     (let kinds = (if looks_like SsoTokenProfile_typer s then [SsoTokenProfile] else []) @
                  (if looks_like SsoProfile_typer s then [SsoTokenProfile] else [])
      in \<lparr>pf_kinds = (if kinds = [] then [Unknown] else kinds), pf_name = name,
          pf_settings = Some ([(''region'', setting_of s ''region''), (''sso_session'', setting_of s ''sso_session'')] @
            present_setting s ''sso_account_id'' @ present_setting s ''sso_role_name'')\<rparr>)"

definition load_ssoSession :: "string \<Rightarrow> ini_section \<Rightarrow> SsoSession" where
  "load_ssoSession name s =
     \<lparr>sn_name = name,
      sn_settings = Some ([(''sso_region'', setting_of s ''sso_region''), (''sso_start_url'', setting_of s ''sso_start_url'')] @
        (case map_get s ''sso_registration_scopes'' of
           None \<Rightarrow> []
         | Some v \<Rightarrow> if v = [] then []
                    else [(''sso_registration_scopes'', SV_list (normalize_items (split_on (CHR '','') v)))]))\<rparr>"

definition load_section :: "string \<times> ini_section \<Rightarrow> ProfileData \<Rightarrow> ProfileData" where
  "load_section = (\<lambda>(n, s) d.
     let h = fromParsedSectionName n
     in case sh_type h of
          PROFILE \<Rightarrow> d\<lparr>pd_profiles := pd_profiles d @ [load_profile (sh_name h) s]\<rparr>
        | SSO_SESSION \<Rightarrow>
            if looks_like ssoSessionDuckTyper s
            then d\<lparr>pd_ssoSessions := pd_ssoSessions d @ [load_ssoSession (sh_name h) s]\<rparr> else d
        | SERVICES \<Rightarrow> d)"

definition profile_store_load :: "js_error + parsed_ini \<Rightarrow> js_error + ProfileData" where
  "profile_store_load parsed =
     and_then (catch_wrap parsed E_CANNOT_READ_SHARED_CONFIG)
       (\<lambda>ini. Inr (fold load_section (normalizeParsedIniData ini) \<lparr>pd_profiles = [], pd_ssoSessions = []\<rparr>))"

section \<open>Saving\<close>

definition control_char :: "char \<Rightarrow> bool" where
  "control_char c \<longleftrightarrow> (let n = (of_char c :: nat) in n \<le> 31 \<or> (127 \<le> n \<and> n \<le> 159))"

text \<open>A section to be saved: its name and settings, and its kinds where it is a profile.\<close>

definition section_error :: "IniSectionType \<Rightarrow> string \<Rightarrow> js_error" where
  "section_error sectionType message =
     AwsError message (if sectionType = PROFILE then E_INVALID_PROFILE else E_INVALID_SSO_SESSION)"

text \<open>What is stored of a value: \<^verbatim>\<open>None\<close> when the setting is to be removed.\<close>

definition stored_value :: "setting_value \<Rightarrow> string option" where
  "stored_value v =
     (let s = (case v of SV_string s \<Rightarrow> trim s | SV_list xs \<Rightarrow> trim (join_with '','' (normalize_items xs)) | _ \<Rightarrow> [])
      in if s = [] then None else Some s)"

definition apply_value :: "IniSectionType \<Rightarrow> string \<times> setting_value \<Rightarrow> ini_section \<Rightarrow> js_error + ini_section" where
  "apply_value sectionType = (\<lambda>(name, v) parsedSection.
     if v = SV_object then Inl (section_error sectionType (''Setting ['' @ name @ ''] cannot be an object.''))
     else case stored_value v of
            None \<Rightarrow> Inr (if map_has parsedSection name then map_del name parsedSection else parsedSection)
          | Some s \<Rightarrow>
              if list_ex control_char s
              then Inl (section_error sectionType (''Setting ['' @ name @ ''] cannot contain control characters.''))
              else Inr (map_set name s parsedSection))"

fun apply_values :: "IniSectionType \<Rightarrow> settings \<Rightarrow> ini_section \<Rightarrow> js_error + ini_section" where
  "apply_values sectionType [] s = Inr s"
| "apply_values sectionType (p # ps) s = and_then (apply_value sectionType p s) (apply_values sectionType ps)"

definition apply_section ::
    "IniSectionType \<Rightarrow> (ini_section \<Rightarrow> bool) \<Rightarrow> string \<Rightarrow> settings option \<Rightarrow> parsed_ini \<Rightarrow> js_error + parsed_ini" where
  "apply_section sectionType validator name settings known =
     (if name = [] then Inl (section_error sectionType ''Section name is required.'')
      else let q = toParsedSectionName \<lparr>sh_name = name, sh_type = sectionType, sh_comment = None\<rparr>
           in case settings of
                None \<Rightarrow> Inr (map_del q known)
              | Some ps \<Rightarrow>
                  if ps = [] then Inr (map_del q known)
                  else and_then (apply_values sectionType ps (section_of known q))
                         (\<lambda>s. if validator s then Inr (map_set q s known)
                              else Inl (section_error sectionType ''Section is invalid.'')))"

definition apply_profile :: "Profile \<Rightarrow> parsed_ini \<Rightarrow> js_error + parsed_ini" where
  "apply_profile p =
     apply_section PROFILE (\<lambda>s. SsoTokenProfile \<notin> set (pf_kinds p) \<or> looks_like SsoTokenProfile_typer s)
       (pf_name p) (pf_settings p)"

definition apply_ssoSession :: "SsoSession \<Rightarrow> parsed_ini \<Rightarrow> js_error + parsed_ini" where
  "apply_ssoSession n = apply_section SSO_SESSION (looks_like ssoSessionDuckTyper) (sn_name n) (sn_settings n)"

fun apply_all :: "('a \<Rightarrow> 'b \<Rightarrow> js_error + 'b) \<Rightarrow> 'a list \<Rightarrow> 'b \<Rightarrow> js_error + 'b" where
  "apply_all f [] b = Inr b"
| "apply_all f (x # xs) b = and_then (f x b) (apply_all f xs)"

text \<open>
  \<^verbatim>\<open>save\<close>: the merged settings that are written, or \<^verbatim>\<open>None\<close> when there is nothing to save. Whether the two
  files can be written is a parameter.
\<close>

type_synonym file_writer = "parsed_ini \<Rightarrow> js_error option"

definition profile_store_save ::
    "js_error + parsed_ini \<Rightarrow> file_writer \<Rightarrow> ProfileData \<Rightarrow> js_error + parsed_ini option" where
  "profile_store_save parsed write d =
     (if pd_profiles d = [] \<and> pd_ssoSessions d = [] then Inr None
      else and_then (catch_wrap parsed E_CANNOT_READ_SHARED_CONFIG)
             (\<lambda>ini. and_then (apply_all apply_profile (pd_profiles d) (normalizeParsedIniData ini))
               (\<lambda>known. and_then (apply_all apply_ssoSession (pd_ssoSessions d) known)
                 (\<lambda>known'. case write known' of
                    None \<Rightarrow> Inr (Some known')
                  | Some e \<Rightarrow> Inl (wrap_error e E_CANNOT_WRITE_SHARED_CONFIG)))))"

section \<open>Updating a profile\<close>

record update_options =
  uo_createNonexistentProfile :: bool
  uo_createNonexistentSsoSession :: bool
  uo_updateSharedSsoSession :: bool

definition setting_in :: "settings \<Rightarrow> string \<Rightarrow> setting_value" where
  "setting_in ps k = (case map_get ps k of None \<Rightarrow> SV_missing | Some v \<Rightarrow> v)"

definition no_value :: "setting_value \<Rightarrow> bool" where
  "no_value v \<longleftrightarrow> v = SV_missing \<or> v = SV_string []"

definition isSharedSsoSession :: "string \<Rightarrow> Profile list \<Rightarrow> string \<Rightarrow> bool" where
  "isSharedSsoSession name profiles skipProfileName \<longleftrightarrow>
     list_ex (\<lambda>p. pf_name p \<noteq> skipProfileName \<and>
       (case pf_settings p of None \<Rightarrow> False | Some ps \<Rightarrow> setting_in ps ''sso_session'' = SV_string name)) profiles"

text \<open>Two lists made by \<^verbatim>\<open>normalizeSettingList\<close> are different objects, so only two missing ones are the same.\<close>

definition same_list_object :: "string list option \<Rightarrow> string list option \<Rightarrow> bool" where
  "same_list_object a b \<longleftrightarrow> a = None \<and> b = None"

definition willUpdateExistingSsoSession :: "SsoSession \<Rightarrow> SsoSession list \<Rightarrow> bool" where
  "willUpdateExistingSsoSession n sessions \<longleftrightarrow>
     (case List.find (\<lambda>s. sn_name s = sn_name n) sessions of
        None \<Rightarrow> False
      | Some other \<Rightarrow>
          (case (sn_settings n, sn_settings other) of
             (Some a, Some b) \<Rightarrow>
               setting_in a ''sso_region'' \<noteq> setting_in b ''sso_region'' \<or>
               setting_in a ''sso_start_url'' \<noteq> setting_in b ''sso_start_url'' \<or>
               \<not> same_list_object (normalizeSettingList (setting_in a ''sso_registration_scopes''))
                    (normalizeSettingList (setting_in b ''sso_registration_scopes''))
           | _ \<Rightarrow> False))"

definition invalid_profile :: "string \<Rightarrow> js_error" where
  "invalid_profile m = AwsError m E_INVALID_PROFILE"

definition invalid_session :: "string \<Rightarrow> js_error" where
  "invalid_session m = AwsError m E_INVALID_SSO_SESSION"

text \<open>The checks on the parameters, the first that fails; a missing \<^verbatim>\<open>settings\<close> object stops them.\<close>

definition check_update_params :: "Profile option \<Rightarrow> SsoSession option \<Rightarrow> js_error option" where
  "check_update_params profile ssoSession =
     (case profile of
        None \<Rightarrow> Some (invalid_profile ''Profile required.'')
      | Some p \<Rightarrow>
          if SsoTokenProfile \<notin> set (pf_kinds p) then Some (invalid_profile ''Profile must be non-legacy sso-session type.'')
          else if pf_name p = [] then Some (invalid_profile ''Profile name required.'')
          else case pf_settings p of
            None \<Rightarrow> Some (invalid_profile ''Settings required on profile.'')
          | Some ps \<Rightarrow>
              if no_value (setting_in ps ''sso_session'') then Some (invalid_profile ''Sso-session name required on profile.'')
              else case ssoSession of
                None \<Rightarrow> Some (invalid_session ''Sso-session required.'')
              | Some n \<Rightarrow>
                  if sn_name n = [] then Some (invalid_session ''Sso-session name required.'')
                  else case sn_settings n of
                    None \<Rightarrow> Some (invalid_session ''Settings required on sso-session.'')
                  | Some ns \<Rightarrow>
                      if no_value (setting_in ns ''sso_region'') then Some (invalid_session ''Sso-session region required.'')
                      else if no_value (setting_in ns ''sso_start_url'')
                      then Some (invalid_session ''Sso-session start URL required.'')
                      else if setting_in ps ''sso_session'' \<noteq> SV_string (sn_name n)
                      then Some (invalid_profile ''Profile sso-session name must be the same as provided sso-session.'')
                      else None)"

text \<open>The files are read twice, for the checks and when the changes are applied to them.\<close>

definition updateProfile ::
    "js_error + parsed_ini \<Rightarrow> js_error + parsed_ini \<Rightarrow> file_writer \<Rightarrow> update_options \<Rightarrow> Profile option \<Rightarrow> SsoSession option \<Rightarrow> js_error + parsed_ini option" where
  "updateProfile parsed parsed' write options profile ssoSession =
     (case check_update_params profile ssoSession of
        Some e \<Rightarrow> Inl e
      | None \<Rightarrow>
          (let p = the profile; n = the ssoSession
           in and_then (catch_wrap (profile_store_load parsed) E_CANNOT_READ_SHARED_CONFIG)
                (\<lambda>d. if \<not> uo_createNonexistentProfile options \<and> \<not> list_ex (\<lambda>q. pf_name q = pf_name p) (pd_profiles d)
                     then Inl (AwsError ''Cannot create profile.'' E_CANNOT_CREATE_PROFILE)
                     else if \<not> uo_createNonexistentSsoSession options \<and>
                             \<not> list_ex (\<lambda>s. sn_name s = sn_name n) (pd_ssoSessions d)
                     then Inl (AwsError ''Cannot create sso-session.'' E_CANNOT_CREATE_SSO_SESSION)
                     else if \<not> uo_updateSharedSsoSession options \<and>
                             isSharedSsoSession (sn_name n) (pd_profiles d) (pf_name p) \<and>
                             willUpdateExistingSsoSession n (pd_ssoSessions d)
                     then Inl (AwsError ''Cannot update shared sso-session.'' E_CANNOT_OVERWRITE_SSO_SESSION)
                     else catch_wrap (profile_store_save parsed' write \<lparr>pd_profiles = [p], pd_ssoSessions = [n]\<rparr>)
                            E_CANNOT_WRITE_SHARED_CONFIG)))"

section \<open>What saving changes\<close>

text \<open>A setting after it was given some settings: the ones given count, the others stay.\<close>

definition updated_setting :: "settings \<Rightarrow> string \<Rightarrow> string option \<Rightarrow> string option" where
  "updated_setting ps k old = (case map_get ps k of None \<Rightarrow> old | Some v \<Rightarrow> stored_value v)"

lemma apply_value_get:
  assumes "apply_value t (n, v) s = Inr s'"
  shows "map_get s' k = (if k = n then stored_value v else map_get s k)"
  using assms by (auto simp: apply_value_def js_map split: if_splits option.splits)

lemma apply_values_get:
  "apply_values t ps s = Inr s' \<Longrightarrow> map_wf ps \<Longrightarrow> map_get s' k = updated_setting ps k (map_get s k)"
proof (induction ps arbitrary: s)
  case (Cons p ps)
  obtain n v where p: "p = (n, v)" by (cases p)
  obtain s1 where s1: "apply_value t (n, v) s = Inr s1" "apply_values t ps s1 = Inr s'"
    using Cons.prems(1) by (auto simp: p split: sum.splits)
  have wf: "map_wf ps" "map_get ps n = None"
    using Cons.prems(2) by (auto simp: p map_wf_def map_get_def map_of_eq_None_iff)
  have "map_get s' k = updated_setting ps k (map_get s1 k)" by (rule Cons.IH [OF s1(2) wf(1)])
  then show ?case using apply_value_get [OF s1(1), of k] wf(2) by (auto simp: p updated_setting_def map_get_def cong: option.case_cong)
qed (simp add: updated_setting_def)

lemma apply_section_get:
  assumes "apply_section t valid name (Some ps) known = Inr known'" "map_wf ps" "ps \<noteq> []"
  defines "q \<equiv> toParsedSectionName \<lparr>sh_name = name, sh_type = t, sh_comment = None\<rparr>"
  obtains s where "known' = map_set q s known" "valid s" "name \<noteq> []"
    "\<And>k. map_get s k = updated_setting ps k (map_get (section_of known q) k)"
proof -
  obtain s where "apply_values t ps (section_of known q) = Inr s" "valid s" "known' = map_set q s known" "name \<noteq> []"
    using assms(1,3) unfolding apply_section_def q_def by (auto simp: Let_def split: if_splits sum.splits)
  then show thesis using that apply_values_get [OF _ assms(2)] by blast
qed

lemma section_of_map_set: "section_of (map_set q s f) r = (if r = q then s else section_of f r)"
  by (simp add: section_of_def js_map)

definition session_section :: "string \<Rightarrow> string" where
  "session_section name = ''sso-session.'' @ name"

lemma session_section_name:
  "toParsedSectionName \<lparr>sh_name = name, sh_type = SSO_SESSION, sh_comment = None\<rparr> = session_section name"
  "toParsedSectionName \<lparr>sh_name = name, sh_type = PROFILE, sh_comment = None\<rparr> = name"
  by (simp_all add: toParsedSectionName_def session_section_def type_name_def CONFIG_PREFIX_SEPARATOR_def)

text \<open>What a successful update has done, with all its checks.\<close>

lemma check_update_params_passed:
  assumes "check_update_params (Some p) (Some n) = None"
  obtains ps ns where "pf_settings p = Some ps" "sn_settings n = Some ns" "SsoTokenProfile \<in> set (pf_kinds p)"
    "setting_in ps ''sso_session'' = SV_string (sn_name n)" "\<not> no_value (setting_in ns ''sso_region'')"
    "\<not> no_value (setting_in ns ''sso_start_url'')" "pf_name p \<noteq> []" "sn_name n \<noteq> []"
  using assms that unfolding check_update_params_def by (auto split: if_splits option.splits)

lemma updateProfile_passed:
  assumes "updateProfile (Inr ini0) (Inr ini) write options (Some p) (Some n) = Inr (Some known')"
  obtains known1 d where "check_update_params (Some p) (Some n) = None" "profile_store_load (Inr ini0) = Inr d"
    "uo_updateSharedSsoSession options \<or> \<not> isSharedSsoSession (sn_name n) (pd_profiles d) (pf_name p) \<or>
       \<not> willUpdateExistingSsoSession n (pd_ssoSessions d)"
    "apply_profile p (normalizeParsedIniData ini) = Inr known1" "apply_ssoSession n known1 = Inr known'"
  using assms that unfolding updateProfile_def profile_store_save_def
  by (auto simp: catch_wrap_def Let_def split: if_splits option.splits sum.splits)

lemma setting_in_given: "setting_in ps k = SV_string v \<Longrightarrow> map_get ps k = Some (SV_string v)"
  by (auto simp: setting_in_def split: option.splits)

lemma not_no_value: "\<not> no_value (setting_in ps k) \<Longrightarrow> ps \<noteq> []"
  by (auto simp: setting_in_def no_value_def)

lemma updateProfile_sections:
  assumes u: "updateProfile (Inr ini0) (Inr ini) write options (Some p) (Some n) = Inr (Some known')"
    and p: "pf_settings p = Some ps" "map_wf ps" and n: "sn_settings n = Some ns" "map_wf ns"
    and other: "pf_name p \<noteq> session_section (sn_name n)"
  obtains s r where
    "known' = map_set (session_section (sn_name n)) r (map_set (pf_name p) s (normalizeParsedIniData ini))"
    "\<And>k. map_get s k = updated_setting ps k (map_get (section_of (normalizeParsedIniData ini) (pf_name p)) k)"
    "\<And>k. map_get r k = updated_setting ns k (map_get (section_of (normalizeParsedIniData ini) (session_section (sn_name n))) k)"
    "looks_like SsoTokenProfile_typer s" "looks_like ssoSessionDuckTyper r"
proof -
  define known where "known = normalizeParsedIniData ini"
  from u obtain known1 d where c: "check_update_params (Some p) (Some n) = None"
    and a: "apply_profile p known = Inr known1" "apply_ssoSession n known1 = Inr known'"
    unfolding known_def by (rule updateProfile_passed)
  from c have k: "SsoTokenProfile \<in> set (pf_kinds p)" and ne: "ps \<noteq> []" "ns \<noteq> []"
    by (rule check_update_params_passed;
        use p(1) n(1) not_no_value in \<open>auto simp: setting_in_def split: option.splits\<close>)+
  from apply_section_get [OF a(1) [unfolded apply_profile_def p(1)] p(2) ne(1)] k
  obtain s where s: "known1 = map_set (pf_name p) s known" "looks_like SsoTokenProfile_typer s"
    "\<And>k. map_get s k = updated_setting ps k (map_get (section_of known (pf_name p)) k)"
    unfolding session_section_name by metis
  from apply_section_get [OF a(2) [unfolded apply_ssoSession_def n(1)] n(2) ne(2)]
  obtain r where r: "known' = map_set (session_section (sn_name n)) r known1" "looks_like ssoSessionDuckTyper r"
    "\<And>k. map_get r k = updated_setting ns k (map_get (section_of known1 (session_section (sn_name n))) k)"
    unfolding session_section_name by metis
  show thesis
    using that r s other by (simp add: section_of_map_set known_def)
qed

text \<open>
  C14. A successful update changes exactly what it was asked to change: in the merged settings that are
  written, each setting given for the profile or the sso-session has its trimmed value, or is gone when
  none was given, and every other setting of every section is what it was.
\<close>

theorem updateProfile_exact:
  assumes "updateProfile (Inr ini0) (Inr ini) write options (Some p) (Some n) = Inr (Some known')"
    and "pf_settings p = Some ps" "map_wf ps" "sn_settings n = Some ns" "map_wf ns"
    and "pf_name p \<noteq> session_section (sn_name n)"
  shows "map_get (section_of known' q) k =
    (let old = map_get (section_of (normalizeParsedIniData ini) q) k
     in if q = pf_name p then updated_setting ps k old
        else if q = session_section (sn_name n) then updated_setting ns k old else old)"
proof -
  obtain s r where
    "known' = map_set (session_section (sn_name n)) r (map_set (pf_name p) s (normalizeParsedIniData ini))"
    "\<And>k. map_get s k = updated_setting ps k (map_get (section_of (normalizeParsedIniData ini) (pf_name p)) k)"
    "\<And>k. map_get r k = updated_setting ns k (map_get (section_of (normalizeParsedIniData ini) (session_section (sn_name n))) k)"
    using updateProfile_sections [OF assms] by metis
  then show ?thesis using assms(6) by (auto simp: section_of_map_set Let_def)
qed

definition sample_profile :: Profile where
  "sample_profile = \<lparr>pf_kinds = [SsoTokenProfile], pf_name = ''dev'',
     pf_settings = Some [(''region'', SV_string '' eu-west-1 ''), (''sso_session'', SV_string ''corp'')]\<rparr>"

definition sample_session :: SsoSession where
  "sample_session = \<lparr>sn_name = ''corp'',
     sn_settings = Some [(''sso_region'', SV_string ''us-east-1''), (''sso_start_url'', SV_string ''https://corp'')]\<rparr>"

definition sample_ini :: parsed_ini where
  "sample_ini = [(''dev'', [(''Output'', ''json''), (''region'', ''eu'')]), (''ops'', [(''sso_session'', ''corp'')]),
     (''sso-session.corp'', [(''sso_region'', ''us-east-1''), (''sso_start_url'', ''https://corp'')])]"

definition cautious :: update_options where
  "cautious = \<lparr>uo_createNonexistentProfile = True, uo_createNonexistentSsoSession = True, uo_updateSharedSsoSession = False\<rparr>"

definition sample_result :: parsed_ini where
  "sample_result = [(''dev'', [(''region'', ''eu-west-1''), (''output'', ''json''), (''sso_session'', ''corp'')]),
     (''ops'', [(''sso_session'', ''corp'')]),
     (''sso-session.corp'', [(''sso_region'', ''us-east-1''), (''sso_start_url'', ''https://corp'')])]"

lemma sample_update:
  "updateProfile (Inr sample_ini) (Inr sample_ini) (\<lambda>_. None) cautious (Some sample_profile) (Some sample_session) =
     Inr (Some sample_result)"
  by code_simp

theorem updateProfile_exact_witness:
  "map_get (section_of sample_result ''dev'') ''output'' =
    (let old = map_get (section_of (normalizeParsedIniData sample_ini) ''dev'') ''output''
     in if ''dev'' = pf_name sample_profile then updated_setting (the (pf_settings sample_profile)) ''output'' old
        else if ''dev'' = session_section (sn_name sample_session)
        then updated_setting (the (sn_settings sample_session)) ''output'' old else old)"
  by (rule updateProfile_exact [OF sample_update])
    (simp_all add: sample_profile_def sample_session_def map_wf_def session_section_def)

section \<open>Listing after an update\<close>

definition lower_names :: "(string \<times> 'a) list \<Rightarrow> bool" where
  "lower_names s \<longleftrightarrow> list_all (\<lambda>(k, _). toLowerCase k = k) s"

lemma toLowerCase_twice [simp]: "toLowerCase (toLowerCase s) = toLowerCase s"
proof -
  have "lower_char (lower_char c) = lower_char c" for c by (cases c) (auto simp: lower_char_def Let_def)
  then show ?thesis by (simp add: toLowerCase_def)
qed

lemma lower_setting_keys:
  "fst ` set (lower_setting (n, v) s) \<subseteq>
     (if toLowerCase n = n then fst ` set s else insert (toLowerCase n) (fst ` set s - {n}))"
proof -
  have "fst ` set m = {k. map_get m k \<noteq> None}" for m :: ini_section
    using jsmap.set_keys [of m] by simp
  then show ?thesis by (auto simp: lower_setting_def js_map split: if_splits)
qed

lemma lower_settings_keys:
  "k \<in> fst ` set (fold lower_setting xs s) \<Longrightarrow> toLowerCase k = k \<or> (k \<in> fst ` set s \<and> k \<notin> fst ` set xs)"
proof (induction xs arbitrary: s)
  case (Cons x xs)
  obtain n v where x: "x = (n, v)" by (cases x)
  from Cons.IH [of "lower_setting x s"] Cons.prems show ?case
    using lower_setting_keys [of n v s] by (auto simp: x split: if_splits)
qed simp

lemma normalized_lower: "(n, s) \<in> set (normalizeParsedIniData ini) \<Longrightarrow> lower_names s"
  unfolding normalizeParsedIniData_def lower_names_def list_all_iff
  using lower_settings_keys by (force simp: image_iff)

lemma lower_settings_id: "lower_names xs \<Longrightarrow> fold lower_setting xs s = s"
  by (induction xs arbitrary: s) (auto simp: lower_names_def lower_setting_def)

lemma normalized_again: "(\<And>n s. (n, s) \<in> set ini \<Longrightarrow> lower_names s) \<Longrightarrow> normalizeParsedIniData ini = ini"
  unfolding normalizeParsedIniData_def by (rule map_idI) (auto simp: lower_settings_id)

lemma lower_names_get: "lower_names s \<longleftrightarrow> (\<forall>k. map_get s k \<noteq> None \<longrightarrow> toLowerCase k = k)"
proof -
  have "lower_names s \<longleftrightarrow> (\<forall>k\<in>set (map fst s). toLowerCase k = k)" by (auto simp: lower_names_def list_all_iff)
  then show ?thesis unfolding jsmap.set_keys by simp
qed

lemma section_lower: "(\<And>n s. (n, s) \<in> set f \<Longrightarrow> lower_names s) \<Longrightarrow> lower_names (section_of f q)"
  by (auto simp: section_of_def map_get_def lower_names_def split: option.splits dest: map_of_SomeD)

lemma map_set_member: "(a, b) \<in> set (map_set k v m) \<Longrightarrow> (a, b) = (k, v) \<or> (a, b) \<in> set m"
  by (induction m) (auto simp: map_set_def split: if_splits)

lemma map_set_in: "(k, v) \<in> set (map_set k v m)"
  by (induction m) (auto simp: map_set_def)

lemma map_set_other_in: "(a, b) \<in> set m \<Longrightarrow> a \<noteq> k \<Longrightarrow> (a, b) \<in> set (map_set k v m)"
  by (induction m) (auto simp: map_set_def)

text \<open>What loading finds.\<close>

lemma load_grows:
  "set (pd_profiles d) \<subseteq> set (pd_profiles (fold load_section xs d)) \<and>
   set (pd_ssoSessions d) \<subseteq> set (pd_ssoSessions (fold load_section xs d))"
proof (induction xs arbitrary: d)
  case (Cons x xs)
  have "set (pd_profiles d) \<subseteq> set (pd_profiles (load_section x d)) \<and> set (pd_ssoSessions d) \<subseteq> set (pd_ssoSessions (load_section x d))"
    by (auto simp: load_section_def Let_def split: prod.splits IniSectionType.splits)
  with Cons [of "load_section x d"] show ?case by auto
qed auto

lemma load_profile_found:
  assumes "(n, s) \<in> set xs" "fromParsedSectionName n = profile_header n"
  shows "load_profile n s \<in> set (pd_profiles (fold load_section xs d))"
  using assms(1)
proof (induction xs arbitrary: d)
  case (Cons x xs)
  then show ?case
    using load_grows [of "load_section (n, s) d" xs] assms(2) by (auto simp: load_section_def profile_header_def)
qed simp

lemma fromParsed_session: "fromParsedSectionName (session_section n) = \<lparr>sh_name = n, sh_type = SSO_SESSION, sh_comment = None\<rparr>"
  by (simp add: fromParsedSectionName_def session_section_def CONFIG_PREFIX_SEPARATOR_def type_name_def Let_def)

lemma load_session_found:
  assumes "(session_section n, s) \<in> set xs" "looks_like ssoSessionDuckTyper s"
  shows "load_ssoSession n s \<in> set (pd_ssoSessions (fold load_section xs d))"
  using assms(1)
proof (induction xs arbitrary: d)
  case (Cons x xs)
  then show ?case
    using load_grows [of "load_section (session_section n, s) d" xs] assms(2)
    by (auto simp: load_section_def fromParsed_session)
qed simp

lemma looks_like_session:
  assumes "looks_like ssoSessionDuckTyper r"
  shows "map_get r ''sso_region'' \<noteq> None" "map_get r ''sso_start_url'' \<noteq> None"
proof -
  have "''sso_region'' \<in> set (map fst r)" "''sso_start_url'' \<in> set (map fst r)"
    using assms by (auto simp: duck_eval_def ssoSessionDuckTyper_def split: if_splits option.splits)
  then show "map_get r ''sso_region'' \<noteq> None" "map_get r ''sso_start_url'' \<noteq> None"
    unfolding jsmap.set_keys by simp_all
qed

lemma load_profile_fields:
  "pf_name (load_profile n s) = n"
  "looks_like SsoTokenProfile_typer s \<Longrightarrow> SsoTokenProfile \<in> set (pf_kinds (load_profile n s))"
  "setting_in (the (pf_settings (load_profile n s))) ''sso_session'' = setting_of s ''sso_session''"
  by (simp_all add: load_profile_def Let_def setting_in_def map_get_def)

lemma load_session_fields:
  "sn_name (load_ssoSession n s) = n"
  "sn_settings (load_ssoSession n s) \<noteq> None"
  "setting_in (the (sn_settings (load_ssoSession n s))) ''sso_region'' = setting_of s ''sso_region''"
  "setting_in (the (sn_settings (load_ssoSession n s))) ''sso_start_url'' = setting_of s ''sso_start_url''"
  by (simp_all add: load_ssoSession_def setting_in_def map_get_def)

lemma load_result: "profile_store_load (Inr ini) =
    Inr (fold load_section (normalizeParsedIniData ini) \<lparr>pd_profiles = [], pd_ssoSessions = []\<rparr>)"
  by (simp add: profile_store_load_def catch_wrap_def)

lemma given_value:
  assumes "\<not> no_value (setting_in ns k)" "updated_setting ns k old \<noteq> None"
  shows "updated_setting ns k old = stored_value (setting_in ns k)"
  using assms by (auto simp: setting_in_def no_value_def updated_setting_def split: option.splits)

text \<open>
  What was updated is listed: loading the written settings gives the profile under its name, of the
  kind with an sso-session and referring to the session, and the session with the region and the start
  URL that were given. The names of the settings are in lower case, the name of the session has no
  blanks around it, and the name of the profile is not that of another kind of section.
\<close>

theorem update_then_list:
  assumes u: "updateProfile (Inr ini0) (Inr ini) write options (Some p) (Some n) = Inr (Some known')"
    and p: "pf_settings p = Some ps" "map_wf ps" "lower_names ps" and n: "sn_settings n = Some ns" "map_wf ns" "lower_names ns"
    and name: "fromParsedSectionName (pf_name p) = profile_header (pf_name p)" "trim (sn_name n) = sn_name n"
  shows "\<exists>d P S. profile_store_load (Inr known') = Inr d \<and> P \<in> set (pd_profiles d) \<and> S \<in> set (pd_ssoSessions d) \<and>
    pf_name P = pf_name p \<and> SsoTokenProfile \<in> set (pf_kinds P) \<and>
    setting_in (the (pf_settings P)) ''sso_session'' = SV_string (sn_name n) \<and> sn_name S = sn_name n \<and>
    setting_in (the (sn_settings S)) ''sso_region'' = SV_string (the (stored_value (setting_in ns ''sso_region''))) \<and>
    setting_in (the (sn_settings S)) ''sso_start_url'' = SV_string (the (stored_value (setting_in ns ''sso_start_url'')))"
proof -
  let ?known = "normalizeParsedIniData ini" and ?q = "session_section (sn_name n)"
  have other: "pf_name p \<noteq> ?q" using name(1) fromParsed_session [of "sn_name n"] by (auto simp: profile_header_def)
  obtain s r where k: "known' = map_set ?q r (map_set (pf_name p) s ?known)"
    and s: "\<And>k. map_get s k = updated_setting ps k (map_get (section_of ?known (pf_name p)) k)" "looks_like SsoTokenProfile_typer s"
    and r: "\<And>k. map_get r k = updated_setting ns k (map_get (section_of ?known ?q) k)" "looks_like ssoSessionDuckTyper r"
    by (rule updateProfile_sections [OF u p(1,2) n(1,2) other]) blast
  from u obtain d0 where "check_update_params (Some p) (Some n) = None" by (rule updateProfile_passed)
  then have c: "setting_in ps ''sso_session'' = SV_string (sn_name n)" "sn_name n \<noteq> []"
    "\<not> no_value (setting_in ns ''sso_region'')" "\<not> no_value (setting_in ns ''sso_start_url'')"
    by (rule check_update_params_passed, use p(1) n(1) in simp)+
  have low: "lower_names (section_of ?known q)" for q by (rule section_lower) (rule normalized_lower)
  have "lower_names s" "lower_names r"
    using low p(3) n(3) unfolding lower_names_get by (auto simp: s(1) r(1) updated_setting_def split: option.splits)
  then have again: "normalizeParsedIniData known' = known'"
    by (intro normalized_again) (auto simp: k dest!: map_set_member normalized_lower)
  define d where "d = fold load_section known' \<lparr>pd_profiles = [], pd_ssoSessions = []\<rparr>"
  have d: "profile_store_load (Inr known') = Inr d" by (simp add: load_result again d_def)
  have "(pf_name p, s) \<in> set known'" "(?q, r) \<in> set known'"
    using other by (auto simp: k map_set_in intro: map_set_other_in)
  then have P: "load_profile (pf_name p) s \<in> set (pd_profiles d)" and S: "load_ssoSession (sn_name n) r \<in> set (pd_ssoSessions d)"
    unfolding d_def using load_profile_found [OF _ name(1)] load_session_found [OF _ r(2)] by blast+
  have "map_get s ''sso_session'' = Some (sn_name n)"
    using setting_in_given [OF c(1)] name(2) c(2) by (simp add: s(1) updated_setting_def stored_value_def)
  then have 1: "setting_of s ''sso_session'' = SV_string (sn_name n)" by (simp add: setting_of_def)
  have 2: "setting_of r k = SV_string (the (stored_value (setting_in ns k)))"
    if "\<not> no_value (setting_in ns k)" "map_get r k \<noteq> None" for k
    using given_value [OF that(1)] that(2) by (auto simp: setting_of_def r(1) split: option.splits)
  note 2 = 2 [OF c(3) looks_like_session(1) [OF r(2)]] 2 [OF c(4) looks_like_session(2) [OF r(2)]]
  show ?thesis
    by (intro exI [of _ d] exI [of _ "load_profile (pf_name p) s"] exI [of _ "load_ssoSession (sn_name n) r"])
      (simp only: d P S load_profile_fields(1,3) load_profile_fields(2) [OF s(2)] load_session_fields 1 2 simp_thms)
qed

theorem update_then_list_witness:
  "\<exists>d P S. profile_store_load (Inr sample_result) = Inr d \<and> P \<in> set (pd_profiles d) \<and> S \<in> set (pd_ssoSessions d) \<and>
    pf_name P = pf_name sample_profile \<and> SsoTokenProfile \<in> set (pf_kinds P) \<and>
    setting_in (the (pf_settings P)) ''sso_session'' = SV_string (sn_name sample_session) \<and> sn_name S = sn_name sample_session \<and>
    setting_in (the (sn_settings S)) ''sso_region'' =
      SV_string (the (stored_value (setting_in (the (sn_settings sample_session)) ''sso_region''))) \<and>
    setting_in (the (sn_settings S)) ''sso_start_url'' =
      SV_string (the (stored_value (setting_in (the (sn_settings sample_session)) ''sso_start_url'')))"
  by (rule update_then_list [OF sample_update, where ps = "the (pf_settings sample_profile)"
        and ns = "the (sn_settings sample_session)"]; code_simp)

section \<open>Shared sessions\<close>

lemma fromParsed_profile_prefix: "sh_type (fromParsedSectionName (''profile.'' @ m)) = PROFILE"
  by (simp add: fromParsedSectionName_def CONFIG_PREFIX_SEPARATOR_def type_name_def Let_def)

lemma session_name_again:
  assumes "sh_type (fromParsedSectionName n) = SSO_SESSION"
  shows "session_section (sh_name (fromParsedSectionName n)) = n"
proof -
  have "\<not> startsWith n ''profile.''"
  proof
    assume "startsWith n ''profile.''"
    then obtain m where "n = ''profile.'' @ m" unfolding startsWith_def by (metis append_take_drop_id)
    with assms fromParsed_profile_prefix [of m] show False by simp
  qed
  from parsed_name_again [OF this] show ?thesis
    using assms by (simp add: toParsedSectionName_def session_section_def type_name_def CONFIG_PREFIX_SEPARATOR_def)
qed

lemma load_section_session:
  assumes "S \<in> set (pd_ssoSessions (load_section (n, s) d))"
  shows "S \<in> set (pd_ssoSessions d) \<or> (session_section (sn_name S) = n \<and> S = load_ssoSession (sn_name S) s)"
  using assms session_name_again [of n]
  by (cases "sh_type (fromParsedSectionName n)")
    (auto simp: load_section_def Let_def load_session_fields(1) split: if_splits)

lemma loaded_sessions:
  "S \<in> set (pd_ssoSessions (fold load_section xs d)) \<Longrightarrow>
   S \<in> set (pd_ssoSessions d) \<or> (\<exists>s. (session_section (sn_name S), s) \<in> set xs \<and> S = load_ssoSession (sn_name S) s)"
proof (induction xs arbitrary: d)
  case (Cons x xs)
  obtain n s where x: "x = (n, s)" by (cases x)
  from Cons.IH [of "load_section x d"] Cons.prems show ?case
    using load_section_session [of S n s d] unfolding x by auto
qed simp

lemma loaded_session_unique:
  assumes wf: "map_wf ini" and d: "profile_store_load (Inr ini) = Inr d"
    and S: "S \<in> set (pd_ssoSessions d)" "sn_name S = sn_name n"
  obtains s where "List.find (\<lambda>s. sn_name s = sn_name n) (pd_ssoSessions d) = Some (load_ssoSession (sn_name n) s)"
    "s = section_of (normalizeParsedIniData ini) (session_section (sn_name n))"
proof -
  let ?known = "normalizeParsedIniData ini"
  have "map fst ?known = map fst ini" unfolding normalizeParsedIniData_def by (induction ini) auto
  then have wf': "map_wf ?known" using wf by (simp add: map_wf_def)
  obtain T where T: "List.find (\<lambda>s. sn_name s = sn_name n) (pd_ssoSessions d) = Some T"
    using S by (cases "List.find (\<lambda>s. sn_name s = sn_name n) (pd_ssoSessions d)") (auto simp: find_None_iff)
  then have "T \<in> set (pd_ssoSessions d)" "sn_name T = sn_name n" by (auto dest: find_SomeD)
  then obtain s where s: "(session_section (sn_name n), s) \<in> set ?known" "T = load_ssoSession (sn_name n) s"
    using d loaded_sessions [of T ?known "\<lparr>pd_profiles = [], pd_ssoSessions = []\<rparr>"] by (auto simp: load_result)
  show thesis by (rule that [OF T [unfolded s(2)]]) (simp add: section_of_member [OF wf' s(1)])
qed

lemma same_session_kept:
  assumes "\<not> willUpdateExistingSsoSession n sessions"
    and "List.find (\<lambda>s. sn_name s = sn_name n) sessions = Some (load_ssoSession (sn_name n) s)" "sn_settings n = Some ns"
  shows "setting_in ns ''sso_region'' = setting_of s ''sso_region''" "setting_in ns ''sso_start_url'' = setting_of s ''sso_start_url''"
  using assms load_session_fields [of "sn_name n" s] unfolding willUpdateExistingSsoSession_def by auto

lemma kept_value:
  assumes "\<not> no_value (setting_in ns k)" "setting_in ns k = setting_of s k" "updated_setting ns k old \<noteq> None"
  shows "updated_setting ns k old = map_option trim (map_get s k)"
  using given_value [OF assms(1,3)] assms
  by (auto simp: setting_of_def stored_value_def no_value_def Let_def split: option.splits if_splits)

text \<open>
  A session that another profile uses is protected: unless the client asked for shared sessions to be
  updated, a successful update of a profile leaves the region and the start URL of such a session as they
  were (up to blanks around them, which saving removes).
\<close>

theorem shared_session_protected:
  assumes u: "updateProfile (Inr ini) (Inr ini) write options (Some p) (Some n) = Inr (Some known')"
    and p: "pf_settings p = Some ps" "map_wf ps" and n: "sn_settings n = Some ns" "map_wf ns"
    and other: "pf_name p \<noteq> session_section (sn_name n)" and wf: "map_wf ini"
    and opt: "\<not> uo_updateSharedSsoSession options" and d: "profile_store_load (Inr ini) = Inr d"
    and shared: "isSharedSsoSession (sn_name n) (pd_profiles d) (pf_name p)"
    and S: "S \<in> set (pd_ssoSessions d)" "sn_name S = sn_name n" and k: "k = ''sso_region'' \<or> k = ''sso_start_url''"
  shows "map_get (section_of known' (session_section (sn_name n))) k =
    map_option trim (map_get (section_of (normalizeParsedIniData ini) (session_section (sn_name n))) k)"
proof -
  let ?known = "normalizeParsedIniData ini" and ?q = "session_section (sn_name n)"
  obtain s r where known': "known' = map_set ?q r (map_set (pf_name p) s ?known)"
    and r: "\<And>k. map_get r k = updated_setting ns k (map_get (section_of ?known ?q) k)" "looks_like ssoSessionDuckTyper r"
    by (rule updateProfile_sections [OF u p n other]) blast
  from u obtain d' known1 where c: "check_update_params (Some p) (Some n) = None" and d': "profile_store_load (Inr ini) = Inr d'"
    and w: "uo_updateSharedSsoSession options \<or> \<not> isSharedSsoSession (sn_name n) (pd_profiles d') (pf_name p) \<or>
       \<not> willUpdateExistingSsoSession n (pd_ssoSessions d')" by (rule updateProfile_passed)
  have w: "\<not> willUpdateExistingSsoSession n (pd_ssoSessions d)" using w d d' opt shared by simp
  obtain f where f: "List.find (\<lambda>s. sn_name s = sn_name n) (pd_ssoSessions d) = Some (load_ssoSession (sn_name n) f)"
      "f = section_of ?known ?q" by (rule loaded_session_unique [OF wf d S])
  have "\<not> no_value (setting_in ns k)"
    by (rule check_update_params_passed [OF c]) (use n(1) k in auto)
  moreover have "setting_in ns k = setting_of f k" using same_session_kept [OF w f(1) n(1)] k by auto
  moreover have "updated_setting ns k (map_get f k) \<noteq> None" using looks_like_session [OF r(2)] r(1) f(2) k by auto
  ultimately have "updated_setting ns k (map_get f k) = map_option trim (map_get f k)" by (rule kept_value)
  then show ?thesis by (simp add: known' section_of_map_set r(1) f(2))
qed

theorem shared_session_protected_witness:
  "map_get (section_of sample_result (session_section (sn_name sample_session))) ''sso_region'' =
    map_option trim (map_get (section_of (normalizeParsedIniData sample_ini) (session_section (sn_name sample_session))) ''sso_region'')"
  by (rule shared_session_protected [OF sample_update, where ps = "the (pf_settings sample_profile)"
        and ns = "the (sn_settings sample_session)" and S = "load_ssoSession ''corp'' (section_of sample_ini ''sso-session.corp'')"
        and d = "fold load_section (normalizeParsedIniData sample_ini) \<lparr>pd_profiles = [], pd_ssoSessions = []\<rparr>"];
      code_simp)

text \<open>
  The check compares lists of scopes as objects, so that a shared session with scopes always counts as
  changed: with the settings that are already in the file the update is refused.
\<close>

lemma unchanged_shared_session_refused:
  "updateProfile (Inr [(''ops'', [(''sso_session'', ''corp'')]), (''sso-session.corp'', [(''sso_region'', ''r''), (''sso_start_url'', ''u''),
       (''sso_registration_scopes'', ''a'')])]) parsed' write cautious
     (Some \<lparr>pf_kinds = [SsoTokenProfile], pf_name = ''dev'', pf_settings = Some [(''sso_session'', SV_string ''corp'')]\<rparr>)
     (Some \<lparr>sn_name = ''corp'', sn_settings = Some [(''sso_region'', SV_string ''r''), (''sso_start_url'', SV_string ''u''),
        (''sso_registration_scopes'', SV_list [''a''])]\<rparr>) =
   Inl (AwsError ''Cannot update shared sso-session.'' E_CANNOT_OVERWRITE_SSO_SESSION)"
  by code_simp

text \<open>
  A profile may have the name of the section of an sso-session; saving it changes that section.
\<close>

lemma profile_overwrites_session:
  "apply_profile \<lparr>pf_kinds = [SsoTokenProfile], pf_name = ''sso-session.corp'',
       pf_settings = Some [(''sso_session'', SV_string ''x'')]\<rparr> [(''sso-session.corp'', [(''sso_region'', ''r'')])] =
   Inr [(''sso-session.corp'', [(''sso_region'', ''r''), (''sso_session'', ''x'')])]"
  by code_simp

end
