(* ===== verification/Sso_Tokens.thy ===== *)
theory Sso_Tokens
  imports Profiles
begin

text \<open>
  Tokens of the identity server (\<^verbatim>\<open>sso/utils.ts\<close>, \<^verbatim>\<open>sso/cache\<close>, \<^verbatim>\<open>language-server/ssoTokenAutoRefresher.ts\<close>): the cache in
  files, the cache around it that refreshes tokens before they expire, and the timers that call it.

  Times are milliseconds. A date in text form is the instant it denotes, or a text that is no date. The
  file of an entry is named by a hash of its id, so entries are kept by their ids: tokens by the
  name of the session, registrations by region, start URL and tool. What the network answers, whether files
  can be written and what the clock shows is an environment record.
\<close>

section \<open>Dates, tokens and registrations\<close>

datatype date_text = Instant int | Not_a_date string

text \<open>\<^verbatim>\<open>Date.parse\<close>; a comparison with \<^verbatim>\<open>NaN\<close> is false.\<close>

fun Date_parse :: "date_text \<Rightarrow> int option" where
  "Date_parse (Instant t) = Some t"
| "Date_parse (Not_a_date s) = None"

definition clock_before :: "int \<Rightarrow> int option \<Rightarrow> bool" where
  "clock_before t e = (case e of None \<Rightarrow> False | Some x \<Rightarrow> t < x)"

definition date_given :: "date_text option \<Rightarrow> bool" where
  "date_given d = (case d of None \<Rightarrow> False | Some (Instant t) \<Rightarrow> True | Some (Not_a_date s) \<Rightarrow> trim s \<noteq> [])"

definition text_given :: "string option \<Rightarrow> bool" where
  "text_given s = (case s of None \<Rightarrow> False | Some x \<Rightarrow> trim x \<noteq> [])"

definition nonempty_text :: "string option \<Rightarrow> bool" where
  "nonempty_text s = (case s of None \<Rightarrow> False | Some x \<Rightarrow> x \<noteq> [])"

record SSOToken =
  tk_accessToken :: "string option"
  tk_expiresAt :: "date_text option"
  tk_refreshToken :: "string option"
  tk_clientId :: "string option"
  tk_clientSecret :: "string option"
  tk_registrationExpiresAt :: "date_text option"
  tk_region :: "string option"
  tk_startUrl :: "string option"

definition empty_token :: SSOToken where
  "empty_token = \<lparr>tk_accessToken = None, tk_expiresAt = None, tk_refreshToken = None, tk_clientId = None,
     tk_clientSecret = None, tk_registrationExpiresAt = None, tk_region = None, tk_startUrl = None\<rparr>"

record SsoClientRegistration =
  cr_clientId :: "string option"
  cr_clientSecret :: "string option"
  cr_issuedAt :: "date_text option"
  cr_expiresAt :: "date_text option"
  cr_scopes :: "string list option"

text \<open>The names of the properties that an object has.\<close>

definition has_property :: "string \<Rightarrow> 'a option \<Rightarrow> string list" where
  "has_property name v = (if v = None then [] else [name])"

definition token_properties :: "SSOToken \<Rightarrow> string list" where
  "token_properties t =
     has_property ''accessToken'' (tk_accessToken t) @ has_property ''expiresAt'' (tk_expiresAt t) @
     has_property ''refreshToken'' (tk_refreshToken t) @ has_property ''clientId'' (tk_clientId t) @
     has_property ''clientSecret'' (tk_clientSecret t) @
     has_property ''registrationExpiresAt'' (tk_registrationExpiresAt t) @
     has_property ''region'' (tk_region t) @ has_property ''startUrl'' (tk_startUrl t)"

definition registration_properties :: "SsoClientRegistration \<Rightarrow> string list" where
  "registration_properties r =
     has_property ''clientId'' (cr_clientId r) @ has_property ''clientSecret'' (cr_clientSecret r) @
     has_property ''issuedAt'' (cr_issuedAt r) @ has_property ''expiresAt'' (cr_expiresAt r) @
     has_property ''scopes'' (cr_scopes r)"

definition ssoClientRegistrationDuckTyper :: DuckTyper where
  "ssoClientRegistrationDuckTyper =
     [(''clientId'', requireProperty), (''clientSecret'', requireProperty), (''issuedAt'', optionalProperty),
      (''expiresAt'', requireProperty), (''scopes'', optionalProperty), (''authorizationEndpoint'', optionalProperty),
      (''tokenEndpoint'', optionalProperty)]"

definition ssoTokenDuckTyper :: DuckTyper where
  "ssoTokenDuckTyper =
     [(''accessToken'', requireProperty), (''expiresAt'', requireProperty), (''refreshToken'', optionalProperty),
      (''clientId'', optionalProperty), (''clientSecret'', optionalProperty),
      (''registrationExpiresAt'', optionalProperty), (''region'', optionalProperty), (''startUrl'', optionalProperty)]"

section \<open>Validation\<close>

definition throwOnInvalidClientName :: "string \<Rightarrow> js_error option" where
  "throwOnInvalidClientName clientName =
     (if trim clientName = [] then Some (AwsError (''Client name ['' @ clientName @ ''] is invalid.'') E_INVALID_SSO_CLIENT)
      else None)"

definition throwOnInvalidClientRegistration :: "SsoClientRegistration option \<Rightarrow> js_error option" where
  "throwOnInvalidClientRegistration reg =
     (let bad = Some (AwsError ''Client registration is invalid.'' E_INVALID_SSO_CLIENT)
      in case reg of
           None \<Rightarrow> bad
         | Some r \<Rightarrow>
             if \<not> text_given (cr_clientId r) \<or> \<not> text_given (cr_clientSecret r) \<or> \<not> date_given (cr_expiresAt r) \<or>
                (case cr_scopes r of None \<Rightarrow> True | Some xs \<Rightarrow> xs = [])
             then bad else None)"

definition throwOnInvalidSsoSessionName :: "string \<Rightarrow> js_error option" where
  "throwOnInvalidSsoSessionName name =
     (if trim name = [] then Some (AwsError ''SSO session name is invalid.'' E_INVALID_SSO_SESSION) else None)"

definition trimmed_given :: "setting_value \<Rightarrow> bool" where
  "trimmed_given v = (case v of SV_string s \<Rightarrow> trim s \<noteq> [] | _ \<Rightarrow> False)"

definition has_length :: "setting_value \<Rightarrow> bool" where
  "has_length v = (case v of SV_string s \<Rightarrow> s \<noteq> [] | SV_list xs \<Rightarrow> xs \<noteq> [] | _ \<Rightarrow> False)"

definition throwOnInvalidSsoSession :: "SsoSession \<Rightarrow> js_error option" where
  "throwOnInvalidSsoSession n =
     (case throwOnInvalidClientName (sn_name n) of
        Some e \<Rightarrow> Some e
      | None \<Rightarrow>
          (let bad = Some (AwsError ''SSO session is invalid.'' E_INVALID_SSO_SESSION)
           in case sn_settings n of
                None \<Rightarrow> bad
              | Some ps \<Rightarrow>
                  if trimmed_given (setting_in ps ''sso_region'') \<and> trimmed_given (setting_in ps ''sso_start_url'') \<and>
                     has_length (setting_in ps ''sso_registration_scopes'')
                  then None else bad))"

definition text_setting :: "SsoSession \<Rightarrow> string \<Rightarrow> string" where
  "text_setting n k =
     (case sn_settings n of None \<Rightarrow> [] | Some ps \<Rightarrow> (case setting_in ps k of SV_string s \<Rightarrow> s | _ \<Rightarrow> []))"

definition list_setting :: "SsoSession \<Rightarrow> string \<Rightarrow> string list option" where
  "list_setting n k =
     (case sn_settings n of None \<Rightarrow> None | Some ps \<Rightarrow> (case setting_in ps k of SV_list xs \<Rightarrow> Some xs | _ \<Rightarrow> None))"

text \<open>The first error of a list of checks.\<close>

fun first_error :: "js_error option list \<Rightarrow> js_error option" where
  "first_error [] = None"
| "first_error (Some e # es) = Some e"
| "first_error (None # es) = first_error es"

record CreateTokenOutput =
  co_accessToken :: "string option"
  co_expiresIn :: "int option"
  co_refreshToken :: "string option"

definition UpdateSsoTokenFromCreateToken ::
    "int \<Rightarrow> CreateTokenOutput \<Rightarrow> SsoClientRegistration \<Rightarrow> SsoSession \<Rightarrow> SSOToken option \<Rightarrow> js_error + SSOToken" where
  "UpdateSsoTokenFromCreateToken now out reg n token =
     (case first_error [throwOnInvalidClientRegistration (Some reg), throwOnInvalidSsoSession n] of
        Some e \<Rightarrow> Inl e
      | None \<Rightarrow>
          if \<not> nonempty_text (co_accessToken out) \<or> co_expiresIn out = None \<or> co_expiresIn out = Some 0
          then Inl (AwsError ''CreateToken returned invalid result.'' E_CANNOT_CREATE_SSO_TOKEN)
          else let t = (case token of None \<Rightarrow> empty_token | Some t \<Rightarrow> t)
               in Inr (t\<lparr>tk_accessToken := co_accessToken out, tk_clientId := cr_clientId reg,
                        tk_clientSecret := cr_clientSecret reg,
                        tk_expiresAt := Some (Instant (now + the (co_expiresIn out) * 1000)),
                        tk_refreshToken := co_refreshToken out, tk_region := Some (text_setting n ''sso_region''),
                        tk_registrationExpiresAt := cr_expiresAt reg,
                        tk_startUrl := Some (text_setting n ''sso_start_url'')\<rparr>))"

section \<open>The cache in files\<close>

datatype 'a cache_file = Json 'a | Unreadable

type_synonym registration_id = "string \<times> string \<times> string"

record sso_files =
  sf_tokens :: "(string \<times> SSOToken cache_file) list"
  sf_registrations :: "(registration_id \<times> SsoClientRegistration cache_file) list"

text \<open>Reading a file: missing ones are ignored, other failures wrapped, objects of the wrong kind left out.\<close>

definition read_cache_file :: "('a \<Rightarrow> bool) \<Rightarrow> 'a cache_file option \<Rightarrow> js_error + 'a option" where
  "read_cache_file ok f =
     (case f of
        None \<Rightarrow> Inr None
      | Some Unreadable \<Rightarrow> Inl (wrap_error (Other_error (Some ''Unreadable'')) E_CANNOT_READ_SSO_CACHE)
      | Some (Json x) \<Rightarrow> Inr (if ok x then Some x else None))"

definition toSsoClientRegistrationCacheId :: "string \<Rightarrow> SsoSession \<Rightarrow> js_error + registration_id" where
  "toSsoClientRegistrationCacheId clientName n =
     (case first_error [throwOnInvalidClientName clientName, throwOnInvalidSsoSession n] of
        Some e \<Rightarrow> Inl e
      | None \<Rightarrow> Inr (text_setting n ''sso_region'', text_setting n ''sso_start_url'', clientName))"

definition fs_getSsoClientRegistration ::
    "sso_files \<Rightarrow> string \<Rightarrow> SsoSession \<Rightarrow> js_error + SsoClientRegistration option" where
  "fs_getSsoClientRegistration fs clientName n =
     and_then (toSsoClientRegistrationCacheId clientName n)
       (\<lambda>i. read_cache_file (\<lambda>r. duck_eval ssoClientRegistrationDuckTyper True (Some (registration_properties r)))
              (map_get (sf_registrations fs) i))"

definition cannot_write :: js_error where
  "cannot_write = wrap_error (Other_error (Some ''Cannot write'')) E_CANNOT_WRITE_SSO_CACHE"

definition fs_setSsoClientRegistration ::
    "bool \<Rightarrow> string \<Rightarrow> SsoSession \<Rightarrow> SsoClientRegistration \<Rightarrow> sso_files \<Rightarrow> js_error + sso_files" where
  "fs_setSsoClientRegistration writable clientName n reg fs =
     and_then (toSsoClientRegistrationCacheId clientName n)
       (\<lambda>i. if writable then Inr (fs\<lparr>sf_registrations := map_set i (Json reg) (sf_registrations fs)\<rparr>)
            else Inl cannot_write)"

definition fs_removeSsoToken :: "bool \<Rightarrow> string \<Rightarrow> sso_files \<Rightarrow> js_error + sso_files" where
  "fs_removeSsoToken removable name fs =
     (case throwOnInvalidSsoSessionName name of
        Some e \<Rightarrow> Inl e
      | None \<Rightarrow>
          if map_has (sf_tokens fs) name \<and> \<not> removable
          then Inl (wrap_error (Other_error (Some ''Cannot remove'')) E_CANNOT_READ_SSO_CACHE)
          else Inr (fs\<lparr>sf_tokens := map_del name (sf_tokens fs)\<rparr>))"

definition looks_like_token :: "SSOToken \<Rightarrow> bool" where
  "looks_like_token t = duck_eval ssoTokenDuckTyper True (Some (token_properties t))"

definition fs_getSsoToken :: "sso_files \<Rightarrow> SsoSession \<Rightarrow> js_error + SSOToken option" where
  "fs_getSsoToken fs n =
     (case throwOnInvalidSsoSession n of
        Some e \<Rightarrow> Inl e
      | None \<Rightarrow> read_cache_file looks_like_token (map_get (sf_tokens fs) (sn_name n)))"

definition fs_setSsoToken :: "bool \<Rightarrow> SsoSession \<Rightarrow> SSOToken \<Rightarrow> sso_files \<Rightarrow> js_error + sso_files" where
  "fs_setSsoToken writable n t fs =
     (case throwOnInvalidSsoSession n of
        Some e \<Rightarrow> Inl e
      | None \<Rightarrow>
          if \<not> looks_like_token t then Inr fs
          else if writable then Inr (fs\<lparr>sf_tokens := map_set (sn_name n) (Json t) (sf_tokens fs)\<rparr>)
          else Inl cannot_write)"

section \<open>The refreshing cache\<close>

definition refreshWindowMillis :: int where
  "refreshWindowMillis = 5 * 60 * 1000"

definition retryCooldownWindowMillis :: int where
  "retryCooldownWindowMillis = 30000"

record RegisterOutput =
  ro_clientId :: "string option"
  ro_clientSecret :: "string option"
  ro_clientIdIssuedAt :: "int option"
  ro_clientSecretExpiresAt :: "int option"

datatype create_failure = Refresh_token_invalid | Create_failed

text \<open>
  The clock when the token, the registration and the new token are looked at, the answers of the OIDC
  service, and whether cache files can be written and removed.
\<close>

record sso_env =
  se_now :: int
  se_registrationNow :: int
  se_updateNow :: int
  se_register :: "js_error + RegisterOutput"
  se_createToken :: "create_failure + CreateTokenOutput"
  se_writable :: bool
  se_removable :: bool

text \<open>The files, the time of the last refresh by session, and the sessions reported to the client as refreshed.\<close>

record token_state =
  ts_files :: sso_files
  ts_details :: "(string \<times> int) list"
  ts_refreshed :: "string list"

text \<open>\<^verbatim>\<open>new Date(seconds * 1000).toISOString()\<close>, which raises an error for a missing number.\<close>

definition iso_of_seconds :: "int option \<Rightarrow> js_error + date_text" where
  "iso_of_seconds s = (case s of None \<Rightarrow> Inl (Other_error (Some ''Invalid time value'')) | Some t \<Rightarrow> Inr (Instant (t * 1000)))"

definition new_registration :: "SsoSession \<Rightarrow> RegisterOutput \<Rightarrow> js_error + SsoClientRegistration" where
  "new_registration n r =
     and_then (iso_of_seconds (ro_clientIdIssuedAt r))
       (\<lambda>issued. and_then (iso_of_seconds (ro_clientSecretExpiresAt r))
          (\<lambda>expires. Inr \<lparr>cr_clientId = ro_clientId r, cr_clientSecret = ro_clientSecret r, cr_issuedAt = Some issued,
             cr_expiresAt = Some expires, cr_scopes = list_setting n ''sso_registration_scopes''\<rparr>))"

definition registration_expired :: "int \<Rightarrow> SsoClientRegistration \<Rightarrow> bool" where
  "registration_expired now r =
     (case Option.bind (cr_expiresAt r) Date_parse of None \<Rightarrow> False | Some e \<Rightarrow> e < now)"

text \<open>A cached registration that has not expired.\<close>

definition usable_registration :: "int \<Rightarrow> SsoClientRegistration option \<Rightarrow> SsoClientRegistration option" where
  "usable_registration now cached =
     (case cached of None \<Rightarrow> None | Some r \<Rightarrow> if registration_expired now r then None else Some r)"

definition register_client ::
    "sso_env \<Rightarrow> string \<Rightarrow> SsoSession \<Rightarrow> token_state \<Rightarrow> (js_error + SsoClientRegistration) \<times> token_state" where
  "register_client env clientName n st =
     (case se_register env of
        Inl e \<Rightarrow> (Inl (AwsError (''Cannot register client ['' @ clientName @ ''].'') E_CANNOT_REGISTER_CLIENT), st)
      | Inr out \<Rightarrow>
          (case new_registration n out of
             Inl e \<Rightarrow> (Inl e, st)
           | Inr r \<Rightarrow>
               (case fs_setSsoClientRegistration (se_writable env) clientName n r (ts_files st) of
                  Inl e \<Rightarrow> (Inl e, st)
                | Inr fs \<Rightarrow> (Inr r, st\<lparr>ts_files := fs\<rparr>))))"

definition getSsoClientRegistration ::
    "sso_env \<Rightarrow> string \<Rightarrow> SsoSession \<Rightarrow> token_state \<Rightarrow> (js_error + SsoClientRegistration) \<times> token_state" where
  "getSsoClientRegistration env clientName n st =
     (case first_error [throwOnInvalidClientName clientName, throwOnInvalidSsoSession n] of
        Some e \<Rightarrow> (Inl e, st)
      | None \<Rightarrow>
          (case fs_getSsoClientRegistration (ts_files st) clientName n of
             Inl e \<Rightarrow> (Inl e, st)
           | Inr cached \<Rightarrow>
               (case usable_registration (se_registrationNow env) cached of
                  Some r \<Rightarrow> (Inr r, st)
                | None \<Rightarrow> register_client env clientName n st)))"

text \<open>What is to be done with a cached token: use it, give up, or try to refresh it.\<close>

datatype token_decision = Use_token | No_refresh_token | Try_refresh

definition decide_token :: "int \<Rightarrow> int \<Rightarrow> SSOToken \<Rightarrow> token_decision" where
  "decide_token now lastRefresh t =
     (let expiry = Option.bind (tk_expiresAt t) Date_parse
      in if clock_before now expiry \<and>
            (clock_before now (map_option (\<lambda>e. e - refreshWindowMillis) expiry) \<or>
             now < lastRefresh + retryCooldownWindowMillis)
         then Use_token
         else if \<not> nonempty_text (tk_refreshToken t) then No_refresh_token
         else Try_refresh)"

definition last_refresh :: "token_state \<Rightarrow> string \<Rightarrow> int" where
  "last_refresh st name = (case map_get (ts_details st) name of None \<Rightarrow> 0 | Some t \<Rightarrow> t)"

definition set_last_refresh :: "string \<Rightarrow> int \<Rightarrow> token_state \<Rightarrow> token_state" where
  "set_last_refresh name t st = st\<lparr>ts_details := map_set name t (ts_details st)\<rparr>"

text \<open>The refresh itself, after the time of the attempt was recorded.\<close>

definition refresh_token ::
    "sso_env \<Rightarrow> string \<Rightarrow> SsoSession \<Rightarrow> SSOToken \<Rightarrow> token_state \<Rightarrow> (js_error + SSOToken option) \<times> token_state" where
  "refresh_token env clientName n t st =
     (case getSsoClientRegistration env clientName n st of
        (Inl e, st1) \<Rightarrow> (Inl e, st1)
      | (Inr reg, st1) \<Rightarrow>
          (case se_createToken env of
             Inl Refresh_token_invalid \<Rightarrow> (Inl (AwsError ''SSO session is expired.'' E_SSO_TOKEN_EXPIRED), st1)
           | Inl Create_failed \<Rightarrow> (Inl (AwsError ''Cannot refresh SSO token.'' E_CANNOT_REFRESH_SSO_TOKEN), st1)
           | Inr out \<Rightarrow>
               (case UpdateSsoTokenFromCreateToken (se_updateNow env) out reg n (Some t) of
                  Inl e \<Rightarrow> (Inl e, st1)
                | Inr t' \<Rightarrow>
                    (case fs_setSsoToken (se_writable env) n t' (ts_files st1) of
                       Inl e \<Rightarrow> (Inl e, st1)
                     | Inr fs \<Rightarrow> (Inr (Some t'), st1\<lparr>ts_files := fs, ts_refreshed := ts_refreshed st1 @ [sn_name n]\<rparr>)))))"

definition getSsoToken ::
    "sso_env \<Rightarrow> string \<Rightarrow> SsoSession \<Rightarrow> token_state \<Rightarrow> (js_error + SSOToken option) \<times> token_state" where
  "getSsoToken env clientName n st =
     (case first_error [throwOnInvalidClientName clientName, throwOnInvalidSsoSession n] of
        Some e \<Rightarrow> (Inl e, st)
      | None \<Rightarrow>
          (case fs_getSsoToken (ts_files st) n of
             Inl e \<Rightarrow> (Inl e, st)
           | Inr None \<Rightarrow> (Inr None, st)
           | Inr (Some t) \<Rightarrow>
               (let st1 = set_last_refresh (sn_name n) (last_refresh st (sn_name n)) st
                in case decide_token (se_now env) (last_refresh st (sn_name n)) t of
                     Use_token \<Rightarrow> (Inr (Some t), st1)
                   | No_refresh_token \<Rightarrow> (Inl (AwsError ''No refresh token available.'' E_SSO_TOKEN_EXPIRED), st1)
                   | Try_refresh \<Rightarrow> refresh_token env clientName n t (set_last_refresh (sn_name n) (se_now env) st1))))"

definition removeSsoToken :: "sso_env \<Rightarrow> string \<Rightarrow> token_state \<Rightarrow> (js_error + unit) \<times> token_state" where
  "removeSsoToken env name st =
     (case throwOnInvalidSsoSessionName name of
        Some e \<Rightarrow> (Inl e, st)
      | None \<Rightarrow>
          (case fs_removeSsoToken (se_removable env) name (ts_files st) of
             Inl e \<Rightarrow> (Inl e, st)
           | Inr fs \<Rightarrow> (Inr (), st\<lparr>ts_files := fs\<rparr>)))"

definition setSsoToken :: "sso_env \<Rightarrow> SsoSession \<Rightarrow> SSOToken \<Rightarrow> token_state \<Rightarrow> (js_error + unit) \<times> token_state" where
  "setSsoToken env n t st =
     (case fs_setSsoToken (se_writable env) n t (ts_files st) of
        Inl e \<Rightarrow> (Inl e, st)
      | Inr fs \<Rightarrow> (Inr (), st\<lparr>ts_files := fs\<rparr>))"

section \<open>Automatic refresh\<close>

definition bufferedRefreshWindowMillis :: int where
  "bufferedRefreshWindowMillis = refreshWindowMillis * 95 div 100"

definition bufferedRetryCooldownWindowMillis :: int where
  "bufferedRetryCooldownWindowMillis = retryCooldownWindowMillis * 105 div 100"

definition maxRefreshJitterMillis :: int where
  "maxRefreshJitterMillis = 10000"

definition maxRetryCooldownJitterMillis :: int where
  "maxRetryCooldownJitterMillis = 3000"

text \<open>
  The delay of the next timer. The random number is a fraction of a million; a timer runs for
  whole milliseconds.
\<close>

definition refresh_delay :: "int \<Rightarrow> int option \<Rightarrow> nat \<Rightarrow> int option" where
  "refresh_delay now expiry random =
     (if clock_before now (map_option (\<lambda>e. e - refreshWindowMillis) expiry)
      then Some (the expiry - bufferedRefreshWindowMillis - now + int random * maxRefreshJitterMillis div 1000000)
      else if (case expiry of None \<Rightarrow> False | Some e \<Rightarrow> e - refreshWindowMillis < now) \<and> clock_before now expiry
      then Some (bufferedRetryCooldownWindowMillis + int random * maxRetryCooldownJitterMillis div 1000000)
      else None)"

text \<open>
  The caches, the armed timers (by id: the session they watch and their delay) and the timer that is
  remembered for a session.
\<close>

record refresher =
  rf_tokens :: token_state
  rf_armed :: "(nat \<times> SsoSession \<times> int) list"
  rf_timeouts :: "(string \<times> nat) list"
  rf_nextTimer :: nat

definition unwatch :: "string \<Rightarrow> refresher \<Rightarrow> js_error + refresher" where
  "unwatch name rf =
     (case throwOnInvalidSsoSessionName name of
        Some e \<Rightarrow> Inl e
      | None \<Rightarrow>
          (case map_get (rf_timeouts rf) name of
             None \<Rightarrow> Inr rf
           | Some i \<Rightarrow> Inr (rf\<lparr>rf_armed := map_del i (rf_armed rf), rf_timeouts := map_del name (rf_timeouts rf)\<rparr>)))"

text \<open>\<^verbatim>\<open>watch\<close> up to the call of the cache, which it awaits, and from there on.\<close>

definition watch_begin :: "string \<Rightarrow> SsoSession \<Rightarrow> refresher \<Rightarrow> js_error + refresher" where
  "watch_begin clientName n rf =
     (case first_error [throwOnInvalidClientName clientName, throwOnInvalidSsoSession n] of
        Some e \<Rightarrow> Inl e
      | None \<Rightarrow> unwatch (sn_name n) rf)"

definition arm_timer :: "SsoSession \<Rightarrow> int \<Rightarrow> refresher \<Rightarrow> refresher" where
  "arm_timer n d rf =
     rf\<lparr>rf_armed := map_set (rf_nextTimer rf) (n, d) (rf_armed rf),
        rf_timeouts := map_set (sn_name n) (rf_nextTimer rf) (rf_timeouts rf), rf_nextTimer := rf_nextTimer rf + 1\<rparr>"

definition watch_end :: "int \<Rightarrow> nat \<Rightarrow> SsoSession \<Rightarrow> js_error + SSOToken option \<Rightarrow> refresher \<Rightarrow> refresher" where
  "watch_end now random n result rf =
     (case result of
        Inr (Some t) \<Rightarrow>
          (case refresh_delay now (Option.bind (tk_expiresAt t) Date_parse) random of
             None \<Rightarrow> rf
           | Some d \<Rightarrow> arm_timer n d rf)
      | _ \<Rightarrow> rf)"

definition watch :: "sso_env \<Rightarrow> int \<Rightarrow> nat \<Rightarrow> string \<Rightarrow> SsoSession \<Rightarrow> refresher \<Rightarrow> js_error + refresher" where
  "watch env now random clientName n rf =
     (case watch_begin clientName n rf of
        Inl e \<Rightarrow> Inl e
      | Inr rf1 \<Rightarrow>
          (case getSsoToken env clientName n (rf_tokens rf1) of
             (result, ts) \<Rightarrow> Inr (watch_end now random n result (rf1\<lparr>rf_tokens := ts\<rparr>))))"

text \<open>A timer that fires is no longer armed and calls \<^verbatim>\<open>watch\<close> again.\<close>

definition fire_timer :: "nat \<Rightarrow> refresher \<Rightarrow> refresher" where
  "fire_timer i rf = rf\<lparr>rf_armed := map_del i (rf_armed rf)\<rparr>"

definition dispose_refresher :: "refresher \<Rightarrow> refresher" where
  "dispose_refresher rf =
     fold (\<lambda>name rf. case unwatch name rf of Inl e \<Rightarrow> rf | Inr rf' \<Rightarrow> rf') (map fst (rf_timeouts rf)) rf"

section \<open>Tokens that are handed out\<close>

lemma token_shape: "looks_like_token t \<longleftrightarrow> tk_accessToken t \<noteq> None \<and> tk_expiresAt t \<noteq> None"
  by (auto simp: looks_like_token_def duck_eval_def ssoTokenDuckTyper_def token_properties_def has_property_def
      split: option.splits if_splits)

lemma updated_token:
  assumes "UpdateSsoTokenFromCreateToken now out reg n token = Inr t'"
  obtains x where "co_expiresIn out = Some x" "x \<noteq> 0" "tk_expiresAt t' = Some (Instant (now + x * 1000))"
    "tk_accessToken t' = co_accessToken out" "nonempty_text (co_accessToken out)"
  using assms that by (auto simp: UpdateSsoTokenFromCreateToken_def Let_def split: option.splits if_splits)

lemma updated_token_shape: "UpdateSsoTokenFromCreateToken now out reg n token = Inr t' \<Longrightarrow> looks_like_token t'"
  by (erule updated_token) (auto simp: token_shape nonempty_text_def split: option.splits)

lemma refresh_token_result:
  assumes "refresh_token env clientName n t st = (Inr r, st')"
  obtains out reg t' where "r = Some t'" "se_createToken env = Inr out"
    "UpdateSsoTokenFromCreateToken (se_updateNow env) out reg n (Some t) = Inr t'"
    "map_get (sf_tokens (ts_files st')) (sn_name n) = Some (Json t')"
proof -
  obtain reg st1 out t' fs where r: "getSsoClientRegistration env clientName n st = (Inr reg, st1)" "se_createToken env = Inr out"
    "UpdateSsoTokenFromCreateToken (se_updateNow env) out reg n (Some t) = Inr t'"
    "fs_setSsoToken (se_writable env) n t' (ts_files st1) = Inr fs" "r = Some t'"
    "st' = st1\<lparr>ts_files := fs, ts_refreshed := ts_refreshed st1 @ [sn_name n]\<rparr>"
    using assms by (auto simp: refresh_token_def split: prod.splits sum.splits create_failure.splits)
  from r(4) updated_token_shape [OF r(3)] have "map_get (sf_tokens fs) (sn_name n) = Some (Json t')"
    by (auto simp: fs_setSsoToken_def js_map split: option.splits if_splits)
  with r show thesis by (intro that) simp_all
qed

lemma getSsoToken_cases:
  assumes "getSsoToken env clientName n st = (Inr (Some t), st')"
  shows "(decide_token (se_now env) (last_refresh st (sn_name n)) t = Use_token \<and>
      map_get (sf_tokens (ts_files st)) (sn_name n) = Some (Json t) \<and> ts_files st' = ts_files st) \<or>
    (\<exists>t0 st1. decide_token (se_now env) (last_refresh st (sn_name n)) t0 = Try_refresh \<and>
      refresh_token env clientName n t0 st1 = (Inr (Some t), st'))"
  using assms
  by (auto simp: getSsoToken_def Let_def fs_getSsoToken_def read_cache_file_def set_last_refresh_def
      split: option.splits sum.splits token_decision.splits cache_file.splits if_splits)

lemma getSsoToken_unexpired:
  assumes "getSsoToken env clientName n st = (Inr (Some t), st')" "se_now env \<le> se_updateNow env"
    and "\<And>out x. se_createToken env = Inr out \<Longrightarrow> co_expiresIn out = Some x \<Longrightarrow> 0 \<le> x"
  shows "(\<exists>e. tk_expiresAt t = Some (Instant e) \<and> se_now env < e) \<and>
    map_get (sf_tokens (ts_files st')) (sn_name n) = Some (Json t)"
  using getSsoToken_cases [OF assms(1)]
proof (elim disjE exE conjE)
  assume u: "decide_token (se_now env) (last_refresh st (sn_name n)) t = Use_token"
    "map_get (sf_tokens (ts_files st)) (sn_name n) = Some (Json t)" "ts_files st' = ts_files st"
  have "clock_before (se_now env) (Option.bind (tk_expiresAt t) Date_parse)"
    using u(1) by (auto simp: decide_token_def Let_def split: if_splits)
  then obtain d where "tk_expiresAt t = Some d" "clock_before (se_now env) (Date_parse d)"
    by (cases "tk_expiresAt t") (auto simp: clock_before_def)
  then show ?thesis using u by (cases d) (auto simp: clock_before_def)
next
  fix t0 st1
  assume "refresh_token env clientName n t0 st1 = (Inr (Some t), st')"
  then obtain out reg t' where r: "Some t = Some t'" "se_createToken env = Inr out"
    "UpdateSsoTokenFromCreateToken (se_updateNow env) out reg n (Some t0) = Inr t'"
    "map_get (sf_tokens (ts_files st')) (sn_name n) = Some (Json t')" by (rule refresh_token_result)
  from r(3) obtain x where x: "co_expiresIn out = Some x" "x \<noteq> 0" "tk_expiresAt t' = Some (Instant (se_updateNow env + x * 1000))"
    by (rule updated_token)
  show ?thesis using r(1,4) x assms(2) assms(3) [OF r(2) x(1)] by auto
qed

text \<open>
  C15. No expired access token is handed out: whenever the cache answers with a token, the token expires
  after the time at which the cache looked at it, provided that the service grants tokens a positive life
  time and the clock does not run backwards. The token handed out is the one in the cache file.
\<close>

theorem handed_out_token_valid:
  assumes "getSsoToken env clientName n st = (Inr (Some t), st')" "se_now env \<le> se_updateNow env"
    and "\<And>out x. se_createToken env = Inr out \<Longrightarrow> co_expiresIn out = Some x \<Longrightarrow> 0 \<le> x"
  shows "(\<exists>e. tk_expiresAt t = Some (Instant e) \<and> se_now env < e) \<and>
    map_get (sf_tokens (ts_files st')) (sn_name n) = Some (Json t)"
  using getSsoToken_unexpired [OF assms] .

section \<open>Refreshing in time\<close>

lemma decide_token_iff:
  assumes "tk_expiresAt t = Some (Instant e)" "nonempty_text (tk_refreshToken t)"
  shows "decide_token now l t =
    (if e \<le> now \<or> (e - refreshWindowMillis \<le> now \<and> l + retryCooldownWindowMillis \<le> now) then Try_refresh else Use_token)"
  using assms by (auto simp: decide_token_def clock_before_def Let_def)

definition watchable :: "string \<Rightarrow> SsoSession \<Rightarrow> bool" where
  "watchable clientName n \<longleftrightarrow>
     first_error [throwOnInvalidClientName clientName, throwOnInvalidSsoSession n] = None"

lemma watchable_name: "watchable clientName n \<Longrightarrow> throwOnInvalidSsoSessionName (sn_name n) = None"
  by (auto simp: watchable_def throwOnInvalidSsoSession_def throwOnInvalidClientName_def throwOnInvalidSsoSessionName_def
      split: if_splits option.splits)

lemma watchable_session: "watchable clientName n \<Longrightarrow> throwOnInvalidSsoSession n = None"
  by (cases "throwOnInvalidClientName clientName"; cases "throwOnInvalidSsoSession n") (auto simp: watchable_def)

definition watched_token :: "SsoSession \<Rightarrow> token_state \<Rightarrow> SSOToken \<Rightarrow> bool" where
  "watched_token n st t \<longleftrightarrow> map_get (sf_tokens (ts_files st)) (sn_name n) = Some (Json t) \<and> looks_like_token t"

lemma getSsoToken_watched:
  assumes "watchable clientName n" "watched_token n st t"
  shows "getSsoToken env clientName n st =
    (let st1 = set_last_refresh (sn_name n) (last_refresh st (sn_name n)) st
     in case decide_token (se_now env) (last_refresh st (sn_name n)) t of
          Use_token \<Rightarrow> (Inr (Some t), st1)
        | No_refresh_token \<Rightarrow> (Inl (AwsError ''No refresh token available.'' E_SSO_TOKEN_EXPIRED), st1)
        | Try_refresh \<Rightarrow> refresh_token env clientName n t (set_last_refresh (sn_name n) (se_now env) st1))"
  using assms watchable_session [OF assms(1)]
  by (simp add: getSsoToken_def watchable_def watched_token_def fs_getSsoToken_def read_cache_file_def)

lemma register_client_details: "ts_details (snd (register_client env clientName n st)) = ts_details st"
  by (simp add: register_client_def split: sum.splits)

lemma registration_details: "ts_details (snd (getSsoClientRegistration env clientName n st)) = ts_details st"
  by (simp add: getSsoClientRegistration_def register_client_details split: option.splits sum.splits)

lemma refresh_token_details: "ts_details (snd (refresh_token env clientName n t st)) = ts_details st"
proof -
  obtain r st1 where r: "getSsoClientRegistration env clientName n st = (r, st1)" by (cases "getSsoClientRegistration env clientName n st")
  then have "ts_details st1 = ts_details st" using registration_details [of env clientName n st] by simp
  then show ?thesis
    by (simp add: refresh_token_def r split: sum.splits create_failure.splits)
qed

lemma last_refresh_set [simp]: "last_refresh (set_last_refresh k t st) k = t"
  by (simp add: last_refresh_def set_last_refresh_def js_map)

lemma refreshed_time: "last_refresh (snd (refresh_token env clientName n t (set_last_refresh k now st))) k = now"
  using last_refresh_set [of k now st] by (simp add: last_refresh_def refresh_token_details)

text \<open>The time of the last attempt, which an attempt sets to the current time.\<close>

definition refresh_attempted :: "SsoSession \<Rightarrow> int \<Rightarrow> refresher \<Rightarrow> bool" where
  "refresh_attempted n t rf \<longleftrightarrow> last_refresh (rf_tokens rf) (sn_name n) = t"

text \<open>
  Watching at a time leads to an attempt to refresh, at once or after at most that many timers,
  whatever the service answers and however late the timers fire.
\<close>

fun attempts_within :: "nat \<Rightarrow> string \<Rightarrow> SsoSession \<Rightarrow> int \<Rightarrow> refresher \<Rightarrow> bool" where
  "attempts_within 0 clientName n t rf \<longleftrightarrow>
     (\<forall>env r. se_now env = t \<longrightarrow> r < 1000000 \<longrightarrow>
       (\<exists>rf'. watch env t r clientName n rf = Inr rf' \<and> refresh_attempted n t rf'))"
| "attempts_within (Suc k) clientName n t rf \<longleftrightarrow>
     (\<forall>env r. se_now env = t \<longrightarrow> r < 1000000 \<longrightarrow>
       (\<exists>rf'. watch env t r clientName n rf = Inr rf' \<and>
         (refresh_attempted n t rf' \<or>
          (\<exists>i d. map_get (rf_armed rf') i = Some (n, d) \<and> map_get (rf_timeouts rf') (sn_name n) = Some i \<and>
             (\<forall>t'. t + d \<le> t' \<longrightarrow> attempts_within k clientName n t' (fire_timer i rf'))))))"

lemma unwatch_valid:
  "throwOnInvalidSsoSessionName name = None \<Longrightarrow> \<exists>rf1. unwatch name rf = Inr rf1 \<and> rf_tokens rf1 = rf_tokens rf"
  by (auto simp: unwatch_def split: option.splits)

lemma watch_attempt:
  assumes "watchable clientName n" "watched_token n (rf_tokens rf) t"
    and "decide_token (se_now env) (last_refresh (rf_tokens rf) (sn_name n)) t = Try_refresh"
  shows "\<exists>rf'. watch env now r clientName n rf = Inr rf' \<and> refresh_attempted n (se_now env) rf'"
proof -
  obtain rf1 where u: "unwatch (sn_name n) rf = Inr rf1" "rf_tokens rf1 = rf_tokens rf"
    using unwatch_valid [OF watchable_name [OF assms(1)]] by blast
  obtain res ts where g: "getSsoToken env clientName n (rf_tokens rf) = (res, ts)" by (cases "getSsoToken env clientName n (rf_tokens rf)")
  then have "last_refresh ts (sn_name n) = se_now env"
    using getSsoToken_watched [OF assms(1,2), of env] refreshed_time [of env clientName n t] assms(3)
    by (simp add: Let_def) (metis snd_conv)
  moreover have "rf_tokens (watch_end now r n res (rf1\<lparr>rf_tokens := ts\<rparr>)) = ts"
    by (simp add: watch_end_def arm_timer_def split: sum.splits option.splits)
  ultimately show ?thesis
    using assms(1) u g by (simp add: watch_def watch_begin_def watchable_def refresh_attempted_def)
qed

lemma watch_waits:
  assumes "watchable clientName n" "watched_token n (rf_tokens rf) t" "tk_expiresAt t = Some (Instant e)"
    and "decide_token (se_now env) (last_refresh (rf_tokens rf) (sn_name n)) t = Use_token"
    and "refresh_delay now (Some e) r = Some d"
  obtains rf' i where "watch env now r clientName n rf = Inr rf'" "map_get (rf_armed rf') i = Some (n, d)"
    "map_get (rf_timeouts rf') (sn_name n) = Some i" "watched_token n (rf_tokens rf') t"
    "last_refresh (rf_tokens rf') (sn_name n) = last_refresh (rf_tokens rf) (sn_name n)"
proof -
  obtain rf1 where u: "unwatch (sn_name n) rf = Inr rf1" "rf_tokens rf1 = rf_tokens rf"
    using unwatch_valid [OF watchable_name [OF assms(1)]] by blast
  define ts where "ts = set_last_refresh (sn_name n) (last_refresh (rf_tokens rf) (sn_name n)) (rf_tokens rf)"
  have g: "getSsoToken env clientName n (rf_tokens rf) = (Inr (Some t), ts)"
    using getSsoToken_watched [OF assms(1,2), of env] assms(4) by (simp add: ts_def)
  define rf' where "rf' = arm_timer n d (rf1\<lparr>rf_tokens := ts\<rparr>)"
  have "watch env now r clientName n rf = Inr rf'"
    using assms(1,3,5) u g by (simp add: watch_def watch_begin_def watchable_def watch_end_def rf'_def)
  moreover have "watched_token n ts t" using assms(2) by (simp add: watched_token_def ts_def set_last_refresh_def)
  ultimately show thesis
    by (intro that [of rf' "rf_nextTimer rf1"]) (simp_all add: rf'_def arm_timer_def js_map ts_def)
qed

lemmas refresh_times = refreshWindowMillis_def retryCooldownWindowMillis_def bufferedRefreshWindowMillis_def
  bufferedRetryCooldownWindowMillis_def maxRefreshJitterMillis_def maxRetryCooldownJitterMillis_def

lemma refresh_delay_before:
  assumes "now < e - refreshWindowMillis" "r < 1000000"
  obtains d where "refresh_delay now (Some e) r = Some d" "e - 285000 \<le> now + d" "now + d < e - 275000"
  using assms by (auto simp: refresh_delay_def clock_before_def refresh_times)

lemma refresh_delay_within:
  assumes "e - refreshWindowMillis < now" "now < e" "r < 1000000"
  obtains d where "refresh_delay now (Some e) r = Some d" "31500 \<le> d" "d < 34500"
  using assms by (auto simp: refresh_delay_def clock_before_def refresh_times)

lemma fire_timer_tokens [simp]: "rf_tokens (fire_timer i rf) = rf_tokens rf"
  by (simp add: fire_timer_def)

lemma attempt_now:
  assumes "watchable clientName n" "watched_token n (rf_tokens rf) t" "tk_expiresAt t = Some (Instant e)"
    "nonempty_text (tk_refreshToken t)"
    and "e \<le> now \<or> (e - refreshWindowMillis \<le> now \<and> last_refresh (rf_tokens rf) (sn_name n) + retryCooldownWindowMillis \<le> now)"
  shows "attempts_within k clientName n now rf"
proof -
  have "\<exists>rf'. watch env now r clientName n rf = Inr rf' \<and> refresh_attempted n now rf'" if "se_now env = now" for env r
    using watch_attempt [OF assms(1,2), of env now r] decide_token_iff [OF assms(3,4)] assms(5) that by auto
  then show ?thesis by (cases k) (simp, force)
qed

lemma attempts_later:
  assumes v: "watchable clientName n" "watched_token n (rf_tokens rf) t" "tk_expiresAt t = Some (Instant e)"
    and u: "decide_token now (last_refresh (rf_tokens rf) (sn_name n)) t = Use_token"
    and later: "\<And>r. r < 1000000 \<Longrightarrow> \<exists>d. refresh_delay now (Some e) r = Some d \<and>
      (\<forall>rf' t'. watched_token n (rf_tokens rf') t \<longrightarrow> last_refresh (rf_tokens rf') (sn_name n) = last_refresh (rf_tokens rf) (sn_name n) \<longrightarrow>
         now + d \<le> t' \<longrightarrow> attempts_within k clientName n t' rf')"
  shows "attempts_within (Suc k) clientName n now rf"
proof -
  have "\<exists>rf'. watch env now r clientName n rf = Inr rf' \<and>
      (\<exists>i d. map_get (rf_armed rf') i = Some (n, d) \<and> map_get (rf_timeouts rf') (sn_name n) = Some i \<and>
        (\<forall>t'. now + d \<le> t' \<longrightarrow> attempts_within k clientName n t' (fire_timer i rf')))"
    if now: "se_now env = now" "r < 1000000" for env and r :: nat
  proof -
    obtain d where d: "refresh_delay now (Some e) r = Some d"
      "\<And>rf' t'. watched_token n (rf_tokens rf') t \<Longrightarrow> last_refresh (rf_tokens rf') (sn_name n) = last_refresh (rf_tokens rf) (sn_name n) \<Longrightarrow>
         se_now env + d \<le> t' \<Longrightarrow> attempts_within k clientName n t' rf'"
      using later [OF now(2)] now(1) by blast
    obtain rf' i where w: "watch env now r clientName n rf = Inr rf'" "map_get (rf_armed rf') i = Some (n, d)"
        "map_get (rf_timeouts rf') (sn_name n) = Some i" "watched_token n (rf_tokens rf') t"
        "last_refresh (rf_tokens rf') (sn_name n) = last_refresh (rf_tokens rf) (sn_name n)"
      using watch_waits [OF v u [folded now(1)] d(1)] by blast
    show ?thesis using w d(2) [of "fire_timer i rf'"] now(1) by auto
  qed
  then show ?thesis by (simp only: attempts_within.simps) blast
qed

lemma attempt_within_window:
  assumes v: "watchable clientName n" "watched_token n (rf_tokens rf) t" "tk_expiresAt t = Some (Instant e)"
    "nonempty_text (tk_refreshToken t)"
    and now: "e - refreshWindowMillis < now" "last_refresh (rf_tokens rf) (sn_name n) \<le> now"
  shows "attempts_within (Suc k) clientName n now rf"
proof (cases "e \<le> now \<or> last_refresh (rf_tokens rf) (sn_name n) + retryCooldownWindowMillis \<le> now")
  case True
  then show ?thesis using now by (intro attempt_now [OF v]) auto
next
  case False
  show ?thesis
  proof (rule attempts_later [OF v(1-3)])
    show "decide_token now (last_refresh (rf_tokens rf) (sn_name n)) t = Use_token"
      using False decide_token_iff [OF v(3,4)] by auto
    fix r :: nat assume r: "r < 1000000"
    obtain d where d: "refresh_delay now (Some e) r = Some d" "31500 \<le> d" "d < 34500"
      using refresh_delay_within [OF now(1) _ r] False by auto
    have "attempts_within k clientName n t' rf'"
      if "watched_token n (rf_tokens rf') t" "last_refresh (rf_tokens rf') (sn_name n) = last_refresh (rf_tokens rf) (sn_name n)"
        "now + d \<le> t'" for rf' t'
      by (rule attempt_now [OF v(1) that(1) v(3,4)]) (use that d now in \<open>auto simp: refresh_times\<close>)
    with d show "\<exists>d. refresh_delay now (Some e) r = Some d \<and>
      (\<forall>rf' t'. watched_token n (rf_tokens rf') t \<longrightarrow> last_refresh (rf_tokens rf') (sn_name n) = last_refresh (rf_tokens rf) (sn_name n) \<longrightarrow>
         now + d \<le> t' \<longrightarrow> attempts_within k clientName n t' rf')" by blast
  qed
qed


section \<open>Samples\<close>

definition sso_sample :: SsoSession where
  "sso_sample = \<lparr>sn_name = ''corp'', sn_settings = Some [(''sso_region'', SV_string ''us-east-1''),
     (''sso_start_url'', SV_string ''https://corp''), (''sso_registration_scopes'', SV_list [''a''])]\<rparr>"

definition token_sample :: SSOToken where
  "token_sample = empty_token\<lparr>tk_accessToken := Some ''at'', tk_expiresAt := Some (Instant 3600000), tk_refreshToken := Some ''rt''\<rparr>"

definition registration_sample :: SsoClientRegistration where
  "registration_sample = \<lparr>cr_clientId = Some ''id'', cr_clientSecret = Some ''secret'', cr_issuedAt = None,
     cr_expiresAt = Some (Instant 9000000), cr_scopes = Some [''a'']\<rparr>"

definition refresher_sample :: refresher where
  "refresher_sample =
     \<lparr>rf_tokens = \<lparr>ts_files = \<lparr>sf_tokens = [(''corp'', Json token_sample)],
         sf_registrations = [((''us-east-1'', ''https://corp'', ''editor''), Json registration_sample)]\<rparr>,
       ts_details = [], ts_refreshed = []\<rparr>, rf_armed = [], rf_timeouts = [], rf_nextTimer = 0\<rparr>"

definition env_sample :: "int \<Rightarrow> create_failure + CreateTokenOutput \<Rightarrow> sso_env" where
  "env_sample now out = \<lparr>se_now = now, se_registrationNow = now, se_updateNow = now + 20, se_register = Inl (Other_error None),
     se_createToken = out, se_writable = True, se_removable = True\<rparr>"

definition output_sample :: CreateTokenOutput where
  "output_sample = \<lparr>co_accessToken = Some ''at2'', co_expiresIn = Some 3600, co_refreshToken = Some ''rt2''\<rparr>"


definition refreshed_sample :: SSOToken where
  "refreshed_sample = \<lparr>tk_accessToken = Some ''at2'', tk_expiresAt = Some (Instant 7000020), tk_refreshToken = Some ''rt2'',
     tk_clientId = Some ''id'', tk_clientSecret = Some ''secret'', tk_registrationExpiresAt = Some (Instant 9000000),
     tk_region = Some ''us-east-1'', tk_startUrl = Some ''https://corp''\<rparr>"

lemma sample_refresh:
  "getSsoToken (env_sample 3400000 (Inr output_sample)) ''editor'' sso_sample (rf_tokens refresher_sample) =
     (Inr (Some refreshed_sample), snd (getSsoToken (env_sample 3400000 (Inr output_sample)) ''editor'' sso_sample (rf_tokens refresher_sample)))"
  by code_simp

theorem handed_out_token_valid_witness:
  "(\<exists>e. tk_expiresAt refreshed_sample = Some (Instant e) \<and> se_now (env_sample 3400000 (Inr output_sample)) < e) \<and>
   map_get (sf_tokens (ts_files (snd (getSsoToken (env_sample 3400000 (Inr output_sample)) ''editor'' sso_sample
     (rf_tokens refresher_sample))))) (sn_name sso_sample) = Some (Json refreshed_sample)"
  by (rule handed_out_token_valid [OF sample_refresh]) (auto simp: env_sample_def output_sample_def)

section \<open>Timers that are lost\<close>

text \<open>A refresh that fails ends the watching: the error counts as a missing token, and no timer is armed.\<close>

lemma failed_refresh_ends_watching:
  "watch (env_sample 3400000 (Inl Create_failed)) 3400000 0 ''editor'' sso_sample refresher_sample =
     Inr (refresher_sample\<lparr>rf_tokens := (rf_tokens refresher_sample)\<lparr>ts_details := [(''corp'', 3400000)]\<rparr>\<rparr>)"
  by code_simp

text \<open>
  Two watches of the same session that overlap at their call of the cache arm two timers, of which only
  the second is remembered: the first stays armed when the session is unwatched.
\<close>

definition overlapping_watches :: "refresher \<Rightarrow> js_error + refresher" where
  "overlapping_watches rf =
     and_then (watch_begin ''editor'' sso_sample rf)
       (\<lambda>rf1. and_then (watch_begin ''editor'' sso_sample rf1)
          (\<lambda>rf2. unwatch ''corp''
             (watch_end 1000 0 sso_sample (Inr (Some token_sample)) (watch_end 1000 0 sso_sample (Inr (Some token_sample)) rf2))))"

lemma overlapping_watches_leak:
  "overlapping_watches refresher_sample =
     Inr (refresher_sample\<lparr>rf_armed := [(0, sso_sample, 3314000)], rf_nextTimer := 2\<rparr>)"
  by code_simp

end
