(* ===== verification/Sso_Login.thy ===== *)
theory Sso_Login
  imports Sso_Tokens
begin

text \<open>
  The two login flows of the identity server: polling for a token after the user was shown a code
  (\<^verbatim>\<open>sso/deviceCode/deviceCodeFlow.ts\<close>), and the local web server that receives an authorization code
  (\<^verbatim>\<open>sso/authorizationCodePkce\<close>).
\<close>

section \<open>Polling\<close>

definition backoffDelayMillis :: int where
  "backoffDelayMillis = 5000"

definition defaultExpiration :: int where
  "defaultExpiration = 10 * 60 * 1000"

datatype poll_answer = Granted CreateTokenOutput | Slow_down | Pending | Refused js_error

text \<open>What a round of polling finds: the clock, whether the client has cancelled, the answer of the service.\<close>

record poll_env =
  pe_now :: "nat \<Rightarrow> int"
  pe_cancelled :: "nat \<Rightarrow> bool"
  pe_answer :: "nat \<Rightarrow> poll_answer"

definition poll_timeout :: js_error where
  "poll_timeout = AwsError ''Timed-out waiting for browser login flow to complete'' E_TIMEOUT"

definition poll_cancelled :: js_error where
  "poll_cancelled = AwsError ''Client cancelled the auth flow.'' E_CANCELLED"

text \<open>The loop from round \<^verbatim>\<open>i\<close> on, with the round in which it ended; \<^verbatim>\<open>None\<close> when it does not end.\<close>

partial_function (option) poll :: "poll_env \<Rightarrow> int \<Rightarrow> int \<Rightarrow> nat \<Rightarrow> ((js_error + CreateTokenOutput) \<times> nat) option" where
  "poll env expiresAt interval i =
     (if expiresAt - pe_now env i \<le> interval then Some (Inl poll_timeout, i)
      else if pe_cancelled env i then Some (Inl poll_cancelled, i)
      else case pe_answer env i of
             Granted out \<Rightarrow> Some (Inr out, i)
           | Refused e \<Rightarrow> Some (Inl e, i)
           | Slow_down \<Rightarrow> poll env expiresAt (interval + backoffDelayMillis) (Suc i)
           | Pending \<Rightarrow> poll env expiresAt interval (Suc i))"

declare poll.simps [code]

definition pollAuthorization :: "poll_env \<Rightarrow> int \<Rightarrow> int option \<Rightarrow> ((js_error + CreateTokenOutput) \<times> nat) option" where
  "pollAuthorization env expiresAt interval =
     poll env expiresAt (case interval of None \<Rightarrow> backoffDelayMillis | Some x \<Rightarrow> x) 0"

section \<open>The device code flow\<close>

record DeviceAuthorization =
  da_verificationUriComplete :: "string option"
  da_userCode :: "string option"
  da_deviceCode :: "string option"
  da_expiresIn :: "int option"
  da_interval :: "int option"

datatype client_response = Acknowledged | Dismissed | Not_answered | Client_failed js_error

datatype progress_state = InProgress | Complete

text \<open>The URLs and progress reports shown to the user.\<close>

record shown =
  sh_urls :: "string list"
  sh_progress :: "progress_state list"

text \<open>Its surroundings: the answer to the start, the clock then, the client, and the rounds of polling.\<close>

record flow_env =
  fe_start :: "js_error + DeviceAuthorization"
  fe_startNow :: int
  fe_response :: client_response
  fe_poll :: poll_env
  fe_updateNow :: int

definition showOnClient :: "client_response \<Rightarrow> DeviceAuthorization \<Rightarrow> shown \<Rightarrow> js_error + shown" where
  "showOnClient response a sh =
     (case response of
        Not_answered \<Rightarrow> Inl (AwsError ''User code was not acknowledged.'' E_TIMEOUT)
      | Client_failed e \<Rightarrow> Inl e
      | Dismissed \<Rightarrow> Inl (AwsError ''Auth flow was cancelled when displaying user code.'' E_CANCELLED)
      | Acknowledged \<Rightarrow>
          Inr (sh\<lparr>sh_urls := sh_urls sh @ [the (da_verificationUriComplete a)], sh_progress := sh_progress sh @ [InProgress]\<rparr>))"

definition authorization_expiry :: "int \<Rightarrow> DeviceAuthorization \<Rightarrow> int" where
  "authorization_expiry now a =
     (case da_expiresIn a of None \<Rightarrow> defaultExpiration | Some x \<Rightarrow> if x = 0 then defaultExpiration else x * 1000) + now"

definition poll_interval :: "DeviceAuthorization \<Rightarrow> int option" where
  "poll_interval a = (case da_interval a of None \<Rightarrow> None | Some x \<Rightarrow> if x = 0 then None else Some (x * 1000))"

text \<open>\<^verbatim>\<open>None\<close> when the polling does not end.\<close>

definition deviceCodeFlow ::
    "flow_env \<Rightarrow> SsoClientRegistration \<Rightarrow> SsoSession \<Rightarrow> shown \<Rightarrow> ((js_error + SSOToken) \<times> shown) option" where
  "deviceCodeFlow env reg n sh =
     (case first_error [throwOnInvalidClientRegistration (Some reg), throwOnInvalidSsoSession n] of
        Some e \<Rightarrow> Some (Inl e, sh)
      | None \<Rightarrow>
          (case fe_start env of
             Inl e \<Rightarrow> Some (Inl e, sh)
           | Inr a \<Rightarrow>
               if \<not> nonempty_text (da_verificationUriComplete a) \<or> \<not> nonempty_text (da_userCode a) \<or>
                  \<not> nonempty_text (da_deviceCode a)
               then Some (Inl (AwsError ''Device code authorization is invalid.'' E_INVALID_SSO_CLIENT), sh)
               else case showOnClient (fe_response env) a sh of
                      Inl e \<Rightarrow> Some (Inl e, sh)
                    | Inr sh1 \<Rightarrow>
                        map_option (\<lambda>(result, _).
                            (and_then result (\<lambda>out. UpdateSsoTokenFromCreateToken (fe_updateNow env) out reg n None),
                             sh1\<lparr>sh_progress := sh_progress sh1 @ [Complete]\<rparr>))
                          (pollAuthorization (fe_poll env) (authorization_expiry (fe_startNow env) a) (poll_interval a))))"

section \<open>The local web server\<close>

text \<open>A request: the path of its URL and the parameters of its query in order.\<close>

record web_request =
  wr_path :: string
  wr_query :: "(string \<times> string) list"

datatype auth_promise = Waiting | Resolved string | Rejected js_error

datatype web_response = Redirect string | Resource string

record AuthorizationServer =
  as_origin :: string
  as_clientName :: string
  as_csrfState :: string
  as_promise :: auth_promise
  as_responses :: "web_response list"

text \<open>A promise is settled once.\<close>

definition settle :: "auth_promise \<Rightarrow> AuthorizationServer \<Rightarrow> AuthorizationServer" where
  "settle p s = (if as_promise s = Waiting then s\<lparr>as_promise := p\<rparr> else s)"

definition authorizationPath :: string where
  "authorizationPath = ''/oauth/callback''"

definition redirectUri :: "AuthorizationServer \<Rightarrow> string" where
  "redirectUri s = as_origin s @ authorizationPath"

text \<open>\<^verbatim>\<open>URLSearchParams\<close> escapes the text of the error, which is a parameter here.\<close>

definition redirect :: "(string \<Rightarrow> string) \<Rightarrow> string option \<Rightarrow> AuthorizationServer \<Rightarrow> AuthorizationServer" where
  "redirect escape error s =
     (let uri = as_origin s @ ''/index.html?clientName='' @ as_clientName s;
          uri' = (case error of None \<Rightarrow> uri | Some e \<Rightarrow> if e = [] then uri else uri @ ''?'' @ ''error='' @ escape e)
      in s\<lparr>as_responses := as_responses s @ [Redirect uri']\<rparr>)"

definition query_param :: "web_request \<Rightarrow> string \<Rightarrow> string option" where
  "query_param r k = map_of (wr_query r) k"

definition auth_failure :: "string \<Rightarrow> js_error" where
  "auth_failure m = AwsError m E_CANNOT_CREATE_SSO_TOKEN"

text \<open>The code of an authorization request, or why it is refused.\<close>

definition authorization_code :: "string \<Rightarrow> web_request \<Rightarrow> js_error + string" where
  "authorization_code csrf r =
     (if nonempty_text (query_param r ''error'')
      then Inl (auth_failure (the (query_param r ''error'') @ '': '' @
             (case query_param r ''error_description'' of None \<Rightarrow> ''No description'' | Some d \<Rightarrow> d)))
      else if \<not> nonempty_text (query_param r ''code'') then Inl (auth_failure ''Authorization code not found.'')
      else if \<not> nonempty_text (query_param r ''state'') then Inl (auth_failure ''CSRF state not found.'')
      else if query_param r ''state'' \<noteq> Some csrf then Inl (auth_failure ''CSRF state is invalid.'')
      else Inr (the (query_param r ''code'')))"

definition authorizationRequest :: "(string \<Rightarrow> string) \<Rightarrow> web_request \<Rightarrow> AuthorizationServer \<Rightarrow> AuthorizationServer" where
  "authorizationRequest escape r s =
     (case authorization_code (as_csrfState s) r of
        Inr code \<Rightarrow> settle (Resolved code) (redirect escape None s)
      | Inl e \<Rightarrow> settle (Rejected e) (redirect escape (Some (''Error: '' @ err_message e)) s))"

definition requesterListener :: "(string \<Rightarrow> string) \<Rightarrow> web_request \<Rightarrow> AuthorizationServer \<Rightarrow> AuthorizationServer" where
  "requesterListener escape r s =
     (if wr_path r = authorizationPath then authorizationRequest escape r s
      else s\<lparr>as_responses := as_responses s @ [Resource (wr_path r)]\<rparr>)"

text \<open>What happens to the server: a request, or the client cancels, which rejects with no error.\<close>

datatype auth_event = Request web_request | Cancel

definition auth_step :: "(string \<Rightarrow> string) \<Rightarrow> auth_event \<Rightarrow> AuthorizationServer \<Rightarrow> AuthorizationServer" where
  "auth_step escape ev s =
     (case ev of Request r \<Rightarrow> requesterListener escape r s | Cancel \<Rightarrow> settle (Rejected (Other_error None)) s)"

definition auth_server :: "string \<Rightarrow> string \<Rightarrow> string \<Rightarrow> AuthorizationServer" where
  "auth_server origin clientName csrf =
     \<lparr>as_origin = origin, as_clientName = clientName, as_csrfState = csrf, as_promise = Waiting, as_responses = []\<rparr>"

definition formatScopes :: "SsoSession \<Rightarrow> string" where
  "formatScopes n =
     (case sn_settings n of
        None \<Rightarrow> []
      | Some ps \<Rightarrow>
          (case normalizeSettingList (setting_in ps ''sso_registration_scopes'') of None \<Rightarrow> [] | Some xs \<Rightarrow> join_with '','' xs))"

text \<open>The flow with the authorization code, given what the web server and the service answer.\<close>

definition authorizationCodePkceFlow ::
    "int \<Rightarrow> js_error + string \<Rightarrow> (string \<Rightarrow> js_error + CreateTokenOutput) \<Rightarrow> SsoClientRegistration \<Rightarrow> SsoSession \<Rightarrow> js_error + SSOToken" where
  "authorizationCodePkceFlow now code createToken reg n =
     (case first_error [throwOnInvalidClientRegistration (Some reg), throwOnInvalidSsoSession n] of
        Some e \<Rightarrow> Inl e
      | None \<Rightarrow>
          and_then code (\<lambda>c. and_then (createToken c) (\<lambda>out. UpdateSsoTokenFromCreateToken now out reg n None)))"

section \<open>Polling ends\<close>

lemma poll_done:
  "expiresAt - pe_now env i \<le> interval \<or> pe_cancelled env i \<Longrightarrow> \<exists>r j. poll env expiresAt interval i = Some (r, j) \<and> j = i"
  by (subst poll.simps) auto

lemma poll_next:
  obtains (stop) r where "poll env expiresAt interval i = Some (r, i)"
    | (go) interval' where "interval \<le> interval'" "poll env expiresAt interval i = poll env expiresAt interval' (Suc i)"
proof (cases "expiresAt - pe_now env i \<le> interval \<or> pe_cancelled env i")
  case True
  then show thesis using poll_done stop by blast
next
  case False
  then have "poll env expiresAt interval i = (case pe_answer env i of
      Granted out \<Rightarrow> Some (Inr out, i) | Refused e \<Rightarrow> Some (Inl e, i)
    | Slow_down \<Rightarrow> poll env expiresAt (interval + backoffDelayMillis) (Suc i)
    | Pending \<Rightarrow> poll env expiresAt interval (Suc i))"
    by (subst poll.simps) simp
  then show thesis
    using stop go [of "interval + backoffDelayMillis"] go [of interval]
    by (cases "pe_answer env i") (auto simp: backoffDelayMillis_def)
qed

lemma whole_intervals:
  fixes b d :: int
  assumes "0 < b"
  shows "d \<le> int (nat (d div b + 1)) * b"
proof -
  have "b * (d div b) + d mod b = d" "d mod b < b" using assms by simp_all
  then have "d < b * (d div b) + b" by linarith
  then have d: "d < (d div b + 1) * b" by (simp add: algebra_simps)
  show ?thesis
  proof (cases "0 \<le> d div b + 1")
    case False
    then have "(d div b + 1) * b < 0" using assms by (simp add: mult_neg_pos)
    then show ?thesis using d False by simp
  qed (use d in simp)
qed

lemma poll_ends_by_rounds:
  assumes pos: "0 < base" and law: "\<And>j. pe_cancelled env (Suc j) \<or> pe_now env j + base \<le> pe_now env (Suc j)"
  shows "base \<le> interval \<Longrightarrow> expiresAt - pe_now env i \<le> int k * base \<Longrightarrow>
    \<exists>r j. poll env expiresAt interval i = Some (r, j) \<and> j \<le> i + k"
proof (induction k arbitrary: interval i)
  case 0
  then show ?case using poll_done [of expiresAt env i interval] pos by auto
next
  case (Suc k)
  show ?case
  proof (rule poll_next [of env expiresAt interval i])
    fix interval' assume go: "interval \<le> interval'" "poll env expiresAt interval i = poll env expiresAt interval' (Suc i)"
    show ?thesis
    proof (cases "pe_cancelled env (Suc i)")
      case True
      then obtain r where "poll env expiresAt interval' (Suc i) = Some (r, Suc i)" using poll_done by blast
      then show ?thesis using go(2) by auto
    next
      case False
      then have "pe_now env i + base \<le> pe_now env (Suc i)" using law [of i] by blast
      then have "expiresAt - pe_now env (Suc i) \<le> int k * base" using Suc.prems(2) by (simp add: algebra_simps)
      from Suc.IH [OF _ this, of interval'] show ?thesis using go Suc.prems(1) by fastforce
    qed
  qed auto
qed


definition patient_user :: poll_env where
  "patient_user = \<lparr>pe_now = (\<lambda>i. 5000 * int i), pe_cancelled = (\<lambda>_. False), pe_answer = (\<lambda>_. Pending)\<rparr>"


text \<open>Whatever way the flow ends, a progress bar that was shown has been closed.\<close>

lemma progress_closed:
  assumes "deviceCodeFlow env reg n sh = Some (r, sh')" "InProgress \<notin> set (sh_progress sh)" "InProgress \<in> set (sh_progress sh')"
  shows "last (sh_progress sh') = Complete"
  using assms
  by (cases "fe_start env"; cases "fe_response env")
    (auto simp: deviceCodeFlow_def showOnClient_def simp del: first_error.simps split: option.splits if_splits)

section \<open>Authorization codes\<close>

lemma auth_step_settled:
  "as_promise s \<noteq> Waiting \<Longrightarrow> as_promise (auth_step escape ev s) = as_promise s"
  by (auto simp: auth_step_def requesterListener_def authorizationRequest_def settle_def redirect_def Let_def
      split: auth_event.splits sum.splits)

lemma auth_step_csrf [simp]: "as_csrfState (auth_step escape ev s) = as_csrfState s"
  by (auto simp: auth_step_def requesterListener_def authorizationRequest_def settle_def redirect_def Let_def
      split: auth_event.splits sum.splits)

lemma auth_step_resolves:
  "as_promise s = Waiting \<Longrightarrow> as_promise (auth_step escape ev s) = Resolved c \<Longrightarrow>
   \<exists>r. ev = Request r \<and> wr_path r = authorizationPath \<and> authorization_code (as_csrfState s) r = Inr c"
  by (auto simp: auth_step_def requesterListener_def authorizationRequest_def settle_def redirect_def Let_def
      split: auth_event.splits sum.splits if_splits)

lemma auth_run_settled: "as_promise s \<noteq> Waiting \<Longrightarrow> as_promise (fold (auth_step escape) evs s) = as_promise s"
  by (induction evs arbitrary: s) (simp_all add: auth_step_settled)

lemma auth_run_resolves:
  "as_promise s = Waiting \<Longrightarrow> as_promise (fold (auth_step escape) evs s) = Resolved c \<Longrightarrow>
   \<exists>pre r post. evs = pre @ Request r # post \<and> as_promise (fold (auth_step escape) pre s) = Waiting \<and>
     wr_path r = authorizationPath \<and> authorization_code (as_csrfState s) r = Inr c"
proof (induction evs arbitrary: s)
  case (Cons ev evs)
  show ?case
  proof (cases "as_promise (auth_step escape ev s) = Waiting")
    case True
    from Cons.IH [OF this] Cons.prems(2) obtain pre r post where
      "evs = pre @ Request r # post" "as_promise (fold (auth_step escape) pre (auth_step escape ev s)) = Waiting"
      "wr_path r = authorizationPath" "authorization_code (as_csrfState s) r = Inr c" by auto
    then show ?thesis by (intro exI [of _ "ev # pre"] exI [of _ r] exI [of _ post]) simp
  next
    case False
    then have "as_promise (auth_step escape ev s) = Resolved c"
      using Cons.prems(2) auth_run_settled [OF False] by simp
    with auth_step_resolves [OF Cons.prems(1)] obtain r where
      "ev = Request r" "wr_path r = authorizationPath" "authorization_code (as_csrfState s) r = Inr c" by blast
    then show ?thesis using Cons.prems(1) by (intro exI [of _ "[]"] exI [of _ r] exI [of _ evs]) simp
  qed
qed simp

lemma authorization_code_Inr:
  "authorization_code csrf r = Inr c \<longleftrightarrow> \<not> nonempty_text (query_param r ''error'') \<and> query_param r ''code'' = Some c \<and>
     c \<noteq> [] \<and> query_param r ''state'' = Some csrf \<and> csrf \<noteq> []"
  by (auto simp: authorization_code_def nonempty_text_def split: option.splits)

text \<open>
  C18. No code can be injected into a login: whatever requests reach the local web server, if it hands
  out an authorization code, then the first request to the authorization path (while the client had not
  cancelled) carried that code, no error, and the state that was generated for this login.
\<close>

theorem authorization_code_genuine:
  assumes "as_promise (fold (auth_step escape) evs (auth_server origin clientName csrf)) = Resolved c"
  shows "\<exists>pre r post. evs = pre @ Request r # post \<and> wr_path r = authorizationPath \<and>
    query_param r ''state'' = Some csrf \<and> query_param r ''code'' = Some c \<and> \<not> nonempty_text (query_param r ''error'') \<and>
    (\<forall>ev\<in>set pre. \<exists>q. ev = Request q \<and> wr_path q \<noteq> authorizationPath)"
proof -
  let ?s = "auth_server origin clientName csrf"
  obtain pre r post where r: "evs = pre @ Request r # post" "as_promise (fold (auth_step escape) pre ?s) = Waiting"
    "wr_path r = authorizationPath" "authorization_code csrf r = Inr c"
    using auth_run_resolves [OF _ assms] by (auto simp: auth_server_def)
  have "\<exists>q. ev = Request q \<and> wr_path q \<noteq> authorizationPath" if "ev \<in> set pre" for ev
  proof -
    from split_list [OF that] obtain as bs where pre: "pre = as @ ev # bs" by blast
    define t where "t = fold (auth_step escape) as ?s"
    have "as_promise (fold (auth_step escape) bs (auth_step escape ev t)) = Waiting" using r(2) by (simp add: pre t_def)
    then have w: "as_promise (auth_step escape ev t) = Waiting" using auth_run_settled by fastforce
    then have "as_promise t = Waiting" using auth_step_settled by fastforce
    with w show ?thesis
      by (auto simp: auth_step_def requesterListener_def authorizationRequest_def settle_def redirect_def Let_def
          split: auth_event.splits sum.splits if_splits)
  qed
  with r show ?thesis by (auto simp: authorization_code_Inr)
qed

definition login_events :: "auth_event list" where
  "login_events = [Request \<lparr>wr_path = ''/favicon.ico'', wr_query = []\<rparr>,
     Request \<lparr>wr_path = ''/oauth/callback'', wr_query = [(''code'', ''c1''), (''state'', ''s1'')]\<rparr>]"

theorem authorization_code_genuine_witness:
  "\<exists>pre r post. login_events = pre @ Request r # post \<and> wr_path r = authorizationPath \<and>
    query_param r ''state'' = Some ''s1'' \<and> query_param r ''code'' = Some ''c1'' \<and> \<not> nonempty_text (query_param r ''error'') \<and>
    (\<forall>ev\<in>set pre. \<exists>q. ev = Request q \<and> wr_path q \<noteq> authorizationPath)"
  by (rule authorization_code_genuine [where escape = id and origin = "''o''" and clientName = "''editor''"]) code_simp

section \<open>The page after a failed login\<close>

text \<open>
  How the page reads its address: the part after the first question mark, taken apart at ampersands and
  the first equals sign of each piece.
\<close>

definition page_search :: "string \<Rightarrow> string" where
  "page_search uri = drop 1 (dropWhile (\<lambda>c. c \<noteq> CHR ''?'') uri)"

definition search_params :: "string \<Rightarrow> (string \<times> string) list" where
  "search_params s =
     map (\<lambda>p. (takeWhile (\<lambda>c. c \<noteq> CHR ''='') p, drop 1 (dropWhile (\<lambda>c. c \<noteq> CHR ''='') p)))
       (filter (\<lambda>p. p \<noteq> []) (split_on (CHR ''&'') s))"

text \<open>The error that the page shows; without one it says that the permissions were given.\<close>

definition page_error :: "string \<Rightarrow> string option" where
  "page_error uri = (case map_of (search_params (page_search uri)) ''error'' of None \<Rightarrow> None | Some e \<Rightarrow> if e = [] then None else Some e)"

lemma page_search_origin: "CHR ''?'' \<notin> set origin \<Longrightarrow> page_search (origin @ ''/index.html?'' @ s) = s"
  by (induction origin) (auto simp: page_search_def)

lemma single_param:
  assumes "CHR ''&'' \<notin> set s"
  shows "search_params (''clientName='' @ s) = [(''clientName'', s)]"
proof -
  have "split_on (CHR ''&'') (''clientName='' @ s) = [''clientName='' @ s]" using assms by (intro split_on_no_sep) simp
  then show ?thesis by (simp add: search_params_def)
qed

text \<open>
  After a failed login the page reports success: the error is appended with a second question mark,
  so it belongs to the name of the client, and the page finds no error. (The escaped text has no ampersand,
  and neither has the name of the client.)
\<close>

theorem failed_login_page_reports_success:
  assumes "authorization_code (as_csrfState s) r = Inl e" "\<And>x. CHR ''&'' \<notin> set (escape x)"
    and "CHR ''&'' \<notin> set (as_clientName s)" "CHR ''?'' \<notin> set (as_origin s)"
  shows "\<exists>uri. as_responses (authorizationRequest escape r s) = as_responses s @ [Redirect uri] \<and> page_error uri = None"
proof -
  define m where "m = ''Error: '' @ err_message e"
  have "as_responses (authorizationRequest escape r s) =
      as_responses s @ [Redirect (as_origin s @ ''/index.html?'' @ ''clientName='' @ as_clientName s @ ''?error='' @ escape m)]"
    by (simp add: authorizationRequest_def assms(1) settle_def redirect_def Let_def m_def)
  moreover have "page_error (as_origin s @ ''/index.html?'' @ ''clientName='' @ as_clientName s @ ''?error='' @ escape m) = None"
    unfolding page_error_def page_search_origin [OF assms(4)]
    by (subst single_param) (use assms(2,3) in auto)
  ultimately show ?thesis by blast
qed

theorem failed_login_page_reports_success_witness:
  "\<exists>uri. as_responses (authorizationRequest (filter (\<lambda>c. c \<noteq> CHR ''&'')) \<lparr>wr_path = ''/oauth/callback'', wr_query = [(''error'', ''denied'')]\<rparr>
      (auth_server ''http://127.0.0.1:80'' ''editor'' ''s1'')) =
    as_responses (auth_server ''http://127.0.0.1:80'' ''editor'' ''s1'') @ [Redirect uri] \<and> page_error uri = None"
  by (rule failed_login_page_reports_success [where e = "auth_failure ''denied: No description''"])
    (simp_all add: auth_server_def authorization_code_def query_param_def nonempty_text_def)

end
