(* ===== verification/Identity_Service.thy ===== *)
theory Identity_Service
  imports Sso_Login
begin

text \<open>
  The identity service and server (\<^verbatim>\<open>language-server/identityService.ts\<close>, \<^verbatim>\<open>identityServer.ts\<close>): finding the session of a
  request, getting its token from the cache or by a login, watching it, and invalidating it. The login flows
  are injected into the service, so they are a parameter.
\<close>

section \<open>Definitions\<close>

datatype SsoTokenSource = AwsBuilderId "string list" | IamIdentityCenter string | Other_source string

datatype AuthorizationFlowKind = DeviceCode | Pkce | Other_flow string

datatype metric_result = Succeeded | Failed | Cancelled

record identity_state =
  id_refresher :: refresher
  id_metrics :: "(string \<times> metric_result) list"

text \<open>The surroundings of a request: the shared configuration, the caches' environments for the two looks at the token, and the flow the protocol package names as default.\<close>

record identity_env =
  ie_parsed :: "js_error + parsed_ini"
  ie_cache :: sso_env
  ie_watch :: sso_env
  ie_watchNow :: int
  ie_random :: nat
  ie_defaultFlow :: AuthorizationFlowKind

definition awsBuilderIdReservedName :: string where
  "awsBuilderIdReservedName = ''__RESERVED__AwsBuilderId''"

definition awsBuilderIdSsoRegion :: string where
  "awsBuilderIdSsoRegion = ''us-east-1''"

definition getSsoSessionFromProfileStore :: "js_error + parsed_ini \<Rightarrow> string \<Rightarrow> js_error + SsoSession" where
  "getSsoSessionFromProfileStore parsed profileName =
     and_then (profile_store_load parsed)
       (\<lambda>d. case List.find (\<lambda>p. pf_name p = profileName) (pd_profiles d) of
              None \<Rightarrow> Inl (AwsError ''Profile not found.'' E_PROFILE_NOT_FOUND)
            | Some p \<Rightarrow>
                (case List.find (\<lambda>n. case pf_settings p of None \<Rightarrow> False | Some ps \<Rightarrow> setting_in ps ''sso_session'' = SV_string (sn_name n))
                        (pd_ssoSessions d) of
                   None \<Rightarrow> Inl (AwsError ''SSO session not found.'' E_SSO_SESSION_NOT_FOUND)
                 | Some n \<Rightarrow> Inr n))"

definition getSsoSession :: "js_error + parsed_ini \<Rightarrow> SsoTokenSource \<Rightarrow> js_error + SsoSession" where
  "getSsoSession parsed source =
     (case source of
        AwsBuilderId scopes \<Rightarrow>
          Inr \<lparr>sn_name = awsBuilderIdReservedName,
               sn_settings = Some [(''sso_region'', SV_string awsBuilderIdSsoRegion), (''sso_registration_scopes'', SV_list scopes),
                 (''sso_start_url'', SV_string ''https://view.awsapps.com/start'')]\<rparr>
      | IamIdentityCenter profileName \<Rightarrow> getSsoSessionFromProfileStore parsed profileName
      | Other_source kind \<Rightarrow>
          Inl (AwsError (''SSO token source ['' @ kind @ ''] is not supported.'') E_SSO_TOKEN_SOURCE_NOT_SUPPORTED))"

definition emitMetric :: "string \<Rightarrow> metric_result \<Rightarrow> identity_state \<Rightarrow> identity_state" where
  "emitMetric name r st = st\<lparr>id_metrics := id_metrics st @ [(name, r)]\<rparr>"

definition with_tokens :: "identity_state \<Rightarrow> token_state \<Rightarrow> identity_state" where
  "with_tokens st ts = st\<lparr>id_refresher := (id_refresher st)\<lparr>rf_tokens := ts\<rparr>\<rparr>"

abbreviation tokens_of :: "identity_state \<Rightarrow> token_state" where
  "tokens_of st \<equiv> rf_tokens (id_refresher st)"

type_synonym auth_flows = "AuthorizationFlowKind \<Rightarrow> SsoClientRegistration \<Rightarrow> SsoSession \<Rightarrow> js_error + SSOToken"

text \<open>The login: a registration, the flow that was asked for, and the new token into the cache.\<close>

definition login ::
    "identity_env \<Rightarrow> auth_flows \<Rightarrow> string \<Rightarrow> AuthorizationFlowKind option \<Rightarrow> SsoSession \<Rightarrow> identity_state \<Rightarrow> (js_error + SSOToken) \<times> identity_state" where
  "login env flows clientName kind n st =
     (case getSsoClientRegistration (ie_cache env) clientName n (tokens_of st) of
        (Inl e, ts) \<Rightarrow> (Inl e, with_tokens st ts)
      | (Inr reg, ts) \<Rightarrow>
          (let st1 = with_tokens st ts; k = (case kind of None \<Rightarrow> ie_defaultFlow env | Some k \<Rightarrow> k)
           in case throwOnInvalidClientRegistration (Some reg) of
                Some e \<Rightarrow> (Inl e, st1)
              | None \<Rightarrow>
                  (case k of
                     Other_flow f \<Rightarrow>
                       (Inl (AwsError (''Unsupported authorization flow requested: '' @ f) E_CANNOT_CREATE_SSO_TOKEN), st1)
                   | _ \<Rightarrow>
                       (case flows k reg n of
                          Inl e \<Rightarrow> (Inl (wrap_error e E_CANNOT_CREATE_SSO_TOKEN), st1)
                        | Inr t \<Rightarrow>
                            (let st2 = emitMetric ''flareIdentity_getSsoToken'' Succeeded st1
                             in case setSsoToken (ie_cache env) n t (tokens_of st2) of
                                  (Inl e, ts2) \<Rightarrow> (Inl (wrap_error e E_CANNOT_WRITE_SSO_CACHE), with_tokens st2 ts2)
                                | (Inr _, ts2) \<Rightarrow> (Inr t, with_tokens st2 ts2))))))"

text \<open>A token of the cache, or of a login when that is allowed.\<close>

definition obtain_token ::
    "identity_env \<Rightarrow> auth_flows \<Rightarrow> string \<Rightarrow> bool \<Rightarrow> AuthorizationFlowKind option \<Rightarrow> SsoSession \<Rightarrow> identity_state \<Rightarrow>
     (js_error + SSOToken) \<times> identity_state" where
  "obtain_token env flows clientName loginOnInvalidToken kind n st =
     (case getSsoToken (ie_cache env) clientName n (tokens_of st) of
        (result, ts) \<Rightarrow>
          (let st1 = with_tokens st ts
           in case result of
                Inr (Some t) \<Rightarrow> (Inr t, st1)
              | _ \<Rightarrow>
                  if \<not> loginOnInvalidToken
                  then (case result of
                          Inl e \<Rightarrow> (Inl e, st1)
                        | Inr _ \<Rightarrow> (Inl (AwsError ''SSO token not found.'' E_INVALID_SSO_TOKEN), st1))
                  else login env flows clientName kind n st1))"

record token_result =
  tr_accessToken :: "string option"
  tr_id :: string

definition get_token_steps ::
    "identity_env \<Rightarrow> auth_flows \<Rightarrow> string \<Rightarrow> bool \<Rightarrow> AuthorizationFlowKind option \<Rightarrow> SsoTokenSource \<Rightarrow> identity_state \<Rightarrow>
     (js_error + token_result) \<times> identity_state" where
  "get_token_steps env flows clientName loginOnInvalidToken kind source st =
     (case and_then (getSsoSession (ie_parsed env) source)
             (\<lambda>n. case throwOnInvalidSsoSession n of Some e \<Rightarrow> Inl e | None \<Rightarrow> Inr n) of
        Inl e \<Rightarrow> (Inl e, st)
      | Inr n \<Rightarrow>
          (case obtain_token env flows clientName loginOnInvalidToken kind n st of
             (Inl e, st1) \<Rightarrow> (Inl e, st1)
           | (Inr t, st1) \<Rightarrow>
               (Inr \<lparr>tr_accessToken = tk_accessToken t, tr_id = sn_name n\<rparr>,
                (case watch (ie_watch env) (ie_watchNow env) (ie_random env) clientName n (id_refresher st1) of
                   Inl e \<Rightarrow> st1
                 | Inr rf \<Rightarrow> st1\<lparr>id_refresher := rf\<rparr>))))"

definition identity_getSsoToken ::
    "identity_env \<Rightarrow> auth_flows \<Rightarrow> string \<Rightarrow> bool \<Rightarrow> AuthorizationFlowKind option \<Rightarrow> SsoTokenSource \<Rightarrow> identity_state \<Rightarrow>
     (js_error + token_result) \<times> identity_state" where
  "identity_getSsoToken env flows clientName loginOnInvalidToken kind source st =
     (case get_token_steps env flows clientName loginOnInvalidToken kind source st of
        (Inl e, st1) \<Rightarrow> (Inl e, emitMetric ''flareIdentity_getSsoToken'' Failed st1)
      | (Inr r, st1) \<Rightarrow> (Inr r, st1))"

definition identity_invalidateSsoToken :: "sso_env \<Rightarrow> string \<Rightarrow> identity_state \<Rightarrow> (js_error + unit) \<times> identity_state" where
  "identity_invalidateSsoToken env name st =
     (let fail = (\<lambda>e st. (Inl e, emitMetric ''flareIdentity_invalidateSsoToken'' Failed st))
      in case throwOnInvalidSsoSessionName name of
           Some e \<Rightarrow> fail e st
         | None \<Rightarrow>
             (case unwatch name (id_refresher st) of
                Inl e \<Rightarrow> fail e st
              | Inr rf \<Rightarrow>
                  (case removeSsoToken env name (rf_tokens rf) of
                     (Inl e, ts) \<Rightarrow> fail e (st\<lparr>id_refresher := rf\<lparr>rf_tokens := ts\<rparr>\<rparr>)
                   | (Inr _, ts) \<Rightarrow>
                       (Inr (), emitMetric ''flareIdentity_invalidateSsoToken'' Succeeded (st\<lparr>id_refresher := rf\<lparr>rf_tokens := ts\<rparr>\<rparr>)))))"

text \<open>The message and the code of the response to a request that failed.\<close>

definition awsResponseErrorWrap :: "js_error \<Rightarrow> string \<times> AwsErrorCodes" where
  "awsResponseErrorWrap e =
     (case e of
        AwsError m c \<Rightarrow> (m, c)
      | Other_error m \<Rightarrow> (case m of None \<Rightarrow> ''Unknown error'' | Some s \<Rightarrow> s, E_UNKNOWN))"

definition getClientName :: "string option \<Rightarrow> string option \<Rightarrow> string" where
  "getClientName extensionName clientInfoName =
     (case extensionName of Some n \<Rightarrow> n | None \<Rightarrow> (case clientInfoName of Some n \<Rightarrow> n | None \<Rightarrow> ''AWS Development Tools''))"

section \<open>The contract of a token cache\<close>

locale sso_cache =
  fixes get :: "'c \<Rightarrow> SsoSession \<Rightarrow> js_error + SSOToken option"
    and put :: "SsoSession \<Rightarrow> SSOToken \<Rightarrow> 'c \<Rightarrow> js_error + 'c"
    and remove :: "string \<Rightarrow> 'c \<Rightarrow> js_error + 'c"
    and valid :: "SsoSession \<Rightarrow> bool"
  assumes get_put: "valid n \<Longrightarrow> looks_like_token t \<Longrightarrow> put n t c = Inr c' \<Longrightarrow> sn_name m = sn_name n \<Longrightarrow> valid m \<Longrightarrow>
      get c' m = Inr (Some t)"
    and get_put_other: "put n t c = Inr c' \<Longrightarrow> sn_name m \<noteq> sn_name n \<Longrightarrow> get c' m = get c m"
    and get_removed: "remove (sn_name n) c = Inr c' \<Longrightarrow> valid n \<Longrightarrow> get c' n = Inr None"
    and get_remove_other: "remove k c = Inr c' \<Longrightarrow> sn_name m \<noteq> k \<Longrightarrow> get c' m = get c m"
begin

lemma removed_after_put:
  assumes "put n t c = Inr c1" "remove (sn_name n) c1 = Inr c2" "valid n"
  shows "get c2 n = Inr None" and "sn_name m \<noteq> sn_name n \<Longrightarrow> get c2 m = get c m"
  using assms get_removed get_remove_other get_put_other by auto

end

interpretation file_cache: sso_cache fs_getSsoToken "fs_setSsoToken writable" "fs_removeSsoToken removable"
  "\<lambda>n. throwOnInvalidSsoSession n = None" for writable removable
  by unfold_locales
    (auto simp: fs_getSsoToken_def fs_setSsoToken_def fs_removeSsoToken_def read_cache_file_def js_map
      split: option.splits if_splits)

section \<open>Invalidated tokens\<close>

lemma unwatch_effect:
  assumes "unwatch name rf = Inr rf'"
  shows "rf_tokens rf' = rf_tokens rf" "map_get (rf_timeouts rf') name = None"
    "\<And>i. map_get (rf_timeouts rf) name = Some i \<Longrightarrow> map_get (rf_armed rf') i = None"
  using assms by (auto simp: unwatch_def js_map split: option.splits)

lemma invalidated:
  assumes "identity_invalidateSsoToken env name st = (Inr (), st')"
  obtains rf fs where "unwatch name (id_refresher st) = Inr rf"
    "fs_removeSsoToken (se_removable env) name (ts_files (tokens_of st)) = Inr fs"
    "ts_files (tokens_of st') = fs" "rf_timeouts (id_refresher st') = rf_timeouts rf" "rf_armed (id_refresher st') = rf_armed rf"
  using assms that
  by (auto simp: identity_invalidateSsoToken_def removeSsoToken_def emitMetric_def Let_def
      dest!: unwatch_effect(1) split: option.splits sum.splits prod.splits)

lemma getSsoToken_missing:
  "fs_getSsoToken (ts_files ts) n = Inr None \<Longrightarrow> watchable clientName n \<Longrightarrow> getSsoToken env clientName n ts = (Inr None, ts)"
  by (simp add: getSsoToken_def watchable_def)

text \<open>
  An invalidated token is gone: after the token of a session was invalidated, no timer is remembered
  or armed for the session by the refresher, its cache file is gone, those of other sessions are not touched, and a request that
  may not log in is answered with the error that there is no token.
\<close>

theorem invalidated_token_is_gone:
  assumes inv: "identity_invalidateSsoToken env' (sn_name n) st = (Inr (), st')"
    and source: "getSsoSession (ie_parsed env) source = Inr n" and valid: "watchable clientName n"
  shows "map_get (rf_timeouts (id_refresher st')) (sn_name n) = None \<and>
    (\<forall>i. map_get (rf_timeouts (id_refresher st)) (sn_name n) = Some i \<longrightarrow> map_get (rf_armed (id_refresher st')) i = None) \<and>
    (\<forall>m. sn_name m \<noteq> sn_name n \<longrightarrow> fs_getSsoToken (ts_files (tokens_of st')) m = fs_getSsoToken (ts_files (tokens_of st)) m) \<and>
    fst (identity_getSsoToken env flows clientName False kind source st') = Inl (AwsError ''SSO token not found.'' E_INVALID_SSO_TOKEN)"
proof -
  obtain rf where u: "unwatch (sn_name n) (id_refresher st) = Inr rf"
      "fs_removeSsoToken (se_removable env') (sn_name n) (ts_files (tokens_of st)) = Inr (ts_files (tokens_of st'))"
      "rf_timeouts (id_refresher st') = rf_timeouts rf" "rf_armed (id_refresher st') = rf_armed rf"
    using invalidated [OF inv] by metis
  note session = watchable_session [OF valid]
  have gone: "fs_getSsoToken (ts_files (tokens_of st')) n = Inr None" by (rule file_cache.get_removed [OF u(2) session])
  have "fst (identity_getSsoToken env flows clientName False kind source st') = Inl (AwsError ''SSO token not found.'' E_INVALID_SSO_TOKEN)"
    using source session getSsoToken_missing [OF gone valid, of "ie_cache env"]
    by (simp add: identity_getSsoToken_def get_token_steps_def obtain_token_def)
  then show ?thesis using unwatch_effect(2,3) [OF u(1)] file_cache.get_remove_other [OF u(2)] u(3,4) by auto
qed

definition identity_sample :: identity_state where
  "identity_sample = \<lparr>id_refresher = arm_timer sso_sample 1000 refresher_sample, id_metrics = []\<rparr>"

definition identity_env_sample :: identity_env where
  "identity_env_sample = \<lparr>ie_parsed = Inr [(''dev'', [(''sso_session'', ''corp'')]), (''sso-session.corp'', [(''sso_region'', ''us-east-1''),
       (''sso_start_url'', ''https://corp''), (''sso_registration_scopes'', ''a'')])],
     ie_cache = env_sample 1000 (Inl Create_failed), ie_watch = env_sample 1000 (Inl Create_failed), ie_watchNow = 1000, ie_random = 0,
     ie_defaultFlow = Pkce\<rparr>"

definition session_sample :: SsoSession where
  "session_sample = load_ssoSession ''corp'' [(''sso_region'', ''us-east-1''), (''sso_start_url'', ''https://corp''), (''sso_registration_scopes'', ''a'')]"

lemma sample_session_found: "getSsoSession (ie_parsed identity_env_sample) (IamIdentityCenter ''dev'') = Inr session_sample"
  by code_simp

theorem invalidated_token_is_gone_witness:
  "let st' = snd (identity_invalidateSsoToken (env_sample 0 (Inl Create_failed)) (sn_name session_sample) identity_sample)
   in map_get (rf_timeouts (id_refresher st')) (sn_name session_sample) = None \<and>
    (\<forall>i. map_get (rf_timeouts (id_refresher identity_sample)) (sn_name session_sample) = Some i \<longrightarrow> map_get (rf_armed (id_refresher st')) i = None) \<and>
    (\<forall>m. sn_name m \<noteq> sn_name session_sample \<longrightarrow> fs_getSsoToken (ts_files (tokens_of st')) m = fs_getSsoToken (ts_files (tokens_of identity_sample)) m) \<and>
    fst (identity_getSsoToken identity_env_sample (\<lambda>_ _ _. Inl (Other_error None)) ''editor'' False None (IamIdentityCenter ''dev'') st') =
      Inl (AwsError ''SSO token not found.'' E_INVALID_SSO_TOKEN)"
  unfolding Let_def
  by (rule invalidated_token_is_gone [OF _ sample_session_found, where env' = "env_sample 0 (Inl Create_failed)"]) code_simp+

section \<open>Tokens without a login\<close>

lemma obtain_without_login:
  "obtain_token env flows clientName False kind n st = obtain_token env flows' clientName False kind n st"
  by (auto simp: obtain_token_def Let_def split: prod.splits sum.splits option.splits)

lemma obtain_cached:
  assumes "obtain_token env flows clientName False kind n st = (Inr t, st')"
  obtains ts where "getSsoToken (ie_cache env) clientName n (tokens_of st) = (Inr (Some t), ts)"
  using assms that by (auto simp: obtain_token_def Let_def split: prod.splits sum.splits option.splits)

text \<open>
  A request that may not log in starts no login: its outcome does not depend on the login flows, and if it
  is answered with a token, that is the unexpired token of the session of the requested source.
\<close>

theorem token_without_login:
  assumes r: "identity_getSsoToken env flows clientName False kind source st = (Inr r, st')"
    and clock: "se_now (ie_cache env) \<le> se_updateNow (ie_cache env)"
    and positive: "\<And>out x. se_createToken (ie_cache env) = Inr out \<Longrightarrow> co_expiresIn out = Some x \<Longrightarrow> 0 \<le> x"
  shows "identity_getSsoToken env flows' clientName False kind source st = (Inr r, st') \<and>
    (\<exists>n (t :: SSOToken) e. getSsoSession (ie_parsed env) source = Inr n \<and> tr_id r = sn_name n \<and> tr_accessToken r = tk_accessToken t \<and>
      tk_expiresAt t = Some (Instant e) \<and> se_now (ie_cache env) < e)"
proof
  show "identity_getSsoToken env flows' clientName False kind source st = (Inr r, st')"
    using r unfolding identity_getSsoToken_def get_token_steps_def obtain_without_login [of env flows' clientName kind _ _ flows] .
  from r obtain n t st1 where n: "getSsoSession (ie_parsed env) source = Inr n"
    "obtain_token env flows clientName False kind n st = (Inr t, st1)" "r = \<lparr>tr_accessToken = tk_accessToken t, tr_id = sn_name n\<rparr>"
    by (auto simp: identity_getSsoToken_def get_token_steps_def split: prod.splits sum.splits option.splits)
  from n(2) obtain ts where "getSsoToken (ie_cache env) clientName n (tokens_of st) = (Inr (Some t), ts)" by (rule obtain_cached)
  from getSsoToken_unexpired [OF this clock] positive
  obtain e where "tk_expiresAt t = Some (Instant e)" "se_now (ie_cache env) < e" by blast
  moreover have "tr_id r = sn_name n" "tr_accessToken r = tk_accessToken t" using n(3) by simp_all
  ultimately show "\<exists>n (t :: SSOToken) e. getSsoSession (ie_parsed env) source = Inr n \<and> tr_id r = sn_name n \<and> tr_accessToken r = tk_accessToken t \<and>
      tk_expiresAt t = Some (Instant e) \<and> se_now (ie_cache env) < e" using n(1) by blast
qed

theorem token_without_login_witness:
  "let r = \<lparr>tr_accessToken = Some ''at'', tr_id = ''corp''\<rparr>;
       st' = snd (identity_getSsoToken identity_env_sample (\<lambda>_ _ _. Inl (Other_error None)) ''editor'' False None (IamIdentityCenter ''dev'') identity_sample)
   in identity_getSsoToken identity_env_sample (\<lambda>_ _ _. Inr empty_token) ''editor'' False None (IamIdentityCenter ''dev'') identity_sample = (Inr r, st') \<and>
    (\<exists>n (t :: SSOToken) e. getSsoSession (ie_parsed identity_env_sample) (IamIdentityCenter ''dev'') = Inr n \<and> tr_id r = sn_name n \<and>
      tr_accessToken r = tk_accessToken t \<and> tk_expiresAt t = Some (Instant e) \<and> se_now (ie_cache identity_env_sample) < e)"
  unfolding Let_def
  by (rule token_without_login [where flows = "\<lambda>_ _ _. Inl (Other_error None)"], code_simp)
    (simp_all add: identity_env_sample_def env_sample_def)

end
