(* ===== verification/Chat_Db.thy ===== *)
theory Chat_Db
  imports Prelude "HOL-Library.Multiset"
begin

text \<open>
  The chat history of the agentic chat (\<^verbatim>\<open>agenticChat/tools/chatDb/chatDb.ts\<close>, \<^verbatim>\<open>util.ts\<close>): tabs with their conversations,
  the mapping of open tabs to histories, and the repair of a history before it is sent to the service.

  The database of a third-party package is its collection of tabs, in which \<^verbatim>\<open>historyId\<close> is unique, and its one
  settings document. Documents are handed out by reference. The pinned context of a tab may be the module's
  default array itself, which is then shared by tabs: a pinned context is a reference to that array or a
  list of its own. JSON texts only enter through their lengths, which are a parameter.
\<close>

section \<open>Messages\<close>

datatype message_type = Prompt | Answer | Other_type string

record ToolUse =
  tu_toolUseId :: "string option"
  tu_name :: "string option"
  tu_input :: string

datatype ToolResultStatus = Tool_success | Tool_error

record ToolResult =
  tres_toolUseId :: "string option"
  tres_status :: ToolResultStatus
  tres_content :: "string list"

record ChatDocument =
  cd_relativeFilePath :: string
  cd_text :: "string option"

record ChatEditorState =
  ce_document :: "ChatDocument option"
  ce_cursorState :: "string option"
  ce_relevantDocuments :: "ChatDocument list option"
  ce_useRelevantDocuments :: "bool option"

record UserInputMessageContext =
  uc_editorState :: "ChatEditorState option"
  uc_toolResults :: "ToolResult list option"
  uc_tools :: "string list option"

text \<open>Images enter with their numbers of bytes. Code references and related content are left out.\<close>

record Message =
  ms_body :: string
  ms_type :: message_type
  ms_messageId :: "string option"
  ms_userIntent :: "string option"
  ms_origin :: "string option"
  ms_context :: "UserInputMessageContext option"
  ms_toolUses :: "ToolUse list option"
  ms_timestamp :: "int option"
  ms_shouldDisplayMessage :: "bool option"
  ms_images :: "nat list option"

record UserInputMessage =
  ui_content :: "string option"
  ui_userIntent :: "string option"
  ui_origin :: "string option"
  ui_context :: "UserInputMessageContext option"
  ui_images :: "nat list option"

record AssistantResponseMessage =
  am_messageId :: "string option"
  am_content :: "string option"
  am_toolUses :: "ToolUse list option"

datatype StreamingMessage = User_message UserInputMessage | Assistant_message AssistantResponseMessage | Unexpected_message

definition text_or :: "string option \<Rightarrow> string \<Rightarrow> string" where
  "text_or s d = (case s of None \<Rightarrow> d | Some x \<Rightarrow> if x = [] then d else x)"

definition bare_message :: "string \<Rightarrow> message_type \<Rightarrow> Message" where
  "bare_message b t = \<lparr>ms_body = b, ms_type = t, ms_messageId = None, ms_userIntent = None, ms_origin = None, ms_context = None,
     ms_toolUses = None, ms_timestamp = None, ms_shouldDisplayMessage = None, ms_images = None\<rparr>"

definition messageToStreamingMessage :: "Message \<Rightarrow> StreamingMessage" where
  "messageToStreamingMessage m =
     (if ms_type m = Answer
      then Assistant_message \<lparr>am_messageId = ms_messageId m, am_content = Some (ms_body m),
             am_toolUses = Some (case ms_toolUses m of None \<Rightarrow> [] | Some us \<Rightarrow> us)\<rparr>
      else User_message \<lparr>ui_content = Some (ms_body m), ui_userIntent = ms_userIntent m,
             ui_origin = Some (text_or (ms_origin m) ''IDE''), ui_context = ms_context m,
             ui_images = Some (case ms_images m of None \<Rightarrow> [] | Some xs \<Rightarrow> xs)\<rparr>)"

definition chatMessageToMessage :: "StreamingMessage \<Rightarrow> Message" where
  "chatMessageToMessage c =
     (case c of
        User_message u \<Rightarrow>
          (bare_message (text_or (ui_content u) []) Prompt)
            \<lparr>ms_userIntent := ui_userIntent u, ms_origin := Some (text_or (ui_origin u) ''IDE''), ms_context := ui_context u\<rparr>
      | Assistant_message a \<Rightarrow>
          (bare_message (text_or (am_content a) []) Answer)
            \<lparr>ms_messageId := am_messageId a, ms_toolUses := Some (case am_toolUses a of None \<Rightarrow> [] | Some us \<Rightarrow> us)\<rparr>
      | Unexpected_message \<Rightarrow> bare_message [] Prompt)"

section \<open>Tabs\<close>

record Conversation =
  cv_conversationId :: string
  cv_clientType :: string
  cv_updatedAt :: "int option"
  cv_messages :: "Message list"

record ContextCommand =
  cc_id :: "string option"
  cc_command :: string

datatype pinned_ref = Default_array | Own_list "ContextCommand list"

record Rules =
  ru_folders :: "(string \<times> bool) list"
  ru_rules :: "(string \<times> bool) list"

record TabContext =
  tc_pinnedContext :: "pinned_ref option"
  tc_rules :: "Rules option"

record Tab =
  tb_historyId :: string
  tb_isOpen :: bool
  tb_updatedAt :: int
  tb_tabType :: string
  tb_title :: string
  tb_conversations :: "Conversation list"
  tb_tabContext :: "TabContext option"
  tb_modelId :: "string option"
  tb_pairProgrammingMode :: "bool option"

record Settings =
  st_modelId :: "string option"
  st_pairProgrammingMode :: "bool option"
  st_cachedModels :: "string list option"
  st_cachedDefaultModelId :: "string option"
  st_modelCacheTimestamp :: "int option"

text \<open>The database, with the module's default array of pinned context; \<^verbatim>\<open>db_clientType\<close> is the name of the client.\<close>

record ChatDatabase =
  db_initialized :: bool
  db_tabs :: "Tab list"
  db_historyIdMapping :: "(string \<times> string) list"
  db_settings :: "Settings option"
  db_defaultPinned :: "ContextCommand list"
  db_clientType :: string

definition findTab :: "ChatDatabase \<Rightarrow> string \<Rightarrow> Tab option" where
  "findTab db historyId = List.find (\<lambda>t. tb_historyId t = historyId) (db_tabs db)"

definition updateTab :: "Tab \<Rightarrow> ChatDatabase \<Rightarrow> ChatDatabase" where
  "updateTab t db = db\<lparr>db_tabs := map (\<lambda>u. if tb_historyId u = tb_historyId t then t else u) (db_tabs db)\<rparr>"

definition insertTab :: "Tab \<Rightarrow> ChatDatabase \<Rightarrow> ChatDatabase" where
  "insertTab t db = db\<lparr>db_tabs := db_tabs db @ [t]\<rparr>"

definition removeTabs :: "string \<Rightarrow> ChatDatabase \<Rightarrow> ChatDatabase" where
  "removeTabs historyId db = db\<lparr>db_tabs := filter (\<lambda>t. tb_historyId t \<noteq> historyId) (db_tabs db)\<rparr>"

definition setHistoryIdMapping :: "string \<Rightarrow> string \<Rightarrow> ChatDatabase \<Rightarrow> ChatDatabase" where
  "setHistoryIdMapping tabId historyId db = db\<lparr>db_historyIdMapping := map_set tabId historyId (db_historyIdMapping db)\<rparr>"

text \<open>An empty id counts as missing. A new id is generated from randomness, which is an argument.\<close>

definition mapped_history :: "ChatDatabase \<Rightarrow> string \<Rightarrow> string option" where
  "mapped_history db tabId =
     (case map_get (db_historyIdMapping db) tabId of None \<Rightarrow> None | Some h \<Rightarrow> if h = [] then None else Some h)"

definition createHistoryId :: "string \<Rightarrow> string \<Rightarrow> ChatDatabase \<Rightarrow> string \<times> ChatDatabase" where
  "createHistoryId uuid tabId db = (uuid, setHistoryIdMapping tabId uuid db)"

definition getOrCreateHistoryId :: "string \<Rightarrow> string \<Rightarrow> ChatDatabase \<Rightarrow> string \<times> ChatDatabase" where
  "getOrCreateHistoryId uuid tabId db =
     (case mapped_history db tabId of Some h \<Rightarrow> (h, db) | None \<Rightarrow> createHistoryId uuid tabId db)"

definition getMessages :: "ChatDatabase \<Rightarrow> string \<Rightarrow> nat option \<Rightarrow> Message list" where
  "getMessages db tabId numMessages =
     (if \<not> db_initialized db then []
      else case Option.bind (mapped_history db tabId) (findTab db) of
             None \<Rightarrow> []
           | Some t \<Rightarrow>
               (let allMessages = concat (map cv_messages (tb_conversations t))
                in case numMessages of
                     None \<Rightarrow> allMessages
                   | Some n \<Rightarrow> if n = 0 then allMessages else drop (length allMessages - n) allMessages))"

definition getOpenTabs :: "ChatDatabase \<Rightarrow> Tab list option" where
  "getOpenTabs db = (if db_initialized db then Some (filter tb_isOpen (db_tabs db)) else None)"

definition getTab :: "ChatDatabase \<Rightarrow> string \<Rightarrow> Tab option" where
  "getTab db historyId = (if db_initialized db then findTab db historyId else None)"

definition getOpenTabId :: "ChatDatabase \<Rightarrow> string \<Rightarrow> string option" where
  "getOpenTabId db historyId =
     (case getTab db historyId of
        None \<Rightarrow> None
      | Some t \<Rightarrow>
          if tb_isOpen t then map_option fst (List.find (\<lambda>(_, h). h = historyId) (db_historyIdMapping db)) else None)"

definition clearTab :: "string \<Rightarrow> ChatDatabase \<Rightarrow> ChatDatabase" where
  "clearTab tabId db =
     (if \<not> db_initialized db then db
      else let db1 = (case mapped_history db tabId of None \<Rightarrow> db | Some h \<Rightarrow> removeTabs h db)
           in db1\<lparr>db_historyIdMapping := map_del tabId (db_historyIdMapping db1)\<rparr>)"

definition updateTabOpenState :: "string \<Rightarrow> bool \<Rightarrow> ChatDatabase \<Rightarrow> ChatDatabase" where
  "updateTabOpenState tabId isOpen db =
     (if \<not> db_initialized db then db
      else case mapped_history db tabId of
             None \<Rightarrow> db
           | Some h \<Rightarrow>
               (let db1 = db\<lparr>db_tabs := map (\<lambda>t. if tb_historyId t = h then t\<lparr>tb_isOpen := isOpen\<rparr> else t) (db_tabs db)\<rparr>
                in if isOpen then db1 else db1\<lparr>db_historyIdMapping := map_del tabId (db_historyIdMapping db1)\<rparr>))"

definition deleteHistory :: "string \<Rightarrow> ChatDatabase \<Rightarrow> ChatDatabase" where
  "deleteHistory historyId db =
     (if \<not> db_initialized db then db
      else let db1 = removeTabs historyId db
           in case getOpenTabId db1 historyId of
                None \<Rightarrow> db1
              | Some tabId \<Rightarrow> if tabId = [] then db1 else db1\<lparr>db_historyIdMapping := map_del tabId (db_historyIdMapping db1)\<rparr>)"

section \<open>Adding messages\<close>

definition formatChatHistoryMessage :: "Message \<Rightarrow> Message" where
  "formatChatHistoryMessage m =
     (if ms_type m = Prompt
      then let results = Option.bind (ms_context m) uc_toolResults;
               hasToolResults = (case results of None \<Rightarrow> False | Some rs \<Rightarrow> rs \<noteq> [])
           in m\<lparr>ms_context := Some \<lparr>uc_editorState = (if hasToolResults then None else Option.bind (ms_context m) uc_editorState),
                  uc_toolResults = results, uc_tools = None\<rparr>\<rparr>
      else m)"

definition updateOrCreateConversation ::
    "int \<Rightarrow> Conversation list \<Rightarrow> string \<Rightarrow> Message \<Rightarrow> string \<Rightarrow> Conversation list" where
  "updateOrCreateConversation now cs conversationId m clientType =
     (if list_ex (\<lambda>c. cv_conversationId c = conversationId) cs
      then map (\<lambda>c. if cv_conversationId c = conversationId
                    then c\<lparr>cv_updatedAt := Some now, cv_messages := cv_messages c @ [m]\<rparr> else c) cs
      else cs @ [\<lparr>cv_conversationId = conversationId, cv_clientType = clientType, cv_updatedAt = Some now, cv_messages = [m]\<rparr>])"

definition tab_title :: "Message \<Rightarrow> string option \<Rightarrow> string \<Rightarrow> string" where
  "tab_title m old default_title =
     (let t = (if ms_type m = Prompt \<and> ms_shouldDisplayMessage m \<noteq> Some False \<and> trim (ms_body m) \<noteq> [] then Some (ms_body m) else old)
      in text_or t default_title)"

definition new_tab :: "string \<Rightarrow> int \<Rightarrow> string \<Rightarrow> string \<Rightarrow> Conversation list \<Rightarrow> TabContext option \<Rightarrow> Tab" where
  "new_tab historyId now tabType title cs ctx =
     \<lparr>tb_historyId = historyId, tb_isOpen = True, tb_updatedAt = now, tb_tabType = tabType, tb_title = title,
      tb_conversations = cs, tb_tabContext = ctx, tb_modelId = None, tb_pairProgrammingMode = None\<rparr>"

definition addMessage :: "string \<Rightarrow> int \<Rightarrow> string \<Rightarrow> string \<Rightarrow> string \<Rightarrow> Message \<Rightarrow> ChatDatabase \<Rightarrow> ChatDatabase" where
  "addMessage uuid now tabId tabType conversationId m db =
     (if \<not> db_initialized db then db
      else let clientType = text_or (Some (db_clientType db)) ''unknown'';
               (historyId, db1) = getOrCreateHistoryId uuid tabId db;
               old = findTab db1 historyId;
               title = tab_title m (map_option tb_title old) ''Amazon Q Chat Agent'';
               m' = formatChatHistoryMessage m
           in case old of
                Some t \<Rightarrow>
                  updateTab (t\<lparr>tb_conversations := updateOrCreateConversation now (tb_conversations t) conversationId m' clientType,
                               tb_updatedAt := now, tb_title := title\<rparr>) db1
              | None \<Rightarrow>
                  insertTab (new_tab historyId now tabType title
                    [\<lparr>cv_conversationId = conversationId, cv_clientType = clientType, cv_updatedAt = Some now, cv_messages = [m']\<rparr>] None) db1)"

definition dummy_response :: "int \<Rightarrow> Message" where
  "dummy_response now = (bare_message ''Working...'' Answer)\<lparr>ms_shouldDisplayMessage := Some False, ms_timestamp := Some now\<rparr>"

definition replaceWithSummary :: "string \<Rightarrow> string \<Rightarrow> int \<Rightarrow> string \<Rightarrow> string \<Rightarrow> string \<Rightarrow> Message \<Rightarrow> ChatDatabase \<Rightarrow> ChatDatabase" where
  "replaceWithSummary uuid uuid' now tabId tabType conversationId m db =
     (if \<not> db_initialized db then db
      else let clientType = text_or (Some (db_clientType db)) ''unknown'';
               (oldHistoryId, db1) = getOrCreateHistoryId uuid tabId db;
               (historyId, db2) = createHistoryId uuid' tabId db1;
               title = tab_title m (map_option tb_title (findTab db2 historyId)) ''Amazon Q Chat'';
               db3 = insertTab (new_tab historyId now tabType title
                 [\<lparr>cv_conversationId = conversationId, cv_clientType = clientType, cv_updatedAt = Some now,
                    cv_messages = [formatChatHistoryMessage m, dummy_response now]\<rparr>] None) db2
           in if oldHistoryId \<noteq> [] then removeTabs oldHistoryId db3 else db3)"

definition getLatestConversationId :: "ChatDatabase \<Rightarrow> string \<Rightarrow> string" where
  "getLatestConversationId db tabId =
     (case Option.bind (mapped_history db tabId) (findTab db) of
        None \<Rightarrow> []
      | Some t \<Rightarrow> if tb_conversations t = [] then [] else cv_conversationId (last (tb_conversations t)))"

section \<open>Rules and pinned context\<close>

definition addTabWithContext :: "int \<Rightarrow> string \<Rightarrow> TabContext \<Rightarrow> ChatDatabase \<Rightarrow> ChatDatabase" where
  "addTabWithContext now historyId ctx db = insertTab (new_tab historyId now ''cwc'' ''Amazon Q Chat'' [] (Some ctx)) db"

definition empty_context :: TabContext where
  "empty_context = \<lparr>tc_pinnedContext = None, tc_rules = None\<rparr>"

definition context_of :: "Tab \<Rightarrow> TabContext" where
  "context_of t = (case tb_tabContext t of None \<Rightarrow> empty_context | Some c \<Rightarrow> c)"

definition no_rules :: Rules where
  "no_rules = \<lparr>ru_folders = [], ru_rules = []\<rparr>"

definition getRules :: "ChatDatabase \<Rightarrow> string \<Rightarrow> Rules" where
  "getRules db tabId =
     (if db_initialized db
      then case Option.bind (mapped_history db tabId) (findTab db) of
             None \<Rightarrow> no_rules
           | Some t \<Rightarrow> (case Option.bind (tb_tabContext t) tc_rules of None \<Rightarrow> no_rules | Some r \<Rightarrow> r)
      else no_rules)"

definition setRules :: "string \<Rightarrow> int \<Rightarrow> string \<Rightarrow> Rules \<Rightarrow> ChatDatabase \<Rightarrow> ChatDatabase" where
  "setRules uuid now tabId r db =
     (if \<not> db_initialized db then db
      else let (h, db1) = getOrCreateHistoryId uuid tabId db
           in case findTab db1 h of
                None \<Rightarrow> addTabWithContext now h (empty_context\<lparr>tc_rules := Some r\<rparr>) db1
              | Some t \<Rightarrow> updateTab (t\<lparr>tb_tabContext := Some ((context_of t)\<lparr>tc_rules := Some r\<rparr>)\<rparr>) db1)"

text \<open>The list a reference to pinned context stands for.\<close>

definition pinned_list :: "ChatDatabase \<Rightarrow> pinned_ref \<Rightarrow> ContextCommand list" where
  "pinned_list db r = (case r of Default_array \<Rightarrow> db_defaultPinned db | Own_list cs \<Rightarrow> cs)"

definition getPinnedContext :: "string \<Rightarrow> string \<Rightarrow> ChatDatabase \<Rightarrow> ContextCommand list \<times> ChatDatabase" where
  "getPinnedContext uuid tabId db =
     (if \<not> db_initialized db then ([], db)
      else let (h, db1) = getOrCreateHistoryId uuid tabId db
           in (case Option.bind (Option.bind (findTab db1 h) tb_tabContext) tc_pinnedContext of
                 None \<Rightarrow> db_defaultPinned db1
               | Some r \<Rightarrow> pinned_list db1 r, db1))"

definition has_context :: "ContextCommand \<Rightarrow> ContextCommand list \<Rightarrow> bool" where
  "has_context c cs = list_ex (\<lambda>x. cc_id x = cc_id c) cs"

definition insert_pinned :: "ContextCommand list \<Rightarrow> ContextCommand \<Rightarrow> ContextCommand list \<Rightarrow> ContextCommand list" where
  "insert_pinned defaults c cs =
     (if has_context c cs then cs else if has_context c defaults then c # cs else cs @ [c])"

text \<open>A change through the reference to the default array changes the module's array.\<close>

definition addPinnedContext :: "string \<Rightarrow> int \<Rightarrow> string \<Rightarrow> ContextCommand \<Rightarrow> ChatDatabase \<Rightarrow> ChatDatabase" where
  "addPinnedContext uuid now tabId c db =
     (if \<not> db_initialized db then db
      else let (h, db1) = getOrCreateHistoryId uuid tabId db
           in case findTab db1 h of
                None \<Rightarrow> addTabWithContext now h (empty_context\<lparr>tc_pinnedContext := Some (Own_list (db_defaultPinned db1 @ [c]))\<rparr>) db1
              | Some t \<Rightarrow>
                  (let r = (case tc_pinnedContext (context_of t) of None \<Rightarrow> Default_array | Some r \<Rightarrow> r);
                       cs = insert_pinned (db_defaultPinned db1) c (pinned_list db1 r);
                       r' = (case r of Default_array \<Rightarrow> Default_array | Own_list _ \<Rightarrow> Own_list cs);
                       db2 = (case r of Default_array \<Rightarrow> db1\<lparr>db_defaultPinned := cs\<rparr> | Own_list _ \<Rightarrow> db1)
                   in updateTab (t\<lparr>tb_tabContext := Some ((context_of t)\<lparr>tc_pinnedContext := Some r'\<rparr>)\<rparr>) db2))"

definition removePinnedContext :: "string \<Rightarrow> int \<Rightarrow> string \<Rightarrow> ContextCommand \<Rightarrow> ChatDatabase \<Rightarrow> ChatDatabase" where
  "removePinnedContext uuid now tabId c db =
     (if \<not> db_initialized db then db
      else let (h, db1) = getOrCreateHistoryId uuid tabId db
           in case findTab db1 h of
                None \<Rightarrow> addTabWithContext now h (empty_context\<lparr>tc_pinnedContext := Some (Own_list [])\<rparr>) db1
              | Some t \<Rightarrow>
                  (let cs = (case tc_pinnedContext (context_of t) of None \<Rightarrow> [] | Some r \<Rightarrow> pinned_list db1 r)
                   in updateTab (t\<lparr>tb_tabContext := Some ((context_of t)\<lparr>tc_pinnedContext :=
                        Some (Own_list (filter (\<lambda>x. cc_id x \<noteq> cc_id c) cs))\<rparr>)\<rparr>) db1))"

section \<open>Settings and preferences of tabs\<close>

text \<open>Writing settings replaces exactly the fields the argument names: the argument is the change itself.\<close>

definition empty_settings :: Settings where
  "empty_settings = \<lparr>st_modelId = None, st_pairProgrammingMode = None, st_cachedModels = None,
     st_cachedDefaultModelId = None, st_modelCacheTimestamp = None\<rparr>"

definition getSettings :: "ChatDatabase \<Rightarrow> Settings option" where
  "getSettings db = (if db_initialized db then db_settings db else None)"

definition updateSettings :: "(Settings \<Rightarrow> Settings) \<Rightarrow> ChatDatabase \<Rightarrow> ChatDatabase" where
  "updateSettings change db =
     (if db_initialized db
      then db\<lparr>db_settings := Some (change (case db_settings db of None \<Rightarrow> empty_settings | Some s \<Rightarrow> s))\<rparr> else db)"

definition non_empty :: "string option \<Rightarrow> string option" where
  "non_empty x = (if x = Some [] then None else x)"

definition getModelId :: "ChatDatabase \<Rightarrow> string option" where
  "getModelId db = non_empty (Option.bind (getSettings db) st_modelId)"

definition setModelId :: "string option \<Rightarrow> ChatDatabase \<Rightarrow> ChatDatabase" where
  "setModelId modelId = updateSettings (\<lambda>s. s\<lparr>st_modelId := non_empty modelId\<rparr>)"

text \<open>A timestamp of 0 counts as missing.\<close>

definition getCachedModels :: "ChatDatabase \<Rightarrow> (string list \<times> string option \<times> int) option" where
  "getCachedModels db =
     (case getSettings db of
        None \<Rightarrow> None
      | Some s \<Rightarrow>
          (case (st_cachedModels s, st_modelCacheTimestamp s) of
             (Some ms, Some ts) \<Rightarrow> if ts = 0 then None else Some (ms, st_cachedDefaultModelId s, ts)
           | _ \<Rightarrow> None))"

definition setCachedModels :: "int \<Rightarrow> string list \<Rightarrow> string option \<Rightarrow> ChatDatabase \<Rightarrow> ChatDatabase" where
  "setCachedModels now models defaultModelId =
     updateSettings (\<lambda>s. s\<lparr>st_cachedModels := Some models, st_cachedDefaultModelId := defaultModelId, st_modelCacheTimestamp := Some now\<rparr>)"

definition isCachedValid :: "int \<Rightarrow> int \<Rightarrow> bool" where
  "isCachedValid now timestamp = (now - timestamp < 30 * 60 * 1000)"

definition isCachedModelsValid :: "int \<Rightarrow> ChatDatabase \<Rightarrow> bool" where
  "isCachedModelsValid now db = (case getCachedModels db of None \<Rightarrow> False | Some (_, _, ts) \<Rightarrow> isCachedValid now ts)"

definition clearCachedModels :: "ChatDatabase \<Rightarrow> ChatDatabase" where
  "clearCachedModels =
     updateSettings (\<lambda>s. s\<lparr>st_cachedModels := None, st_cachedDefaultModelId := None, st_modelCacheTimestamp := None\<rparr>)"

definition getPairProgrammingMode :: "ChatDatabase \<Rightarrow> bool option" where
  "getPairProgrammingMode db = Option.bind (getSettings db) st_pairProgrammingMode"

definition setPairProgrammingMode :: "bool option \<Rightarrow> ChatDatabase \<Rightarrow> ChatDatabase" where
  "setPairProgrammingMode m = updateSettings (\<lambda>s. s\<lparr>st_pairProgrammingMode := m\<rparr>)"

definition mapped_tab :: "ChatDatabase \<Rightarrow> string \<Rightarrow> Tab option" where
  "mapped_tab db tabId = (if db_initialized db then Option.bind (mapped_history db tabId) (findTab db) else None)"

text \<open>Both setters create a missing tab with an empty context and then update the tab they find.\<close>

definition set_tab_preference :: "string \<Rightarrow> int \<Rightarrow> string \<Rightarrow> (Tab \<Rightarrow> Tab) \<Rightarrow> ChatDatabase \<Rightarrow> ChatDatabase" where
  "set_tab_preference uuid now tabId change db =
     (let (h, db1) = getOrCreateHistoryId uuid tabId db;
          db2 = (case findTab db1 h of None \<Rightarrow> addTabWithContext now h empty_context db1 | Some _ \<Rightarrow> db1)
      in case findTab db2 h of None \<Rightarrow> db2 | Some t \<Rightarrow> updateTab (change t) db2)"

definition getTabModelId :: "ChatDatabase \<Rightarrow> string \<Rightarrow> string option" where
  "getTabModelId db tabId = Option.bind (mapped_tab db tabId) tb_modelId"

definition setTabModelId :: "string \<Rightarrow> int \<Rightarrow> string \<Rightarrow> string option \<Rightarrow> ChatDatabase \<Rightarrow> ChatDatabase" where
  "setTabModelId uuid now tabId modelId db =
     (if db_initialized db
      then setModelId modelId (set_tab_preference uuid now tabId (\<lambda>t. t\<lparr>tb_modelId := modelId\<rparr>) db) else db)"

definition getTabPairProgrammingMode :: "ChatDatabase \<Rightarrow> string \<Rightarrow> bool option" where
  "getTabPairProgrammingMode db tabId = Option.bind (mapped_tab db tabId) tb_pairProgrammingMode"

definition setTabPairProgrammingMode :: "string \<Rightarrow> int \<Rightarrow> string \<Rightarrow> bool option \<Rightarrow> ChatDatabase \<Rightarrow> ChatDatabase" where
  "setTabPairProgrammingMode uuid now tabId m db =
     (if db_initialized db
      then setPairProgrammingMode m (set_tab_preference uuid now tabId (\<lambda>t. t\<lparr>tb_pairProgrammingMode := m\<rparr>) db) else db)"

definition getEffectiveTabModelId :: "ChatDatabase \<Rightarrow> string \<Rightarrow> string option" where
  "getEffectiveTabModelId db tabId = (case getTabModelId db tabId of Some m \<Rightarrow> Some m | None \<Rightarrow> getModelId db)"

definition getEffectiveTabPairProgrammingMode :: "ChatDatabase \<Rightarrow> string \<Rightarrow> bool" where
  "getEffectiveTabPairProgrammingMode db tabId =
     (case getTabPairProgrammingMode db tabId of
        Some m \<Rightarrow> m
      | None \<Rightarrow> (case getPairProgrammingMode db of Some m \<Rightarrow> m | None \<Rightarrow> True))"

definition getTabPreferences :: "ChatDatabase \<Rightarrow> string \<Rightarrow> string option \<times> bool option" where
  "getTabPreferences db historyId =
     (case getTab db historyId of None \<Rightarrow> (None, None) | Some t \<Rightarrow> (tb_modelId t, tb_pairProgrammingMode t))"

end
