(* ===== verification/Chat_Tabs.thy ===== *)
theory Chat_Tabs
  imports Chat_Db
begin

text \<open>
  What the chat database promises (\<^verbatim>\<open>chatDb.ts\<close>): the collection of tabs as an interface with a unique key, the
  invariant of the database under every operation, and what is read back after a write.
\<close>

section \<open>A collection of documents with a unique key\<close>

locale keyed_collection =
  fixes find_one :: "'d \<Rightarrow> 'k \<Rightarrow> 't option"
    and insert_doc :: "'t \<Rightarrow> 'd \<Rightarrow> 'd"
    and update_doc :: "'t \<Rightarrow> 'd \<Rightarrow> 'd"
    and remove_docs :: "'k \<Rightarrow> 'd \<Rightarrow> 'd"
    and doc_key :: "'t \<Rightarrow> 'k"
    and unique_keys :: "'d \<Rightarrow> bool"
  assumes find_key: "find_one d k = Some t \<Longrightarrow> doc_key t = k"
    and find_insert: "find_one d (doc_key t) = None \<Longrightarrow> find_one (insert_doc t d) = (find_one d)(doc_key t \<mapsto> t)"
    and find_update: "find_one d (doc_key t) \<noteq> None \<Longrightarrow> find_one (update_doc t d) = (find_one d)(doc_key t \<mapsto> t)"
    and find_remove: "find_one (remove_docs k d) = (find_one d)(k := None)"
    and unique_insert: "unique_keys d \<Longrightarrow> find_one d (doc_key t) = None \<Longrightarrow> unique_keys (insert_doc t d)"
    and unique_update: "unique_keys d \<Longrightarrow> unique_keys (update_doc t d)"
    and unique_remove: "unique_keys d \<Longrightarrow> unique_keys (remove_docs k d)"
begin

text \<open>Most operations look a document up and insert a new one or update the one found.\<close>

lemma find_upsert:
  assumes "doc_key fresh_doc = k" and "\<And>t. find_one d k = Some t \<Longrightarrow> doc_key (change t) = k"
  shows "find_one (case find_one d k of None \<Rightarrow> insert_doc fresh_doc d | Some t \<Rightarrow> update_doc (change t) d) =
     (find_one d)(k \<mapsto> case find_one d k of None \<Rightarrow> fresh_doc | Some t \<Rightarrow> change t)"
proof (cases "find_one d k")
  case None
  then show ?thesis using find_insert [of d fresh_doc] assms(1) by simp
next
  case (Some t)
  then show ?thesis using find_update [of d "change t"] assms(2) [OF Some] by simp
qed

lemma unique_upsert:
  assumes "unique_keys d" and "doc_key fresh_doc = k"
  shows "unique_keys (case find_one d k of None \<Rightarrow> insert_doc fresh_doc d | Some t \<Rightarrow> update_doc (change t) d)"
  using assms unique_insert [of d fresh_doc] unique_update by (cases "find_one d k") simp_all

text \<open>Replacing a document by one under another key.\<close>

lemma find_replace:
  assumes "find_one d (doc_key t) = None" and "doc_key t \<noteq> k"
  shows "find_one (remove_docs k (insert_doc t d)) = (find_one d)(k := None, doc_key t \<mapsto> t)"
  using assms by (simp add: find_remove find_insert fun_upd_twist)

end

definition unique_tabs :: "ChatDatabase \<Rightarrow> bool" where
  "unique_tabs db = distinct (map tb_historyId (db_tabs db))"

lemma find_map_update:
  "List.find (\<lambda>u. f u = k) (map (\<lambda>u. if f u = f t then t else u) xs) =
     (if f t = k then (if List.find (\<lambda>u. f u = k) xs = None then None else Some t) else List.find (\<lambda>u. f u = k) xs)"
  by (induction xs) auto

lemma find_append: "List.find P (xs @ ys) = (case List.find P xs of None \<Rightarrow> List.find P ys | Some x \<Rightarrow> Some x)"
  by (induction xs) auto

lemma find_filter_key:
  "List.find (\<lambda>u. f u = k) (filter (\<lambda>u. f u \<noteq> j) xs) = (if k = j then None else List.find (\<lambda>u. f u = k) xs)"
  by (induction xs) auto

interpretation tabs: keyed_collection findTab insertTab updateTab removeTabs tb_historyId unique_tabs
proof unfold_locales
  show "findTab d k = Some t \<Longrightarrow> tb_historyId t = k" for d :: ChatDatabase and k and t :: Tab
    by (auto simp: findTab_def find_Some_iff)
  show "findTab d (tb_historyId t) = None \<Longrightarrow> findTab (insertTab t d) = (findTab d)(tb_historyId t \<mapsto> t)" for d :: ChatDatabase and t :: Tab
    by (auto simp: findTab_def insertTab_def find_append fun_eq_iff split: option.splits)
  show "findTab d (tb_historyId t) \<noteq> None \<Longrightarrow> findTab (updateTab t d) = (findTab d)(tb_historyId t \<mapsto> t)" for d :: ChatDatabase and t :: Tab
    by (auto simp: findTab_def updateTab_def find_map_update fun_eq_iff)
  show "findTab (removeTabs k d) = (findTab d)(k := None)" for k and d :: ChatDatabase
    by (simp add: findTab_def removeTabs_def find_filter_key fun_eq_iff)
  show "unique_tabs d \<Longrightarrow> findTab d (tb_historyId t) = None \<Longrightarrow> unique_tabs (insertTab t d)" for d :: ChatDatabase and t :: Tab
    by (auto simp: unique_tabs_def insertTab_def findTab_def find_None_iff)
  have "tb_historyId \<circ> (\<lambda>u. if tb_historyId u = tb_historyId t then t else u) = tb_historyId" for t :: Tab
    by (auto simp: fun_eq_iff)
  then show "unique_tabs d \<Longrightarrow> unique_tabs (updateTab t d)" for d :: ChatDatabase and t :: Tab
    by (simp add: unique_tabs_def updateTab_def)
  show "unique_tabs d \<Longrightarrow> unique_tabs (removeTabs k d)" for k and d :: ChatDatabase
    by (simp add: unique_tabs_def removeTabs_def distinct_map_filter)
qed

section \<open>The invariant\<close>

text \<open>History ids are unique and not empty, conversations of a tab have different ids, and a tab has one history.\<close>

definition tab_ok :: "Tab \<Rightarrow> bool" where
  "tab_ok t = (tb_historyId t \<noteq> [] \<and> distinct (map cv_conversationId (tb_conversations t)))"

definition db_wf :: "ChatDatabase \<Rightarrow> bool" where
  "db_wf db = (unique_tabs db \<and> list_all tab_ok (db_tabs db) \<and> map_wf (db_historyIdMapping db))"

lemma wf_insertTab: "db_wf db \<Longrightarrow> findTab db (tb_historyId t) = None \<Longrightarrow> tab_ok t \<Longrightarrow> db_wf (insertTab t db)"
  using tabs.unique_insert [of db t] by (auto simp: db_wf_def insertTab_def)

lemma wf_updateTab: "db_wf db \<Longrightarrow> tab_ok t \<Longrightarrow> db_wf (updateTab t db)"
  using tabs.unique_update [of db t] by (auto simp: db_wf_def updateTab_def list_all_iff)

lemma wf_removeTabs: "db_wf db \<Longrightarrow> db_wf (removeTabs h db)"
  using tabs.unique_remove [of db h] by (auto simp: db_wf_def removeTabs_def list_all_iff)

lemma wf_mapping:
  "db_wf db \<Longrightarrow> db_wf (setHistoryIdMapping tabId h db)"
  "db_wf db \<Longrightarrow> db_wf (db\<lparr>db_historyIdMapping := map_del tabId m\<rparr>)" if "map_wf m"
  using that by (auto simp: db_wf_def setHistoryIdMapping_def unique_tabs_def intro: jsmap.wf_put jsmap.wf_del)

lemma findTab_ok: "db_wf db \<Longrightarrow> findTab db h = Some t \<Longrightarrow> tab_ok t \<and> tb_historyId t = h"
  by (auto simp: db_wf_def list_all_iff findTab_def find_Some_iff)

lemma mapped_history_nonempty: "mapped_history db tabId = Some h \<Longrightarrow> h \<noteq> []"
  by (auto simp: mapped_history_def split: option.splits if_splits)

lemma findTab_mapping [simp]:
  "findTab (setHistoryIdMapping tabId h db) = findTab db"
  "findTab (db\<lparr>db_historyIdMapping := m\<rparr>) = findTab db"
  "findTab (db\<lparr>db_settings := s\<rparr>) = findTab db"
  "findTab (db\<lparr>db_defaultPinned := p\<rparr>) = findTab db"
  by (simp_all add: findTab_def setHistoryIdMapping_def fun_eq_iff)

text \<open>A generated id is not empty and neither a history nor the target of a mapping.\<close>

definition fresh_id :: "string \<Rightarrow> ChatDatabase \<Rightarrow> bool" where
  "fresh_id uuid db = (uuid \<noteq> [] \<and> findTab db uuid = None \<and> uuid \<notin> set (map snd (db_historyIdMapping db)))"

lemma getOrCreate_wf:
  assumes "db_wf db" and "fresh_id uuid db" and "getOrCreateHistoryId uuid tabId db = (h, db1)"
  shows "db_wf db1 \<and> h \<noteq> [] \<and> findTab db1 = findTab db \<and> db_tabs db1 = db_tabs db \<and> db_initialized db1 = db_initialized db"
  using assms mapped_history_nonempty wf_mapping(1)
  by (auto simp: getOrCreateHistoryId_def createHistoryId_def fresh_id_def setHistoryIdMapping_def findTab_def fun_eq_iff
      db_wf_def unique_tabs_def jsmap.wf_put split: option.splits)

lemma conversations_ok:
  assumes "distinct (map cv_conversationId cs)"
  shows "distinct (map cv_conversationId (updateOrCreateConversation now cs cid m ct))"
proof -
  have "cv_conversationId \<circ> (\<lambda>c :: Conversation. if cv_conversationId c = cid then c\<lparr>cv_updatedAt := Some now, cv_messages := cv_messages c @ [m]\<rparr> else c) = cv_conversationId"
    by (auto simp: fun_eq_iff)
  then show ?thesis
    using assms by (auto simp: updateOrCreateConversation_def list_ex_iff)
qed

lemma addMessage_wf:
  assumes "db_wf db" and "fresh_id uuid db"
  shows "db_wf (addMessage uuid now tabId tabType cid m db)"
proof -
  obtain h db1 where g: "getOrCreateHistoryId uuid tabId db = (h, db1)" by fastforce
  note w = getOrCreate_wf [OF assms g]
  show ?thesis
  proof (cases "findTab db1 h")
    case None
    then show ?thesis
      using w assms(1) by (simp add: addMessage_def g Let_def new_tab_def tab_ok_def wf_insertTab)
  next
    case (Some t)
    then show ?thesis
      using w assms(1) findTab_ok [OF _ Some] by (simp add: addMessage_def g Let_def tab_ok_def conversations_ok wf_updateTab)
  qed
qed

lemma replaceWithSummary_wf:
  assumes "db_wf db" and "fresh_id uuid db" and "fresh_id uuid' db"
  shows "db_wf (replaceWithSummary uuid uuid' now tabId tabType cid m db)"
proof -
  obtain h db1 where g: "getOrCreateHistoryId uuid tabId db = (h, db1)" by fastforce
  note w = getOrCreate_wf [OF assms(1,2) g]
  have "db_wf (setHistoryIdMapping tabId uuid' db1)" "findTab (setHistoryIdMapping tabId uuid' db1) uuid' = None"
    using w assms(3) wf_mapping(1) [of "[]" db1] by (simp_all add: fresh_id_def)
  then show ?thesis
    using assms w g
    by (auto simp: replaceWithSummary_def createHistoryId_def Let_def tab_ok_def new_tab_def fresh_id_def
        intro!: wf_insertTab wf_removeTabs)
qed

lemma upsert_context_wf:
  "db_wf db \<Longrightarrow> h \<noteq> [] \<Longrightarrow> findTab db h = None \<Longrightarrow> db_wf (addTabWithContext now h ctx db)"
  "db_wf db \<Longrightarrow> findTab db h = Some t \<Longrightarrow> db_wf (updateTab (t\<lparr>tb_tabContext := c\<rparr>) db)"
  using findTab_ok [of db h t]
  by (auto simp: addTabWithContext_def new_tab_def tab_ok_def intro!: wf_insertTab wf_updateTab)

lemma setRules_wf:
  assumes "db_wf db" and "fresh_id uuid db"
  shows "db_wf (setRules uuid now tabId r db)"
proof -
  obtain h db1 where g: "getOrCreateHistoryId uuid tabId db = (h, db1)" by fastforce
  note w = getOrCreate_wf [OF assms g]
  show ?thesis
  proof (cases "findTab db1 h")
    case None
    then show ?thesis
      using w assms(1) upsert_context_wf(1) [of db1 h] by (simp add: setRules_def g Let_def)
  next
    case (Some t)
    then show ?thesis
      using w assms(1) upsert_context_wf(2) [OF _ Some]  by (simp add: setRules_def g Let_def)
  qed
qed

lemma removePinnedContext_wf:
  assumes "db_wf db" and "fresh_id uuid db"
  shows "db_wf (removePinnedContext uuid now tabId c db)"
proof -
  obtain h db1 where g: "getOrCreateHistoryId uuid tabId db = (h, db1)" by fastforce
  note w = getOrCreate_wf [OF assms g]
  show ?thesis
  proof (cases "findTab db1 h")
    case None
    then show ?thesis
      using w assms(1) upsert_context_wf(1) [of db1 h] by (simp add: removePinnedContext_def g Let_def)
  next
    case (Some t)
    then show ?thesis
      using w assms(1) upsert_context_wf(2) [OF _ Some]  by (simp add: removePinnedContext_def g Let_def)
  qed
qed

lemma wf_defaultPinned [simp]: "db_wf (db\<lparr>db_defaultPinned := p\<rparr>) = db_wf db"
  "db_wf (db\<lparr>db_settings := s\<rparr>) = db_wf db"
  by (simp_all add: db_wf_def unique_tabs_def)

lemma addPinnedContext_wf:
  assumes "db_wf db" and "fresh_id uuid db"
  shows "db_wf (addPinnedContext uuid now tabId c db)"
proof -
  obtain h db1 where g: "getOrCreateHistoryId uuid tabId db = (h, db1)" by fastforce
  note w = getOrCreate_wf [OF assms g]
  show ?thesis
  proof (cases "findTab db1 h")
    case None
    then show ?thesis
      using w assms(1) upsert_context_wf(1) [of db1 h] by (simp add: addPinnedContext_def g Let_def)
  next
    case (Some t)
    then show ?thesis
      using w assms(1) upsert_context_wf(2) [OF _ Some] upsert_context_wf(2) [of "db1\<lparr>db_defaultPinned := p\<rparr>" h t for p] by (simp add: addPinnedContext_def g Let_def split: pinned_ref.split)
  qed
qed

lemma updateSettings_wf [simp]: "db_wf (updateSettings change db) = db_wf db"
  by (simp add: updateSettings_def)

lemma set_tab_preference_wf:
  assumes "db_wf db" and "fresh_id uuid db"
    and "\<And>t. tb_historyId (change t) = tb_historyId t \<and> tb_conversations (change t) = tb_conversations t"
  shows "db_wf (set_tab_preference uuid now tabId change db)"
proof -
  obtain h db1 where g: "getOrCreateHistoryId uuid tabId db = (h, db1)" by fastforce
  note w = getOrCreate_wf [OF assms(1,2) g]
  define db2 where "db2 = (case findTab db1 h of None \<Rightarrow> addTabWithContext now h empty_context db1 | Some _ \<Rightarrow> db1)"
  have "db_wf db2"
    using w by (auto simp: db2_def split: option.splits intro: upsert_context_wf)
  then show ?thesis
    using findTab_ok [of db2 h] assms(3)
    by (auto simp: set_tab_preference_def g Let_def db2_def [symmetric] tab_ok_def split: option.splits intro!: wf_updateTab)
qed

lemma clearTab_wf: "db_wf db \<Longrightarrow> db_wf (clearTab tabId db)"
  using wf_removeTabs [of db]
  by (auto simp: clearTab_def Let_def db_wf_def unique_tabs_def split: option.splits intro: jsmap.wf_del)

lemma updateTabOpenState_wf: "db_wf db \<Longrightarrow> db_wf (updateTabOpenState tabId isOpen db)"
proof -
  have "tb_historyId \<circ> (\<lambda>t :: Tab. if tb_historyId t = h then t\<lparr>tb_isOpen := isOpen\<rparr> else t) = tb_historyId" for h
    by (auto simp: fun_eq_iff)
  then show "db_wf db \<Longrightarrow> db_wf (updateTabOpenState tabId isOpen db)"
    by (auto simp: updateTabOpenState_def Let_def db_wf_def unique_tabs_def list_all_iff tab_ok_def split: option.splits
        intro: jsmap.wf_del)
qed

lemma deleteHistory_wf: "db_wf db \<Longrightarrow> db_wf (deleteHistory h db)"
  using wf_removeTabs [of db h]
  by (auto simp: deleteHistory_def Let_def db_wf_def unique_tabs_def split: option.splits intro: jsmap.wf_del)

section \<open>Runs of operations\<close>

datatype chat_op =
    Op_map string string | Op_add string string string Message | Op_summary string string string Message
  | Op_clear string | Op_open string bool | Op_delete string | Op_rules string Rules
  | Op_pin string ContextCommand | Op_unpin string ContextCommand | Op_model string "string option" | Op_mode string "bool option"
  | Op_cache "string list" "string option" | Op_uncache

text \<open>The operation with the ids that are generated and the time it runs.\<close>

fun chat_exec :: "string \<Rightarrow> string \<Rightarrow> int \<Rightarrow> chat_op \<Rightarrow> ChatDatabase \<Rightarrow> ChatDatabase" where
  "chat_exec u u' now (Op_map tabId h) db = setHistoryIdMapping tabId h db"
| "chat_exec u u' now (Op_add tabId tabType cid m) db = addMessage u now tabId tabType cid m db"
| "chat_exec u u' now (Op_summary tabId tabType cid m) db = replaceWithSummary u u' now tabId tabType cid m db"
| "chat_exec u u' now (Op_clear tabId) db = clearTab tabId db"
| "chat_exec u u' now (Op_open tabId b) db = updateTabOpenState tabId b db"
| "chat_exec u u' now (Op_delete h) db = deleteHistory h db"
| "chat_exec u u' now (Op_rules tabId r) db = setRules u now tabId r db"
| "chat_exec u u' now (Op_pin tabId c) db = addPinnedContext u now tabId c db"
| "chat_exec u u' now (Op_unpin tabId c) db = removePinnedContext u now tabId c db"
| "chat_exec u u' now (Op_model tabId m) db = setTabModelId u now tabId m db"
| "chat_exec u u' now (Op_mode tabId m) db = setTabPairProgrammingMode u now tabId m db"
| "chat_exec u u' now (Op_cache ms d) db = setCachedModels now ms d db"
| "chat_exec u u' now Op_uncache db = clearCachedModels db"

inductive chat_reachable :: "ChatDatabase \<Rightarrow> ChatDatabase \<Rightarrow> bool" for start where
  chat_start: "chat_reachable start start"
| chat_step: "chat_reachable start (chat_exec u u' now action db)"
    if "chat_reachable start db" and "fresh_id u db" and "fresh_id u' db"

lemma chat_exec_wf: "db_wf db \<Longrightarrow> fresh_id u db \<Longrightarrow> fresh_id u' db \<Longrightarrow> db_wf (chat_exec u u' now action db)"
  by (cases action)
    (simp_all add: wf_mapping(1) [of "[]"] addMessage_wf replaceWithSummary_wf clearTab_wf updateTabOpenState_wf deleteHistory_wf
      setRules_wf addPinnedContext_wf removePinnedContext_wf setTabModelId_def setModelId_def set_tab_preference_wf
      setTabPairProgrammingMode_def setPairProgrammingMode_def setCachedModels_def clearCachedModels_def)

text \<open>
  C21. From a well-formed database, any sequence of operations leads to a well-formed one: every history id belongs to one tab,
  the conversations of a tab have different ids, and every tab id is mapped to one history.
\<close>

theorem chat_database_wf: "chat_reachable start db \<Longrightarrow> db_wf start \<Longrightarrow> db_wf db"
  by (induction rule: chat_reachable.induct) (simp_all add: chat_exec_wf)

definition empty_chat_db :: ChatDatabase where
  "empty_chat_db = \<lparr>db_initialized = True, db_tabs = [], db_historyIdMapping = [], db_settings = None,
     db_defaultPinned = [\<lparr>cc_id = Some ''active-editor'', cc_command = ''Active file''\<rparr>], db_clientType = ''vscode''\<rparr>"

theorem chat_database_wf_witness:
  "db_wf (chat_exec ''u'' ''v'' 1 (Op_add ''tab'' ''cwc'' ''c'' (bare_message ''hello'' Prompt)) empty_chat_db)"
  by (rule chat_database_wf [OF chat_step [OF chat_start [of empty_chat_db]]]; code_simp)

section \<open>Reading after writing\<close>

lemma map_get_values: "map_get m k = Some v \<Longrightarrow> v \<in> set (map snd m)"
  by (force simp: map_get_def dest: map_of_SomeD)

lemma getOrCreate_mapping:
  assumes "fresh_id uuid db" and "getOrCreateHistoryId uuid tabId db = (h, db1)"
  shows "mapped_history db1 tabId = Some h"
    and "mapped_history db tabId = Some h \<or> mapped_history db tabId = None \<and> h = uuid"
    and "tab' \<noteq> tabId \<Longrightarrow> mapped_history db1 tab' = mapped_history db tab'"
    and "findTab db1 = findTab db" and "db_initialized db1 = db_initialized db" and "db_defaultPinned db1 = db_defaultPinned db"
    and "db_settings db1 = db_settings db" and "db_clientType db1 = db_clientType db"
  using assms
  by (auto simp: getOrCreateHistoryId_def createHistoryId_def setHistoryIdMapping_def mapped_history_def fresh_id_def
      jsmap.get_put findTab_def fun_eq_iff split: option.splits if_splits)

lemma mapped_other:
  assumes "fresh_id uuid db" and "getOrCreateHistoryId uuid tabId db = (h, db1)" and "mapped_history db tab' \<noteq> mapped_history db tabId"
  shows "mapped_history db1 tab' = mapped_history db tab' \<and> mapped_history db tab' \<noteq> Some h"
proof
  have "tab' \<noteq> tabId" using assms(3) by auto
  then show "mapped_history db1 tab' = mapped_history db tab'" by (rule getOrCreate_mapping(3) [OF assms(1,2)])
  show "mapped_history db tab' \<noteq> Some h"
    using assms(1,3) getOrCreate_mapping(2) [OF assms(1,2)] map_get_values [of "db_historyIdMapping db" tab' h]
    by (auto simp: fresh_id_def mapped_history_def split: option.splits if_splits)
qed

lemma tab_writes_keep [simp]:
  "db_initialized (updateTab t db) = db_initialized db" "db_initialized (insertTab t db) = db_initialized db"
  "mapped_history (updateTab t db) = mapped_history db" "mapped_history (insertTab t db) = mapped_history db"
  "db_defaultPinned (updateTab t db) = db_defaultPinned db" "db_defaultPinned (insertTab t db) = db_defaultPinned db"
  by (simp_all add: updateTab_def insertTab_def mapped_history_def fun_eq_iff)

text \<open>The tab as it is stored after a message was added.\<close>

definition tab_with_message :: "int \<Rightarrow> string \<Rightarrow> string \<Rightarrow> Message \<Rightarrow> string \<Rightarrow> string \<Rightarrow> Tab option \<Rightarrow> Tab" where
  "tab_with_message now tabType cid m ct h old =
     (let title = tab_title m (map_option tb_title old) ''Amazon Q Chat Agent''; m' = formatChatHistoryMessage m
      in case old of
           None \<Rightarrow> new_tab h now tabType title [\<lparr>cv_conversationId = cid, cv_clientType = ct, cv_updatedAt = Some now, cv_messages = [m']\<rparr>] None
         | Some t \<Rightarrow> t\<lparr>tb_conversations := updateOrCreateConversation now (tb_conversations t) cid m' ct, tb_updatedAt := now, tb_title := title\<rparr>)"

lemma addMessage_find:
  assumes "db_initialized db" and "fresh_id uuid db" and g: "getOrCreateHistoryId uuid tabId db = (h, db1)"
  shows "findTab (addMessage uuid now tabId tabType cid m db) =
     (findTab db)(h \<mapsto> tab_with_message now tabType cid m (text_or (Some (db_clientType db)) ''unknown'') h (findTab db h))"
    and "mapped_history (addMessage uuid now tabId tabType cid m db) = mapped_history db1"
    and "db_initialized (addMessage uuid now tabId tabType cid m db)"
proof -
  let ?ct = "text_or (Some (db_clientType db)) ''unknown''"
  note mp = getOrCreate_mapping [OF assms(2) g]
  have e: "addMessage uuid now tabId tabType cid m db =
      (case findTab db1 h of None \<Rightarrow> insertTab (tab_with_message now tabType cid m ?ct h None) db1
       | Some t \<Rightarrow> updateTab (tab_with_message now tabType cid m ?ct h (Some t)) db1)"
    using assms(1) by (simp add: addMessage_def g Let_def tab_with_message_def split: option.split)
  have k: "tb_historyId (tab_with_message now tabType cid m ?ct h None) = h"
    by (simp add: tab_with_message_def new_tab_def Let_def)
  have k': "tb_historyId (tab_with_message now tabType cid m ?ct h (Some t)) = h" if "findTab db1 h = Some t" for t
    using tabs.find_key [OF that] by (simp add: tab_with_message_def Let_def)
  have "findTab (addMessage uuid now tabId tabType cid m db) = (findTab db1)(h \<mapsto> case findTab db1 h of
      None \<Rightarrow> tab_with_message now tabType cid m ?ct h None | Some t \<Rightarrow> tab_with_message now tabType cid m ?ct h (Some t))"
    unfolding e by (rule tabs.find_upsert [OF k k'])
  then show "findTab (addMessage uuid now tabId tabType cid m db) =
     (findTab db)(h \<mapsto> tab_with_message now tabType cid m ?ct h (findTab db h))"
    by (simp add: mp(4) split: option.splits)
  show "mapped_history (addMessage uuid now tabId tabType cid m db) = mapped_history db1"
    unfolding e by (simp split: option.split)
  show "db_initialized (addMessage uuid now tabId tabType cid m db)"
    unfolding e using assms(1) mp(5) by (simp split: option.split)
qed

text \<open>All messages of a tab in their order.\<close>

definition tab_messages :: "Tab \<Rightarrow> Message list" where
  "tab_messages t = concat (map cv_messages (tb_conversations t))"

lemma getMessages_all:
  "db_initialized db \<Longrightarrow> getMessages db tabId None =
     (case Option.bind (mapped_history db tabId) (findTab db) of None \<Rightarrow> [] | Some t \<Rightarrow> tab_messages t)"
  by (simp add: getMessages_def tab_messages_def split: option.split)

lemma updateOrCreate_messages:
  assumes "cid \<notin> set (map cv_conversationId (butlast cs))"
  shows "concat (map cv_messages (updateOrCreateConversation now cs cid m ct)) = concat (map cv_messages cs) @ [m]"
proof (cases cs rule: rev_cases)
  case Nil
  then show ?thesis by (simp add: updateOrCreateConversation_def)
next
  case (snoc ys y)
  have "map (\<lambda>c. if cv_conversationId c = cid then c\<lparr>cv_updatedAt := Some now, cv_messages := cv_messages c @ [m]\<rparr> else c) ys = ys"
    using assms snoc by (intro map_idI) auto
  then show ?thesis
    using snoc assms by (auto simp: updateOrCreateConversation_def list_ex_iff)
qed

text \<open>Only a tab without a history uses the generated id.\<close>

definition id_ready :: "string \<Rightarrow> string \<Rightarrow> ChatDatabase \<Rightarrow> bool" where
  "id_ready uuid tabId db \<longleftrightarrow> mapped_history db tabId \<noteq> None \<or> fresh_id uuid db"

lemma fresh_id_exists: "\<exists>u. fresh_id u db"
proof -
  have "finite (insert [] (tb_historyId ` set (db_tabs db) \<union> set (map snd (db_historyIdMapping db))))" by simp
  then obtain u where "u \<notin> insert [] (tb_historyId ` set (db_tabs db) \<union> set (map snd (db_historyIdMapping db)))"
    using ex_new_if_finite [OF infinite_UNIV_listI] by blast
  then have "fresh_id u db" by (auto simp: fresh_id_def findTab_def find_None_iff)
  then show ?thesis by blast
qed

lemma addMessage_any_id:
  assumes "id_ready uuid tabId db"
  obtains u where "fresh_id u db" and "\<And>m. addMessage uuid now tabId tabType cid m db = addMessage u now tabId tabType cid m db"
proof (cases "mapped_history db tabId")
  case None
  with assms that [of uuid] show thesis by (simp add: id_ready_def)
next
  case (Some h)
  with fresh_id_exists [of db] that show thesis by (auto simp: addMessage_def getOrCreateHistoryId_def)
qed

lemma tab_with_message_appends:
  assumes "\<And>t. mapped_tab db tabId = Some t \<Longrightarrow> cid \<notin> set (map cv_conversationId (butlast (tb_conversations t)))"
    and "db_initialized db" and "fresh_id uuid db" and g: "getOrCreateHistoryId uuid tabId db = (h, db1)"
  shows "tab_messages (tab_with_message now tabType cid m ct h (findTab db h)) =
     (case mapped_tab db tabId of None \<Rightarrow> [] | Some t \<Rightarrow> tab_messages t) @ [formatChatHistoryMessage m]"
proof (cases "mapped_tab db tabId")
  case None
  then have "findTab db h = None"
    using getOrCreate_mapping(2) [OF assms(3) g] assms(2,3) by (auto simp: mapped_tab_def fresh_id_def)
  with None show ?thesis by (simp add: tab_messages_def tab_with_message_def new_tab_def Let_def)
next
  case (Some t)
  then have "findTab db h = Some t"
    using getOrCreate_mapping(2) [OF assms(3) g] assms(2,3) by (auto simp: mapped_tab_def split: if_splits)
  with Some show ?thesis
    using updateOrCreate_messages [OF assms(1) [OF Some]] by (simp add: tab_messages_def tab_with_message_def Let_def)
qed

lemma addMessage_appends:
  assumes "db_initialized db" and "id_ready uuid tabId db"
    and "\<And>t. mapped_tab db tabId = Some t \<Longrightarrow> cid \<notin> set (map cv_conversationId (butlast (tb_conversations t)))"
  shows "getMessages (addMessage uuid now tabId tabType cid m db) tabId None = getMessages db tabId None @ [formatChatHistoryMessage m]"
proof -
  obtain u where u: "fresh_id u db" "addMessage uuid now tabId tabType cid m db = addMessage u now tabId tabType cid m db"
    using addMessage_any_id [OF assms(2), of now tabType cid] by metis
  obtain h db1 where g: "getOrCreateHistoryId u tabId db = (h, db1)" by fastforce
  note mp = getOrCreate_mapping [OF u(1) g] and a = addMessage_find [OF assms(1) u(1) g, of now tabType cid m]
  show ?thesis
    using tab_with_message_appends [OF assms(3,1) u(1) g] assms(1)
    by (simp add: u(2) getMessages_all [OF a(3)] getMessages_all [OF assms(1)] a(1,2) mp(1) mapped_tab_def)
qed

text \<open>
  C22. A message added to a tab is the last message read from it afterwards, in its stored form and after everything that was there, when its
  conversation is new or the latest of the tab; what is read from tabs with another history does not change.
\<close>

theorem added_message_read_back:
  assumes "db_initialized db" and "db_wf db" and "fresh_id uuid db"
    and "\<And>t. mapped_tab db tabId = Some t \<Longrightarrow> cid \<notin> set (map cv_conversationId (butlast (tb_conversations t)))"
    and "mapped_history db tab' \<noteq> mapped_history db tabId"
  shows "getMessages (addMessage uuid now tabId tabType cid m db) tabId None = getMessages db tabId None @ [formatChatHistoryMessage m] \<and>
     getMessages (addMessage uuid now tabId tabType cid m db) tab' None = getMessages db tab' None"
proof -
  obtain h db1 where g: "getOrCreateHistoryId uuid tabId db = (h, db1)" by fastforce
  note a = addMessage_find [OF assms(1,3) g, of now tabType cid m]
  have "getMessages (addMessage uuid now tabId tabType cid m db) tab' None = getMessages db tab' None"
    using mapped_other [OF assms(3) g assms(5)]
    by (cases "mapped_history db tab'") (auto simp: getMessages_all [OF a(3)] getMessages_all [OF assms(1)] a(1,2))
  then show ?thesis
    using addMessage_appends [OF assms(1) _ assms(4)] assms(3) by (simp add: id_ready_def)
qed

definition one_tab_db :: ChatDatabase where
  "one_tab_db = addMessage ''h'' 1 ''other'' ''cwc'' ''c'' (bare_message ''hello'' Prompt) empty_chat_db"

theorem added_message_read_back_witness:
  "getMessages (addMessage ''u'' 2 ''tab'' ''cwc'' ''d'' (bare_message ''fix it'' Prompt) one_tab_db) ''tab'' None =
     getMessages one_tab_db ''tab'' None @ [formatChatHistoryMessage (bare_message ''fix it'' Prompt)] \<and>
   getMessages (addMessage ''u'' 2 ''tab'' ''cwc'' ''d'' (bare_message ''fix it'' Prompt) one_tab_db) ''other'' None = getMessages one_tab_db ''other'' None"
proof (rule added_message_read_back)
  show "''d'' \<notin> set (map cv_conversationId (butlast (tb_conversations t)))" if "mapped_tab one_tab_db ''tab'' = Some t" for t
  proof -
    have "mapped_tab one_tab_db ''tab'' = None" by code_simp
    with that show ?thesis by simp
  qed
qed code_simp+

section \<open>Preferences\<close>

lemma set_tab_preference_find:
  assumes "fresh_id uuid db" and g: "getOrCreateHistoryId uuid tabId db = (h, db1)"
    and "\<And>t. tb_historyId (change t) = tb_historyId t"
  shows "findTab (set_tab_preference uuid now tabId change db) =
      (findTab db)(h \<mapsto> change (case findTab db h of None \<Rightarrow> new_tab h now ''cwc'' ''Amazon Q Chat'' [] (Some empty_context) | Some t \<Rightarrow> t))"
    and "mapped_history (set_tab_preference uuid now tabId change db) = mapped_history db1"
    and "db_initialized (set_tab_preference uuid now tabId change db) = db_initialized db"
proof -
  note mp = getOrCreate_mapping [OF assms(1) g]
  let ?n = "new_tab h now ''cwc'' ''Amazon Q Chat'' [] (Some empty_context)"
  have n: "tb_historyId ?n = h" by (simp add: new_tab_def)
  define db2 where "db2 = (case findTab db1 h of None \<Rightarrow> addTabWithContext now h empty_context db1 | Some _ \<Rightarrow> db1)"
  have f2: "findTab db2 = (findTab db1)(h \<mapsto> case findTab db1 h of None \<Rightarrow> ?n | Some t \<Rightarrow> t)"
    using tabs.find_insert [of db1 ?n] n
    by (auto simp: db2_def addTabWithContext_def fun_eq_iff split: option.splits)
  then obtain t where t: "findTab db2 h = Some t" "t = (case findTab db h of None \<Rightarrow> ?n | Some t \<Rightarrow> t)"
    by (simp add: mp(4))
  have e: "set_tab_preference uuid now tabId change db = updateTab (change t) db2"
    using t(1) by (simp add: set_tab_preference_def g Let_def db2_def [symmetric])
  have "tb_historyId (change t) = h"
    using assms(3) tabs.find_key [OF t(1)] by simp
  then have "findTab (updateTab (change t) db2) = (findTab db2)(h \<mapsto> change t)"
    using tabs.find_update [of db2 "change t"] t(1) by simp
  then show "findTab (set_tab_preference uuid now tabId change db) =
      (findTab db)(h \<mapsto> change (case findTab db h of None \<Rightarrow> ?n | Some t \<Rightarrow> t))"
    unfolding e by (simp add: f2 t(2) mp(4))
  show "mapped_history (set_tab_preference uuid now tabId change db) = mapped_history db1"
    "db_initialized (set_tab_preference uuid now tabId change db) = db_initialized db"
    unfolding e by (simp_all add: db2_def addTabWithContext_def mp(5) split: option.split)
qed

lemma updateSettings_keep [simp]:
  "findTab (updateSettings change db) = findTab db" "mapped_history (updateSettings change db) = mapped_history db"
  "db_initialized (updateSettings change db) = db_initialized db"
  by (simp_all add: updateSettings_def mapped_history_def fun_eq_iff)

text \<open>
  A model selected in a tab is the model of the tab from then on and the default of tabs without a selection; the selection of
  every tab with another history stays.
\<close>

lemma selected_model_read_back:
  assumes "db_initialized db" and "fresh_id uuid db" and "modelId \<noteq> []"
  shows "getEffectiveTabModelId (setTabModelId uuid now tabId (Some modelId) db) tabId = Some modelId"
    and "mapped_history db tab' \<noteq> mapped_history db tabId \<Longrightarrow>
      getEffectiveTabModelId (setTabModelId uuid now tabId (Some modelId) db) tab' =
        (case getTabModelId db tab' of None \<Rightarrow> Some modelId | Some m \<Rightarrow> Some m)"
proof -
  obtain h db1 where g: "getOrCreateHistoryId uuid tabId db = (h, db1)" by fastforce
  let ?change = "\<lambda>t :: Tab. t\<lparr>tb_modelId := Some modelId\<rparr>"
  note mp = getOrCreate_mapping [OF assms(2) g] and s = set_tab_preference_find [OF assms(2) g, of ?change now, simplified]
  have d: "getModelId (setTabModelId uuid now tabId (Some modelId) db) = Some modelId"
    using assms s(3) by (simp add: setTabModelId_def setModelId_def getModelId_def getSettings_def updateSettings_def non_empty_def)
  show "getEffectiveTabModelId (setTabModelId uuid now tabId (Some modelId) db) tabId = Some modelId"
    using assms s mp by (simp add: getEffectiveTabModelId_def getTabModelId_def mapped_tab_def setTabModelId_def setModelId_def)
  assume other: "mapped_history db tab' \<noteq> mapped_history db tabId"
  have "getTabModelId (setTabModelId uuid now tabId (Some modelId) db) tab' = getTabModelId db tab'"
    using assms s mapped_other [OF assms(2) g other]
    by (cases "mapped_history db tab'") (auto simp: getTabModelId_def mapped_tab_def setTabModelId_def setModelId_def)
  then show "getEffectiveTabModelId (setTabModelId uuid now tabId (Some modelId) db) tab' =
        (case getTabModelId db tab' of None \<Rightarrow> Some modelId | Some m \<Rightarrow> Some m)"
    by (simp add: getEffectiveTabModelId_def d split: option.split)
qed

section \<open>Deleted histories and pinned context\<close>

text \<open>
  Deleting a history never removes the mapping of the tab that shows it: the tab is looked up after it was removed.
  The tab stays bound to the deleted id.
\<close>

lemma deleteHistory_keeps_mapping: "db_historyIdMapping (deleteHistory h db) = db_historyIdMapping db"
proof -
  have "findTab (removeTabs h db) h = None" by (simp add: tabs.find_remove)
  then have "getOpenTabId (removeTabs h db) h = None" by (simp add: getOpenTabId_def getTab_def)
  then show ?thesis by (simp add: deleteHistory_def Let_def removeTabs_def)
qed

lemma clearTab_forgets: "db_initialized db \<Longrightarrow> mapped_history (clearTab tabId db) tabId = None \<and> getMessages (clearTab tabId db) tabId None = []"
  by (auto simp: clearTab_def Let_def mapped_history_def getMessages_def jsmap.get_del removeTabs_def split: option.splits)

lemma getPinnedContext_default:
  assumes "db_initialized db"
    and "Option.bind (Option.bind (findTab db (case mapped_history db tabId of None \<Rightarrow> uuid | Some h \<Rightarrow> h)) tb_tabContext) tc_pinnedContext = None"
  shows "fst (getPinnedContext uuid tabId db) = db_defaultPinned db"
  using assms
  by (cases "mapped_history db tabId")
    (simp_all add: getPinnedContext_def getOrCreateHistoryId_def createHistoryId_def, simp add: setHistoryIdMapping_def)

text \<open>
  Pinning an item in a tab that exists but has no pinned context of its own changes the pinned context of other tabs: the tab is
  given the module's default array itself, the item is appended to that array, and every tab with another
  history that has no pinned context of its own, a new one included, shows the item from then on.
\<close>

theorem pinned_context_leaks:
  assumes "db_initialized db" and "fresh_id u db" and "fresh_id u' db"
    and "mapped_tab db tabId = Some t" and "Option.bind (tb_tabContext t) tc_pinnedContext = None" and "\<not> has_context c (db_defaultPinned db)"
    and "mapped_history db tab' \<noteq> mapped_history db tabId"
    and "Option.bind (Option.bind (mapped_tab db tab') tb_tabContext) tc_pinnedContext = None"
  shows "fst (getPinnedContext u' tab' (addPinnedContext u now tabId c db)) = db_defaultPinned db @ [c]"
proof -
  obtain h where h: "mapped_history db tabId = Some h" "findTab db h = Some t"
    using assms(1,4) by (auto simp: mapped_tab_def split: bind_splits)
  let ?t = "t\<lparr>tb_tabContext := Some ((context_of t)\<lparr>tc_pinnedContext := Some Default_array\<rparr>)\<rparr>"
  let ?db = "updateTab ?t (db\<lparr>db_defaultPinned := db_defaultPinned db @ [c]\<rparr>)"
  have "tc_pinnedContext (context_of t) = None"
    using assms(5) by (cases "tb_tabContext t") (simp_all add: context_of_def empty_context_def)
  then have e: "addPinnedContext u now tabId c db = ?db"
    using assms(1,6) h by (simp add: addPinnedContext_def getOrCreateHistoryId_def Let_def pinned_list_def insert_pinned_def)
  have f: "findTab ?db = (findTab db)(h \<mapsto> ?t)"
    using tabs.find_update [of "db\<lparr>db_defaultPinned := db_defaultPinned db @ [c]\<rparr>" ?t] tabs.find_key [OF h(2)] h(2) by simp
  have m: "mapped_history ?db = mapped_history db"
    by (simp add: mapped_history_def fun_eq_iff)
  have "findTab db u' = None" "u' \<noteq> h" using assms(3) h by (auto simp: fresh_id_def)
  then have "Option.bind (Option.bind (findTab ?db (case mapped_history db tab' of None \<Rightarrow> u' | Some h' \<Rightarrow> h')) tb_tabContext) tc_pinnedContext = None"
    using assms(1,7,8) h(1) by (auto simp: f mapped_tab_def split: option.splits)
  then have "fst (getPinnedContext u' tab' ?db) = db_defaultPinned ?db"
    using assms(1) by (intro getPinnedContext_default) (simp_all only: m, simp)
  then show ?thesis
    unfolding e by simp
qed

theorem pinned_context_leaks_witness:
  "fst (getPinnedContext ''v'' ''new tab'' (addPinnedContext ''u'' 2 ''tab'' \<lparr>cc_id = Some ''secret.ts'', cc_command = ''secret.ts''\<rparr>
      (addMessage ''h'' 1 ''tab'' ''cwc'' ''c'' (bare_message ''hello'' Prompt) empty_chat_db))) =
    db_defaultPinned (addMessage ''h'' 1 ''tab'' ''cwc'' ''c'' (bare_message ''hello'' Prompt) empty_chat_db) @ [\<lparr>cc_id = Some ''secret.ts'', cc_command = ''secret.ts''\<rparr>]"
  by (rule pinned_context_leaks [where t = "the (mapped_tab (addMessage ''h'' 1 ''tab'' ''cwc'' ''c'' (bare_message ''hello'' Prompt) empty_chat_db) ''tab'')"]; code_simp)

end
