(* ===== verification/Chat_Listing.thy ===== *)
theory Chat_Listing
  imports Chat_Tabs "HOL-Library.Multiset" "HOL-Library.Char_ord" "HOL-Library.List_Lexorder"
begin

text \<open>
  The list of conversations the user sees (\<^verbatim>\<open>groupTabsByDate\<close> of \<^verbatim>\<open>util.ts\<close>, \<^verbatim>\<open>getHistory\<close> and \<^verbatim>\<open>searchMessages\<close> of \<^verbatim>\<open>chatDb.ts\<close>) and the
  choice of the history file of a workspace. The dates of the calendar at which the groups begin are an argument.
\<close>

section \<open>Groups of conversations\<close>

record calendar =
  cal_today :: int
  cal_yesterday :: int
  cal_lastWeek :: int
  cal_lastMonth :: int

record ConversationItem =
  ci_icon :: "string option"
  ci_description :: string
  ci_id :: string

record ConversationItemGroup =
  cg_groupName :: "string option"
  cg_icon :: "string option"
  cg_items :: "ConversationItem list"

definition getTabTypeIcon :: "string \<Rightarrow> string" where
  "getTabTypeIcon tabType =
     (if tabType = ''cwc'' then ''chat'' else if tabType = ''doc'' then ''file'' else if tabType = ''review'' then ''bug''
      else if tabType = ''gumby'' then ''transform'' else if tabType = ''testgen'' then ''check-list''
      else if tabType = ''featuredev'' then ''code-block'' else ''chat'')"

definition tabToDetailedListItem :: "Tab \<Rightarrow> ConversationItem" where
  "tabToDetailedListItem t =
     \<lparr>ci_icon = Some (getTabTypeIcon (tb_tabType t)),
      ci_description = (if tb_isOpen t then ''**'' @ tb_title t @ ''**'' else tb_title t), ci_id = tb_historyId t\<rparr>"

definition sorted_tabs :: "Tab list \<Rightarrow> Tab list" where
  "sorted_tabs = sort_key (\<lambda>t. - tb_updatedAt t)"

definition tab_groups :: "calendar \<Rightarrow> Tab list \<Rightarrow> (string \<times> Tab list) list" where
  "tab_groups c tabs =
     (let st = sorted_tabs tabs
      in [(''Today'', filter (\<lambda>t. tb_updatedAt t \<ge> cal_today c) st),
          (''Yesterday'', filter (\<lambda>t. tb_updatedAt t \<ge> cal_yesterday c \<and> tb_updatedAt t < cal_today c) st),
          (''Last Week'', filter (\<lambda>t. tb_updatedAt t \<ge> cal_lastWeek c \<and> tb_updatedAt t < cal_yesterday c) st),
          (''Last Month'', filter (\<lambda>t. tb_updatedAt t \<ge> cal_lastMonth c \<and> tb_updatedAt t < cal_lastWeek c) st),
          (''Older'', filter (\<lambda>t. tb_updatedAt t < cal_lastMonth c) st)])"

definition groupTabsByDate :: "calendar \<Rightarrow> Tab list \<Rightarrow> ConversationItemGroup list" where
  "groupTabsByDate c tabs =
     map (\<lambda>(n, ts). \<lparr>cg_groupName = Some n, cg_icon = Some ''calendar'', cg_items = map tabToDetailedListItem ts\<rparr>)
       (filter (\<lambda>(_, ts). ts \<noteq> []) (tab_groups c tabs))"

definition no_entry :: "string \<Rightarrow> ConversationItemGroup" where
  "no_entry s = \<lparr>cg_groupName = None, cg_icon = None, cg_items = [\<lparr>ci_icon = None, ci_description = s, ci_id = ''empty''\<rparr>]\<rparr>"

definition db_getHistory :: "calendar \<Rightarrow> ChatDatabase \<Rightarrow> ConversationItemGroup list" where
  "db_getHistory c db =
     (if db_initialized db
      then let gs = groupTabsByDate c (db_tabs db) in if gs = [] then [no_entry ''No chat history found''] else gs
      else [])"

definition matches_filter :: "string \<Rightarrow> Tab \<Rightarrow> bool" where
  "matches_filter s t =
     list_ex (\<lambda>cv. list_ex (\<lambda>m. includes_str (toLowerCase (ms_body m)) (toLowerCase s)) (cv_messages cv)) (tb_conversations t)"

definition searchMessages :: "calendar \<Rightarrow> ChatDatabase \<Rightarrow> string \<Rightarrow> ConversationItemGroup list" where
  "searchMessages c db s =
     (if db_initialized db \<and> s = [] then db_getHistory c db
      else let gs = (if db_initialized db then groupTabsByDate c (filter (matches_filter s) (db_tabs db)) else [])
           in if gs = [] then [no_entry ''No matches found''] else gs)"

section \<open>The history file of a workspace\<close>

text \<open>The hash functions are parameters. Folders are the paths of the workspace folders, if the client tells them.\<close>

definition join_paths :: "string list \<Rightarrow> string" where
  "join_paths ps = concat (case ps of [] \<Rightarrow> [] | p # qs \<Rightarrow> p # map (\<lambda>q. CHR ''|'' # q) qs)"

definition getFolderBasedWorkspaceIdentifier :: "(string \<Rightarrow> string) \<Rightarrow> string list option \<Rightarrow> string" where
  "getFolderBasedWorkspaceIdentifier md5 folders =
     (case folders of
        None \<Rightarrow> ''no-workspace''
      | Some ps \<Rightarrow>
          if length ps > 1 then md5 (join_paths (sort ps))
          else if ps \<noteq> [] \<and> hd ps \<noteq> [] then md5 (hd ps)
          else ''no-workspace'')"

definition getChatDbNameFromWorkspaceId :: "string \<Rightarrow> string" where
  "getChatDbNameFromWorkspaceId i = ''chat-history-'' @ i @ ''.json''"

text \<open>The directory of history files, by name.\<close>

definition migrateHistoryFile :: "(string \<Rightarrow> string) \<Rightarrow> string list option \<Rightarrow> string \<Rightarrow> (string \<times> 'f) list \<Rightarrow> (string \<times> 'f) list" where
  "migrateHistoryFile md5 folders new_name files =
     (let old_name = getChatDbNameFromWorkspaceId (getFolderBasedWorkspaceIdentifier md5 folders)
      in case map_get files old_name of None \<Rightarrow> files | Some f \<Rightarrow> map_set new_name f (map_del old_name files))"

definition getWorkspaceIdentifier ::
    "(string \<Rightarrow> string) \<Rightarrow> (string \<Rightarrow> string) \<Rightarrow> string option \<Rightarrow> string list option \<Rightarrow> (string \<times> 'f) list \<Rightarrow> string \<times> (string \<times> 'f) list" where
  "getWorkspaceIdentifier sha256 md5 workspaceFilePath folders files =
     (case workspaceFilePath of
        None \<Rightarrow> (getFolderBasedWorkspaceIdentifier md5 folders, files)
      | Some p \<Rightarrow>
          if p = [] then (getFolderBasedWorkspaceIdentifier md5 folders, files)
          else let i = sha256 p; name = getChatDbNameFromWorkspaceId i
               in (i, if map_get files name = None then migrateHistoryFile md5 folders name files else files))"

section \<open>Properties\<close>

lemma sorted_desc_split:
  fixes f :: "'a \<Rightarrow> int"
  assumes "sorted (map (\<lambda>t. - f t) xs)"
  shows "filter (\<lambda>t. f t \<ge> k) xs @ filter (\<lambda>t. f t < k) xs = xs"
  using assms
proof (induction xs)
  case (Cons x xs)
  show ?case
  proof (cases "f x \<ge> k")
    case True
    with Cons show ?thesis by simp
  next
    case False
    then have "\<forall>y \<in> set xs. f y < k" using Cons.prems by fastforce
    then have "filter (\<lambda>t. f t \<ge> k) xs = []" "filter (\<lambda>t. f t < k) xs = xs"
      by (auto simp: filter_empty_conv filter_id_conv)
    with False show ?thesis by simp
  qed
qed simp

definition cal_ordered :: "calendar \<Rightarrow> bool" where
  "cal_ordered c = (cal_lastMonth c \<le> cal_lastWeek c \<and> cal_lastWeek c \<le> cal_yesterday c \<and> cal_yesterday c \<le> cal_today c)"

lemma sorted_desc_band:
  fixes f :: "'a \<Rightarrow> int"
  assumes "sorted (map (\<lambda>t. - f t) xs)" and "j \<le> k"
  shows "filter (\<lambda>t. f t \<ge> j \<and> f t < k) xs @ filter (\<lambda>t. f t < j) xs = filter (\<lambda>t. f t < k) xs"
proof -
  have "filter (\<lambda>t. f t \<ge> j) (filter (\<lambda>t. f t < k) xs) @ filter (\<lambda>t. f t < j) (filter (\<lambda>t. f t < k) xs) = filter (\<lambda>t. f t < k) xs"
    using assms(1) by (intro sorted_desc_split) (rule sorted_filter)
  moreover have "filter (\<lambda>t. f t < j) (filter (\<lambda>t. f t < k) xs) = filter (\<lambda>t. f t < j) xs"
    using assms(2) by (auto intro: filter_cong)
  ultimately show ?thesis by (simp add: conj_commute)
qed

lemma tab_groups_concat:
  assumes "cal_ordered c"
  shows "concat (map snd (tab_groups c tabs)) = sorted_tabs tabs"
proof -
  let ?st = "sorted_tabs tabs"
  have s: "sorted (map (\<lambda>t. - tb_updatedAt t) ?st)" by (simp add: sorted_tabs_def)
  show ?thesis
    using assms
    by (simp add: tab_groups_def Let_def cal_ordered_def sorted_desc_band [OF s] sorted_desc_split [OF s])
qed

lemma concat_nonempty_groups: "concat (map snd (filter (\<lambda>(_, ts). ts \<noteq> []) gs)) = concat (map snd gs)"
  by (induction gs) auto

lemma listed_items:
  assumes "cal_ordered c"
  shows "concat (map cg_items (groupTabsByDate c tabs)) = map tabToDetailedListItem (sorted_tabs tabs)"
proof -
  have "concat (map cg_items (groupTabsByDate c tabs)) =
      map tabToDetailedListItem (concat (map snd (filter (\<lambda>(_, ts). ts \<noteq> []) (tab_groups c tabs))))"
    by (simp add: groupTabsByDate_def map_concat comp_def case_prod_unfold)
  then show ?thesis
    by (simp add: concat_nonempty_groups tab_groups_concat [OF assms])
qed

text \<open>
  A search shows exactly the conversations with a message that contains the text, whatever the case of the letters, each once, in
  the order of their last update from the newest to the oldest and in groups that are not empty; without a text
  it shows all of them. Only a list without any entry holds the line that says so.
\<close>

theorem search_lists_matches:
  assumes "cal_ordered c" and "db_initialized db"
  shows "\<exists>found. mset found = mset (filter (\<lambda>t. s = [] \<or> matches_filter s t) (db_tabs db)) \<and> sorted_wrt (\<lambda>t u. tb_updatedAt t \<ge> tb_updatedAt u) found \<and>
     (if found = [] then length (searchMessages c db s) = 1 \<and> map cg_groupName (searchMessages c db s) = [None]
      else concat (map cg_items (searchMessages c db s)) = map tabToDetailedListItem found \<and> list_all (\<lambda>g. cg_items g \<noteq> []) (searchMessages c db s))"
proof -
  define tabs where "tabs = filter (\<lambda>t. s = [] \<or> matches_filter s t) (db_tabs db)"
  let ?gs = "groupTabsByDate c tabs"
  have e: "searchMessages c db s = (if ?gs = [] then [no_entry (if s = [] then ''No chat history found'' else ''No matches found'')] else ?gs)"
    using assms(2) by (simp add: searchMessages_def db_getHistory_def Let_def tabs_def)
  have g: "?gs = [] \<longleftrightarrow> sorted_tabs tabs = []"
  proof -
    have "list_all (\<lambda>g. cg_items g \<noteq> []) ?gs"
      by (auto simp: groupTabsByDate_def list_all_iff)
    then have "?gs = [] \<longleftrightarrow> concat (map cg_items ?gs) = []"
      by (cases ?gs) auto
    then show ?thesis by (simp add: listed_items [OF assms(1)])
  qed
  have "mset (sorted_tabs tabs) = mset tabs" by (simp add: sorted_tabs_def)
  moreover have "sorted_wrt (\<lambda>t u. tb_updatedAt t \<ge> tb_updatedAt u) (sorted_tabs tabs)"
  proof -
    have "sorted (map (\<lambda>t. - tb_updatedAt t) (sorted_tabs tabs))" by (simp add: sorted_tabs_def)
    then show ?thesis by (simp add: sorted_wrt_map)
  qed
  moreover have "list_all (\<lambda>g. cg_items g \<noteq> []) ?gs"
    by (auto simp: groupTabsByDate_def list_all_iff)
  ultimately show ?thesis
    using g listed_items [OF assms(1), of tabs]
    by (intro exI [of _ "sorted_tabs tabs"]) (auto simp: e no_entry_def tabs_def [symmetric])
qed

theorem search_lists_matches_witness:
  "\<exists>found. mset found = mset (filter (\<lambda>t. ''ELL'' = [] \<or> matches_filter ''ELL'' t)
        (db_tabs (addMessage ''h'' 5 ''tab'' ''cwc'' ''c'' (bare_message ''hello'' Prompt) empty_chat_db))) \<and>
     sorted_wrt (\<lambda>t u. tb_updatedAt t \<ge> tb_updatedAt u) found \<and>
     (if found = [] then length (searchMessages \<lparr>cal_today = 4, cal_yesterday = 3, cal_lastWeek = 2, cal_lastMonth = 1\<rparr>
          (addMessage ''h'' 5 ''tab'' ''cwc'' ''c'' (bare_message ''hello'' Prompt) empty_chat_db) ''ELL'') = 1 \<and>
        map cg_groupName (searchMessages \<lparr>cal_today = 4, cal_yesterday = 3, cal_lastWeek = 2, cal_lastMonth = 1\<rparr>
          (addMessage ''h'' 5 ''tab'' ''cwc'' ''c'' (bare_message ''hello'' Prompt) empty_chat_db) ''ELL'') = [None]
      else concat (map cg_items (searchMessages \<lparr>cal_today = 4, cal_yesterday = 3, cal_lastWeek = 2, cal_lastMonth = 1\<rparr>
          (addMessage ''h'' 5 ''tab'' ''cwc'' ''c'' (bare_message ''hello'' Prompt) empty_chat_db) ''ELL'')) = map tabToDetailedListItem found \<and>
        list_all (\<lambda>g. cg_items g \<noteq> []) (searchMessages \<lparr>cal_today = 4, cal_yesterday = 3, cal_lastWeek = 2, cal_lastMonth = 1\<rparr>
          (addMessage ''h'' 5 ''tab'' ''cwc'' ''c'' (bare_message ''hello'' Prompt) empty_chat_db) ''ELL''))"
  by (rule search_lists_matches; code_simp)

text \<open>A history file is taken over at most once and never replaces an existing one.\<close>

lemma migrated_history:
  assumes "getWorkspaceIdentifier sha256 md5 path folders files = (i, files')" and "map_get files (getChatDbNameFromWorkspaceId i) = Some f"
  shows "files' = files"
  using assms by (auto simp: getWorkspaceIdentifier_def Let_def split: option.splits if_splits)

end
