(* ===== verification/Chat_Repair.thy ===== *)
theory Chat_Repair
  imports Complex_Main Chat_Db "HOL-Library.Sublist"
begin

text \<open>
  Preparing the history for a request (\<^verbatim>\<open>fixAndGetHistory\<close> of \<^verbatim>\<open>chatDb.ts\<close>): the repair of the message sequence, the
  repair of the tool results of the new message, and the character counts. The new message is changed in
  place, so every step returns it, also when the step throws.
\<close>

section \<open>Character counts\<close>

text \<open>The lengths of the JSON texts of tool uses, tool results, editor states and tool specifications.\<close>

record json_lengths =
  jl_toolUse :: "ToolUse \<Rightarrow> nat"
  jl_toolResult :: "ToolResult \<Rightarrow> nat"
  jl_editorState :: "ChatEditorState \<Rightarrow> nat"
  jl_tool :: "string \<Rightarrow> nat"

definition listed :: "'a list option \<Rightarrow> 'a list" where
  "listed xs = (case xs of None \<Rightarrow> [] | Some ys \<Rightarrow> ys)"

definition toolResults_of :: "Message \<Rightarrow> ToolResult list" where
  "toolResults_of m = listed (Option.bind (ms_context m) uc_toolResults)"

definition toolUses_of :: "Message \<Rightarrow> ToolUse list" where
  "toolUses_of m = listed (ms_toolUses m)"

definition estimateCharacterCountFromImageBlock :: "nat \<Rightarrow> rat" where
  "estimateCharacterCountFromImageBlock n = (of_nat n / 1000000) * 1100 * 3"

definition message_count :: "json_lengths \<Rightarrow> Message \<Rightarrow> rat" where
  "message_count J m =
     of_nat (length (ms_body m)) + of_nat (sum_list (map (jl_toolUse J) (toolUses_of m)))
     + of_nat (sum_list (map (jl_toolResult J) (toolResults_of m)))
     + (case Option.bind (ms_context m) uc_editorState of None \<Rightarrow> 0 | Some e \<Rightarrow> of_nat (jl_editorState J e))
     + sum_list (map estimateCharacterCountFromImageBlock (listed (ms_images m)))"

definition calculateMessagesCharacterCount :: "json_lengths \<Rightarrow> Message list \<Rightarrow> rat" where
  "calculateMessagesCharacterCount J ms = sum_list (map (message_count J) ms)"

definition user_context :: "StreamingMessage \<Rightarrow> UserInputMessageContext option" where
  "user_context c = (case c of User_message u \<Rightarrow> ui_context u | _ \<Rightarrow> None)"

definition calculateToolSpecCharacterCount :: "json_lengths \<Rightarrow> StreamingMessage \<Rightarrow> nat" where
  "calculateToolSpecCharacterCount J c = sum_list (map (jl_tool J) (listed (Option.bind (user_context c) uc_tools)))"

definition calculateNewMessageCharacterCount :: "json_lengths \<Rightarrow> StreamingMessage \<Rightarrow> StreamingMessage list \<Rightarrow> rat" where
  "calculateNewMessageCharacterCount J c pinned =
     calculateMessagesCharacterCount J [chatMessageToMessage c] + of_nat (calculateToolSpecCharacterCount J c)
     + calculateMessagesCharacterCount J (map chatMessageToMessage pinned)"

section \<open>The message sequence\<close>

definition isValidUserMessageWithoutToolResults :: "Message \<Rightarrow> bool" where
  "isValidUserMessageWithoutToolResults m = (ms_context m \<noteq> None \<and> toolResults_of m = [] \<and> ms_body m \<noteq> [])"

fun drop_invalid_pairs :: "Message list \<Rightarrow> Message list" where
  "drop_invalid_pairs [] = []"
| "drop_invalid_pairs [m] = (if ms_type m = Prompt \<and> \<not> isValidUserMessageWithoutToolResults m then [] else [m])"
| "drop_invalid_pairs (m # m' # ms) =
     (if ms_type m = Prompt \<and> \<not> isValidUserMessageWithoutToolResults m then drop_invalid_pairs ms else m # m' # ms)"

definition ensureValidMessageSequence ::
    "string \<Rightarrow> int \<Rightarrow> string \<Rightarrow> Message list \<Rightarrow> ChatDatabase \<Rightarrow> Message list \<times> ChatDatabase" where
  "ensureValidMessageSequence uuid now tabId messages db =
     (let ms = drop_invalid_pairs (dropWhile (\<lambda>m. ms_type m = Answer) messages)
      in if ms \<noteq> [] \<and> ms_type (last ms) = Prompt
         then (ms @ [dummy_response now],
               addMessage uuid now tabId ''cwc'' (getLatestConversationId db tabId) (dummy_response now) db)
         else (ms, db))"

section \<open>The tool results of the new message\<close>

datatype ToolResultValidationError = Results_without_uses | Empty_message

definition cancelled_result :: "ToolUse \<Rightarrow> ToolResult" where
  "cancelled_result u = \<lparr>tres_toolUseId = tu_toolUseId u, tres_status = Tool_error, tres_content = [''Tool use was cancelled by the user'']\<rparr>"

definition fixed_results :: "ToolUse list \<Rightarrow> ToolResult list \<Rightarrow> ToolResult list" where
  "fixed_results uses results =
     (let ids = remdups (map tu_toolUseId uses);
          valid = filter (\<lambda>r. tres_toolUseId r \<in> set ids) results
      in if length valid < length ids
         then valid @ map cancelled_result (filter (\<lambda>u. \<not> list_ex (\<lambda>r. tres_toolUseId r = tu_toolUseId u) valid) uses)
         else valid)"

definition blank_content :: "string option \<Rightarrow> bool" where
  "blank_content c = (case c of None \<Rightarrow> True | Some s \<Rightarrow> trim s = [])"

definition validateAndFixNewMessageToolResults ::
    "Message list \<Rightarrow> StreamingMessage \<Rightarrow> StreamingMessage \<times> (ToolResultValidationError + unit)" where
  "validateAndFixNewMessageToolResults messages newMsg =
     (case newMsg of
        User_message u \<Rightarrow>
          (case ui_context u of
             None \<Rightarrow> (newMsg, Inr ())
           | Some ctx \<Rightarrow>
               (let results = listed (uc_toolResults ctx)
                in if messages = [] then (newMsg, if results \<noteq> [] then Inl Results_without_uses else Inr ())
                   else let uses = toolUses_of (last messages)
                        in if results \<noteq> [] \<and> uses = [] then (newMsg, Inl Results_without_uses)
                           else let fixed = fixed_results uses results;
                                    newMsg' = User_message (u\<lparr>ui_context := Some (ctx\<lparr>uc_toolResults := Some fixed\<rparr>)\<rparr>)
                                in (newMsg', if fixed = [] \<and> blank_content (ui_content u) then Inl Empty_message else Inr ())))
      | _ \<Rightarrow> (newMsg, Inr ()))"

section \<open>Preparing the history\<close>

record MessagesWithCharacterCount =
  mc_history :: "Message list"
  mc_historyCount :: rat
  mc_currentCount :: rat

definition new_results :: "StreamingMessage \<Rightarrow> ToolResult list" where
  "new_results c = listed (Option.bind (user_context c) uc_toolResults)"

text \<open>The step for a new message whose tool results have lost their history.\<close>

definition abandon_results :: "StreamingMessage \<Rightarrow> StreamingMessage" where
  "abandon_results c =
     (case c of
        User_message u \<Rightarrow>
          User_message (u\<lparr>ui_context := map_option (\<lambda>x. x\<lparr>uc_toolResults := Some []\<rparr>) (ui_context u),
                          ui_content := Some ''The conversation history has overflowed, clearing state''\<rparr>)
      | _ \<Rightarrow> c)"

definition prepend_pinned :: "StreamingMessage list \<Rightarrow> MessagesWithCharacterCount \<Rightarrow> MessagesWithCharacterCount" where
  "prepend_pinned pinned mc =
     (if length pinned = 2 then mc\<lparr>mc_history := map chatMessageToMessage pinned @ mc_history mc\<rparr> else mc)"

definition fixAndGetHistory ::
    "json_lengths \<Rightarrow> string \<Rightarrow> int \<Rightarrow> string \<Rightarrow> StreamingMessage \<Rightarrow> StreamingMessage list \<Rightarrow> ChatDatabase
      \<Rightarrow> ChatDatabase \<times> StreamingMessage \<times> (ToolResultValidationError + MessagesWithCharacterCount)" where
  "fixAndGetHistory J uuid now tabId newMsg pinned db =
     (let newCount = calculateNewMessageCharacterCount J newMsg pinned;
          init = \<lparr>mc_history = [], mc_historyCount = 0, mc_currentCount = newCount\<rparr>
      in if \<not> db_initialized db then (db, newMsg, Inr init)
         else let messages = getMessages db tabId None
              in if messages = [] then (db, newMsg, Inr (prepend_pinned pinned init))
                 else let (ms, db1) = ensureValidMessageSequence uuid now tabId messages db;
                          (newMsg1, checked) = validateAndFixNewMessageToolResults ms newMsg
                      in case checked of
                           Inl e \<Rightarrow> (db1, newMsg1, Inl e)
                         | Inr _ \<Rightarrow>
                             if ms = [] \<and> new_results newMsg1 \<noteq> []
                             then let newMsg2 = abandon_results newMsg1
                                  in (db1, newMsg2, Inr (prepend_pinned pinned
                                        \<lparr>mc_history = ms, mc_historyCount = calculateMessagesCharacterCount J ms,
                                         mc_currentCount = calculateNewMessageCharacterCount J newMsg2 pinned\<rparr>))
                             else (db1, newMsg1, Inr (prepend_pinned pinned
                                     \<lparr>mc_history = ms, mc_historyCount = calculateMessagesCharacterCount J ms, mc_currentCount = newCount\<rparr>)))"

section \<open>What the service is sent\<close>

text \<open>Prompts and answers in turn, from a prompt on; a last prompt may still have no answer.\<close>

fun alternating :: "Message list \<Rightarrow> bool" where
  "alternating [] = True"
| "alternating [m] = (ms_type m = Prompt)"
| "alternating (m # m' # ms) = (ms_type m = Prompt \<and> ms_type m' = Answer \<and> alternating ms)"

text \<open>The documented invariant of a history: complete pairs, the first prompt without tool results.\<close>

definition valid_history :: "Message list \<Rightarrow> bool" where
  "valid_history ms = (alternating ms \<and> even (length ms) \<and>
     (ms \<noteq> [] \<longrightarrow> ms_type (hd ms) = Prompt \<and> toolResults_of (hd ms) = [] \<and> ms_body (hd ms) \<noteq> [] \<and> ms_type (last ms) = Answer))"

lemma alternating_last: "alternating ms \<Longrightarrow> ms \<noteq> [] \<Longrightarrow> ms_type (last ms) = (if even (length ms) then Answer else Prompt)"
  by (induction ms rule: alternating.induct) (auto split: if_splits)

lemma alternating_append_answer: "alternating ms \<Longrightarrow> odd (length ms) \<Longrightarrow> ms_type a = Answer \<Longrightarrow> alternating (ms @ [a])"
  by (induction ms rule: alternating.induct) auto

lemma alternating_drop_invalid_pairs: "alternating ms \<Longrightarrow> alternating (drop_invalid_pairs ms)"
  by (induction ms rule: drop_invalid_pairs.induct) auto

lemma drop_invalid_pairs_hd:
  "drop_invalid_pairs ms \<noteq> [] \<Longrightarrow> ms_type (hd (drop_invalid_pairs ms)) = Prompt
    \<Longrightarrow> isValidUserMessageWithoutToolResults (hd (drop_invalid_pairs ms))"
  by (induction ms rule: drop_invalid_pairs.induct) (auto split: if_splits)

lemma drop_invalid_pairs_suffix: "suffix (drop_invalid_pairs ms) ms"
  by (induction ms rule: drop_invalid_pairs.induct) (auto intro: suffix_ConsI)

lemma alternating_hd: "alternating ms \<Longrightarrow> ms \<noteq> [] \<Longrightarrow> ms_type (hd ms) = Prompt"
  by (cases ms rule: alternating.cases) auto

lemma dummy_response_Answer [simp]: "ms_type (dummy_response now) = Answer"
  by (simp add: dummy_response_def bare_message_def)

text \<open>The part of the messages the repair keeps, and what it adds.\<close>

definition kept_messages :: "Message list \<Rightarrow> Message list" where
  "kept_messages messages = drop_invalid_pairs (dropWhile (\<lambda>m. ms_type m = Answer) messages)"

definition repaired :: "int \<Rightarrow> Message list \<Rightarrow> Message list" where
  "repaired now messages =
     (let ms = kept_messages messages in if ms \<noteq> [] \<and> ms_type (last ms) = Prompt then ms @ [dummy_response now] else ms)"

lemma ensureValid_messages: "fst (ensureValidMessageSequence uuid now tabId messages db) = repaired now messages"
  by (simp add: ensureValidMessageSequence_def repaired_def kept_messages_def Let_def)

lemma kept_suffix: "suffix (kept_messages messages) messages"
  unfolding kept_messages_def
  by (rule suffix_order.trans [OF drop_invalid_pairs_suffix suffix_dropWhile])

lemma repaired_valid:
  assumes "alternating (dropWhile (\<lambda>m. ms_type m = Answer) messages)"
  shows "valid_history (repaired now messages)"
proof -
  let ?ms = "kept_messages messages"
  have alt: "alternating ?ms"
    unfolding kept_messages_def by (rule alternating_drop_invalid_pairs [OF assms])
  have first: "?ms \<noteq> [] \<Longrightarrow> isValidUserMessageWithoutToolResults (hd ?ms)"
    using alternating_hd [OF alt] drop_invalid_pairs_hd unfolding kept_messages_def by blast
  show ?thesis
  proof (cases "?ms = []")
    case True
    then show ?thesis by (simp add: repaired_def valid_history_def)
  next
    case False
    then have l: "ms_type (last ?ms) = (if even (length ?ms) then Answer else Prompt)"
      by (rule alternating_last [OF alt])
    show ?thesis
      using False l first [OF False] alternating_hd [OF alt False] alt alternating_append_answer [OF alt]
      by (auto simp: repaired_def Let_def valid_history_def isValidUserMessageWithoutToolResults_def split: if_splits)
  qed
qed

section \<open>Tool results against tool uses\<close>

lemma fixed_results_known: "r \<in> set (fixed_results uses results) \<Longrightarrow> tres_toolUseId r \<in> tu_toolUseId ` set uses"
  by (auto simp: fixed_results_def Let_def cancelled_result_def split: if_splits)

lemma fixed_results_missing:
  assumes "u \<in> set uses"
  shows "tu_toolUseId u \<in> tres_toolUseId ` (set valid \<union> cancelled_result ` {u \<in> set uses. \<not> list_ex (\<lambda>r. tres_toolUseId r = tu_toolUseId u) valid})"
proof (cases "list_ex (\<lambda>r. tres_toolUseId r = tu_toolUseId u) valid")
  case True
  then obtain r where "r \<in> set valid" "tres_toolUseId r = tu_toolUseId u" by (auto simp: list_ex_iff)
  then show ?thesis by (intro image_eqI [of _ _ r]) simp_all
next
  case False
  with assms show ?thesis by (intro image_eqI [of _ _ "cancelled_result u"]) (auto simp: cancelled_result_def)
qed

lemma full_distinct_filter:
  assumes "distinct (map f xs)" and "length (filter (\<lambda>x. f x \<in> S) xs) \<ge> card S" and "finite S"
  shows "f ` set (filter (\<lambda>x. f x \<in> S) xs) = S"
proof (rule card_subset_eq [OF \<open>finite S\<close>])
  show "f ` set (filter (\<lambda>x. f x \<in> S) xs) \<subseteq> S" by auto
  have "distinct (map f (filter (\<lambda>x. f x \<in> S) xs))"
    using assms(1) by (rule distinct_map_filter)
  then have "card (set (map f (filter (\<lambda>x. f x \<in> S) xs))) = length (filter (\<lambda>x. f x \<in> S) xs)"
    by (simp only: distinct_card length_map)
  then have "card (f ` set (filter (\<lambda>x. f x \<in> S) xs)) = length (filter (\<lambda>x. f x \<in> S) xs)"
    by (simp only: set_map)
  moreover have "card (f ` set (filter (\<lambda>x. f x \<in> S) xs)) \<le> card S"
    by (rule card_mono [OF \<open>finite S\<close>]) auto
  ultimately show "card (f ` set (filter (\<lambda>x. f x \<in> S) xs)) = card S"
    using assms(2) by simp
qed

lemma fixed_results_cover:
  assumes "distinct (map tres_toolUseId results)"
  shows "tres_toolUseId ` set (fixed_results uses results) = tu_toolUseId ` set uses"
proof -
  let ?ids = "remdups (map tu_toolUseId uses)"
  let ?valid = "filter (\<lambda>r. tres_toolUseId r \<in> set ?ids) results"
  have len: "length ?ids = card (tu_toolUseId ` set uses)"
    by (simp add: length_remdups_card_conv)
  show ?thesis
  proof (cases "length ?valid < length ?ids")
    case True
    have "tu_toolUseId u \<in> tres_toolUseId ` set (fixed_results uses results)" if "u \<in> set uses" for u
      using True fixed_results_missing [OF that, of ?valid]
      by (simp only: fixed_results_def Let_def if_True set_append set_map set_filter)
    then show ?thesis
      using fixed_results_known by fast
  next
    case False
    then have "tres_toolUseId ` set (filter (\<lambda>r. tres_toolUseId r \<in> tu_toolUseId ` set uses) results) = tu_toolUseId ` set uses"
      using full_distinct_filter [OF assms, of "tu_toolUseId ` set uses"] len by simp
    with False show ?thesis
      by (simp add: fixed_results_def Let_def)
  qed
qed

lemma fixed_results_Nil: "fixed_results [] results = []"
  by (simp add: fixed_results_def)

lemma fixed_results_nonempty: "uses \<noteq> [] \<Longrightarrow> fixed_results uses results \<noteq> []"
proof -
  assume ne: "uses \<noteq> []"
  let ?ids = "remdups (map tu_toolUseId uses)"
  let ?valid = "filter (\<lambda>r. tres_toolUseId r \<in> set ?ids) results"
  have "?ids \<noteq> []" using ne by simp
  show ?thesis
  proof (cases "?valid = []")
    case True
    then show ?thesis
      using ne \<open>?ids \<noteq> []\<close> unfolding fixed_results_def Let_def True by simp
  next
    case False
    then show ?thesis
      unfolding fixed_results_def Let_def by (simp only: append_is_Nil_conv split: if_split) blast
  qed
qed

lemma fixed_results_empty_iff [simp]: "fixed_results uses results = [] \<longleftrightarrow> uses = []"
  using fixed_results_nonempty fixed_results_Nil by blast

lemma fixed_results_keep: "r \<in> set results \<Longrightarrow> tres_toolUseId r \<in> tu_toolUseId ` set uses \<Longrightarrow> r \<in> set (fixed_results uses results)"
  by (simp add: fixed_results_def Let_def)

text \<open>The tool uses a new message answers.\<close>

definition last_uses :: "Message list \<Rightarrow> ToolUse list" where
  "last_uses ms = (if ms = [] then [] else toolUses_of (last ms))"

definition given_results :: "UserInputMessage \<Rightarrow> ToolResult list" where
  "given_results u = listed (Option.bind (ui_context u) uc_toolResults)"

lemma validate_cases:
  assumes "ui_context u = Some ctx"
  shows "validateAndFixNewMessageToolResults ms (User_message u) =
     (if given_results u \<noteq> [] \<and> last_uses ms = [] then (User_message u, Inl Results_without_uses)
      else if ms = [] then (User_message u, Inr ())
      else (User_message (u\<lparr>ui_context := Some (ctx\<lparr>uc_toolResults := Some (fixed_results (last_uses ms) (given_results u))\<rparr>)\<rparr>),
            if last_uses ms = [] \<and> blank_content (ui_content u) then Inl Empty_message else Inr ()))"
  using assms
  by (simp add: validateAndFixNewMessageToolResults_def given_results_def last_uses_def Let_def)

lemma validate_no_context:
  "user_context c = None \<Longrightarrow> validateAndFixNewMessageToolResults ms c = (c, Inr ())"
  by (cases c) (simp_all add: validateAndFixNewMessageToolResults_def user_context_def)

lemma new_results_User: "new_results (User_message u) = given_results u"
  by (simp add: new_results_def given_results_def user_context_def)

text \<open>An accepted message never carries results into an empty history: the branch that abandons them is never taken.\<close>

lemma accepted_without_history:
  assumes "validateAndFixNewMessageToolResults [] c = (c', Inr r)"
  shows "c' = c \<and> new_results c' = []"
proof (cases "user_context c")
  case None
  then show ?thesis
    using assms validate_no_context [OF None, of "[]"] by (simp add: new_results_def listed_def)
next
  case (Some ctx)
  then obtain u where "c = User_message u" "ui_context u = Some ctx"
    by (cases c) (auto simp: user_context_def)
  then show ?thesis
    using assms validate_cases [of u ctx "[]"] by (auto simp: last_uses_def new_results_User split: if_splits)
qed

text \<open>The shape of a preparation that finds stored messages.\<close>

lemma fixAndGet_unfold:
  assumes "db_initialized db" and "getMessages db tabId None \<noteq> []"
    and "ensureValidMessageSequence uuid now tabId (getMessages db tabId None) db = (ms, db1)"
    and "validateAndFixNewMessageToolResults ms newMsg = (newMsg1, checked)"
    and "\<not> isl checked \<Longrightarrow> \<not> (ms = [] \<and> new_results newMsg1 \<noteq> [])"
  shows "snd (fixAndGetHistory J uuid now tabId newMsg pinned db) =
    (newMsg1, case checked of
       Inl e \<Rightarrow> Inl e
     | Inr _ \<Rightarrow> Inr (prepend_pinned pinned \<lparr>mc_history = ms, mc_historyCount = calculateMessagesCharacterCount J ms,
                    mc_currentCount = calculateNewMessageCharacterCount J newMsg pinned\<rparr>))"
  using assms by (cases checked) (auto simp: fixAndGetHistory_def)

lemma fixAndGet_stored:
  assumes "db_initialized db" and "getMessages db tabId None \<noteq> []"
    and v: "validateAndFixNewMessageToolResults (repaired now (getMessages db tabId None)) newMsg = (newMsg1, checked)"
  shows "snd (fixAndGetHistory J uuid now tabId newMsg pinned db) =
    (newMsg1, case checked of
       Inl e \<Rightarrow> Inl e
     | Inr _ \<Rightarrow> Inr (prepend_pinned pinned
          \<lparr>mc_history = repaired now (getMessages db tabId None),
           mc_historyCount = calculateMessagesCharacterCount J (repaired now (getMessages db tabId None)),
           mc_currentCount = calculateNewMessageCharacterCount J newMsg pinned\<rparr>))"
proof (rule fixAndGet_unfold [OF assms(1,2) _ v])
  show "ensureValidMessageSequence uuid now tabId (getMessages db tabId None) db =
      (repaired now (getMessages db tabId None), snd (ensureValidMessageSequence uuid now tabId (getMessages db tabId None) db))"
    by (rule prod_eqI) (simp_all only: ensureValid_messages fst_conv snd_conv)
  assume "\<not> isl checked"
  then obtain x where "checked = Inr x" by (cases checked) simp_all
  then show "\<not> (repaired now (getMessages db tabId None) = [] \<and> new_results newMsg1 \<noteq> [])"
    using accepted_without_history [of newMsg newMsg1 x] v by auto
qed

lemma fixAndGet_nothing_stored:
  assumes "db_initialized db" and "getMessages db tabId None = []"
  shows "snd (fixAndGetHistory J uuid now tabId newMsg pinned db) =
    (newMsg, Inr (prepend_pinned pinned \<lparr>mc_history = [], mc_historyCount = 0,
        mc_currentCount = calculateNewMessageCharacterCount J newMsg pinned\<rparr>))"
  using assms by (simp add: fixAndGetHistory_def Let_def)

lemma prepend_pinned_simps [simp]:
  "mc_history (prepend_pinned pinned mc) = (if length pinned = 2 then map chatMessageToMessage pinned else []) @ mc_history mc"
  "mc_historyCount (prepend_pinned pinned mc) = mc_historyCount mc"
  "mc_currentCount (prepend_pinned pinned mc) = mc_currentCount mc"
  by (simp_all add: prepend_pinned_def)

lemma repaired_Nil [simp]: "repaired now [] = []"
  by (simp add: repaired_def kept_messages_def)

lemma fixAndGet_history:
  assumes "fixAndGetHistory J uuid now tabId newMsg pinned db = (db', newMsg', Inr mc)" and "db_initialized db"
  shows "mc_history mc = (if length pinned = 2 then map chatMessageToMessage pinned else []) @ repaired now (getMessages db tabId None)"
    and "mc_historyCount mc = calculateMessagesCharacterCount J (repaired now (getMessages db tabId None))"
    and "getMessages db tabId None \<noteq> [] \<Longrightarrow>
          validateAndFixNewMessageToolResults (repaired now (getMessages db tabId None)) newMsg = (newMsg', Inr ())"
proof -
  let ?ms = "repaired now (getMessages db tabId None)"
  obtain new1 checked where v: "validateAndFixNewMessageToolResults ?ms newMsg = (new1, checked)"
    by fastforce
  have r: "snd (fixAndGetHistory J uuid now tabId newMsg pinned db) = (newMsg', Inr mc)"
    by (simp only: assms(1) snd_conv)
  have none: "Inr (prepend_pinned pinned \<lparr>mc_history = [], mc_historyCount = 0,
        mc_currentCount = calculateNewMessageCharacterCount J newMsg pinned\<rparr>) = (Inr mc :: ToolResultValidationError + _)"
    if "getMessages db tabId None = []"
    using fixAndGet_nothing_stored [OF assms(2) that, of J uuid now newMsg pinned] r by (simp only: prod.inject)
  have stored: "new1 = newMsg' \<and> checked = Inr () \<and> mc = prepend_pinned pinned \<lparr>mc_history = ?ms,
      mc_historyCount = calculateMessagesCharacterCount J ?ms, mc_currentCount = calculateNewMessageCharacterCount J newMsg pinned\<rparr>"
    if "getMessages db tabId None \<noteq> []"
    using fixAndGet_stored [OF assms(2) that v, of J uuid pinned] r
    by (cases checked) (simp_all only: prod.inject sum.case sum.inject sum.distinct simp_thms unit_eq)
  show "mc_history mc = (if length pinned = 2 then map chatMessageToMessage pinned else []) @ ?ms"
    using stored none by (cases "getMessages db tabId None = []") auto
  show "mc_historyCount mc = calculateMessagesCharacterCount J ?ms"
    using stored none by (cases "getMessages db tabId None = []") (auto simp: calculateMessagesCharacterCount_def)
  show "validateAndFixNewMessageToolResults ?ms newMsg = (newMsg', Inr ())" if "getMessages db tabId None \<noteq> []"
    using stored [OF that] v by (simp only:)
qed

text \<open>A tab with a prompt, an answer that uses two tools, and a new message with one result.\<close>

definition sample_context :: "ToolResult list \<Rightarrow> UserInputMessageContext" where
  "sample_context rs = \<lparr>uc_editorState = None, uc_toolResults = Some rs, uc_tools = None\<rparr>"

definition sample_use :: "string \<Rightarrow> ToolUse" where
  "sample_use i = \<lparr>tu_toolUseId = Some i, tu_name = Some ''fsRead'', tu_input = []\<rparr>"

definition sample_result :: "string \<Rightarrow> ToolResult" where
  "sample_result i = \<lparr>tres_toolUseId = Some i, tres_status = Tool_success, tres_content = [''done'']\<rparr>"

definition sample_db :: "Message list \<Rightarrow> ChatDatabase" where
  "sample_db ms = \<lparr>db_initialized = True,
     db_tabs = [new_tab ''h'' 0 ''cwc'' ''t'' [\<lparr>cv_conversationId = ''c'', cv_clientType = ''x'', cv_updatedAt = None, cv_messages = ms\<rparr>] None],
     db_historyIdMapping = [(''tab'', ''h'')], db_settings = None, db_defaultPinned = [], db_clientType = ''x''\<rparr>"

definition sample_messages :: "Message list" where
  "sample_messages = [(bare_message ''fix it'' Prompt)\<lparr>ms_context := Some (sample_context [])\<rparr>,
     (bare_message ''reading'' Answer)\<lparr>ms_toolUses := Some [sample_use ''a'', sample_use ''b'']\<rparr>]"

definition sample_new :: "ToolResult list \<Rightarrow> StreamingMessage" where
  "sample_new rs = User_message \<lparr>ui_content = Some [], ui_userIntent = None, ui_origin = None, ui_context = Some (sample_context rs), ui_images = None\<rparr>"

definition sample_lengths :: json_lengths where
  "sample_lengths = \<lparr>jl_toolUse = \<lambda>_. 3, jl_toolResult = \<lambda>_. 2, jl_editorState = \<lambda>_. 5, jl_tool = length\<rparr>"

lemmas sample_defs = sample_context_def sample_use_def sample_result_def sample_db_def sample_messages_def sample_new_def sample_lengths_def

definition sample_run :: "ChatDatabase \<times> StreamingMessage \<times> (ToolResultValidationError + MessagesWithCharacterCount)" where
  "sample_run = fixAndGetHistory sample_lengths ''u'' 7 ''tab'' (sample_new [sample_result ''a'']) [] (sample_db sample_messages)"

lemma sample_run_succeeds:
  "sample_run = (fst sample_run, fst (snd sample_run), Inr (projr (snd (snd sample_run))))"
  by code_simp

text \<open>
  C19. Whatever the tab has stored, as long as prompts and answers alternate after the leading answers, the history
  sent with a request consists of the pinned pair, if there is one, and a sequence of complete pairs that starts
  with a prompt with text and without tool results and ends with an answer; apart from a placeholder answer to
  a last prompt it is a suffix of the stored messages, and the history count is the count of that sequence.
\<close>

theorem sent_history_valid:
  assumes "fixAndGetHistory J uuid now tabId newMsg pinned db = (db', newMsg', Inr mc)" and "db_initialized db"
    and "alternating (dropWhile (\<lambda>m. ms_type m = Answer) (getMessages db tabId None))"
  shows "\<exists>ms kept. mc_history mc = (if length pinned = 2 then map chatMessageToMessage pinned else []) @ ms \<and> valid_history ms \<and>
     suffix kept (getMessages db tabId None) \<and> ms \<in> {kept, kept @ [dummy_response now]} \<and>
     mc_historyCount mc = calculateMessagesCharacterCount J ms"
proof (intro exI conjI)
  show "mc_history mc = (if length pinned = 2 then map chatMessageToMessage pinned else []) @ repaired now (getMessages db tabId None)"
    by (rule fixAndGet_history(1) [OF assms(1,2)])
  show "valid_history (repaired now (getMessages db tabId None))"
    by (rule repaired_valid [OF assms(3)])
  show "suffix (kept_messages (getMessages db tabId None)) (getMessages db tabId None)"
    by (rule kept_suffix)
  show "repaired now (getMessages db tabId None) \<in> {kept_messages (getMessages db tabId None), kept_messages (getMessages db tabId None) @ [dummy_response now]}"
    by (simp add: repaired_def Let_def)
  show "mc_historyCount mc = calculateMessagesCharacterCount J (repaired now (getMessages db tabId None))"
    by (rule fixAndGet_history(2) [OF assms(1,2)])
qed

theorem sent_history_valid_witness:
  "\<exists>ms kept. mc_history (projr (snd (snd sample_run))) = (if length ([] :: StreamingMessage list) = 2 then map chatMessageToMessage [] else []) @ ms \<and>
     valid_history ms \<and> suffix kept (getMessages (sample_db sample_messages) ''tab'' None) \<and> ms \<in> {kept, kept @ [dummy_response 7]} \<and>
     mc_historyCount (projr (snd (snd sample_run))) = calculateMessagesCharacterCount sample_lengths ms"
proof (rule sent_history_valid)
  show "fixAndGetHistory sample_lengths ''u'' 7 ''tab'' (sample_new [sample_result ''a'']) [] (sample_db sample_messages) =
      (fst sample_run, fst (snd sample_run), Inr (projr (snd (snd sample_run))))"
    using sample_run_succeeds by (simp only: sample_run_def)
qed code_simp+


definition sample_input :: UserInputMessage where
  "sample_input = \<lparr>ui_content = Some [], ui_userIntent = None, ui_origin = None, ui_context = Some (sample_context [sample_result ''a'']), ui_images = None\<rparr>"


text \<open>
  A request is refused in exactly two situations, both only for a new message with a context and a tab with stored messages:
  the message has tool results and the last message of the repaired history has no tool uses (or nothing is
  left of the history), or there is a history, it expects no results and the message has neither results nor text.
\<close>

theorem refused_requests:
  "snd (snd (fixAndGetHistory J uuid now tabId newMsg pinned db)) = Inl e \<longleftrightarrow>
     db_initialized db \<and> getMessages db tabId None \<noteq> [] \<and>
     (\<exists>u ctx. newMsg = User_message u \<and> ui_context u = Some ctx \<and> last_uses (repaired now (getMessages db tabId None)) = [] \<and>
        (if e = Results_without_uses then listed (uc_toolResults ctx) \<noteq> []
         else listed (uc_toolResults ctx) = [] \<and> repaired now (getMessages db tabId None) \<noteq> [] \<and> blank_content (ui_content u)))"
proof (cases "db_initialized db \<and> getMessages db tabId None \<noteq> []")
  case False
  then show ?thesis
    by (auto simp: fixAndGetHistory_def Let_def)
next
  case True
  let ?ms = "repaired now (getMessages db tabId None)"
  obtain new1 checked where v: "validateAndFixNewMessageToolResults ?ms newMsg = (new1, checked)" by fastforce
  have l: "snd (snd (fixAndGetHistory J uuid now tabId newMsg pinned db)) = Inl e \<longleftrightarrow> checked = Inl e"
    using fixAndGet_stored [OF _ _ v, of J uuid pinned] True by (cases checked) simp_all
  show ?thesis
  proof (cases "user_context newMsg")
    case None
    then have "checked = Inr ()" using v validate_no_context [OF None, of ?ms] by simp
    moreover have "\<not> (\<exists>u ctx. newMsg = User_message u \<and> ui_context u = Some ctx)"
      using None by (auto simp: user_context_def)
    ultimately show ?thesis unfolding l by auto
  next
    case (Some ctx)
    then obtain u where u: "newMsg = User_message u" "ui_context u = Some ctx"
      by (cases newMsg) (auto simp: user_context_def)
    have "checked = snd (validateAndFixNewMessageToolResults ?ms (User_message u))"
      using v u(1) by simp
    then have "checked = Inl e \<longleftrightarrow> last_uses ?ms = [] \<and> (if e = Results_without_uses then given_results u \<noteq> []
         else given_results u = [] \<and> ?ms \<noteq> [] \<and> blank_content (ui_content u))"
      by (cases e) (auto simp: validate_cases [OF u(2)] last_uses_def split: if_splits)
    then show ?thesis
      unfolding l using True u by (simp add: given_results_def)
  qed
qed

section \<open>Where the preparation falls short\<close>

text \<open>Two results for one tool use hide that another one has none: no cancelled result is added for it.\<close>

lemma duplicate_result_hides_missing:
  "fixed_results [sample_use ''a'', sample_use ''b''] [sample_result ''a'', sample_result ''a''] = [sample_result ''a'', sample_result ''a'']"
  by code_simp

text \<open>The images of the new message do not enter the count of the request, those of stored messages do.\<close>

lemma new_images_uncounted:
  "calculateNewMessageCharacterCount J (User_message (u\<lparr>ui_images := xs\<rparr>)) pinned = calculateNewMessageCharacterCount J (User_message u) pinned"
  by (simp add: calculateNewMessageCharacterCount_def calculateToolSpecCharacterCount_def chatMessageToMessage_def user_context_def)

end
