(* ===== verification/Chat_Maintainer.thy ===== *)
theory Chat_Maintainer
  imports Chat_Repair Chat_Tabs
begin

text \<open>
  The maintenance of the history files of all workspaces (\<^verbatim>\<open>chatHistoryMaintainer.ts\<close>, with the queue of \<^verbatim>\<open>util.ts\<close>): when the files
  are larger than allowed together, the oldest message pairs are removed until they are small enough.

  The priority queue is a third-party package: a queue is the list of its items in any order, and \<^verbatim>\<open>dequeue\<close> is a
  parameter. The size of a file is a parameter as well, a function of what was last saved; saving may fail.
\<close>

section \<open>The queue of tabs\<close>

record queue_item =
  qi_tab :: Tab
  qi_dbName :: string
  qi_oldestMessageDate :: int

type_synonym dbs = "(string \<times> Tab list) list"
type_synonym dequeue = "queue_item list \<Rightarrow> (queue_item \<times> queue_item list) option"

fun oldest_of_conversations :: "Conversation list \<Rightarrow> int" where
  "oldest_of_conversations [] = 0"
| "oldest_of_conversations (c # cs) =
     (case cv_messages c of
        [] \<Rightarrow> oldest_of_conversations cs
      | m # _ \<Rightarrow> (case ms_timestamp m of None \<Rightarrow> 0 | Some t \<Rightarrow> t))"

definition getOldestMessageTimestamp :: "Tab \<Rightarrow> int" where
  "getOldestMessageTimestamp t = oldest_of_conversations (tb_conversations t)"

text \<open>A positive value means that the first item leaves the queue first.\<close>

definition tabDateComparator :: "queue_item \<Rightarrow> queue_item \<Rightarrow> int" where
  "tabDateComparator a b =
     (if qi_oldestMessageDate a = 0 \<and> qi_oldestMessageDate b = 0 then tb_updatedAt (qi_tab b) - tb_updatedAt (qi_tab a)
      else qi_oldestMessageDate b - qi_oldestMessageDate a)"

definition queue_entry :: "string \<Rightarrow> Tab \<Rightarrow> queue_item" where
  "queue_entry dbName t = \<lparr>qi_tab = t, qi_dbName = dbName, qi_oldestMessageDate = getOldestMessageTimestamp t\<rparr>"

section \<open>Removing messages\<close>

definition removeOldestMessagePairFromTab :: "Tab \<Rightarrow> Tab option" where
  "removeOldestMessagePairFromTab t =
     (case tb_conversations t of
        [] \<Rightarrow> None
      | c # cs \<Rightarrow>
          Some (if length (cv_messages c) > 2 then t\<lparr>tb_conversations := c\<lparr>cv_messages := drop 2 (cv_messages c)\<rparr> # cs\<rparr>
                else t\<lparr>tb_conversations := cs\<rparr>))"

definition messagePairPerBatchDelete :: nat where "messagePairPerBatchDelete = 5"
definition batchDeleteIterations :: nat where "batchDeleteIterations = 200"
definition maxTrimIterations :: nat where "maxTrimIterations = 100"
definition maxHistorySizeInBytes :: nat where "maxHistorySizeInBytes = 200 * 1024 * 1024"
definition targetHistorySizeInBytes :: nat where "targetHistorySizeInBytes = 150 * 1024 * 1024"

fun remove_pairs :: "nat \<Rightarrow> Tab \<Rightarrow> Tab" where
  "remove_pairs 0 t = t"
| "remove_pairs (Suc n) t = (case removeOldestMessagePairFromTab t of None \<Rightarrow> t | Some t' \<Rightarrow> remove_pairs n t')"

definition change_db :: "string \<Rightarrow> (Tab list \<Rightarrow> Tab list) \<Rightarrow> dbs \<Rightarrow> dbs" where
  "change_db dbName f ds = map (\<lambda>(n, ts). (n, if n = dbName then f ts else ts)) ds"

definition update_in_db :: "string \<Rightarrow> Tab \<Rightarrow> dbs \<Rightarrow> dbs" where
  "update_in_db dbName t = change_db dbName (map (\<lambda>u. if tb_historyId u = tb_historyId t then t else u))"

definition remove_from_db :: "string \<Rightarrow> Tab \<Rightarrow> dbs \<Rightarrow> dbs" where
  "remove_from_db dbName t = change_db dbName (filter (\<lambda>u. tb_historyId u \<noteq> tb_historyId t))"

fun batch_loop :: "dequeue \<Rightarrow> nat \<Rightarrow> queue_item list \<Rightarrow> dbs \<Rightarrow> string list \<Rightarrow> queue_item list \<times> dbs \<times> string list" where
  "batch_loop deq 0 q ds changed = (q, ds, changed)"
| "batch_loop deq (Suc n) q ds changed =
     (case deq q of
        None \<Rightarrow> (q, ds, changed)
      | Some (x, q') \<Rightarrow>
          if qi_dbName x = [] then (q', ds, changed)
          else let name = qi_dbName x; t = remove_pairs messagePairPerBatchDelete (qi_tab x)
               in if tb_conversations t = [] then batch_loop deq n q' (remove_from_db name t ds) (List.insert name changed)
                  else batch_loop deq n (queue_entry name t # q') (update_in_db name t ds) (List.insert name changed))"

definition batchDeleteMessagePairs :: "dequeue \<Rightarrow> queue_item list \<Rightarrow> dbs \<Rightarrow> queue_item list \<times> dbs \<times> string list" where
  "batchDeleteMessagePairs deq q ds = batch_loop deq (batchDeleteIterations div 2) q ds []"

section \<open>The files\<close>

text \<open>
  \<^verbatim>\<open>fsize saved name\<close> is the size of a file when \<^verbatim>\<open>saved\<close> was last saved, or nothing when it cannot be read;
  \<^verbatim>\<open>saves i name\<close> tells whether the save after batch \<^verbatim>\<open>i\<close> succeeds.
\<close>

definition calculateAllHistorySize :: "(dbs \<Rightarrow> string \<Rightarrow> nat option) \<Rightarrow> dbs \<Rightarrow> string list \<Rightarrow> nat" where
  "calculateAllHistorySize fsize saved files = sum_list (map (\<lambda>f. case fsize saved f of None \<Rightarrow> 0 | Some n \<Rightarrow> n) files)"

definition saveUpdatedDbs :: "(string \<Rightarrow> bool) \<Rightarrow> dbs \<Rightarrow> string list \<Rightarrow> dbs \<Rightarrow> dbs" where
  "saveUpdatedDbs ok ds changed saved =
     fold (\<lambda>(n, ts) s. if n \<in> set changed \<and> ok n then map_set n ts s else s) ds saved"

text \<open>The argument counts the batches that may still run; the result counts those that ran.\<close>

fun runHistoryTrimmingLoop ::
    "dequeue \<Rightarrow> (dbs \<Rightarrow> string \<Rightarrow> nat option) \<Rightarrow> (nat \<Rightarrow> string \<Rightarrow> bool) \<Rightarrow> nat \<Rightarrow> nat \<Rightarrow> queue_item list \<Rightarrow> dbs \<Rightarrow> dbs
      \<Rightarrow> nat \<times> queue_item list \<times> dbs \<times> dbs" where
  "runHistoryTrimmingLoop deq fsize saves left batches q ds saved =
     (if q = [] \<or> calculateAllHistorySize fsize saved (map fst ds) \<le> targetHistorySizeInBytes then (batches, q, ds, saved)
      else case left of
             0 \<Rightarrow> (batches, q, ds, saved)
           | Suc left' \<Rightarrow>
               (let (q', ds', changed) = batchDeleteMessagePairs deq q ds
                in runHistoryTrimmingLoop deq fsize saves left' (Suc batches) q' ds' (saveUpdatedDbs (saves batches) ds' changed saved)))"

declare runHistoryTrimmingLoop.simps [simp del]

definition isDatabaseFile :: "string \<Rightarrow> bool" where
  "isDatabaseFile name = (prefix ''chat-history-'' name \<and> suffix ''.json'' name)"

text \<open>The directory as its entries with their names and whether they are files; nothing when it cannot be listed.\<close>

definition listDatabaseFiles :: "(string \<times> bool) list option \<Rightarrow> string list" where
  "listDatabaseFiles entries = map fst (filter (\<lambda>(n, isFile). isFile \<and> isDatabaseFile n) (case entries of None \<Rightarrow> [] | Some es \<Rightarrow> es))"

text \<open>The tabs of a file; nothing when it cannot be loaded or has no collection of tabs. The current database is always in.\<close>

definition loadAllDbFiles :: "string \<Rightarrow> Tab list \<Rightarrow> (string \<Rightarrow> Tab list option) \<Rightarrow> string list \<Rightarrow> dbs" where
  "loadAllDbFiles current currentTabs load files =
     fold (\<lambda>f m. if f = current then map_set f currentTabs m
                 else case load f of None \<Rightarrow> m | Some ts \<Rightarrow> if ts = [] then m else map_set f ts m) files []"

definition initial_queue :: "dbs \<Rightarrow> queue_item list" where
  "initial_queue ds = concat (map (\<lambda>(n, ts). map (queue_entry n) ts) ds)"

definition trimHistoryForAllWorkspaces ::
    "dequeue \<Rightarrow> (dbs \<Rightarrow> string \<Rightarrow> nat option) \<Rightarrow> (nat \<Rightarrow> string \<Rightarrow> bool) \<Rightarrow> dbs \<Rightarrow> nat \<times> queue_item list \<times> dbs \<times> dbs" where
  "trimHistoryForAllWorkspaces deq fsize saves ds =
     runHistoryTrimmingLoop deq fsize saves maxTrimIterations 0 (initial_queue ds) ds []"

definition trimHistoryToMaxSize ::
    "dequeue \<Rightarrow> (dbs \<Rightarrow> string \<Rightarrow> nat option) \<Rightarrow> (nat \<Rightarrow> string \<Rightarrow> bool) \<Rightarrow> (string \<times> bool) list option \<Rightarrow> string \<Rightarrow> Tab list
      \<Rightarrow> (string \<Rightarrow> Tab list option) \<Rightarrow> (nat \<times> queue_item list \<times> dbs \<times> dbs) option" where
  "trimHistoryToMaxSize deq fsize saves entries current currentTabs load =
     (let files = listDatabaseFiles entries
      in if calculateAllHistorySize fsize [] files \<le> maxHistorySizeInBytes then None
         else Some (trimHistoryForAllWorkspaces deq fsize saves (loadAllDbFiles current currentTabs load files)))"

section \<open>What is removed\<close>

lemma remove_pairs_add: "remove_pairs m (remove_pairs n t) = remove_pairs (n + m) t"
proof (induction n arbitrary: t)
  case (Suc n)
  have "removeOldestMessagePairFromTab t = None \<Longrightarrow> remove_pairs m t = t"
    by (cases m) simp_all
  with Suc show ?case by (simp split: option.split)
qed simp

lemma remove_pairs_historyId [simp]: "tb_historyId (remove_pairs n t) = tb_historyId t"
  by (induction n arbitrary: t) (auto simp: removeOldestMessagePairFromTab_def split: option.splits list.splits)

lemma remove_one_suffix: "removeOldestMessagePairFromTab t = Some t' \<Longrightarrow> suffix (tab_messages t') (tab_messages t)"
  by (auto simp: removeOldestMessagePairFromTab_def tab_messages_def suffix_drop suffixI split: list.splits if_splits)

lemma remove_pairs_suffix: "suffix (tab_messages (remove_pairs n t)) (tab_messages t)"
proof (induction n arbitrary: t)
  case (Suc n)
  show ?case
  proof (cases "removeOldestMessagePairFromTab t")
    case None
    then show ?thesis by simp
  next
    case (Some t')
    then show ?thesis using suffix_order.trans [OF Suc.IH [of t'] remove_one_suffix [OF Some]] by simp
  qed
qed simp

text \<open>A conversation of complete pairs.\<close>

definition paired :: "Conversation \<Rightarrow> bool" where
  "paired c = (alternating (cv_messages c) \<and> even (length (cv_messages c)))"

lemma alternating_drop2: "alternating ms \<Longrightarrow> alternating (drop 2 ms)"
  by (cases ms rule: alternating.cases) (auto simp: numeral_2_eq_2)

lemma alternating_append: "alternating xs \<Longrightarrow> even (length xs) \<Longrightarrow> alternating ys \<Longrightarrow> alternating (xs @ ys)"
  by (induction xs rule: alternating.induct) auto

lemma remove_pairs_paired: "list_all paired (tb_conversations t) \<Longrightarrow> list_all paired (tb_conversations (remove_pairs n t))"
proof (induction n arbitrary: t)
  case (Suc n)
  then show ?case
    by (auto simp: removeOldestMessagePairFromTab_def paired_def alternating_drop2 split: option.splits list.splits)
qed simp

lemma paired_alternating: "list_all paired cs \<Longrightarrow> alternating (concat (map cv_messages cs))"
  by (induction cs) (simp_all add: paired_def alternating_append)

text \<open>A tab of a database that is one of the original tabs of that database without its oldest pairs.\<close>

definition tabs_in :: "dbs \<Rightarrow> string \<Rightarrow> Tab set" where
  "tabs_in ds n = {t. \<exists>ts. (n, ts) \<in> set ds \<and> t \<in> set ts}"

definition shortened :: "dbs \<Rightarrow> string \<Rightarrow> Tab \<Rightarrow> bool" where
  "shortened orig n t = (\<exists>k. \<exists>t0 \<in> tabs_in orig n. t = remove_pairs k t0)"

definition trim_inv :: "dbs \<Rightarrow> queue_item list \<Rightarrow> dbs \<Rightarrow> bool" where
  "trim_inv orig q ds = ((\<forall>n. \<forall>t \<in> tabs_in ds n. shortened orig n t) \<and> (\<forall>x \<in> set q. shortened orig (qi_dbName x) (qi_tab x)))"

lemma tabs_in_change: "tabs_in (change_db name f ds) n = (if n = name then {t. \<exists>ts. (n, ts) \<in> set ds \<and> t \<in> set (f ts)} else tabs_in ds n)"
  by (force simp: tabs_in_def change_db_def)

lemma tabs_in_update: "tabs_in (update_in_db name t ds) n \<subseteq> tabs_in ds n \<union> (if n = name then {t} else {})"
  unfolding update_in_db_def tabs_in_change by (auto simp: tabs_in_def split: if_splits)

lemma tabs_in_remove: "tabs_in (remove_from_db name t ds) n \<subseteq> tabs_in ds n"
  unfolding remove_from_db_def tabs_in_change by (auto simp: tabs_in_def split: if_splits)

lemma shortened_more: "shortened orig n t \<Longrightarrow> shortened orig n (remove_pairs k t)"
  unfolding shortened_def using remove_pairs_add by metis

text \<open>What the package promises of its queue: the item that leaves it is one of the greatest.\<close>

definition dequeues_greatest :: "dequeue \<Rightarrow> bool" where
  "dequeues_greatest deq = (\<forall>q. case deq q of
     None \<Rightarrow> q = []
   | Some (x, q') \<Rightarrow> mset q = add_mset x (mset q') \<and> (\<forall>y \<in> set q'. tabDateComparator x y \<ge> 0))"

lemma dequeued_items:
  assumes "dequeues_greatest deq" and "deq q = Some (x, q')"
  shows "set q = insert x (set q')"
proof -
  have "mset q = add_mset x (mset q')"
    using assms by (auto simp: dequeues_greatest_def split: option.splits)
  then show ?thesis by (metis set_mset_add_mset_insert set_mset_mset)
qed

lemma dequeued_oldest:
  assumes "dequeues_greatest deq" and "deq q = Some (x, q')" and "y \<in> set q"
  shows "qi_oldestMessageDate x \<le> qi_oldestMessageDate y"
proof -
  have "y = x \<or> tabDateComparator x y \<ge> 0"
    using assms(1) dequeued_items [OF assms(1,2)] assms(2,3)
    by (auto simp: dequeues_greatest_def dest!: spec [of _ q])
  then show ?thesis by (auto simp: tabDateComparator_def split: if_splits)
qed

lemma batch_loop_inv:
  assumes "dequeues_greatest deq" and "trim_inv orig q ds" and "batch_loop deq n q ds changed = (q', ds', changed')"
  shows "trim_inv orig q' ds' \<and> map fst ds' = map fst ds"
  using assms(2,3)
proof (induction n arbitrary: q ds changed)
  case (Suc n)
  show ?case
  proof (cases "deq q")
    case None
    with Suc.prems show ?thesis by simp
  next
    case (Some p)
    then obtain x q1 where d: "deq q = Some (x, q1)" by (cases p) auto
    note items = dequeued_items [OF assms(1) d]
    let ?t = "remove_pairs messagePairPerBatchDelete (qi_tab x)"
    have x: "shortened orig (qi_dbName x) ?t"
      using Suc.prems(1) items by (simp add: trim_inv_def shortened_more)
    have "trim_inv orig q1 (remove_from_db (qi_dbName x) ?t ds)"
      using Suc.prems(1) items by (auto simp: trim_inv_def dest!: subsetD [OF tabs_in_remove])
    moreover have "trim_inv orig (queue_entry (qi_dbName x) ?t # q1) (update_in_db (qi_dbName x) ?t ds)"
      using Suc.prems(1) items x
      by (auto simp: trim_inv_def queue_entry_def split: if_splits dest!: subsetD [OF tabs_in_update])
    moreover have "map fst (change_db name f ds) = map fst ds" for name f
      by (auto simp: change_db_def)
    moreover have "trim_inv orig q1 ds" using Suc.prems(1) items by (simp add: trim_inv_def)
    ultimately show ?thesis
      using Suc.prems(2) Suc.IH [of q1 "remove_from_db (qi_dbName x) ?t ds"] Suc.IH [of "queue_entry (qi_dbName x) ?t # q1" "update_in_db (qi_dbName x) ?t ds"]
      by (auto simp: d Let_def update_in_db_def remove_from_db_def split: if_splits)
  qed
qed simp

lemma loop_stop:
  "calculateAllHistorySize fsize saved (map fst ds) \<le> targetHistorySizeInBytes
    \<Longrightarrow> runHistoryTrimmingLoop deq fsize saves left batches q ds saved = (batches, q, ds, saved)"
  by (subst runHistoryTrimmingLoop.simps) simp

lemma loop_step:
  "q \<noteq> [] \<Longrightarrow> targetHistorySizeInBytes < calculateAllHistorySize fsize saved (map fst ds) \<Longrightarrow> batchDeleteMessagePairs deq q ds = (q', ds', changed)
    \<Longrightarrow> runHistoryTrimmingLoop deq fsize saves (Suc left) batches q ds saved =
        runHistoryTrimmingLoop deq fsize saves left (Suc batches) q' ds' (saveUpdatedDbs (saves batches) ds' changed saved)"
  by (subst runHistoryTrimmingLoop.simps) simp

lemma trimming_loop_inv:
  assumes "dequeues_greatest deq"
  shows "trim_inv orig q ds \<Longrightarrow> runHistoryTrimmingLoop deq fsize saves left batches q ds saved = (b, q', ds', saved')
    \<Longrightarrow> trim_inv orig q' ds' \<and> map fst ds' = map fst ds"
proof (induction left arbitrary: batches q ds saved)
  case 0
  then show ?case by (subst (asm) runHistoryTrimmingLoop.simps) (auto split: if_splits)
next
  case (Suc left)
  obtain q1 ds1 changed where b: "batchDeleteMessagePairs deq q ds = (q1, ds1, changed)" by (metis prod_cases3)
  then have i: "trim_inv orig q1 ds1 \<and> map fst ds1 = map fst ds"
    unfolding batchDeleteMessagePairs_def by (rule batch_loop_inv [OF assms Suc.prems(1)])
  from Suc.prems show ?case
    using Suc.IH [of q1 ds1 "Suc batches" "saveUpdatedDbs (saves batches) ds1 changed saved"] i
    by (subst (asm) runHistoryTrimmingLoop.simps) (auto simp: b split: if_splits)
qed

lemma trimming_loop_stops:
  "runHistoryTrimmingLoop deq fsize saves left batches q ds saved = (b, q', ds', saved')
    \<Longrightarrow> b \<le> batches + left \<and> (q' = [] \<or> calculateAllHistorySize fsize saved' (map fst ds') \<le> targetHistorySizeInBytes \<or> b = batches + left)"
proof (induction left arbitrary: batches q ds saved)
  case 0
  then show ?case by (subst (asm) runHistoryTrimmingLoop.simps) (auto split: if_splits)
next
  case (Suc left)
  obtain q1 ds1 changed where b: "batchDeleteMessagePairs deq q ds = (q1, ds1, changed)" by (metis prod_cases3)
  from Suc.prems show ?case
    using Suc.IH [of "Suc batches" q1 ds1 "saveUpdatedDbs (saves batches) ds1 changed saved"]
    by (subst (asm) runHistoryTrimmingLoop.simps) (auto simp: b split: if_splits)
qed

lemma trim_inv_start: "trim_inv ds (initial_queue ds) ds"
proof -
  have "shortened ds n t" if "t \<in> tabs_in ds n" for n t
    unfolding shortened_def using that remove_pairs.simps(1) by metis
  moreover have "qi_tab x \<in> tabs_in ds (qi_dbName x)" if "x \<in> set (initial_queue ds)" for x
    using that by (auto simp: initial_queue_def queue_entry_def tabs_in_def)
  ultimately show ?thesis by (auto simp: trim_inv_def)
qed

section \<open>A queue\<close>

text \<open>A queue that keeps its promise: the greatest item is searched in the list.\<close>

fun search_greatest :: dequeue where
  "search_greatest [] = None"
| "search_greatest (x # xs) =
     (case search_greatest xs of
        None \<Rightarrow> Some (x, xs)
      | Some (y, ys) \<Rightarrow> if tabDateComparator x y \<ge> 0 then Some (x, xs) else Some (y, x # ys))"

lemma tabDateComparator_trans: "tabDateComparator x y \<ge> 0 \<Longrightarrow> tabDateComparator y z \<ge> 0 \<Longrightarrow> tabDateComparator x z \<ge> 0"
  by (auto simp: tabDateComparator_def split: if_splits)

lemma tabDateComparator_flip: "tabDateComparator x y = - tabDateComparator y x"
  by (simp add: tabDateComparator_def)

lemma search_greatest_law:
  "case search_greatest q of None \<Rightarrow> q = [] | Some (x, q') \<Rightarrow> mset q = add_mset x (mset q') \<and> (\<forall>y \<in> set q'. tabDateComparator x y \<ge> 0)"
proof (induction q)
  case (Cons x xs)
  show ?case
  proof (cases "search_greatest xs")
    case None
    with Cons show ?thesis by simp
  next
    case (Some p)
    obtain y ys where p: "p = (y, ys)" by (cases p)
    have m: "mset xs = add_mset y (mset ys)" and g: "\<forall>z \<in> set ys. tabDateComparator y z \<ge> 0"
      using Cons Some p by simp_all
    have s: "set xs = insert y (set ys)" using m by (metis set_mset_add_mset_insert set_mset_mset)
    show ?thesis
      using m g s tabDateComparator_trans [of x y] tabDateComparator_flip [of x y] by (auto simp: Some p add_mset_commute)
  qed
qed simp

lemma search_greatest_ok: "dequeues_greatest search_greatest"
  unfolding dequeues_greatest_def using search_greatest_law by blast

section \<open>Properties\<close>

text \<open>
  C23. Trimming only removes the oldest messages: every tab that is left in a database is a tab of that database before, without a number of its oldest
  pairs. Its messages are a suffix of the messages it had, and when its conversations consisted of complete
  pairs they still alternate, which is what the preparation of a request relies on.
\<close>

theorem trimming_removes_oldest_pairs:
  assumes "dequeues_greatest deq" and "trimHistoryForAllWorkspaces deq fsize saves ds = (b, q', ds', saved')" and "t \<in> tabs_in ds' n"
  shows "\<exists>k t0. t0 \<in> tabs_in ds n \<and> t = remove_pairs k t0 \<and> tb_historyId t = tb_historyId t0 \<and> suffix (tab_messages t) (tab_messages t0) \<and>
     (list_all paired (tb_conversations t0) \<longrightarrow> alternating (tab_messages t))"
proof -
  have "trim_inv ds q' ds'"
    using trimming_loop_inv [OF assms(1) trim_inv_start] assms(2) unfolding trimHistoryForAllWorkspaces_def by blast
  then obtain k t0 where t: "t0 \<in> tabs_in ds n" "t = remove_pairs k t0"
    using assms(3) unfolding trim_inv_def shortened_def by blast
  then show ?thesis
    using remove_pairs_suffix [of k t0] remove_pairs_paired [of t0 k] paired_alternating [of "tb_conversations t"]
    by (intro exI [of _ k] exI [of _ t0]) (auto simp: tab_messages_def)
qed

text \<open>
  Trimming always ends, after at most 100 batches, and it ends only when no tab is left, when the files of the loaded databases together are within
  150 MB, or when 100 batches ran; it does not even begin when all history files are within 200 MB.
\<close>

theorem trimming_ends:
  "\<exists>b q' ds' saved'. trimHistoryForAllWorkspaces deq fsize saves ds = (b, q', ds', saved') \<and> b \<le> 100 \<and>
     (q' = [] \<or> calculateAllHistorySize fsize saved' (map fst ds') \<le> 150 * 1024 * 1024 \<or> b = 100) \<and>
     (trimHistoryToMaxSize deq fsize saves entries current currentTabs load = None \<longleftrightarrow>
        calculateAllHistorySize fsize [] (listDatabaseFiles entries) \<le> 200 * 1024 * 1024)"
proof -
  obtain b q' ds' saved' where r: "trimHistoryForAllWorkspaces deq fsize saves ds = (b, q', ds', saved')" by (metis prod_cases4)
  then show ?thesis
    using trimming_loop_stops [of deq fsize saves maxTrimIterations 0 "initial_queue ds" ds "[]" b q' ds' saved']
    by (auto simp: trimHistoryForAllWorkspaces_def maxTrimIterations_def targetHistorySizeInBytes_def trimHistoryToMaxSize_def
        maxHistorySizeInBytes_def Let_def)
qed

text \<open>A tab of 501 conversations in a file that shrinks with the first save: one batch removes 500 of them.\<close>

definition sample_conversation :: Conversation where
  "sample_conversation = \<lparr>cv_conversationId = [], cv_clientType = [], cv_updatedAt = None, cv_messages = []\<rparr>"

definition sample_long_tab :: "nat \<Rightarrow> Tab" where
  "sample_long_tab n = new_tab ''h'' 0 [] [] (replicate n sample_conversation) None"

definition sample_sizes :: "dbs \<Rightarrow> string \<Rightarrow> nat option" where
  "sample_sizes saved f = (if saved = [] then Some (300 * 1024 * 1024) else Some 1000)"

definition sample_dbs :: "nat \<Rightarrow> dbs" where
  "sample_dbs n = [(''chat-history-1.json'', [sample_long_tab n])]"

lemma remove_pairs_sample: "remove_pairs k (sample_long_tab (k + n)) = sample_long_tab n"
  by (induction k arbitrary: n)
    (simp_all add: sample_long_tab_def new_tab_def sample_conversation_def removeOldestMessagePairFromTab_def)

lemma update_sample: "update_in_db ''chat-history-1.json'' (sample_long_tab n) (sample_dbs m) = sample_dbs n"
  by (simp add: update_in_db_def change_db_def sample_dbs_def sample_long_tab_def new_tab_def)

lemma batch_loop_sample:
  "changed = [''chat-history-1.json''] \<or> 0 < n \<and> changed = [] \<Longrightarrow>
   batch_loop search_greatest n [queue_entry ''chat-history-1.json'' (sample_long_tab (5 * n + 1))] (sample_dbs (5 * n + 1)) changed =
     ([queue_entry ''chat-history-1.json'' (sample_long_tab 1)], sample_dbs 1, [''chat-history-1.json''])"
proof (induction n arbitrary: changed)
  case (Suc n)
  let ?d = "''chat-history-1.json''"
  have r: "remove_pairs 5 (sample_long_tab (5 * Suc n + 1)) = sample_long_tab (5 * n + 1)"
    using remove_pairs_sample [of 5 "5 * n + 1"] by (simp add: algebra_simps)
  have ne: "tb_conversations (sample_long_tab (5 * n + 1)) \<noteq> []"
    by (simp add: sample_long_tab_def new_tab_def)
  have "qi_dbName (queue_entry ?d t) = ?d" "qi_tab (queue_entry ?d t) = t" for t
    by (simp_all add: queue_entry_def)
  moreover have "List.insert ?d changed = [?d]" using Suc.prems by auto
  ultimately show ?case
    using Suc.IH [of "[?d]"] ne r by (simp only: batch_loop.simps search_greatest.simps option.case prod.case Let_def
      messagePairPerBatchDelete_def update_sample list.distinct if_False simp_thms)
qed simp

lemma sample_trim_runs:
  "trimHistoryForAllWorkspaces search_greatest sample_sizes (\<lambda>_ _. True) (sample_dbs 501) =
     (1, [queue_entry ''chat-history-1.json'' (sample_long_tab 1)], sample_dbs 1, sample_dbs 1)"
proof -
  have iq: "initial_queue (sample_dbs 501) = [queue_entry ''chat-history-1.json'' (sample_long_tab 501)]"
    by (simp add: initial_queue_def sample_dbs_def)
  have bd: "batchDeleteMessagePairs search_greatest [queue_entry ''chat-history-1.json'' (sample_long_tab 501)] (sample_dbs 501) =
      ([queue_entry ''chat-history-1.json'' (sample_long_tab 1)], sample_dbs 1, [''chat-history-1.json''])"
    using batch_loop_sample [of "[]" 100] by (simp add: batchDeleteMessagePairs_def batchDeleteIterations_def)
  have sv: "saveUpdatedDbs (\<lambda>_. True) (sample_dbs 1) [''chat-history-1.json''] [] = sample_dbs 1"
    by (simp add: saveUpdatedDbs_def sample_dbs_def map_set_def)
  have large: "targetHistorySizeInBytes < calculateAllHistorySize sample_sizes [] (map fst (sample_dbs 501))"
    and small: "calculateAllHistorySize sample_sizes (sample_dbs 1) (map fst (sample_dbs 1)) \<le> targetHistorySizeInBytes"
    by (simp_all add: calculateAllHistorySize_def sample_sizes_def sample_dbs_def targetHistorySizeInBytes_def)
  have step: "runHistoryTrimmingLoop search_greatest sample_sizes (\<lambda>_ _. True) (Suc 99) 0 (initial_queue (sample_dbs 501)) (sample_dbs 501) [] =
      runHistoryTrimmingLoop search_greatest sample_sizes (\<lambda>_ _. True) 99 (Suc 0) [queue_entry ''chat-history-1.json'' (sample_long_tab 1)] (sample_dbs 1) (sample_dbs 1)"
    unfolding iq using loop_step [OF _ large bd, of "\<lambda>_ _. True" 99 0] by (simp only: sv list.distinct simp_thms)
  have m: "maxTrimIterations = Suc 99" by (simp add: maxTrimIterations_def)
  show ?thesis
    unfolding trimHistoryForAllWorkspaces_def m step loop_stop [OF small] by simp
qed

theorem trimming_removes_oldest_pairs_witness:
  "\<exists>k t0. t0 \<in> tabs_in (sample_dbs 501) ''chat-history-1.json'' \<and> sample_long_tab 1 = remove_pairs k t0 \<and>
     tb_historyId (sample_long_tab 1) = tb_historyId t0 \<and> suffix (tab_messages (sample_long_tab 1)) (tab_messages t0) \<and>
     alternating (tab_messages (sample_long_tab 1))"
proof -
  have "sample_long_tab 1 \<in> tabs_in (sample_dbs 1) ''chat-history-1.json''"
    by (simp add: tabs_in_def sample_dbs_def)
  moreover have "list_all paired (tb_conversations t0)" if "t0 \<in> tabs_in (sample_dbs 501) ''chat-history-1.json''" for t0
    using that by (simp add: tabs_in_def sample_dbs_def sample_long_tab_def new_tab_def list_all_iff paired_def sample_conversation_def)
  ultimately show ?thesis
    using trimming_removes_oldest_pairs [OF search_greatest_ok sample_trim_runs] by blast
qed

end
