(* ===== verification/Chat_Request.thy ===== *)
theory Chat_Request
  imports Chat_Repair
begin

text \<open>
  The size of a chat request: the limits of a model (\<^verbatim>\<open>agenticChat/utils/tokenLimitsCalculator.ts\<close>) and what of a request is kept within them
  (\<^verbatim>\<open>truncateRequest\<close>, \<^verbatim>\<open>truncatePinnedContext\<close>, \<^verbatim>\<open>#updateRequestInputWithToolResults\<close> of \<^verbatim>\<open>agenticChatController.ts\<close>). Budgets are
  rational because the estimate of an image is. The compaction threshold is a product of floating-point numbers
  and is left to the session.
\<close>

section \<open>Limits\<close>

definition DEFAULT_MAX_INPUT_TOKENS :: int where "DEFAULT_MAX_INPUT_TOKENS = 200000"
definition INPUT_LIMIT_RESERVED_CHARACTERS :: int where "INPUT_LIMIT_RESERVED_CHARACTERS = 100000"

record TokenLimits =
  tl_maxInputTokens :: int
  tl_maxOverallCharacters :: int
  tl_inputLimit :: int

definition calculate :: "int \<Rightarrow> TokenLimits" where
  "calculate maxInputTokens =
     (let maxOverallCharacters = (maxInputTokens * 7) div 2
      in \<lparr>tl_maxInputTokens = maxInputTokens, tl_maxOverallCharacters = maxOverallCharacters,
          tl_inputLimit = maxOverallCharacters - INPUT_LIMIT_RESERVED_CHARACTERS\<rparr>)"

definition extractMaxInputTokens :: "int option option \<Rightarrow> int" where
  "extractMaxInputTokens model = (case Option.bind model id of None \<Rightarrow> DEFAULT_MAX_INPUT_TOKENS | Some n \<Rightarrow> n)"

section \<open>Truncation\<close>

record AdditionalContext =
  ax_isImage :: bool
  ax_pinned :: bool
  ax_innerContext :: "string option"

definition text_length :: "string option \<Rightarrow> rat" where
  "text_length t = (case t of None \<Rightarrow> 0 | Some s \<Rightarrow> of_nat (length s))"

fun truncatePinnedContext :: "rat \<Rightarrow> AdditionalContext list \<Rightarrow> rat \<times> AdditionalContext list" where
  "truncatePinnedContext budget [] = (budget, [])"
| "truncatePinnedContext budget (e # es) =
     (let n = text_length (ax_innerContext e)
      in if budget \<ge> n then let (b, kept) = truncatePinnedContext (budget - n) es in (b, e # kept) else (0, []))"

datatype context_item = Doc_item ChatDocument | Image_item nat

text \<open>Documents and images in the order of the additional context; entries without a value are dropped.\<close>

fun pair_up :: "AdditionalContext list \<Rightarrow> ChatDocument list \<Rightarrow> nat list \<Rightarrow> context_item list" where
  "pair_up [] ds is = []"
| "pair_up (e # es) ds is =
     (if ax_isImage e then (case is of [] \<Rightarrow> pair_up es ds [] | i # is' \<Rightarrow> Image_item i # pair_up es ds is')
      else (case ds of [] \<Rightarrow> pair_up es [] is | d # ds' \<Rightarrow> Doc_item d # pair_up es ds' is))"

definition combined_items :: "AdditionalContext list option \<Rightarrow> ChatDocument list \<Rightarrow> nat list \<Rightarrow> context_item list" where
  "combined_items ctx docs images =
     (case ctx of
        Some (e # es) \<Rightarrow> pair_up (e # es) docs images
      | _ \<Rightarrow> map Doc_item docs @ map Image_item images)"

fun fit_items :: "rat \<Rightarrow> context_item list \<Rightarrow> rat \<times> ChatDocument list \<times> nat list" where
  "fit_items budget [] = (budget, [], [])"
| "fit_items budget (Doc_item d # xs) =
     (if budget \<ge> text_length (cd_text d)
      then let (b, ds, is) = fit_items (budget - text_length (cd_text d)) xs in (b, d # ds, is)
      else fit_items budget xs)"
| "fit_items budget (Image_item i # xs) =
     (if budget \<ge> estimateCharacterCountFromImageBlock i
      then let (b, ds, is) = fit_items (budget - estimateCharacterCountFromImageBlock i) xs in (b, ds, i # is)
      else fit_items budget xs)"

definition editor_of :: "UserInputMessage \<Rightarrow> ChatEditorState option" where
  "editor_of u = Option.bind (ui_context u) uc_editorState"

definition on_editor :: "(ChatEditorState \<Rightarrow> ChatEditorState) \<Rightarrow> UserInputMessage \<Rightarrow> UserInputMessage" where
  "on_editor f u = u\<lparr>ui_context := map_option (\<lambda>c. c\<lparr>uc_editorState := map_option f (uc_editorState c)\<rparr>) (ui_context u)\<rparr>"

definition docs_of :: "UserInputMessage \<Rightarrow> ChatDocument list" where
  "docs_of u = listed (Option.bind (editor_of u) ce_relevantDocuments)"

definition truncate_content :: "int \<Rightarrow> UserInputMessage \<Rightarrow> rat \<times> UserInputMessage" where
  "truncate_content limit u =
     (case ui_content u of
        None \<Rightarrow> (of_int limit, u)
      | Some message \<Rightarrow>
          if int (length message) > limit
          then let cut = substring message 0 limit in (of_int limit - of_nat (length cut), u\<lparr>ui_content := Some cut\<rparr>)
          else (of_int limit - of_nat (length message), u))"

definition truncate_document :: "rat \<Rightarrow> UserInputMessage \<Rightarrow> rat \<times> UserInputMessage" where
  "truncate_document budget u =
     (case Option.bind (editor_of u) ce_document of
        None \<Rightarrow> (budget, u)
      | Some d \<Rightarrow> if budget > text_length (cd_text d) then (budget - text_length (cd_text d), u)
                  else (budget, on_editor (\<lambda>e. e\<lparr>ce_document := None\<rparr>) u))"

text \<open>
  The whole truncation. The pinned part of the context is a filtered copy, so what is cut off it is lost with the
  copy: only the budget that is left comes back.
\<close>

definition truncateRequest :: "UserInputMessage \<Rightarrow> AdditionalContext list option \<Rightarrow> int option \<Rightarrow> rat \<times> UserInputMessage" where
  "truncateRequest u ctx inputLimit =
     (let limit = (case inputLimit of None \<Rightarrow> tl_inputLimit (calculate DEFAULT_MAX_INPUT_TOKENS) | Some l \<Rightarrow> l);
          (b1, u1) = truncate_content limit u;
          (b2, ds, is) = fit_items b1 (combined_items ctx (docs_of u1) (listed (ui_images u1)));
          u2 = on_editor (\<lambda>e. if ce_relevantDocuments e \<noteq> None then e\<lparr>ce_relevantDocuments := Some ds\<rparr> else e) u1;
          u3 = (if listed (ui_images u2) \<noteq> [] then u2\<lparr>ui_images := Some is\<rparr> else u2);
          (b3, u4) = truncate_document b2 u3;
          pinned = filter ax_pinned (listed ctx)
      in (if pinned \<noteq> [] then fst (truncatePinnedContext b3 pinned) else b3, u4))"

section \<open>The next request\<close>

text \<open>The request that answers with tool results; an exception when the message has no context.\<close>

definition updateRequestInputWithToolResults :: "UserInputMessage \<Rightarrow> ToolResult list \<Rightarrow> string \<Rightarrow> UserInputMessage option" where
  "updateRequestInputWithToolResults u results content =
     (case ui_context u of
        None \<Rightarrow> None
      | Some c \<Rightarrow>
          Some (u\<lparr>ui_content := Some content, ui_images := Some [],
            ui_context := Some (c\<lparr>uc_toolResults := Some results,
              uc_editorState := Some \<lparr>ce_document = None, ce_cursorState = None, ce_relevantDocuments = None, ce_useRelevantDocuments = Some False\<rparr>\<rparr>)\<rparr>))"

section \<open>A truncated request fits\<close>

definition request_size :: "UserInputMessage \<Rightarrow> rat" where
  "request_size u = text_length (ui_content u) + sum_list (map (text_length \<circ> cd_text) (docs_of u))
     + sum_list (map estimateCharacterCountFromImageBlock (listed (ui_images u)))
     + (case Option.bind (editor_of u) ce_document of None \<Rightarrow> 0 | Some d \<Rightarrow> text_length (cd_text d))"

definition item_docs :: "context_item list \<Rightarrow> ChatDocument list" where
  "item_docs xs = concat (map (\<lambda>x. case x of Doc_item d \<Rightarrow> [d] | Image_item _ \<Rightarrow> []) xs)"

definition item_images :: "context_item list \<Rightarrow> nat list" where
  "item_images xs = concat (map (\<lambda>x. case x of Doc_item _ \<Rightarrow> [] | Image_item i \<Rightarrow> [i]) xs)"

lemma item_lists [simp]:
  "item_docs [] = []" "item_docs (Doc_item d # xs) = d # item_docs xs" "item_docs (Image_item i # xs) = item_docs xs"
  "item_images [] = []" "item_images (Doc_item d # xs) = item_images xs" "item_images (Image_item i # xs) = i # item_images xs"
  by (simp_all add: item_docs_def item_images_def)

lemma item_lists_map:
  "item_docs (map Doc_item ds @ map Image_item is) = ds" "item_images (map Doc_item ds @ map Image_item is) = is"
proof -
  have i: "item_docs (map Image_item is) = []" "item_images (map Image_item is) = is" by (induction "is") auto
  show "item_docs (map Doc_item ds @ map Image_item is) = ds" "item_images (map Doc_item ds @ map Image_item is) = is"
    by (induction ds) (auto simp: i)
qed

lemma pair_up_items: "subseq (item_docs (pair_up es ds is)) ds \<and> subseq (item_images (pair_up es ds is)) is"
  by (induction es ds "is" rule: pair_up.induct) (auto split: list.splits)

lemma combined_subseq:
  "subseq (item_docs (combined_items ctx ds is)) ds" "subseq (item_images (combined_items ctx ds is)) is"
  by (cases ctx rule: option.exhaust; cases "the ctx"; simp add: combined_items_def item_lists_map pair_up_items del: pair_up.simps)+

lemma text_length_nonneg [simp]: "0 \<le> text_length t"
  by (simp add: text_length_def split: option.split)

lemma fit_items_fits:
  "fit_items b xs = (b', ds, is) \<Longrightarrow>
     b' = b - sum_list (map (text_length \<circ> cd_text) ds) - sum_list (map estimateCharacterCountFromImageBlock is) \<and>
     (0 \<le> b \<longrightarrow> 0 \<le> b') \<and> subseq ds (item_docs xs) \<and> subseq is (item_images xs)"
  by (induction b xs arbitrary: b' ds "is" rule: fit_items.induct) (fastforce split: if_splits prod.splits)+

lemma truncatePinned_budget: "0 \<le> b \<Longrightarrow> 0 \<le> fst (truncatePinnedContext b es) \<and> fst (truncatePinnedContext b es) \<le> b"
proof (induction b es rule: truncatePinnedContext.induct)
  case (2 b e es)
  show ?case
  proof (cases "b \<ge> text_length (ax_innerContext e)")
    case True
    then have "0 \<le> fst (truncatePinnedContext (b - text_length (ax_innerContext e)) es) \<and>
        fst (truncatePinnedContext (b - text_length (ax_innerContext e)) es) \<le> b - text_length (ax_innerContext e)"
      using 2 by simp
    moreover have "b - text_length (ax_innerContext e) \<le> b" by simp
    ultimately have "0 \<le> fst (truncatePinnedContext (b - text_length (ax_innerContext e)) es) \<and>
        fst (truncatePinnedContext (b - text_length (ax_innerContext e)) es) \<le> b" by linarith
    then show ?thesis using True by (simp add: Let_def case_prod_beta)
  qed (use "2.prems" in \<open>simp add: Let_def\<close>)
qed simp

lemma editor_parts [simp]:
  "editor_of (on_editor f u) = map_option f (editor_of u)" "ui_content (on_editor f u) = ui_content u" "ui_images (on_editor f u) = ui_images u"
  "editor_of (u\<lparr>ui_images := x\<rparr>) = editor_of u" "editor_of (u\<lparr>ui_content := y\<rparr>) = editor_of u"
  by (cases "ui_context u"; simp add: editor_of_def on_editor_def)+

text \<open>The stages of the truncation.\<close>

lemma truncate_content_fits:
  assumes "truncate_content limit u = (b, u')" and "0 \<le> limit"
  shows "b = of_int limit - text_length (ui_content u')" "0 \<le> b" "\<exists>c. u' = u\<lparr>ui_content := c\<rparr>"
    "prefix (text_or (ui_content u') []) (text_or (ui_content u) [])"
proof -
  have cut: "substring m 0 limit = take (nat limit) m" for m
    using substring_0_nat [of m "nat limit"] assms(2) by simp
  show "\<exists>c. u' = u\<lparr>ui_content := c\<rparr>"
    using assms(1) by (intro exI [of _ "ui_content u'"]) (auto simp: truncate_content_def Let_def split: option.splits if_splits)
  show "b = of_int limit - text_length (ui_content u')" "0 \<le> b" "prefix (text_or (ui_content u') []) (text_or (ui_content u) [])"
    using assms by (auto simp: truncate_content_def Let_def cut text_length_def text_or_def take_is_prefix split: option.splits if_splits)
qed

lemma truncate_document_fits:
  assumes "truncate_document b u = (b', u')" and "0 \<le> b"
  shows "b' = b - (case Option.bind (editor_of u') ce_document of None \<Rightarrow> 0 | Some d \<Rightarrow> text_length (cd_text d))" "0 \<le> b'"
    "ui_content u' = ui_content u" "ui_images u' = ui_images u" "docs_of u' = docs_of u"
proof -
  have "docs_of (on_editor (\<lambda>e. e\<lparr>ce_document := None\<rparr>) u) = docs_of u"
    by (cases "editor_of u") (simp_all add: docs_of_def)
  moreover have "Option.bind (editor_of (on_editor (\<lambda>e. e\<lparr>ce_document := None\<rparr>) u)) ce_document = None"
    by (cases "editor_of u") simp_all
  ultimately show "b' = b - (case Option.bind (editor_of u') ce_document of None \<Rightarrow> 0 | Some d \<Rightarrow> text_length (cd_text d))" "0 \<le> b'"
    "ui_content u' = ui_content u" "ui_images u' = ui_images u" "docs_of u' = docs_of u"
    using assms by (auto simp: truncate_document_def split: option.splits if_splits)
qed

lemma set_docs:
  assumes "subseq ds (docs_of u)"
  shows "docs_of (on_editor (\<lambda>e. if ce_relevantDocuments e \<noteq> None then e\<lparr>ce_relevantDocuments := Some ds\<rparr> else e) u) = ds"
  using assms by (cases "editor_of u") (auto simp: docs_of_def listed_def dest: list_emb_Nil2 split: option.splits)

lemma set_images:
  assumes "subseq is (listed (ui_images u))"
  shows "listed (ui_images (if listed (ui_images u) \<noteq> [] then u\<lparr>ui_images := Some is\<rparr> else u)) = is"
  using assms by (auto simp: listed_def dest: list_emb_Nil2 split: option.splits)

text \<open>
  C32. A truncated request fits: for a limit that is not negative, the message, the relevant documents, the images and the current document of the
  truncated request together do not exceed the limit, and the budget that is returned is not negative and not more than what they leave.
  The message is a prefix of the original one, and the documents and images are some of the original ones in their order.
\<close>

theorem truncated_request_fits:
  assumes "truncateRequest u ctx (Some limit) = (b, u')" and "0 \<le> limit"
  shows "request_size u' + b \<le> of_int limit \<and> 0 \<le> b \<and> prefix (text_or (ui_content u') []) (text_or (ui_content u) []) \<and>
     subseq (docs_of u') (docs_of u) \<and> subseq (listed (ui_images u')) (listed (ui_images u))"
proof -
  obtain b1 u1 where 1: "truncate_content limit u = (b1, u1)" by fastforce
  note t = truncate_content_fits [OF 1 assms(2)]
  obtain b2 ds "is" where 2: "fit_items b1 (combined_items ctx (docs_of u1) (listed (ui_images u1))) = (b2, ds, is)" by (metis prod_cases3)
  have keep: "docs_of u1 = docs_of u" "ui_images u1 = ui_images u" using t(3) by (auto simp: docs_of_def)
  note f = fit_items_fits [OF 2]
  have sub: "subseq ds (docs_of u1)" "subseq is (listed (ui_images u1))"
    using f combined_subseq [of ctx "docs_of u1" "listed (ui_images u1)"] subseq_order.trans by blast+
  define u2 where "u2 = on_editor (\<lambda>e. if ce_relevantDocuments e \<noteq> None then e\<lparr>ce_relevantDocuments := Some ds\<rparr> else e) u1"
  define u3 where "u3 = (if listed (ui_images u2) \<noteq> [] then u2\<lparr>ui_images := Some is\<rparr> else u2)"
  have u3: "docs_of u3 = ds" "listed (ui_images u3) = is" "ui_content u3 = ui_content u1"
    using set_docs [OF sub(1)] set_images [of "is" u2] sub(2) by (auto simp: u3_def u2_def docs_of_def)
  obtain b3 u4 where 3: "truncate_document b2 u3 = (b3, u4)" by fastforce
  have b2: "0 \<le> b2" using f t(2) by blast
  note d = truncate_document_fits [OF 3 b2]
  have e: "u' = u4" "b = (if filter ax_pinned (listed ctx) \<noteq> [] then fst (truncatePinnedContext b3 (filter ax_pinned (listed ctx))) else b3)"
    using assms(1) unfolding truncateRequest_def Let_def option.case 1 prod.case 2 u2_def [symmetric] u3_def [symmetric] 3 by auto
  have "0 \<le> b" "b \<le> b3" using e(2) d(2) truncatePinned_budget [OF d(2)] by auto
  moreover have "request_size u4 + b3 = of_int limit"
    using t(1) f d(1) by (simp add: request_size_def d(3,4,5) u3)
  ultimately show ?thesis using t(4) sub by (simp add: e(1) d(3,4,5) u3 keep)
qed

definition sample_request :: UserInputMessage where
  "sample_request = \<lparr>ui_content = Some ''explain'', ui_userIntent = None, ui_origin = None,
     ui_context = Some \<lparr>uc_editorState = Some \<lparr>ce_document = Some \<lparr>cd_relativeFilePath = ''a'', cd_text = Some ''xyz''\<rparr>, ce_cursorState = None,
         ce_relevantDocuments = Some [\<lparr>cd_relativeFilePath = ''b'', cd_text = Some ''0123456789''\<rparr>, \<lparr>cd_relativeFilePath = ''c'', cd_text = Some ''01''\<rparr>],
         ce_useRelevantDocuments = Some True\<rparr>, uc_toolResults = None, uc_tools = None\<rparr>,
     ui_images = None\<rparr>"

theorem truncated_request_fits_witness:
  "request_size (snd (truncateRequest sample_request None (Some 12))) + fst (truncateRequest sample_request None (Some 12)) \<le> of_int 12 \<and>
   0 \<le> fst (truncateRequest sample_request None (Some 12)) \<and>
   prefix (text_or (ui_content (snd (truncateRequest sample_request None (Some 12)))) []) (text_or (ui_content sample_request) []) \<and>
   subseq (docs_of (snd (truncateRequest sample_request None (Some 12)))) (docs_of sample_request) \<and>
   subseq (listed (ui_images (snd (truncateRequest sample_request None (Some 12))))) (listed (ui_images sample_request))"
  by (rule truncated_request_fits) simp_all

text \<open>With a limit of twelve characters one document is left out and the current document does not fit any more.\<close>

lemma truncated_sample:
  "map cd_relativeFilePath (docs_of (snd (truncateRequest sample_request None (Some 12)))) = [''c'']"
  "Option.bind (editor_of (snd (truncateRequest sample_request None (Some 12)))) ce_document = None"
  by code_simp+

text \<open>The limit of a model with fewer than 28572 input tokens is negative, and then the message itself is cut away.\<close>

lemma small_model_loses_message:
  assumes "maxInputTokens < 28572" and "ui_content u = Some m"
  shows "ui_content (snd (truncate_content (tl_inputLimit (calculate maxInputTokens)) u)) = Some []"
proof -
  have "tl_inputLimit (calculate maxInputTokens) \<le> 0"
    using assms(1) by (simp add: calculate_def Let_def INPUT_LIMIT_RESERVED_CHARACTERS_def)
  then show ?thesis using assms(2) by (cases m) (auto simp: truncate_content_def Let_def substring_def clamp_index_def)
qed

end
