(* ===== verification/Agent_Permissions.thy ===== *)
theory Agent_Permissions
  imports Prelude
begin

text \<open>
  The permissions of tools in the agentic chat (\<^verbatim>\<open>agenticChat/tools/mcp/agentPermissionManager.ts\<close>): two lists of tool ids, of server
  prefixes and of patterns decide whether a tool is denied, asked for or always allowed. Changing the
  permission of one tool takes the patterns that cover it apart into the tools they stand for.
\<close>

section \<open>Configuration and catalog\<close>

datatype McpPermissionType = alwaysAllow | ask | deny

text \<open>The fields of the configuration the manager works on.\<close>

record AgentConfig =
  ac_tools :: "string list"
  ac_allowedTools :: "string list"

text \<open>The callbacks: the tools of a server, the servers, the built-in tools.\<close>

record tool_catalog =
  cat_getAvailableTools :: "(string \<Rightarrow> string list) option"
  cat_getAllAvailableServers :: "string list option"
  cat_getAllBuiltinTools :: "string list option"

definition getAvailableServers :: "tool_catalog \<Rightarrow> string list" where
  "getAvailableServers cat = (case cat_getAllAvailableServers cat of None \<Rightarrow> [] | Some ss \<Rightarrow> ss)"

definition getBuiltinTools :: "tool_catalog \<Rightarrow> string list" where
  "getBuiltinTools cat = (case cat_getAllBuiltinTools cat of None \<Rightarrow> [] | Some ts \<Rightarrow> ts)"

definition tool_id :: "string \<Rightarrow> string \<Rightarrow> string" where
  "tool_id serverName toolName = (if serverName \<noteq> [] then ''@'' @ serverName @ ''/'' @ toolName else toolName)"

definition server_prefix :: "string \<Rightarrow> string" where
  "server_prefix serverName = (if serverName \<noteq> [] then ''@'' @ serverName else [])"

section \<open>Patterns\<close>

text \<open>The regular expression of a pattern: a dot matches every character but the ends of lines.\<close>

definition any_char :: "char \<Rightarrow> bool" where
  "any_char c = (c \<noteq> CHR 0x0A \<and> c \<noteq> CHR 0x0D)"

fun glob_match :: "string \<Rightarrow> string \<Rightarrow> bool" where
  "glob_match [] s = (s = [])"
| "glob_match (c # p) [] = (c = CHR ''*'' \<and> glob_match p [])"
| "glob_match (c # p) (x # s) =
     (if c = CHR ''*'' then glob_match p (x # s) \<or> any_char x \<and> glob_match (c # p) s
      else if c = CHR ''?'' then any_char x \<and> glob_match p s
      else c = x \<and> glob_match p s)"

definition matchesPattern :: "string \<Rightarrow> string \<Rightarrow> bool" where
  "matchesPattern toolName pattern = (pattern = toolName \<or> glob_match pattern toolName)"

definition is_wildcard :: "string \<Rightarrow> bool" where
  "is_wildcard s = (CHR ''*'' \<in> set s \<or> CHR ''?'' \<in> set s)"

definition is_server_pattern :: "string \<Rightarrow> bool" where
  "is_server_pattern s = (startsWith s ''@'' \<and> CHR ''/'' \<notin> set s)"

section \<open>Reading permissions\<close>

definition pattern_enables :: "string \<Rightarrow> string \<Rightarrow> string \<Rightarrow> bool" where
  "pattern_enables serverName toolName e =
     (is_wildcard e \<and>
      (serverName \<noteq> [] \<and> is_server_pattern e \<and> matchesPattern (server_prefix serverName) e \<or> matchesPattern (tool_id serverName toolName) e))"

definition isToolEnabled :: "AgentConfig \<Rightarrow> string \<Rightarrow> string \<Rightarrow> bool" where
  "isToolEnabled cfg serverName toolName =
     (tool_id serverName toolName \<in> set (ac_tools cfg)
      \<or> server_prefix serverName \<noteq> [] \<and> server_prefix serverName \<in> set (ac_tools cfg)
      \<or> ''*'' \<in> set (ac_tools cfg)
      \<or> serverName = [] \<and> ''@builtin'' \<in> set (ac_tools cfg)
      \<or> list_ex (pattern_enables serverName toolName) (ac_tools cfg))"

definition pattern_allows :: "string \<Rightarrow> string \<Rightarrow> string \<Rightarrow> bool" where
  "pattern_allows serverName toolName e = (is_wildcard e \<and> matchesPattern (tool_id serverName toolName) e)"

definition isToolAlwaysAllowed :: "AgentConfig \<Rightarrow> string \<Rightarrow> string \<Rightarrow> bool" where
  "isToolAlwaysAllowed cfg serverName toolName =
     (tool_id serverName toolName \<in> set (ac_allowedTools cfg)
      \<or> server_prefix serverName \<noteq> [] \<and> server_prefix serverName \<in> set (ac_allowedTools cfg)
      \<or> list_ex (pattern_allows serverName toolName) (ac_allowedTools cfg))"

definition getToolPermission :: "AgentConfig \<Rightarrow> string \<Rightarrow> string \<Rightarrow> McpPermissionType" where
  "getToolPermission cfg serverName toolName =
     (let i = tool_id serverName toolName; p = server_prefix serverName;
          exactInTools = i \<in> set (ac_tools cfg); exactInAllowed = i \<in> set (ac_allowedTools cfg);
          serverInTools = (p \<noteq> [] \<and> p \<in> set (ac_tools cfg)); serverInAllowed = (p \<noteq> [] \<and> p \<in> set (ac_allowedTools cfg));
          isAlwaysAllowed = isToolAlwaysAllowed cfg serverName toolName
      in if exactInAllowed \<or> serverInAllowed then alwaysAllow
         else if exactInTools then (if isAlwaysAllowed then alwaysAllow else ask)
         else if serverInTools then (if isAlwaysAllowed then alwaysAllow else ask)
         else let isEnabled = isToolEnabled cfg serverName toolName
              in if isEnabled \<and> isAlwaysAllowed then alwaysAllow else if isEnabled then ask else deny)"

section \<open>Changing permissions\<close>

definition push_new :: "string \<Rightarrow> string list \<Rightarrow> string list" where
  "push_new x xs = (if x \<in> set xs then xs else xs @ [x])"

definition addTool :: "string \<Rightarrow> AgentConfig \<Rightarrow> AgentConfig" where
  "addTool i cfg = cfg\<lparr>ac_tools := push_new i (ac_tools cfg)\<rparr>"

definition removeTool :: "string \<Rightarrow> string \<Rightarrow> AgentConfig \<Rightarrow> AgentConfig" where
  "removeTool i p cfg = cfg\<lparr>ac_tools := filter (\<lambda>e. e \<noteq> i \<and> e \<noteq> p) (ac_tools cfg)\<rparr>"

definition addToAllowedTools :: "string \<Rightarrow> AgentConfig \<Rightarrow> AgentConfig" where
  "addToAllowedTools i cfg = cfg\<lparr>ac_allowedTools := push_new i (ac_allowedTools cfg)\<rparr>"

definition removeFromAllowedTools :: "string \<Rightarrow> string \<Rightarrow> AgentConfig \<Rightarrow> AgentConfig" where
  "removeFromAllowedTools i p cfg = cfg\<lparr>ac_allowedTools := filter (\<lambda>e. e \<noteq> i \<and> e \<noteq> p) (ac_allowedTools cfg)\<rparr>"

definition setServerPermission :: "string \<Rightarrow> McpPermissionType \<Rightarrow> AgentConfig \<Rightarrow> AgentConfig" where
  "setServerPermission serverName permission cfg =
     (let p = ''@'' @ serverName;
          cfg1 = cfg\<lparr>ac_tools := filter (\<lambda>e. \<not> startsWith e (p @ ''/'')) (ac_tools cfg),
                     ac_allowedTools := filter (\<lambda>e. \<not> startsWith e (p @ ''/'')) (ac_allowedTools cfg)\<rparr>
      in case permission of
           deny \<Rightarrow> removeFromAllowedTools p p (removeTool p p cfg1)
         | ask \<Rightarrow> removeFromAllowedTools p p (addTool p cfg1)
         | alwaysAllow \<Rightarrow> addToAllowedTools p (addTool p cfg1))"

text \<open>The tools of the servers a loop visits, without the tool whose permission changes.\<close>

definition catalog_tools :: "(string \<Rightarrow> string list) \<Rightarrow> (string \<Rightarrow> string \<Rightarrow> bool) \<Rightarrow> string list \<Rightarrow> string \<Rightarrow> string \<Rightarrow> string list" where
  "catalog_tools available keep servers deniedServer deniedTool =
     concat (map (\<lambda>s. map (\<lambda>t. ''@'' @ s @ ''/'' @ t)
       (filter (\<lambda>t. keep s t \<and> \<not> (s = deniedServer \<and> t = deniedTool)) (available s))) servers)"

definition convertServerWideToIndividualTools :: "tool_catalog \<Rightarrow> string \<Rightarrow> string \<Rightarrow> AgentConfig \<Rightarrow> AgentConfig" where
  "convertServerWideToIndividualTools cat serverName deniedTool cfg =
     (let cfg1 = cfg\<lparr>ac_tools := filter (\<lambda>e. e \<noteq> ''@'' @ serverName) (ac_tools cfg)\<rparr>
      in case cat_getAvailableTools cat of
           None \<Rightarrow> cfg1
         | Some available \<Rightarrow> fold addTool (map (\<lambda>t. ''@'' @ serverName @ ''/'' @ t) (filter (\<lambda>t. t \<noteq> deniedTool) (available serverName))) cfg1)"

definition expandGlobalWildcard :: "tool_catalog \<Rightarrow> string \<Rightarrow> string \<Rightarrow> AgentConfig \<Rightarrow> AgentConfig" where
  "expandGlobalWildcard cat deniedServer deniedTool cfg =
     (let cfg1 = cfg\<lparr>ac_tools := filter (\<lambda>e. e \<noteq> ''*'') (ac_tools cfg)\<rparr>
      in case cat_getAvailableTools cat of
           None \<Rightarrow> cfg1
         | Some available \<Rightarrow>
             fold addTool (catalog_tools available (\<lambda>_ _. True) (getAvailableServers cat) deniedServer deniedTool
               @ filter (\<lambda>t. \<not> (deniedServer = [] \<and> t = deniedTool)) (getBuiltinTools cat)) cfg1)"

definition expandBuiltinWildcard :: "tool_catalog \<Rightarrow> string \<Rightarrow> AgentConfig \<Rightarrow> AgentConfig" where
  "expandBuiltinWildcard cat deniedTool cfg =
     fold addTool (filter (\<lambda>t. t \<noteq> deniedTool) (getBuiltinTools cat))
       (cfg\<lparr>ac_tools := filter (\<lambda>e. e \<noteq> ''@builtin'') (ac_tools cfg)\<rparr>)"

definition pattern_tools :: "tool_catalog \<Rightarrow> string \<Rightarrow> string \<Rightarrow> string \<Rightarrow> string list" where
  "pattern_tools cat pattern deniedServer deniedTool =
     (case cat_getAvailableTools cat of
        None \<Rightarrow> []
      | Some available \<Rightarrow>
          catalog_tools available
            (\<lambda>s t. if is_server_pattern pattern then matchesPattern (''@'' @ s) pattern else matchesPattern (''@'' @ s @ ''/'' @ t) pattern)
            (getAvailableServers cat) deniedServer deniedTool)"

definition expandPatternWildcard :: "tool_catalog \<Rightarrow> string \<Rightarrow> string \<Rightarrow> string \<Rightarrow> AgentConfig \<Rightarrow> AgentConfig" where
  "expandPatternWildcard cat deniedServer deniedTool pattern cfg =
     fold addTool (pattern_tools cat pattern deniedServer deniedTool)
       (cfg\<lparr>ac_tools := filter (\<lambda>e. e \<noteq> pattern) (ac_tools cfg)\<rparr>)"

definition expandAllowedPatternWildcard :: "tool_catalog \<Rightarrow> string \<Rightarrow> string \<Rightarrow> string \<Rightarrow> AgentConfig \<Rightarrow> AgentConfig" where
  "expandAllowedPatternWildcard cat deniedServer deniedTool pattern cfg =
     fold addToAllowedTools (pattern_tools cat pattern deniedServer deniedTool)
       (cfg\<lparr>ac_allowedTools := filter (\<lambda>e. e \<noteq> pattern) (ac_allowedTools cfg)\<rparr>)"

definition removal_match :: "string \<Rightarrow> string \<Rightarrow> string \<Rightarrow> bool" where
  "removal_match serverName toolName e =
     (is_wildcard e \<and>
      (if serverName \<noteq> [] \<and> is_server_pattern e then matchesPattern (server_prefix serverName) e
       else matchesPattern (tool_id serverName toolName) e))"

definition removeMatchingPatternWildcards :: "tool_catalog \<Rightarrow> string \<Rightarrow> string \<Rightarrow> AgentConfig \<Rightarrow> AgentConfig" where
  "removeMatchingPatternWildcards cat serverName toolName cfg =
     fold (expandPatternWildcard cat serverName toolName) (filter (removal_match serverName toolName) (ac_tools cfg)) cfg"

definition removeConflictingWildcardsForDeny :: "tool_catalog \<Rightarrow> string \<Rightarrow> string \<Rightarrow> AgentConfig \<Rightarrow> AgentConfig" where
  "removeConflictingWildcardsForDeny cat serverName toolName cfg =
     (let p = server_prefix serverName;
          cfg1 = (if ''*'' \<in> set (ac_tools cfg) then expandGlobalWildcard cat serverName toolName cfg else cfg);
          cfg2 = (if p \<noteq> [] \<and> p \<in> set (ac_tools cfg1) then convertServerWideToIndividualTools cat serverName toolName cfg1 else cfg1);
          cfg3 = (if serverName = [] \<and> ''@builtin'' \<in> set (ac_tools cfg2) then expandBuiltinWildcard cat toolName cfg2 else cfg2);
          cfg4 = removeMatchingPatternWildcards cat serverName toolName cfg3
      in removeTool (tool_id serverName toolName) p cfg4)"

text \<open>The same text stands twice in the source, for denying and for asking.\<close>

definition removeConflictingAllowedWildcards :: "tool_catalog \<Rightarrow> string \<Rightarrow> string \<Rightarrow> AgentConfig \<Rightarrow> AgentConfig" where
  "removeConflictingAllowedWildcards cat serverName toolName cfg =
     (let cfg1 = cfg\<lparr>ac_allowedTools := filter (\<lambda>e. e \<noteq> tool_id serverName toolName \<and> e \<noteq> server_prefix serverName) (ac_allowedTools cfg)\<rparr>
      in fold (expandAllowedPatternWildcard cat serverName toolName) (filter (pattern_allows serverName toolName) (ac_allowedTools cfg1)) cfg1)"

definition setToolPermission :: "tool_catalog \<Rightarrow> string \<Rightarrow> string \<Rightarrow> McpPermissionType \<Rightarrow> AgentConfig \<Rightarrow> AgentConfig" where
  "setToolPermission cat serverName toolName permission cfg =
     (let i = tool_id serverName toolName
      in case permission of
           deny \<Rightarrow> removeConflictingAllowedWildcards cat serverName toolName (removeConflictingWildcardsForDeny cat serverName toolName cfg)
         | ask \<Rightarrow>
             (let cfg1 = removeConflictingAllowedWildcards cat serverName toolName cfg
              in if isToolEnabled cfg1 serverName toolName then cfg1 else addTool i cfg1)
         | alwaysAllow \<Rightarrow>
             (let cfg1 = (if isToolEnabled cfg serverName toolName then cfg else addTool i cfg)
              in if isToolAlwaysAllowed cfg1 serverName toolName then cfg1 else addToAllowedTools i cfg1))"

section \<open>The lists as sets\<close>

named_theorems tool_sets

lemma push_new_set [tool_sets]: "set (push_new x xs) = insert x (set xs)"
  by (auto simp: push_new_def)

lemma fold_addTool [tool_sets]:
  "set (ac_tools (fold addTool xs cfg)) = set xs \<union> set (ac_tools cfg)" "ac_allowedTools (fold addTool xs cfg) = ac_allowedTools cfg"
  by (induction xs arbitrary: cfg) (auto simp: addTool_def push_new_set)

lemma fold_addToAllowedTools [tool_sets]:
  "set (ac_allowedTools (fold addToAllowedTools xs cfg)) = set xs \<union> set (ac_allowedTools cfg)"
  "ac_tools (fold addToAllowedTools xs cfg) = ac_tools cfg"
  by (induction xs arbitrary: cfg) (auto simp: addToAllowedTools_def push_new_set)

lemma catalog_tools_set:
  "set (catalog_tools available keep servers ds dt) =
     {''@'' @ s @ ''/'' @ t | s t. s \<in> set servers \<and> t \<in> set (available s) \<and> keep s t \<and> \<not> (s = ds \<and> t = dt)}"
  by (auto simp: catalog_tools_def)

text \<open>
  The names of a catalog and of the tool in question: no wildcard in a name, no slash in the name of a server,
  and no built-in tool that looks like the tool of a server.
\<close>

definition plain :: "string \<Rightarrow> bool" where
  "plain s = (\<not> is_wildcard s)"

definition server_ok :: "tool_catalog \<Rightarrow> string \<Rightarrow> bool" where
  "server_ok cat s = (plain s \<and> CHR ''/'' \<notin> set s \<and>
     (case cat_getAvailableTools cat of None \<Rightarrow> True | Some available \<Rightarrow> list_all plain (available s)))"

definition names_ok :: "tool_catalog \<Rightarrow> string \<Rightarrow> string \<Rightarrow> bool" where
  "names_ok cat s t = (list_all (server_ok cat) (s # getAvailableServers cat) \<and>
     list_all (\<lambda>b. plain b \<and> b \<noteq> ''@builtin'') (getBuiltinTools cat) \<and> (s = [] \<longrightarrow> \<not> startsWith t ''@''))"

lemma plain_append: "plain (a @ b) = (plain a \<and> plain b)"
  by (auto simp: plain_def is_wildcard_def)

lemma plain_literals [simp]: "plain ''@''" "plain ''/''" "plain ''@builtin''" "\<not> plain ''*''" "plain []"
  by (simp_all add: plain_def is_wildcard_def)

lemma catalog_tools_plain:
  assumes "names_ok cat s t" and "cat_getAvailableTools cat = Some available" and "e \<in> set (catalog_tools available keep (getAvailableServers cat) ds dt)"
  shows "plain e"
proof -
  obtain s' t' where e: "e = ''@'' @ s' @ ''/'' @ t'" "s' \<in> set (getAvailableServers cat)" "t' \<in> set (available s')"
    using assms(3) by (auto simp: catalog_tools_set)
  then have "plain s'" "plain t'"
    using assms(1,2) by (auto simp: names_ok_def server_ok_def list_all_iff)
  then show ?thesis unfolding e(1) plain_append by simp
qed

lemma pattern_tools_plain: "names_ok cat s t \<Longrightarrow> e \<in> set (pattern_tools cat p ds dt) \<Longrightarrow> plain e"
  by (cases "cat_getAvailableTools cat") (simp_all add: pattern_tools_def catalog_tools_plain)

lemma pattern_tools_slash: "e \<in> set (pattern_tools cat p ds dt) \<Longrightarrow> CHR ''/'' \<in> set e"
  by (auto simp: pattern_tools_def catalog_tools_set split: option.splits)

lemma same_id:
  assumes "''@'' @ s @ ''/'' @ t = ''@'' @ s' @ ''/'' @ t'" and "CHR ''/'' \<notin> set s" and "CHR ''/'' \<notin> set s'"
  shows "s = s' \<and> t = t'"
proof -
  have "takeWhile (\<lambda>c. c \<noteq> CHR ''/'') (s @ CHR ''/'' # t) = s" "takeWhile (\<lambda>c. c \<noteq> CHR ''/'') (s' @ CHR ''/'' # t') = s'"
    using assms(2,3) by (auto simp: takeWhile_append)
  then show ?thesis using assms(1) by auto
qed

lemma pattern_tools_other:
  assumes "names_ok cat s t" and "e \<in> set (pattern_tools cat p s t)"
  shows "e \<noteq> tool_id s t" and "e \<noteq> server_prefix s"
proof -
  obtain s' t' where e: "e = ''@'' @ s' @ ''/'' @ t'" "CHR ''/'' \<notin> set s'" "\<not> (s' = s \<and> t' = t)"
    using assms by (auto simp: pattern_tools_def catalog_tools_set names_ok_def server_ok_def list_all_iff split: option.splits)
  have s: "CHR ''/'' \<notin> set s" using assms(1) by (simp add: names_ok_def server_ok_def)
  show "e \<noteq> tool_id s t"
  proof (cases "s = []")
    case True
    then show ?thesis using assms(1) e(1) by (auto simp: tool_id_def names_ok_def startsWith_prefix)
  next
    case False
    then show ?thesis using same_id [of s' t' s t] e s by (auto simp: tool_id_def)
  qed
  show "e \<noteq> server_prefix s"
    using s e(1) by (auto simp: server_prefix_def)
qed

text \<open>Taking patterns apart one after the other.\<close>

lemma expand_patterns:
  assumes "names_ok cat s t" and "list_all is_wildcard ps"
  shows "set (ac_tools (fold (expandPatternWildcard cat ds dt) ps cfg)) = set (ac_tools cfg) - set ps \<union> (\<Union>p \<in> set ps. set (pattern_tools cat p ds dt))"
    and "ac_allowedTools (fold (expandPatternWildcard cat ds dt) ps cfg) = ac_allowedTools cfg"
proof -
  have "e \<notin> set ps" if "e \<in> set (pattern_tools cat p ds dt)" for e p
    using pattern_tools_plain [OF assms(1) that] assms(2) by (auto simp: plain_def list_all_iff)
  then have *: "set qs \<subseteq> set ps \<Longrightarrow> set (ac_tools (fold (expandPatternWildcard cat ds dt) qs cfg)) =
      set (ac_tools cfg) - set qs \<union> (\<Union>p \<in> set qs. set (pattern_tools cat p ds dt))" for qs
    by (induction qs arbitrary: cfg) (auto simp: expandPatternWildcard_def tool_sets)
  show "set (ac_tools (fold (expandPatternWildcard cat ds dt) ps cfg)) = set (ac_tools cfg) - set ps \<union> (\<Union>p \<in> set ps. set (pattern_tools cat p ds dt))"
    by (rule *) simp
  show "ac_allowedTools (fold (expandPatternWildcard cat ds dt) ps cfg) = ac_allowedTools cfg"
    by (induction ps arbitrary: cfg) (auto simp: expandPatternWildcard_def tool_sets)
qed

lemma expand_allowed_patterns:
  assumes "names_ok cat s t" and "list_all is_wildcard ps"
  shows "set (ac_allowedTools (fold (expandAllowedPatternWildcard cat ds dt) ps cfg)) =
      set (ac_allowedTools cfg) - set ps \<union> (\<Union>p \<in> set ps. set (pattern_tools cat p ds dt))"
    and "ac_tools (fold (expandAllowedPatternWildcard cat ds dt) ps cfg) = ac_tools cfg"
proof -
  have "e \<notin> set ps" if "e \<in> set (pattern_tools cat p ds dt)" for e p
    using pattern_tools_plain [OF assms(1) that] assms(2) by (auto simp: plain_def list_all_iff)
  then have *: "set qs \<subseteq> set ps \<Longrightarrow> set (ac_allowedTools (fold (expandAllowedPatternWildcard cat ds dt) qs cfg)) =
      set (ac_allowedTools cfg) - set qs \<union> (\<Union>p \<in> set qs. set (pattern_tools cat p ds dt))" for qs
    by (induction qs arbitrary: cfg) (auto simp: expandAllowedPatternWildcard_def tool_sets)
  show "set (ac_allowedTools (fold (expandAllowedPatternWildcard cat ds dt) ps cfg)) =
      set (ac_allowedTools cfg) - set ps \<union> (\<Union>p \<in> set ps. set (pattern_tools cat p ds dt))"
    by (rule *) simp
  show "ac_tools (fold (expandAllowedPatternWildcard cat ds dt) ps cfg) = ac_tools cfg"
    by (induction ps arbitrary: cfg) (auto simp: expandAllowedPatternWildcard_def tool_sets)
qed

section \<open>The permission after a change\<close>

text \<open>
  A pattern without a slash is a pattern of servers: it is taken apart only when it matches the prefix of the server. A tool
  is also enabled by such a pattern when the pattern matches its whole id, across the slash.
\<close>

definition crossing :: "string \<Rightarrow> string \<Rightarrow> string \<Rightarrow> bool" where
  "crossing s t e = (is_wildcard e \<and> s \<noteq> [] \<and> is_server_pattern e \<and> \<not> matchesPattern (server_prefix s) e \<and> matchesPattern (tool_id s t) e)"

lemma pattern_enables_cases: "pattern_enables s t e = (removal_match s t e \<or> crossing s t e)"
  by (auto simp: pattern_enables_def removal_match_def crossing_def)

lemma removal_wildcards: "list_all is_wildcard (filter (removal_match s t) es)"
  by (auto simp: list_all_iff removal_match_def)

lemma allows_wildcards: "list_all is_wildcard (filter (pattern_allows s t) es)"
  by (auto simp: list_all_iff pattern_allows_def)

text \<open>The list of tools of a step: entries are removed and entries without wildcards are added.\<close>

definition plain_step :: "string set \<Rightarrow> string set \<Rightarrow> string set \<Rightarrow> bool" where
  "plain_step T D T' = (\<exists>A. T' = T - D \<union> A \<and> (\<forall>e \<in> A. plain e))"

lemma expandGlobalWildcard_step:
  assumes "names_ok cat s t"
  shows "plain_step (set (ac_tools cfg)) {''*''} (set (ac_tools (expandGlobalWildcard cat s t cfg)))"
    and "ac_allowedTools (expandGlobalWildcard cat s t cfg) = ac_allowedTools cfg"
proof -
  have b: "plain e" if "e \<in> set (getBuiltinTools cat)" for e
    using assms that by (auto simp: names_ok_def list_all_iff)
  show "plain_step (set (ac_tools cfg)) {''*''} (set (ac_tools (expandGlobalWildcard cat s t cfg)))"
  proof (cases "cat_getAvailableTools cat")
    case None
    then show ?thesis by (auto simp: plain_step_def expandGlobalWildcard_def intro!: exI [of _ "{}"])
  next
    case (Some available)
    let ?A = "set (catalog_tools available (\<lambda>_ _. True) (getAvailableServers cat) s t @ filter (\<lambda>x. \<not> (s = [] \<and> x = t)) (getBuiltinTools cat))"
    have "\<forall>e \<in> ?A. plain e" using catalog_tools_plain [OF assms Some] b by auto
    then show ?thesis
      unfolding plain_step_def by (intro exI [of _ ?A]) (auto simp: expandGlobalWildcard_def Some Let_def tool_sets)
  qed
  show "ac_allowedTools (expandGlobalWildcard cat s t cfg) = ac_allowedTools cfg"
    by (simp add: expandGlobalWildcard_def Let_def tool_sets split: option.split)
qed

lemma convertServerWide_step:
  assumes "names_ok cat s t"
  shows "plain_step (set (ac_tools cfg)) {''@'' @ s} (set (ac_tools (convertServerWideToIndividualTools cat s t cfg)))"
    and "ac_allowedTools (convertServerWideToIndividualTools cat s t cfg) = ac_allowedTools cfg"
proof -
  show "plain_step (set (ac_tools cfg)) {''@'' @ s} (set (ac_tools (convertServerWideToIndividualTools cat s t cfg)))"
  proof (cases "cat_getAvailableTools cat")
    case None
    then show ?thesis by (auto simp: plain_step_def convertServerWideToIndividualTools_def intro!: exI [of _ "{}"])
  next
    case (Some available)
    let ?A = "set (map (\<lambda>x. ''@'' @ s @ ''/'' @ x) (filter (\<lambda>x. x \<noteq> t) (available s)))"
    have "plain s" "list_all plain (available s)" using assms Some by (auto simp: names_ok_def server_ok_def)
    then have "\<forall>e \<in> ?A. plain e" by (auto simp: list_all_iff plain_def is_wildcard_def)
    then show ?thesis
      unfolding plain_step_def by (intro exI [of _ ?A]) (auto simp: convertServerWideToIndividualTools_def Some Let_def tool_sets)
  qed
  show "ac_allowedTools (convertServerWideToIndividualTools cat s t cfg) = ac_allowedTools cfg"
    by (simp add: convertServerWideToIndividualTools_def Let_def tool_sets split: option.split)
qed

lemma expandBuiltinWildcard_step:
  assumes "names_ok cat s t"
  shows "plain_step (set (ac_tools cfg)) {''@builtin''} (set (ac_tools (expandBuiltinWildcard cat t cfg)))"
    and "''@builtin'' \<notin> set (ac_tools (expandBuiltinWildcard cat t cfg))"
    and "ac_allowedTools (expandBuiltinWildcard cat t cfg) = ac_allowedTools cfg"
proof -
  have "\<forall>e \<in> set (getBuiltinTools cat). plain e" "''@builtin'' \<notin> set (getBuiltinTools cat)"
    using assms by (auto simp: names_ok_def list_all_iff)
  then show "plain_step (set (ac_tools cfg)) {''@builtin''} (set (ac_tools (expandBuiltinWildcard cat t cfg)))"
    "''@builtin'' \<notin> set (ac_tools (expandBuiltinWildcard cat t cfg))"
    by (auto simp: plain_step_def expandBuiltinWildcard_def tool_sets intro!: exI [of _ "set (filter (\<lambda>x. x \<noteq> t) (getBuiltinTools cat))"])
  show "ac_allowedTools (expandBuiltinWildcard cat t cfg) = ac_allowedTools cfg"
    by (simp add: expandBuiltinWildcard_def tool_sets)
qed

lemma removeMatching_set:
  assumes "names_ok cat s t"
  shows "set (ac_tools (removeMatchingPatternWildcards cat s t cfg)) =
      {e \<in> set (ac_tools cfg). \<not> removal_match s t e} \<union> (\<Union>p \<in> {e \<in> set (ac_tools cfg). removal_match s t e}. set (pattern_tools cat p s t))"
    and "ac_allowedTools (removeMatchingPatternWildcards cat s t cfg) = ac_allowedTools cfg"
  unfolding removeMatchingPatternWildcards_def
  by (auto simp: expand_patterns [OF assms removal_wildcards])

lemma plain_step_wildcards: "plain_step T D T' \<Longrightarrow> is_wildcard e \<Longrightarrow> e \<in> T' \<longleftrightarrow> e \<in> T \<and> e \<notin> D"
  by (auto simp: plain_step_def plain_def)

lemma plain_step_keep: "plain_step T D T' \<Longrightarrow> e \<in> T \<Longrightarrow> e \<notin> D \<Longrightarrow> e \<in> T'"
  by (auto simp: plain_step_def)

lemma star_wildcard: "is_wildcard ''*''"
  by (simp add: is_wildcard_def)

lemma id_has_slash: "s \<noteq> [] \<Longrightarrow> CHR ''/'' \<in> set (tool_id s t)"
  by (simp add: tool_id_def)

text \<open>The wildcards that are left after denying a tool, and the tools that are gone.\<close>

lemma deny_tools:
  fixes cat :: tool_catalog and s t :: string and cfg :: AgentConfig
  assumes ok: "names_ok cat s t"
  defines "T' \<equiv> set (ac_tools (removeConflictingWildcardsForDeny cat s t cfg))"
  shows "tool_id s t \<notin> T'" and "server_prefix s \<notin> T'" and "s = [] \<Longrightarrow> ''@builtin'' \<notin> T'"
    and "is_wildcard e \<Longrightarrow> e \<in> T' \<longleftrightarrow> e \<in> set (ac_tools cfg) \<and> e \<noteq> ''*'' \<and> \<not> removal_match s t e \<and> e \<noteq> tool_id s t \<and> e \<noteq> server_prefix s"
    and "ac_allowedTools (removeConflictingWildcardsForDeny cat s t cfg) = ac_allowedTools cfg"
proof -
  define p where "p = server_prefix s"
  define cfg1 where "cfg1 = (if ''*'' \<in> set (ac_tools cfg) then expandGlobalWildcard cat s t cfg else cfg)"
  define cfg2 where "cfg2 = (if p \<noteq> [] \<and> p \<in> set (ac_tools cfg1) then convertServerWideToIndividualTools cat s t cfg1 else cfg1)"
  define cfg3 where "cfg3 = (if s = [] \<and> ''@builtin'' \<in> set (ac_tools cfg2) then expandBuiltinWildcard cat t cfg2 else cfg2)"
  define cfg4 where "cfg4 = removeMatchingPatternWildcards cat s t cfg3"
  have eq: "removeConflictingWildcardsForDeny cat s t cfg = removeTool (tool_id s t) p cfg4"
    unfolding cfg4_def cfg3_def cfg2_def cfg1_def p_def by (simp only: removeConflictingWildcardsForDeny_def Let_def)
  have T': "T' = set (ac_tools cfg4) - {tool_id s t, p}"
    by (auto simp: T'_def eq removeTool_def)
  have a1: "ac_allowedTools cfg1 = ac_allowedTools cfg" by (simp add: cfg1_def expandGlobalWildcard_step(2) [OF ok])
  have a2: "ac_allowedTools cfg2 = ac_allowedTools cfg1" by (simp add: cfg2_def convertServerWide_step(2) [OF ok])
  have a3: "ac_allowedTools cfg3 = ac_allowedTools cfg2" by (simp add: cfg3_def expandBuiltinWildcard_step(3) [OF ok])
  have pl: "plain p" using ok by (auto simp: p_def server_prefix_def names_ok_def server_ok_def plain_def is_wildcard_def)
  have pa: "p \<noteq> [] \<Longrightarrow> p = ''@'' @ s" by (auto simp: p_def server_prefix_def split: if_splits)
  have w1: "is_wildcard e \<Longrightarrow> e \<in> set (ac_tools cfg1) \<longleftrightarrow> e \<in> set (ac_tools cfg) \<and> e \<noteq> ''*''" for e
    using plain_step_wildcards [OF expandGlobalWildcard_step(1) [OF ok], of e cfg] by (auto simp: cfg1_def)
  have w2: "is_wildcard e \<Longrightarrow> e \<in> set (ac_tools cfg2) \<longleftrightarrow> e \<in> set (ac_tools cfg1)" for e
    using plain_step_wildcards [OF convertServerWide_step(1) [OF ok], of e cfg1] pl pa by (auto simp: cfg2_def plain_def)
  have w3: "is_wildcard e \<Longrightarrow> e \<in> set (ac_tools cfg3) \<longleftrightarrow> e \<in> set (ac_tools cfg2)" for e
    using plain_step_wildcards [OF expandBuiltinWildcard_step(1) [OF ok], of e cfg2] plain_literals(3)
    by (auto simp: cfg3_def plain_def)
  note m = removeMatching_set [OF ok, of cfg3, folded cfg4_def]
  have w4: "is_wildcard e \<Longrightarrow> e \<in> set (ac_tools cfg4) \<longleftrightarrow> e \<in> set (ac_tools cfg3) \<and> \<not> removal_match s t e" for e
    using pattern_tools_plain [OF ok] by (auto simp: m(1) plain_def)
  show "tool_id s t \<notin> T'" "server_prefix s \<notin> T'" by (auto simp: T' p_def)
  show "is_wildcard e \<Longrightarrow> e \<in> T' \<longleftrightarrow> e \<in> set (ac_tools cfg) \<and> e \<noteq> ''*'' \<and> \<not> removal_match s t e \<and> e \<noteq> tool_id s t \<and> e \<noteq> server_prefix s"
    using w1 [of e] w2 [of e] w3 [of e] w4 [of e] by (auto simp: T' p_def)
  show "''@builtin'' \<notin> T'" if "s = []"
  proof -
    have "''@builtin'' \<notin> set (ac_tools cfg3)"
      using that expandBuiltinWildcard_step(2) [OF ok] by (simp add: cfg3_def)
    then show ?thesis
      using pattern_tools_slash by (fastforce simp: T' m(1))
  qed
  show "ac_allowedTools (removeConflictingWildcardsForDeny cat s t cfg) = ac_allowedTools cfg"
    unfolding eq using a1 a2 a3 m(2) by (simp add: removeTool_def)
qed

lemma deny_enabled:
  assumes "names_ok cat s t"
  shows "isToolEnabled (removeConflictingWildcardsForDeny cat s t cfg) s t \<longleftrightarrow> list_ex (crossing s t) (ac_tools cfg)"
proof -
  note d = deny_tools [OF assms, where cfg = cfg]
  have cross: "e \<noteq> ''*'' \<and> e \<noteq> tool_id s t \<and> e \<noteq> server_prefix s \<and> \<not> removal_match s t e \<and> is_wildcard e" if "crossing s t e" for e
    using that id_has_slash [of s t]
    by (auto simp: crossing_def is_server_pattern_def startsWith_prefix matchesPattern_def removal_match_def)
  have "list_ex (pattern_enables s t) (ac_tools (removeConflictingWildcardsForDeny cat s t cfg)) \<longleftrightarrow> list_ex (crossing s t) (ac_tools cfg)"
  proof -
    have "(e \<in> set (ac_tools (removeConflictingWildcardsForDeny cat s t cfg)) \<and> pattern_enables s t e) \<longleftrightarrow> (e \<in> set (ac_tools cfg) \<and> crossing s t e)" for e
      using d(4) [of e] cross [of e] pattern_enables_cases [of s t e] by (auto simp: removal_match_def)
    then show ?thesis by (auto simp: list_ex_iff)
  qed
  moreover have "''*'' \<notin> set (ac_tools (removeConflictingWildcardsForDeny cat s t cfg))"
    using d(4) [OF star_wildcard] by simp
  ultimately show ?thesis
    using d(1-3) by (auto simp: isToolEnabled_def)
qed

lemma allowed_removed:
  assumes "names_ok cat s t"
  shows "\<not> isToolAlwaysAllowed (removeConflictingAllowedWildcards cat s t cfg) s t"
    and "ac_tools (removeConflictingAllowedWildcards cat s t cfg) = ac_tools cfg"
proof -
  let ?cfg1 = "cfg\<lparr>ac_allowedTools := filter (\<lambda>e. e \<noteq> tool_id s t \<and> e \<noteq> server_prefix s) (ac_allowedTools cfg)\<rparr>"
  let ?ps = "filter (pattern_allows s t) (ac_allowedTools ?cfg1)"
  note e = expand_allowed_patterns [OF assms allows_wildcards [of s t "ac_allowedTools ?cfg1"], where ds = s and dt = t and cfg = ?cfg1]
  have S: "set (ac_allowedTools (removeConflictingAllowedWildcards cat s t cfg)) =
      set (ac_allowedTools ?cfg1) - set ?ps \<union> (\<Union>p \<in> set ?ps. set (pattern_tools cat p s t))"
    unfolding removeConflictingAllowedWildcards_def Let_def by (rule e(1))
  have "list_ex (pattern_allows s t) (ac_allowedTools (removeConflictingAllowedWildcards cat s t cfg)) = False"
    unfolding list_ex_iff S using pattern_tools_plain [OF assms] by (auto simp: pattern_allows_def plain_def)
  moreover have "tool_id s t \<notin> set (ac_allowedTools (removeConflictingAllowedWildcards cat s t cfg))"
    "server_prefix s \<notin> set (ac_allowedTools (removeConflictingAllowedWildcards cat s t cfg))"
    unfolding S using pattern_tools_other [OF assms] by auto
  ultimately show "\<not> isToolAlwaysAllowed (removeConflictingAllowedWildcards cat s t cfg) s t"
    by (simp add: isToolAlwaysAllowed_def)
  show "ac_tools (removeConflictingAllowedWildcards cat s t cfg) = ac_tools cfg"
    unfolding removeConflictingAllowedWildcards_def Let_def by (rule trans [OF e(2)]) simp
qed

lemma isToolEnabled_tools: "ac_tools cfg = ac_tools cfg' \<Longrightarrow> isToolEnabled cfg s t = isToolEnabled cfg' s t"
  by (simp add: isToolEnabled_def)

lemma permission_not_allowed:
  "\<not> isToolAlwaysAllowed cfg s t \<Longrightarrow> getToolPermission cfg s t = (if isToolEnabled cfg s t then ask else deny)"
  by (auto simp: getToolPermission_def Let_def isToolAlwaysAllowed_def isToolEnabled_def)

lemma permission_allowed:
  "isToolAlwaysAllowed cfg s t \<Longrightarrow> isToolEnabled cfg s t \<Longrightarrow> getToolPermission cfg s t = alwaysAllow"
  by (auto simp: getToolPermission_def Let_def)

text \<open>
  C24. After the permission of a tool was changed, the tool has the new permission, with one exception that is given
  exactly: a denied tool of a server is still asked for, not denied, when the enabled tools hold a pattern of
  servers that matches the id of the tool across the slash but not the prefix of its server.
\<close>

theorem changed_permission:
  assumes "names_ok cat s t"
  shows "getToolPermission (setToolPermission cat s t p cfg) s t =
     (if p = deny \<and> list_ex (crossing s t) (ac_tools cfg) then ask else p)"
proof (cases p)
  case alwaysAllow
  have e: "isToolEnabled (addTool (tool_id s t) c) s t" "isToolAlwaysAllowed (addToAllowedTools (tool_id s t) c) s t"
    "isToolEnabled (addToAllowedTools (tool_id s t) c) s t = isToolEnabled c s t" for c
    by (simp_all add: isToolEnabled_def addTool_def isToolAlwaysAllowed_def addToAllowedTools_def push_new_set)
  show ?thesis
    by (simp add: alwaysAllow setToolPermission_def Let_def permission_allowed e)
next
  case ask
  have "\<not> isToolAlwaysAllowed (addTool i c) s t" if "\<not> isToolAlwaysAllowed c s t" for i c
    using that by (simp add: isToolAlwaysAllowed_def addTool_def)
  moreover have "isToolEnabled (addTool (tool_id s t) c) s t" for c
    by (simp add: isToolEnabled_def addTool_def push_new_set)
  ultimately show ?thesis
    using allowed_removed(1) [OF assms, of cfg] by (simp add: ask setToolPermission_def Let_def permission_not_allowed)
next
  case deny
  let ?c = "removeConflictingWildcardsForDeny cat s t cfg"
  have "isToolEnabled (removeConflictingAllowedWildcards cat s t ?c) s t = isToolEnabled ?c s t"
    by (rule isToolEnabled_tools [OF allowed_removed(2) [OF assms]])
  then show ?thesis
    using allowed_removed(1) [OF assms, of ?c] deny_enabled [OF assms, of cfg]
    by (simp add: deny setToolPermission_def permission_not_allowed)
qed

definition sample_catalog :: tool_catalog where
  "sample_catalog = \<lparr>cat_getAvailableTools = Some (\<lambda>s. if s = ''git'' then [''log'', ''push''] else [''read'', ''write'']),
     cat_getAllAvailableServers = Some [''git'', ''fs''], cat_getAllBuiltinTools = Some [''fsRead'', ''fsWrite'']\<rparr>"

definition sample_config :: "string list \<Rightarrow> AgentConfig" where
  "sample_config ts = \<lparr>ac_tools = ts, ac_allowedTools = [''@g*'', ''@fs/read'']\<rparr>"

theorem changed_permission_witness:
  "getToolPermission (setToolPermission sample_catalog ''git'' ''push'' deny (sample_config [''*'', ''@git''])) ''git'' ''push'' =
     (if deny = deny \<and> list_ex (crossing ''git'' ''push'') (ac_tools (sample_config [''*'', ''@git''])) then ask else deny)"
  by (rule changed_permission) code_simp

text \<open>A denied tool that can still be run: the pattern reaches over the slash.\<close>

lemma denied_tool_still_enabled:
  "getToolPermission (setToolPermission sample_catalog ''git'' ''push'' deny (sample_config [''@g*sh''])) ''git'' ''push'' = ask"
  by code_simp

text \<open>Denying one built-in tool that a pattern covers disables the other built-in tools of the pattern as well.\<close>

lemma denied_builtin_takes_others_along:
  "getToolPermission (sample_config [''fs*'']) [] ''fsWrite'' = ask"
  "getToolPermission (setToolPermission sample_catalog [] ''fsRead'' deny (sample_config [''fs*''])) [] ''fsWrite'' = deny"
  by code_simp+

text \<open>A tool that is listed as allowed is always allowed even when it is not enabled.\<close>

lemma allowed_without_enabled:
  "\<not> isToolEnabled (sample_config []) ''fs'' ''read'' \<and> getToolPermission (sample_config []) ''fs'' ''read'' = alwaysAllow"
  by code_simp

section \<open>The other tools\<close>

text \<open>What is enabled without a crossing pattern.\<close>

definition cleanly_enabled :: "string set \<Rightarrow> string \<Rightarrow> string \<Rightarrow> bool" where
  "cleanly_enabled T s t =
     (tool_id s t \<in> T \<or> server_prefix s \<in> T \<or> ''*'' \<in> T \<or> (\<exists>e \<in> T. removal_match s t e))"

text \<open>A tool of a server in the catalog.\<close>

definition in_catalog :: "tool_catalog \<Rightarrow> string \<Rightarrow> string \<Rightarrow> bool" where
  "in_catalog cat s t =
     (s \<noteq> [] \<and> s \<in> set (getAvailableServers cat) \<and> (case cat_getAvailableTools cat of None \<Rightarrow> False | Some available \<Rightarrow> t \<in> set (available s)))"

lemma cleanly_enabled_step:
  assumes "cleanly_enabled T s' t'" and "\<And>e. e \<in> T \<Longrightarrow> e \<notin> T' \<Longrightarrow> e \<in> {tool_id s' t', server_prefix s', ''*''} \<or> removal_match s' t' e \<Longrightarrow> tool_id s' t' \<in> T'"
  shows "cleanly_enabled T' s' t'"
  using assms unfolding cleanly_enabled_def by blast

lemma catalog_id: "s' \<noteq> [] \<Longrightarrow> tool_id s' t' = ''@'' @ s' @ ''/'' @ t'"
  by (simp add: tool_id_def)

lemma expandGlobalWildcard_adds:
  assumes "in_catalog cat s' t'" and "(s', t') \<noteq> (s, t)"
  shows "tool_id s' t' \<in> set (ac_tools (expandGlobalWildcard cat s t cfg))"
  using assms by (auto simp: in_catalog_def expandGlobalWildcard_def Let_def tool_sets catalog_tools_set catalog_id split: option.splits)

lemma convertServerWide_adds:
  assumes "in_catalog cat s t'" and "t' \<noteq> t"
  shows "tool_id s t' \<in> set (ac_tools (convertServerWideToIndividualTools cat s t cfg))"
  using assms by (auto simp: in_catalog_def convertServerWideToIndividualTools_def Let_def tool_sets catalog_id split: option.splits)

lemma pattern_tools_adds:
  assumes "in_catalog cat s' t'" and "(s', t') \<noteq> (s, t)" and "removal_match s' t' p"
  shows "tool_id s' t' \<in> set (pattern_tools cat p s t)"
  using assms
  by (auto simp: in_catalog_def pattern_tools_def catalog_tools_set catalog_id removal_match_def server_prefix_def split: option.splits if_splits)

lemma global_keeps:
  assumes "names_ok cat s t" and "in_catalog cat s' t'" and "(s', t') \<noteq> (s, t)" and "cleanly_enabled (set (ac_tools cfg)) s' t'"
  shows "cleanly_enabled (set (ac_tools (if ''*'' \<in> set (ac_tools cfg) then expandGlobalWildcard cat s t cfg else cfg))) s' t'"
proof (cases "''*'' \<in> set (ac_tools cfg)")
  case True
  then show ?thesis using expandGlobalWildcard_adds [OF assms(2,3), of cfg] by (simp add: cleanly_enabled_def)
qed (simp add: assms(4))

lemma server_wide_keeps:
  assumes "names_ok cat s t" and "in_catalog cat s' t'" and "(s', t') \<noteq> (s, t)" and "names_ok cat s' t'" and "s \<noteq> []"
    and "cleanly_enabled (set (ac_tools cfg)) s' t'"
  shows "cleanly_enabled (set (ac_tools (convertServerWideToIndividualTools cat s t cfg))) s' t'"
proof (rule cleanly_enabled_step [OF assms(6)])
  fix e
  assume e: "e \<in> set (ac_tools cfg)" "e \<notin> set (ac_tools (convertServerWideToIndividualTools cat s t cfg))"
    and c: "e \<in> {tool_id s' t', server_prefix s', ''*''} \<or> removal_match s' t' e"
  have "e = ''@'' @ s"
    using plain_step_keep [OF convertServerWide_step(1) [OF assms(1)] e(1)] e(2) by auto
  moreover have "plain s" "CHR ''/'' \<notin> set s" "s' \<noteq> []"
    using assms(1,2) by (auto simp: names_ok_def server_ok_def in_catalog_def)
  ultimately have "e = server_prefix s'"
    using c by (auto simp: catalog_id removal_match_def plain_def is_wildcard_def)
  then have "s' = s" using \<open>e = ''@'' @ s\<close> \<open>s' \<noteq> []\<close> by (simp add: server_prefix_def)
  then show "tool_id s' t' \<in> set (ac_tools (convertServerWideToIndividualTools cat s t cfg))"
    using convertServerWide_adds [of cat s t' t cfg] assms(2,3) by simp
qed

lemma builtin_keeps:
  assumes "names_ok cat s t" and "in_catalog cat s' t'" and "names_ok cat s' t'" and "s' \<noteq> ''builtin''" and "cleanly_enabled (set (ac_tools cfg)) s' t'"
  shows "cleanly_enabled (set (ac_tools (expandBuiltinWildcard cat t cfg))) s' t'"
proof (rule cleanly_enabled_step [OF assms(5)])
  fix e
  assume e: "e \<in> set (ac_tools cfg)" "e \<notin> set (ac_tools (expandBuiltinWildcard cat t cfg))"
    and c: "e \<in> {tool_id s' t', server_prefix s', ''*''} \<or> removal_match s' t' e"
  have "e = ''@builtin''"
    using plain_step_keep [OF expandBuiltinWildcard_step(1) [OF assms(1)] e(1)] e(2) by auto
  moreover have "s' \<noteq> []" using assms(2) by (simp add: in_catalog_def)
  ultimately have False
    using c assms(4) by (auto simp: tool_id_def server_prefix_def removal_match_def is_wildcard_def Cons_eq_append_conv)
  then show "tool_id s' t' \<in> set (ac_tools (expandBuiltinWildcard cat t cfg))" ..
qed

lemma patterns_keep:
  assumes "names_ok cat s t" and "in_catalog cat s' t'" and "(s', t') \<noteq> (s, t)" and "names_ok cat s' t'" and "plain t'" and "''*'' \<notin> set (ac_tools cfg)"
    and "cleanly_enabled (set (ac_tools cfg)) s' t'"
  shows "cleanly_enabled (set (ac_tools (removeMatchingPatternWildcards cat s t cfg))) s' t'"
proof (rule cleanly_enabled_step [OF assms(7)])
  fix e
  assume e: "e \<in> set (ac_tools cfg)" "e \<notin> set (ac_tools (removeMatchingPatternWildcards cat s t cfg))"
    and c: "e \<in> {tool_id s' t', server_prefix s', ''*''} \<or> removal_match s' t' e"
  have r: "removal_match s t e" using e by (simp add: removeMatching_set(1) [OF assms(1)])
  then have "is_wildcard e" by (simp add: removal_match_def)
  moreover have "s' \<noteq> []" "plain s'" using assms(2,4) by (auto simp: in_catalog_def names_ok_def server_ok_def)
  moreover have "e \<noteq> ''*''" using e(1) assms(6) by auto
  ultimately have "removal_match s' t' e"
    using c assms(5) by (auto simp: tool_id_def server_prefix_def plain_def is_wildcard_def)
  then have "tool_id s' t' \<in> set (pattern_tools cat e s t)"
    by (rule pattern_tools_adds [OF assms(2,3)])
  then show "tool_id s' t' \<in> set (ac_tools (removeMatchingPatternWildcards cat s t cfg))"
    using e(1) r by (auto simp: removeMatching_set(1) [OF assms(1)])
qed

text \<open>The last step removes the entry of the tool and of its server.\<close>

lemma kept_after_removal:
  assumes "names_ok cat s t" and "names_ok cat s' t'" and "(s', t') \<noteq> (s, t)" and "s' \<noteq> []" and "plain t"
    and "cleanly_enabled (set (ac_tools cfg)) s' t'" and "s = [] \<or> server_prefix s \<notin> set (ac_tools cfg)" and "''*'' \<notin> set (ac_tools cfg)"
  shows "isToolEnabled (removeTool (tool_id s t) (server_prefix s) cfg) s' t'"
proof -
  have ok: "CHR ''/'' \<notin> set s" "CHR ''/'' \<notin> set s'" "plain s" "plain s'" "s = [] \<Longrightarrow> \<not> startsWith t ''@''"
    using assms(1,2) by (auto simp: names_ok_def server_ok_def)
  have i: "tool_id s' t' \<noteq> tool_id s t" "tool_id s' t' \<noteq> server_prefix s"
    using same_id [of s' t' s t] ok assms(3,4) by (auto simp: tool_id_def server_prefix_def startsWith_prefix)
  have p: "server_prefix s' \<noteq> tool_id s t"
    using ok assms(4) by (auto simp: tool_id_def server_prefix_def startsWith_prefix)
  have p': "server_prefix s' \<noteq> server_prefix s" if "server_prefix s' \<in> set (ac_tools cfg)"
    using that assms(4,7) by (auto simp: server_prefix_def)
  have w: "e \<noteq> tool_id s t \<and> e \<noteq> server_prefix s" if "is_wildcard e" for e
    using that ok(3) assms(5) by (auto simp: tool_id_def server_prefix_def plain_def is_wildcard_def)
  consider "tool_id s' t' \<in> set (ac_tools cfg)" | "server_prefix s' \<in> set (ac_tools cfg)"
    | e where "e \<in> set (ac_tools cfg)" "removal_match s' t' e"
    using assms(6,8) by (auto simp: cleanly_enabled_def)
  then show ?thesis
  proof cases
    case 1
    with i show ?thesis by (simp add: isToolEnabled_def removeTool_def)
  next
    case 2
    with p p' assms(4) show ?thesis by (simp add: isToolEnabled_def removeTool_def server_prefix_def)
  next
    case (3 e)
    then have "pattern_enables s' t' e" "e \<noteq> tool_id s t \<and> e \<noteq> server_prefix s"
      using w by (auto simp: pattern_enables_cases removal_match_def)
    with 3(1) show ?thesis by (auto simp: isToolEnabled_def removeTool_def list_ex_iff)
  qed
qed

lemma converted_prefix_gone:
  assumes "CHR ''/'' \<notin> set s"
  shows "''@'' @ s \<notin> set (ac_tools (convertServerWideToIndividualTools cat s t cfg))"
  using assms by (auto simp: convertServerWideToIndividualTools_def Let_def tool_sets split: option.splits)

text \<open>
  Denying a tool takes nothing from the other tools of the servers in the catalog: one that is enabled, by its id, its
  server, the global wildcard or a pattern that is not a server pattern reaching over the slash, stays enabled.
\<close>

theorem denying_keeps_other_tools:
  assumes "names_ok cat s t" and "names_ok cat s' t'" and "in_catalog cat s' t'" and "plain t'" and "(s', t') \<noteq> (s, t)" and "s' \<noteq> ''builtin''"
    and "isToolEnabled cfg s' t'" and "\<not> list_ex (crossing s' t') (ac_tools cfg)" and "plain t"
  shows "isToolEnabled (setToolPermission cat s t deny cfg) s' t'"
proof -
  have ne: "s' \<noteq> []" using assms(3) by (simp add: in_catalog_def)
  have clean: "cleanly_enabled (set (ac_tools cfg)) s' t'"
    using assms(7,8) ne by (auto simp: isToolEnabled_def cleanly_enabled_def list_ex_iff pattern_enables_cases)
  define p where "p = server_prefix s"
  define cfg1 where "cfg1 = (if ''*'' \<in> set (ac_tools cfg) then expandGlobalWildcard cat s t cfg else cfg)"
  define cfg2 where "cfg2 = (if p \<noteq> [] \<and> p \<in> set (ac_tools cfg1) then convertServerWideToIndividualTools cat s t cfg1 else cfg1)"
  define cfg3 where "cfg3 = (if s = [] \<and> ''@builtin'' \<in> set (ac_tools cfg2) then expandBuiltinWildcard cat t cfg2 else cfg2)"
  define cfg4 where "cfg4 = removeMatchingPatternWildcards cat s t cfg3"
  have eq: "removeConflictingWildcardsForDeny cat s t cfg = removeTool (tool_id s t) p cfg4"
    unfolding cfg4_def cfg3_def cfg2_def cfg1_def p_def by (simp only: removeConflictingWildcardsForDeny_def Let_def)
  have star1: "''*'' \<notin> set (ac_tools cfg1)"
    using plain_step_wildcards [OF expandGlobalWildcard_step(1) [OF assms(1)] star_wildcard] by (simp add: cfg1_def)
  have star2: "''*'' \<notin> set (ac_tools cfg2)"
    using star1 plain_step_wildcards [OF convertServerWide_step(1) [OF assms(1)] star_wildcard] by (simp add: cfg2_def)
  have star3: "''*'' \<notin> set (ac_tools cfg3)"
    using star2 plain_step_wildcards [OF expandBuiltinWildcard_step(1) [OF assms(1)] star_wildcard] by (simp add: cfg3_def)
  have "cleanly_enabled (set (ac_tools cfg1)) s' t'"
    unfolding cfg1_def by (rule global_keeps [OF assms(1,3,5) clean])
  then have "cleanly_enabled (set (ac_tools cfg2)) s' t'"
    unfolding cfg2_def using server_wide_keeps [OF assms(1,3,5,2)] by (auto simp: p_def server_prefix_def split: if_splits)
  then have "cleanly_enabled (set (ac_tools cfg3)) s' t'"
    unfolding cfg3_def using builtin_keeps [OF assms(1,3,2,6)] by auto
  then have c4: "cleanly_enabled (set (ac_tools cfg4)) s' t'"
    unfolding cfg4_def by (rule patterns_keep [OF assms(1,3,5,2,4) star3])
  have star4: "''*'' \<notin> set (ac_tools cfg4)"
    using star3 pattern_tools_plain [OF assms(1), of "''*''"] by (auto simp: cfg4_def removeMatching_set(1) [OF assms(1)])
  have "s = [] \<or> p \<notin> set (ac_tools cfg4)"
  proof (cases "s = []")
    case False
    then have p: "p = ''@'' @ s" "CHR ''/'' \<notin> set p" "p \<noteq> []"
      using assms(1) by (auto simp: p_def server_prefix_def names_ok_def server_ok_def)
    then have "p \<notin> set (ac_tools cfg2)" using converted_prefix_gone [of s cat t cfg1] by (auto simp: cfg2_def)
    then show ?thesis
      using False p(2) pattern_tools_slash by (auto simp: cfg4_def cfg3_def removeMatching_set(1) [OF assms(1)])
  qed simp
  then show ?thesis
    using kept_after_removal [OF assms(1,2,5) ne assms(9) c4 _ star4] unfolding setToolPermission_def
    by (simp add: isToolEnabled_tools [OF allowed_removed(2) [OF assms(1)]] eq p_def)
qed

theorem denying_keeps_other_tools_witness:
  "isToolEnabled (setToolPermission sample_catalog ''git'' ''push'' deny (sample_config [''*''])) ''git'' ''log''"
  by (rule denying_keeps_other_tools; code_simp)

end
