(* ===== verification/Tool_Paths.thy ===== *)
theory Tool_Paths
  imports Prelude "HOL-Library.Sublist"
begin

text \<open>
  Paths and the workspace boundary (\<^verbatim>\<open>isParentFolder\<close> and \<^verbatim>\<open>isInWorkspace\<close> of \<^verbatim>\<open>aws-lsp-core/src/util/workspaceUtils.ts\<close>, \<^verbatim>\<open>agenticChat/tools/toolShared.ts\<close>).
  The functions of the path module are those of POSIX systems. A resolved path is the list of its segments, the
  root is the empty list.
\<close>

section \<open>The path module\<close>

definition is_absolute :: "string \<Rightarrow> bool" where
  "is_absolute p = startsWith p ''/''"

fun norm_segments :: "string list \<Rightarrow> string list \<Rightarrow> string list" where
  "norm_segments acc [] = rev acc"
| "norm_segments acc (s # ss) =
     (if s = [] \<or> s = ''.'' then norm_segments acc ss
      else if s = ''..'' then norm_segments (tl acc) ss
      else norm_segments (s # acc) ss)"

text \<open>\<^verbatim>\<open>resolve(p)\<close> with the working directory of the process, and \<^verbatim>\<open>resolve(base, p)\<close>.\<close>

definition resolve :: "string \<Rightarrow> string \<Rightarrow> string list" where
  "resolve cwd p = norm_segments [] (split_on CHR ''/'' (if is_absolute p then p else cwd @ ''/'' @ p))"

definition resolve_from :: "string \<Rightarrow> string \<Rightarrow> string \<Rightarrow> string list" where
  "resolve_from cwd base p = resolve cwd (if is_absolute p then p else base @ ''/'' @ p)"

definition show_path :: "string list \<Rightarrow> string" where
  "show_path segs = ''/'' @ join_with ''/'' segs"

text \<open>\<^verbatim>\<open>relative(a, b)\<close> of resolved paths is not empty and does not begin with two dots.\<close>

fun relative_below :: "string list \<Rightarrow> string list \<Rightarrow> bool" where
  "relative_below [] [] = False"
| "relative_below [] (b # bs) = (\<not> startsWith b ''..'')"
| "relative_below (a # as) [] = False"
| "relative_below (a # as) (b # bs) = (a = b \<and> relative_below as bs)"

section \<open>The workspace\<close>

record path_env =
  pe_cwd :: string
  pe_ignoreCase :: bool
  pe_exists :: "string list \<Rightarrow> bool"
  pe_workspaceFolders :: "string list"

text \<open>Normalising a path before it is resolved changes nothing, so only the case is left of the first steps.\<close>

definition isParentFolder :: "path_env \<Rightarrow> string \<Rightarrow> string \<Rightarrow> bool" where
  "isParentFolder E parentPath childPath =
     (let c = (if pe_ignoreCase E then toLowerCase else id)
      in relative_below (resolve (pe_cwd E) (c parentPath)) (resolve (pe_cwd E) (c childPath)))"

definition isInWorkspace :: "path_env \<Rightarrow> string list \<Rightarrow> string \<Rightarrow> bool" where
  "isInWorkspace E folders filepath =
     (if is_absolute filepath
      then let p = show_path (resolve (pe_cwd E) filepath)
           in list_ex (\<lambda>f. let w = show_path (resolve (pe_cwd E) f) in isParentFolder E w p \<or> w = p) folders
      else list_ex (\<lambda>f. let w = show_path (resolve (pe_cwd E) f); p = resolve_from (pe_cwd E) f filepath
                        in pe_exists E p \<and> (isParentFolder E w (show_path p) \<or> w = show_path p)) folders)"

section \<open>Approved paths\<close>

fun join_double_backslashes :: "string \<Rightarrow> string" where
  "join_double_backslashes (a # b # s) =
     (if a = CHR 0x5C \<and> b = CHR 0x5C then CHR ''/'' # join_double_backslashes s else a # join_double_backslashes (b # s))"
| "join_double_backslashes s = s"

definition isPathApproved :: "path_env \<Rightarrow> string \<Rightarrow> string \<Rightarrow> (string \<times> string list) list option \<Rightarrow> bool" where
  "isPathApproved E filePath toolName approvedPaths =
     (case approvedPaths of
        None \<Rightarrow> False
      | Some m \<Rightarrow>
          (case map_get m toolName of
             None \<Rightarrow> False
           | Some toolPaths \<Rightarrow>
               (let n = join_double_backslashes filePath
                in filePath \<in> set toolPaths \<or> n \<in> set toolPaths
                   \<or> list_ex (\<lambda>a. let m = join_double_backslashes a
                                  in isParentFolder E m n
                                     \<or> isParentFolder E (if endsWith m ''/'' then butlast m else m @ ''/'') n) toolPaths)))"

section \<open>Symbolic links\<close>

datatype file_kind = Missing | Symlink string | Present

text \<open>What the file system answers about a resolved path: its kind, and its real path when that can be found.\<close>

record link_fs =
  lf_lstat :: "string list \<Rightarrow> file_kind"
  lf_realpath :: "string list \<Rightarrow> string list option"

partial_function (option) resolve_links :: "link_fs \<Rightarrow> string \<Rightarrow> string list list \<Rightarrow> string list \<Rightarrow> string list option" where
  "resolve_links F cwd visited current =
     (case lf_lstat F current of
        Missing \<Rightarrow>
          if current = [] then Some current
          else Option.bind (resolve_links F cwd [] (butlast current)) (\<lambda>r. Some (r @ [last current]))
      | Symlink target \<Rightarrow>
          if current \<in> set visited then Some current
          else resolve_links F cwd (current # visited) (resolve_from cwd (show_path (butlast current)) target)
      | Present \<Rightarrow> Some (case lf_realpath F current of None \<Rightarrow> current | Some r \<Rightarrow> r))"

definition resolveSymlinkAwarePath :: "link_fs \<Rightarrow> string \<Rightarrow> string \<Rightarrow> string list option" where
  "resolveSymlinkAwarePath F cwd inputPath = resolve_links F cwd [] (resolve cwd inputPath)"

definition canonicalizeWorkspaceFolders :: "link_fs \<Rightarrow> string \<Rightarrow> string list \<Rightarrow> string list list" where
  "canonicalizeWorkspaceFolders F cwd folders =
     map (\<lambda>f. case lf_realpath F (resolve cwd f) of Some r \<Rightarrow> r | None \<Rightarrow> resolve cwd f) folders"

record CommandValidation =
  cval_requiresAcceptance :: bool
  cval_warning :: "string option"

definition private_then_key :: "string \<Rightarrow> bool" where
  "private_then_key s =
     list_ex (\<lambda>i. startsWith (drop i s) ''private'' \<and> includes_str (takeWhile (\<lambda>c. c \<noteq> CHR 0x0A \<and> c \<noteq> CHR 0x0D) (drop (i + 7) s)) ''key'') [0..<length s]"

definition isSensitivePath :: "string \<Rightarrow> bool" where
  "isSensitivePath p =
     (let l = toLowerCase p
      in includes_str p ''/.ssh/'' \<or> includes_str p ''/.aws/'' \<or> endsWith p ''/.env'' \<or> includes_str p ''/.env.''
         \<or> includes_str l ''password'' \<or> includes_str l ''secret'' \<or> includes_str l ''credential'' \<or> private_then_key l
         \<or> includes_str p ''/etc/'' \<or> includes_str p ''/proc/'' \<or> includes_str p ''/sys/'' \<or> includes_str p ''/dev/'')"

text \<open>The answer; nothing when resolving the links never ends.\<close>

definition requiresPathAcceptance ::
    "path_env \<Rightarrow> link_fs \<Rightarrow> string \<Rightarrow> string \<Rightarrow> (string \<times> string list) list option \<Rightarrow> CommandValidation option" where
  "requiresPathAcceptance E F inputPath toolName approvedPaths =
     (case resolveSymlinkAwarePath F (pe_cwd E) inputPath of
        None \<Rightarrow> None
      | Some c \<Rightarrow>
          (let canonical = show_path c
           in Some (if isPathApproved E canonical toolName approvedPaths then \<lparr>cval_requiresAcceptance = False, cval_warning = None\<rparr>
                    else if pe_workspaceFolders E = [] then \<lparr>cval_requiresAcceptance = True, cval_warning = None\<rparr>
                    else if isInWorkspace E (map show_path (canonicalizeWorkspaceFolders F (pe_cwd E) (pe_workspaceFolders E))) canonical
                    then \<lparr>cval_requiresAcceptance = False, cval_warning = None\<rparr>
                    else if isSensitivePath inputPath \<or> isSensitivePath canonical
                    then \<lparr>cval_requiresAcceptance = True, cval_warning = Some ''Access to sensitive system files requires explicit approval''\<rparr>
                    else \<lparr>cval_requiresAcceptance = True, cval_warning = None\<rparr>)))"

section \<open>Resolved paths\<close>

definition canonical :: "string list \<Rightarrow> bool" where
  "canonical segs = list_all (\<lambda>s. s \<notin> {[], ''.'', ''..''} \<and> CHR ''/'' \<notin> set s) segs"

lemma norm_segments_canonical:
  "list_all (\<lambda>s. CHR ''/'' \<notin> set s) ss \<Longrightarrow> canonical (rev acc) \<Longrightarrow> canonical (norm_segments acc ss)"
proof (induction acc ss rule: norm_segments.induct)
  case (2 acc s ss)
  have "canonical (rev (tl acc))"
    using "2.prems"(2) by (cases acc) (auto simp: canonical_def list_all_iff)
  then show ?case
    using 2 by (auto simp: canonical_def)
qed simp

lemma resolve_canonical [simp]: "canonical (resolve cwd p)"
  unfolding resolve_def
  by (rule norm_segments_canonical) (auto simp: list_all_iff canonical_def dest: split_on_parts)

lemma resolve_from_canonical [simp]: "canonical (resolve_from cwd base p)"
  by (simp add: resolve_from_def)

lemma norm_segments_id: "canonical ss \<Longrightarrow> norm_segments acc ss = rev acc @ ss"
  by (induction acc ss rule: norm_segments.induct) (auto simp: canonical_def)

lemma resolve_show: "canonical segs \<Longrightarrow> resolve cwd (show_path segs) = segs"
proof (cases "segs = []")
  case True
  then show ?thesis by (simp add: resolve_def show_path_def is_absolute_def startsWith_prefix)
next
  case False
  assume c: "canonical segs"
  then have "split_on CHR ''/'' (join_with ''/'' segs) = segs"
    using False by (intro split_on_join) (auto simp: canonical_def list_all_iff)
  then show ?thesis
    using norm_segments_id [OF c, of "[]"] by (simp add: resolve_def show_path_def is_absolute_def startsWith_prefix)
qed

lemma show_path_inject: "canonical a \<Longrightarrow> canonical b \<Longrightarrow> show_path a = show_path b \<longleftrightarrow> a = b"
  using resolve_show by metis

lemma is_absolute_show [simp]: "is_absolute (show_path segs)"
  by (simp add: is_absolute_def show_path_def startsWith_prefix)

lemma relative_below_iff: "relative_below a b \<longleftrightarrow> (\<exists>x rest. b = a @ x # rest \<and> \<not> startsWith x ''..'')"
  by (induction a b rule: relative_below.induct) auto

lemma in_workspace_char:
  assumes "\<not> pe_ignoreCase E" and "is_absolute p"
  shows "isInWorkspace E folders p \<longleftrightarrow>
     (\<exists>f \<in> set folders. \<exists>rest. resolve (pe_cwd E) p = resolve (pe_cwd E) f @ rest \<and> (rest = [] \<or> \<not> startsWith (hd rest) ''..''))"
proof -
  have "(isParentFolder E (show_path (resolve (pe_cwd E) f)) (show_path (resolve (pe_cwd E) p))
      \<or> show_path (resolve (pe_cwd E) f) = show_path (resolve (pe_cwd E) p)) \<longleftrightarrow>
     (\<exists>rest. resolve (pe_cwd E) p = resolve (pe_cwd E) f @ rest \<and> (rest = [] \<or> \<not> startsWith (hd rest) ''..''))" for f
  proof -
    have "isParentFolder E (show_path (resolve (pe_cwd E) f)) (show_path (resolve (pe_cwd E) p)) \<longleftrightarrow>
        (\<exists>x rest. resolve (pe_cwd E) p = resolve (pe_cwd E) f @ x # rest \<and> \<not> startsWith x ''..'')"
      using assms(1) by (simp add: isParentFolder_def resolve_show relative_below_iff)
    moreover have "(\<exists>rest. resolve (pe_cwd E) p = resolve (pe_cwd E) f @ rest \<and> (rest = [] \<or> \<not> startsWith (hd rest) ''..'')) \<longleftrightarrow>
        resolve (pe_cwd E) f = resolve (pe_cwd E) p \<or> (\<exists>x rest. resolve (pe_cwd E) p = resolve (pe_cwd E) f @ x # rest \<and> \<not> startsWith x ''..'')"
      by (metis append_Nil2 list.exhaust_sel list.sel(1) list.distinct(1))
    ultimately show ?thesis
      by (auto simp: show_path_inject)
  qed
  then show ?thesis
    using assms(2) by (simp add: isInWorkspace_def Let_def list_ex_iff)
qed

lemma in_workspace_cases:
  assumes "\<not> pe_ignoreCase E" and "is_absolute p" and "isInWorkspace E folders p"
  shows "\<exists>f \<in> set folders. prefix (resolve (pe_cwd E) f) (resolve (pe_cwd E) p)"
  using assms by (metis in_workspace_char prefixI)

text \<open>
  C?. With case-sensitive names, a path is in the workspace exactly when its segments, after every dot segment was resolved, begin with
  the segments of a workspace folder, unless the first segment after them begins with two dots. So neither a
  traversal nor a folder whose name extends that of a workspace folder counts as inside.
\<close>

theorem in_workspace_iff:
  assumes "\<not> pe_ignoreCase E" and "is_absolute p"
  shows "isInWorkspace E folders p \<longleftrightarrow>
     (\<exists>f \<in> set folders. \<exists>rest. resolve (pe_cwd E) p = resolve (pe_cwd E) f @ rest \<and> (rest = [] \<or> \<not> startsWith (hd rest) ''..''))"
  by (rule in_workspace_char [OF assms])

definition sample_path_env :: path_env where
  "sample_path_env = \<lparr>pe_cwd = ''/'', pe_ignoreCase = False, pe_exists = (\<lambda>_. True), pe_workspaceFolders = [''/home/u/ws'']\<rparr>"

theorem in_workspace_iff_witness:
  "isInWorkspace sample_path_env [''/home/u/ws''] ''/home/u/ws/../ws2/a.ts'' \<longleftrightarrow>
     (\<exists>f \<in> set [''/home/u/ws'']. \<exists>rest. resolve (pe_cwd sample_path_env) ''/home/u/ws/../ws2/a.ts'' = resolve (pe_cwd sample_path_env) f @ rest \<and>
        (rest = [] \<or> \<not> startsWith (hd rest) ''..''))"
  by (rule in_workspace_iff) code_simp+

section \<open>Resolving links\<close>

definition realpaths_canonical :: "link_fs \<Rightarrow> bool" where
  "realpaths_canonical F = (\<forall>p r. lf_realpath F p = Some r \<longrightarrow> canonical r)"

lemma canonical_butlast: "canonical p \<Longrightarrow> canonical (butlast p)"
  by (auto simp: canonical_def list_all_iff dest: in_set_butlastD)

lemma resolve_links_canonical:
  assumes "resolve_links F cwd visited current = Some r"
  shows "realpaths_canonical F \<longrightarrow> canonical current \<longrightarrow> canonical r"
proof (rule resolve_links.raw_induct [OF _ assms], intro impI)
  fix rec :: "link_fs \<Rightarrow> string \<Rightarrow> string list list \<Rightarrow> string list \<Rightarrow> string list option" and F cwd visited current y
  assume IH: "\<And>F cwd visited current y. rec F cwd visited current = Some y \<Longrightarrow> realpaths_canonical F \<longrightarrow> canonical current \<longrightarrow> canonical y"
    and body: "(case lf_lstat F current of
        Missing \<Rightarrow> if current = [] then Some current else Option.bind (rec F cwd [] (butlast current)) (\<lambda>r. Some (r @ [last current]))
      | Symlink target \<Rightarrow> if current \<in> set visited then Some current
          else rec F cwd (current # visited) (resolve_from cwd (show_path (butlast current)) target)
      | Present \<Rightarrow> Some (case lf_realpath F current of None \<Rightarrow> current | Some r \<Rightarrow> r)) = Some y"
    and F: "realpaths_canonical F" and c: "canonical current"
  show "canonical y"
  proof (cases "lf_lstat F current")
    case Missing
    show ?thesis
    proof (cases "current = []")
      case True
      with Missing body c show ?thesis by simp
    next
      case False
      then obtain r where r: "rec F cwd [] (butlast current) = Some r" "y = r @ [last current]"
        using Missing body by (auto split: bind_splits)
      then have "canonical r" using IH F canonical_butlast [OF c] by blast
      then show ?thesis using r(2) c False by (simp add: canonical_def list_all_iff)
    qed
  next
    case (Symlink target)
    then show ?thesis using body c IH F by (auto split: if_splits)
  next
    case Present
    then show ?thesis using body c F by (auto simp: realpaths_canonical_def split: option.splits)
  qed
qed


definition sample_links :: link_fs where
  "sample_links = \<lparr>lf_lstat = (\<lambda>p. if p = [''home'', ''u'', ''ws'', ''out''] then Symlink ''/etc/passwd'' else Present), lf_realpath = (\<lambda>_. None)\<rparr>"

lemma sample_links_canonical: "realpaths_canonical sample_links"
  by (simp add: realpaths_canonical_def sample_links_def)

lemma sample_inside: "resolveSymlinkAwarePath sample_links ''/'' ''/home/u/ws/src/../a.ts'' = Some [''home'', ''u'', ''ws'', ''a.ts'']"
proof -
  have "resolve ''/'' ''/home/u/ws/src/../a.ts'' = [''home'', ''u'', ''ws'', ''a.ts'']" by code_simp
  then show ?thesis
    unfolding resolveSymlinkAwarePath_def by (subst resolve_links.simps) (simp add: sample_links_def)
qed

lemma sample_unasked:
  "requiresPathAcceptance sample_path_env sample_links ''/home/u/ws/src/../a.ts'' ''fsWrite'' None = Some \<lparr>cval_requiresAcceptance = False, cval_warning = None\<rparr>"
proof -
  have "isInWorkspace sample_path_env (map show_path (canonicalizeWorkspaceFolders sample_links ''/'' [''/home/u/ws''])) ''/home/u/ws/a.ts''"
    by code_simp
  moreover have "show_path [''home'', ''u'', ''ws'', ''a.ts''] = ''/home/u/ws/a.ts''" by code_simp
  ultimately show ?thesis
    by (simp add: requiresPathAcceptance_def sample_inside sample_path_env_def isPathApproved_def)
qed


text \<open>
  A link that points below itself: asking for the kind of its target fails, the parent of the target is the link again,
  and a new call begins with no visited links. The resolution never returns, although the visited links are
  meant to bound it.
\<close>

lemma self_link_never_resolved:
  assumes "lf_lstat F l = Symlink target" and "resolve_from cwd (show_path (butlast l)) target = l @ [x]" and "lf_lstat F (l @ [x]) = Missing"
  shows "resolve_links F cwd [] l = None"
proof (rule ccontr)
  assume "resolve_links F cwd [] l \<noteq> None"
  then obtain r where r: "resolve_links F cwd [] l = Some r" by auto
  have "\<not> (G = F \<and> d = cwd \<and> (vs = [] \<and> p = l \<or> p = l @ [x]))" if "resolve_links G d vs p = Some y" for G d vs p y
  proof (rule resolve_links.raw_induct [OF _ that], rule notI)
    fix rec :: "link_fs \<Rightarrow> string \<Rightarrow> string list list \<Rightarrow> string list \<Rightarrow> string list option" and G d vs p y
    assume IH: "\<And>G d vs p y. rec G d vs p = Some y \<Longrightarrow> \<not> (G = F \<and> d = cwd \<and> (vs = [] \<and> p = l \<or> p = l @ [x]))"
      and body: "(case lf_lstat G p of
        Missing \<Rightarrow> if p = [] then Some p else Option.bind (rec G d [] (butlast p)) (\<lambda>r. Some (r @ [last p]))
      | Symlink target \<Rightarrow> if p \<in> set vs then Some p else rec G d (p # vs) (resolve_from d (show_path (butlast p)) target)
      | Present \<Rightarrow> Some (case lf_realpath G p of None \<Rightarrow> p | Some r \<Rightarrow> r)) = Some y"
      and st: "G = F \<and> d = cwd \<and> (vs = [] \<and> p = l \<or> p = l @ [x])"
    show False
    proof (cases "p = l @ [x]")
      case True
      then obtain r where "rec F cwd [] l = Some r"
        using body st assms(3) by (auto split: bind_splits)
      then show False using IH by blast
    next
      case False
      then have "rec F cwd [l] (l @ [x]) = Some y"
        using body st assms(1,2) by simp
      then show False using IH by blast
    qed
  qed
  from this [OF r] show False by simp
qed



end
