(* ===== verification/Shell_Tool.thy ===== *)
theory Shell_Tool
  imports Tool_Paths
begin

text \<open>
  The shell tool of the agentic chat (\<^verbatim>\<open>agenticChat/tools/executeBash.ts\<close>, \<^verbatim>\<open>utils/commandParser.ts\<close>): when a command may run without asking the
  user, the collection of its output, and the commands named in telemetry. The platform is a POSIX system. The
  words of a command come from a third-party parser and are a parameter, nothing when the parser throws.
\<close>

section \<open>Categories\<close>

datatype CommandCategory = ReadOnly | Mutate | Destructive

definition splitOperators :: "string list" where
  "splitOperators = [''|'', ''&&'', ''||'', ''>'']"

definition commandCategories :: "(string \<times> CommandCategory) list" where
  "commandCategories =
     map (\<lambda>c. (c, ReadOnly)) [''ls'', ''cat'', ''pwd'', ''which'', ''head'', ''tail'', ''dir'', ''type'']
     @ map (\<lambda>c. (c, Mutate))
       [''chmod'', ''curl'', ''wget'', ''mount'', ''umount'', ''systemctl'', ''service'', ''crontab'', ''at'', ''nc'',
        ''ssh'', ''scp'', ''ftp'', ''sftp'', ''rsync'', ''chroot'', ''strace'', ''gdb'', ''apt'', ''yum'', ''dnf'',
        ''pacman'', ''exec'', ''eval'', ''xargs'', ''echo'', ''grep'', ''find'']
     @ map (\<lambda>c. (c, Destructive))
       [''rm'', ''dd'', ''mkfs'', ''fdisk'', ''shutdown'', ''reboot'', ''poweroff'', ''sudo'', ''su'', ''useradd'',
        ''userdel'', ''passwd'', ''visudo'', ''insmod'', ''rmmod'', ''modprobe'', ''kill'', ''killall'', ''pkill'',
        ''iptables'', ''route'', ''chown'']"

definition CREDENTIAL_PATTERNS :: "string list" where
  "CREDENTIAL_PATTERNS =
     [''credential'', ''secret'', ''token'', ''password'', ''key'', ''cert'', ''auth'', ''.aws'', ''.ssh'',
      ''.pgp'', ''.gpg'', ''.pem'', ''.crt'', ''.key'', ''.p12'', ''.pfx'', ''config.json'', ''settings.json'',
      ''.env'', ''.npmrc'', ''.yarnrc'']"

section \<open>Acceptance\<close>

record ExecuteBashParams =
  eb_command :: string
  eb_cwd :: "string option"

record BashValidation =
  bv_requiresAcceptance :: bool
  bv_warning :: "string option"
  bv_commandCategory :: "CommandCategory option"

definition destructiveCommandWarningMessage :: string where
  "destructiveCommandWarningMessage = ''WARNING: Potentially destructive command detected:'' @ [CHR 0x0A, CHR 0x0A]"
definition mutateCommandWarningMessage :: string where
  "mutateCommandWarningMessage = ''Mutation command:'' @ [CHR 0x0A, CHR 0x0A]"
definition outOfWorkspaceWarningmessage :: string where
  "outOfWorkspaceWarningmessage = ''Execution out of workspace scope:'' @ [CHR 0x0A, CHR 0x0A]"
definition credentialFileWarningMessage :: string where
  "credentialFileWarningMessage = ''WARNING: Command involves credential files that require secure permissions:'' @ [CHR 0x0A, CHR 0x0A]"
definition binaryFileWarningMessage :: string where
  "binaryFileWarningMessage = ''WARNING: Command involves binary files that require secure permissions:'' @ [CHR 0x0A, CHR 0x0A]"
definition pipedDownloadWarningMessage :: string where
  "pipedDownloadWarningMessage = ''WARNING: Downloading and piping to shell execution is dangerous:'' @ [CHR 0x0A, CHR 0x0A]"

definition validation :: "bool \<Rightarrow> string option \<Rightarrow> CommandCategory option \<Rightarrow> BashValidation" where
  "validation r w c = \<lparr>bv_requiresAcceptance = r, bv_warning = w, bv_commandCategory = c\<rparr>"

text \<open>What the file system says about a resolved path: whether it is a file, and whether any execute bit is set.\<close>

record bash_env =
  be_path :: path_env
  be_isFile :: "string list \<Rightarrow> bool"
  be_isExecutable :: "string list \<Rightarrow> bool"

definition looksLikePath :: "string \<Rightarrow> bool" where
  "looksLikePath arg =
     (includes_str arg ''..'' \<or> includes_str arg ''%2e%2e'' \<or> includes_str arg ''%2E%2E''
      \<or> startsWith arg ''/'' \<or> startsWith arg ''./'' \<or> startsWith arg ''../'' \<or> startsWith arg ''~'')"

definition isLikelyCredentialFile :: "string \<Rightarrow> bool" where
  "isLikelyCredentialFile filePath = list_ex (includes_str (toLowerCase filePath)) CREDENTIAL_PATTERNS"

text \<open>The words between operators; nothing when a word contains an operator without being one.\<close>

fun split_commands :: "string list \<Rightarrow> string list \<Rightarrow> string list list option" where
  "split_commands cur [] = Some (if cur = [] then [] else [cur])"
| "split_commands cur (w # ws) =
     (if w \<in> set splitOperators then map_option (\<lambda>cs. if cur = [] then cs else cur # cs) (split_commands [] ws)
      else if list_ex (includes_str w) splitOperators then None
      else split_commands (cur @ [w]) ws)"

text \<open>The check of one word: the validation it ends with, or nothing to go on.\<close>

definition check_argument ::
    "bash_env \<Rightarrow> string option \<Rightarrow> (string \<times> string list) list option \<Rightarrow> CommandCategory \<Rightarrow> string \<Rightarrow> BashValidation option" where
  "check_argument E cwd approved highest arg =
     (if \<not> looksLikePath arg then None
      else if startsWith arg ''~'' then Some (validation True (Some destructiveCommandWarningMessage) (Some Destructive))
      else let base = pe_cwd (be_path E);
               segs = (case cwd of Some d \<Rightarrow> if \<not> is_absolute arg \<and> d \<noteq> [] then resolve_from base d arg else resolve base arg
                                 | None \<Rightarrow> resolve base arg);
               fullPath = show_path segs
           in if approved \<noteq> None \<and> isPathApproved (be_path E) fullPath ''executeBash'' approved then None
              else if be_isFile E segs \<and> isLikelyCredentialFile fullPath
              then Some (validation True (Some credentialFileWarningMessage) (Some Mutate))
              else if be_isFile E segs \<and> be_isExecutable E segs
              then Some (validation True (Some binaryFileWarningMessage) (Some Mutate))
              else if \<not> isInWorkspace (be_path E) (pe_workspaceFolders (be_path E)) fullPath
              then Some (validation True (Some outOfWorkspaceWarningmessage) (Some highest))
              else None)"

fun first_some :: "('a \<Rightarrow> 'b option) \<Rightarrow> 'a list \<Rightarrow> 'b option" where
  "first_some f [] = None"
| "first_some f (x # xs) = (case f x of None \<Rightarrow> first_some f xs | Some y \<Rightarrow> Some y)"

text \<open>
  The check of the commands. Only read-only commands are passed over, so the highest category stays \<^verbatim>\<open>ReadOnly\<close> where
  the loop goes on.
\<close>

fun check_commands ::
    "bash_env \<Rightarrow> ExecuteBashParams \<Rightarrow> (string \<times> string list) list option \<Rightarrow> CommandCategory \<Rightarrow> string list list
      \<Rightarrow> BashValidation + CommandCategory" where
  "check_commands E params approved highest [] = Inr highest"
| "check_commands E params approved highest (cmd # cmds) =
     (case cmd of
        [] \<Rightarrow> Inl (validation True None (Some highest))
      | command # _ \<Rightarrow>
          (case first_some (check_argument E (eb_cwd params) approved highest) cmd of
             Some v \<Rightarrow> Inl v
           | None \<Rightarrow>
               if (command = ''curl'' \<or> command = ''wget'') \<and> CHR ''|'' \<in> set (eb_command params)
               then Inl (validation True (Some pipedDownloadWarningMessage) (Some Destructive))
               else (case map_get commandCategories command of
                       Some Destructive \<Rightarrow> Inl (validation True (Some destructiveCommandWarningMessage) (Some Destructive))
                     | Some Mutate \<Rightarrow> Inl (validation True (Some mutateCommandWarningMessage) (Some Mutate))
                     | Some ReadOnly \<Rightarrow> check_commands E params approved highest cmds
                     | None \<Rightarrow> Inl (validation True None (Some highest)))))"

definition cwd_inside :: "path_env \<Rightarrow> string \<Rightarrow> bool" where
  "cwd_inside P d =
     (let slash = map (\<lambda>c. if c = CHR 0x5C then CHR ''/'' else c); r = slash (show_path (resolve (pe_cwd P) d))
      in list_ex (\<lambda>f. let w = slash (show_path (resolve (pe_cwd P) f)) in r = w \<or> startsWith r (w @ ''/'')) (pe_workspaceFolders P))"

definition requiresAcceptance ::
    "(string \<Rightarrow> string list option) \<Rightarrow> bash_env \<Rightarrow> ExecuteBashParams \<Rightarrow> (string \<times> string list) list option \<Rightarrow> BashValidation" where
  "requiresAcceptance split E params approved =
     (case split (eb_command params) of
        None \<Rightarrow> validation True None (Some ReadOnly)
      | Some [] \<Rightarrow> validation True None None
      | Some args \<Rightarrow>
          (case split_commands [] args of
             None \<Rightarrow> validation True None None
           | Some cmds \<Rightarrow>
               (case check_commands E params approved ReadOnly cmds of
                  Inl v \<Rightarrow> v
                | Inr highest \<Rightarrow>
                    (case eb_cwd params of
                       None \<Rightarrow> validation False None (Some highest)
                     | Some d \<Rightarrow>
                         if d \<noteq> [] \<and> \<not> (approved \<noteq> None \<and> isPathApproved (be_path E) d ''executeBash'' approved)
                            \<and> (pe_workspaceFolders (be_path E) = [] \<or> \<not> cwd_inside (be_path E) d)
                         then validation True (Some outOfWorkspaceWarningmessage) (Some highest)
                         else validation False None (Some highest)))))"

section \<open>What runs without asking\<close>

definition argument_path :: "path_env \<Rightarrow> string option \<Rightarrow> string \<Rightarrow> string list" where
  "argument_path P cwd arg =
     (case cwd of None \<Rightarrow> resolve (pe_cwd P) arg | Some d \<Rightarrow> if is_absolute arg \<or> d = [] then resolve (pe_cwd P) arg else resolve_from (pe_cwd P) d arg)"

text \<open>A word that does not look like a path, or is an approved path, or a path in the workspace that is no sensitive file.\<close>

definition argument_safe :: "bash_env \<Rightarrow> string option \<Rightarrow> (string \<times> string list) list option \<Rightarrow> string \<Rightarrow> bool" where
  "argument_safe E cwd approved arg =
     (let segs = argument_path (be_path E) cwd arg
      in \<not> looksLikePath arg \<or> \<not> startsWith arg ''~'' \<and>
         (isPathApproved (be_path E) (show_path segs) ''executeBash'' approved \<or>
          isInWorkspace (be_path E) (pe_workspaceFolders (be_path E)) (show_path segs) \<and>
            \<not> (be_isFile E segs \<and> (isLikelyCredentialFile (show_path segs) \<or> be_isExecutable E segs))))"

definition read_only_command :: "bash_env \<Rightarrow> string option \<Rightarrow> (string \<times> string list) list option \<Rightarrow> string list \<Rightarrow> bool" where
  "read_only_command E cwd approved cmd =
     (cmd \<noteq> [] \<and> hd cmd \<in> set [''ls'', ''cat'', ''pwd'', ''which'', ''head'', ''tail'', ''dir'', ''type''] \<and> list_all (argument_safe E cwd approved) cmd)"

definition cwd_safe :: "bash_env \<Rightarrow> string option \<Rightarrow> (string \<times> string list) list option \<Rightarrow> bool" where
  "cwd_safe E cwd approved =
     (case cwd of None \<Rightarrow> True
      | Some d \<Rightarrow> d = [] \<or> isPathApproved (be_path E) d ''executeBash'' approved \<or> cwd_inside (be_path E) d)"

lemma first_some_None: "first_some f xs = None \<longleftrightarrow> (\<forall>x \<in> set xs. f x = None)"
  by (induction xs) (auto split: option.splits)

lemma approved_Some: "isPathApproved P p tool approved \<Longrightarrow> approved \<noteq> None"
  by (cases approved) (simp_all add: isPathApproved_def)

lemma not_approved_None [simp]: "\<not> isPathApproved P p tool None"
  by (simp add: isPathApproved_def)

lemma check_argument_None: "check_argument E cwd approved highest arg = None \<longleftrightarrow> argument_safe E cwd approved arg"
proof -
  have "(case cwd of Some d \<Rightarrow> if \<not> is_absolute arg \<and> d \<noteq> [] then resolve_from (pe_cwd (be_path E)) d arg else resolve (pe_cwd (be_path E)) arg
                   | None \<Rightarrow> resolve (pe_cwd (be_path E)) arg) = argument_path (be_path E) cwd arg"
    by (auto simp: argument_path_def split: option.split)
  then show ?thesis
    using approved_Some [of "be_path E" "show_path (argument_path (be_path E) cwd arg)" "''executeBash''" approved]
    by (simp add: check_argument_def argument_safe_def Let_def)
qed

lemma category_ReadOnly:
  "map_get commandCategories c = Some ReadOnly \<longleftrightarrow> c \<in> set [''ls'', ''cat'', ''pwd'', ''which'', ''head'', ''tail'', ''dir'', ''type'']"
proof -
  have keys: "map_of (map (\<lambda>x. (x, k)) xs) c = (if c \<in> set xs then Some k else None)" for k :: CommandCategory and xs
    by (induction xs) auto
  have "c \<in> set [''ls'', ''cat'', ''pwd'', ''which'', ''head'', ''tail'', ''dir'', ''type''] \<Longrightarrow> map_get commandCategories c = Some ReadOnly"
    by (simp only: map_get_def commandCategories_def map_of_append map_add_def keys) (auto)
  moreover have "map_get commandCategories c = Some ReadOnly \<Longrightarrow> c \<in> set [''ls'', ''cat'', ''pwd'', ''which'', ''head'', ''tail'', ''dir'', ''type'']"
    by (simp only: map_get_def commandCategories_def map_of_append map_add_def keys) (auto split: if_splits option.splits)
  ultimately show ?thesis by blast
qed

lemma check_commands_Inr:
  "check_commands E params approved highest cmds = Inr h \<longleftrightarrow>
     h = highest \<and> (\<forall>cmd \<in> set cmds. read_only_command E (eb_cwd params) approved cmd)"
proof (induction cmds)
  case Nil
  then show ?case by auto
next
  case (Cons cmd cmds)
  show ?case
  proof (cases cmd)
    case Nil
    then show ?thesis by (simp add: read_only_command_def)
  next
    case c: (Cons command ws)
    have r: "read_only_command E (eb_cwd params) approved cmd \<longleftrightarrow>
        map_get commandCategories command = Some ReadOnly \<and> first_some (check_argument E (eb_cwd params) approved highest) cmd = None"
      by (simp only: c read_only_command_def list.sel list.distinct simp_thms category_ReadOnly [symmetric] first_some_None check_argument_None list_all_iff)
    have "command \<noteq> ''curl'' \<and> command \<noteq> ''wget''" if "map_get commandCategories command = Some ReadOnly"
      using that unfolding category_ReadOnly by auto
    then show ?thesis
      using Cons.IH r c by (auto split: option.splits CommandCategory.splits)
  qed
qed

lemma check_argument_asks: "check_argument E cwd approved highest arg = Some v \<Longrightarrow> bv_requiresAcceptance v"
  by (auto simp: check_argument_def Let_def validation_def split: if_splits)

lemma first_some_Some: "first_some f xs = Some y \<Longrightarrow> \<exists>x \<in> set xs. f x = Some y"
  by (induction xs) (auto split: option.splits)

lemma check_commands_asks: "check_commands E params approved highest cmds = Inl v \<Longrightarrow> bv_requiresAcceptance v"
proof (induction cmds)
  case (Cons cmd cmds)
  then show ?case
    by (auto simp: validation_def dest!: first_some_Some check_argument_asks split: list.splits option.splits if_splits CommandCategory.splits)
qed simp

lemma cwd_check:
  "bv_requiresAcceptance
     (case cwd of
        None \<Rightarrow> validation False None (Some h)
      | Some d \<Rightarrow>
          if d \<noteq> [] \<and> \<not> (approved \<noteq> None \<and> isPathApproved (be_path E) d ''executeBash'' approved)
             \<and> (pe_workspaceFolders (be_path E) = [] \<or> \<not> cwd_inside (be_path E) d)
          then validation True (Some w) (Some h) else validation False None (Some h)) \<longleftrightarrow> \<not> cwd_safe E cwd approved"
proof -
  have "pe_workspaceFolders (be_path E) = [] \<Longrightarrow> \<not> cwd_inside (be_path E) d" for d
    by (simp add: cwd_inside_def)
  then show ?thesis
    using approved_Some by (auto simp: cwd_safe_def validation_def split: option.splits)
qed

lemma unasked_iff:
  "\<not> bv_requiresAcceptance (requiresAcceptance split E params approved) \<longleftrightarrow>
     (\<exists>args cmds. split (eb_command params) = Some args \<and> args \<noteq> [] \<and> split_commands [] args = Some cmds \<and>
        list_all (read_only_command E (eb_cwd params) approved) cmds \<and> cwd_safe E (eb_cwd params) approved)"
proof (cases "split (eb_command params)")
  case None
  then show ?thesis by (simp add: requiresAcceptance_def validation_def)
next
  case (Some args)
  show ?thesis
  proof (cases "args = [] \<or> split_commands [] args = None")
    case True
    with Some show ?thesis by (cases args) (auto simp: requiresAcceptance_def validation_def)
  next
    case False
    then obtain cmds w ws where c: "args = w # ws" "split_commands [] args = Some cmds" by (cases args) auto
    show ?thesis
    proof (cases "check_commands E params approved ReadOnly cmds")
      case (Inl v)
      then have "bv_requiresAcceptance v" by (rule check_commands_asks)
      moreover have "\<not> list_all (read_only_command E (eb_cwd params) approved) cmds"
        using Inl check_commands_Inr [of E params approved ReadOnly cmds ReadOnly] by (auto simp: list_all_iff)
      ultimately show ?thesis using Some c Inl by (simp add: requiresAcceptance_def)
    next
      case (Inr h)
      then have "list_all (read_only_command E (eb_cwd params) approved) cmds"
        by (simp add: check_commands_Inr list_all_iff)
      then show ?thesis
        using Some c Inr by (simp add: requiresAcceptance_def cwd_check)
    qed
  qed
qed

text \<open>
  C27. A command runs without asking exactly when its words can be split at the operators, every command between them begins with one of the
  eight read-only commands, every word that looks like a path is approved or lies in the workspace without being
  a credential or executable file, and the working directory is in the workspace or approved.
\<close>

theorem unasked_commands:
  "bv_requiresAcceptance (requiresAcceptance split E params approved) =
     (\<nexists>args cmds. split (eb_command params) = Some args \<and> args \<noteq> [] \<and> split_commands [] args = Some cmds \<and>
        list_all (read_only_command E (eb_cwd params) approved) cmds \<and> cwd_safe E (eb_cwd params) approved)"
  using unasked_iff [of split E params approved] by blast

text \<open>
  Only the first word of a command is compared with the lists of commands: with a read-only first word, words without an operator that
  do not look like paths run without asking, whatever they are. A semicolon, a line break or a substitution is no
  operator here, so a destructive command behind one of them runs unasked.
\<close>

theorem later_words_unchecked:
  assumes "split (eb_command params) = Some (c # ws)" and "eb_cwd params = None"
    and "c \<in> set [''ls'', ''cat'', ''pwd'', ''which'', ''head'', ''tail'', ''dir'', ''type'']"
    and "list_all (\<lambda>w. \<not> looksLikePath w \<and> \<not> list_ex (includes_str w) splitOperators) ws"
  shows "requiresAcceptance split E params approved = validation False None (Some ReadOnly)"
proof -
  have self: "includes_str w w" for w by (simp add: includes_str_sublist)
  have words: "split_commands cur us = Some [cur @ us]"
    if "cur @ us \<noteq> []" "list_all (\<lambda>w. \<not> list_ex (includes_str w) splitOperators) us" for cur us
    using that
  proof (induction us arbitrary: cur)
    case (Cons u us)
    then have "u \<notin> set splitOperators" using self by (auto simp: list_ex_iff)
    with Cons show ?case by simp
  qed simp
  have "list_all (\<lambda>c. \<not> looksLikePath c \<and> \<not> list_ex (includes_str c) splitOperators)
      [''ls'', ''cat'', ''pwd'', ''which'', ''head'', ''tail'', ''dir'', ''type'']" by code_simp
  then have c: "\<not> looksLikePath c \<and> \<not> list_ex (includes_str c) splitOperators"
    using assms(3) unfolding list_all_iff by blast
  then have "split_commands [] (c # ws) = Some [c # ws]"
    using words [of "[]" "c # ws"] assms(4) by (simp add: list_all_iff)
  moreover have "read_only_command E None approved (c # ws)"
    using assms(3,4) c by (auto simp: read_only_command_def argument_safe_def list_all_iff)
  then have "check_commands E params approved ReadOnly [c # ws] = Inr ReadOnly"
    unfolding check_commands_Inr using assms(2) by simp
  ultimately show ?thesis
    using assms(1,2) by (simp only: requiresAcceptance_def option.case list.case sum.case)
qed

definition sample_split :: "string \<Rightarrow> string list option" where
  "sample_split s = Some (filter (\<lambda>w. w \<noteq> []) (split_on CHR '' '' s))"

definition sample_bash_env :: bash_env where
  "sample_bash_env = \<lparr>be_path = sample_path_env, be_isFile = (\<lambda>_. True), be_isExecutable = (\<lambda>_. False)\<rparr>"

theorem later_words_unchecked_witness:
  "requiresAcceptance sample_split sample_bash_env \<lparr>eb_command = ''cat notes; rm -rf src'', eb_cwd = None\<rparr> None = validation False None (Some ReadOnly)"
  by (rule later_words_unchecked [where c = "''cat''" and ws = "[''notes;'', ''rm'', ''-rf'', ''src'']"]; code_simp)

text \<open>The credential file is protected when it is written with a leading dot and slash, and not without.\<close>

lemma credential_file_by_plain_name:
  "bv_requiresAcceptance (requiresAcceptance sample_split sample_bash_env \<lparr>eb_command = ''cat ./.env'', eb_cwd = Some ''/home/u/ws''\<rparr> None)"
  "\<not> bv_requiresAcceptance (requiresAcceptance sample_split sample_bash_env \<lparr>eb_command = ''cat .env'', eb_cwd = Some ''/home/u/ws''\<rparr> None)"
  by code_simp+

section \<open>The output of a command\<close>

definition lineCount :: nat where "lineCount = 1024"
definition maxToolResponseSize :: nat where "maxToolResponseSize = 1024 * 1024"

definition push_line :: "string list \<Rightarrow> string \<Rightarrow> string list" where
  "push_line buffer line = (let b = buffer @ [line] in if length b > lineCount then tl b else b)"

definition handleChunk :: "string \<Rightarrow> string list \<Rightarrow> string list" where
  "handleChunk chunk buffer = foldl push_line buffer (split_eol chunk)"

record TimestampedChunk =
  ch_timestamp :: int
  ch_isStdout :: bool
  ch_content :: string

definition handleTimestampedChunk :: "TimestampedChunk \<Rightarrow> string list \<times> string list \<Rightarrow> string list \<times> string list" where
  "handleTimestampedChunk ch buffers =
     (case buffers of (out, err) \<Rightarrow> if ch_isStdout ch then (handleChunk (ch_content ch) out, err) else (out, handleChunk (ch_content ch) err))"

definition processQueue :: "TimestampedChunk list \<Rightarrow> string list \<times> string list \<Rightarrow> string list \<times> string list" where
  "processQueue q buffers = fold handleTimestampedChunk (sort_key ch_timestamp q) buffers"

text \<open>The bound is a third of the size and not a whole number.\<close>

definition truncateSafelyWithSuffix :: "string \<Rightarrow> string \<times> bool" where
  "truncateSafelyWithSuffix str =
     (if 3 * length str > maxToolResponseSize then (take (maxToolResponseSize div 3) str, True) else (str, False))"

record ExecuteBashOutput =
  eo_exitStatus :: int
  eo_stdout :: string
  eo_stderr :: string

definition truncated_text :: "string \<Rightarrow> string" where
  "truncated_text str = (case truncateSafelyWithSuffix str of (t, c) \<Rightarrow> t @ (if c then '' ... truncated'' else []))"

definition command_output :: "int option \<Rightarrow> string list \<times> string list \<Rightarrow> ExecuteBashOutput \<times> bool" where
  "command_output exitCode buffers =
     (let status = (case exitCode of None \<Rightarrow> 0 | Some c \<Rightarrow> c);
          out = join_with [CHR 0x0A] (fst buffers); err = join_with [CHR 0x0A] (snd buffers)
      in (\<lparr>eo_exitStatus = status, eo_stdout = truncated_text out, eo_stderr = truncated_text err\<rparr>, status = 0 \<and> err = []))"

lemma push_line_log: "length buffer \<le> lineCount \<Longrightarrow> foldl push_line buffer ls = drop (length buffer + length ls - lineCount) (buffer @ ls)"
proof (induction ls arbitrary: buffer)
  case (Cons l ls)
  have len: "length (push_line buffer l) \<le> lineCount"
    using Cons.prems by (simp add: push_line_def Let_def lineCount_def)
  show ?case
  proof (cases "length buffer < lineCount")
    case True
    then have "push_line buffer l = buffer @ [l]" by (simp add: push_line_def Let_def)
    then show ?thesis using Cons.IH [OF len] by simp
  next
    case False
    then have b: "length buffer = lineCount" using Cons.prems by simp
    then have "push_line buffer l = tl (buffer @ [l])" by (simp add: push_line_def Let_def)
    moreover have "length (tl (buffer @ [l])) = lineCount" using b by simp
    ultimately have "foldl push_line (push_line buffer l) ls = drop (length ls) (tl (buffer @ [l]) @ ls)"
      using Cons.IH [OF len] by simp
    also have "tl (buffer @ [l]) @ ls = tl (buffer @ l # ls)" using b by (cases buffer) (simp_all add: lineCount_def)
    also have "drop (length ls) (tl (buffer @ l # ls)) = drop (Suc (length ls)) (buffer @ l # ls)" by (simp only: drop_Suc)
    finally show ?thesis using b by simp
  qed
qed simp

text \<open>
  Of everything a command writes to a stream, the last 1024 lines are kept, in order, whatever the pieces in which they arrive; the text of the
  result has at most a third of a megabyte per stream and the mark that it was cut.
\<close>

theorem kept_output:
  "foldl (\<lambda>b c. handleChunk c b) [] chunks = (let ls = concat (map split_eol chunks) in drop (length ls - 1024) ls) \<and>
     length (truncated_text str) \<le> 1024 * 1024 div 3 + length '' ... truncated''"
proof
  have "foldl (\<lambda>b c. handleChunk c b) buffer cs = foldl push_line buffer (concat (map split_eol cs))" for buffer cs
    by (induction cs arbitrary: buffer) (simp_all add: handleChunk_def)
  then show "foldl (\<lambda>b c. handleChunk c b) [] chunks = (let ls = concat (map split_eol chunks) in drop (length ls - 1024) ls)"
    using push_line_log [of "[]" "concat (map split_eol chunks)"] by (simp add: Let_def lineCount_def)
  show "length (truncated_text str) \<le> 1024 * 1024 div 3 + length '' ... truncated''"
    by (auto simp: truncated_text_def truncateSafelyWithSuffix_def maxToolResponseSize_def)
qed

section \<open>The commands named in telemetry\<close>

definition is_separator :: "string \<Rightarrow> bool" where
  "is_separator arg = (arg \<in> set splitOperators \<or> CHR '';'' \<in> set arg)"

definition base_name :: "string \<Rightarrow> string" where
  "base_name arg =
     (if CHR ''/'' \<in> set arg then (let b = last (split_on CHR ''/'' arg) in if b = [] then arg else b) else arg)"

text \<open>The command after \<^verbatim>\<open>sudo\<close>, \<^verbatim>\<open>time\<close> and the like: options and the values that may follow them are skipped.\<close>

fun wrapped_command :: "string list \<Rightarrow> string option" where
  "wrapped_command [] = None"
| "wrapped_command [a] = (if is_separator a \<or> startsWith a ''-'' then None else Some (base_name a))"
| "wrapped_command (a # b # args) =
     (if is_separator a then None
      else if startsWith a ''-''
           then (if \<not> startsWith b ''-'' \<and> \<not> is_separator b then wrapped_command args else wrapped_command (b # args))
           else Some (base_name a))"

fun base_commands :: "bool \<Rightarrow> string list \<Rightarrow> string list" where
  "base_commands expectCommand [] = []"
| "base_commands expectCommand (arg # args) =
     (if is_separator arg then base_commands True args
      else if expectCommand
           then base_name arg #
                (if base_name arg \<in> set [''sudo'', ''time'', ''nice'', ''nohup'', ''env'']
                 then (case wrapped_command args of None \<Rightarrow> [] | Some c \<Rightarrow> [c]) else [])
                @ base_commands False args
           else base_commands False args)"

definition parseBaseCommands :: "string list \<Rightarrow> string list" where
  "parseBaseCommands args = base_commands True args"

text \<open>The examples of the comment of the source that the parser gets right, and the one with a semicolon, which it does not.\<close>

lemma parse_examples:
  "parseBaseCommands [''cd'', ''/home/user/documents''] = [''cd'']"
  "parseBaseCommands [''echo'', ''Hello World'', ''&&'', ''ls'', ''-la''] = [''echo'', ''ls'']"
  "parseBaseCommands [''sudo'', ''apt-get'', ''install''] = [''sudo'', ''apt-get'']"
  "parseBaseCommands [''/usr/bin/python'', ''script.py''] = [''python'']"
  "parseBaseCommands [''./script.sh''] = [''script.sh'']"
  "parseBaseCommands [''command1;'', ''command2''] = [''command2'']"
  by code_simp+

end
