(* ===== verification/File_Tools.thy ===== *)
theory File_Tools
  imports Tool_Paths
begin

text \<open>
  The tools of the agentic chat that change files (\<^verbatim>\<open>agenticChat/tools/fsReplace.ts\<close>, \<^verbatim>\<open>fsWrite.ts\<close>, with \<^verbatim>\<open>sanitize\<close> of \<^verbatim>\<open>aws-lsp-core/src/util/path.ts\<close>).
  The file system is a map from paths to contents; a write is one step.
\<close>

section \<open>Searching\<close>

text \<open>\<^verbatim>\<open>s.indexOf(p, k)\<close>; nothing stands for \<^verbatim>\<open>-1\<close>. The start is clamped to the end of the string.\<close>

definition indexOf_from :: "string \<Rightarrow> string \<Rightarrow> nat \<Rightarrow> nat option" where
  "indexOf_from s p k = List.find (\<lambda>i. startsWith (drop i s) p) [min k (length s)..<Suc (length s)]"

fun first_eol :: "string \<Rightarrow> string option" where
  "first_eol [] = None"
| "first_eol [c] = (if c = LF \<or> c = CR then Some [c] else None)"
| "first_eol (c # d # s) = (if c = LF then Some [LF] else if c = CR then Some (if d = LF then [CR, LF] else [CR]) else first_eol (d # s))"

text \<open>Splitting at the ends of lines of every kind and joining with one kind.\<close>

fun normalize_eol :: "string \<Rightarrow> string \<Rightarrow> string" where
  "normalize_eol le [] = []"
| "normalize_eol le [c] = (if c = LF \<or> c = CR then le else [c])"
| "normalize_eol le (c # d # s) =
     (if c = CR \<and> d = LF then le @ normalize_eol le s
      else if c = LF \<or> c = CR then le @ normalize_eol le (d # s)
      else c # normalize_eol le (d # s))"

section \<open>Replacing\<close>

datatype file_error =
    EmptyPathError | EmptyDiffsError | FileNotExistsError | TextNotFoundError string | MultipleMatchesError string
  | MissingContentError | FileExistsWithSameContentError | EmptyAppendContentError | ReadError

record Diff =
  df_oldStr :: string
  df_newStr :: "string option"

definition new_text :: "Diff \<Rightarrow> string" where
  "new_text d = (case df_newStr d of None \<Rightarrow> [] | Some s \<Rightarrow> s)"

definition apply_diff :: "string \<Rightarrow> Diff \<Rightarrow> string \<Rightarrow> file_error + string" where
  "apply_diff lineEnding d content =
     (if df_oldStr d = new_text d then Inr content
      else let old = normalize_eol lineEnding (df_oldStr d); new = normalize_eol lineEnding (new_text d)
           in case indexOf_from content old 0 of
                None \<Rightarrow> Inl (TextNotFoundError (df_oldStr d))
              | Some i \<Rightarrow>
                  (case indexOf_from content old (i + 1) of
                     Some _ \<Rightarrow> Inl (MultipleMatchesError (df_oldStr d))
                   | None \<Rightarrow> Inr (take i content @ new @ drop (i + length old) content)))"

fun apply_diffs :: "string \<Rightarrow> Diff list \<Rightarrow> string \<Rightarrow> file_error + string" where
  "apply_diffs lineEnding [] content = Inr content"
| "apply_diffs lineEnding (d # ds) content =
     (case apply_diff lineEnding d content of Inl e \<Rightarrow> Inl e | Inr c \<Rightarrow> apply_diffs lineEnding ds c)"

definition getReplaceContent :: "string \<Rightarrow> Diff list \<Rightarrow> string \<Rightarrow> file_error + string" where
  "getReplaceContent systemEol diffs content =
     apply_diffs (case first_eol content of None \<Rightarrow> systemEol | Some e \<Rightarrow> e) diffs content"

section \<open>Paths and the tools\<close>

definition sanitize :: "string \<Rightarrow> string \<Rightarrow> string \<Rightarrow> string" where
  "sanitize cwd home inputPath =
     (let t = trim inputPath;
          joined = (if tl t = [] then home else home @ ''/'' @ tl t);
          segs = resolve cwd joined;
          u = (if startsWith t ''~'' then show_path segs @ (if endsWith joined ''/'' \<and> segs \<noteq> [] then ''/'' else []) else t)
      in if is_absolute u then u else show_path (resolve cwd u))"

type_synonym file_system = "string \<Rightarrow> string option"

definition replace_validate :: "string \<Rightarrow> string \<Rightarrow> string \<Rightarrow> Diff list \<Rightarrow> file_system \<Rightarrow> file_error option" where
  "replace_validate cwd home path diffs fs =
     (if path = [] then Some EmptyPathError
      else if diffs = [] then Some EmptyDiffsError
      else if fs (sanitize cwd home path) = None then Some FileNotExistsError
      else None)"

definition replace_invoke :: "string \<Rightarrow> string \<Rightarrow> string \<Rightarrow> string \<Rightarrow> Diff list \<Rightarrow> file_system \<Rightarrow> file_error + file_system" where
  "replace_invoke systemEol cwd home path diffs fs =
     (let p = sanitize cwd home path
      in case fs p of
           None \<Rightarrow> Inl ReadError
         | Some content \<Rightarrow>
             (case getReplaceContent systemEol diffs content of Inl e \<Rightarrow> Inl e | Inr c \<Rightarrow> Inr (fs(p \<mapsto> c))))"

datatype write_command = Create "string option" | Append "string option"

definition write_validate :: "string \<Rightarrow> string \<Rightarrow> string \<Rightarrow> write_command \<Rightarrow> file_system \<Rightarrow> file_error option" where
  "write_validate cwd home path cmd fs =
     (if path = [] then Some EmptyPathError
      else case cmd of
             Create None \<Rightarrow> Some MissingContentError
           | Create (Some text) \<Rightarrow> if fs (sanitize cwd home path) = Some text then Some FileExistsWithSameContentError else None
           | Append text \<Rightarrow> if text = None \<or> text = Some [] then Some EmptyAppendContentError else None)"

definition getAppendContent :: "string \<Rightarrow> string \<Rightarrow> string" where
  "getAppendContent text oldContent =
     (let needsNewline = (oldContent \<noteq> [] \<and> \<not> endsWith oldContent [LF])
      in oldContent @ (if needsNewline then LF # text else text))"

text \<open>Invoked after validation, so the text is there.\<close>

definition write_invoke :: "string \<Rightarrow> string \<Rightarrow> string \<Rightarrow> write_command \<Rightarrow> file_system \<Rightarrow> file_error + file_system" where
  "write_invoke cwd home path cmd fs =
     (let p = sanitize cwd home path
      in case cmd of
           Create text \<Rightarrow> Inr (fs(p \<mapsto> (case text of None \<Rightarrow> [] | Some t \<Rightarrow> t)))
         | Append text \<Rightarrow>
             (case fs p of
                None \<Rightarrow> Inl ReadError
              | Some old \<Rightarrow> Inr (fs(p \<mapsto> getAppendContent (case text of None \<Rightarrow> [] | Some t \<Rightarrow> t) old))))"

section \<open>Properties of the search\<close>

lemma find_upt_Some: "List.find P [a..<b] = Some i \<longleftrightarrow> a \<le> i \<and> i < b \<and> P i \<and> (\<forall>j. a \<le> j \<longrightarrow> j < i \<longrightarrow> \<not> P j)"
proof
  assume "List.find P [a..<b] = Some i"
  then obtain k where k: "k < b - a" "P (a + k)" "i = a + k" "\<forall>j < k. \<not> P (a + j)" by (auto simp: find_Some_iff)
  have "\<not> P j" if "a \<le> j" "j < i" for j
    using k(3,4) that by (metis le_add_diff_inverse nat_add_left_cancel_less)
  with k show "a \<le> i \<and> i < b \<and> P i \<and> (\<forall>j. a \<le> j \<longrightarrow> j < i \<longrightarrow> \<not> P j)" by auto
next
  assume "a \<le> i \<and> i < b \<and> P i \<and> (\<forall>j. a \<le> j \<longrightarrow> j < i \<longrightarrow> \<not> P j)"
  then show "List.find P [a..<b] = Some i"
    unfolding find_Some_iff by (intro exI [of _ "i - a"]) auto
qed

definition occurs :: "string \<Rightarrow> string \<Rightarrow> nat \<Rightarrow> bool" where
  "occurs p s i = (i \<le> length s \<and> prefix p (drop i s))"

lemma indexOf_from_Some:
  "indexOf_from s p k = Some i \<longleftrightarrow> min k (length s) \<le> i \<and> occurs p s i \<and> (\<forall>j. min k (length s) \<le> j \<longrightarrow> j < i \<longrightarrow> \<not> occurs p s j)"
proof (cases "i \<le> length s")
  case True
  then have "occurs p s j = startsWith (drop j s) p" if "j \<le> i" for j
    using that by (simp add: occurs_def startsWith_prefix)
  then show ?thesis
    using True unfolding indexOf_from_def find_upt_Some by (simp add: less_Suc_eq_le)
next
  case False
  then show ?thesis
    unfolding indexOf_from_def find_upt_Some by (simp add: occurs_def)
qed

lemma indexOf_from_None: "indexOf_from s p k = None \<longleftrightarrow> (\<forall>i \<ge> min k (length s). \<not> occurs p s i)"
proof -
  have "indexOf_from s p k = None \<longleftrightarrow> (\<forall>i. min k (length s) \<le> i \<and> i \<le> length s \<longrightarrow> \<not> startsWith (drop i s) p)"
    unfolding indexOf_from_def find_None_iff set_upt atLeastLessThan_iff less_Suc_eq_le by blast
  then show ?thesis by (simp only: occurs_def startsWith_prefix) blast
qed

definition occurs_once :: "string \<Rightarrow> string \<Rightarrow> nat \<Rightarrow> bool" where
  "occurs_once p s i = (p \<noteq> [] \<and> occurs p s i \<and> (\<forall>j. occurs p s j \<longrightarrow> j = i))"

lemma occurs_length: "occurs p s i \<Longrightarrow> i + length p \<le> length s"
  by (auto simp: occurs_def prefix_def dest: arg_cong [where f = length])

lemma occurs_once_iff:
  "p \<noteq> [] \<Longrightarrow> indexOf_from s p 0 = Some i \<and> indexOf_from s p (i + 1) = None \<longleftrightarrow> occurs_once p s i"
proof
  assume p: "p \<noteq> []" and f: "indexOf_from s p 0 = Some i \<and> indexOf_from s p (i + 1) = None"
  then have here: "occurs p s i" and before: "\<forall>j < i. \<not> occurs p s j" by (simp_all add: indexOf_from_Some)
  have "i + 1 \<le> length s" using occurs_length [OF here] p by (cases p) auto
  with f have later: "\<forall>j \<ge> i + 1. \<not> occurs p s j" by (simp add: indexOf_from_None min_absorb1)
  have "j = i" if "occurs p s j" for j
  proof (rule ccontr)
    assume "j \<noteq> i"
    then have "j < i \<or> i + 1 \<le> j" by arith
    with before later that show False by blast
  qed
  then show "occurs_once p s i" unfolding occurs_once_def using here p by blast
next
  assume p: "p \<noteq> []" and once: "occurs_once p s i"
  have here: "occurs p s i" and only: "\<And>j. occurs p s j \<Longrightarrow> j = i" using once unfolding occurs_once_def by blast+
  have len: "i + 1 \<le> length s" using occurs_length [OF here] p by (cases p) simp_all
  have "indexOf_from s p 0 = Some i"
    unfolding indexOf_from_Some
  proof (intro conjI allI impI)
    show "\<not> occurs p s j" if "j < i" for j using only [of j] that by blast
  qed (use here in simp_all)
  moreover have "indexOf_from s p (i + 1) = None"
    unfolding indexOf_from_None min_absorb1 [OF len]
  proof (intro allI impI notI)
    show False if "i + 1 \<le> j" "occurs p s j" for j using only [OF that(2)] that(1) by simp
  qed
  ultimately show "indexOf_from s p 0 = Some i \<and> indexOf_from s p (i + 1) = None" by (rule conjI)
qed

lemma empty_search: "\<not> (indexOf_from s [] 0 = Some i \<and> indexOf_from s [] (i + 1) = None)"
  unfolding indexOf_from_None by (auto simp: occurs_def)

lemma search_once: "indexOf_from s p 0 = Some i \<and> indexOf_from s p (i + 1) = None \<longleftrightarrow> occurs_once p s i"
proof (cases "p = []")
  case True
  then show ?thesis using empty_search by (simp only: occurs_once_def simp_thms)
qed (rule occurs_once_iff)

lemma unique_search:
  "(\<exists>i. indexOf_from s p 0 = Some i \<and> indexOf_from s p (i + 1) = None \<and> P i) \<longleftrightarrow> (\<exists>i. occurs_once p s i \<and> P i)"
  by (simp only: search_once [symmetric] conj_assoc)

text \<open>What a difference means for a content: the old text occurs once and is replaced, everything else stays.\<close>

definition replaced_once :: "string \<Rightarrow> Diff \<Rightarrow> string \<Rightarrow> string \<Rightarrow> bool" where
  "replaced_once lineEnding d content result =
     (if df_oldStr d = new_text d then result = content
      else \<exists>i. occurs_once (normalize_eol lineEnding (df_oldStr d)) content i \<and>
             result = take i content @ normalize_eol lineEnding (new_text d) @ drop (i + length (normalize_eol lineEnding (df_oldStr d))) content)"

lemma apply_diff_iff: "apply_diff le d content = Inr result \<longleftrightarrow> replaced_once le d content result"
proof (cases "df_oldStr d = new_text d")
  case True
  then show ?thesis by (auto simp: apply_diff_def replaced_once_def)
next
  case False
  let ?old = "normalize_eol le (df_oldStr d)"
  have eq: "apply_diff le d content = Inr result \<longleftrightarrow>
      (\<exists>i. indexOf_from content ?old 0 = Some i \<and> indexOf_from content ?old (i + 1) = None \<and>
           result = take i content @ normalize_eol le (new_text d) @ drop (i + length ?old) content)"
    using False by (auto simp: apply_diff_def Let_def split: option.splits)
  show ?thesis unfolding eq unique_search replaced_once_def using False by simp
qed

text \<open>A chain of such replacements.\<close>

inductive replaced :: "string \<Rightarrow> Diff list \<Rightarrow> string \<Rightarrow> string \<Rightarrow> bool" for le where
  replaced_done: "replaced le [] c c"
| replaced_step: "replaced_once le d c c' \<Longrightarrow> replaced le ds c' r \<Longrightarrow> replaced le (d # ds) c r"

inductive_cases replaced_Nil [elim!]: "replaced le [] c r"
inductive_cases replaced_Cons [elim!]: "replaced le (d # ds) c r"

lemma apply_diffs_iff: "apply_diffs le ds content = Inr result \<longleftrightarrow> replaced le ds content result"
proof (induction ds arbitrary: content)
  case Nil
  then show ?case by (auto intro: replaced.intros)
next
  case (Cons d ds)
  show ?case
  proof
    assume a: "apply_diffs le (d # ds) content = Inr result"
    then obtain c where c: "apply_diff le d content = Inr c" "apply_diffs le ds c = Inr result" by (auto split: sum.splits)
    then show "replaced le (d # ds) content result" by (simp only: apply_diff_iff Cons.IH) (rule replaced_step)
  next
    assume "replaced le (d # ds) content result"
    then obtain c where "replaced_once le d content c" "replaced le ds c result" by (rule replaced_Cons)
    then show "apply_diffs le (d # ds) content = Inr result" by (simp add: apply_diff_iff [symmetric] Cons.IH)
  qed
qed

text \<open>
  C28. A replacement changes a file exactly when, one difference after the other, the old text, with the line ends of the file, is not empty and occurs
  in the content at one place only; the file then holds the content with each of them replaced there and
  nothing else changed, and no other file is touched. Otherwise no file changes.
\<close>

theorem replace_effect:
  "replace_invoke systemEol cwd home path diffs fs = Inr fs' \<longleftrightarrow>
     (\<exists>content result. fs (sanitize cwd home path) = Some content \<and>
        replaced (case first_eol content of None \<Rightarrow> systemEol | Some e \<Rightarrow> e) diffs content result \<and>
        fs' = fs(sanitize cwd home path \<mapsto> result))"
proof (cases "fs (sanitize cwd home path)")
  case None
  then show ?thesis by (simp add: replace_invoke_def)
next
  case (Some content)
  let ?le = "case first_eol content of None \<Rightarrow> systemEol | Some e \<Rightarrow> e"
  have "replace_invoke systemEol cwd home path diffs fs = Inr fs' \<longleftrightarrow>
      (\<exists>result. apply_diffs ?le diffs content = Inr result \<and> fs' = fs(sanitize cwd home path \<mapsto> result))"
    by (cases "apply_diffs ?le diffs content") (auto simp: replace_invoke_def Let_def getReplaceContent_def Some)
  then show ?thesis
    by (simp add: apply_diffs_iff Some)
qed

section \<open>Line ends\<close>

definition uniform_eol :: "string \<Rightarrow> string \<Rightarrow> bool" where
  "uniform_eol le s = (normalize_eol le s = s)"

definition line_ending :: "string \<Rightarrow> bool" where
  "line_ending le = (le = [LF] \<or> le = [CR, LF] \<or> le = [CR])"

lemma normalize_append:
  "\<not> (a \<noteq> [] \<and> last a = CR \<and> b \<noteq> [] \<and> hd b = LF) \<Longrightarrow> normalize_eol le (a @ b) = normalize_eol le a @ normalize_eol le b"
proof (induction le a rule: normalize_eol.induct)
  case (2 le c)
  then show ?case by (cases b) auto
qed (auto split: if_splits)

lemma normalize_no_LF_head: "line_ending le \<Longrightarrow> le \<noteq> [LF] \<Longrightarrow> normalize_eol le s \<noteq> [] \<Longrightarrow> hd (normalize_eol le s) \<noteq> LF"
  by (cases "(le, s)" rule: normalize_eol.cases) (auto simp: line_ending_def)

lemma normalize_chars: "le = [LF] \<Longrightarrow> CR \<notin> set (normalize_eol le s)" "le = [CR] \<Longrightarrow> LF \<notin> set (normalize_eol le s)"
  by (induction le s rule: normalize_eol.induct) auto

lemma normalize_no_CR_last: "line_ending le \<Longrightarrow> le \<noteq> [CR] \<Longrightarrow> normalize_eol le s \<noteq> [] \<Longrightarrow> last (normalize_eol le s) \<noteq> CR"
proof (induction le s rule: normalize_eol.induct)
  case (3 le c d s)
  have "last le \<noteq> CR" "le \<noteq> []" using "3.prems" by (auto simp: line_ending_def)
  then show ?case using 3 by (auto simp: last_append split: if_splits)
qed (auto simp: line_ending_def)

lemma normalize_length: "le = [CR, LF] \<Longrightarrow> length s \<le> length (normalize_eol le s)" "le = [LF] \<or> le = [CR] \<Longrightarrow> length (normalize_eol le s) \<le> length s"
  by (induction le s rule: normalize_eol.induct) auto

lemma normalize_idem: "line_ending le \<Longrightarrow> normalize_eol le (normalize_eol le s) = normalize_eol le s"
proof (induction le s rule: normalize_eol.induct)
  case (3 le c d s)
  have le: "normalize_eol le (le @ normalize_eol le x) = le @ normalize_eol le (normalize_eol le x)" for x
  proof -
    have "\<not> (le \<noteq> [] \<and> last le = CR \<and> normalize_eol le x \<noteq> [] \<and> hd (normalize_eol le x) = LF)"
      using normalize_no_LF_head [OF "3.prems", of x] "3.prems" by (auto simp: line_ending_def)
    moreover have "normalize_eol le le = le" using "3.prems" by (auto simp: line_ending_def)
    ultimately show ?thesis using normalize_append by simp
  qed
  have c: "normalize_eol le (c # x) = c # normalize_eol le x" if "c \<noteq> LF" "c \<noteq> CR" for x
    using that by (cases x) auto
  show ?case
    using 3 le c by auto
qed (auto simp: line_ending_def)

lemma uniform_parts:
  assumes "line_ending le" and "uniform_eol le (a @ normalize_eol le o' @ b)" and "normalize_eol le o' \<noteq> []"
  shows "uniform_eol le a" and "uniform_eol le b"
proof -
  let ?o = "normalize_eol le o'"
  have chars: "le = [LF] \<Longrightarrow> CR \<notin> set (a @ ?o @ b)" "le = [CR] \<Longrightarrow> LF \<notin> set (a @ ?o @ b)"
    using assms(2) normalize_chars [of le "a @ ?o @ b"] by (simp_all add: uniform_eol_def)
  have 1: "\<not> (a \<noteq> [] \<and> last a = CR \<and> ?o @ b \<noteq> [] \<and> hd (?o @ b) = LF)"
  proof (cases "le = [LF]")
    case True
    then show ?thesis using chars(1) by (metis UnI1 last_in_set set_append)
  next
    case False
    then show ?thesis using normalize_no_LF_head [OF assms(1) False assms(3)] assms(3) by (simp add: hd_append)
  qed
  have 2: "\<not> (?o \<noteq> [] \<and> last ?o = CR \<and> b \<noteq> [] \<and> hd b = LF)"
  proof (cases "le = [CR]")
    case True
    then show ?thesis using chars(2) by (metis UnI2 hd_in_set set_append)
  next
    case False
    then show ?thesis using normalize_no_CR_last [OF assms(1) False assms(3)] by simp
  qed
  have eq: "normalize_eol le a @ ?o @ normalize_eol le b = a @ ?o @ b"
    using assms(2) normalize_append [OF 1, of le] normalize_append [OF 2, of le] normalize_idem [OF assms(1)] by (simp add: uniform_eol_def)
  have "length (normalize_eol le a @ ?o @ normalize_eol le b) = length (a @ ?o @ b)" by (simp only: eq)
  then have sum: "length (normalize_eol le a) + length (normalize_eol le b) = length a + length b" by simp
  have "length (normalize_eol le a) = length a"
  proof (cases "le = [CR, LF]")
    case True
    then show ?thesis using normalize_length(1) [of le a] normalize_length(1) [of le b] sum by simp
  next
    case False
    then have "le = [LF] \<or> le = [CR]" using assms(1) by (simp add: line_ending_def)
    then show ?thesis using normalize_length(2) [of le a] normalize_length(2) [of le b] sum by simp
  qed
  with eq have "normalize_eol le a = a \<and> ?o @ normalize_eol le b = ?o @ b" by (simp only: append_eq_append_conv simp_thms)
  then show "uniform_eol le a" "uniform_eol le b" by (simp_all add: uniform_eol_def)
qed

lemma uniform_join:
  assumes "line_ending le" and "uniform_eol le a" and "uniform_eol le b"
  shows "uniform_eol le (a @ b)"
proof -
  have "\<not> (a \<noteq> [] \<and> last a = CR \<and> b \<noteq> [] \<and> hd b = LF)"
  proof (cases "le = [LF]")
    case True
    then show ?thesis using normalize_chars(1) [OF True, of a] assms(2) by (metis last_in_set uniform_eol_def)
  next
    case False
    then show ?thesis using normalize_no_LF_head [OF assms(1) False, of b] assms(3) by (metis uniform_eol_def)
  qed
  then show ?thesis using normalize_append assms(2,3) by (simp add: uniform_eol_def)
qed

lemma replaced_once_uniform:
  assumes "line_ending le" and "uniform_eol le content" and "replaced_once le d content result"
  shows "uniform_eol le result"
proof (cases "df_oldStr d = new_text d")
  case True
  with assms show ?thesis by (simp add: replaced_once_def)
next
  case False
  let ?old = "normalize_eol le (df_oldStr d)" and ?new = "normalize_eol le (new_text d)"
  obtain i where i: "occurs_once ?old content i" "result = take i content @ ?new @ drop (i + length ?old) content"
    using assms(3) False unfolding replaced_once_def by (simp only: if_False) blast
  have "take i content @ ?old @ drop (i + length ?old) content = content"
  proof -
    have "prefix ?old (drop i content)" using i(1) unfolding occurs_once_def occurs_def by blast
    then obtain r where r: "drop i content = ?old @ r" by (rule prefixE)
    have "drop (i + length ?old) content = drop (length ?old) (drop i content)" by (simp only: drop_drop add.commute)
    also have "\<dots> = r" unfolding r by simp
    finally show ?thesis using r append_take_drop_id [of i content] by simp
  qed
  then have "uniform_eol le (take i content @ ?old @ drop (i + length ?old) content)" using assms(2) by (simp only:)
  moreover have "?old \<noteq> []" using i(1) unfolding occurs_once_def by blast
  ultimately have "uniform_eol le (take i content)" "uniform_eol le (drop (i + length ?old) content)"
    by (rule uniform_parts [OF assms(1)])+
  moreover have "uniform_eol le ?new" unfolding uniform_eol_def by (rule normalize_idem [OF assms(1)])
  ultimately show ?thesis unfolding i(2) by (intro uniform_join [OF assms(1)])
qed

lemma first_eol_line_ending: "first_eol s = Some e \<Longrightarrow> line_ending e"
  by (induction s rule: first_eol.induct) (auto simp: line_ending_def split: if_splits)

lemma replaced_uniform: "replaced le ds content result \<Longrightarrow> line_ending le \<Longrightarrow> uniform_eol le content \<Longrightarrow> uniform_eol le result"
  by (induction rule: replaced.induct) (auto intro: replaced_once_uniform)

text \<open>
  A file whose line ends are all of one kind keeps that kind through a replacement, whatever line ends the differences are written with.
\<close>

theorem line_ends_kept:
  assumes "getReplaceContent systemEol diffs content = Inr result" and "first_eol content = Some e" and "uniform_eol e content"
  shows "uniform_eol e result"
  using assms replaced_uniform [OF _ first_eol_line_ending] by (simp add: getReplaceContent_def apply_diffs_iff)

theorem line_ends_kept_witness:
  "uniform_eol [CR, LF] (''a'' @ [CR, LF] @ ''x'' @ [CR, LF] @ ''y'' @ [CR, LF])"
  by (rule line_ends_kept [where systemEol = "[LF]" and diffs = "[\<lparr>df_oldStr = ''b'', df_newStr = Some (''x'' @ [LF] @ ''y'')\<rparr>]"
        and content = "''a'' @ [CR, LF] @ ''b'' @ [CR, LF]"]; code_simp)

section \<open>Appending\<close>

text \<open>Appended text begins on a line of its own and nothing before it changes.\<close>

lemma append_effect:
  "getAppendContent text old =
     (if old = [] \<or> last old = LF then old @ text else old @ LF # text)"
  by (cases old rule: rev_cases) (auto simp: getAppendContent_def endsWith_def Let_def)

section \<open>The path that is checked and the path that is written\<close>

text \<open>
  Acceptance is decided on the path as it was given, the write goes to the path with blanks trimmed and the tilde expanded. When the
  server runs inside the workspace, a path that begins with a tilde is inside for the check and outside for the write.
\<close>

definition home_env :: path_env where
  "home_env = sample_path_env\<lparr>pe_cwd := ''/home/u/ws''\<rparr>"

definition no_links :: link_fs where
  "no_links = \<lparr>lf_lstat = (\<lambda>_. Present), lf_realpath = (\<lambda>_. None)\<rparr>"

lemma tilde_path_unasked:
  "requiresPathAcceptance home_env no_links ''~/.bashrc'' ''fsWrite'' None = Some \<lparr>cval_requiresAcceptance = False, cval_warning = None\<rparr>"
  "sanitize (pe_cwd home_env) ''/home/u'' ''~/.bashrc'' = ''/home/u/.bashrc''"
  "\<not> isInWorkspace home_env (pe_workspaceFolders home_env) ''/home/u/.bashrc''"
proof -
  have "resolve ''/home/u/ws'' ''~/.bashrc'' = [''home'', ''u'', ''ws'', ''~'', ''.bashrc'']" by code_simp
  then have r: "resolveSymlinkAwarePath no_links ''/home/u/ws'' ''~/.bashrc'' = Some [''home'', ''u'', ''ws'', ''~'', ''.bashrc'']"
    unfolding resolveSymlinkAwarePath_def by (subst resolve_links.simps) (simp add: no_links_def)
  have "isInWorkspace home_env (map show_path (canonicalizeWorkspaceFolders no_links ''/home/u/ws'' [''/home/u/ws'']))
      (show_path [''home'', ''u'', ''ws'', ''~'', ''.bashrc''])" by code_simp
  then show "requiresPathAcceptance home_env no_links ''~/.bashrc'' ''fsWrite'' None = Some \<lparr>cval_requiresAcceptance = False, cval_warning = None\<rparr>"
    using r by (simp add: requiresPathAcceptance_def home_env_def sample_path_env_def isPathApproved_def Let_def)
  show "sanitize (pe_cwd home_env) ''/home/u'' ''~/.bashrc'' = ''/home/u/.bashrc''" by code_simp
  show "\<not> isInWorkspace home_env (pe_workspaceFolders home_env) ''/home/u/.bashrc''" by code_simp
qed

end
