(* ===== verification/Chat_Events.thy ===== *)
theory Chat_Events
  imports Prelude
begin

text \<open>
  The events of a chat response and what is made of them (\<^verbatim>\<open>agenticChat/agenticChatEventParser.ts\<close>, and
  \<^verbatim>\<open>#processAgenticChatResponse\<close> of \<^verbatim>\<open>agenticChatController.ts\<close>). The input of a tool arrives in fragments and is parsed when the
  tool use stops. A JSON value is its text; parsing and the text of a value inside a template string are
  parameters. Metrics and the writing of intermediate results to the client are left out.
\<close>

section \<open>Events\<close>

record json_ops =
  jo_parse :: "string \<Rightarrow> string option"
  jo_show :: "string \<Rightarrow> string"

record ToolUseEvent =
  te_toolUseId :: "string option"
  te_name :: "string option"
  te_input :: "string option"
  te_stop :: bool

record SupplementaryWebLink =
  wl_title :: "string option"
  wl_url :: "string option"
  wl_snippet :: "string option"

record ChatReference =
  cr_licenseName :: "string option"
  cr_repository :: "string option"
  cr_url :: "string option"
  cr_contentSpan :: "(int option \<times> int option) option"

record ChatEvent =
  ev_error :: "string option"
  ev_invalidState :: "(string option \<times> string option) option"
  ev_assistantResponse :: "string option option"
  ev_toolUse :: "ToolUseEvent option"
  ev_followupPrompt :: "string option option"
  ev_webLinks :: "SupplementaryWebLink list"
  ev_references :: "ChatReference list"
  ev_conversationId :: "string option"

section \<open>The parser\<close>

record SourceLink =
  sl_title :: string
  sl_url :: string
  sl_body :: "string option"

record ReferenceTrackerInformation =
  rt_reference :: ChatReference
  rt_contentSpan :: "(int \<times> int) option"
  rt_information :: string

datatype tool_input = Text_input string | Json_input string

record ParsedToolUse =
  pt_toolUseId :: string
  pt_name :: "string option"
  pt_input :: tool_input
  pt_stop :: bool

record EventCounts =
  ec_followupPrompt :: nat
  ec_supplementaryWebLinks :: nat
  ec_codeReference :: nat
  ec_assistantResponse :: nat
  ec_toolUser :: nat

record AgenticChatEventParser =
  ep_error :: "string option"
  ep_messageId :: string
  ep_body :: "string option"
  ep_relatedContent :: "SourceLink list option"
  ep_followUp :: "string list option"
  ep_codeReference :: "ReferenceTrackerInformation list option"
  ep_toolUses :: "(string \<times> ParsedToolUse) list"
  ep_conversationId :: "string option"
  ep_totalEvents :: EventCounts

definition new_parser :: "string \<Rightarrow> AgenticChatEventParser" where
  "new_parser messageId =
     \<lparr>ep_error = None, ep_messageId = messageId, ep_body = None, ep_relatedContent = None, ep_followUp = None,
      ep_codeReference = None, ep_toolUses = [], ep_conversationId = None,
      ep_totalEvents = \<lparr>ec_followupPrompt = 0, ec_supplementaryWebLinks = 0, ec_codeReference = 0, ec_assistantResponse = 0, ec_toolUser = 0\<rparr>\<rparr>"

definition given :: "string option \<Rightarrow> bool" where
  "given s = (s \<noteq> None \<and> s \<noteq> Some [])"

definition or_empty :: "string option \<Rightarrow> string" where
  "or_empty s = (case s of None \<Rightarrow> [] | Some x \<Rightarrow> x)"

definition template :: "string option \<Rightarrow> string" where
  "template s = (case s of None \<Rightarrow> ''undefined'' | Some x \<Rightarrow> x)"

definition getReferencedInformation :: "ChatReference \<Rightarrow> string" where
  "getReferencedInformation r =
     ''Reference code under **'' @ template (cr_licenseName r) @ ''** license from repository `'' @ template (cr_repository r) @ ''`''"

definition mapRelatedData :: "SupplementaryWebLink \<Rightarrow> SourceLink" where
  "mapRelatedData w = \<lparr>sl_title = or_empty (wl_title w), sl_url = or_empty (wl_url w), sl_body = wl_snippet w\<rparr>"

definition mapReferenceData :: "ChatReference \<Rightarrow> ReferenceTrackerInformation" where
  "mapReferenceData r =
     \<lparr>rt_reference = r,
      rt_contentSpan = map_option (\<lambda>(s, e). (case s of None \<Rightarrow> 0 | Some x \<Rightarrow> x, case e of None \<Rightarrow> 0 | Some x \<Rightarrow> x)) (cr_contentSpan r),
      rt_information = getReferencedInformation r\<rparr>"

definition input_text :: "json_ops \<Rightarrow> tool_input \<Rightarrow> string" where
  "input_text J i = (case i of Text_input s \<Rightarrow> s | Json_input v \<Rightarrow> jo_show J v)"

text \<open>The event of a tool use with an id.\<close>

definition tool_event :: "json_ops \<Rightarrow> string \<Rightarrow> ToolUseEvent \<Rightarrow> AgenticChatEventParser \<Rightarrow> AgenticChatEventParser" where
  "tool_event J i e p =
     (let before = (case map_get (ep_toolUses p) i of None \<Rightarrow> [] | Some u \<Rightarrow> input_text J (pt_input u));
          text = before @ or_empty (te_input e);
          u = \<lparr>pt_toolUseId = i, pt_name = te_name e, pt_input = Text_input text, pt_stop = te_stop e\<rparr>
      in if te_stop e
         then (case jo_parse J (if text = [] then ''{}'' else text) of
                 Some v \<Rightarrow> p\<lparr>ep_toolUses := map_set i (u\<lparr>pt_input := Json_input v\<rparr>) (ep_toolUses p)\<rparr>
               | None \<Rightarrow> p\<lparr>ep_toolUses := map_set i (u\<lparr>pt_input := Json_input ''{}''\<rparr>) (ep_toolUses p),
                           ep_error := Some (''ToolUse input is invalid JSON: \"'' @ text @ ''\".'')\<rparr>)
         else p\<lparr>ep_toolUses := map_set i u (ep_toolUses p)\<rparr>)"

definition counted :: "(EventCounts \<Rightarrow> EventCounts) \<Rightarrow> AgenticChatEventParser \<Rightarrow> AgenticChatEventParser" where
  "counted f p = p\<lparr>ep_totalEvents := f (ep_totalEvents p)\<rparr>"

definition next_parser :: "json_ops \<Rightarrow> ChatEvent \<Rightarrow> AgenticChatEventParser \<Rightarrow> AgenticChatEventParser" where
  "next_parser J ev p =
     (case ev_error ev of
        Some m \<Rightarrow> p\<lparr>ep_error := Some m\<rparr>
      | None \<Rightarrow>
     (case ev_invalidState ev of
        Some (message, reason) \<Rightarrow>
          p\<lparr>ep_error := Some (case message of Some m \<Rightarrow> m | None \<Rightarrow> case reason of Some r \<Rightarrow> r | None \<Rightarrow> ''Invalid state'')\<rparr>
      | None \<Rightarrow>
     if given (Option.bind (ev_assistantResponse ev) id)
     then (counted (\<lambda>c. c\<lparr>ec_assistantResponse := ec_assistantResponse c + 1\<rparr>) p)
            \<lparr>ep_body := Some (or_empty (ep_body p) @ or_empty (Option.bind (ev_assistantResponse ev) id))\<rparr>
     else
     (case ev_toolUse ev of
        Some e \<Rightarrow>
          (let p1 = counted (\<lambda>c. c\<lparr>ec_toolUser := ec_toolUser c + 1\<rparr>) p
           in case te_toolUseId e of None \<Rightarrow> p1 | Some i \<Rightarrow> if i = [] then p1 else tool_event J i e p1)
      | None \<Rightarrow>
     (case ev_followupPrompt ev of
        Some content \<Rightarrow>
          (counted (\<lambda>c. c\<lparr>ec_followupPrompt := ec_followupPrompt c + 1\<rparr>) p)
            \<lparr>ep_followUp := Some ((case ep_followUp p of None \<Rightarrow> [] | Some xs \<Rightarrow> xs) @ [or_empty content])\<rparr>
      | None \<Rightarrow>
     if ev_webLinks ev \<noteq> []
     then (counted (\<lambda>c. c\<lparr>ec_supplementaryWebLinks := ec_supplementaryWebLinks c + 1\<rparr>) p)
            \<lparr>ep_relatedContent := Some ((case ep_relatedContent p of None \<Rightarrow> [] | Some xs \<Rightarrow> xs) @ map mapRelatedData (ev_webLinks ev))\<rparr>
     else if ev_references ev \<noteq> []
     then (counted (\<lambda>c. c\<lparr>ec_codeReference := ec_codeReference c + 1\<rparr>) p)
            \<lparr>ep_codeReference := Some ((case ep_codeReference p of None \<Rightarrow> [] | Some xs \<Rightarrow> xs) @ map mapReferenceData (ev_references ev))\<rparr>
     else if given (ev_conversationId ev) then p\<lparr>ep_conversationId := ev_conversationId ev\<rparr>
     else p))))"

section \<open>Results\<close>

record ChatResultWithMetadata =
  cm_messageId :: string
  cm_body :: string
  cm_relatedContent :: "SourceLink list option"
  cm_followUp :: "string list option"
  cm_codeReference :: "ReferenceTrackerInformation list option"
  cm_conversationId :: "string option"
  cm_toolUses :: "(string \<times> ParsedToolUse) list"

text \<open>A result that failed has an error; a result of a request that timed out has no data.\<close>

record chat_result =
  res_error :: "string option"
  res_data :: "ChatResultWithMetadata option"

definition getResult :: "AgenticChatEventParser \<Rightarrow> chat_result" where
  "getResult p =
     \<lparr>res_error = (if given (ep_error p) then ep_error p else None),
      res_data = Some \<lparr>cm_messageId = ep_messageId p, cm_body = or_empty (ep_body p), cm_relatedContent = ep_relatedContent p,
        cm_followUp = ep_followUp p, cm_codeReference = ep_codeReference p, cm_conversationId = ep_conversationId p,
        cm_toolUses = ep_toolUses p\<rparr>\<rparr>"

definition processPartialEvent :: "json_ops \<Rightarrow> ChatEvent \<Rightarrow> AgenticChatEventParser \<Rightarrow> AgenticChatEventParser \<times> chat_result" where
  "processPartialEvent J ev p = (let p' = next_parser J ev p in (p', getResult p'))"

definition partial_input :: "ParsedToolUse \<Rightarrow> string" where
  "partial_input u = (case pt_input u of Text_input s \<Rightarrow> s | Json_input _ \<Rightarrow> [])"

definition finalize_use :: "bool \<Rightarrow> string \<Rightarrow> AgenticChatEventParser \<Rightarrow> AgenticChatEventParser" where
  "finalize_use aborted i p =
     (case map_get (ep_toolUses p) i of
        None \<Rightarrow> p
      | Some u \<Rightarrow>
          if pt_stop u \<or> aborted \<or> partial_input u = [] then p
          else p\<lparr>ep_error := Some (''ToolUse input is invalid JSON: incomplete tool input, stream ended after '' @
                   show_nat (length (partial_input u)) @ '' characters before completion.''),
                 ep_toolUses := map_set i (u\<lparr>pt_input := Json_input ''{}'', pt_stop := True\<rparr>) (ep_toolUses p)\<rparr>)"

definition finalize_parser :: "bool \<Rightarrow> AgenticChatEventParser \<Rightarrow> AgenticChatEventParser" where
  "finalize_parser aborted p = fold (finalize_use aborted) (map fst (ep_toolUses p)) p"

definition finalize :: "bool \<Rightarrow> AgenticChatEventParser \<Rightarrow> chat_result" where
  "finalize aborted p = getResult (finalize_parser aborted p)"

text \<open>
  The loop over the stream: every event comes with the state of the abort signal. It ends with an
  exception, with the first result that failed, or with the parser after the last event.
\<close>

datatype stream_end = Aborted_error | Failed_early chat_result | Consumed AgenticChatEventParser

fun consume :: "json_ops \<Rightarrow> (bool \<times> ChatEvent) list \<Rightarrow> AgenticChatEventParser \<Rightarrow> stream_end" where
  "consume J [] p = Consumed p"
| "consume J ((aborted, ev) # evs) p =
     (if aborted then Aborted_error
      else let (p', r) = processPartialEvent J ev p
           in if res_error r \<noteq> None then Failed_early r else consume J evs p')"

definition processAgenticChatResponse :: "json_ops \<Rightarrow> string \<Rightarrow> (bool \<times> ChatEvent) list \<Rightarrow> bool \<Rightarrow> string + chat_result" where
  "processAgenticChatResponse J requestId evs abortedAtEnd =
     (case consume J evs (new_parser requestId) of
        Aborted_error \<Rightarrow> Inl ''Operation was aborted''
      | Failed_early r \<Rightarrow> Inr r
      | Consumed p \<Rightarrow> Inr (finalize abortedAtEnd p))"

section \<open>What a stream says\<close>

text \<open>The events of a response stream carry one member each.\<close>

definition single_event :: "ChatEvent \<Rightarrow> bool" where
  "single_event ev \<longleftrightarrow>
     length (filter id [ev_error ev \<noteq> None, ev_invalidState ev \<noteq> None, ev_assistantResponse ev \<noteq> None, ev_toolUse ev \<noteq> None,
       ev_followupPrompt ev \<noteq> None, ev_webLinks ev \<noteq> [], ev_references ev \<noteq> [], ev_conversationId ev \<noteq> None]) \<le> 1"

definition text_of :: "ChatEvent \<Rightarrow> string" where
  "text_of ev = or_empty (Option.bind (ev_assistantResponse ev) id)"

definition uses_tool :: "string \<Rightarrow> ChatEvent \<Rightarrow> bool" where
  "uses_tool i ev = (case ev_toolUse ev of None \<Rightarrow> False | Some e \<Rightarrow> te_toolUseId e = Some i \<and> i \<noteq> [])"

definition fragment_of :: "string \<Rightarrow> ChatEvent \<Rightarrow> string" where
  "fragment_of i ev = (if uses_tool i ev then or_empty (te_input (the (ev_toolUse ev))) else [])"

definition fragments :: "string \<Rightarrow> ChatEvent list \<Rightarrow> string" where
  "fragments i evs = concat (map (fragment_of i) evs)"

definition stops_tool :: "string \<Rightarrow> ChatEvent \<Rightarrow> bool" where
  "stops_tool i ev \<longleftrightarrow> uses_tool i ev \<and> te_stop (the (ev_toolUse ev))"

definition last_tool :: "string \<Rightarrow> ChatEvent list \<Rightarrow> ToolUseEvent option" where
  "last_tool i evs = (case filter (uses_tool i) evs of [] \<Rightarrow> None | x # xs \<Rightarrow> ev_toolUse (last (x # xs)))"

definition event_tool :: "ChatEvent \<Rightarrow> string option" where
  "event_tool ev = (case Option.bind (ev_toolUse ev) te_toolUseId of None \<Rightarrow> None | Some i \<Rightarrow> if i = [] then None else Some i)"

text \<open>The event that stops a tool use is its last one.\<close>

fun stops_last :: "ChatEvent list \<Rightarrow> bool" where
  "stops_last [] = True"
| "stops_last (ev # evs) = ((case event_tool ev of None \<Rightarrow> True | Some i \<Rightarrow> stops_tool i ev \<longrightarrow> \<not> list_ex (uses_tool i) evs) \<and> stops_last evs)"

definition parsed_or_empty :: "json_ops \<Rightarrow> string \<Rightarrow> string option" where
  "parsed_or_empty J s = jo_parse J (if s = [] then ''{}'' else s)"

text \<open>The tool use that the events seen so far stand for.\<close>

definition tool_of :: "json_ops \<Rightarrow> string \<Rightarrow> ChatEvent list \<Rightarrow> ParsedToolUse option" where
  "tool_of J i evs =
     map_option (\<lambda>e. \<lparr>pt_toolUseId = i, pt_name = te_name e,
       pt_input = (if te_stop e then Json_input (the (parsed_or_empty J (fragments i evs))) else Text_input (fragments i evs)),
       pt_stop = te_stop e\<rparr>) (last_tool i evs)"

definition parser_says :: "json_ops \<Rightarrow> ChatEvent list \<Rightarrow> AgenticChatEventParser \<Rightarrow> bool" where
  "parser_says J evs p \<longleftrightarrow> \<not> given (ep_error p) \<and> or_empty (ep_body p) = concat (map text_of evs) \<and>
     (\<forall>i. map_get (ep_toolUses p) i = tool_of J i evs) \<and> distinct (map fst (ep_toolUses p)) \<and>
     (\<forall>i e. last_tool i evs = Some e \<longrightarrow> te_stop e \<longrightarrow> parsed_or_empty J (fragments i evs) \<noteq> None)"

lemma last_tool_snoc: "last_tool i (evs @ [ev]) = (if uses_tool i ev then ev_toolUse ev else last_tool i evs)"
  by (cases "filter (uses_tool i) evs") (auto simp: last_tool_def)

lemma fragments_snoc: "fragments i (evs @ [ev]) = fragments i evs @ fragment_of i ev"
  by (simp add: fragments_def)

lemma tool_of_other: "\<not> uses_tool i ev \<Longrightarrow> tool_of J i (evs @ [ev]) = tool_of J i evs"
  by (cases "last_tool i evs") (simp_all add: tool_of_def last_tool_snoc fragments_snoc fragment_of_def)

lemma event_tool_iff: "event_tool ev = Some i \<longleftrightarrow> uses_tool i ev"
  by (auto simp: event_tool_def uses_tool_def split: option.splits if_splits bind_splits)

lemma last_filter_mem: "filter P xs \<noteq> [] \<Longrightarrow> last (filter P xs) \<in> set xs \<and> P (last (filter P xs))"
  using last_in_set [of "filter P xs"] by auto

lemma last_tool_None: "last_tool i evs = None \<longleftrightarrow> filter (uses_tool i) evs = []"
proof -
  have "ev_toolUse (last (x # xs)) \<noteq> None" if "filter (uses_tool i) evs = x # xs" for x xs
    using last_filter_mem [of "uses_tool i" evs] that by (auto simp: uses_tool_def split: option.splits)
  then show ?thesis by (auto simp: last_tool_def split: list.splits)
qed

lemma stops_last_before:
  assumes "stops_last (evs @ ev # rest)" and "uses_tool i ev" and "last_tool i evs = Some e"
  shows "\<not> te_stop e"
proof
  assume stop: "te_stop e"
  obtain x xs where f: "filter (uses_tool i) evs = x # xs" "ev_toolUse (last (x # xs)) = Some e"
    using assms(3) by (auto simp: last_tool_def split: list.splits)
  let ?l = "last (x # xs)"
  have l: "?l \<in> set evs" "uses_tool i ?l"
    using last_filter_mem [of "uses_tool i" evs] f(1) by simp_all
  have "stops_tool i ?l" using l f(2) stop by (simp add: stops_tool_def)
  obtain as bs where s: "evs = as @ ?l # bs" using l(1) by (metis split_list)
  have "stops_last (?l # bs @ ev # rest)"
    using assms(1) unfolding s by (induction as) auto
  then have "\<not> list_ex (uses_tool i) (bs @ ev # rest)"
    using \<open>stops_tool i ?l\<close> l(2) event_tool_iff [of ?l i] by simp
  with assms(2) show False by simp
qed

lemma given_None [simp]: "\<not> given None" "given (Some s) \<longleftrightarrow> s \<noteq> []"
  by (auto simp: given_def)

lemma text_of_other: "ev_assistantResponse ev = None \<Longrightarrow> text_of ev = []"
  by (simp add: text_of_def or_empty_def)

text \<open>An event of another kind leaves the tool uses and the body alone.\<close>

lemma parser_says_other:
  assumes "parser_says J evs p" and "text_of ev = []" and "\<And>i. \<not> uses_tool i ev"
    and "\<not> given (ep_error p')" "ep_body p' = ep_body p" "ep_toolUses p' = ep_toolUses p"
  shows "parser_says J (evs @ [ev]) p'"
  using assms unfolding parser_says_def by (simp add: tool_of_other last_tool_snoc fragments_snoc fragment_of_def)

lemma input_so_far:
  assumes "parser_says J evs p" and "\<And>e'. last_tool i evs = Some e' \<Longrightarrow> \<not> te_stop e'"
  shows "(case map_get (ep_toolUses p) i of None \<Rightarrow> [] | Some t \<Rightarrow> input_text J (pt_input t)) = fragments i evs"
proof (cases "last_tool i evs")
  case None
  then have "fragments i evs = []" by (auto simp: last_tool_None fragments_def fragment_of_def filter_empty_conv)
  moreover have "map_get (ep_toolUses p) i = None" using assms(1) None by (simp add: parser_says_def tool_of_def)
  ultimately show ?thesis by simp
next
  case (Some e')
  then show ?thesis using assms(1) assms(2) [OF Some] by (simp add: parser_says_def tool_of_def input_text_def)
qed

lemma parser_says_tool:
  assumes "parser_says J evs p" and "ev_toolUse ev = Some e" and "te_toolUseId e = Some i" and "i \<noteq> []" and "text_of ev = []"
    and "\<And>e'. last_tool i evs = Some e' \<Longrightarrow> \<not> te_stop e'" and "\<not> given (ep_error (tool_event J i e p))"
  shows "parser_says J (evs @ [ev]) (tool_event J i e p)"
proof -
  have u: "uses_tool i ev" using assms(2,3,4) by (simp add: uses_tool_def)
  have other: "\<not> uses_tool j ev" if "j \<noteq> i" for j using that assms(2,3) by (simp add: uses_tool_def)
  note before = input_so_far [OF assms(1,6)]
  have frag: "fragments i (evs @ [ev]) = fragments i evs @ or_empty (te_input e)"
    using u assms(2) by (simp add: fragments_snoc fragment_of_def)
  have parsed: "\<exists>v. parsed_or_empty J (fragments i (evs @ [ev])) = Some v" if "te_stop e"
    using assms(7) that by (auto simp: tool_event_def Let_def before frag parsed_or_empty_def split: option.splits)
  then have t: "tool_event J i e p = p\<lparr>ep_toolUses := map_set i (the (tool_of J i (evs @ [ev]))) (ep_toolUses p)\<rparr>"
    using u assms(2) by (auto simp: tool_event_def Let_def before frag parsed_or_empty_def tool_of_def last_tool_snoc split: option.splits)
  have s: "\<exists>t. tool_of J i (evs @ [ev]) = Some t" using u assms(2) by (simp add: tool_of_def last_tool_snoc)
  have "map_get (ep_toolUses (tool_event J i e p)) j = tool_of J j (evs @ [ev])" for j
    using assms(1) s other tool_of_other [of j ev J evs] by (cases "j = i") (auto simp: t parser_says_def jsmap.get_put)
  moreover have "distinct (map fst (ep_toolUses (tool_event J i e p)))"
    using assms(1) jsmap.wf_put by (auto simp: t parser_says_def map_wf_def)
  moreover have "parsed_or_empty J (fragments j (evs @ [ev])) \<noteq> None" if "last_tool j (evs @ [ev]) = Some e'" "te_stop e'" for j e'
    using that parsed assms(1,2) other [of j] u
    by (cases "j = i") (auto simp: last_tool_snoc fragments_snoc fragment_of_def parser_says_def)
  ultimately show ?thesis using assms(1,5,7) by (simp add: parser_says_def t)
qed

lemma single_eventD:
  assumes "single_event ev"
  shows "ev_error ev \<noteq> None \<or> ev_invalidState ev \<noteq> None \<Longrightarrow> ev_assistantResponse ev = None \<and> ev_toolUse ev = None"
    and "ev_assistantResponse ev \<noteq> None \<Longrightarrow> ev_toolUse ev = None"
    and "ev_toolUse ev \<noteq> None \<Longrightarrow> ev_assistantResponse ev = None"
  using assms unfolding single_event_def by (auto split: if_splits)

lemma counted_simps [simp]:
  "ep_error (counted f p) = ep_error p" "ep_body (counted f p) = ep_body p" "ep_toolUses (counted f p) = ep_toolUses p"
  by (simp_all add: counted_def)

lemma no_tool: "ev_toolUse ev = None \<Longrightarrow> \<not> uses_tool i ev"
  by (simp add: uses_tool_def)

lemma parser_says_counted: "parser_says J evs (counted f p) = parser_says J evs p"
  by (simp add: parser_says_def)

text \<open>One event.\<close>

lemma next_parser_says:
  assumes says: "parser_says J evs p" and single: "single_event ev" and stops: "stops_last (evs @ ev # rest)"
    and good: "\<not> given (ep_error (next_parser J ev p))"
  shows "parser_says J (evs @ [ev]) (next_parser J ev p)"
proof (cases "ev_error ev \<noteq> None \<or> ev_invalidState ev \<noteq> None")
  case True
  note n = single_eventD(1) [OF single True]
  have "ep_body (next_parser J ev p) = ep_body p" "ep_toolUses (next_parser J ev p) = ep_toolUses p"
    using True by (auto simp: next_parser_def split: option.splits)
  with good n show ?thesis by (intro parser_says_other [OF says]) (auto simp: text_of_other no_tool)
next
  case False
  then have nf: "ev_error ev = None" "ev_invalidState ev = None" by blast+
  show ?thesis
  proof (cases "given (Option.bind (ev_assistantResponse ev) id)")
    case True
    then have "ev_assistantResponse ev \<noteq> None" by (cases "ev_assistantResponse ev") simp_all
    then have n: "ev_toolUse ev = None" by (rule single_eventD(2) [OF single])
    have "next_parser J ev p = (counted (\<lambda>c. c\<lparr>ec_assistantResponse := ec_assistantResponse c + 1\<rparr>) p)
            \<lparr>ep_body := Some (or_empty (ep_body p) @ text_of ev)\<rparr>"
      using nf True by (simp add: next_parser_def text_of_def)
    then show ?thesis using says n by (simp add: parser_says_def tool_of_other no_tool or_empty_def last_tool_snoc fragments_snoc fragment_of_def)
  next
    case empty: False
    then have blank: "text_of ev = []" by (auto simp: text_of_def or_empty_def given_def split: option.splits)
    show ?thesis
    proof (cases "ev_toolUse ev")
      case None
      then have "ep_error (next_parser J ev p) = ep_error p" "ep_body (next_parser J ev p) = ep_body p"
        "ep_toolUses (next_parser J ev p) = ep_toolUses p"
        using nf empty by (auto simp: next_parser_def Let_def split: option.splits)
      with says None blank good show ?thesis by (intro parser_says_other [OF says]) (auto simp: no_tool)
    next
      case (Some e)
      let ?p1 = "counted (\<lambda>c. c\<lparr>ec_toolUser := ec_toolUser c + 1\<rparr>) p"
      show ?thesis
      proof (cases "event_tool ev")
        case None
        then have "next_parser J ev p = ?p1"
          using nf empty Some by (auto simp: next_parser_def Let_def event_tool_def split: option.splits if_splits)
        moreover have "\<not> uses_tool i ev" for i using None event_tool_iff [of ev i] by simp
        ultimately show ?thesis using says blank good by (intro parser_says_other [OF says]) auto
      next
        case tool: (Some i)
        then have i: "te_toolUseId e = Some i" "i \<noteq> []" "uses_tool i ev"
          using Some event_tool_iff [of ev i] by (auto simp: uses_tool_def)
        then have n: "next_parser J ev p = tool_event J i e ?p1"
          using nf empty Some by (simp add: next_parser_def Let_def)
        show ?thesis unfolding n
          by (rule parser_says_tool [OF _ Some i(1,2) blank])
            (use says good stops_last_before [OF stops i(3)] in \<open>simp_all add: parser_says_counted n\<close>)
      qed
    qed
  qed
qed

lemma consume_says:
  assumes "consume J evs p = Consumed p'" and "parser_says J seen p" and "list_all (single_event \<circ> snd) evs"
    and "stops_last (seen @ map snd evs)"
  shows "parser_says J (seen @ map snd evs) p'"
  using assms
proof (induction J evs p arbitrary: seen rule: consume.induct)
  case (1 J p)
  then show ?case by simp
next
  case (2 J aborted ev evs p)
  let ?p = "next_parser J ev p"
  have rest: "\<not> aborted" "\<not> given (ep_error ?p)" "consume J evs ?p = Consumed p'"
    using "2.prems"(1) by (auto simp: processPartialEvent_def Let_def getResult_def split: if_splits)
  have "parser_says J (seen @ [ev]) ?p"
    using "2.prems"(2-4) rest(2) by (intro next_parser_says [where rest = "map snd evs"]) auto
  then show ?case
    using "2.IH" [OF rest(1) _ refl _ rest(3), of "getResult ?p" "seen @ [ev]"] "2.prems"(3,4) rest(2)
    by (auto simp: processPartialEvent_def Let_def getResult_def)
qed

lemma consume_total: "list_all (Not \<circ> fst) evs \<Longrightarrow> consume J evs p \<noteq> Aborted_error"
  by (induction J evs p rule: consume.induct) (auto simp: processPartialEvent_def Let_def)

text \<open>The error an event reports by itself.\<close>

definition event_error :: "ChatEvent \<Rightarrow> string option" where
  "event_error ev =
     (case ev_error ev of
        Some m \<Rightarrow> Some m
      | None \<Rightarrow> map_option (\<lambda>(message, reason). case message of Some m \<Rightarrow> m | None \<Rightarrow> case reason of Some r \<Rightarrow> r | None \<Rightarrow> ''Invalid state'')
                  (ev_invalidState ev))"

lemma next_parser_error:
  assumes "parser_says J evs p" and "single_event ev" and "stops_last (evs @ ev # rest)" and "\<not> given (event_error ev)"
    and "\<And>i. stops_tool i ev \<Longrightarrow> parsed_or_empty J (fragments i (evs @ [ev])) \<noteq> None"
  shows "\<not> given (ep_error (next_parser J ev p))"
proof (cases "ev_error ev \<noteq> None \<or> ev_invalidState ev \<noteq> None")
  case True
  then have "ep_error (next_parser J ev p) = event_error ev"
    by (auto simp: next_parser_def event_error_def split: option.splits)
  with assms(4) show ?thesis by simp
next
  case False
  then have nf: "ev_error ev = None" "ev_invalidState ev = None" by blast+
  have np: "\<not> given (ep_error p)" using assms(1) by (simp add: parser_says_def)
  show ?thesis
  proof (cases "\<exists>i e. ev_toolUse ev = Some e \<and> te_toolUseId e = Some i \<and> i \<noteq> [] \<and> \<not> given (Option.bind (ev_assistantResponse ev) id)")
    case False
    then have "ep_error (next_parser J ev p) = ep_error p"
      using nf by (auto simp: next_parser_def Let_def split: option.splits if_splits)
    with np show ?thesis by simp
  next
    case True
    then obtain i e where e: "ev_toolUse ev = Some e" "te_toolUseId e = Some i" "i \<noteq> []" "\<not> given (Option.bind (ev_assistantResponse ev) id)" by blast
    have u: "uses_tool i ev" using e by (simp add: uses_tool_def)
    have "stops_tool i ev" if "te_stop e" using u e that by (simp add: stops_tool_def)
    then have parsed: "parsed_or_empty J (fragments i evs @ or_empty (te_input e)) \<noteq> None" if "te_stop e"
      using assms(5) [of i] that u e(1) by (simp add: fragments_snoc fragment_of_def)
    let ?p1 = "counted (\<lambda>c. c\<lparr>ec_toolUser := ec_toolUser c + 1\<rparr>) p"
    have n: "next_parser J ev p = tool_event J i e ?p1" using nf e by (simp add: next_parser_def Let_def)
    have before: "(case map_get (ep_toolUses ?p1) i of None \<Rightarrow> [] | Some t \<Rightarrow> input_text J (pt_input t)) = fragments i evs"
      by (rule input_so_far) (use assms(1) stops_last_before [OF assms(3) u] in \<open>simp_all add: parser_says_counted\<close>)
    show ?thesis
    proof (cases "te_stop e")
      case True
      obtain v where "jo_parse J (if fragments i evs @ or_empty (te_input e) = [] then ''{}'' else fragments i evs @ or_empty (te_input e)) = Some v"
        using parsed [OF True] unfolding parsed_or_empty_def by blast
      with True np show ?thesis unfolding n tool_event_def Let_def before by (simp only: if_True option.case) simp
    qed (use np in \<open>simp add: n tool_event_def Let_def\<close>)
  qed
qed

lemma consume_complete:
  assumes "parser_says J seen p" and "list_all (Not \<circ> fst) evs" and "list_all (single_event \<circ> snd) evs"
    and "stops_last (seen @ map snd evs)" and "list_all (\<lambda>ev. \<not> given (event_error ev)) (map snd evs)"
    and "\<And>i e. last_tool i (seen @ map snd evs) = Some e \<Longrightarrow> te_stop e \<Longrightarrow> parsed_or_empty J (fragments i (seen @ map snd evs)) \<noteq> None"
  shows "\<exists>p'. consume J evs p = Consumed p'"
  using assms
proof (induction evs arbitrary: seen p)
  case Nil
  then show ?case by simp
next
  case (Cons a evs)
  obtain ev where a: "a = (False, ev)" using Cons.prems(2) by (cases a) auto
  let ?rest = "map snd evs"
  have stops: "stops_last (seen @ ev # ?rest)" using Cons.prems(4) a by simp
  have "parsed_or_empty J (fragments i (seen @ [ev])) \<noteq> None" if st: "stops_tool i ev" for i
  proof -
    have u: "uses_tool i ev" "te_stop (the (ev_toolUse ev))" using st by (auto simp: stops_tool_def)
    have "stops_last (ev # ?rest)" using stops by (induction seen) auto
    then have later: "\<not> list_ex (uses_tool i) ?rest" using u st event_tool_iff [of ev i] by simp
    then have "fragments i ?rest = []" "filter (uses_tool i) ?rest = []"
      by (auto simp: fragments_def fragment_of_def list_ex_iff filter_empty_conv)
    then have "fragments i (seen @ ev # ?rest) = fragments i (seen @ [ev])" "last_tool i (seen @ ev # ?rest) = ev_toolUse ev"
      using u(1) last_tool_snoc [of i seen ev] by (simp_all add: fragments_def last_tool_def)
    then show ?thesis using Cons.prems(6) [of i "the (ev_toolUse ev)"] u a by (auto simp: uses_tool_def split: option.splits)
  qed
  then have good: "\<not> given (ep_error (next_parser J ev p))"
    by (intro next_parser_error [OF Cons.prems(1) _ stops]) (use Cons.prems(3,5) a in auto)
  have "parser_says J (seen @ [ev]) (next_parser J ev p)"
    by (rule next_parser_says [OF Cons.prems(1) _ stops good]) (use Cons.prems(3) a in simp)
  then have "\<exists>p'. consume J evs (next_parser J ev p) = Consumed p'"
    by (rule Cons.IH) (use Cons.prems a in auto)
  then show ?case using good a by (simp add: processPartialEvent_def Let_def getResult_def)
qed

section \<open>The end of the stream\<close>

definition truncated_use :: "bool \<Rightarrow> ParsedToolUse \<Rightarrow> bool" where
  "truncated_use aborted u \<longleftrightarrow> \<not> aborted \<and> \<not> pt_stop u \<and> partial_input u \<noteq> []"

lemma finalize_use_step:
  "map_get (ep_toolUses (finalize_use ab k p)) i =
     map_option (\<lambda>u. if i = k \<and> truncated_use ab u then u\<lparr>pt_input := Json_input ''{}'', pt_stop := True\<rparr> else u) (map_get (ep_toolUses p) i)"
  "ep_body (finalize_use ab k p) = ep_body p"
  "given (ep_error (finalize_use ab k p)) \<longleftrightarrow> given (ep_error p) \<or> (\<exists>u. map_get (ep_toolUses p) k = Some u \<and> truncated_use ab u)"
  "map fst (ep_toolUses (finalize_use ab k p)) = map fst (ep_toolUses p)"
  by (cases "map_get (ep_toolUses p) k"; cases "map_get (ep_toolUses p) i";
      simp add: finalize_use_def truncated_use_def jsmap.get_put jsmap.keys_put jsmap.has_iff; auto)+

lemma finalize_fold:
  "map_get (ep_toolUses (fold (finalize_use ab) ks p)) i =
     map_option (\<lambda>u. if i \<in> set ks \<and> truncated_use ab u then u\<lparr>pt_input := Json_input ''{}'', pt_stop := True\<rparr> else u) (map_get (ep_toolUses p) i)"
  "ep_body (fold (finalize_use ab) ks p) = ep_body p"
  "given (ep_error (fold (finalize_use ab) ks p)) \<longleftrightarrow>
     given (ep_error p) \<or> (\<exists>k \<in> set ks. \<exists>u. map_get (ep_toolUses p) k = Some u \<and> truncated_use ab u)"
  "map fst (ep_toolUses (fold (finalize_use ab) ks p)) = map fst (ep_toolUses p)"
proof (induction ks arbitrary: p)
  case (Cons k ks)
  {
    case 1
    show ?case
      by (cases "map_get (ep_toolUses p) i") (auto simp: Cons.IH(1) finalize_use_step(1) truncated_use_def)
  next
    case 2
    show ?case by (simp add: Cons.IH(2) finalize_use_step(2))
  next
    case 3
    have "(\<exists>u. map_get (ep_toolUses (finalize_use ab k p)) j = Some u \<and> truncated_use ab u) \<longleftrightarrow>
        j \<noteq> k \<and> (\<exists>u. map_get (ep_toolUses p) j = Some u \<and> truncated_use ab u)" for j
      by (cases "map_get (ep_toolUses p) j") (auto simp: finalize_use_step(1) truncated_use_def)
    then show ?case unfolding fold_simps comp_def Cons.IH(3) finalize_use_step(3) list.set by auto
  next
    case 4
    show ?case by (simp only: fold_simps comp_def Cons.IH(4) finalize_use_step(4))
  }
qed (simp_all add: option.map_ident)

lemma finalize_all:
  "map_get (ep_toolUses (finalize_parser ab p)) i =
     map_option (\<lambda>u. if truncated_use ab u then u\<lparr>pt_input := Json_input ''{}'', pt_stop := True\<rparr> else u) (map_get (ep_toolUses p) i)"
  "ep_body (finalize_parser ab p) = ep_body p"
  "given (ep_error (finalize_parser ab p)) \<longleftrightarrow> given (ep_error p) \<or> (\<exists>k u. map_get (ep_toolUses p) k = Some u \<and> truncated_use ab u)"
  "map fst (ep_toolUses (finalize_parser ab p)) = map fst (ep_toolUses p)"
proof -
  have k: "k \<in> set (map fst (ep_toolUses p)) \<longleftrightarrow> map_get (ep_toolUses p) k \<noteq> None" for k
    using jsmap.set_keys [of "ep_toolUses p"] by blast
  show "map_get (ep_toolUses (finalize_parser ab p)) i =
     map_option (\<lambda>u. if truncated_use ab u then u\<lparr>pt_input := Json_input ''{}'', pt_stop := True\<rparr> else u) (map_get (ep_toolUses p) i)"
    unfolding finalize_parser_def finalize_fold(1) k by (cases "map_get (ep_toolUses p) i") simp_all
  show "given (ep_error (finalize_parser ab p)) \<longleftrightarrow> given (ep_error p) \<or> (\<exists>k u. map_get (ep_toolUses p) k = Some u \<and> truncated_use ab u)"
    unfolding finalize_parser_def finalize_fold(3) Bex_def k by auto
qed (simp_all only: finalize_parser_def finalize_fold(2,4))

lemma new_parser_says: "parser_says J [] (new_parser m)"
  by (simp add: parser_says_def new_parser_def or_empty_def tool_of_def last_tool_def)

text \<open>What becomes of the stream of a request that was not aborted.\<close>

lemma response_ends:
  assumes "list_all (Not \<circ> fst) evs"
  obtains r where "processAgenticChatResponse J requestId evs ab = Inr r"
  using consume_total [OF assms, of J "new_parser requestId"]
  by (cases "consume J evs (new_parser requestId)") (auto simp: processAgenticChatResponse_def)

lemma success_consumed:
  assumes "processAgenticChatResponse J requestId evs ab = Inr r" and "res_error r = None"
  obtains p where "consume J evs (new_parser requestId) = Consumed p" and "r = finalize ab p"
proof -
  have early: "res_error r' \<noteq> None" if "consume J evs p = Failed_early r'" for p r'
    using that by (induction J evs p rule: consume.induct) (auto simp: processPartialEvent_def Let_def split: if_splits)
  show thesis
    using assms early [of "new_parser requestId"] that
    by (cases "consume J evs (new_parser requestId)") (auto simp: processAgenticChatResponse_def)
qed

lemma next_parser_reports: "given (event_error ev) \<Longrightarrow> given (ep_error (next_parser J ev p))"
  by (auto simp: event_error_def next_parser_def split: option.splits)

lemma quiet_events: "consume J evs p = Consumed p' \<Longrightarrow> list_all (\<lambda>ev. \<not> given (event_error ev)) (map snd evs)"
proof (induction J evs p rule: consume.induct)
  case (2 J aborted ev evs p)
  then have "\<not> aborted" "\<not> given (ep_error (next_parser J ev p))" "consume J evs (next_parser J ev p) = Consumed p'"
    by (auto simp: processPartialEvent_def Let_def getResult_def split: if_splits)
  with 2 next_parser_reports [of ev J p] show ?case by (auto simp: processPartialEvent_def Let_def getResult_def)
qed simp

lemma truncated_tool: "tool_of J i evs = Some u \<Longrightarrow> truncated_use False u \<longleftrightarrow> (\<exists>e. last_tool i evs = Some e \<and> \<not> te_stop e \<and> fragments i evs \<noteq> [])"
  by (auto simp: tool_of_def truncated_use_def partial_input_def)

text \<open>
  C29. A response that was not aborted succeeds exactly when no event reports an error, the collected input of every stopped tool use can be
  parsed, and no tool use has received input without having been stopped: an input that was cut off is never dropped in silence. The
  body of a successful response is the text of its events in order, and its tool uses are exactly those of the events, each with the
  parsed concatenation of its fragments if it was stopped.
\<close>

theorem response_collected:
  fixes evs :: "(bool \<times> ChatEvent) list"
  defines "es \<equiv> map snd evs"
  assumes "list_all (Not \<circ> fst) evs" and "list_all (single_event \<circ> snd) evs" and "stops_last es"
  shows "\<exists>r. processAgenticChatResponse J requestId evs False = Inr r \<and>
     (res_error r = None \<longleftrightarrow>
        list_all (\<lambda>ev. \<not> given (event_error ev)) es \<and>
        (\<forall>i e. last_tool i es = Some e \<longrightarrow> (if te_stop e then parsed_or_empty J (fragments i es) \<noteq> None else fragments i es = []))) \<and>
     (res_error r = None \<longrightarrow>
        (\<exists>d. res_data r = Some d \<and> cm_body d = concat (map text_of es) \<and> distinct (map fst (cm_toolUses d)) \<and>
           (\<forall>i. map_get (cm_toolUses d) i = tool_of J i es)))"
proof -
  note new = new_parser_says [of J requestId]
  obtain r where r: "processAgenticChatResponse J requestId evs False = Inr r" by (rule response_ends [OF assms(2)])
  let ?good = "list_all (\<lambda>ev. \<not> given (event_error ev)) es \<and>
     (\<forall>i e. last_tool i es = Some e \<longrightarrow> (if te_stop e then parsed_or_empty J (fragments i es) \<noteq> None else fragments i es = []))"
  let ?data = "\<exists>d. res_data r = Some d \<and> cm_body d = concat (map text_of es) \<and> distinct (map fst (cm_toolUses d)) \<and>
     (\<forall>i. map_get (cm_toolUses d) i = tool_of J i es)"
  have fine: "?good \<and> ?data" if ok: "res_error r = None"
  proof -
    obtain p where p: "consume J evs (new_parser requestId) = Consumed p" "r = finalize False p" by (rule success_consumed [OF r ok])
    have says: "parser_says J es p" using consume_says [OF p(1) new assms(3)] assms(4) by (simp add: es_def)
    have "\<not> given (ep_error (finalize_parser False p))" using ok p(2) by (auto simp: finalize_def getResult_def split: if_splits)
    then have none: "\<not> truncated_use False u" if "map_get (ep_toolUses p) i = Some u" for i u
      using that finalize_all(3) [of False p] by blast
    have same: "map_get (ep_toolUses (finalize_parser False p)) i = tool_of J i es" for i
      using says none [of i] by (cases "tool_of J i es") (auto simp: finalize_all(1) parser_says_def)
    have "fragments i es = []" if "last_tool i es = Some e" "\<not> te_stop e" for i e
      using none [of i] says that truncated_tool [of J i es] by (auto simp: parser_says_def tool_of_def)
    then have "?good" using says quiet_events [OF p(1)] by (auto simp: parser_says_def es_def)
    moreover have "cm_body (the (res_data r)) = concat (map text_of es)" "distinct (map fst (cm_toolUses (the (res_data r))))"
      using says by (simp_all add: p(2) finalize_def getResult_def finalize_all(2,4) parser_says_def)
    ultimately show ?thesis using same by (simp add: p(2) finalize_def getResult_def)
  qed
  have converse: "res_error r = None" if g: ?good
  proof -
    have "\<exists>p. consume J evs (new_parser requestId) = Consumed p"
      by (rule consume_complete [OF new assms(2,3)]) (use g assms(4) in \<open>auto simp: es_def split: if_splits\<close>)
    then obtain p where p: "consume J evs (new_parser requestId) = Consumed p" by blast
    have says: "parser_says J es p" using consume_says [OF p new assms(3)] assms(4) by (simp add: es_def)
    have "\<not> truncated_use False u" if "map_get (ep_toolUses p) i = Some u" for i u
      using that says g truncated_tool [of J i es u] by (auto simp: parser_says_def split: if_splits)
    then have "\<not> given (ep_error (finalize_parser False p))" using says finalize_all(3) [of False p] by (auto simp: parser_says_def)
    then show ?thesis using r p by (auto simp: processAgenticChatResponse_def finalize_def getResult_def)
  qed
  have "res_error r = None \<longleftrightarrow> ?good" and "res_error r = None \<longrightarrow> ?data" using fine converse by blast+
  with r show ?thesis by (intro exI [of _ r] conjI)
qed

text \<open>A response in five events: text, a tool use in two fragments and its stop, and more text.\<close>

definition plain_event :: ChatEvent where
  "plain_event = \<lparr>ev_error = None, ev_invalidState = None, ev_assistantResponse = None, ev_toolUse = None, ev_followupPrompt = None,
     ev_webLinks = [], ev_references = [], ev_conversationId = None\<rparr>"

definition text_event :: "string \<Rightarrow> ChatEvent" where
  "text_event s = plain_event\<lparr>ev_assistantResponse := Some (Some s)\<rparr>"

definition fragment_event :: "string \<Rightarrow> bool \<Rightarrow> ChatEvent" where
  "fragment_event s stop = plain_event\<lparr>ev_toolUse := Some \<lparr>te_toolUseId = Some ''t'', te_name = Some ''fsRead'', te_input = Some s, te_stop = stop\<rparr>\<rparr>"

definition sample_json :: json_ops where
  "sample_json = \<lparr>jo_parse = (\<lambda>s. if startsWith s ''{'' \<and> endsWith s ''}'' then Some s else None), jo_show = (\<lambda>_. ''[object Object]'')\<rparr>"

definition sample_stream :: "(bool \<times> ChatEvent) list" where
  "sample_stream = map (Pair False) [text_event ''I '', fragment_event ''{'' False, fragment_event ''}'' False, fragment_event [] True, text_event ''read.'']"

definition sample_response :: chat_result where
  "sample_response = projr (processAgenticChatResponse sample_json ''m'' sample_stream False)"

theorem response_collected_witness:
  "res_error sample_response = None \<and> cm_body (the (res_data sample_response)) = ''I read.'' \<and>
   map_get (cm_toolUses (the (res_data sample_response))) ''t'' =
     Some \<lparr>pt_toolUseId = ''t'', pt_name = Some ''fsRead'', pt_input = Json_input ''{}'', pt_stop = True\<rparr>"
proof -
  have h: "list_all (Not \<circ> fst) sample_stream" "list_all (single_event \<circ> snd) sample_stream" "stops_last (map snd sample_stream)"
    by code_simp+
  have e: "res_error sample_response = None" by code_simp
  have t: "concat (map text_of (map snd sample_stream)) = ''I read.''"
    "tool_of sample_json ''t'' (map snd sample_stream) =
       Some \<lparr>pt_toolUseId = ''t'', pt_name = Some ''fsRead'', pt_input = Json_input ''{}'', pt_stop = True\<rparr>"
    by code_simp+
  show ?thesis
    using response_collected [OF h, of sample_json "''m''"] e t unfolding sample_response_def by auto
qed

text \<open>
  A tool use whose input was cut off is pending with an empty input, and the response fails with the message that the
  agent loop recognises.
\<close>

lemma truncated_response:
  "processAgenticChatResponse sample_json ''m'' (map (Pair False) [fragment_event ''{'' False]) False =
     Inr (getResult ((new_parser ''m'')
       \<lparr>ep_error := Some ''ToolUse input is invalid JSON: incomplete tool input, stream ended after 1 characters before completion.'',
        ep_toolUses := [(''t'', \<lparr>pt_toolUseId = ''t'', pt_name = Some ''fsRead'', pt_input = Json_input ''{}'', pt_stop = True\<rparr>)],
        ep_totalEvents := \<lparr>ec_followupPrompt = 0, ec_supplementaryWebLinks = 0, ec_codeReference = 0, ec_assistantResponse = 0, ec_toolUser = 1\<rparr>\<rparr>))"
  by code_simp

section \<open>Tool uses are kept by their ids\<close>

definition keyed_uses :: "(string \<times> ParsedToolUse) list \<Rightarrow> bool" where
  "keyed_uses us \<longleftrightarrow> map_wf us \<and> list_all (\<lambda>(k, u). pt_toolUseId u = k) us"

lemma keyed_set: "keyed_uses us \<Longrightarrow> pt_toolUseId u = i \<Longrightarrow> keyed_uses (map_set i u us)"
proof -
  assume k: "keyed_uses us" and i: "pt_toolUseId u = i"
  have "list_all (\<lambda>(k, u). pt_toolUseId u = k) us" using k by (simp add: keyed_uses_def)
  then have "list_all (\<lambda>(k, u). pt_toolUseId u = k) (map_set i u us)"
    using i unfolding map_set_def by (induction us) auto
  with k show ?thesis by (simp add: keyed_uses_def jsmap.wf_put)
qed

lemma keyed_get: "keyed_uses us \<Longrightarrow> map_get us i = Some u \<Longrightarrow> pt_toolUseId u = i"
  by (auto simp: keyed_uses_def map_get_def list_all_iff dest: map_of_SomeD)

lemma keyed_distinct: "keyed_uses us \<Longrightarrow> distinct (map pt_toolUseId (filter P (map snd us)))"
proof -
  assume k: "keyed_uses us"
  then have "map pt_toolUseId (map snd us) = map fst us"
    by (auto simp: keyed_uses_def list_all_iff)
  with k have "distinct (map pt_toolUseId (map snd us))"
    by (simp only: keyed_uses_def map_wf_def)
  then show ?thesis by (rule distinct_map_filter)
qed

lemma next_parser_keyed: "keyed_uses (ep_toolUses p) \<Longrightarrow> keyed_uses (ep_toolUses (next_parser J ev p))"
  by (auto simp: next_parser_def tool_event_def Let_def intro!: keyed_set split: option.splits if_splits)

lemma finalize_use_keyed: "keyed_uses (ep_toolUses p) \<Longrightarrow> keyed_uses (ep_toolUses (finalize_use ab i p))"
  by (auto simp: finalize_use_def Let_def intro!: keyed_set dest: keyed_get split: option.splits)

lemma finalize_parser_keyed: "keyed_uses (ep_toolUses p) \<Longrightarrow> keyed_uses (ep_toolUses (finalize_parser ab p))"
proof -
  have "keyed_uses (ep_toolUses p) \<Longrightarrow> keyed_uses (ep_toolUses (fold (finalize_use ab) is p))" for "is" p
    by (induction "is" arbitrary: p) (simp_all add: finalize_use_keyed)
  then show "keyed_uses (ep_toolUses p) \<Longrightarrow> ?thesis" by (simp add: finalize_parser_def)
qed

lemma consume_keyed:
  assumes "keyed_uses (ep_toolUses p)"
  shows "case consume J evs p of Aborted_error \<Rightarrow> True | Failed_early r \<Rightarrow> \<exists>d. res_data r = Some d \<and> keyed_uses (cm_toolUses d)
    | Consumed p' \<Rightarrow> keyed_uses (ep_toolUses p')"
  using assms
proof (induction J evs p rule: consume.induct)
  case (2 J aborted ev evs p)
  then show ?case
    using next_parser_keyed [OF "2.prems", of J ev] by (auto simp: processPartialEvent_def Let_def getResult_def)
qed simp

text \<open>Every response that was not aborted has data, and its tool uses have different ids.\<close>

lemma response_keyed:
  assumes "processAgenticChatResponse J requestId evs ab = Inr r"
  obtains d where "res_data r = Some d" and "keyed_uses (cm_toolUses d)"
proof -
  have "keyed_uses (ep_toolUses (new_parser requestId))" by (simp add: new_parser_def keyed_uses_def map_wf_def)
  from consume_keyed [OF this, of J evs] show thesis
    using assms that finalize_parser_keyed
    by (auto simp: processAgenticChatResponse_def finalize_def getResult_def split: stream_end.splits)
qed

end
