(* ===== verification/Tool_Uses.thy ===== *)
theory Tool_Uses
  imports Agent_Permissions Shell_Tool File_Tools Chat_Events Chat_Db
begin

text \<open>
  Running the tools a model asks for (\<^verbatim>\<open>processToolUses\<close> of \<^verbatim>\<open>agenticChat/agenticChatController.ts\<close>), with the approved paths of a session
  (\<^verbatim>\<open>chat/chatSessionService.ts\<close>), the approval of MCP tools (\<^verbatim>\<open>requiresApproval\<close> of \<^verbatim>\<open>tools/mcp/mcpManager.ts\<close>) and the reading of files
  (\<^verbatim>\<open>tools/fsRead.ts\<close>). The fields of a JSON input, the answers of the user and the results of the tools are
  parameters. The cards shown to the user and the data for undoing a change are left out.
\<close>

section \<open>Approved paths of a session\<close>

type_synonym approvals = "(string \<times> string list) list"

definition slash_path :: "string \<Rightarrow> string" where
  "slash_path = map (\<lambda>c. if c = CHR 0x5C then CHR ''/'' else c)"

definition approved_for :: "string \<Rightarrow> approvals \<Rightarrow> string list" where
  "approved_for toolName approved = (case map_get approved toolName of None \<Rightarrow> [] | Some ps \<Rightarrow> ps)"

definition addApprovedPath :: "string \<Rightarrow> string \<Rightarrow> approvals \<Rightarrow> approvals" where
  "addApprovedPath filePath toolName approved =
     (if filePath = [] \<or> toolName = [] then approved
      else let normalizedPath = slash_path filePath; old = approved_for toolName approved
           in map_set toolName (if normalizedPath \<in> set old then old else old @ [normalizedPath]) approved)"

section \<open>Approval of MCP tools\<close>

definition requiresApproval :: "AgentConfig \<Rightarrow> (string \<Rightarrow> string option) \<Rightarrow> string \<Rightarrow> string \<Rightarrow> bool" where
  "requiresApproval cfg serverNames server tool =
     (if server = ''builtIn'' then tool \<notin> set (ac_allowedTools cfg)
      else let unsanitized = (case serverNames server of None \<Rightarrow> server | Some n \<Rightarrow> if n = [] then server else n)
           in ''@'' @ unsanitized @ ''/'' @ tool \<notin> set (ac_allowedTools cfg))"

section \<open>Reading files\<close>

record FileReadResult =
  fr_path :: string
  fr_content :: string
  fr_truncated :: bool

definition truncate_file :: "nat \<Rightarrow> FileReadResult \<Rightarrow> FileReadResult" where
  "truncate_file maxPerFile r =
     (if length (fr_content r) > maxPerFile
      then r\<lparr>fr_content := substring (fr_content r) 0 (int maxPerFile - 3) @ ''...'', fr_truncated := True\<rparr>
      else r)"

definition createOutput :: "nat \<Rightarrow> nat \<Rightarrow> FileReadResult list \<Rightarrow> string + FileReadResult list" where
  "createOutput maxPerFile maxTotal files =
     (let rs = map (truncate_file maxPerFile) files
      in if sum_list (map (length \<circ> fr_content) rs) > maxTotal
         then Inl ''Files are too large, please break the file read into smaller chunks'' else Inr rs)"

fun read_files :: "string \<Rightarrow> string \<Rightarrow> file_system \<Rightarrow> string list \<Rightarrow> FileReadResult list option" where
  "read_files cwd home fs [] = Some []"
| "read_files cwd home fs (p # ps) =
     (case fs (sanitize cwd home p) of
        None \<Rightarrow> None
      | Some c \<Rightarrow> map_option (Cons \<lparr>fr_path = p, fr_content = c, fr_truncated = False\<rparr>) (read_files cwd home fs ps))"

definition read_invoke :: "nat \<Rightarrow> nat \<Rightarrow> string \<Rightarrow> string \<Rightarrow> file_system \<Rightarrow> string list \<Rightarrow> string + FileReadResult list" where
  "read_invoke maxPerFile maxTotal cwd home fs paths =
     (case read_files cwd home fs paths of None \<Rightarrow> Inl ''read failed'' | Some files \<Rightarrow> createOutput maxPerFile maxTotal files)"

section \<open>What a tool needs\<close>

text \<open>The fields of an input; nothing where a field is missing.\<close>

record tool_fields =
  tf_path :: "tool_input \<Rightarrow> string option"
  tf_cwd :: "tool_input \<Rightarrow> string option"
  tf_command :: "tool_input \<Rightarrow> string option"
  tf_paths :: "tool_input \<Rightarrow> string list option"

text \<open>The surroundings of the tools: the tools of the current mode, the names behind MCP tools and which of them are defined.\<close>

record tool_env =
  tv_available :: "string list"
  tv_split :: "string \<Rightarrow> string list option"
  tv_bash :: bash_env
  tv_links :: link_fs
  tv_fields :: tool_fields
  tv_config :: AgentConfig
  tv_serverNames :: "string \<Rightarrow> string option"
  tv_originalNames :: "string \<Rightarrow> (string \<times> string) option"
  tv_defined :: "string \<Rightarrow> string \<Rightarrow> bool"
  tv_searchDirectory :: "tool_input \<Rightarrow> string"

text \<open>The outcome of a check: whether the user must be asked, an exception, or no outcome when resolving links never ends.\<close>

datatype acceptance = Asks bool | Check_failed string | Check_hangs

definition path_check :: "tool_env \<Rightarrow> approvals \<Rightarrow> string \<Rightarrow> string option \<Rightarrow> acceptance" where
  "path_check E approved toolName path =
     (case path of
        None \<Rightarrow> Asks True
      | Some p \<Rightarrow>
          (case requiresPathAcceptance (be_path (tv_bash E)) (tv_links E) p toolName (Some approved) of
             None \<Rightarrow> Check_hangs
           | Some v \<Rightarrow> Asks (cval_requiresAcceptance v)))"

fun read_check :: "tool_env \<Rightarrow> approvals \<Rightarrow> string list \<Rightarrow> acceptance" where
  "read_check E approved [] = Asks False"
| "read_check E approved (p # ps) =
     (case path_check E approved ''fsRead'' (Some p) of Asks False \<Rightarrow> read_check E approved ps | c \<Rightarrow> c)"

definition bash_check :: "tool_env \<Rightarrow> approvals \<Rightarrow> tool_input \<Rightarrow> acceptance" where
  "bash_check E approved i =
     Asks (case tf_command (tv_fields E) i of
             None \<Rightarrow> True
           | Some c \<Rightarrow> bv_requiresAcceptance (requiresAcceptance (tv_split E) (tv_bash E)
                        \<lparr>eb_command = c, eb_cwd = tf_cwd (tv_fields E) i\<rparr> (Some approved)))"

text \<open>The check of a tool by its name.\<close>

definition acceptance_check :: "tool_env \<Rightarrow> approvals \<Rightarrow> string \<Rightarrow> tool_input \<Rightarrow> acceptance" where
  "acceptance_check E approved name i =
     (if name \<in> {''listDirectory'', ''fileSearch'', ''fsWrite'', ''fsReplace''} then path_check E approved name (tf_path (tv_fields E) i)
      else if name = ''fsRead''
      then (case tf_paths (tv_fields E) i of None \<Rightarrow> Check_failed ''params.paths is not iterable'' | Some ps \<Rightarrow> read_check E approved ps)
      else if name = ''grepSearch''
      then Asks (\<not> isInWorkspace (be_path (tv_bash E)) (pe_workspaceFolders (be_path (tv_bash E))) (tv_searchDirectory E i))
      else if name = ''executeBash'' then bash_check E approved i
      else if name \<in> {''codeReview'', ''displayFindings'', ''semanticSearch''} then Asks False
      else (case tv_originalNames E name of
              None \<Rightarrow> Asks False
            | Some (server, tool) \<Rightarrow> Asks (tv_defined E server tool \<and> requiresApproval (tv_config E) (tv_serverNames E) server tool)))"

section \<open>Running tools\<close>

datatype tool_error = Cancellation_error | Approval_error | Request_aborted | Usage_limit string | Tool_failed string

datatype approval = Approved | Rejected | Stopped

datatype tool_output = Text_output string | Json_output string

text \<open>What happens outside for one tool use; the token is the one seen when an error is caught.\<close>

record tool_world =
  tw_answer :: approval
  tw_run :: "tool_error + tool_output"
  tw_cancelled :: bool

definition isUserAction :: "tool_error \<Rightarrow> bool \<Rightarrow> bool" where
  "isUserAction err cancelled =
     (case err of Usage_limit _ \<Rightarrow> False | Tool_failed _ \<Rightarrow> cancelled | _ \<Rightarrow> True)"

definition max_response :: "string \<Rightarrow> nat option" where
  "max_response name =
     (if name = ''fsRead'' \<or> name = ''executeBash'' then None else if name = ''listDirectory'' then Some 50000 else Some 100000)"

definition output_text :: "tool_output \<Rightarrow> string" where
  "output_text r = (case r of Text_output s \<Rightarrow> s | Json_output s \<Rightarrow> s)"

definition validateToolResult :: "string \<Rightarrow> tool_output \<Rightarrow> tool_error option" where
  "validateToolResult name r =
     (case max_response name of
        None \<Rightarrow> None
      | Some n \<Rightarrow> if length (output_text r) > n
                  then Some (Tool_failed (name @ '' output exceeds maximum character limit of '' @ show_nat n)) else None)"

text \<open>The session, the results, and the tools that ran with what they ran on: the approvals of that moment and whether the user was asked.\<close>

record tool_state =
  ts_approved :: approvals
  ts_results :: "ToolResult list"
  ts_ran :: "(ParsedToolUse \<times> approvals \<times> bool) list"

definition push_result :: "string \<Rightarrow> ToolResultStatus \<Rightarrow> string \<Rightarrow> tool_state \<Rightarrow> tool_state" where
  "push_result i status content s =
     s\<lparr>ts_results := ts_results s @ [\<lparr>tres_toolUseId = Some i, tres_status = status, tres_content = [content]\<rparr>]\<rparr>"

definition input_place :: "tool_env \<Rightarrow> tool_input \<Rightarrow> string option" where
  "input_place E i =
     (if given (tf_path (tv_fields E) i) then tf_path (tv_fields E) i
      else if given (tf_cwd (tv_fields E) i) then tf_cwd (tv_fields E) i else None)"

definition approve_input :: "tool_env \<Rightarrow> string \<Rightarrow> tool_input \<Rightarrow> approvals \<Rightarrow> approvals" where
  "approve_input E name i approved = (case input_place E i of None \<Rightarrow> approved | Some p \<Rightarrow> addApprovedPath p name approved)"

definition run_tool :: "tool_env \<Rightarrow> tool_world \<Rightarrow> string \<Rightarrow> ParsedToolUse \<Rightarrow> bool \<Rightarrow> tool_state \<Rightarrow> tool_state \<times> (tool_error + tool_output)" where
  "run_tool E w name u asked s =
     (let s1 = s\<lparr>ts_approved := approve_input E name (pt_input u) (ts_approved s), ts_ran := ts_ran s @ [(u, ts_approved s, asked)]\<rparr>
      in (s1, case tw_run w of
                Inl e \<Rightarrow> Inl e
              | Inr r \<Rightarrow> (case validateToolResult name r of Some e \<Rightarrow> Inl e | None \<Rightarrow> Inr r)))"

text \<open>The body of the loop up to the handler of errors; nothing when the check hangs.\<close>

definition try_tool :: "tool_env \<Rightarrow> tool_world \<Rightarrow> string \<Rightarrow> ParsedToolUse \<Rightarrow> tool_state \<Rightarrow> (tool_state \<times> (tool_error + tool_output)) option" where
  "try_tool E w name u s =
     (if name \<notin> set (tv_available E) then Some (s, Inl (Tool_failed (''Tool '' @ name @ '' is not available in the current mode'')))
      else case acceptance_check E (ts_approved s) name (pt_input u) of
             Check_hangs \<Rightarrow> None
           | Check_failed m \<Rightarrow> Some (s, Inl (Tool_failed m))
           | Asks False \<Rightarrow> Some (run_tool E w name u False s)
           | Asks True \<Rightarrow>
               Some (case tw_answer w of
                       Approved \<Rightarrow> run_tool E w name u True s
                     | Rejected \<Rightarrow> (s, Inl Approval_error)
                     | Stopped \<Rightarrow> (s, Inl Cancellation_error)))"

definition error_message :: "tool_error \<Rightarrow> string" where
  "error_message e = (case e of Usage_limit m \<Rightarrow> m | Tool_failed m \<Rightarrow> m | _ \<Rightarrow> [])"

datatype tools_end = Tools_done tool_state | Tools_thrown tool_error tool_state | Tools_hang

fun processToolUses :: "tool_env \<Rightarrow> (string \<Rightarrow> tool_world) \<Rightarrow> ParsedToolUse list \<Rightarrow> tool_state \<Rightarrow> tools_end" where
  "processToolUses E W [] s = Tools_done s"
| "processToolUses E W (u # us) s =
     (if \<not> given (pt_name u) \<or> pt_toolUseId u = [] then processToolUses E W us s
      else let i = pt_toolUseId u; name = the (pt_name u); w = W i
           in case try_tool E w name u s of
                None \<Rightarrow> Tools_hang
              | Some (s1, Inr r) \<Rightarrow> processToolUses E W us (push_result i Tool_success (output_text r) s1)
              | Some (s1, Inl e) \<Rightarrow>
                  if isUserAction e (tw_cancelled w)
                  then if e = Cancellation_error then processToolUses E W us (push_result i Tool_error ''Command stopped by user'' s1)
                       else Tools_thrown e s1
                  else processToolUses E W us (push_result i Tool_error (error_message e) s1))"

definition shouldSendBackErrorContent :: "ToolResult \<Rightarrow> bool" where
  "shouldSendBackErrorContent r =
     (tres_status r = Tool_error \<and> \<not> list_ex (\<lambda>c. includes_str c ''output exceeds maximum character limit of'') (tres_content r))"

section \<open>One result for every tool use\<close>

definition named_use :: "ParsedToolUse \<Rightarrow> bool" where
  "named_use u \<longleftrightarrow> given (pt_name u) \<and> pt_toolUseId u \<noteq> []"

lemma run_tool_simps [simp]:
  "ts_results (fst (run_tool E w name u asked s)) = ts_results s"
  "ts_ran (fst (run_tool E w name u asked s)) = ts_ran s @ [(u, ts_approved s, asked)]"
  "ts_approved (fst (run_tool E w name u asked s)) = approve_input E name (pt_input u) (ts_approved s)"
  by (simp_all add: run_tool_def Let_def)

lemma push_result_simps [simp]:
  "ts_results (push_result i st c s) = ts_results s @ [\<lparr>tres_toolUseId = Some i, tres_status = st, tres_content = [c]\<rparr>]"
  "ts_ran (push_result i st c s) = ts_ran s" "ts_approved (push_result i st c s) = ts_approved s"
  by (simp_all add: push_result_def)

text \<open>What the body of the loop may have done: nothing, or one run of the tool after its check.\<close>

lemma try_tool_cases:
  assumes "try_tool E w name u s = Some (s1, r)"
  obtains (kept) "s1 = s"
  | (ran) asked where "name \<in> set (tv_available E)" and "acceptance_check E (ts_approved s) name (pt_input u) = Asks asked"
      and "asked \<Longrightarrow> tw_answer w = Approved" and "(s1, r) = run_tool E w name u asked s"
proof (cases "name \<in> set (tv_available E) \<and> (\<exists>asked. acceptance_check E (ts_approved s) name (pt_input u) = Asks asked \<and> (asked \<longrightarrow> tw_answer w = Approved))")
  case True
  then obtain asked where a: "name \<in> set (tv_available E)" "acceptance_check E (ts_approved s) name (pt_input u) = Asks asked"
    "asked \<longrightarrow> tw_answer w = Approved" by blast
  then have "(s1, r) = run_tool E w name u asked s" using assms by (cases asked) (auto simp: try_tool_def)
  with a ran show thesis by blast
next
  case False
  then have "s1 = s" using assms
    by (auto simp: try_tool_def split: if_splits acceptance.splits bool.splits approval.splits)
  then show thesis by (rule kept)
qed

lemma try_tool_results: "try_tool E w name u s = Some (s1, r) \<Longrightarrow> ts_results s1 = ts_results s"
  by (erule try_tool_cases) (auto dest: arg_cong [where f = "ts_results \<circ> fst"])

text \<open>The continuations of the loop after a named tool use.\<close>

lemma processToolUses_Cons:
  assumes "named_use u"
  shows "processToolUses E W (u # us) s = Tools_hang \<or>
    (\<exists>e s1. processToolUses E W (u # us) s = Tools_thrown e s1 \<and> try_tool E (W (pt_toolUseId u)) (the (pt_name u)) u s = Some (s1, Inl e)) \<or>
    (\<exists>s1 r st c. try_tool E (W (pt_toolUseId u)) (the (pt_name u)) u s = Some (s1, r) \<and>
       processToolUses E W (u # us) s = processToolUses E W us (push_result (pt_toolUseId u) st c s1))"
  using assms by (auto simp: named_use_def Let_def split: option.splits sum.splits prod.splits if_splits)

lemma processToolUses_skip: "\<not> named_use u \<Longrightarrow> processToolUses E W (u # us) s = processToolUses E W us s"
  by (auto simp: named_use_def)

declare processToolUses.simps(2) [simp del]

lemma results_grow:
  "processToolUses E W us s = Tools_done s' \<Longrightarrow>
     map tres_toolUseId (ts_results s') = map tres_toolUseId (ts_results s) @ map (Some \<circ> pt_toolUseId) (filter named_use us)"
proof (induction us arbitrary: s)
  case (Cons u us)
  show ?case
  proof (cases "named_use u")
    case True
    then obtain s1 r st c where "try_tool E (W (pt_toolUseId u)) (the (pt_name u)) u s = Some (s1, r)"
      and "processToolUses E W us (push_result (pt_toolUseId u) st c s1) = Tools_done s'"
      using processToolUses_Cons [OF True, of E W us s] Cons.prems by auto
    then show ?thesis using Cons.IH True try_tool_results by fastforce
  next
    case False
    then show ?thesis using Cons processToolUses_skip [OF False] by simp
  qed
qed simp


section \<open>Consent\<close>

definition run_permitted :: "tool_env \<Rightarrow> (string \<Rightarrow> tool_world) \<Rightarrow> ParsedToolUse \<Rightarrow> approvals \<Rightarrow> bool \<Rightarrow> bool" where
  "run_permitted E W u approved asked \<longleftrightarrow>
     (\<exists>name. pt_name u = Some name \<and> name \<in> set (tv_available E) \<and> acceptance_check E approved name (pt_input u) = Asks asked \<and>
        (asked \<longrightarrow> tw_answer (W (pt_toolUseId u)) = Approved))"

text \<open>Approvals that were there at the start, or that earlier runs of the same tool left behind.\<close>

definition approvals_from :: "tool_env \<Rightarrow> approvals \<Rightarrow> (ParsedToolUse \<times> approvals \<times> bool) list \<Rightarrow> approvals \<Rightarrow> bool" where
  "approvals_from E start earlier approved \<longleftrightarrow>
     (\<forall>tool. \<forall>p \<in> set (approved_for tool approved). p \<in> set (approved_for tool start) \<or>
        (\<exists>(v, _) \<in> set earlier. pt_name v = Some tool \<and> map_option slash_path (input_place E (pt_input v)) = Some p))"

definition runs_ok :: "tool_env \<Rightarrow> (string \<Rightarrow> tool_world) \<Rightarrow> approvals \<Rightarrow> tool_state \<Rightarrow> bool" where
  "runs_ok E W start s \<longleftrightarrow> approvals_from E start (ts_ran s) (ts_approved s) \<and>
     (\<forall>k < length (ts_ran s). case ts_ran s ! k of (u, approved, asked) \<Rightarrow>
        run_permitted E W u approved asked \<and> approvals_from E start (take k (ts_ran s)) approved)"

lemma approved_for_add:
  "set (approved_for t (addApprovedPath p name ap)) =
     (if t = name \<and> p \<noteq> [] \<and> name \<noteq> [] then insert (slash_path p) (set (approved_for t ap)) else set (approved_for t ap))"
  by (auto simp: addApprovedPath_def Let_def approved_for_def jsmap.get_put)

lemma approvals_from_run:
  assumes "approvals_from E start earlier ap" and "pt_name u = Some name"
  shows "approvals_from E start (earlier @ [(u, x)]) (approve_input E name (pt_input u) ap)"
  using assms unfolding approvals_from_def approve_input_def
  by (cases "input_place E (pt_input u)") (auto simp: approved_for_add split: if_splits)

lemma runs_ok_run:
  assumes "runs_ok E W start s" and "run_permitted E W u (ts_approved s) asked" and "pt_name u = Some name"
  shows "runs_ok E W start (fst (run_tool E w name u asked s))"
  using assms approvals_from_run [of E start "ts_ran s" "ts_approved s" u name]
  by (auto simp: runs_ok_def nth_append less_Suc_eq)

lemma runs_ok_try:
  assumes "runs_ok E W start s" and "try_tool E (W (pt_toolUseId u)) (the (pt_name u)) u s = Some (s1, r)" and "named_use u"
  shows "runs_ok E W start s1"
  using assms(2)
proof (cases rule: try_tool_cases)
  case kept
  then show ?thesis using assms(1) by simp
next
  case (ran asked)
  obtain name where n: "pt_name u = Some name" using assms(3) by (auto simp: named_use_def given_def)
  have "run_permitted E W u (ts_approved s) asked" using ran n by (auto simp: run_permitted_def)
  then have "runs_ok E W start (fst (run_tool E (W (pt_toolUseId u)) name u asked s))" by (rule runs_ok_run [OF assms(1) _ n])
  moreover have "s1 = fst (run_tool E (W (pt_toolUseId u)) name u asked s)" using arg_cong [OF ran(4), of fst] n by simp
  ultimately show ?thesis by simp
qed

fun end_state :: "tools_end \<Rightarrow> tool_state option" where
  "end_state (Tools_done s) = Some s"
| "end_state (Tools_thrown e s) = Some s"
| "end_state Tools_hang = None"

lemma runs_ok_process: "end_state (processToolUses E W us s) = Some s' \<Longrightarrow> runs_ok E W start s \<Longrightarrow> runs_ok E W start s'"
proof (induction us arbitrary: s)
  case (Cons u us)
  show ?case
  proof (cases "named_use u")
    case True
    have push: "runs_ok E W start (push_result i st c s1) = runs_ok E W start s1" for i st c s1 by (simp add: runs_ok_def)
    show ?thesis
      using processToolUses_Cons [OF True, of E W us s] Cons.prems Cons.IH runs_ok_try [OF Cons.prems(2) _ True] push
      by (elim disjE exE conjE) auto
  next
    case False
    then show ?thesis using Cons processToolUses_skip [OF False] by simp
  qed
qed simp

text \<open>
  C30. Tools only run with consent: a tool that ran was a tool of the current mode and either its check, on the approvals of that moment, did not
  ask for acceptance, or the user was asked and approved it. The approvals of that moment are those of the session
  before and the paths of runs of the same tool that came earlier.
\<close>

theorem tools_run_with_consent:
  assumes "end_state (processToolUses E W us s) = Some s'" and "ts_ran s = []"
    and "k < length (ts_ran s')" and "ts_ran s' ! k = (u, approved, asked)"
  shows "(\<exists>name. pt_name u = Some name \<and> name \<in> set (tv_available E) \<and> acceptance_check E approved name (pt_input u) = Asks asked \<and>
       (asked \<longrightarrow> tw_answer (W (pt_toolUseId u)) = Approved)) \<and>
     (\<forall>tool. \<forall>p \<in> set (approved_for tool approved). p \<in> set (approved_for tool (ts_approved s)) \<or>
       (\<exists>(v, _) \<in> set (take k (ts_ran s')). pt_name v = Some tool \<and> map_option slash_path (input_place E (pt_input v)) = Some p))"
proof -
  have "runs_ok E W (ts_approved s) s" using assms(2) by (simp add: runs_ok_def approvals_from_def)
  then have "runs_ok E W (ts_approved s) s'" by (rule runs_ok_process [OF assms(1)])
  then have "run_permitted E W u approved asked \<and> approvals_from E (ts_approved s) (take k (ts_ran s')) approved"
    using assms(3,4) unfolding runs_ok_def by fastforce
  then show ?thesis unfolding run_permitted_def approvals_from_def .
qed

section \<open>Sample runs\<close>

text \<open>A workspace in which inputs that begin with a dollar sign are commands, run in the workspace folder, and other inputs are paths.\<close>

definition sample_fields :: tool_fields where
  "sample_fields =
     (let v = (\<lambda>i. case i of Text_input s \<Rightarrow> s | Json_input s \<Rightarrow> s); cmd = (\<lambda>i. startsWith (v i) ''$'')
      in \<lparr>tf_path = (\<lambda>i. if cmd i then None else Some (v i)), tf_cwd = (\<lambda>i. if cmd i then Some ''/home/u/ws'' else None),
          tf_command = (\<lambda>i. if cmd i then Some (tl (v i)) else None), tf_paths = (\<lambda>i. None)\<rparr>)"

definition sample_tools :: tool_env where
  "sample_tools = \<lparr>tv_available = [''executeBash'', ''fsWrite''], tv_split = sample_split, tv_bash = sample_bash_env, tv_links = sample_links,
     tv_fields = sample_fields, tv_config = sample_config [], tv_serverNames = (\<lambda>_. None), tv_originalNames = (\<lambda>_. None),
     tv_defined = (\<lambda>_ _. False), tv_searchDirectory = (\<lambda>_. [])\<rparr>"

definition sample_tool_use :: "string \<Rightarrow> string \<Rightarrow> string \<Rightarrow> ParsedToolUse" where
  "sample_tool_use i name v = \<lparr>pt_toolUseId = i, pt_name = Some name, pt_input = Json_input v, pt_stop = True\<rparr>"

definition no_tools_run :: tool_state where
  "no_tools_run = \<lparr>ts_approved = [], ts_results = [], ts_ran = []\<rparr>"

definition refusing_world :: "string \<Rightarrow> tool_world" where
  "refusing_world i = \<lparr>tw_answer = Rejected, tw_run = Inr (Text_output ''done''), tw_cancelled = False\<rparr>"

text \<open>
  The working directory of every command that ran is approved afterwards, and approved paths are not looked at for credentials. A
  harmless command in the workspace therefore opens the credential files of the workspace to the next one.
\<close>

definition two_commands :: "ParsedToolUse list" where
  "two_commands = [sample_tool_use ''a'' ''executeBash'' ''$ls'', sample_tool_use ''b'' ''executeBash'' ''$cat ./.env'']"

lemma credentials_asked_first: "acceptance_check sample_tools [] ''executeBash'' (Json_input ''$cat ./.env'') = Asks True"
  by code_simp

lemma approved_cwd_hides_credentials:
  "map (\<lambda>(u, _, asked). (pt_toolUseId u, asked)) (ts_ran (the (end_state (processToolUses sample_tools refusing_world two_commands no_tools_run)))) =
     [(''a'', False), (''b'', False)]"
  by code_simp

text \<open>
  Stopping does not stop the tools that are still to come: the tool that was interrupted gets its result and the
  loop goes on with the next one.
\<close>

definition stopping_world :: "string \<Rightarrow> tool_world" where
  "stopping_world i = \<lparr>tw_answer = Stopped, tw_run = (if i = ''a'' then Inl Cancellation_error else Inr (Text_output ''done'')), tw_cancelled = True\<rparr>"

definition command_and_write :: "ParsedToolUse list" where
  "command_and_write = [sample_tool_use ''a'' ''executeBash'' ''$ls'', sample_tool_use ''b'' ''fsWrite'' ''/home/u/ws/src/../a.ts'']"

definition after_command :: tool_state where
  "after_command = \<lparr>ts_approved = [(''executeBash'', [''/home/u/ws''])],
     ts_results = [\<lparr>tres_toolUseId = Some ''a'', tres_status = Tool_error, tres_content = [''Command stopped by user'']\<rparr>],
     ts_ran = [(sample_tool_use ''a'' ''executeBash'' ''$ls'', [], False)]\<rparr>"

lemma stopped_command:
  "processToolUses sample_tools stopping_world command_and_write no_tools_run =
   processToolUses sample_tools stopping_world [sample_tool_use ''b'' ''fsWrite'' ''/home/u/ws/src/../a.ts''] after_command"
proof -
  have "try_tool sample_tools (stopping_world ''a'') ''executeBash'' (sample_tool_use ''a'' ''executeBash'' ''$ls'') no_tools_run =
      Some (after_command\<lparr>ts_results := []\<rparr>, Inl Cancellation_error)" by code_simp
  moreover have "push_result ''a'' Tool_error ''Command stopped by user'' (after_command\<lparr>ts_results := []\<rparr>) = after_command" by code_simp
  ultimately show ?thesis
    by (simp add: command_and_write_def processToolUses.simps(2) sample_tool_use_def isUserAction_def)
qed

lemma sample_write_unasked: "acceptance_check sample_tools (ts_approved after_command) ''fsWrite'' (Json_input ''/home/u/ws/src/../a.ts'') = Asks False"
proof -
  have "isInWorkspace sample_path_env (map show_path (canonicalizeWorkspaceFolders sample_links ''/'' [''/home/u/ws''])) (show_path [''home'', ''u'', ''ws'', ''a.ts''])"
    by code_simp
  then have "requiresPathAcceptance sample_path_env sample_links ''/home/u/ws/src/../a.ts'' ''fsWrite'' (Some (ts_approved after_command)) =
      Some \<lparr>cval_requiresAcceptance = False, cval_warning = None\<rparr>"
    by (simp add: requiresPathAcceptance_def sample_inside sample_path_env_def isPathApproved_def after_command_def map_get_def)
  moreover have "tf_path sample_fields (Json_input ''/home/u/ws/src/../a.ts'') = Some ''/home/u/ws/src/../a.ts''" by code_simp
  ultimately show ?thesis
    by (simp add: acceptance_check_def path_check_def sample_tools_def sample_bash_env_def)
qed

lemma stop_leaves_later_tools_running:
  "\<exists>s. processToolUses sample_tools stopping_world command_and_write no_tools_run = Tools_done s \<and>
     map (\<lambda>(u, _, asked). (pt_toolUseId u, asked)) (ts_ran s) = [(''a'', False), (''b'', False)]"
proof -
  let ?u = "sample_tool_use ''b'' ''fsWrite'' ''/home/u/ws/src/../a.ts''"
  have "tw_run (stopping_world ''b'') = Inr (Text_output ''done'')" "''fsWrite'' \<in> set (tv_available sample_tools)"
    by (simp_all add: stopping_world_def sample_tools_def)
  moreover have "validateToolResult ''fsWrite'' (Text_output ''done'') = None"
    by (simp add: validateToolResult_def max_response_def output_text_def)
  ultimately have "try_tool sample_tools (stopping_world ''b'') ''fsWrite'' ?u after_command =
      Some (fst (run_tool sample_tools (stopping_world ''b'') ''fsWrite'' ?u False after_command), Inr (Text_output ''done''))"
    using sample_write_unasked by (simp add: try_tool_def run_tool_def Let_def sample_tool_use_def)
  then show ?thesis
    unfolding stopped_command by (simp add: processToolUses.simps(2) sample_tool_use_def Let_def after_command_def)
qed


theorem tools_run_with_consent_witness:
  "\<exists>name. pt_name (sample_tool_use ''b'' ''executeBash'' ''$cat ./.env'') = Some name \<and> name \<in> set (tv_available sample_tools) \<and>
     acceptance_check sample_tools [(''executeBash'', [''/home/u/ws''])] name (Json_input ''$cat ./.env'') = Asks False"
proof -
  let ?r = "processToolUses sample_tools refusing_world two_commands no_tools_run"
  have r: "end_state ?r = Some (the (end_state ?r))" by code_simp
  have "(1 :: nat) < length (ts_ran (the (end_state ?r)))" by code_simp
  moreover have "ts_ran (the (end_state ?r)) ! 1 = (sample_tool_use ''b'' ''executeBash'' ''$cat ./.env'', [(''executeBash'', [''/home/u/ws''])], False)"
    by code_simp
  ultimately show ?thesis
    using tools_run_with_consent [OF r, of 1] by (auto simp: no_tools_run_def sample_tool_use_def)
qed

section \<open>Approval of MCP tools and permissions\<close>

text \<open>A tool of an MCP server that runs without asking has the permission to be always allowed.\<close>

lemma unasked_mcp_tool_allowed:
  assumes "\<not> requiresApproval cfg serverNames server tool" and "server \<noteq> ''builtIn''" and "server \<noteq> []"
  shows "getToolPermission cfg (case serverNames server of None \<Rightarrow> server | Some n \<Rightarrow> if n = [] then server else n) tool = alwaysAllow"
  using assms by (auto simp: requiresApproval_def Let_def getToolPermission_def tool_id_def split: option.splits if_splits)

text \<open>The converse fails: a permission that comes from an entry for the server or from a wildcard does not keep the user from being asked.\<close>

lemma allowed_mcp_tool_asked:
  "getToolPermission \<lparr>ac_tools = [''@git''], ac_allowedTools = [''@git'']\<rparr> ''git'' ''push'' = alwaysAllow"
  "requiresApproval \<lparr>ac_tools = [''@git''], ac_allowedTools = [''@git'']\<rparr> (\<lambda>_. None) ''git'' ''push''"
  by code_simp+

section \<open>What reading returns\<close>

lemma substring_keeps: "length (substring c 0 (int n - 3)) \<le> n - 3"
  by (auto simp: substring_def clamp_index_def)

text \<open>Every file read is cut to its limit and the whole answer stays within the total.\<close>

lemma read_output_bounded:
  assumes "createOutput maxPerFile maxTotal files = Inr rs" and "3 \<le> maxPerFile"
  shows "sum_list (map (length \<circ> fr_content) rs) \<le> maxTotal \<and> list_all (\<lambda>r. length (fr_content r) \<le> maxPerFile) rs \<and> map fr_path rs = map fr_path files"
proof -
  have t: "length (fr_content (truncate_file maxPerFile r)) \<le> maxPerFile" "fr_path (truncate_file maxPerFile r) = fr_path r" for r
    using substring_keeps [of "fr_content r" maxPerFile] assms(2) by (auto simp: truncate_file_def)
  then show ?thesis using assms(1) by (auto simp: createOutput_def Let_def list_all_iff split: if_splits)
qed

end
