(* ===== verification/Agent_Loop.thy ===== *)
theory Agent_Loop
  imports Chat_Tabs Chat_Request Tool_Uses
begin

text \<open>
  The loop of the agentic chat (\<^verbatim>\<open>runAgentLoop\<close> and \<^verbatim>\<open>runCompaction\<close> of \<^verbatim>\<open>agenticChatController.ts\<close>): prepare a request,
  send it, store the prompt and the answer, run the tools the answer asks for, and answer with their
  results, until no tool is asked for. An iteration takes what happens outside during it, the answer of
  the service and the cancellation flags at the three places that read them, as an argument; a run is a list of
  iterations. Every request that was sent is kept with its history.
\<close>

section \<open>Constants\<close>

definition RESPONSE_TIMEOUT_PARTIAL_MSG :: string where "RESPONSE_TIMEOUT_PARTIAL_MSG = ''Response processing timed out after''"

definition INCOMPLETE_TOOL_USE_RETRY_LIMIT_MSG :: string where
  "INCOMPLETE_TOOL_USE_RETRY_LIMIT_MSG = ''Amazon Q could not complete a tool request because its input was cut off repeatedly. Try asking for a smaller change, or generating the content in sections.''"

definition MAX_INCOMPLETE_TOOL_USE_RETRIES :: nat where "MAX_INCOMPLETE_TOOL_USE_RETRIES = 3"

section \<open>State\<close>

text \<open>What stays the same during a run; the pinned context comes as the messages it was converted to.\<close>

record loop_env =
  le_lengths :: json_lengths
  le_json :: json_ops
  le_tabId :: string
  le_conversationId :: "string option"
  le_inputLimit :: int
  le_compactionThreshold :: int
  le_additionalContext :: "AdditionalContext list option"
  le_pinned :: "StreamingMessage list"
  le_tools :: tool_env

text \<open>What the service does with a request: it refuses it, the response takes too long, or the response streams events.\<close>

datatype service_reply = Request_failed string | Too_long | Streamed string "(bool \<times> ChatEvent) list" bool

record iteration =
  it_uuid :: string
  it_now :: int
  it_stop_start :: bool
  it_stop_prompt :: bool
  it_stop_answer :: bool
  it_reply :: service_reply
  it_world :: "string \<Rightarrow> tool_world"

record loop_state =
  ls_message :: UserInputMessage
  ls_db :: ChatDatabase
  ls_shouldDisplay :: bool
  ls_requestCount :: rat
  ls_incomplete :: nat
  ls_approved :: approvals
  ls_sent :: "(StreamingMessage list \<times> UserInputMessage) list"

datatype loop_error = Loop_cancelled | Request_error string | Tools_error tool_error | Missing_context

datatype loop_next = Continue loop_state | Break "chat_result option" loop_state | Throw loop_error loop_state | Hang loop_state

section \<open>One iteration\<close>

definition processAgenticChatResponseWithTimeout :: "json_ops \<Rightarrow> service_reply \<Rightarrow> string + chat_result" where
  "processAgenticChatResponseWithTimeout J reply =
     (case reply of
        Request_failed m \<Rightarrow> Inl m
      | Too_long \<Rightarrow> Inr \<lparr>res_error = Some (RESPONSE_TIMEOUT_PARTIAL_MSG @ '' 240000ms''), res_data = None\<rparr>
      | Streamed requestId evs aborted \<Rightarrow> processAgenticChatResponse J requestId evs aborted)"

text \<open>The request is truncated and the history is repaired; nothing is sent when the tool results do not match.\<close>

definition loop_request :: "loop_env \<Rightarrow> iteration \<Rightarrow> loop_state \<Rightarrow> loop_state \<times> StreamingMessage list option" where
  "loop_request E it s =
     (let u = snd (truncateRequest (ls_message s) (le_additionalContext E) (Some (le_inputLimit E)));
          (db1, newMsg, r) = fixAndGetHistory (le_lengths E) (it_uuid it) (it_now it) (le_tabId E) (User_message u) (le_pinned E) (ls_db s);
          u1 = (case newMsg of User_message v \<Rightarrow> v | _ \<Rightarrow> u);
          s1 = s\<lparr>ls_message := u1, ls_db := db1\<rparr>
      in case r of
           Inl _ \<Rightarrow> (s1, None)
         | Inr mc \<Rightarrow> (s1\<lparr>ls_requestCount := mc_currentCount mc + mc_historyCount mc\<rparr>,
             Some (if given (ui_userIntent u1) then [] else map messageToStreamingMessage (mc_history mc))))"

definition loop_prompt :: "iteration \<Rightarrow> loop_state \<Rightarrow> Message" where
  "loop_prompt it s =
     (let u = ls_message s
      in \<lparr>ms_body = or_empty (ui_content u), ms_type = Prompt, ms_messageId = None, ms_userIntent = ui_userIntent u,
          ms_origin = ui_origin u, ms_context = ui_context u, ms_toolUses = None, ms_timestamp = Some (it_now it),
          ms_shouldDisplayMessage = Some (ls_shouldDisplay s \<and> \<not> startsWith (or_empty (ui_content u)) ''You are Amazon Q''),
          ms_images = ui_images u\<rparr>)"

definition record_prompt :: "loop_env \<Rightarrow> iteration \<Rightarrow> loop_state \<Rightarrow> loop_state" where
  "record_prompt E it s =
     s\<lparr>ls_db := (if given (le_conversationId E) \<and> \<not> it_stop_prompt it
                 then addMessage (it_uuid it) (it_now it) (le_tabId E) ''cwc'' (or_empty (le_conversationId E)) (loop_prompt it s) (ls_db s)
                 else ls_db s),
       ls_shouldDisplay := True\<rparr>"

definition record_answer :: "loop_env \<Rightarrow> iteration \<Rightarrow> Message \<Rightarrow> loop_state \<Rightarrow> loop_state" where
  "record_answer E it m s =
     (if it_stop_answer it then s
      else s\<lparr>ls_db := addMessage (it_uuid it) (it_now it) (le_tabId E) ''cwc'' (or_empty (le_conversationId E)) m (ls_db s)\<rparr>)"

definition timeout_answer :: "iteration \<Rightarrow> Message" where
  "timeout_answer it = (bare_message ''Response timed out - message took too long to generate'' Answer)
     \<lparr>ms_shouldDisplayMessage := Some False, ms_timestamp := Some (it_now it)\<rparr>"

definition stored_use :: "ParsedToolUse \<Rightarrow> ToolUse" where
  "stored_use u = \<lparr>tu_toolUseId = Some (pt_toolUseId u), tu_name = pt_name u,
     tu_input = (case pt_input u of Text_input t \<Rightarrow> t | Json_input v \<Rightarrow> v)\<rparr>"

definition getPendingToolUses :: "ChatResultWithMetadata option \<Rightarrow> ParsedToolUse list" where
  "getPendingToolUses d = (case d of None \<Rightarrow> [] | Some x \<Rightarrow> filter pt_stop (map snd (cm_toolUses x)))"

definition response_answer :: "iteration \<Rightarrow> loop_state \<Rightarrow> ChatResultWithMetadata \<Rightarrow> Message" where
  "response_answer it s d = (bare_message (cm_body d) Answer)
     \<lparr>ms_toolUses := Some (map stored_use (getPendingToolUses (Some d))), ms_shouldDisplayMessage := Some (ls_shouldDisplay s),
      ms_timestamp := Some (it_now it)\<rparr>"

text \<open>The request of the next iteration.\<close>

definition next_request :: "ToolResult list \<Rightarrow> string \<Rightarrow> loop_state \<Rightarrow> loop_next" where
  "next_request results content s =
     (case updateRequestInputWithToolResults (ls_message s) results content of
        None \<Rightarrow> Throw Missing_context s
      | Some u \<Rightarrow> Continue (s\<lparr>ls_message := u\<rparr>))"

definition timed_out :: "chat_result \<Rightarrow> bool" where
  "timed_out r \<longleftrightarrow> (case res_error r of None \<Rightarrow> False | Some e \<Rightarrow> startsWith e RESPONSE_TIMEOUT_PARTIAL_MSG)"

definition incomplete_input :: "chat_result \<Rightarrow> bool" where
  "incomplete_input r \<longleftrightarrow> (case res_error r of None \<Rightarrow> False | Some e \<Rightarrow> startsWith e ''ToolUse input is invalid JSON:'')"

definition retry_timeout :: "loop_env \<Rightarrow> iteration \<Rightarrow> loop_state \<Rightarrow> loop_next" where
  "retry_timeout E it s =
     next_request [] ''You took too long to respond - try to split up the work into smaller steps. Do not apologize.''
       ((record_answer E it (timeout_answer it) s)\<lparr>ls_shouldDisplay := False\<rparr>)"

text \<open>The tools of a complete response are run; every tool of a failed one gets its error.\<close>

definition answer_tools :: "loop_env \<Rightarrow> iteration \<Rightarrow> ParsedToolUse list \<Rightarrow> loop_state \<Rightarrow> loop_next" where
  "answer_tools E it pending s =
     (case processToolUses (le_tools E) (it_world it) pending \<lparr>ts_approved = ls_approved s, ts_results = [], ts_ran = []\<rparr> of
        Tools_hang \<Rightarrow> Hang s
      | Tools_thrown e ts \<Rightarrow> Throw (Tools_error e) (s\<lparr>ls_approved := ts_approved ts\<rparr>)
      | Tools_done ts \<Rightarrow>
          (let s1 = s\<lparr>ls_approved := ts_approved ts\<rparr>
           in if list_ex shouldSendBackErrorContent (ts_results ts)
              then next_request (ts_results ts) ''There was an error processing one or more tool uses. Try again, do not apologize.''
                     (s1\<lparr>ls_shouldDisplay := False\<rparr>)
              else next_request (ts_results ts) [] s1))"

definition error_results :: "string \<Rightarrow> ParsedToolUse list \<Rightarrow> ToolResult list" where
  "error_results e pending = map (\<lambda>u. \<lparr>tres_toolUseId = Some (pt_toolUseId u), tres_status = Tool_error, tres_content = [e]\<rparr>) pending"

definition answer_failure :: "chat_result \<Rightarrow> string \<Rightarrow> ParsedToolUse list \<Rightarrow> loop_state \<Rightarrow> loop_next" where
  "answer_failure r e pending s =
     (if incomplete_input r
      then let s1 = s\<lparr>ls_incomplete := Suc (ls_incomplete s)\<rparr>
           in if ls_incomplete s1 \<le> MAX_INCOMPLETE_TOOL_USE_RETRIES
              then next_request (error_results e pending)
                     ''Your toolUse input is incomplete, try again. If the error happens consistently, break this task down into multiple tool uses with smaller input. Do not apologize.''
                     (s1\<lparr>ls_shouldDisplay := False\<rparr>)
              else Break (Some (r\<lparr>res_error := Some INCOMPLETE_TOOL_USE_RETRY_LIMIT_MSG\<rparr>)) s1
      else next_request (error_results e pending) [] s)"

definition after_response :: "loop_env \<Rightarrow> iteration \<Rightarrow> chat_result \<Rightarrow> loop_state \<Rightarrow> loop_next" where
  "after_response E it r s =
     (let s1 = (case res_data r of None \<Rightarrow> s | Some d \<Rightarrow> record_answer E it (response_answer it s d) s);
          pending = getPendingToolUses (res_data r)
      in if pending = [] then Break (Some r) s1
         else case res_error r of
                None \<Rightarrow> answer_tools E it pending (s1\<lparr>ls_incomplete := 0\<rparr>)
              | Some e \<Rightarrow> answer_failure r e pending s1)"

definition loop_iteration :: "loop_env \<Rightarrow> iteration \<Rightarrow> loop_state \<Rightarrow> loop_next" where
  "loop_iteration E it s =
     (if it_stop_start it then Throw Loop_cancelled s
      else case loop_request E it s of
             (s1, None) \<Rightarrow> Break None s1
           | (s1, Some history) \<Rightarrow>
               (let s2 = s1\<lparr>ls_sent := ls_sent s1 @ [(history, ls_message s1)]\<rparr>
                in case it_reply it of
                     Request_failed m \<Rightarrow> Throw (Request_error m) s2
                   | reply \<Rightarrow>
                       (let s3 = record_prompt E it s2
                        in case processAgenticChatResponseWithTimeout (le_json E) reply of
                             Inl m \<Rightarrow> Throw (Request_error m) s3
                           | Inr r \<Rightarrow> if timed_out r then retry_timeout E it s3 else after_response E it r s3)))"

section \<open>The loop and the compaction of the history\<close>

fun run_iterations :: "loop_env \<Rightarrow> iteration list \<Rightarrow> loop_state \<Rightarrow> loop_next" where
  "run_iterations E [] s = Continue s"
| "run_iterations E (it # its) s =
     (case loop_iteration E it s of Continue s' \<Rightarrow> run_iterations E its s' | done \<Rightarrow> done)"

text \<open>A result with the data of a response, or one without any; \<^verbatim>\<open>Bare_result None\<close> is a success.\<close>

datatype loop_result = Response_result chat_result | Bare_result "string option"

text \<open>The compaction: whether the user agrees, the request for a summary and what the service does with it.\<close>

record compaction =
  cp_approved :: bool
  cp_stop :: bool
  cp_uuid :: string
  cp_newHistoryId :: string
  cp_now :: int
  cp_message :: UserInputMessage
  cp_reply :: service_reply

definition summary_prompt :: "int \<Rightarrow> string \<Rightarrow> Message" where
  "summary_prompt now body = (bare_message body Prompt)\<lparr>ms_shouldDisplayMessage := Some True, ms_timestamp := Some now\<rparr>"

definition runCompaction :: "loop_env \<Rightarrow> compaction \<Rightarrow> ChatDatabase \<Rightarrow> ChatDatabase \<times> (loop_error + loop_result)" where
  "runCompaction E c db =
     (if cp_stop c then (db, Inl Loop_cancelled)
      else case fixAndGetHistory (le_lengths E) (cp_uuid c) (cp_now c) (le_tabId E) (User_message (cp_message c)) [] db of
             (db1, _, Inl _) \<Rightarrow> (db1, Inr (Bare_result (Some ''Compaction loop failed to produce a final result'')))
           | (db1, _, Inr mc) \<Rightarrow>
               if mc_history mc = [] then (db1, Inr (Bare_result None))
               else case processAgenticChatResponseWithTimeout (le_json E) (cp_reply c) of
                      Inl m \<Rightarrow> (db1, Inl (Request_error m))
                    | Inr r \<Rightarrow>
                        (case res_data r of
                           None \<Rightarrow> db1
                         | Some d \<Rightarrow> replaceWithSummary (cp_uuid c) (cp_newHistoryId c) (cp_now c) (le_tabId E) ''cwc''
                                       (or_empty (le_conversationId E)) (summary_prompt (cp_now c) (cm_body d)) db1,
                         Inr (Response_result r)))"

definition shouldCompact :: "rat \<Rightarrow> int \<Rightarrow> bool" where
  "shouldCompact currentRequestCount threshold \<longleftrightarrow> currentRequestCount > of_int threshold"

text \<open>The whole run; no value while the loop still goes on after the given iterations or never returns.\<close>

definition runAgentLoop :: "loop_env \<Rightarrow> iteration list \<Rightarrow> compaction \<Rightarrow> loop_state \<Rightarrow> (ChatDatabase \<times> (loop_error + loop_result)) option" where
  "runAgentLoop E its c s =
     (case run_iterations E its s of
        Continue _ \<Rightarrow> None
      | Hang _ \<Rightarrow> None
      | Throw e s' \<Rightarrow> Some (ls_db s', Inl e)
      | Break final s' \<Rightarrow>
          Some (if shouldCompact (ls_requestCount s') (le_compactionThreshold E)
                then if cp_approved c then runCompaction E c (ls_db s') else (ls_db s', Inl Loop_cancelled)
                else (ls_db s', Inr (case final of
                        None \<Rightarrow> Bare_result (Some ''Agent loop failed to produce a final result'')
                      | Some r \<Rightarrow> Response_result r))))"

section \<open>Turns of a stored conversation\<close>

text \<open>
  Prompts and answers alternate after the leading answers, and a prompt without an answer is kept by the repair. The
  second part is what makes the placeholder answer of the repair close every open turn.
\<close>

abbreviation turns :: "Message list \<Rightarrow> Message list" where
  "turns M \<equiv> dropWhile (\<lambda>m. ms_type m = Answer) M"

definition turns_ok :: "Message list \<Rightarrow> bool" where
  "turns_ok M \<longleftrightarrow> alternating (turns M) \<and> (odd (length (turns M)) \<longrightarrow> kept_messages M \<noteq> [])"

definition closed_turns :: "Message list \<Rightarrow> bool" where
  "closed_turns M \<longleftrightarrow> alternating (turns M) \<and> even (length (turns M))"

lemma closed_turns_ok: "closed_turns M \<Longrightarrow> turns_ok M"
  by (simp add: closed_turns_def turns_ok_def)

lemma turns_snoc: "turns (M @ [m]) = (if turns M = [] then (if ms_type m = Answer then [] else [m]) else turns M @ [m])"
  by (induction M) auto

lemma turns_append: "turns M \<noteq> [] \<Longrightarrow> turns (M @ N) = turns M @ N"
  by (induction M) auto

lemma drop_invalid_pairs_append: "drop_invalid_pairs xs \<noteq> [] \<Longrightarrow> drop_invalid_pairs (xs @ ys) = drop_invalid_pairs xs @ ys"
proof (induction xs rule: drop_invalid_pairs.induct)
  case (2 m)
  then show ?case by (cases ys) (auto split: if_splits)
qed (auto split: if_splits)

lemma kept_append: "kept_messages M \<noteq> [] \<Longrightarrow> kept_messages (M @ N) = kept_messages M @ N"
  using drop_invalid_pairs_append [of "turns M" N] turns_append [of M N]
  by (cases "turns M = []") (simp_all add: kept_messages_def)

lemma alternating_append_prompt: "alternating ms \<Longrightarrow> even (length ms) \<Longrightarrow> ms_type p = Prompt \<Longrightarrow> alternating (ms @ [p])"
  by (induction ms rule: alternating.induct) auto

lemma drop_invalid_pairs_snoc:
  "even (length xs) \<Longrightarrow> drop_invalid_pairs xs = [] \<Longrightarrow> drop_invalid_pairs (xs @ [m]) = drop_invalid_pairs [m]"
  by (induction xs rule: drop_invalid_pairs.induct) (auto split: if_splits)

lemma kept_prompt:
  assumes "closed_turns M" and "ms_type p = Prompt" and "kept_messages M = [] \<Longrightarrow> isValidUserMessageWithoutToolResults p"
  shows "kept_messages (M @ [p]) \<noteq> []"
proof (cases "kept_messages M = []")
  case False
  then show ?thesis by (simp add: kept_append)
next
  case True
  then show ?thesis
    using drop_invalid_pairs_snoc [of "turns M" p] assms by (auto simp: closed_turns_def kept_messages_def turns_snoc)
qed

lemma turns_prompt:
  assumes "closed_turns M" and "ms_type p = Prompt" and "kept_messages M = [] \<Longrightarrow> isValidUserMessageWithoutToolResults p"
  shows "turns_ok (M @ [p])" and "odd (length (turns (M @ [p])))"
  using kept_prompt [OF assms] alternating_append_prompt [of "turns M" p] assms(1,2)
  by (auto simp: turns_ok_def closed_turns_def turns_snoc)

lemma turns_answer:
  assumes "turns_ok M" and "odd (length (turns M))" and "ms_type a = Answer"
  shows "closed_turns (M @ [a])"
  using alternating_append_answer [of "turns M" a] assms by (auto simp: turns_ok_def closed_turns_def turns_snoc)

lemma kept_last: "kept_messages M \<noteq> [] \<Longrightarrow> last (kept_messages M) = last (turns M)"
  using drop_invalid_pairs_suffix [of "turns M"] by (auto simp: kept_messages_def suffix_def intro: sym dest: arg_cong [where f = last])

text \<open>The messages that are stored after the repair.\<close>

definition closed_by :: "int \<Rightarrow> Message list \<Rightarrow> Message list" where
  "closed_by now M = (if kept_messages M \<noteq> [] \<and> ms_type (last (kept_messages M)) = Prompt then M @ [dummy_response now] else M)"

lemma closed_by_turns:
  assumes "turns_ok M"
  shows "closed_turns (closed_by now M)"
proof (cases "turns M = []")
  case True
  then have "kept_messages M = []" by (simp add: kept_messages_def del: dropWhile_eq_Nil_conv)
  then show ?thesis using True by (simp add: closed_by_def closed_turns_def del: dropWhile_eq_Nil_conv)
next
  case False
  have alt: "alternating (turns M)" using assms by (simp add: turns_ok_def)
  show ?thesis
  proof (cases "even (length (turns M))")
    case True
    then have "ms_type (last (turns M)) = Answer" using alternating_last [OF alt False] by simp
    then show ?thesis using True alt by (auto simp: closed_by_def kept_last closed_turns_def)
  next
    case odd: False
    then have "kept_messages M \<noteq> []" using assms by (simp add: turns_ok_def)
    moreover from this have "ms_type (last (kept_messages M)) = Prompt"
      using alternating_last [OF alt False] odd by (simp add: kept_last)
    ultimately show ?thesis
      using turns_answer [OF assms odd] by (simp add: closed_by_def)
  qed
qed

lemma closed_by_kept: "kept_messages M \<noteq> [] \<Longrightarrow> kept_messages (closed_by now M) \<noteq> []"
  by (simp add: closed_by_def kept_append)

lemma repaired_kept: "repaired now M = kept_messages (closed_by now M)"
  by (auto simp: repaired_def closed_by_def Let_def kept_append)

section \<open>The database during a run\<close>

text \<open>The conversation of the run is the last one of its tab, or a new one.\<close>

definition chat_ready :: "string \<Rightarrow> string \<Rightarrow> ChatDatabase \<Rightarrow> bool" where
  "chat_ready tabId cid db \<longleftrightarrow> db_initialized db \<and> db_wf db \<and>
     (case mapped_tab db tabId of None \<Rightarrow> True | Some t \<Rightarrow> cid \<notin> set (map cv_conversationId (butlast (tb_conversations t))))"

lemma updateOrCreate_ids:
  "map cv_conversationId (updateOrCreateConversation now cs c m ct) =
     (if c \<in> set (map cv_conversationId cs) then map cv_conversationId cs else map cv_conversationId cs @ [c])"
  by (auto simp: updateOrCreateConversation_def list_ex_iff image_iff)

lemma latest_not_before:
  assumes "db_wf db" and "mapped_tab db tabId = Some t" and "tb_conversations t \<noteq> []"
  shows "getLatestConversationId db tabId = cv_conversationId (last (tb_conversations t))"
    and "getLatestConversationId db tabId \<in> set (map cv_conversationId (tb_conversations t))"
    and "getLatestConversationId db tabId \<notin> set (map cv_conversationId (butlast (tb_conversations t)))"
proof -
  obtain h where h: "mapped_history db tabId = Some h" "findTab db h = Some t"
    using assms(2) by (auto simp: mapped_tab_def bind_eq_Some_conv split: if_splits)
  then show l: "getLatestConversationId db tabId = cv_conversationId (last (tb_conversations t))"
    using assms(3) by (simp add: getLatestConversationId_def)
  with assms(3) show "getLatestConversationId db tabId \<in> set (map cv_conversationId (tb_conversations t))" by simp
  have "distinct (map cv_conversationId (tb_conversations t))"
    using findTab_ok [OF assms(1) h(2)] by (simp add: tab_ok_def)
  then have "distinct (map cv_conversationId (butlast (tb_conversations t) @ [last (tb_conversations t)]))"
    using assms(3) by simp
  then show "getLatestConversationId db tabId \<notin> set (map cv_conversationId (butlast (tb_conversations t)))"
    unfolding l by (simp add: image_iff)
qed

text \<open>A message goes to the conversation of the run, or a placeholder to the latest conversation of a tab with messages.\<close>

definition run_conversation :: "string \<Rightarrow> string \<Rightarrow> ChatDatabase \<Rightarrow> string \<Rightarrow> bool" where
  "run_conversation tabId cid db c \<longleftrightarrow> c = cid \<or> c = getLatestConversationId db tabId \<and> getMessages db tabId None \<noteq> []"

lemma stored_tab:
  assumes "db_initialized db" and "getMessages db tabId None \<noteq> []"
  obtains t where "mapped_tab db tabId = Some t" and "tb_conversations t \<noteq> []"
proof (cases "Option.bind (mapped_history db tabId) (findTab db)")
  case None
  with assms show thesis by (simp add: getMessages_all)
next
  case (Some t)
  with assms have "tb_conversations t \<noteq> []" by (cases "tb_conversations t") (simp_all add: getMessages_all tab_messages_def)
  with Some assms(1) that show thesis by (simp add: mapped_tab_def)
qed

lemma run_conversation_not_before:
  assumes "chat_ready tabId cid db" and "run_conversation tabId cid db c" and "mapped_tab db tabId = Some t"
  shows "c \<notin> set (map cv_conversationId (butlast (tb_conversations t)))"
    and "c \<noteq> cid \<Longrightarrow> c \<in> set (map cv_conversationId (tb_conversations t))"
proof -
  have latest: "c = getLatestConversationId db tabId \<and> tb_conversations t \<noteq> []" if "c \<noteq> cid"
  proof -
    have "getMessages db tabId None \<noteq> []" "db_initialized db"
      using that assms(1,2) by (auto simp: run_conversation_def chat_ready_def)
    then obtain t' where "mapped_tab db tabId = Some t'" "tb_conversations t' \<noteq> []" using stored_tab by blast
    then show ?thesis using that assms(2,3) by (simp add: run_conversation_def)
  qed
  then show "c \<noteq> cid \<Longrightarrow> c \<in> set (map cv_conversationId (tb_conversations t))"
    using latest_not_before(2) [OF _ assms(3)] assms(1) by (simp add: chat_ready_def)
  show "c \<notin> set (map cv_conversationId (butlast (tb_conversations t)))"
    using latest latest_not_before(3) [OF _ assms(3)] assms(1,3) by (cases "c = cid") (simp_all add: chat_ready_def)
qed

lemma addMessage_ready:
  assumes "chat_ready tabId cid db" and "id_ready uuid tabId db" and "run_conversation tabId cid db c"
  shows "chat_ready tabId cid (addMessage uuid now tabId tabType c m db)"
    and "getMessages (addMessage uuid now tabId tabType c m db) tabId None = getMessages db tabId None @ [formatChatHistoryMessage m]"
    and "mapped_history (addMessage uuid now tabId tabType c m db) tabId \<noteq> None"
proof -
  have db: "db_initialized db" "db_wf db" using assms(1) by (simp_all add: chat_ready_def)
  note before = run_conversation_not_before [OF assms(1,3)]
  show "getMessages (addMessage uuid now tabId tabType c m db) tabId None = getMessages db tabId None @ [formatChatHistoryMessage m]"
    by (rule addMessage_appends [OF db(1) assms(2) before(1)])
  obtain u where u: "fresh_id u db" "addMessage uuid now tabId tabType c m db = addMessage u now tabId tabType c m db"
    using addMessage_any_id [OF assms(2), of now tabType c] by metis
  obtain h db1 where g: "getOrCreateHistoryId u tabId db = (h, db1)" by fastforce
  note mp = getOrCreate_mapping [OF u(1) g] and a = addMessage_find [OF db(1) u(1) g, of now tabType c m]
  show "mapped_history (addMessage uuid now tabId tabType c m db) tabId \<noteq> None"
    by (simp add: u(2) a(2) mp(1))
  let ?t = "tab_with_message now tabType c m (text_or (Some (db_clientType db)) ''unknown'') h (findTab db h)"
  have t: "mapped_tab (addMessage u now tabId tabType c m db) tabId = Some ?t"
    by (simp add: mapped_tab_def a mp(1))
  have "cid \<notin> set (butlast (map cv_conversationId (tb_conversations ?t)))"
  proof (cases "findTab db h")
    case None
    then show ?thesis by (simp add: tab_with_message_def new_tab_def Let_def)
  next
    case (Some t)
    then have m: "mapped_tab db tabId = Some t"
      using mp(2) u(1) db(1) by (auto simp: mapped_tab_def fresh_id_def)
    have "cid \<notin> set (butlast (map cv_conversationId (tb_conversations t)))"
      using assms(1) m by (simp add: chat_ready_def map_butlast)
    then show ?thesis
      using Some before(2) [OF m] by (auto simp: tab_with_message_def Let_def updateOrCreate_ids)
  qed
  then show "chat_ready tabId cid (addMessage uuid now tabId tabType c m db)"
    using addMessage_wf [OF db(2) u(1)] a(3) by (simp add: chat_ready_def u(2) t map_butlast)
qed

lemma id_ready_mapped: "mapped_history db tabId \<noteq> None \<Longrightarrow> id_ready uuid tabId db"
  by (simp add: id_ready_def)

lemma stored_mapped: "db_initialized db \<Longrightarrow> getMessages db tabId None \<noteq> [] \<Longrightarrow> mapped_history db tabId \<noteq> None"
  by (cases "mapped_history db tabId") (simp_all add: getMessages_all)

text \<open>What the repair leaves in the database.\<close>

lemma fixAndGet_db:
  "fst (fixAndGetHistory J uuid now tabId newMsg pinned db) =
     (if db_initialized db \<and> getMessages db tabId None \<noteq> []
      then snd (ensureValidMessageSequence uuid now tabId (getMessages db tabId None) db) else db)"
  by (auto simp: fixAndGetHistory_def Let_def split: prod.split sum.split)

lemma fixAndGet_ready:
  assumes "chat_ready tabId cid db" and "fixAndGetHistory J uuid now tabId newMsg pinned db = (db1, newMsg1, r)"
  shows "chat_ready tabId cid db1" and "getMessages db1 tabId None = closed_by now (getMessages db tabId None)"
    and "db1 = db \<or> mapped_history db1 tabId \<noteq> None"
proof -
  let ?M = "getMessages db tabId None"
  have init: "db_initialized db" using assms(1) by (simp add: chat_ready_def)
  have db1: "db1 = (if ?M \<noteq> [] then snd (ensureValidMessageSequence uuid now tabId ?M db) else db)"
    using fixAndGet_db [of J uuid now tabId newMsg pinned db] init assms(2) by simp
  have "chat_ready tabId cid db1 \<and> getMessages db1 tabId None = closed_by now ?M \<and> (db1 = db \<or> mapped_history db1 tabId \<noteq> None)"
  proof (cases "?M \<noteq> [] \<and> kept_messages ?M \<noteq> [] \<and> ms_type (last (kept_messages ?M)) = Prompt")
    case True
    then have "db1 = addMessage uuid now tabId ''cwc'' (getLatestConversationId db tabId) (dummy_response now) db"
      by (simp add: db1 ensureValidMessageSequence_def kept_messages_def)
    moreover have "run_conversation tabId cid db (getLatestConversationId db tabId)"
      using True by (simp add: run_conversation_def)
    ultimately show ?thesis
      using True addMessage_ready [OF assms(1) id_ready_mapped [OF stored_mapped [OF init]]]
      by (simp add: closed_by_def formatChatHistoryMessage_def)
  next
    case False
    then have "db1 = db" "closed_by now ?M = ?M"
      by (auto simp: db1 ensureValidMessageSequence_def kept_messages_def closed_by_def)
    with assms(1) show ?thesis by simp
  qed
  then show "chat_ready tabId cid db1" "getMessages db1 tabId None = closed_by now ?M" "db1 = db \<or> mapped_history db1 tabId \<noteq> None"
    by blast+
qed

section \<open>Preparing a request\<close>

text \<open>A message to send: one result per tool use, and text without results when the history keeps nothing it could refer to.\<close>

definition message_ok :: "Message list \<Rightarrow> UserInputMessage \<Rightarrow> bool" where
  "message_ok M u \<longleftrightarrow> ui_context u \<noteq> None \<and> distinct (map tres_toolUseId (given_results u)) \<and>
     (kept_messages M = [] \<longrightarrow> given_results u = [] \<and> given (ui_content u))"

lemma on_editor_simps [simp]:
  "given_results (on_editor f u) = given_results u" "ui_content (on_editor f u) = ui_content u"
  "ui_context (on_editor f u) = None \<longleftrightarrow> ui_context u = None" "ui_userIntent (on_editor f u) = ui_userIntent u"
  by (cases "ui_context u"; simp add: on_editor_def given_results_def)+

lemma given_results_keep [simp]: "given_results (u\<lparr>ui_content := c\<rparr>) = given_results u" "given_results (u\<lparr>ui_images := i\<rparr>) = given_results u"
  by (simp_all add: given_results_def)

lemma given_results_set: "given_results (u\<lparr>ui_context := Some (c\<lparr>uc_toolResults := Some rs\<rparr>)\<rparr>) = rs"
  by (simp add: given_results_def listed_def)

lemma truncate_content_keeps:
  assumes "0 < l"
  shows "given_results (snd (truncate_content l u)) = given_results u" "given (ui_content (snd (truncate_content l u))) = given (ui_content u)"
    "ui_context (snd (truncate_content l u)) = ui_context u" "ui_userIntent (snd (truncate_content l u)) = ui_userIntent u"
  using assms by (auto simp: truncate_content_def Let_def given_def substring_def clamp_index_def split: option.splits)

lemma truncate_document_keeps:
  "given_results (snd (truncate_document b u)) = given_results u" "ui_content (snd (truncate_document b u)) = ui_content u"
  "ui_context (snd (truncate_document b u)) = None \<longleftrightarrow> ui_context u = None" "ui_userIntent (snd (truncate_document b u)) = ui_userIntent u"
  by (auto simp: truncate_document_def Let_def split: option.splits)

lemma truncateRequest_parts:
  obtains b f c i where "snd (truncateRequest u ctx (Some l)) =
    snd (truncate_document b (if c then (on_editor f (snd (truncate_content l u)))\<lparr>ui_images := i\<rparr> else on_editor f (snd (truncate_content l u))))"
proof -
  let ?u1 = "snd (truncate_content l u)"
  let ?q = "fit_items (fst (truncate_content l u)) (combined_items ctx (docs_of ?u1) (listed (ui_images ?u1)))"
  let ?f = "\<lambda>e. if ce_relevantDocuments e \<noteq> None then e\<lparr>ce_relevantDocuments := Some (fst (snd ?q))\<rparr> else e"
  have "snd (truncateRequest u ctx (Some l)) =
      snd (truncate_document (fst ?q) (if listed (ui_images (on_editor ?f ?u1)) \<noteq> []
        then (on_editor ?f ?u1)\<lparr>ui_images := Some (snd (snd ?q))\<rparr> else on_editor ?f ?u1))"
    by (simp add: truncateRequest_def Let_def case_prod_beta del: not_None_eq)
  then show thesis by (rule that)
qed

lemma truncate_keeps:
  assumes "0 < l"
  shows "given_results (snd (truncateRequest u ctx (Some l))) = given_results u"
    and "given (ui_content (snd (truncateRequest u ctx (Some l)))) = given (ui_content u)"
    and "ui_context (snd (truncateRequest u ctx (Some l))) = None \<longleftrightarrow> ui_context u = None"
    and "ui_userIntent (snd (truncateRequest u ctx (Some l))) = ui_userIntent u"
proof -
  obtain b f c i where e: "snd (truncateRequest u ctx (Some l)) =
      snd (truncate_document b (if c then (on_editor f (snd (truncate_content l u)))\<lparr>ui_images := i\<rparr> else on_editor f (snd (truncate_content l u))))"
    by (rule truncateRequest_parts)
  show "given_results (snd (truncateRequest u ctx (Some l))) = given_results u"
    "given (ui_content (snd (truncateRequest u ctx (Some l)))) = given (ui_content u)"
    "ui_context (snd (truncateRequest u ctx (Some l))) = None \<longleftrightarrow> ui_context u = None"
    "ui_userIntent (snd (truncateRequest u ctx (Some l))) = ui_userIntent u"
    unfolding e by (simp_all add: truncate_document_keeps truncate_content_keeps [OF assms])
qed

lemma message_ok_truncate: "0 < l \<Longrightarrow> message_ok M (snd (truncateRequest u ctx (Some l))) \<longleftrightarrow> message_ok M u"
  by (simp add: message_ok_def truncate_keeps)

text \<open>
  What the service requires of a request: complete turns that start with a prompt without tool results, and the results of exactly
  the tools the last answer asked for. A request with an intent of the user goes to another backend and has no history.
\<close>

definition request_ok :: "StreamingMessage list \<Rightarrow> StreamingMessage list \<times> UserInputMessage \<Rightarrow> bool" where
  "request_ok pinned q \<longleftrightarrow>
     (if given (ui_userIntent (snd q)) then fst q = []
      else \<exists>ms. fst q = map messageToStreamingMessage ((if length pinned = 2 then map chatMessageToMessage pinned else []) @ ms) \<and>
             valid_history ms \<and> tres_toolUseId ` set (given_results (snd q)) = tu_toolUseId ` set (last_uses ms))"

lemma accepted_message:
  assumes "fixAndGetHistory J uuid now tabId (User_message u) pinned db = (db1, newMsg, Inr mc)" and "db_initialized db"
    and "message_ok (getMessages db tabId None) u"
  obtains u1 where "newMsg = User_message u1" and "ui_context u1 \<noteq> None" and "ui_content u1 = ui_content u" and "ui_userIntent u1 = ui_userIntent u"
    and "tres_toolUseId ` set (given_results u1) = tu_toolUseId ` set (last_uses (repaired now (getMessages db tabId None)))"
proof -
  let ?M = "getMessages db tabId None" and ?ms = "repaired now (getMessages db tabId None)"
  obtain ctx where ctx: "ui_context u = Some ctx" and d: "distinct (map tres_toolUseId (given_results u))"
    using assms(3) by (auto simp: message_ok_def)
  show thesis
  proof (cases "?ms = []")
    case True
    then have "kept_messages ?M = []" using closed_by_kept [of ?M now] by (auto simp: repaired_kept)
    then have g: "given_results u = []" using assms(3) by (simp add: message_ok_def)
    have "newMsg = User_message u"
    proof (cases "?M = []")
      case True
      then show ?thesis using fixAndGet_nothing_stored [OF assms(2) True, of J uuid now "User_message u" pinned] assms(1) by simp
    next
      case False
      then show ?thesis using fixAndGet_history(3) [OF assms(1,2) False] validate_cases [OF ctx, of ?ms] True g by simp
    qed
    with ctx g True that show thesis by (simp add: last_uses_def)
  next
    case False
    then have "?M \<noteq> []" by auto
    then have "newMsg = User_message (u\<lparr>ui_context := Some (ctx\<lparr>uc_toolResults := Some (fixed_results (last_uses ?ms) (given_results u))\<rparr>)\<rparr>)"
      using fixAndGet_history(3) [OF assms(1,2)] validate_cases [OF ctx, of ?ms] False by (auto split: if_splits)
    moreover have "tres_toolUseId ` set (fixed_results (last_uses ?ms) (given_results u)) = tu_toolUseId ` set (last_uses ?ms)"
      by (rule fixed_results_cover [OF d])
    ultimately show thesis
      by (intro that [of "u\<lparr>ui_context := Some (ctx\<lparr>uc_toolResults := Some (fixed_results (last_uses ?ms) (given_results u))\<rparr>)\<rparr>"])
        (simp_all add: given_results_set)
  qed
qed

section \<open>The invariant of the loop\<close>

abbreviation loop_conversation :: "loop_env \<Rightarrow> string" where
  "loop_conversation E \<equiv> or_empty (le_conversationId E)"

abbreviation loop_messages :: "loop_env \<Rightarrow> loop_state \<Rightarrow> Message list" where
  "loop_messages E s \<equiv> getMessages (ls_db s) (le_tabId E) None"

definition loop_ok :: "loop_env \<Rightarrow> loop_state \<Rightarrow> bool" where
  "loop_ok E s \<longleftrightarrow> chat_ready (le_tabId E) (loop_conversation E) (ls_db s) \<and> turns_ok (loop_messages E s) \<and>
     message_ok (loop_messages E s) (ls_message s)"

lemma loop_request_ok:
  assumes "loop_ok E s" and "0 < le_inputLimit E" and "loop_request E it s = (s1, Some history)"
  shows "chat_ready (le_tabId E) (loop_conversation E) (ls_db s1)" and "closed_turns (loop_messages E s1)"
    and "ls_db s1 = ls_db s \<or> mapped_history (ls_db s1) (le_tabId E) \<noteq> None"
    and "request_ok (le_pinned E) (history, ls_message s1)" and "ui_context (ls_message s1) \<noteq> None"
    and "kept_messages (loop_messages E s1) = [] \<Longrightarrow> given_results (ls_message s1) = [] \<and> given (ui_content (ls_message s1))"
    and "ls_sent s1 = ls_sent s"
proof -
  define u where "u = snd (truncateRequest (ls_message s) (le_additionalContext E) (Some (le_inputLimit E)))"
  let ?M = "loop_messages E s"
  obtain db1 newMsg r where f: "fixAndGetHistory (le_lengths E) (it_uuid it) (it_now it) (le_tabId E) (User_message u) (le_pinned E) (ls_db s) = (db1, newMsg, r)"
    using prod_cases3 by blast
  then obtain mc where r: "r = Inr mc"
    using assms(3) by (cases r) (auto simp: loop_request_def u_def Let_def)
  note f = f [unfolded r]
  have ready: "chat_ready (le_tabId E) (loop_conversation E) (ls_db s)" and ok: "turns_ok ?M" "message_ok ?M u"
    using assms(1,2) by (simp_all add: loop_ok_def u_def message_ok_truncate)
  then have init: "db_initialized (ls_db s)" by (simp add: chat_ready_def)
  obtain u1 where u1: "newMsg = User_message u1" "ui_context u1 \<noteq> None" "ui_content u1 = ui_content u" "ui_userIntent u1 = ui_userIntent u"
    and match: "tres_toolUseId ` set (given_results u1) = tu_toolUseId ` set (last_uses (repaired (it_now it) ?M))"
    by (rule accepted_message [OF f init ok(2)])
  have s1: "s1 = s\<lparr>ls_message := u1, ls_db := db1, ls_requestCount := mc_currentCount mc + mc_historyCount mc\<rparr>"
    "history = (if given (ui_userIntent u1) then [] else map messageToStreamingMessage (mc_history mc))"
    using assms(3) f u1(1) by (auto simp: loop_request_def u_def [symmetric] Let_def)
  note db1 = fixAndGet_ready [OF ready f]
  show "chat_ready (le_tabId E) (loop_conversation E) (ls_db s1)" "ls_db s1 = ls_db s \<or> mapped_history (ls_db s1) (le_tabId E) \<noteq> None"
    using db1(1,3) by (simp_all add: s1)
  have M1: "loop_messages E s1 = closed_by (it_now it) ?M" using db1(2) by (simp add: s1)
  then show "closed_turns (loop_messages E s1)" using closed_by_turns [OF ok(1)] by simp
  have "valid_history (repaired (it_now it) ?M)"
    using ok(1) by (intro repaired_valid) (simp add: turns_ok_def)
  then show "request_ok (le_pinned E) (history, ls_message s1)"
    using match fixAndGet_history(1) [OF f init] by (auto simp: request_ok_def s1)
  show "ui_context (ls_message s1) \<noteq> None" "ls_sent s1 = ls_sent s" using u1(2) by (simp_all add: s1)
  show "given_results (ls_message s1) = [] \<and> given (ui_content (ls_message s1))" if "kept_messages (loop_messages E s1) = []"
  proof -
    have "kept_messages ?M = []" using that closed_by_kept M1 by metis
    then have "given (ui_content u)" using ok(2) by (simp add: message_ok_def)
    moreover have "given_results u1 = []" using match that M1 by (simp add: repaired_kept last_uses_def)
    ultimately show ?thesis by (simp add: s1 u1(3))
  qed
qed

text \<open>The prompt opens a turn and the answer closes it.\<close>

lemma record_prompt_ok:
  assumes "chat_ready (le_tabId E) (loop_conversation E) (ls_db s)" and "closed_turns (loop_messages E s)"
    and "id_ready (it_uuid it) (le_tabId E) (ls_db s)" and "given (le_conversationId E)" and "\<not> it_stop_prompt it"
    and "kept_messages (loop_messages E s) = [] \<Longrightarrow> given_results (ls_message s) = [] \<and> given (ui_content (ls_message s))"
  shows "chat_ready (le_tabId E) (loop_conversation E) (ls_db (record_prompt E it s))"
    and "turns_ok (loop_messages E (record_prompt E it s))" and "odd (length (turns (loop_messages E (record_prompt E it s))))"
    and "kept_messages (loop_messages E (record_prompt E it s)) \<noteq> []"
    and "mapped_history (ls_db (record_prompt E it s)) (le_tabId E) \<noteq> None"
proof -
  let ?p = "formatChatHistoryMessage (loop_prompt it s)"
  note a = addMessage_ready [OF assms(1,3), where c = "loop_conversation E"]
  have p: "ms_type ?p = Prompt" by (simp add: formatChatHistoryMessage_def loop_prompt_def Let_def)
  have "isValidUserMessageWithoutToolResults ?p" if "kept_messages (loop_messages E s) = []"
    using assms(6) [OF that]
    by (auto simp: isValidUserMessageWithoutToolResults_def formatChatHistoryMessage_def loop_prompt_def Let_def toolResults_of_def
        given_results_def given_def or_empty_def split: option.splits)
  note t = turns_prompt [OF assms(2) p this] kept_prompt [OF assms(2) p this]
  have r: "ls_db (record_prompt E it s) =
      addMessage (it_uuid it) (it_now it) (le_tabId E) ''cwc'' (loop_conversation E) (loop_prompt it s) (ls_db s)"
    using assms(4,5) by (simp add: record_prompt_def)
  have m: "loop_messages E (record_prompt E it s) = loop_messages E s @ [?p]"
    using a(2) by (simp add: r run_conversation_def)
  show "chat_ready (le_tabId E) (loop_conversation E) (ls_db (record_prompt E it s))"
    "mapped_history (ls_db (record_prompt E it s)) (le_tabId E) \<noteq> None"
    using a(1,3) by (simp_all add: r run_conversation_def)
  show "turns_ok (loop_messages E (record_prompt E it s))" "odd (length (turns (loop_messages E (record_prompt E it s))))"
    "kept_messages (loop_messages E (record_prompt E it s)) \<noteq> []"
    unfolding m using t by blast+
qed

lemma record_answer_ok:
  assumes "chat_ready (le_tabId E) (loop_conversation E) (ls_db s)" and "turns_ok (loop_messages E s)" and "odd (length (turns (loop_messages E s)))"
    and "kept_messages (loop_messages E s) \<noteq> []" and "mapped_history (ls_db s) (le_tabId E) \<noteq> None"
    and "\<not> it_stop_answer it" and "ms_type m = Answer"
  shows "chat_ready (le_tabId E) (loop_conversation E) (ls_db (record_answer E it m s))"
    and "turns_ok (loop_messages E (record_answer E it m s))" and "kept_messages (loop_messages E (record_answer E it m s)) \<noteq> []"
proof -
  have "run_conversation (le_tabId E) (loop_conversation E) (ls_db s) (loop_conversation E)" by (simp add: run_conversation_def)
  note a = addMessage_ready [OF assms(1) id_ready_mapped [OF assms(5)] this]
  have "formatChatHistoryMessage m = m" using assms(7) by (simp add: formatChatHistoryMessage_def)
  then show "chat_ready (le_tabId E) (loop_conversation E) (ls_db (record_answer E it m s))"
    "turns_ok (loop_messages E (record_answer E it m s))" "kept_messages (loop_messages E (record_answer E it m s)) \<noteq> []"
    using a(1,2) turns_answer [OF assms(2,3,7)] assms(4,6) by (simp_all add: record_answer_def closed_turns_ok kept_append)
qed

text \<open>The state an iteration leaves behind, however it ends.\<close>

fun next_state :: "loop_next \<Rightarrow> loop_state" where
  "next_state (Continue s) = s"
| "next_state (Break r s) = s"
| "next_state (Throw e s) = s"
| "next_state (Hang s) = s"

lemma next_request_sent [simp]: "ls_sent (next_state (next_request rs c s)) = ls_sent s"
  by (simp add: next_request_def split: option.split)

lemma record_sent [simp]: "ls_sent (record_prompt E it s) = ls_sent s" "ls_sent (record_answer E it m s) = ls_sent s"
  by (simp_all add: record_prompt_def record_answer_def)

lemma answer_tools_sent [simp]: "ls_sent (next_state (answer_tools E it us s)) = ls_sent s"
  by (simp add: answer_tools_def Let_def split: tools_end.split)

lemma answer_failure_sent [simp]: "ls_sent (next_state (answer_failure r e us s)) = ls_sent s"
  by (simp add: answer_failure_def Let_def)

lemma after_response_sent [simp]: "ls_sent (next_state (after_response E it r s)) = ls_sent s"
  by (simp add: after_response_def Let_def split: option.split)

lemma retry_timeout_sent [simp]: "ls_sent (next_state (retry_timeout E it s)) = ls_sent s"
  by (simp add: retry_timeout_def)

text \<open>An iteration sends at most the request it prepared.\<close>

lemma iteration_sent:
  "ls_sent (next_state (loop_iteration E it s)) =
     ls_sent s @ (if it_stop_start it then [] else case loop_request E it s of (s1, None) \<Rightarrow> [] | (s1, Some history) \<Rightarrow> [(history, ls_message s1)])"
proof -
  obtain s1 h where p: "loop_request E it s = (s1, h)" by fastforce
  then have s: "ls_sent s1 = ls_sent s"
    by (auto simp: loop_request_def Let_def split: prod.splits sum.splits)
  show ?thesis
  proof (cases "it_stop_start it \<or> h = None \<or> (\<exists>m. it_reply it = Request_failed m)")
    case True
    then show ?thesis by (cases h) (auto simp: loop_iteration_def p s)
  next
    case False
    then obtain history where h: "h = Some history" by (cases h) auto
    let ?s3 = "record_prompt E it (s1\<lparr>ls_sent := ls_sent s1 @ [(history, ls_message s1)]\<rparr>)"
    have "loop_iteration E it s = (case processAgenticChatResponseWithTimeout (le_json E) (it_reply it) of
        Inl m \<Rightarrow> Throw (Request_error m) ?s3 | Inr r \<Rightarrow> if timed_out r then retry_timeout E it ?s3 else after_response E it r ?s3)"
      using False by (cases "it_reply it") (simp_all add: loop_iteration_def p h Let_def)
    then show ?thesis using False by (simp add: p h s split: sum.split)
  qed
qed

text \<open>The message of the next request, when the loop goes on after the answer was stored.\<close>

lemma next_request_ok:
  assumes "next_request rs c s = Continue s'" and "chat_ready (le_tabId E) (loop_conversation E) (ls_db s)"
    and "turns_ok (loop_messages E s)" and "kept_messages (loop_messages E s) \<noteq> []" and "distinct (map tres_toolUseId rs)"
  shows "loop_ok E s' \<and> kept_messages (loop_messages E s') \<noteq> []"
proof (cases "ui_context (ls_message s)")
  case None
  then show ?thesis using assms(1) by (simp add: next_request_def updateRequestInputWithToolResults_def)
next
  case (Some ctx)
  then have "ls_db s' = ls_db s" "ui_context (ls_message s') \<noteq> None" "given_results (ls_message s') = rs"
    using assms(1) by (auto simp: next_request_def updateRequestInputWithToolResults_def given_results_def listed_def)
  then show ?thesis using assms(2-5) by (simp add: loop_ok_def message_ok_def)
qed

lemma error_results_ids: "map tres_toolUseId (error_results e us) = map Some (map pt_toolUseId us)"
  by (simp add: error_results_def)

lemma distinct_Some: "distinct (map Some xs) = distinct xs"
  by (simp add: distinct_map)

lemma answer_tools_ok:
  assumes "answer_tools E it us s = Continue s'" and "chat_ready (le_tabId E) (loop_conversation E) (ls_db s)"
    and "turns_ok (loop_messages E s)" and "kept_messages (loop_messages E s) \<noteq> []" and "distinct (map pt_toolUseId us)"
  shows "loop_ok E s' \<and> kept_messages (loop_messages E s') \<noteq> []"
proof -
  obtain ts where ts: "processToolUses (le_tools E) (it_world it) us \<lparr>ts_approved = ls_approved s, ts_results = [], ts_ran = []\<rparr> = Tools_done ts"
    using assms(1) by (auto simp: answer_tools_def split: tools_end.splits)
  have "map tres_toolUseId (ts_results ts) = map Some (map pt_toolUseId (filter named_use us))"
    using results_grow [OF ts] by simp
  then have d: "distinct (map tres_toolUseId (ts_results ts))"
    using distinct_map_filter [OF assms(5)] by (simp only: distinct_Some)
  obtain c s0 where n: "next_request (ts_results ts) c s0 = Continue s'" "ls_db s0 = ls_db s"
    using assms(1) ts by (cases "list_ex shouldSendBackErrorContent (ts_results ts)") (fastforce simp: answer_tools_def Let_def)+
  show ?thesis
    by (rule next_request_ok [OF n(1)]) (use assms(2-4) d n(2) in simp_all)
qed

lemma answer_failure_ok:
  assumes "answer_failure r e us s = Continue s'" and "chat_ready (le_tabId E) (loop_conversation E) (ls_db s)"
    and "turns_ok (loop_messages E s)" and "kept_messages (loop_messages E s) \<noteq> []" and "distinct (map pt_toolUseId us)"
  shows "loop_ok E s' \<and> kept_messages (loop_messages E s') \<noteq> []"
proof -
  have d: "distinct (map tres_toolUseId (error_results e us))"
    unfolding error_results_ids distinct_Some by (rule assms(5))
  obtain c s0 where n: "next_request (error_results e us) c s0 = Continue s'" "ls_db s0 = ls_db s"
    using assms(1) by (cases "incomplete_input r") (fastforce simp: answer_failure_def Let_def split: if_splits)+
  show ?thesis
    by (rule next_request_ok [OF n(1)]) (use assms(2-4) d n(2) in simp_all)
qed

text \<open>A response that did not time out has data, and different ids for its tools.\<close>

lemma reply_data:
  assumes "processAgenticChatResponseWithTimeout J reply = Inr r" and "\<not> timed_out r"
  obtains d where "res_data r = Some d" and "distinct (map pt_toolUseId (getPendingToolUses (Some d)))"
proof (cases reply)
  case (Streamed requestId evs ab)
  then obtain d where "res_data r = Some d" "keyed_uses (cm_toolUses d)"
    using response_keyed [of J requestId evs ab r] assms(1) by (auto simp: processAgenticChatResponseWithTimeout_def)
  then show thesis using that keyed_distinct by (simp add: getPendingToolUses_def)
qed (use assms in \<open>auto simp: processAgenticChatResponseWithTimeout_def timed_out_def startsWith_def\<close>)

text \<open>The end of an iteration, once the prompt is stored.\<close>

lemma after_prompt_ok:
  assumes "chat_ready (le_tabId E) (loop_conversation E) (ls_db s)" and "turns_ok (loop_messages E s)" and "odd (length (turns (loop_messages E s)))"
    and "kept_messages (loop_messages E s) \<noteq> []" and "mapped_history (ls_db s) (le_tabId E) \<noteq> None" and "\<not> it_stop_answer it"
    and "processAgenticChatResponseWithTimeout (le_json E) reply = Inr r"
    and "(if timed_out r then retry_timeout E it s else after_response E it r s) = Continue s'"
  shows "loop_ok E s' \<and> kept_messages (loop_messages E s') \<noteq> []"
proof (cases "timed_out r")
  case True
  have "ms_type (timeout_answer it) = Answer" by (simp add: timeout_answer_def bare_message_def)
  note a = record_answer_ok [OF assms(1-6) this]
  have "next_request [] ''You took too long to respond - try to split up the work into smaller steps. Do not apologize.''
      ((record_answer E it (timeout_answer it) s)\<lparr>ls_shouldDisplay := False\<rparr>) = Continue s'"
    using assms(8) True by (simp add: retry_timeout_def)
  then show ?thesis by (rule next_request_ok) (simp_all add: a)
next
  case False
  with assms(7) obtain d where d: "res_data r = Some d" "distinct (map pt_toolUseId (getPendingToolUses (Some d)))"
    by (rule reply_data)
  have "ms_type (response_answer it s d) = Answer" by (simp add: response_answer_def bare_message_def)
  note a = record_answer_ok [OF assms(1-6) this]
  let ?s1 = "record_answer E it (response_answer it s d) s"
  show ?thesis
  proof (cases "res_error r")
    case None
    then have "answer_tools E it (getPendingToolUses (Some d)) (?s1\<lparr>ls_incomplete := 0\<rparr>) = Continue s'"
      using assms(8) False d(1) by (auto simp: after_response_def Let_def split: if_splits)
    then show ?thesis by (rule answer_tools_ok) (simp_all add: a d(2))
  next
    case (Some e)
    then have "answer_failure r e (getPendingToolUses (Some d)) ?s1 = Continue s'"
      using assms(8) False d(1) by (auto simp: after_response_def Let_def split: if_splits)
    then show ?thesis by (rule answer_failure_ok) (simp_all add: a d(2))
  qed
qed

lemma iteration_continues:
  assumes "loop_ok E s" and "0 < le_inputLimit E" and "given (le_conversationId E)" and "id_ready (it_uuid it) (le_tabId E) (ls_db s)"
    and "\<not> it_stop_prompt it" and "\<not> it_stop_answer it" and "loop_iteration E it s = Continue s'"
  shows "loop_ok E s' \<and> kept_messages (loop_messages E s') \<noteq> []"
proof -
  obtain s1 h where p: "loop_request E it s = (s1, h)" by fastforce
  then obtain history where h: "h = Some history" using assms(7) by (cases h) (auto simp: loop_iteration_def split: if_splits)
  note ok = loop_request_ok [OF assms(1,2) p [unfolded h]]
  define s2 where "s2 = s1\<lparr>ls_sent := ls_sent s1 @ [(history, ls_message s1)]\<rparr>"
  have s2: "ls_db s2 = ls_db s1" "ls_message s2 = ls_message s1" by (simp_all add: s2_def)
  have "id_ready (it_uuid it) (le_tabId E) (ls_db s2)"
    using ok(3) assms(4) by (auto simp: s2 id_ready_def)
  note prompt = record_prompt_ok [OF ok(1) [folded s2] ok(2) [folded s2] this assms(3,5) ok(6) [folded s2]]
  obtain r where "processAgenticChatResponseWithTimeout (le_json E) (it_reply it) = Inr r"
    and "(if timed_out r then retry_timeout E it (record_prompt E it s2) else after_response E it r (record_prompt E it s2)) = Continue s'"
    using assms(7) p h
    by (auto simp: loop_iteration_def s2_def [symmetric] Let_def split: if_splits service_reply.splits sum.splits)
  from after_prompt_ok [OF prompt(1-5) assms(6) this] show ?thesis .
qed

section \<open>Every request of a run\<close>

text \<open>A run that was cancelled stays cancelled.\<close>

definition stops_stay :: "iteration list \<Rightarrow> bool" where
  "stops_stay its \<longleftrightarrow> sorted (concat (map (\<lambda>it. [it_stop_start it, it_stop_prompt it, it_stop_answer it]) its))"

lemma stops_stay_Cons:
  "stops_stay (it # its) \<Longrightarrow> stops_stay its \<and> (it_stop_prompt it \<longrightarrow> it_stop_answer it) \<and> (it_stop_answer it \<longrightarrow> list_all it_stop_start its)"
proof -
  assume a: "stops_stay (it # its)"
  let ?r = "concat (map (\<lambda>it. [it_stop_start it, it_stop_prompt it, it_stop_answer it]) its)"
  have p: "it_stop_prompt it \<le> it_stop_answer it" and n: "\<forall>x \<in> set ?r. it_stop_answer it \<le> x" and s: "sorted ?r"
    using a by (simp_all only: stops_stay_def list.map concat.simps append.simps sorted_simps(2) list.set ball_simps simp_thms) blast+
  have "it_stop_answer it \<le> it_stop_start x" if "x \<in> set its" for x
    using n that by (intro bspec [OF n]) auto
  with p s show ?thesis by (auto simp: stops_stay_def list_all_iff)
qed

lemma stopped_run: "list_all it_stop_start its \<Longrightarrow> ls_sent (next_state (run_iterations E its s)) = ls_sent s"
  by (cases its) (simp_all add: loop_iteration_def)

lemma run_sends_ok:
  assumes "loop_ok E s" and "0 < le_inputLimit E" and "given (le_conversationId E)"
    and "list_all (\<lambda>it. id_ready (it_uuid it) (le_tabId E) (ls_db s)) its" and "stops_stay its"
    and "list_all (request_ok (le_pinned E)) (ls_sent s)"
  shows "list_all (request_ok (le_pinned E)) (ls_sent (next_state (run_iterations E its s)))"
  using assms
proof (induction its arbitrary: s)
  case (Cons it its)
  have sent: "list_all (request_ok (le_pinned E)) (ls_sent (next_state (loop_iteration E it s)))"
    using Cons.prems(1,2,6) loop_request_ok(4) [OF Cons.prems(1,2), of it]
    by (auto simp: iteration_sent split: option.split prod.split)
  note stay = stops_stay_Cons [OF Cons.prems(5)]
  show ?case
  proof (cases "loop_iteration E it s")
    case (Continue s')
    show ?thesis
    proof (cases "it_stop_answer it")
      case True
      then show ?thesis using stay sent Continue stopped_run [of its E s'] by simp
    next
      case False
      then have ok: "loop_ok E s' \<and> kept_messages (loop_messages E s') \<noteq> []"
        using stay Cons.prems(4) by (intro iteration_continues [OF Cons.prems(1-3) _ _ False Continue]) auto
      then have "mapped_history (ls_db s') (le_tabId E) \<noteq> None"
        by (intro stored_mapped) (auto simp: loop_ok_def chat_ready_def kept_messages_def)
      then have ids: "list_all (\<lambda>it. id_ready (it_uuid it) (le_tabId E) (ls_db s')) its"
        by (simp add: list_all_iff id_ready_mapped)
      show ?thesis
        using Cons.IH [OF _ Cons.prems(2,3) ids] ok stay sent Continue by simp
    qed
  qed (use sent in simp_all)
qed simp

definition loop_start :: "UserInputMessage \<Rightarrow> ChatDatabase \<Rightarrow> approvals \<Rightarrow> loop_state" where
  "loop_start u db approved = \<lparr>ls_message = u, ls_db = db, ls_shouldDisplay = True, ls_requestCount = 0, ls_incomplete = 0,
     ls_approved = approved, ls_sent = []\<rparr>"


text \<open>A run on an empty database: the input of a tool is cut off, then the request is answered.\<close>

definition sample_loop :: loop_env where
  "sample_loop = \<lparr>le_lengths = sample_lengths, le_json = sample_json, le_tabId = ''tab'', le_conversationId = Some ''c'', le_inputLimit = 1000,
     le_compactionThreshold = 100000, le_additionalContext = None, le_pinned = [], le_tools = sample_tools\<rparr>"

definition sample_iteration :: "service_reply \<Rightarrow> iteration" where
  "sample_iteration reply = \<lparr>it_uuid = ''u'', it_now = 7, it_stop_start = False, it_stop_prompt = False, it_stop_answer = False,
     it_reply = reply, it_world = refusing_world\<rparr>"

definition cut_off :: iteration where
  "cut_off = sample_iteration (Streamed ''m'' [(False, fragment_event ''{'' False)] False)"

definition answered :: iteration where
  "answered = sample_iteration (Streamed ''m'' [(False, text_event ''fixed'')] False)"

definition first_message :: UserInputMessage where
  "first_message = \<lparr>ui_content = Some ''fix it'', ui_userIntent = None, ui_origin = None, ui_context = Some (sample_context []), ui_images = None\<rparr>"


section \<open>Inputs that are cut off\<close>

definition reply_succeeds :: "loop_env \<Rightarrow> iteration \<Rightarrow> bool" where
  "reply_succeeds E it \<longleftrightarrow> (case processAgenticChatResponseWithTimeout (le_json E) (it_reply it) of Inl _ \<Rightarrow> False | Inr r \<Rightarrow> res_error r = None)"

definition reply_incomplete :: "loop_env \<Rightarrow> iteration \<Rightarrow> bool" where
  "reply_incomplete E it \<longleftrightarrow> (case processAgenticChatResponseWithTimeout (le_json E) (it_reply it) of Inl _ \<Rightarrow> False | Inr r \<Rightarrow> incomplete_input r)"

lemma next_request_counter: "next_request rs c s = Continue s' \<Longrightarrow> ls_incomplete s' = ls_incomplete s"
  by (auto simp: next_request_def split: option.splits)

lemma record_counter [simp]:
  "ls_incomplete (record_prompt E it s) = ls_incomplete s" "ls_incomplete (record_answer E it m s) = ls_incomplete s"
  by (simp_all add: record_prompt_def record_answer_def)

lemma answer_tools_counter: "answer_tools E it us s = Continue s' \<Longrightarrow> ls_incomplete s' = ls_incomplete s"
  by (auto simp: answer_tools_def Let_def dest!: next_request_counter split: tools_end.splits if_splits)

lemma answer_failure_counter:
  "answer_failure r e us s = Continue s' \<Longrightarrow>
     (if incomplete_input r then ls_incomplete s' = Suc (ls_incomplete s) \<and> ls_incomplete s' \<le> MAX_INCOMPLETE_TOOL_USE_RETRIES
      else ls_incomplete s' = ls_incomplete s)"
  by (auto simp: answer_failure_def Let_def dest!: next_request_counter split: if_splits)

lemma timed_out_complete: "timed_out r \<Longrightarrow> \<not> incomplete_input r \<and> res_error r \<noteq> None"
  by (auto simp: timed_out_def incomplete_input_def startsWith_prefix RESPONSE_TIMEOUT_PARTIAL_MSG_def prefix_def split: option.splits)

lemma after_response_counter:
  assumes "after_response E it r s = Continue s'"
  shows "(if res_error r = None then ls_incomplete s' = 0
    else if incomplete_input r then ls_incomplete s' = Suc (ls_incomplete s) \<and> ls_incomplete s' \<le> MAX_INCOMPLETE_TOOL_USE_RETRIES
    else ls_incomplete s' = ls_incomplete s)"
proof -
  define s1 where "s1 = (case res_data r of None \<Rightarrow> s | Some d \<Rightarrow> record_answer E it (response_answer it s d) s)"
  have "ls_incomplete s1 = ls_incomplete s" by (simp add: s1_def split: option.split)
  moreover have "case res_error r of None \<Rightarrow> answer_tools E it (getPendingToolUses (res_data r)) (s1\<lparr>ls_incomplete := 0\<rparr>) = Continue s'
      | Some e \<Rightarrow> answer_failure r e (getPendingToolUses (res_data r)) s1 = Continue s'"
    using assms by (auto simp: after_response_def s1_def [symmetric] Let_def split: if_splits option.splits)
  ultimately show ?thesis
    using answer_failure_counter [of r _ "getPendingToolUses (res_data r)" s1 s'] answer_tools_counter
    by (fastforce split: option.splits)
qed

lemma iteration_counter:
  assumes "loop_iteration E it s = Continue s'"
  shows "(if reply_succeeds E it then ls_incomplete s' = 0
    else if reply_incomplete E it then ls_incomplete s' = Suc (ls_incomplete s) \<and> ls_incomplete s' \<le> MAX_INCOMPLETE_TOOL_USE_RETRIES
    else ls_incomplete s' = ls_incomplete s)"
proof -
  obtain s1 h where p: "loop_request E it s = (s1, h)" by fastforce
  then have c: "ls_incomplete s1 = ls_incomplete s" by (auto simp: loop_request_def Let_def split: prod.splits sum.splits)
  obtain history where h: "h = Some history" using assms p by (cases h) (auto simp: loop_iteration_def split: if_splits)
  define s3 where "s3 = record_prompt E it (s1\<lparr>ls_sent := ls_sent s1 @ [(history, ls_message s1)]\<rparr>)"
  obtain r where r: "processAgenticChatResponseWithTimeout (le_json E) (it_reply it) = Inr r"
    "(if timed_out r then retry_timeout E it s3 else after_response E it r s3) = Continue s'"
    using assms p h
    by (auto simp: loop_iteration_def s3_def [symmetric] Let_def split: if_splits service_reply.splits sum.splits)
  have s3: "ls_incomplete s3 = ls_incomplete s" by (simp add: s3_def c)
  show ?thesis
  proof (cases "timed_out r")
    case True
    then have "ls_incomplete s' = ls_incomplete s"
      using r(2) s3 by (auto simp: retry_timeout_def dest!: next_request_counter)
    then show ?thesis using timed_out_complete [OF True] r(1) by (auto simp: reply_succeeds_def reply_incomplete_def)
  next
    case False
    then show ?thesis
      using after_response_counter [of E it r s3 s'] r s3 by (auto simp: reply_succeeds_def reply_incomplete_def split: if_splits)
  qed
qed

lemma run_snoc:
  "run_iterations E (its @ [it]) s = (case run_iterations E its s of Continue s' \<Rightarrow> loop_iteration E it s' | r \<Rightarrow> r)"
  by (induction its arbitrary: s) (auto split: loop_next.split)

text \<open>
  C34. Responses with incomplete tool inputs do not keep the agent loop running: while a run goes on, at most three responses since the
  last successful one were incomplete. Timeouts and other failures between them do not count and do not start the count again.
\<close>

theorem incomplete_inputs_bounded:
  assumes "run_iterations E its (loop_start u db approved) = Continue s'"
  shows "length (filter (reply_incomplete E) (takeWhile (\<lambda>it. \<not> reply_succeeds E it) (rev its))) \<le> MAX_INCOMPLETE_TOOL_USE_RETRIES"
proof -
  have "length (filter (reply_incomplete E) (takeWhile (\<lambda>it. \<not> reply_succeeds E it) (rev its))) \<le> ls_incomplete s' \<and>
      ls_incomplete s' \<le> MAX_INCOMPLETE_TOOL_USE_RETRIES"
    using assms
  proof (induction its arbitrary: s' rule: rev_induct)
    case Nil
    then show ?case by (auto simp: loop_start_def)
  next
    case (snoc it its)
    then obtain s1 where s1: "run_iterations E its (loop_start u db approved) = Continue s1" "loop_iteration E it s1 = Continue s'"
      by (auto simp: run_snoc split: loop_next.splits)
    show ?case
      using snoc.IH [OF s1(1)] iteration_counter [OF s1(2)] by (auto split: if_splits)
  qed
  then show ?thesis by simp
qed

definition three_cut_off :: loop_state where
  "three_cut_off = next_state (run_iterations sample_loop [cut_off, cut_off, cut_off] (loop_start first_message empty_chat_db []))"

theorem incomplete_inputs_bounded_witness:
  "length (filter (reply_incomplete sample_loop) (takeWhile (\<lambda>it. \<not> reply_succeeds sample_loop it) (rev [cut_off, cut_off, cut_off])))
     \<le> MAX_INCOMPLETE_TOOL_USE_RETRIES \<and> reply_incomplete sample_loop cut_off"
proof
  show "length (filter (reply_incomplete sample_loop) (takeWhile (\<lambda>it. \<not> reply_succeeds sample_loop it) (rev [cut_off, cut_off, cut_off])))
     \<le> MAX_INCOMPLETE_TOOL_USE_RETRIES"
  proof (rule incomplete_inputs_bounded)
    show "run_iterations sample_loop [cut_off, cut_off, cut_off] (loop_start first_message empty_chat_db []) = Continue three_cut_off"
      by code_simp
  qed
  show "reply_incomplete sample_loop cut_off" by code_simp
qed

text \<open>The fourth response in a row that is cut off ends the loop with the message for the user.\<close>

lemma fourth_cut_off_ends:
  "case run_iterations sample_loop (replicate 4 cut_off) (loop_start first_message empty_chat_db []) of
     Break (Some r) _ \<Rightarrow> res_error r = Some INCOMPLETE_TOOL_USE_RETRY_LIMIT_MSG
   | _ \<Rightarrow> False"
  by code_simp

text \<open>Timeouts are retried without a bound: after six of them in a row the loop still goes on, and none was counted.\<close>

lemma timeouts_not_counted:
  "case run_iterations sample_loop (replicate 6 (sample_iteration Too_long)) (loop_start first_message empty_chat_db []) of
     Continue s \<Rightarrow> length (ls_sent s) = 6 \<and> ls_incomplete s = 0
   | _ \<Rightarrow> False"
  by code_simp

section \<open>Compaction\<close>

lemma replaceWithSummary_messages:
  assumes "db_initialized db" and "mapped_history db tabId = Some h" and "fresh_id uuid' db"
  shows "getMessages (replaceWithSummary uuid uuid' now tabId tabType cid m db) tabId None = [formatChatHistoryMessage m, dummy_response now]"
proof -
  have f: "findTab db uuid' = None" "uuid' \<noteq> []" "uuid' \<noteq> h"
    using assms(2,3) map_get_values [of "db_historyIdMapping db" tabId h]
    by (auto simp: fresh_id_def mapped_history_def split: option.splits if_splits)
  define db3 where "db3 = insertTab (new_tab uuid' now tabType (tab_title m (map_option tb_title (findTab (setHistoryIdMapping tabId uuid' db) uuid')) ''Amazon Q Chat'')
      [\<lparr>cv_conversationId = cid, cv_clientType = text_or (Some (db_clientType db)) ''unknown'', cv_updatedAt = Some now,
         cv_messages = [formatChatHistoryMessage m, dummy_response now]\<rparr>] None) (setHistoryIdMapping tabId uuid' db)"
  have r: "replaceWithSummary uuid uuid' now tabId tabType cid m db = removeTabs h db3"
    using assms(1,2) mapped_history_nonempty [OF assms(2)]
    by (simp add: replaceWithSummary_def getOrCreateHistoryId_def createHistoryId_def Let_def db3_def)
  have k: "mapped_history (removeTabs h db3) tabId = Some uuid'" "db_initialized (removeTabs h db3)"
    using f(2) assms(1) by (simp_all add: db3_def removeTabs_def insertTab_def mapped_history_def setHistoryIdMapping_def jsmap.get_put)
  obtain t where "findTab (removeTabs h db3) uuid' = Some t" and "tab_messages t = [formatChatHistoryMessage m, dummy_response now]"
    using f tabs.find_insert [of "setHistoryIdMapping tabId uuid' db"] tabs.find_remove [of h db3]
    by (simp add: db3_def new_tab_def tab_messages_def)
  then show ?thesis by (simp add: r getMessages_all [OF k(2)] k(1))
qed

lemma addMessage_fresh:
  assumes "mapped_history db tabId = Some h" and "fresh_id u db"
  shows "fresh_id u (addMessage uuid now tabId tabType cid m db)"
proof -
  have "u \<noteq> h"
    using assms map_get_values [of "db_historyIdMapping db" tabId h]
    by (auto simp: fresh_id_def mapped_history_def split: option.splits if_splits)
  moreover have "findTab (addMessage uuid now tabId tabType cid m db) u = findTab db u" if "u \<noteq> h"
  proof (cases "db_initialized db")
    case True
    obtain v where v: "fresh_id v db" "addMessage uuid now tabId tabType cid m db = addMessage v now tabId tabType cid m db"
      using addMessage_any_id [OF id_ready_mapped, of db tabId uuid now tabType cid] assms(1) by (metis option.distinct(1))
    have "getOrCreateHistoryId v tabId db = (h, db)" using assms(1) by (simp add: getOrCreateHistoryId_def)
    then show ?thesis using addMessage_find(1) [OF True v(1)] that by (simp add: v(2))
  qed (simp add: addMessage_def)
  moreover have "db_historyIdMapping (addMessage uuid now tabId tabType cid m db) = db_historyIdMapping db"
    using assms(1) by (simp add: addMessage_def getOrCreateHistoryId_def Let_def updateTab_def insertTab_def split: option.split)
  ultimately show ?thesis using assms(2) by (simp add: fresh_id_def)
qed

lemma fixAndGet_fresh:
  assumes "chat_ready tabId cid db" and "fixAndGetHistory J uuid now tabId newMsg pinned db = (db1, newMsg1, r)" and "fresh_id u db"
  shows "fresh_id u db1"
proof -
  have init: "db_initialized db" using assms(1) by (simp add: chat_ready_def)
  have "fresh_id u (snd (ensureValidMessageSequence uuid now tabId (getMessages db tabId None) db))" if "getMessages db tabId None \<noteq> []"
    using stored_mapped [OF init that] addMessage_fresh assms(3) by (auto simp: ensureValidMessageSequence_def Let_def)
  then show ?thesis
    using fixAndGet_db [of J uuid now tabId newMsg pinned db] assms(2,3) by (auto split: if_splits)
qed

text \<open>
  C35. A compaction that got a response, also one that failed, leaves the summary and a placeholder answer as the only messages of the tab.
  They alternate, so the next request can be prepared; with an empty summary the history of that request is empty, otherwise
  it is the summary.
\<close>

theorem compaction_replaces_history:
  assumes "chat_ready (le_tabId E) cid db" and "fresh_id (cp_newHistoryId c) db"
    and "runCompaction E c db = (db', Inr (Response_result r))" and "res_data r = Some d"
  shows "getMessages db' (le_tabId E) None = [formatChatHistoryMessage (summary_prompt (cp_now c) (cm_body d)), dummy_response (cp_now c)] \<and>
     turns_ok (getMessages db' (le_tabId E) None) \<and>
     repaired now (getMessages db' (le_tabId E) None) = (if cm_body d = [] then [] else getMessages db' (le_tabId E) None)"
proof -
  obtain db1 newMsg q where f: "fixAndGetHistory (le_lengths E) (cp_uuid c) (cp_now c) (le_tabId E) (User_message (cp_message c)) [] db = (db1, newMsg, q)"
    using prod_cases3 by blast
  then obtain mc where q: "q = Inr mc" "mc_history mc \<noteq> []"
    and db': "db' = replaceWithSummary (cp_uuid c) (cp_newHistoryId c) (cp_now c) (le_tabId E) ''cwc'' (loop_conversation E)
      (summary_prompt (cp_now c) (cm_body d)) db1"
    using assms(3,4) by (auto simp: runCompaction_def split: if_splits sum.splits)
  note ready = fixAndGet_ready [OF assms(1) f]
  have "getMessages db (le_tabId E) None \<noteq> []"
    using fixAndGet_history(1) [OF f [unfolded q(1)]] assms(1) q(2) by (auto simp: chat_ready_def)
  then have "getMessages db1 (le_tabId E) None \<noteq> []" by (auto simp: ready(2) closed_by_def)
  then obtain h where "mapped_history db1 (le_tabId E) = Some h"
    using stored_mapped ready(1) by (auto simp: chat_ready_def)
  then have m: "getMessages db' (le_tabId E) None = [formatChatHistoryMessage (summary_prompt (cp_now c) (cm_body d)), dummy_response (cp_now c)]"
    unfolding db' using ready(1) fixAndGet_fresh [OF assms(1) f assms(2)] by (intro replaceWithSummary_messages) (simp_all add: chat_ready_def)
  then show ?thesis
    by (auto simp: turns_ok_def repaired_def kept_messages_def formatChatHistoryMessage_def summary_prompt_def bare_message_def Let_def
        isValidUserMessageWithoutToolResults_def toolResults_of_def listed_def)
qed

text \<open>A compaction of one turn, and one whose response reports an error: it still replaces the history, with nothing.\<close>

definition sample_compaction :: "(bool \<times> ChatEvent) list \<Rightarrow> compaction" where
  "sample_compaction evs = \<lparr>cp_approved = True, cp_stop = False, cp_uuid = ''v'', cp_newHistoryId = ''w'', cp_now = 9,
     cp_message = first_message, cp_reply = Streamed ''m'' evs False\<rparr>"

definition one_turn_db :: ChatDatabase where
  "one_turn_db = ls_db (next_state (run_iterations sample_loop [answered] (loop_start first_message empty_chat_db [])))"

definition summary_result :: chat_result where
  "summary_result = projr (processAgenticChatResponse sample_json ''m'' [(False, text_event ''summary'')] False)"

theorem compaction_replaces_history_witness:
  "getMessages (fst (runCompaction sample_loop (sample_compaction [(False, text_event ''summary'')]) one_turn_db)) (le_tabId sample_loop) None =
     [formatChatHistoryMessage (summary_prompt (cp_now (sample_compaction [(False, text_event ''summary'')])) (cm_body (the (res_data summary_result)))),
      dummy_response (cp_now (sample_compaction [(False, text_event ''summary'')]))]"
proof (rule conjunct1 [OF compaction_replaces_history [where cid = "''c''" and db = one_turn_db and r = summary_result]])
  show "runCompaction sample_loop (sample_compaction [(False, text_event ''summary'')]) one_turn_db =
      (fst (runCompaction sample_loop (sample_compaction [(False, text_event ''summary'')]) one_turn_db), Inr (Response_result summary_result))"
    by code_simp
qed code_simp+

definition failed_compaction :: "ChatDatabase \<times> (loop_error + loop_result)" where
  "failed_compaction = runCompaction sample_loop (sample_compaction [(False, plain_event\<lparr>ev_error := Some ''throttled''\<rparr>)]) one_turn_db"

lemma failed_compaction_loses_history:
  "kept_messages (getMessages one_turn_db ''tab'' None) \<noteq> []"
  "kept_messages (getMessages (fst failed_compaction) ''tab'' None) = []"
  by code_simp+

end
