(* ===== verification/Chat_Stream.thy ===== *)
theory Chat_Stream
  imports Chat_Events Chat_Repair
begin

text \<open>
  The stream of results shown to the client (\<^verbatim>\<open>agenticChat/agenticChatResultStream.ts\<close>): blocks that are written, overwritten and removed, joined
  into one message with additional messages, and the writers that stream one block. Everything sent to the client is kept in order.
\<close>

section \<open>Blocks\<close>

record FileList =
  fl_filePaths :: "string list"
  fl_rootFolderTitle :: "string option"
  fl_details :: "(string \<times> string) list"

record card_status =
  cs_status :: string
  cs_icon :: string
  cs_text :: string

record card_header =
  ch_body :: "string option"
  ch_status :: "card_status option"

record ChatBlock =
  cb_messageId :: "string option"
  cb_type :: "string option"
  cb_body :: "string option"
  cb_buttons :: "string list option"
  cb_header :: "card_header option"
  cb_contextList :: "FileList option"
  cb_fileList :: "FileList option"
  cb_codeReference :: "string list option"

record JoinedResult =
  jr_messageId :: string
  jr_body :: string
  jr_buttons :: "string list option"
  jr_header :: "card_header option"
  jr_contextList :: "FileList option"
  jr_fileList :: "FileList option"
  jr_codeReference :: "string list option"
  jr_additionalMessages :: "ChatBlock list"

definition bare_block :: "string option \<Rightarrow> string option \<Rightarrow> ChatBlock" where
  "bare_block i b = \<lparr>cb_messageId = i, cb_type = None, cb_body = b, cb_buttons = None, cb_header = None, cb_contextList = None, cb_fileList = None,
     cb_codeReference = None\<rparr>"

datatype progress = Sent_result JoinedResult | Sent_block ChatBlock

text \<open>The state, with the last result of every writer that was handed out.\<close>

record AgenticChatResultStream =
  rs_blocks :: "ChatBlock list"
  rs_isLocked :: bool
  rs_uuid :: string
  rs_messageId :: "string option"
  rs_writers :: "ChatBlock option list"
  rs_sent :: "progress list"

section \<open>Joining blocks\<close>

definition delimited :: "string option \<Rightarrow> string" where
  "delimited b = (if given b then CHR 0x0A # the b else [])"

definition join_lists :: "'a list option \<Rightarrow> 'a list option \<Rightarrow> 'a list option" where
  "join_lists xs ys = Some (listed xs @ listed ys)"

text \<open>The list of the whole result and the one of a block; the list the message had before does not enter.\<close>

definition merge_files :: "FileList option \<Rightarrow> FileList option \<Rightarrow> FileList option" where
  "merge_files a c =
     Some \<lparr>fl_filePaths = listed (map_option fl_filePaths a) @ listed (map_option fl_filePaths c),
           fl_rootFolderTitle = (if given (Option.bind c fl_rootFolderTitle) then Option.bind c fl_rootFolderTitle
                                 else Some (or_empty (Option.bind a fl_rootFolderTitle))),
           fl_details = fold (\<lambda>(k, v). map_set k v) (listed (map_option fl_details c)) (listed (map_option fl_details a))\<rparr>"

definition merge_block :: "JoinedResult \<Rightarrow> ChatBlock \<Rightarrow> ChatBlock \<Rightarrow> ChatBlock" where
  "merge_block acc c am =
     (if cb_messageId am = cb_messageId c
      then am\<lparr>cb_buttons := join_lists (cb_buttons am) (cb_buttons c),
              cb_body := Some (template (cb_body am) @ delimited (cb_body c)),
              cb_contextList := (if cb_type c \<noteq> Some ''tool'' \<and> (cb_contextList c \<noteq> None \<or> jr_contextList acc \<noteq> None)
                                 then merge_files (jr_contextList acc) (cb_contextList c) else cb_contextList am),
              cb_fileList := (if cb_fileList c \<noteq> None \<or> jr_fileList acc \<noteq> None
                              then merge_files (jr_fileList acc) (cb_fileList c) else cb_fileList am),
              cb_header := (if cb_header c \<noteq> None then cb_header c else cb_header am)\<rparr>
      else am)"

definition join_step :: "string option \<Rightarrow> JoinedResult \<Rightarrow> ChatBlock \<Rightarrow> JoinedResult" where
  "join_step main acc c =
     (if cb_messageId c = main
      then acc\<lparr>jr_buttons := join_lists (jr_buttons acc) (cb_buttons c),
               jr_body := jr_body acc @ delimited (cb_body c),
               jr_contextList := (if cb_contextList c \<noteq> None \<and> cb_type c \<noteq> Some ''tool'' then cb_contextList c else jr_contextList acc),
               jr_header := (if cb_header c \<noteq> None then cb_header c else jr_header acc),
               jr_codeReference := join_lists (jr_codeReference acc) (cb_codeReference c)\<rparr>
      else if list_ex (\<lambda>am. cb_messageId am = cb_messageId c) (jr_additionalMessages acc)
      then acc\<lparr>jr_additionalMessages := map (merge_block acc c) (jr_additionalMessages acc)\<rparr>
      else acc\<lparr>jr_additionalMessages := jr_additionalMessages acc @ [c]\<rparr>)"

definition empty_result :: "AgenticChatResultStream \<Rightarrow> JoinedResult" where
  "empty_result s = \<lparr>jr_messageId = (if given (rs_messageId s) then the (rs_messageId s) else rs_uuid s), jr_body = [], jr_buttons = None,
     jr_header = None, jr_contextList = None, jr_fileList = None, jr_codeReference = None, jr_additionalMessages = []\<rparr>"

definition joinResults :: "AgenticChatResultStream \<Rightarrow> ChatBlock list \<Rightarrow> string option \<Rightarrow> JoinedResult" where
  "joinResults s blocks only =
     foldl (join_step (rs_messageId s)) (empty_result s)
       (filter (\<lambda>c. cb_messageId c = rs_messageId s \<or> only = None \<or> only = cb_messageId c) blocks)"

definition stream_getResult :: "AgenticChatResultStream \<Rightarrow> string option \<Rightarrow> JoinedResult" where
  "stream_getResult s only = joinResults s (rs_blocks s) only"

section \<open>Operations\<close>

definition send :: "progress \<Rightarrow> AgenticChatResultStream \<Rightarrow> AgenticChatResultStream" where
  "send p s = s\<lparr>rs_sent := rs_sent s @ [p]\<rparr>"

definition send_message :: "string option \<Rightarrow> AgenticChatResultStream \<Rightarrow> AgenticChatResultStream" where
  "send_message i s = send (Sent_result (stream_getResult s i)) s"

definition writeResultBlock :: "ChatBlock \<Rightarrow> AgenticChatResultStream \<Rightarrow> AgenticChatResultStream \<times> nat" where
  "writeResultBlock b s =
     (let s1 = s\<lparr>rs_blocks := rs_blocks s @ [b]\<rparr> in (send_message (cb_messageId b) s1, length (rs_blocks s1) - 1))"

text \<open>An id from a write is a place of the list; one past its end adds the block, a later one would leave a gap and is not modelled.\<close>

definition overwriteResultBlock :: "ChatBlock \<Rightarrow> nat \<Rightarrow> AgenticChatResultStream \<Rightarrow> AgenticChatResultStream option" where
  "overwriteResultBlock b blockId s =
     (if blockId < length (rs_blocks s) then Some (send_message (cb_messageId b) (s\<lparr>rs_blocks := (rs_blocks s)[blockId := b]\<rparr>))
      else if blockId = length (rs_blocks s) then Some (send_message (cb_messageId b) (s\<lparr>rs_blocks := rs_blocks s @ [b]\<rparr>))
      else None)"

definition removeResultBlock :: "string option \<Rightarrow> AgenticChatResultStream \<Rightarrow> AgenticChatResultStream" where
  "removeResultBlock i s = s\<lparr>rs_blocks := filter (\<lambda>b. cb_messageId b \<noteq> i) (rs_blocks s)\<rparr>"

definition hasMessage :: "string option \<Rightarrow> AgenticChatResultStream \<Rightarrow> bool" where
  "hasMessage i s \<longleftrightarrow> list_ex (\<lambda>b. cb_messageId b = i) (rs_blocks s)"

definition getMessageBlockId :: "string option \<Rightarrow> AgenticChatResultStream \<Rightarrow> nat option" where
  "getMessageBlockId i s =
     (if hasMessage i s then Some (length (takeWhile (\<lambda>b. cb_messageId b \<noteq> i) (rs_blocks s))) else None)"

definition getLastMessage :: "AgenticChatResultStream \<Rightarrow> ChatBlock option" where
  "getLastMessage s = (if rs_blocks s = [] then None else Some (last (rs_blocks s)))"

definition overwrite_found :: "ChatBlock \<Rightarrow> nat option \<Rightarrow> AgenticChatResultStream \<Rightarrow> AgenticChatResultStream" where
  "overwrite_found b k s = (case Option.bind k (\<lambda>k. overwriteResultBlock b k s) of None \<Rightarrow> s | Some s' \<Rightarrow> s')"

definition removeResultBlockAndUpdateUI :: "string option \<Rightarrow> AgenticChatResultStream \<Rightarrow> AgenticChatResultStream" where
  "removeResultBlockAndUpdateUI i s =
     (if hasMessage i s then removeResultBlock i (overwrite_found (bare_block i (Some [])) (getMessageBlockId i s) s) else s)"

definition progressPrefix :: string where "progressPrefix = ''progress_''"

definition in_progress :: "ChatBlock \<Rightarrow> bool" where
  "in_progress b \<longleftrightarrow> (case cb_messageId b of None \<Rightarrow> False | Some i \<Rightarrow> startsWith i progressPrefix) \<and>
     map_option cs_icon (Option.bind (cb_header b) ch_status) = Some ''progress''"

definition updateOngoingProgressResult :: "string \<Rightarrow> AgenticChatResultStream \<Rightarrow> AgenticChatResultStream" where
  "updateOngoingProgressResult message s =
     (case List.find in_progress (rs_blocks s) of
        None \<Rightarrow> s
      | Some b \<Rightarrow>
          fst (writeResultBlock
            (b\<lparr>cb_header := map_option (\<lambda>h. h\<lparr>ch_status := Some \<lparr>cs_status = ''error'', cs_icon = ''error'', cs_text = message\<rparr>\<rparr>) (cb_header b),
               cb_messageId := map_option (drop (length progressPrefix)) (cb_messageId b)\<rparr>)
            (removeResultBlockAndUpdateUI (cb_messageId b) s)))"

definition updateProgressMessage :: "string \<Rightarrow> AgenticChatResultStream \<Rightarrow> AgenticChatResultStream" where
  "updateProgressMessage message s =
     (case List.find in_progress (rs_blocks s) of
        None \<Rightarrow> s
      | Some b \<Rightarrow>
          overwrite_found
            (b\<lparr>cb_header := map_option (\<lambda>h. h\<lparr>ch_status := map_option (\<lambda>st. st\<lparr>cs_text := message\<rparr>) (ch_status h)\<rparr>) (cb_header b)\<rparr>)
            (getMessageBlockId (cb_messageId b) s) s)"

section \<open>Writers\<close>

definition getResultStreamWriter :: "AgenticChatResultStream \<Rightarrow> string + AgenticChatResultStream \<times> nat" where
  "getResultStreamWriter s =
     (if rs_isLocked s then Inl ''AgenticChatResultStream: already locked''
      else Inr (s\<lparr>rs_isLocked := True, rs_writers := rs_writers s @ [None]\<rparr>, length (rs_writers s)))"

definition stream_write :: "nat \<Rightarrow> ChatBlock \<Rightarrow> AgenticChatResultStream \<Rightarrow> AgenticChatResultStream" where
  "stream_write w b s =
     (if (case cb_messageId b of None \<Rightarrow> False | Some i \<Rightarrow> startsWith i ''loading-'') then send (Sent_block b) s
      else let s1 = s\<lparr>rs_messageId := cb_messageId b\<rparr>
           in send (Sent_result (joinResults s1 (rs_blocks s1 @ [b]) (cb_messageId b))) (s1\<lparr>rs_writers := (rs_writers s1)[w := Some b]\<rparr>))"

definition stream_close :: "nat \<Rightarrow> AgenticChatResultStream \<Rightarrow> AgenticChatResultStream" where
  "stream_close w s =
     (if \<not> rs_isLocked s then s
      else s\<lparr>rs_blocks := (case rs_writers s ! w of None \<Rightarrow> rs_blocks s | Some b \<Rightarrow> rs_blocks s @ [b]), rs_isLocked := False\<rparr>)"

section \<open>What the client sees\<close>

text \<open>Every id once, in the order of its first block.\<close>

definition first_ids :: "'a list \<Rightarrow> 'a list" where
  "first_ids xs = foldl (\<lambda>acc x. if x \<in> set acc then acc else acc @ [x]) [] xs"

text \<open>The text of a message: the body of its first block, then the bodies of the later ones on lines of their own.\<close>

definition message_text :: "string option list \<Rightarrow> string option" where
  "message_text bs = (case bs of [] \<Rightarrow> None | b # cs \<Rightarrow> if cs = [] then b else Some (template b @ concat (map delimited cs)))"

lemma message_text_snoc: "bs \<noteq> [] \<Longrightarrow> message_text (bs @ [b]) = Some (template (message_text bs) @ delimited b)"
  by (cases bs) (auto simp: message_text_def template_def)

lemma first_ids_snoc: "first_ids (xs @ [x]) = (if x \<in> set (first_ids xs) then first_ids xs else first_ids xs @ [x])"
  by (simp add: first_ids_def)

lemma first_ids_set [simp]: "set (first_ids xs) = set xs"
  by (induction xs rule: rev_induct) (auto simp: first_ids_snoc, simp add: first_ids_def)

lemma merge_block_id [simp]: "cb_messageId (merge_block acc c am) = cb_messageId am"
  by (simp add: merge_block_def)

definition texts_of :: "string option \<Rightarrow> ChatBlock list \<Rightarrow> string option list" where
  "texts_of i bs = map cb_body (filter (\<lambda>b. cb_messageId b = i) bs)"

definition other_ids :: "string option \<Rightarrow> ChatBlock list \<Rightarrow> string option list" where
  "other_ids main bs = first_ids (filter (\<lambda>i. i \<noteq> main) (map cb_messageId bs))"

lemma texts_of_snoc: "texts_of i (bs @ [c]) = (if cb_messageId c = i then texts_of i bs @ [cb_body c] else texts_of i bs)"
  by (simp add: texts_of_def)

lemma other_ids_snoc:
  "other_ids main (bs @ [c]) = (if cb_messageId c = main \<or> cb_messageId c \<in> set (other_ids main bs) then other_ids main bs
     else other_ids main bs @ [cb_messageId c])"
  by (auto simp: other_ids_def first_ids_snoc)

lemma texts_of_other: "i \<in> set (other_ids main bs) \<Longrightarrow> texts_of i bs \<noteq> []"
  by (auto simp: other_ids_def texts_of_def filter_empty_conv)

lemma joined_blocks:
  assumes "acc = foldl (join_step main) (empty_result s) bs"
  shows "jr_body acc = concat (map delimited (texts_of main bs)) \<and>
     map cb_messageId (jr_additionalMessages acc) = other_ids main bs \<and>
     map cb_body (jr_additionalMessages acc) = map (\<lambda>i. message_text (texts_of i bs)) (other_ids main bs)"
  using assms
proof (induction bs arbitrary: acc rule: rev_induct)
  case Nil
  then show ?case by (simp add: empty_result_def texts_of_def other_ids_def first_ids_def)
next
  case (snoc c bs)
  define a where "a = foldl (join_step main) (empty_result s) bs"
  note IH = snoc.IH [OF a_def]
  have acc: "acc = join_step main a c" using snoc.prems by (simp add: a_def)
  have ids: "(\<exists>am \<in> set (jr_additionalMessages a). cb_messageId am = cb_messageId c) \<longleftrightarrow> cb_messageId c \<in> set (other_ids main bs)"
    using IH by (metis (no_types, lifting) imageE imageI list.set_map)
  consider (main) "cb_messageId c = main" | (old) "cb_messageId c \<noteq> main" "cb_messageId c \<in> set (other_ids main bs)"
    | (new) "cb_messageId c \<noteq> main" "cb_messageId c \<notin> set (other_ids main bs)" by blast
  then show ?case
  proof cases
    case main
    have "main \<notin> set (other_ids main bs)" by (simp add: other_ids_def)
    then show ?thesis using IH main by (auto simp: acc join_step_def texts_of_snoc other_ids_snoc)
  next
    case old
    define ys where "ys = map (merge_block a c) (jr_additionalMessages a)"
    have acc': "acc = a\<lparr>jr_additionalMessages := ys\<rparr>"
      using old ids by (simp add: acc join_step_def list_ex_iff ys_def)
    have "map cb_body ys = map (\<lambda>(i, b). if i = cb_messageId c then Some (template b @ delimited (cb_body c)) else b)
          (zip (map cb_messageId (jr_additionalMessages a)) (map cb_body (jr_additionalMessages a)))"
      by (simp add: ys_def zip_map_map map_zip_map2 zip_same_conv_map merge_block_def)
    also have "\<dots> = map (\<lambda>i. message_text (texts_of i (bs @ [c]))) (other_ids main bs)"
      using IH texts_of_other [of _ main bs] by (auto simp: zip_map2 zip_same_conv_map texts_of_snoc message_text_snoc)
    finally have bodies: "map cb_body ys = map (\<lambda>i. message_text (texts_of i (bs @ [c]))) (other_ids main bs)" .
    have "map cb_messageId ys = map cb_messageId (jr_additionalMessages a)"
      by (simp add: ys_def)
    with bodies show ?thesis
      using IH old by (simp add: acc' other_ids_snoc texts_of_snoc)
  next
    case new
    then have acc': "acc = a\<lparr>jr_additionalMessages := jr_additionalMessages a @ [c]\<rparr>"
      using ids by (auto simp: acc join_step_def list_ex_iff)
    have "cb_messageId c \<notin> cb_messageId ` set bs" using new by (auto simp: other_ids_def)
    then have "texts_of (cb_messageId c) bs = []"
      by (simp add: texts_of_def filter_empty_conv) (metis imageI)
    then show ?thesis
      using IH new by (auto simp: acc' texts_of_snoc other_ids_snoc message_text_def)
  qed
qed

text \<open>
  C37. The joined result has one message for every message id: the main message has the bodies of its blocks, each on a line of its own, and there is one
  additional message for every other id among the blocks asked for, in the order in which the ids first appear, whose text is
  that of its blocks in their order.
\<close>

theorem joined_message:
  assumes "bs = filter (\<lambda>b. cb_messageId b = rs_messageId s \<or> only = None \<or> only = cb_messageId b) (rs_blocks s)"
  shows "jr_body (stream_getResult s only) = concat (map delimited (texts_of (rs_messageId s) bs)) \<and>
     map cb_messageId (jr_additionalMessages (stream_getResult s only)) = other_ids (rs_messageId s) bs \<and>
     map cb_body (jr_additionalMessages (stream_getResult s only)) = map (\<lambda>i. message_text (texts_of i bs)) (other_ids (rs_messageId s) bs)"
  unfolding stream_getResult_def joinResults_def assms [symmetric] by (rule joined_blocks [OF refl])

definition sample_stream_state :: AgenticChatResultStream where
  "sample_stream_state = \<lparr>rs_blocks = [bare_block (Some ''m'') (Some ''one''), bare_block (Some ''t'') (Some ''card''), bare_block (Some ''m'') (Some ''two''),
     bare_block (Some ''t'') (Some ''more'')], rs_isLocked = False, rs_uuid = ''u'', rs_messageId = Some ''m'', rs_writers = [], rs_sent = []\<rparr>"

theorem joined_message_witness:
  "jr_body (stream_getResult sample_stream_state None) = concat (map delimited [Some ''one'', Some ''two'']) \<and>
   map cb_messageId (jr_additionalMessages (stream_getResult sample_stream_state None)) = [Some ''t''] \<and>
   map cb_body (jr_additionalMessages (stream_getResult sample_stream_state None)) = [message_text [Some ''card'', Some ''more'']]"
proof -
  have e: "texts_of (rs_messageId sample_stream_state) (rs_blocks sample_stream_state) = [Some ''one'', Some ''two'']"
    "other_ids (rs_messageId sample_stream_state) (rs_blocks sample_stream_state) = [Some ''t'']"
    "texts_of (Some ''t'') (rs_blocks sample_stream_state) = [Some ''card'', Some ''more'']"
    by code_simp+
  have "rs_blocks sample_stream_state =
      filter (\<lambda>b. cb_messageId b = rs_messageId sample_stream_state \<or> None = (None :: string option) \<or> None = cb_messageId b) (rs_blocks sample_stream_state)"
    by simp
  from joined_message [OF this] show ?thesis unfolding e by (simp add: e)
qed

section \<open>Streaming a block\<close>

definition stream_all :: "nat \<Rightarrow> ChatBlock list \<Rightarrow> AgenticChatResultStream \<Rightarrow> AgenticChatResultStream" where
  "stream_all w bs s = foldl (\<lambda>s b. stream_write w b s) s bs"

definition loading :: "ChatBlock \<Rightarrow> bool" where
  "loading b \<longleftrightarrow> (case cb_messageId b of None \<Rightarrow> False | Some i \<Rightarrow> startsWith i ''loading-'')"

lemma stream_write_loading: "loading b \<Longrightarrow> stream_write w b s = send (Sent_block b) s"
  by (simp add: stream_write_def loading_def)

lemma stream_write_block:
  "\<not> loading b \<Longrightarrow> stream_write w b s =
     (s\<lparr>rs_messageId := cb_messageId b, rs_writers := (rs_writers s)[w := Some b],
        rs_sent := rs_sent s @ [Sent_result (joinResults (s\<lparr>rs_messageId := cb_messageId b\<rparr>) (rs_blocks s @ [b]) (cb_messageId b))]\<rparr>)"
  by (simp add: stream_write_def loading_def send_def Let_def)

lemma stream_all_keeps:
  "rs_blocks (stream_all w bs s) = rs_blocks s" "rs_isLocked (stream_all w bs s) = rs_isLocked s"
  "length (rs_writers (stream_all w bs s)) = length (rs_writers s)" "rs_uuid (stream_all w bs s) = rs_uuid s"
proof -
  have step: "rs_blocks (stream_write w b s) = rs_blocks s \<and> rs_isLocked (stream_write w b s) = rs_isLocked s \<and>
      length (rs_writers (stream_write w b s)) = length (rs_writers s) \<and> rs_uuid (stream_write w b s) = rs_uuid s" for b s
    by (cases "loading b") (simp_all add: stream_write_loading stream_write_block send_def)
  show "rs_blocks (stream_all w bs s) = rs_blocks s" "rs_isLocked (stream_all w bs s) = rs_isLocked s"
    "length (rs_writers (stream_all w bs s)) = length (rs_writers s)" "rs_uuid (stream_all w bs s) = rs_uuid s"
    unfolding stream_all_def by (induction bs arbitrary: s) (simp_all add: step)
qed

lemma joinResults_state: "rs_messageId s = rs_messageId s' \<Longrightarrow> rs_uuid s = rs_uuid s' \<Longrightarrow> joinResults s bs only = joinResults s' bs only"
  by (simp add: joinResults_def empty_result_def)

text \<open>
  C36. Streaming a block and closing the writer amounts to adding the last version of the block: the other blocks stay, the stream can be written again, and
  the last result the client was sent is the one the stored blocks give for the message. Loading indicators sent before
  leave no trace.
\<close>

theorem streamed_block_kept:
  assumes "getResultStreamWriter s = Inr (s1, w)" and "s' = stream_close w (stream_all w (bs @ [b]) s1)" and "\<not> loading b"
  shows "rs_blocks s' = rs_blocks s @ [b] \<and> getResultStreamWriter s' \<noteq> Inl ''AgenticChatResultStream: already locked'' \<and>
     last (rs_sent s') = Sent_result (stream_getResult s' (cb_messageId b))"
proof -
  have s1: "s1 = s\<lparr>rs_isLocked := True, rs_writers := rs_writers s @ [None]\<rparr>" and w: "w = length (rs_writers s)"
    using assms(1) by (auto simp: getResultStreamWriter_def split: if_splits)
  define s2 where "s2 = stream_all w bs s1"
  have s2: "rs_blocks s2 = rs_blocks s" "rs_isLocked s2" "length (rs_writers s2) = Suc w" "rs_uuid s2 = rs_uuid s"
    unfolding s2_def by (simp_all add: stream_all_keeps s1 w)
  have "stream_all w (bs @ [b]) s1 = stream_write w b s2" by (simp add: stream_all_def s2_def)
  then have s': "s' = stream_close w (stream_write w b s2)" using assms(2) by simp
  show ?thesis
    using s2 unfolding s' stream_write_block [OF assms(3)]
    by (auto simp: stream_close_def getResultStreamWriter_def stream_getResult_def intro!: joinResults_state)
qed

theorem streamed_block_kept_witness:
  "last (rs_sent (stream_close 0 (stream_all 0 [bare_block (Some ''loading-1'') None, bare_block (Some ''a'') (Some ''hi'')]
      (sample_stream_state\<lparr>rs_isLocked := True, rs_writers := [None]\<rparr>)))) =
   Sent_result (stream_getResult (stream_close 0 (stream_all 0 [bare_block (Some ''loading-1'') None, bare_block (Some ''a'') (Some ''hi'')]
      (sample_stream_state\<lparr>rs_isLocked := True, rs_writers := [None]\<rparr>))) (cb_messageId (bare_block (Some ''a'') (Some ''hi''))))"
  by (rule conjunct2 [OF conjunct2 [OF streamed_block_kept [where s = sample_stream_state and bs = "[bare_block (Some ''loading-1'') None]"]]])
    (simp_all add: getResultStreamWriter_def sample_stream_state_def bare_block_def loading_def startsWith_def)

text \<open>
  A writer that was closed can still be written: the client sees the text, but closing the writer again does not store it, so it is
  missing from every later result. The controller closes its writer in the middle of a response to show the card of a file.
\<close>

lemma text_after_close_lost:
  assumes "\<not> rs_isLocked s" and "\<not> loading b"
  shows "rs_blocks (stream_close w (stream_write w b s)) = rs_blocks s"
    and "last (rs_sent (stream_write w b s)) = Sent_result (joinResults (s\<lparr>rs_messageId := cb_messageId b\<rparr>) (rs_blocks s @ [b]) (cb_messageId b))"
  using assms by (simp_all add: stream_close_def stream_write_block)

section \<open>Blocks by their ids\<close>

lemma written_block: "rs_blocks (fst (writeResultBlock b s)) ! snd (writeResultBlock b s) = b"
  by (simp add: writeResultBlock_def Let_def send_message_def send_def nth_append)

lemma overwrite_other:
  assumes "overwriteResultBlock b k s = Some s'" and "j < length (rs_blocks s)" and "j \<noteq> k"
  shows "rs_blocks s' ! j = rs_blocks s ! j"
  using assms by (auto simp: overwriteResultBlock_def send_message_def send_def nth_append split: if_splits)

lemma removed_message: "\<not> hasMessage i (removeResultBlockAndUpdateUI i s)"
  by (auto simp: removeResultBlockAndUpdateUI_def hasMessage_def removeResultBlock_def list_ex_iff)

text \<open>A tool in progress that failed is shown as failed under its own id, and not in progress any more.\<close>

lemma failed_progress:
  assumes "List.find in_progress (rs_blocks s) = Some b" and "cb_messageId b = Some (progressPrefix @ i)"
  shows "\<exists>b'. last (rs_blocks (updateOngoingProgressResult message s)) = b' \<and> cb_messageId b' = Some i \<and>
     map_option cs_icon (Option.bind (cb_header b') ch_status) = Some ''error''"
proof -
  have "in_progress b" using assms(1) by (auto simp: find_Some_iff)
  then obtain h where "cb_header b = Some h" by (cases "cb_header b") (auto simp: in_progress_def)
  then show ?thesis using assms by (simp add: updateOngoingProgressResult_def writeResultBlock_def send_message_def send_def Let_def)
qed

text \<open>
  When several blocks of a message carry files, the joined message only keeps those of the last one, and a message whose first block has no
  body starts with the word for a missing value.
\<close>

definition file_block :: "string \<Rightarrow> ChatBlock" where
  "file_block f = (bare_block (Some ''t'') None)\<lparr>cb_fileList := Some \<lparr>fl_filePaths = [f], fl_rootFolderTitle = None, fl_details = []\<rparr>\<rparr>"

lemma earlier_files_lost:
  "map (\<lambda>m. (cb_body m, map_option fl_filePaths (cb_fileList m)))
     (jr_additionalMessages (stream_getResult (sample_stream_state\<lparr>rs_blocks := [file_block ''a.ts'', file_block ''b.ts'']\<rparr>) None)) =
   [(Some ''undefined'', Some [''b.ts''])]"
  by code_simp

end
