(* ===== verification/Chat_Errors.thy ===== *)
theory Chat_Errors
  imports File_Tools
begin

text \<open>
  The errors of the agentic chat (\<^verbatim>\<open>agenticChat/errors.ts\<close>), which of them are retried (\<^verbatim>\<open>retry/retryClassifier.ts\<close>,
  \<^verbatim>\<open>retry/qRetryStrategy.ts\<close>, \<^verbatim>\<open>retry/delayInterceptor.ts\<close>) and how the last one is reported (\<^verbatim>\<open>retry/errorTransformer.ts\<close>, with the
  classification of service errors of \<^verbatim>\<open>shared/utils.ts\<close>). The strategy of the SDK that decides the delay is a parameter.
\<close>

section \<open>File operations\<close>

record FileOperationError =
  fo_name :: string
  fo_message :: string
  fo_customerMessage :: string

definition file_operation_error :: "string \<Rightarrow> string \<Rightarrow> string \<Rightarrow> FileOperationError" where
  "file_operation_error name message customer = \<lparr>fo_name = name, fo_message = message, fo_customerMessage = customer\<rparr>"

text \<open>The errors the tools throw themselves; a failure to read a file is an error of the file system.\<close>

definition tool_error_value :: "file_error \<Rightarrow> FileOperationError" where
  "tool_error_value e =
     (case e of
        EmptyPathError \<Rightarrow> file_operation_error ''EmptyPathError'' ''Path must not be empty'' ''The file path cannot be empty.''
      | MissingContentError \<Rightarrow> file_operation_error ''MissingContentError'' ''fileText must be provided for create command'' ''No content provided for the file.''
      | FileExistsWithSameContentError \<Rightarrow> file_operation_error ''FileExistsWithSameContentError'' ''The file already exists with the same content''
          ''The file already exists with identical content. No changes were made.''
      | EmptyAppendContentError \<Rightarrow> file_operation_error ''EmptyAppendContentError'' ''Content to append must not be empty'' ''No content provided to append.''
      | EmptyDiffsError \<Rightarrow> file_operation_error ''EmptyDiffsError'' ''Diffs must not be empty'' ''No changes specified.''
      | FileNotExistsError \<Rightarrow> file_operation_error ''FileNotExistsError'' ''The provided path must exist in order to replace contents into it'' ''The file does not exist.''
      | TextNotFoundError t \<Rightarrow> file_operation_error ''TextNotFoundError'' (''No occurrences of \"'' @ t @ ''\" were found'') ''The text to replace was not found in the file.''
      | MultipleMatchesError t \<Rightarrow> file_operation_error ''MultipleMatchesError'' (''Multiple occurrences of \"'' @ t @ ''\" were found when only 1 is expected'')
          ''Multiple instances of the text to replace were found.''
      | ReadError \<Rightarrow> file_operation_error ''Error'' ''read failed'' ''read failed'')"

text \<open>
  \<^verbatim>\<open>message.match(/before\"(.+)\"after/)\<close>: the first place where the text before occurs and is followed, on the same line, by some
  characters and the text after; the group is as long as possible.
\<close>

definition line_char :: "char \<Rightarrow> bool" where
  "line_char c \<longleftrightarrow> c \<noteq> CHR 0x0A \<and> c \<noteq> CHR 0x0D"

definition longest_group :: "string \<Rightarrow> string \<Rightarrow> string option" where
  "longest_group s after =
     (let ks = filter (\<lambda>k. startsWith (drop k s) after) [1..<Suc (length (takeWhile line_char s))]
      in if ks = [] then None else Some (take (last ks) s))"

fun quoted_match :: "string \<Rightarrow> string \<Rightarrow> string \<Rightarrow> string option" where
  "quoted_match before after [] = None"
| "quoted_match before after (c # s) =
     (case if startsWith (c # s) before then longest_group (drop (length before) (c # s)) after else None of
        Some g \<Rightarrow> Some g
      | None \<Rightarrow> quoted_match before after s)"

definition no_occurrences_match :: "string \<Rightarrow> string option" where
  "no_occurrences_match = quoted_match ''No occurrences of \"'' ''\" were found''"

definition multiple_occurrences_match :: "string \<Rightarrow> string option" where
  "multiple_occurrences_match = quoted_match ''Multiple occurrences of \"'' ''\" were found''"

text \<open>The errors of the file system are recognised by words of their message, before everything else.\<close>

definition system_error :: "string \<Rightarrow> FileOperationError option" where
  "system_error m =
     (if includes_str m ''ENOENT'' \<or> includes_str m ''no such file or directory''
      then Some (file_operation_error ''DirectoryNotFoundError'' m ''The directory does not exist.'')
      else if includes_str m ''EACCES'' \<or> includes_str m ''permission denied''
      then Some (file_operation_error ''PermissionDeniedError'' m ''Permission denied.'')
      else if includes_str m ''EISDIR''
      then Some (file_operation_error ''IsDirectoryError'' m ''The specified path is a directory, not a file.'')
      else if includes_str m ''ENOSPC'' then Some (file_operation_error ''NoSpaceError'' m ''No space left on device.'')
      else if includes_str m ''EMFILE'' \<or> includes_str m ''ENFILE''
      then Some (file_operation_error ''TooManyOpenFilesError'' m ''Too many open files.'')
      else None)"

definition createFileOperationError :: "string \<Rightarrow> FileOperationError" where
  "createFileOperationError m =
     (case system_error m of
        Some e \<Rightarrow> e
      | None \<Rightarrow>
          if m = ''Path must not be empty'' then tool_error_value EmptyPathError
          else if m = ''fileText must be provided for create command'' then tool_error_value MissingContentError
          else if m = ''The file already exists with the same content'' then tool_error_value FileExistsWithSameContentError
          else if m = ''Content to append must not be empty'' then tool_error_value EmptyAppendContentError
          else if m = ''Diffs must not be empty'' then tool_error_value EmptyDiffsError
          else if m = ''The provided path must exist in order to replace contents into it'' then tool_error_value FileNotExistsError
          else case no_occurrences_match m of
                 Some t \<Rightarrow> tool_error_value (TextNotFoundError t)
               | None \<Rightarrow>
                   (case multiple_occurrences_match m of
                      Some t \<Rightarrow> tool_error_value (MultipleMatchesError t)
                    | None \<Rightarrow> file_operation_error ''FileOperationError'' m m))"

datatype thrown_value = File_operation FileOperationError | Error_message string | Other_value string

definition getCustomerFacingErrorMessage :: "thrown_value \<Rightarrow> string" where
  "getCustomerFacingErrorMessage v =
     (case v of
        File_operation e \<Rightarrow> fo_customerMessage e
      | Error_message m \<Rightarrow> fo_customerMessage (createFileOperationError m)
      | Other_value s \<Rightarrow> s)"

section \<open>Errors of the service\<close>

text \<open>The classes the code asks for with \<^verbatim>\<open>instanceof\<close>; the classes of the streaming client extend \<^verbatim>\<open>ServiceException\<close>, which extends \<^verbatim>\<open>Error\<close>.\<close>

datatype error_class = Not_error | Plain_error | Agentic_error | Pending_signin | Pending_profile | Service_error | Streaming_error | Throttling_error

text \<open>A body is a text, bytes that decode to a text, or an object with its JSON text.\<close>

datatype response_body = Body_text string | Body_bytes string | Body_object string

record error_metadata =
  md_httpStatusCode :: "nat option"
  md_body :: "response_body option"
  md_requestId :: "string option"

record error_cause =
  ca_metadata :: "error_metadata option"
  ca_body :: "response_body option"
  ca_reason :: "string option"
  ca_statusCode :: "nat option"
  ca_status :: "nat option"

record error_response =
  rp_status :: "nat option"
  rp_statusCode :: "nat option"
  rp_data :: "response_body option"
  rp_body :: "response_body option"

record service_failure =
  sf_class :: error_class
  sf_name :: "string option"
  sf_code :: "string option"
  sf_reason :: "string option"
  sf_message :: "string option"
  sf_requestId :: "string option"
  sf_metadata :: "error_metadata option"
  sf_body :: "response_body option"
  sf_status :: "nat option"
  sf_statusCode :: "nat option"
  sf_cause :: "error_cause option"
  sf_response :: "error_response option"

definition is_error :: "service_failure \<Rightarrow> bool" where
  "is_error e \<longleftrightarrow> sf_class e \<noteq> Not_error"

definition message_has :: "service_failure \<Rightarrow> string \<Rightarrow> bool" where
  "message_has e t \<longleftrightarrow> (case sf_message e of None \<Rightarrow> False | Some m \<Rightarrow> includes_str m t)"

definition isInputTooLongError :: "service_failure \<Rightarrow> bool" where
  "isInputTooLongError e \<longleftrightarrow>
     (if sf_class e = Agentic_error \<and> sf_code e = Some ''InputTooLong'' then True
      else if is_error e then message_has e ''Input is too long'' else False)"

definition isRequestAbortedError :: "service_failure \<Rightarrow> bool" where
  "isRequestAbortedError e \<longleftrightarrow>
     (if sf_class e = Agentic_error \<and> sf_code e = Some ''RequestAborted'' then True
      else if is_error e then message_has e ''Request aborted'' else False)"

definition isThrottlingRelated :: "service_failure \<Rightarrow> bool" where
  "isThrottlingRelated e \<longleftrightarrow>
     (if sf_class e = Agentic_error \<and> sf_code e = Some ''RequestThrottled'' then True
      else if is_error e then sf_name e = Some ''ServiceUnavailableException'' else False)"

definition isServiceException :: "service_failure \<Rightarrow> bool" where
  "isServiceException e \<longleftrightarrow> sf_class e \<in> {Service_error, Streaming_error, Throttling_error}"

definition isAwsError :: "service_failure \<Rightarrow> bool" where
  "isAwsError e \<longleftrightarrow> isServiceException e \<or> is_error e \<and> sf_metadata e \<noteq> None"

definition isAwsThrottlingError :: "service_failure \<Rightarrow> bool" where
  "isAwsThrottlingError e \<longleftrightarrow>
     sf_class e = Throttling_error \<or> isAwsError e \<and> sf_code e = Some ''ThrottlingException''
     \<or> isServiceException e \<and> sf_name e = Some ''ThrottlingException''"

definition isUsageLimitError :: "service_failure \<Rightarrow> bool" where
  "isUsageLimitError e \<longleftrightarrow>
     (if sf_code e = Some ''AmazonQUsageLimitError'' \<or> sf_code e = Some ''E_AMAZON_Q_USAGE_LIMIT'' then True
      else if sf_name e = Some ''AmazonQUsageLimitError'' then True
      else if \<not> isAwsThrottlingError e then False
      else sf_reason e = Some ''MONTHLY_REQUEST_COUNT'')"

section \<open>What is retried\<close>

datatype RetryAction = NoActionIndicated | RetryForbidden | ThrottlingError

record interceptor_response =
  ir_status :: "nat option"
  ir_body :: "response_body option"

record InterceptorContext =
  ic_error :: service_failure
  ic_response :: "interceptor_response option"

definition body_text :: "response_body \<Rightarrow> string" where
  "body_text b = (case b of Body_text s \<Rightarrow> s | Body_bytes s \<Rightarrow> s | Body_object s \<Rightarrow> s)"

definition extractTextFromBody :: "response_body option \<Rightarrow> string option" where
  "extractTextFromBody b = map_option body_text b"

text \<open>\<^verbatim>\<open>a || b || ...\<close> on texts and on status codes: the first that is neither missing nor empty, respectively zero.\<close>

definition first_text :: "string option list \<Rightarrow> string option" where
  "first_text xs = (case List.find (\<lambda>x. x \<noteq> None \<and> x \<noteq> Some []) xs of None \<Rightarrow> None | Some x \<Rightarrow> x)"

definition first_status :: "nat option list \<Rightarrow> nat option" where
  "first_status xs = (case List.find (\<lambda>x. x \<noteq> None \<and> x \<noteq> Some 0) xs of None \<Rightarrow> None | Some x \<Rightarrow> x)"

definition metadata_status :: "service_failure \<Rightarrow> nat option" where
  "metadata_status e = Option.bind (sf_metadata e) md_httpStatusCode"

definition cause_metadata :: "service_failure \<Rightarrow> error_metadata option" where
  "cause_metadata e = Option.bind (sf_cause e) ca_metadata"

text \<open>The places where the body of a response may be.\<close>

definition error_bodies :: "service_failure \<Rightarrow> string option list" where
  "error_bodies e = map extractTextFromBody
     [Option.bind (cause_metadata e) md_body, Option.bind (sf_metadata e) md_body, Option.bind (sf_cause e) ca_body, sf_body e,
      Option.bind (sf_response e) rp_data, Option.bind (sf_response e) rp_body]"

definition context_body :: "InterceptorContext \<Rightarrow> string option" where
  "context_body c = first_text (extractTextFromBody (Option.bind (ic_response c) ir_body) # sf_message (ic_error c) # error_bodies (ic_error c))"

definition high_load_message :: string where
  "high_load_message = ''Encountered unexpectedly high load when processing the request, please try again.''"

definition overloaded_body :: "string \<Rightarrow> bool" where
  "overloaded_body b \<longleftrightarrow> includes_str b high_load_message \<or> includes_str b ''ServiceUnavailableException''"

definition isServiceOverloadedError :: "InterceptorContext \<Rightarrow> string \<Rightarrow> bool" where
  "isServiceOverloadedError c b \<longleftrightarrow>
     first_status [Option.bind (ic_response c) ir_status, sf_status (ic_error c), metadata_status (ic_error c)] = Some 500 \<and> overloaded_body b"

definition isMonthlyLimitError :: "service_failure \<Rightarrow> bool" where
  "isMonthlyLimitError e \<longleftrightarrow> sf_reason e = Some ''MONTHLY_REQUEST_COUNT''"

definition aborted_request :: "service_failure \<Rightarrow> bool" where
  "aborted_request e \<longleftrightarrow> sf_name e = Some ''AbortError'' \<or> sf_code e = Some ''RequestAborted'' \<or> sf_name e = Some ''RequestAborted'' \<or> isRequestAbortedError e"

definition classifyRetry :: "InterceptorContext \<Rightarrow> RetryAction" where
  "classifyRetry c =
     (let e = ic_error c
      in if sf_name e = Some ''AccessDeniedException'' \<or> sf_name e = Some ''SERVICE_QUOTA_EXCEPTION'' \<or> aborted_request e then RetryForbidden
         else if sf_reason e = Some ''CONTENT_LENGTH_EXCEEDS_THRESHOLD'' \<or> isInputTooLongError e \<or> sf_reason e = Some ''INVALID_MODEL_ID'' then RetryForbidden
         else if isMonthlyLimitError e then RetryForbidden
         else if sf_message e = Some ''Exceeded max chat context length.'' then RetryForbidden
         else if (case context_body c of None \<Rightarrow> False | Some b \<Rightarrow> isServiceOverloadedError c b) then ThrottlingError
         else if first_status [Option.bind (ic_response c) ir_status, metadata_status e] = Some 429 \<and> sf_reason e = Some ''INSUFFICIENT_MODEL_CAPACITY''
         then ThrottlingError
         else if isThrottlingRelated e then ThrottlingError
         else NoActionIndicated)"

subsection \<open>Delays\<close>

record DelayNotification =
  dn_message :: string
  dn_attemptNumber :: nat
  dn_delay :: int
  dn_thresholdExceeded :: bool

record QDelayTrackingInterceptor =
  di_lastAttemptTime :: "int option"
  di_callback :: bool

definition retry_message :: "nat \<Rightarrow> int \<Rightarrow> string option" where
  "retry_message n delay =
     (if delay \<ge> 5000 then Some (''Retry #'' @ show_nat n @ '', retrying within 10s..'')
      else if delay \<ge> 2000 then Some (''Retry #'' @ show_nat n @ '', retrying within 5s..'')
      else None)"

text \<open>The time of the last attempt counts as missing when it is zero.\<close>

definition beforeAttempt :: "int \<Rightarrow> nat \<Rightarrow> QDelayTrackingInterceptor \<Rightarrow> QDelayTrackingInterceptor \<times> DelayNotification option" where
  "beforeAttempt now n d =
     (d\<lparr>di_lastAttemptTime := Some now\<rparr>,
      case di_lastAttemptTime d of
        None \<Rightarrow> None
      | Some t \<Rightarrow>
          if t = 0 \<or> n \<le> 1 then None
          else let delay = min (now - t) 10000
               in case retry_message n delay of
                    None \<Rightarrow> None
                  | Some m \<Rightarrow> if di_callback d
                              then Some \<lparr>dn_message = m, dn_attemptNumber = n, dn_delay = (delay + 999) div 1000, dn_thresholdExceeded = delay \<ge> 2000\<rparr>
                              else None)"

definition reset_delay :: "QDelayTrackingInterceptor \<Rightarrow> QDelayTrackingInterceptor" where
  "reset_delay d = d\<lparr>di_lastAttemptTime := None\<rparr>"

subsection \<open>The retry strategy\<close>

record QRetryStrategy =
  rs_attemptCount :: nat
  rs_delay :: QDelayTrackingInterceptor

definition acquireInitialRetryToken :: "QRetryStrategy \<Rightarrow> QRetryStrategy" where
  "acquireInitialRetryToken s = s\<lparr>rs_attemptCount := 0\<rparr>"

text \<open>The strategy of the SDK gives a new token or throws; a token is its number of retries.\<close>

definition refreshRetryTokenForRetry ::
    "(nat \<Rightarrow> service_failure \<Rightarrow> service_failure + nat) \<Rightarrow> int \<Rightarrow> nat \<Rightarrow> InterceptorContext \<Rightarrow> QRetryStrategy
      \<Rightarrow> QRetryStrategy \<times> DelayNotification option \<times> (service_failure + nat)" where
  "refreshRetryTokenForRetry adaptive now retryCount c s =
     (let currentAttempt = retryCount + 1; s1 = s\<lparr>rs_attemptCount := currentAttempt\<rparr>
      in if classifyRetry c = RetryForbidden then (s1, None, Inl (ic_error c))
         else let (d, n) = beforeAttempt now (currentAttempt + 1) (rs_delay s1)
              in (s1\<lparr>rs_delay := d\<rparr>, n, adaptive retryCount (ic_error c)))"

definition recordSuccess :: "QRetryStrategy \<Rightarrow> QRetryStrategy" where
  "recordSuccess s = s\<lparr>rs_delay := reset_delay (rs_delay s), rs_attemptCount := 0\<rparr>"

section \<open>The last error\<close>

text \<open>What is thrown in the end: an authentication error as it is, or an error of the chat with a code, its cause and the request.\<close>

datatype final_error = Passed_on service_failure | Chat_error string string "service_failure option" "string option"

definition wrapErrorWithCode :: "(service_failure \<Rightarrow> string) \<Rightarrow> service_failure \<Rightarrow> string \<Rightarrow> final_error" where
  "wrapErrorWithCode show_value e code =
     (let m = (case sf_message e of None \<Rightarrow> [] | Some m \<Rightarrow> m)
      in if sf_class e = Streaming_error \<or> sf_class e = Throttling_error then Chat_error m code (Some e) (Option.bind (sf_metadata e) md_requestId)
         else if is_error e then Chat_error m code (Some e) None
         else Chat_error (show_value e) code None None)"

definition getRequestID :: "service_failure \<Rightarrow> string option" where
  "getRequestID e =
     (case first_text [Option.bind (cause_metadata e) md_requestId] of
        Some r \<Rightarrow> Some r
      | None \<Rightarrow>
          if sf_requestId e \<noteq> None then sf_requestId e
          else if sf_class e = Streaming_error \<or> sf_class e = Throttling_error then Option.bind (sf_metadata e) md_requestId
          else None)"

definition getStatusCode :: "service_failure \<Rightarrow> nat option" where
  "getStatusCode e = first_status
     [Option.bind (cause_metadata e) md_httpStatusCode, metadata_status e, sf_statusCode e, sf_status e, Option.bind (sf_response e) rp_status,
      Option.bind (sf_response e) rp_statusCode, Option.bind (sf_cause e) ca_statusCode, Option.bind (sf_cause e) ca_status]"

definition model_capacity :: "service_failure \<Rightarrow> bool" where
  "model_capacity e \<longleftrightarrow>
     Option.bind (sf_cause e) ca_reason = Some ''INSUFFICIENT_MODEL_CAPACITY'' \<or> sf_reason e = Some ''INSUFFICIENT_MODEL_CAPACITY''"

text \<open>The body in the metadata is used as a text: bytes never contain one, and for an object there is no such method.\<close>

definition metadata_body :: "service_failure \<Rightarrow> response_body option" where
  "metadata_body e =
     (case List.find (\<lambda>b. b \<noteq> None \<and> b \<noteq> Some (Body_text [])) [Option.bind (cause_metadata e) md_body, Option.bind (sf_metadata e) md_body] of
        None \<Rightarrow> None | Some b \<Rightarrow> b)"

definition isThrottlingError :: "service_failure \<Rightarrow> string + bool" where
  "isThrottlingError e =
     (if getStatusCode e = Some 429 \<or> sf_name e = Some ''ThrottlingException'' \<or> sf_code e = Some ''ThrottlingException'' then Inr True
      else if getStatusCode e = Some 500
      then (case metadata_body e of
              None \<Rightarrow> Inr False
            | Some (Body_text b) \<Rightarrow> Inr (overloaded_body b)
            | Some (Body_bytes _) \<Rightarrow> Inr False
            | Some (Body_object _) \<Rightarrow> Inl ''responseBody.includes is not a function'')
      else Inr False)"

definition usage_limited :: "service_failure \<Rightarrow> bool" where
  "usage_limited e \<longleftrightarrow> isUsageLimitError e \<or>
     (case first_text (error_bodies e @ [sf_message e]) of None \<Rightarrow> False | Some b \<Rightarrow> includes_str b ''MONTHLY_REQUEST_COUNT'')"

definition too_long :: "service_failure \<Rightarrow> bool" where
  "too_long e \<longleftrightarrow> sf_name e = Some ''InputTooLong'' \<or> sf_code e = Some ''InputTooLong'' \<or> message_has e ''input too long'' \<or> isInputTooLongError e"

definition isModelUnavailable :: "service_failure \<Rightarrow> bool" where
  "isModelUnavailable e \<longleftrightarrow>
     getStatusCode e = Some 429 \<and> model_capacity e \<or> getStatusCode e = Some 500 \<and> sf_message e = Some high_load_message"

definition transformFinalError :: "bool \<Rightarrow> (service_failure \<Rightarrow> string) \<Rightarrow> service_failure \<Rightarrow> nat option \<Rightarrow> string + final_error" where
  "transformFinalError modelSelection show_value e attemptCount =
     (let attempts = (case attemptCount of None \<Rightarrow> 3 | Some n \<Rightarrow> n);
          chat_error = (\<lambda>m code. Chat_error m code (if is_error e then Some e else None) (getRequestID e))
      in if sf_class e = Pending_signin \<or> sf_class e = Pending_profile then Inr (Passed_on e)
         else if usage_limited e then Inr (chat_error (''Request failed after '' @ show_nat attempts @ '' attempts'') ''AmazonQUsageLimitError'')
         else if aborted_request e then Inr (chat_error ''Request aborted'' ''RequestAborted'')
         else if too_long e
         then Inr (chat_error ''Too much context loaded. I have cleared the conversation history. Please retry your request with smaller input.'' ''InputTooLong'')
         else if isModelUnavailable e
         then Inr (chat_error (if modelSelection then ''The model you selected is temporarily unavailable. Please switch to a different model and try again.''
                               else ''I am experiencing high traffic, please try again shortly.'') ''QModelResponse'')
         else case (if isAwsThrottlingError e \<or> isThrottlingRelated e then Inr True else isThrottlingError e) of
                Inl m \<Rightarrow> Inl m
              | Inr True \<Rightarrow> Inr (chat_error (''Service is currently experiencing high traffic. Request failed after '' @ show_nat attempts @
                               '' attempts. Please try again later.'') ''RequestThrottled'')
              | Inr False \<Rightarrow> Inr (chat_error (if is_error e then (case sf_message e of None \<Rightarrow> [] | Some m \<Rightarrow> m) else show_value e) ''QModelResponse''))"

section \<open>Errors are recognised by their messages\<close>

lemma longest_group_found:
  assumes "t \<noteq> []" and "list_all line_char t" and "startsWith rest after"
  shows "longest_group (t @ rest) after \<noteq> None"
proof -
  have "length t \<le> length (takeWhile line_char (t @ rest))"
    using assms(2) by (simp add: takeWhile_append2 list_all_iff)
  moreover have "1 \<le> length t" using assms(1) by (cases t) simp_all
  ultimately have "length t \<in> set [1..<Suc (length (takeWhile line_char (t @ rest)))]"
    unfolding set_upt atLeastLessThan_iff by linarith
  then have "length t \<in> set (filter (\<lambda>k. startsWith (drop k (t @ rest)) after) [1..<Suc (length (takeWhile line_char (t @ rest)))])"
    using assms(3) unfolding set_filter by simp
  then show ?thesis
    unfolding longest_group_def Let_def by (metis (no_types, lifting) empty_iff list.set(1) option.distinct(1))
qed

lemma quoted_match_found:
  assumes "before \<noteq> []" and "t \<noteq> []" and "list_all line_char t" and "startsWith rest after"
  shows "quoted_match before after (before @ t @ rest) \<noteq> None"
proof (cases before)
  case (Cons c b)
  have "startsWith (before @ t @ rest) before" by (simp add: startsWith_def)
  with longest_group_found [OF assms(2-4)] Cons show ?thesis by (auto split: option.split)
qed (use assms(1) in simp)

text \<open>The texts in an error message that do not hide what the message says.\<close>

definition plain_message :: "file_error \<Rightarrow> bool" where
  "plain_message e \<longleftrightarrow> system_error (fo_message (tool_error_value e)) = None \<and>
     (case e of
        TextNotFoundError t \<Rightarrow> t \<noteq> [] \<and> list_all line_char t
      | MultipleMatchesError t \<Rightarrow> t \<noteq> [] \<and> list_all line_char t \<and> no_occurrences_match (fo_message (tool_error_value e)) = None
      | ReadError \<Rightarrow> no_occurrences_match (fo_message (tool_error_value e)) = None \<and> multiple_occurrences_match (fo_message (tool_error_value e)) = None
      | _ \<Rightarrow> True)"

text \<open>
  The message shown for an error of a file tool does not depend on whether the error arrives as the tool threw it or as a plain error with its
  message: parsing the message finds the same kind of error, when the text quoted in it is one line that is not empty, contains
  no words of file system errors and does not quote the other kind of message.
\<close>

theorem file_error_recognised:
  assumes "plain_message e"
  shows "getCustomerFacingErrorMessage (Error_message (fo_message (tool_error_value e))) =
     getCustomerFacingErrorMessage (File_operation (tool_error_value e))"
proof -
  have sys: "system_error (fo_message (tool_error_value e)) = None"
    using assms by (simp add: plain_message_def)
  show ?thesis
  proof (cases e)
    case (TextNotFoundError t)
    then have "no_occurrences_match (''No occurrences of \"'' @ t @ ''\" were found'') \<noteq> None"
      unfolding no_occurrences_match_def using assms
      by (intro quoted_match_found) (simp_all add: plain_message_def startsWith_def)
    then show ?thesis
      using sys TextNotFoundError
      by (auto simp: getCustomerFacingErrorMessage_def createFileOperationError_def tool_error_value_def file_operation_error_def split: option.split)
  next
    case (MultipleMatchesError t)
    then have "multiple_occurrences_match (''Multiple occurrences of \"'' @ t @ ''\" were found when only 1 is expected'') \<noteq> None"
      unfolding multiple_occurrences_match_def using assms
      by (intro quoted_match_found) (simp_all add: plain_message_def startsWith_def)
    then show ?thesis
      using sys MultipleMatchesError assms
      by (auto simp: plain_message_def getCustomerFacingErrorMessage_def createFileOperationError_def tool_error_value_def file_operation_error_def
          split: option.split)
  qed (use sys assms in \<open>auto simp: plain_message_def getCustomerFacingErrorMessage_def createFileOperationError_def tool_error_value_def file_operation_error_def\<close>)
qed

theorem file_error_recognised_witness:
  "getCustomerFacingErrorMessage (Error_message (fo_message (tool_error_value (MultipleMatchesError ''x = 1'')))) =
     getCustomerFacingErrorMessage (File_operation (tool_error_value (MultipleMatchesError ''x = 1'')))"
  by (rule file_error_recognised; code_simp)

text \<open>A text of two lines is not recognised and the message is shown as it is; a text with the name of a system error is taken for one.\<close>

lemma text_of_two_lines_not_recognised:
  "getCustomerFacingErrorMessage (Error_message (fo_message (tool_error_value (TextNotFoundError [CHR ''a'', CHR 0x0A, CHR ''b''])))) =
     fo_message (tool_error_value (TextNotFoundError [CHR ''a'', CHR 0x0A, CHR ''b'']))"
  "getCustomerFacingErrorMessage (Error_message (fo_message (tool_error_value (TextNotFoundError ''case ENOENT:'')))) = ''The directory does not exist.''"
  by code_simp+

section \<open>Retries and reports agree\<close>

fun reported_code :: "string + final_error \<Rightarrow> string option" where
  "reported_code (Inr (Chat_error m code cause r)) = Some code"
| "reported_code _ = None"

lemma reported_cases:
  assumes "reported_code (transformFinalError ms sv e n) = Some code"
  shows "sf_class e \<noteq> Pending_signin \<and> sf_class e \<noteq> Pending_profile"
    and "code = (if usage_limited e then ''AmazonQUsageLimitError'' else if aborted_request e then ''RequestAborted''
      else if too_long e then ''InputTooLong'' else if isModelUnavailable e then ''QModelResponse''
      else if isAwsThrottlingError e \<or> isThrottlingRelated e \<or> isThrottlingError e = Inr True then ''RequestThrottled'' else ''QModelResponse'')"
  using assms by (auto simp: transformFinalError_def Let_def split: if_splits sum.splits bool.splits)


definition plain_failure :: "error_class \<Rightarrow> string \<Rightarrow> string \<Rightarrow> service_failure" where
  "plain_failure cl name m = \<lparr>sf_class = cl, sf_name = Some name, sf_code = None, sf_reason = None, sf_message = Some m, sf_requestId = None,
     sf_metadata = None, sf_body = None, sf_status = None, sf_statusCode = None, sf_cause = None, sf_response = None\<rparr>"

definition fresh_strategy :: QRetryStrategy where
  "fresh_strategy = \<lparr>rs_attemptCount = 0, rs_delay = \<lparr>di_lastAttemptTime = None, di_callback = True\<rparr>\<rparr>"

definition stopped_failure :: service_failure where
  "stopped_failure = plain_failure Plain_error ''AbortError'' ''stopped''"


text \<open>The errors of a service quota carry another name than the one that is compared, so they are retried.\<close>

lemma quota_errors_retried:
  "classifyRetry \<lparr>ic_error = plain_failure Service_error ''ServiceQuotaExceededException'' ''quota'', ic_response = None\<rparr> = NoActionIndicated"
  by code_simp

text \<open>An overloaded service found in the body of the response is throttling for the retries, but is not reported as such.\<close>

lemma overload_reported_raw:
  "let e = (plain_failure Service_error ''InternalServerException'' ''failed'')\<lparr>sf_metadata := Some \<lparr>md_httpStatusCode = Some 500, md_body = None, md_requestId = None\<rparr>\<rparr>
   in classifyRetry \<lparr>ic_error = e, ic_response = Some \<lparr>ir_status = Some 500, ir_body = Some (Body_text ''ServiceUnavailableException'')\<rparr>\<rparr> = ThrottlingError \<and>
      reported_code (transformFinalError True (\<lambda>_. []) e None) = Some ''QModelResponse''"
  by code_simp

subsection \<open>Delay notifications\<close>

lemma notified_delays:
  assumes "beforeAttempt now n d = (d', Some x)"
  shows "2 \<le> dn_delay x \<and> dn_delay x \<le> 10 \<and> dn_thresholdExceeded x \<and> dn_attemptNumber x = n \<and> 1 < n"
  using assms by (auto simp: beforeAttempt_def retry_message_def Let_def split: option.splits if_splits)

text \<open>The time of the first attempt is not recorded, so the first retry of a request is never announced, however long it takes.\<close>

lemma first_retry_silent:
  "fst (snd (refreshRetryTokenForRetry adaptive now 0 c (recordSuccess s))) = None"
  by (auto simp: refreshRetryTokenForRetry_def recordSuccess_def reset_delay_def beforeAttempt_def Let_def)

end
