(* ===== verification/Service_Manager.thy ===== *)
theory Service_Manager
  imports Prelude
begin

text \<open>
  The manager of the service clients (\<^verbatim>\<open>shared/amazonQServiceManager\<close>): the workspace configuration (\<^verbatim>\<open>configurationUtils.ts\<close>), the
  base class (\<^verbatim>\<open>BaseAmazonQServiceManager.ts\<close>) and the state machine of \<^verbatim>\<open>AmazonQTokenServiceManager.ts\<close>, which decides by the
  connection and the selected profile which service a request may use; last the manager of \<^verbatim>\<open>AmazonQIAMServiceManager.ts\<close>. A client is the settings it has. What the runtime
  knows of credentials is an argument of every operation; the parser of resource names is a parameter.
\<close>

section \<open>Region and endpoint\<close>

definition DEFAULT_AWS_Q_REGION :: string where "DEFAULT_AWS_Q_REGION = ''us-east-1''"

definition DEFAULT_AWS_Q_ENDPOINT_URL :: string where "DEFAULT_AWS_Q_ENDPOINT_URL = ''https://codewhisperer.us-east-1.amazonaws.com/''"

definition AWS_Q_ENDPOINTS :: "string \<Rightarrow> string option" where
  "AWS_Q_ENDPOINTS = map_of [(''us-east-1'', ''https://codewhisperer.us-east-1.amazonaws.com/''), (''eu-central-1'', ''https://q.eu-central-1.amazonaws.com/'')]"

text \<open>The features of the runtime and the client that the manager reads.\<close>

record manager_features =
  mf_clientRegion :: "string option"
  mf_runtimeRegion :: "string option"
  mf_runtimeEndpoint :: "string option"
  mf_endpointOverride :: "string option"
  mf_notification :: bool
  mf_parseArn :: "string \<Rightarrow> string option"

definition getAmazonQRegionAndEndpoint :: "manager_features \<Rightarrow> string option \<Rightarrow> string \<times> string" where
  "getAmazonQRegionAndEndpoint F region =
     (let (r, e) = (if truthy region then (the region, AWS_Q_ENDPOINTS (the region))
                    else if truthy (mf_runtimeRegion F)
                    then (the (mf_runtimeRegion F), case mf_runtimeEndpoint F of Some u \<Rightarrow> Some u | None \<Rightarrow> AWS_Q_ENDPOINTS (the (mf_runtimeRegion F)))
                    else (DEFAULT_AWS_Q_REGION, Some DEFAULT_AWS_Q_ENDPOINT_URL))
      in if truthy e then (r, the e) else (DEFAULT_AWS_Q_REGION, DEFAULT_AWS_Q_ENDPOINT_URL))"

section \<open>Workspace configuration\<close>

record QConfigSection =
  qc_customizationArn :: "string option"
  qc_optOut :: bool
  qc_inlineExtraContext :: "string option"
  qc_chatExtraContext :: "string option"
  qc_ignoreFilePatterns :: "string list"
  qc_maxFileSizeMB :: int
  qc_maxIndexSizeMB :: int

record CodeWhispererConfigSection =
  cw_references :: bool
  cw_imports :: bool
  cw_shareContent :: bool
  cw_metrics :: bool

record WorkspaceConfig =
  wc_q :: QConfigSection
  wc_codeWhisperer :: CodeWhispererConfigSection

text \<open>A section as the client sends it, with the types the settings are documented with; a setting that is absent is \<^const>\<open>None\<close>.\<close>

record raw_q_section =
  rq_customization :: "string option"
  rq_optOutTelemetry :: "bool option"
  rq_inlineExtraContext :: "string option"
  rq_chatExtraContext :: "string option"
  rq_ignoreFilePatterns :: "string list option"
  rq_maxFileSizeMB :: "int option"
  rq_maxIndexSizeMB :: "int option"

record raw_codeWhisperer_section =
  rc_references :: "bool option"
  rc_imports :: "bool option"
  rc_shareContent :: "bool option"
  rc_metrics :: "bool option"

definition or_default :: "'a option \<Rightarrow> 'a \<Rightarrow> 'a" where
  "or_default x d = (case x of None \<Rightarrow> d | Some y \<Rightarrow> y)"

definition read_q_section :: "raw_q_section \<Rightarrow> QConfigSection" where
  "read_q_section r = \<lparr>qc_customizationArn = undefinedIfEmpty (rq_customization r), qc_optOut = (rq_optOutTelemetry r = Some True),
     qc_inlineExtraContext = undefinedIfEmpty (rq_inlineExtraContext r), qc_chatExtraContext = undefinedIfEmpty (rq_chatExtraContext r),
     qc_ignoreFilePatterns = or_default (rq_ignoreFilePatterns r) [], qc_maxFileSizeMB = or_default (rq_maxFileSizeMB r) 10,
     qc_maxIndexSizeMB = or_default (rq_maxIndexSizeMB r) 2048\<rparr>"

definition read_codeWhisperer_section :: "raw_codeWhisperer_section \<Rightarrow> CodeWhispererConfigSection" where
  "read_codeWhisperer_section r = \<lparr>cw_references = (rc_references r = Some True), cw_imports = (rc_imports r = Some True),
     cw_shareContent = (rc_shareContent r = Some True), cw_metrics = (rc_metrics r = Some True)\<rparr>"

text \<open>The two sections are fetched one after the other; a section that is missing or fails is left out of the result.\<close>

definition getAmazonQRelatedWorkspaceConfigs ::
    "bool \<Rightarrow> raw_q_section option \<Rightarrow> raw_codeWhisperer_section option \<Rightarrow> QConfigSection option \<times> CodeWhispererConfigSection option" where
  "getAmazonQRelatedWorkspaceConfigs supported q c =
     (if supported then (map_option read_q_section q, map_option read_codeWhisperer_section c) else (None, None))"

definition defaultAmazonQWorkspaceConfigFactory :: WorkspaceConfig where
  "defaultAmazonQWorkspaceConfigFactory = \<lparr>wc_q = \<lparr>qc_customizationArn = None, qc_optOut = False, qc_inlineExtraContext = None,
     qc_chatExtraContext = None, qc_ignoreFilePatterns = [], qc_maxFileSizeMB = 10, qc_maxIndexSizeMB = 2048\<rparr>,
     wc_codeWhisperer = \<lparr>cw_references = False, cw_imports = False, cw_shareContent = False, cw_metrics = False\<rparr>\<rparr>"

definition merge_config :: "QConfigSection option \<times> CodeWhispererConfigSection option \<Rightarrow> WorkspaceConfig \<Rightarrow> WorkspaceConfig" where
  "merge_config new cfg = \<lparr>wc_q = or_default (fst new) (wc_q cfg), wc_codeWhisperer = or_default (snd new) (wc_codeWhisperer cfg)\<rparr>"

section \<open>Base class\<close>

text \<open>
  A client with the region, the endpoint and the settings it has; \<^const>\<open>None\<close> is a setting never assigned. The observer of
  rejected identities is the number of the notifier.
\<close>

record service_client =
  sc_region :: string
  sc_endpoint :: string
  sc_profileArn :: "string option"
  sc_customizationArn :: "string option"
  sc_shareContent :: "bool option"
  sc_onAccessBlocked :: "nat option"

text \<open>A change of the configuration waits for the sections of the client, then for the listeners.\<close>

datatype config_change = Change_none | Change_fetching | Change_notifying

record BaseAmazonQServiceManager =
  bm_config :: WorkspaceConfig
  bm_service :: "service_client option"
  bm_streaming :: "service_client option"
  bm_atxService :: "service_client option"
  bm_atxStreaming :: "service_client option"
  bm_change :: config_change
  bm_listeners :: "nat list"
  bm_told :: "(nat \<times> WorkspaceConfig) list"
  bm_aborted :: "service_client list"

abbreviation configured_arn :: "WorkspaceConfig \<Rightarrow> string option" where
  "configured_arn cfg \<equiv> qc_customizationArn (wc_q cfg)"

abbreviation configured_share :: "WorkspaceConfig \<Rightarrow> bool option" where
  "configured_share cfg \<equiv> Some (cw_shareContent (wc_codeWhisperer cfg))"

definition addDidChangeConfigurationListener :: "nat \<Rightarrow> 'a BaseAmazonQServiceManager_scheme \<Rightarrow> 'a BaseAmazonQServiceManager_scheme" where
  "addDidChangeConfigurationListener l m =
     m\<lparr>bm_listeners := (if l \<in> set (bm_listeners m) then bm_listeners m else bm_listeners m @ [l]), bm_told := bm_told m @ [(l, bm_config m)]\<rparr>"

definition removeDidChangeConfigurationListener :: "nat \<Rightarrow> 'a BaseAmazonQServiceManager_scheme \<Rightarrow> 'a BaseAmazonQServiceManager_scheme" where
  "removeDidChangeConfigurationListener l m = m\<lparr>bm_listeners := filter (\<lambda>k. k \<noteq> l) (bm_listeners m)\<rparr>"

definition updateCachedServiceConfig :: "'a BaseAmazonQServiceManager_scheme \<Rightarrow> 'a BaseAmazonQServiceManager_scheme" where
  "updateCachedServiceConfig m =
     (let share = (\<lambda>s. s\<lparr>sc_shareContent := configured_share (bm_config m)\<rparr>);
          m1 = m\<lparr>bm_service := map_option (\<lambda>s. s\<lparr>sc_customizationArn := configured_arn (bm_config m),
                                                   sc_shareContent := configured_share (bm_config m)\<rparr>) (bm_service m)\<rparr>
      in if bm_streaming m = None then m1
         else m1\<lparr>bm_atxService := map_option share (bm_atxService m), bm_atxStreaming := map_option share (bm_atxStreaming m),
                 bm_streaming := map_option share (bm_streaming m)\<rparr>)"

definition notifyDidChangeConfigurationListeners :: "'a BaseAmazonQServiceManager_scheme \<Rightarrow> 'a BaseAmazonQServiceManager_scheme" where
  "notifyDidChangeConfigurationListeners m = m\<lparr>bm_told := bm_told m @ map (\<lambda>l. (l, bm_config m)) (bm_listeners m)\<rparr>"

text \<open>The event; the sections arrive and the listeners are called; the listeners are done. An event during a change is dropped.\<close>

definition handleDidChangeConfiguration :: "'a BaseAmazonQServiceManager_scheme \<Rightarrow> 'a BaseAmazonQServiceManager_scheme" where
  "handleDidChangeConfiguration m = (if bm_change m \<noteq> Change_none then m else m\<lparr>bm_change := Change_fetching\<rparr>)"

definition sections_arrived ::
    "bool \<Rightarrow> raw_q_section option \<Rightarrow> raw_codeWhisperer_section option \<Rightarrow> 'a BaseAmazonQServiceManager_scheme \<Rightarrow> 'a BaseAmazonQServiceManager_scheme" where
  "sections_arrived supported q c m =
     (let m1 = m\<lparr>bm_config := merge_config (getAmazonQRelatedWorkspaceConfigs supported q c) (bm_config m)\<rparr>
      in (notifyDidChangeConfigurationListeners (updateCachedServiceConfig m1))\<lparr>bm_change := Change_notifying\<rparr>)"

definition listeners_settled :: "'a BaseAmazonQServiceManager_scheme \<Rightarrow> 'a BaseAmazonQServiceManager_scheme" where
  "listeners_settled m = m\<lparr>bm_change := Change_none\<rparr>"

section \<open>The token manager\<close>

datatype SsoConnectionType = No_connection | Builder_id | Identity_center | External_idp

datatype service_status = PENDING_CONNECTION | PENDING_Q_PROFILE | PENDING_Q_PROFILE_UPDATE | INITIALIZED

datatype AmazonQError = AmazonQServiceNotInitializedError | AmazonQServicePendingSigninError | AmazonQServicePendingProfileError
  | AmazonQServicePendingProfileUpdateError | AmazonQServiceProfileUpdateCancelled | AmazonQServiceInvalidProfileError
  | AmazonQServiceNoProfileSupportError | Plain_error string

record AmazonQDeveloperProfile =
  dp_arn :: string
  dp_region :: string

record AmazonQTokenServiceManager = BaseAmazonQServiceManager +
  tm_enableDeveloperProfileSupport :: bool
  tm_activeIdcProfile :: "AmazonQDeveloperProfile option"
  tm_connectionType :: SsoConnectionType
  tm_state :: service_status
  tm_region :: "string option"
  tm_endpoint :: "string option"
  tm_regionListeners :: "nat list"
  tm_regionsTold :: "(nat \<times> string) list"
  tm_notifier :: "nat option"
  tm_notifiersMade :: nat

text \<open>The bearer credentials as the runtime reports them.\<close>

record credentials =
  cr_hasBearer :: bool
  cr_connectionType :: SsoConnectionType

datatype CredentialsType = Iam_credentials | Bearer_credentials

datatype json_value = J_null | J_bool bool | J_number int | J_string string | J_array "json_value list" | J_object "(string \<times> json_value) list"

definition signalsAWSQDeveloperProfilesEnabled :: "json_value option \<Rightarrow> bool" where
  "signalsAWSQDeveloperProfilesEnabled qCapabilities =
     (case qCapabilities of Some (J_object ps) \<Rightarrow> (case map_of ps ''developerProfiles'' of Some (J_bool b) \<Rightarrow> b | _ \<Rightarrow> False) | _ \<Rightarrow> False)"

text \<open>A new manager: the argument is the field \<^verbatim>\<open>q\<close> of the client capabilities, if the options have a section \<^verbatim>\<open>aws\<close>.\<close>

definition initialize_manager :: "json_value option option \<Rightarrow> AmazonQTokenServiceManager" where
  "initialize_manager awsOptions = \<lparr>bm_config = defaultAmazonQWorkspaceConfigFactory, bm_service = None, bm_streaming = None,
     bm_atxService = None, bm_atxStreaming = None, bm_change = Change_none, bm_listeners = [], bm_told = [], bm_aborted = [],
     tm_enableDeveloperProfileSupport = (case awsOptions of None \<Rightarrow> False | Some q \<Rightarrow> signalsAWSQDeveloperProfilesEnabled q),
     tm_activeIdcProfile = None, tm_connectionType = No_connection, tm_state = PENDING_CONNECTION, tm_region = None, tm_endpoint = None,
     tm_regionListeners = [], tm_regionsTold = [], tm_notifier = None, tm_notifiersMade = 0\<rparr>"

subsection \<open>Clients\<close>

definition getQDevAccessBlockedNotifier :: "manager_features \<Rightarrow> AmazonQTokenServiceManager \<Rightarrow> nat option \<times> AmazonQTokenServiceManager" where
  "getQDevAccessBlockedNotifier F m =
     (if \<not> mf_notification F then (None, m)
      else case tm_notifier m of
        Some n \<Rightarrow> (Some n, m)
      | None \<Rightarrow> (Some (tm_notifiersMade m), m\<lparr>tm_notifier := Some (tm_notifiersMade m), tm_notifiersMade := Suc (tm_notifiersMade m)\<rparr>))"

definition resetCodewhispererService :: "AmazonQTokenServiceManager \<Rightarrow> AmazonQTokenServiceManager" where
  "resetCodewhispererService m =
     m\<lparr>bm_aborted := bm_aborted m @ (case bm_service m of None \<Rightarrow> [] | Some s \<Rightarrow> [s]) @ (case bm_streaming m of None \<Rightarrow> [] | Some s \<Rightarrow> [s]),
       bm_service := None, bm_streaming := None, tm_notifier := None, tm_activeIdcProfile := None, tm_region := None, tm_endpoint := None\<rparr>"

definition serviceFactory :: "manager_features \<Rightarrow> string \<Rightarrow> string \<Rightarrow> AmazonQTokenServiceManager \<Rightarrow> service_client \<times> AmazonQTokenServiceManager" where
  "serviceFactory F region endpoint m =
     (let (notifier, m1) = getQDevAccessBlockedNotifier F m
      in (\<lparr>sc_region = region, sc_endpoint = endpoint, sc_profileArn = map_option dp_arn (tm_activeIdcProfile m),
           sc_customizationArn = configured_arn (bm_config m), sc_shareContent = configured_share (bm_config m), sc_onAccessBlocked = notifier\<rparr>, m1))"

definition streamingClientFactory :: "manager_features \<Rightarrow> string \<Rightarrow> string \<Rightarrow> AmazonQTokenServiceManager \<Rightarrow> service_client \<times> AmazonQTokenServiceManager" where
  "streamingClientFactory F region endpoint m =
     (let (notifier, m1) = getQDevAccessBlockedNotifier F m
      in (\<lparr>sc_region = region, sc_endpoint = endpoint, sc_profileArn = map_option dp_arn (tm_activeIdcProfile m),
           sc_customizationArn = None, sc_shareContent = configured_share (bm_config m), sc_onAccessBlocked = notifier\<rparr>, m1))"

definition createCodewhispererServiceInstances ::
    "manager_features \<Rightarrow> SsoConnectionType \<Rightarrow> string option \<Rightarrow> AmazonQTokenServiceManager \<Rightarrow> AmazonQTokenServiceManager" where
  "createCodewhispererServiceInstances F connectionType clientOrProfileRegion m =
     (let (region, endpoint0) = getAmazonQRegionAndEndpoint F clientOrProfileRegion;
          endpoint = (if truthy (mf_endpointOverride F) then the (mf_endpointOverride F) else endpoint0);
          m1 = m\<lparr>tm_connectionType := connectionType, tm_region := Some region, tm_endpoint := Some endpoint\<rparr>;
          (service, m2) = serviceFactory F region endpoint m1;
          (streaming, m3) = streamingClientFactory F region endpoint (m2\<lparr>bm_service := Some service\<rparr>)
      in m3\<lparr>bm_streaming := Some streaming\<rparr>)"

subsection \<open>Connection\<close>

definition handleSsoConnectionChange :: "manager_features \<Rightarrow> credentials \<Rightarrow> AmazonQTokenServiceManager \<Rightarrow> AmazonQTokenServiceManager" where
  "handleSsoConnectionChange F c m =
     (if \<not> cr_hasBearer c \<or> cr_connectionType c = No_connection
      then if tm_state m \<noteq> PENDING_CONNECTION
           then (resetCodewhispererService m)\<lparr>tm_connectionType := No_connection, tm_state := PENDING_CONNECTION\<rparr> else m
      else if cr_connectionType c = tm_connectionType m then m
      else if cr_connectionType c = Builder_id \<or> cr_connectionType c = External_idp
      then (createCodewhispererServiceInstances F (cr_connectionType c) (mf_clientRegion F) (resetCodewhispererService m))\<lparr>tm_state := INITIALIZED\<rparr>
      else if tm_enableDeveloperProfileSupport m
      then (resetCodewhispererService m)\<lparr>tm_connectionType := Identity_center, tm_state := PENDING_Q_PROFILE\<rparr>
      else (createCodewhispererServiceInstances F Identity_center None (resetCodewhispererService m))\<lparr>tm_state := INITIALIZED\<rparr>)"

definition handleOnCredentialsDeleted :: "CredentialsType \<Rightarrow> AmazonQTokenServiceManager \<Rightarrow> AmazonQTokenServiceManager" where
  "handleOnCredentialsDeleted type m =
     (if type = Iam_credentials then m
      else (resetCodewhispererService m)\<lparr>tm_connectionType := No_connection, tm_state := PENDING_CONNECTION\<rparr>)"

definition handleOnCredentialsUpdated :: "manager_features \<Rightarrow> CredentialsType \<Rightarrow> credentials \<Rightarrow> AmazonQTokenServiceManager \<Rightarrow> AmazonQTokenServiceManager" where
  "handleOnCredentialsUpdated F type c m = (if type \<noteq> Bearer_credentials then m else handleSsoConnectionChange F c m)"

subsection \<open>Profile\<close>

definition onRegionChange :: "nat \<Rightarrow> AmazonQTokenServiceManager \<Rightarrow> AmazonQTokenServiceManager" where
  "onRegionChange l m =
     (let m1 = m\<lparr>tm_regionListeners := tm_regionListeners m @ [l]\<rparr>
      in if truthy (tm_region m) then m1\<lparr>tm_regionsTold := tm_regionsTold m @ [(l, the (tm_region m))]\<rparr> else m1)"

definition unregister_region_listener :: "nat \<Rightarrow> AmazonQTokenServiceManager \<Rightarrow> AmazonQTokenServiceManager" where
  "unregister_region_listener l m = m\<lparr>tm_regionListeners := filter (\<lambda>k. k \<noteq> l) (tm_regionListeners m)\<rparr>"

definition notifyRegionChangeListeners :: "string \<Rightarrow> AmazonQTokenServiceManager \<Rightarrow> AmazonQTokenServiceManager" where
  "notifyRegionChangeListeners region m = m\<lparr>tm_regionsTold := tm_regionsTold m @ map (\<lambda>l. (l, region)) (tm_regionListeners m)\<rparr>"

text \<open>
  The part of a profile change after the profile is found valid; the three flags say whether the token is cancelled at each of the
  three points where it is read.
\<close>

definition switch_profile ::
    "manager_features \<Rightarrow> AmazonQDeveloperProfile \<Rightarrow> bool \<times> bool \<times> bool \<Rightarrow> AmazonQTokenServiceManager \<Rightarrow> AmazonQTokenServiceManager \<times> (AmazonQError + unit)" where
  "switch_profile F newProfile cancelled m =
     (if fst cancelled then (m, Inl AmazonQServiceProfileUpdateCancelled)
      else case tm_activeIdcProfile m of
        None \<Rightarrow> ((createCodewhispererServiceInstances F Identity_center (Some (dp_region newProfile)) (m\<lparr>tm_activeIdcProfile := Some newProfile\<rparr>))
                   \<lparr>tm_state := INITIALIZED\<rparr>, Inr ())
      | Some old \<Rightarrow>
          if dp_arn old = dp_arn newProfile then (m\<lparr>tm_activeIdcProfile := Some newProfile, tm_state := INITIALIZED\<rparr>, Inr ())
          else if fst (snd cancelled) then (m, Inl AmazonQServiceProfileUpdateCancelled)
          else if dp_region old = dp_region newProfile
          then (m\<lparr>tm_activeIdcProfile := Some newProfile, tm_state := INITIALIZED,
                  bm_service := map_option (\<lambda>s. s\<lparr>sc_profileArn := Some (dp_arn newProfile)\<rparr>) (bm_service m),
                  bm_streaming := map_option (\<lambda>s. s\<lparr>sc_profileArn := Some (dp_arn newProfile)\<rparr>) (bm_streaming m)\<rparr>, Inr ())
          else let m1 = notifyRegionChangeListeners (dp_region newProfile) m
               in if snd (snd cancelled) then (m1, Inl AmazonQServiceProfileUpdateCancelled)
                  else ((createCodewhispererServiceInstances F Identity_center (Some (dp_region newProfile))
                           ((resetCodewhispererService m1)\<lparr>tm_activeIdcProfile := Some newProfile\<rparr>))\<lparr>tm_state := INITIALIZED\<rparr>, Inr ()))"

text \<open>The change itself, from the state to be pending on; \<^const>\<open>None\<close> is the profile \<^verbatim>\<open>null\<close>.\<close>

definition change_profile ::
    "manager_features \<Rightarrow> string option \<Rightarrow> bool \<times> bool \<times> bool \<Rightarrow> AmazonQTokenServiceManager \<Rightarrow> AmazonQTokenServiceManager \<times> (AmazonQError + unit)" where
  "change_profile F newProfileArn cancelled m =
     (case newProfileArn of
        None \<Rightarrow> ((resetCodewhispererService m)\<lparr>tm_state := PENDING_Q_PROFILE\<rparr>, Inr ())
      | Some arn \<Rightarrow>
          (case mf_parseArn F arn of
             None \<Rightarrow> (m, Inl (Plain_error ''Malformed ARN''))
           | Some region \<Rightarrow>
               if \<not> truthy (AWS_Q_ENDPOINTS region) then (m, Inl (Plain_error ''Requested profileArn region is not supported''))
               else if region = [] then ((resetCodewhispererService m)\<lparr>tm_state := PENDING_Q_PROFILE\<rparr>, Inl AmazonQServiceInvalidProfileError)
               else switch_profile F \<lparr>dp_arn = arn, dp_region = region\<rparr> cancelled m))"

definition handleProfileChange ::
    "manager_features \<Rightarrow> credentials \<Rightarrow> string option \<Rightarrow> bool \<times> bool \<times> bool \<Rightarrow> AmazonQTokenServiceManager
       \<Rightarrow> AmazonQTokenServiceManager \<times> (AmazonQError + unit)" where
  "handleProfileChange F c newProfileArn cancelled m =
     (if \<not> tm_enableDeveloperProfileSupport m then (m, Inr ())
      else if newProfileArn = Some [] then (m, Inl (Plain_error ''Received invalid Profile ARN (empty string)''))
      else let m1 = handleSsoConnectionChange F c m
           in if tm_connectionType m1 = No_connection \<and> newProfileArn = None then (m1, Inr ())
              else let m2 = (if tm_connectionType m1 = No_connection
                             then m1\<lparr>tm_connectionType := Identity_center, tm_state := PENDING_Q_PROFILE_UPDATE\<rparr> else m1)
                   in if tm_connectionType m2 \<noteq> Identity_center then (m2, Inl AmazonQServiceNoProfileSupportError)
                      else change_profile F newProfileArn cancelled
                             (if tm_state m2 = INITIALIZED \<and> tm_activeIdcProfile m2 \<noteq> None \<or> tm_state m2 = PENDING_Q_PROFILE
                              then m2\<lparr>tm_state := PENDING_Q_PROFILE_UPDATE\<rparr> else m2))"

subsection \<open>Requests\<close>

definition Q_CONFIGURATION_SECTION :: string where "Q_CONFIGURATION_SECTION = ''aws.q''"

text \<open>The setting of the profile in a request: not there, of a wrong type, or a name or \<^verbatim>\<open>null\<close>. Of a
  response error the model keeps the kind and the code.\<close>

datatype profile_setting = Setting_absent | Setting_invalid | Setting_profile "string option"

datatype response_error = Server_cancelled "string option" | Request_failed "string option"

definition error_code :: "AmazonQError \<Rightarrow> string option" where
  "error_code e = (case e of
     AmazonQServiceNotInitializedError \<Rightarrow> Some ''E_AMAZON_Q_NOT_INITIALIZED''
   | AmazonQServicePendingSigninError \<Rightarrow> Some ''E_AMAZON_Q_PENDING_CONNECTION''
   | AmazonQServicePendingProfileError \<Rightarrow> Some ''E_AMAZON_Q_PENDING_PROFILE''
   | AmazonQServicePendingProfileUpdateError \<Rightarrow> Some ''E_AMAZON_Q_PENDING_PROFILE_UPDATE''
   | AmazonQServiceProfileUpdateCancelled \<Rightarrow> Some ''E_AMAZON_Q_PROFILE_UPDATE_CANCELLED''
   | AmazonQServiceInvalidProfileError \<Rightarrow> Some ''E_AMAZON_Q_INVALID_PROFILE''
   | AmazonQServiceNoProfileSupportError \<Rightarrow> Some ''E_AMAZON_Q_CONNECTION_NO_PROFILE_SUPPORT''
   | Plain_error _ \<Rightarrow> None)"

definition update_error :: "AmazonQError \<Rightarrow> response_error" where
  "update_error e = (if e = AmazonQServiceProfileUpdateCancelled then Server_cancelled (error_code e) else Request_failed (error_code e))"

definition handleOnUpdateConfiguration ::
    "manager_features \<Rightarrow> credentials \<Rightarrow> string \<Rightarrow> profile_setting \<Rightarrow> bool \<times> bool \<times> bool \<Rightarrow> AmazonQTokenServiceManager
       \<Rightarrow> AmazonQTokenServiceManager \<times> (response_error + unit)" where
  "handleOnUpdateConfiguration F c sect setting cancelled m =
     (if sect \<noteq> Q_CONFIGURATION_SECTION then (m, Inr ())
      else case setting of
        Setting_absent \<Rightarrow> (m, Inr ())
      | Setting_invalid \<Rightarrow> (m, Inl (Request_failed None))
      | Setting_profile arn \<Rightarrow> map_prod id (map_sum update_error id) (handleProfileChange F c arn cancelled m))"

definition getCodewhispererService ::
    "manager_features \<Rightarrow> credentials \<Rightarrow> AmazonQTokenServiceManager \<Rightarrow> AmazonQTokenServiceManager \<times> (AmazonQError + service_client)" where
  "getCodewhispererService F c m =
     (if tm_state m = PENDING_Q_PROFILE_UPDATE then (m, Inl AmazonQServicePendingProfileUpdateError)
      else if \<not> cr_hasBearer c then (m, Inl AmazonQServicePendingSigninError)
      else let m1 = handleSsoConnectionChange F c m
           in (m1, if tm_state m1 = INITIALIZED \<and> bm_service m1 \<noteq> None then Inr (the (bm_service m1))
                   else if tm_state m1 = PENDING_CONNECTION then Inl AmazonQServicePendingSigninError
                   else if tm_state m1 = PENDING_Q_PROFILE then Inl AmazonQServicePendingProfileError
                   else Inl AmazonQServiceNotInitializedError))"

definition getStreamingClient ::
    "manager_features \<Rightarrow> credentials \<Rightarrow> AmazonQTokenServiceManager \<Rightarrow> AmazonQTokenServiceManager \<times> (AmazonQError + service_client)" where
  "getStreamingClient F c m =
     (case getCodewhispererService F c m of
        (m1, Inl e) \<Rightarrow> (m1, Inl e)
      | (m1, Inr tokenService) \<Rightarrow>
          let (region, endpoint) = getAmazonQRegionAndEndpoint F (map_option dp_region (tm_activeIdcProfile m1))
          in if region = [] \<or> endpoint = [] then (m1, Inl AmazonQServiceNotInitializedError)
             else case bm_streaming m1 of
               Some s \<Rightarrow> (m1, Inr s)
             | None \<Rightarrow> (let (s, m2) = streamingClientFactory F region endpoint m1 in (m2\<lparr>bm_streaming := Some s\<rparr>, Inr s)))"

section \<open>The manager for signed requests\<close>

record AmazonQIAMServiceManager = BaseAmazonQServiceManager +
  im_region :: string
  im_endpoint :: string

definition iam_manager :: "manager_features \<Rightarrow> AmazonQIAMServiceManager" where
  "iam_manager F = \<lparr>bm_config = defaultAmazonQWorkspaceConfigFactory, bm_service = None, bm_streaming = None,
     bm_atxService = None, bm_atxStreaming = None, bm_change = Change_none, bm_listeners = [], bm_told = [], bm_aborted = [],
     im_region = fst (getAmazonQRegionAndEndpoint F None), im_endpoint = snd (getAmazonQRegionAndEndpoint F None)\<rparr>"

text \<open>A new service client does not share content; a new streaming client has no setting.\<close>

definition iam_client :: "bool option \<Rightarrow> AmazonQIAMServiceManager \<Rightarrow> service_client" where
  "iam_client share m = \<lparr>sc_region = im_region m, sc_endpoint = im_endpoint m, sc_profileArn = None, sc_customizationArn = None,
     sc_shareContent = share, sc_onAccessBlocked = None\<rparr>"

definition iam_getCodewhispererService :: "AmazonQIAMServiceManager \<Rightarrow> AmazonQIAMServiceManager \<times> service_client" where
  "iam_getCodewhispererService m =
     (let m1 = (if bm_service m = None then updateCachedServiceConfig (m\<lparr>bm_service := Some (iam_client (Some False) m)\<rparr>) else m)
      in (m1, the (bm_service m1)))"

definition iam_getAtxCodewhispererService :: "AmazonQIAMServiceManager \<Rightarrow> AmazonQIAMServiceManager \<times> service_client" where
  "iam_getAtxCodewhispererService m =
     (let m1 = (if bm_atxService m = None then updateCachedServiceConfig (m\<lparr>bm_atxService := Some (iam_client (Some False) m)\<rparr>) else m)
      in (m1, the (bm_atxService m1)))"

definition iam_getStreamingClient :: "AmazonQIAMServiceManager \<Rightarrow> AmazonQIAMServiceManager \<times> service_client" where
  "iam_getStreamingClient m =
     (let m1 = (if bm_streaming m = None then m\<lparr>bm_streaming := Some (iam_client (configured_share (bm_config m)) m)\<rparr> else m)
      in (m1, the (bm_streaming m1)))"

definition iam_handleOnCredentialsDeleted :: "CredentialsType \<Rightarrow> AmazonQIAMServiceManager \<Rightarrow> AmazonQIAMServiceManager" where
  "iam_handleOnCredentialsDeleted type m =
     (if type = Iam_credentials
      then m\<lparr>bm_aborted := bm_aborted m @ (case bm_service m of None \<Rightarrow> [] | Some s \<Rightarrow> [s]) @ (case bm_streaming m of None \<Rightarrow> [] | Some s \<Rightarrow> [s]),
             bm_service := None, bm_streaming := None\<rparr>
      else m)"

section \<open>Which client the token manager has\<close>

text \<open>
  The clients are a function of the connection, the profile and the configuration: \<open>expected_service\<close> is the service client that
  belongs to the state, \<open>services_due\<close> says whether there is one at all, and the invariant says that the manager holds these.
\<close>

definition client_region :: "manager_features \<Rightarrow> AmazonQTokenServiceManager \<Rightarrow> string option" where
  "client_region F m = (case tm_activeIdcProfile m of Some p \<Rightarrow> Some (dp_region p)
     | None \<Rightarrow> if tm_connectionType m = Identity_center then None else mf_clientRegion F)"

definition client_for :: "manager_features \<Rightarrow> string option \<Rightarrow> AmazonQTokenServiceManager \<Rightarrow> service_client" where
  "client_for F region m = \<lparr>sc_region = fst (getAmazonQRegionAndEndpoint F region),
     sc_endpoint = (if truthy (mf_endpointOverride F) then the (mf_endpointOverride F) else snd (getAmazonQRegionAndEndpoint F region)),
     sc_profileArn = map_option dp_arn (tm_activeIdcProfile m), sc_customizationArn = configured_arn (bm_config m),
     sc_shareContent = configured_share (bm_config m), sc_onAccessBlocked = tm_notifier m\<rparr>"

definition expected_service :: "manager_features \<Rightarrow> AmazonQTokenServiceManager \<Rightarrow> service_client" where
  "expected_service F m = client_for F (client_region F m) m"

definition services_due :: "AmazonQTokenServiceManager \<Rightarrow> bool" where
  "services_due m \<longleftrightarrow> tm_connectionType m \<noteq> No_connection \<and>
     (tm_connectionType m = Identity_center \<and> tm_enableDeveloperProfileSupport m \<longrightarrow> tm_activeIdcProfile m \<noteq> None)"

definition clients_match :: "manager_features \<Rightarrow> AmazonQTokenServiceManager \<Rightarrow> bool" where
  "clients_match F m \<longleftrightarrow>
     bm_service m = (if services_due m then Some (expected_service F m) else None) \<and>
     bm_streaming m = map_option (\<lambda>s. s\<lparr>sc_customizationArn := None\<rparr>) (bm_service m) \<and>
     tm_region m = map_option sc_region (bm_service m) \<and> (\<not> mf_notification F \<longrightarrow> tm_notifier m = None)"

definition status_ok :: "AmazonQTokenServiceManager \<Rightarrow> bool" where
  "status_ok m \<longleftrightarrow>
     (tm_state m = PENDING_CONNECTION \<longrightarrow> tm_connectionType m = No_connection) \<and>
     (tm_state m = PENDING_Q_PROFILE \<longrightarrow>
        tm_connectionType m = Identity_center \<and> tm_enableDeveloperProfileSupport m \<and> tm_activeIdcProfile m = None) \<and>
     (tm_state m = PENDING_Q_PROFILE_UPDATE \<longrightarrow> tm_connectionType m = Identity_center \<and> tm_enableDeveloperProfileSupport m) \<and>
     (tm_state m = INITIALIZED \<longrightarrow> services_due m)"

definition profile_ok :: "manager_features \<Rightarrow> AmazonQTokenServiceManager \<Rightarrow> bool" where
  "profile_ok F m \<longleftrightarrow> (\<forall>p. tm_activeIdcProfile m = Some p \<longrightarrow>
     tm_connectionType m = Identity_center \<and> tm_enableDeveloperProfileSupport m \<and>
     mf_parseArn F (dp_arn p) = Some (dp_region p) \<and> truthy (AWS_Q_ENDPOINTS (dp_region p)))"

definition service_inv :: "manager_features \<Rightarrow> AmazonQTokenServiceManager \<Rightarrow> bool" where
  "service_inv F m \<longleftrightarrow> clients_match F m \<and> status_ok m \<and> profile_ok F m"

lemmas service_inv_defs = service_inv_def clients_match_def status_ok_def profile_ok_def services_due_def

subsection \<open>Regions\<close>

lemma supported_region:
  "truthy (AWS_Q_ENDPOINTS r) \<longleftrightarrow> r = ''us-east-1'' \<or> r = ''eu-central-1''"
  by (auto simp: truthy_def AWS_Q_ENDPOINTS_def)

lemma region_of_supported [simp]:
  "truthy (AWS_Q_ENDPOINTS r) \<Longrightarrow> getAmazonQRegionAndEndpoint F (Some r) = (r, the (AWS_Q_ENDPOINTS r))"
  by (auto simp: getAmazonQRegionAndEndpoint_def truthy_def AWS_Q_ENDPOINTS_def split: if_splits)

lemma region_present: "fst (getAmazonQRegionAndEndpoint F r) \<noteq> [] \<and> snd (getAmazonQRegionAndEndpoint F r) \<noteq> []"
  by (auto simp: getAmazonQRegionAndEndpoint_def truthy_def DEFAULT_AWS_Q_REGION_def DEFAULT_AWS_Q_ENDPOINT_URL_def Let_def
      split: option.splits)

subsection \<open>Resetting and making clients\<close>

lemma reset_fields [simp]:
  "bm_service (resetCodewhispererService m) = None" "bm_streaming (resetCodewhispererService m) = None"
  "tm_activeIdcProfile (resetCodewhispererService m) = None" "tm_region (resetCodewhispererService m) = None"
  "tm_notifier (resetCodewhispererService m) = None" "bm_config (resetCodewhispererService m) = bm_config m"
  "tm_enableDeveloperProfileSupport (resetCodewhispererService m) = tm_enableDeveloperProfileSupport m"
  "tm_connectionType (resetCodewhispererService m) = tm_connectionType m" "tm_state (resetCodewhispererService m) = tm_state m"
  "bm_change (resetCodewhispererService m) = bm_change m"
  by (simp_all add: resetCodewhispererService_def)

lemmas create_defs = createCodewhispererServiceInstances_def serviceFactory_def streamingClientFactory_def getQDevAccessBlockedNotifier_def

lemma create_fields [simp]:
  "tm_activeIdcProfile (createCodewhispererServiceInstances F ct r m) = tm_activeIdcProfile m"
  "bm_config (createCodewhispererServiceInstances F ct r m) = bm_config m"
  "tm_enableDeveloperProfileSupport (createCodewhispererServiceInstances F ct r m) = tm_enableDeveloperProfileSupport m"
  "tm_connectionType (createCodewhispererServiceInstances F ct r m) = ct"
  "tm_state (createCodewhispererServiceInstances F ct r m) = tm_state m"
  "tm_region (createCodewhispererServiceInstances F ct r m) = Some (fst (getAmazonQRegionAndEndpoint F r))"
  by (simp_all add: create_defs Let_def split: prod.splits option.splits)

lemma create_clients:
  assumes "\<not> mf_notification F \<longrightarrow> tm_notifier m = None"
  shows "bm_service (createCodewhispererServiceInstances F ct r m) = Some (client_for F r (createCodewhispererServiceInstances F ct r m))"
    and "bm_streaming (createCodewhispererServiceInstances F ct r m) =
           Some ((client_for F r (createCodewhispererServiceInstances F ct r m))\<lparr>sc_customizationArn := None\<rparr>)"
    and "\<not> mf_notification F \<longrightarrow> tm_notifier (createCodewhispererServiceInstances F ct r m) = None"
  using assms by (simp_all add: create_defs client_for_def Let_def split: prod.splits option.splits)

lemma client_for_state [simp]: "client_for F r (m\<lparr>tm_state := st\<rparr>) = client_for F r m"
  by (simp add: client_for_def)

text \<open>Clients made for the region the state asks for are the ones that belong to the state.\<close>

lemma create_match:
  assumes "\<not> mf_notification F \<longrightarrow> tm_notifier m = None" "ct \<noteq> No_connection"
    and "ct = Identity_center \<longrightarrow> tm_enableDeveloperProfileSupport m \<longrightarrow> tm_activeIdcProfile m \<noteq> None"
    and "r = (case tm_activeIdcProfile m of Some p \<Rightarrow> Some (dp_region p) | None \<Rightarrow> if ct = Identity_center then None else mf_clientRegion F)"
  shows "clients_match F ((createCodewhispererServiceInstances F ct r m)\<lparr>tm_state := st\<rparr>) \<and>
         services_due ((createCodewhispererServiceInstances F ct r m)\<lparr>tm_state := st\<rparr>)"
proof -
  let ?m = "(createCodewhispererServiceInstances F ct r m)\<lparr>tm_state := st\<rparr>"
  have due: "services_due ?m"
    using assms(2,3) by (cases ct) (simp_all add: services_due_def)
  have "client_region F ?m = r"
    using assms(4) by (simp add: client_region_def)
  with due create_clients [OF assms(1), of ct r] show ?thesis
    by (simp add: clients_match_def expected_service_def) (simp add: client_for_def)
qed

subsection \<open>Every operation keeps the invariant\<close>

lemma initialize_inv: "service_inv F (initialize_manager awsOptions)"
  by (simp add: service_inv_defs initialize_manager_def)

lemma signed_out_inv: "service_inv F ((resetCodewhispererService m)\<lparr>tm_connectionType := No_connection, tm_state := PENDING_CONNECTION\<rparr>)"
  by (simp add: service_inv_defs)

lemma created_inv:
  assumes "\<not> mf_notification F \<longrightarrow> tm_notifier m = None" "ct \<noteq> No_connection"
    and "ct = Identity_center \<longrightarrow> tm_enableDeveloperProfileSupport m \<longrightarrow> tm_activeIdcProfile m \<noteq> None"
    and "r = (case tm_activeIdcProfile m of Some p \<Rightarrow> Some (dp_region p) | None \<Rightarrow> if ct = Identity_center then None else mf_clientRegion F)"
    and "profile_ok F (m\<lparr>tm_connectionType := ct\<rparr>)"
  shows "service_inv F ((createCodewhispererServiceInstances F ct r m)\<lparr>tm_state := INITIALIZED\<rparr>)"
  using create_match [OF assms(1-4), of INITIALIZED] assms(5)
  by (simp add: service_inv_def status_ok_def profile_ok_def split: option.splits)

lemma sso_inv:
  assumes "service_inv F m"
  shows "service_inv F (handleSsoConnectionChange F c m)"
proof -
  have made: "ct = Builder_id \<or> ct = External_idp \<Longrightarrow>
      service_inv F ((createCodewhispererServiceInstances F ct (mf_clientRegion F) (resetCodewhispererService m))\<lparr>tm_state := INITIALIZED\<rparr>)" for ct
    by (rule created_inv) (auto simp: profile_ok_def)
  have idc: "\<not> tm_enableDeveloperProfileSupport m \<Longrightarrow>
      service_inv F ((createCodewhispererServiceInstances F Identity_center None (resetCodewhispererService m))\<lparr>tm_state := INITIALIZED\<rparr>)"
    by (rule created_inv) (auto simp: profile_ok_def)
  have wait: "tm_enableDeveloperProfileSupport m \<Longrightarrow>
      service_inv F ((resetCodewhispererService m)\<lparr>tm_connectionType := Identity_center, tm_state := PENDING_Q_PROFILE\<rparr>)"
    by (simp add: service_inv_defs)
  show ?thesis
    using assms by (simp add: handleSsoConnectionChange_def signed_out_inv made idc wait)
qed

lemma sso_support [simp]: "tm_enableDeveloperProfileSupport (handleSsoConnectionChange F c m) = tm_enableDeveloperProfileSupport m"
  by (simp add: handleSsoConnectionChange_def)

text \<open>While a profile is being set: the connection is one with profiles, and the clients are those of the old profile.\<close>

definition updating :: "manager_features \<Rightarrow> AmazonQTokenServiceManager \<Rightarrow> bool" where
  "updating F m \<longleftrightarrow> service_inv F m \<and> tm_state m = PENDING_Q_PROFILE_UPDATE"

lemma updating_facts:
  assumes "updating F m"
  shows "service_inv F m" "tm_connectionType m = Identity_center" "tm_enableDeveloperProfileSupport m"
    "tm_state m = PENDING_Q_PROFILE_UPDATE" "\<not> mf_notification F \<longrightarrow> tm_notifier m = None"
  using assms by (auto simp: updating_def service_inv_def status_ok_def clients_match_def)

lemma expected_service_simps [simp]:
  "expected_service F (m\<lparr>tm_state := st\<rparr>) = expected_service F m"
  "expected_service F (m\<lparr>tm_regionsTold := a\<rparr>) = expected_service F m"
  "expected_service F (m\<lparr>bm_service := b\<rparr>) = expected_service F m"
  "expected_service F (m\<lparr>bm_streaming := b\<rparr>) = expected_service F m"
  by (simp_all add: expected_service_def client_for_def client_region_def)

lemma same_region_inv:
  assumes "updating F m" "tm_activeIdcProfile m = Some old" "dp_region old = dp_region new"
    and "mf_parseArn F (dp_arn new) = Some (dp_region new)"
  shows "service_inv F (m\<lparr>tm_activeIdcProfile := Some new, tm_state := INITIALIZED,
           bm_service := map_option (\<lambda>s. s\<lparr>sc_profileArn := Some (dp_arn new)\<rparr>) (bm_service m),
           bm_streaming := map_option (\<lambda>s. s\<lparr>sc_profileArn := Some (dp_arn new)\<rparr>) (bm_streaming m)\<rparr>)"
  using assms by (simp add: updating_def service_inv_defs expected_service_def client_for_def client_region_def)

lemma same_profile_inv:
  assumes "updating F m" "tm_activeIdcProfile m = Some old" "dp_arn old = dp_arn new"
    and "mf_parseArn F (dp_arn new) = Some (dp_region new)"
  shows "service_inv F (m\<lparr>tm_activeIdcProfile := Some new, tm_state := INITIALIZED\<rparr>)"
proof -
  have "old = new"
    using assms by (cases old; cases new) (simp add: updating_def service_inv_def profile_ok_def)
  with assms show ?thesis
    by (simp add: updating_def service_inv_defs expected_service_def client_for_def client_region_def)
qed

lemma notify_inv: "updating F m \<Longrightarrow> updating F (notifyRegionChangeListeners region m)"
  by (simp add: updating_def notifyRegionChangeListeners_def service_inv_defs)

lemma switch_profile_inv:
  assumes up: "updating F m" and arn: "mf_parseArn F (dp_arn new) = Some (dp_region new)" "truthy (AWS_Q_ENDPOINTS (dp_region new))"
  shows "service_inv F (fst (switch_profile F new cancelled m))"
proof -
  note u = updating_facts [OF up]
  have first: "tm_activeIdcProfile m = None \<Longrightarrow> service_inv F ((createCodewhispererServiceInstances F Identity_center (Some (dp_region new))
      (m\<lparr>tm_activeIdcProfile := Some new\<rparr>))\<lparr>tm_state := INITIALIZED\<rparr>)"
    using u arn by (intro created_inv) (simp_all add: profile_ok_def)
  have next_region: "service_inv F ((createCodewhispererServiceInstances F Identity_center (Some (dp_region new))
      ((resetCodewhispererService (notifyRegionChangeListeners (dp_region new) m))\<lparr>tm_activeIdcProfile := Some new\<rparr>))\<lparr>tm_state := INITIALIZED\<rparr>)"
    using u arn by (intro created_inv) (simp_all add: profile_ok_def notifyRegionChangeListeners_def)
  have told: "service_inv F (notifyRegionChangeListeners (dp_region new) m)"
    using notify_inv [OF up] by (simp add: updating_def)
  show ?thesis
    using u(1) first next_region told same_region_inv [OF up] same_profile_inv [OF up] arn
    by (simp add: switch_profile_def Let_def split: option.splits)
qed

lemma change_profile_inv:
  assumes "updating F m"
  shows "service_inv F (fst (change_profile F newProfileArn cancelled m))"
proof -
  have "service_inv F ((resetCodewhispererService m)\<lparr>tm_state := PENDING_Q_PROFILE\<rparr>)"
    using updating_facts [OF assms] by (simp add: service_inv_defs)
  with switch_profile_inv [OF assms] updating_facts(1) [OF assms] show ?thesis
    by (auto simp: change_profile_def split: option.splits)
qed

text \<open>The state a profile change starts from, after the connection was looked at.\<close>

definition pending_on :: "AmazonQTokenServiceManager \<Rightarrow> AmazonQTokenServiceManager" where
  "pending_on m1 =
     (let m2 = (if tm_connectionType m1 = No_connection then m1\<lparr>tm_connectionType := Identity_center, tm_state := PENDING_Q_PROFILE_UPDATE\<rparr> else m1)
      in if tm_state m2 = INITIALIZED \<and> tm_activeIdcProfile m2 \<noteq> None \<or> tm_state m2 = PENDING_Q_PROFILE
         then m2\<lparr>tm_state := PENDING_Q_PROFILE_UPDATE\<rparr> else m2)"

lemma pending_on_updating:
  assumes "service_inv F m" "tm_enableDeveloperProfileSupport m" "tm_connectionType m = No_connection \<or> tm_connectionType m = Identity_center"
  shows "updating F (pending_on m)"
proof -
  have state: "tm_state (pending_on m) = PENDING_Q_PROFILE_UPDATE"
    using assms by (cases "tm_state m") (auto simp: pending_on_def service_inv_defs)
  have "service_inv F (pending_on m)"
  proof (cases "tm_connectionType m = No_connection")
    case True
    with assms show ?thesis
      by (auto simp: pending_on_def service_inv_defs)
  next
    case False
    with assms show ?thesis
      by (auto simp: pending_on_def service_inv_defs)
  qed
  with state show ?thesis
    by (simp add: updating_def)
qed

lemma handleProfileChange_alt:
  "handleProfileChange F c newProfileArn cancelled m =
     (let m1 = handleSsoConnectionChange F c m
      in if \<not> tm_enableDeveloperProfileSupport m then (m, Inr ())
         else if newProfileArn = Some [] then (m, Inl (Plain_error ''Received invalid Profile ARN (empty string)''))
         else if tm_connectionType m1 = No_connection \<and> newProfileArn = None then (m1, Inr ())
         else if tm_connectionType m1 = No_connection \<or> tm_connectionType m1 = Identity_center
         then change_profile F newProfileArn cancelled (pending_on m1)
         else (m1, Inl AmazonQServiceNoProfileSupportError))"
  by (auto simp: handleProfileChange_def pending_on_def Let_def)

lemma handleProfileChange_inv:
  assumes "service_inv F m"
  shows "service_inv F (fst (handleProfileChange F c newProfileArn cancelled m))"
  using assms sso_inv [OF assms, of c] change_profile_inv [OF pending_on_updating [OF sso_inv [OF assms, of c]]]
  by (simp add: handleProfileChange_alt Let_def)

lemma update_configuration_inv:
  "service_inv F m \<Longrightarrow> service_inv F (fst (handleOnUpdateConfiguration F c sect setting cancelled m))"
  by (cases setting) (simp_all add: handleOnUpdateConfiguration_def handleProfileChange_inv)

lemma deleted_inv: "service_inv F m \<Longrightarrow> service_inv F (handleOnCredentialsDeleted type m)"
  by (simp add: handleOnCredentialsDeleted_def signed_out_inv)

lemma updated_inv: "service_inv F m \<Longrightarrow> service_inv F (handleOnCredentialsUpdated F type c m)"
  by (simp add: handleOnCredentialsUpdated_def sso_inv)

lemma get_service_inv: "service_inv F m \<Longrightarrow> service_inv F (fst (getCodewhispererService F c m))"
  by (simp add: getCodewhispererService_def Let_def sso_inv)

text \<open>A service that is handed out comes with a streaming client, so the client is never made by \<^verbatim>\<open>getStreamingClient\<close>.\<close>

lemma streaming_with_service:
  assumes "service_inv F m" "getCodewhispererService F c m = (m1, Inr s)"
  shows "bm_service m1 = Some s \<and> bm_streaming m1 = Some (s\<lparr>sc_customizationArn := None\<rparr>)"
proof -
  have "service_inv F m1"
    using get_service_inv [OF assms(1), of c] assms(2) by simp
  moreover have "bm_service m1 = Some s"
    using assms(2) by (auto simp: getCodewhispererService_def Let_def split: if_splits)
  ultimately show ?thesis
    by (simp add: service_inv_def clients_match_def)
qed

lemma getStreamingClient_eq:
  assumes "service_inv F m"
  shows "getStreamingClient F c m = map_prod id (map_sum id (\<lambda>s. s\<lparr>sc_customizationArn := None\<rparr>)) (getCodewhispererService F c m)"
proof (cases "getCodewhispererService F c m")
  case (Pair m1 answer)
  then show ?thesis
    using streaming_with_service [OF assms, of c m1] region_present [of F "map_option dp_region (tm_activeIdcProfile m1)"]
    by (cases answer) (simp_all add: getStreamingClient_def Let_def case_prod_beta)
qed

lemma get_streaming_inv: "service_inv F m \<Longrightarrow> service_inv F (fst (getStreamingClient F c m))"
  by (simp add: getStreamingClient_eq get_service_inv)

lemma sections_inv: "service_inv F m \<Longrightarrow> service_inv F (sections_arrived supported q c m)"
  by (auto simp: sections_arrived_def notifyDidChangeConfigurationListeners_def updateCachedServiceConfig_def Let_def service_inv_defs
      expected_service_def client_for_def client_region_def)

text \<open>The other operations change no field the invariant reads.\<close>

lemma service_inv_frame:
  assumes "service_inv F m"
    and "bm_service m' = bm_service m" "bm_streaming m' = bm_streaming m" "bm_config m' = bm_config m" "tm_region m' = tm_region m"
    and "tm_notifier m' = tm_notifier m" "tm_connectionType m' = tm_connectionType m" "tm_activeIdcProfile m' = tm_activeIdcProfile m"
    and "tm_enableDeveloperProfileSupport m' = tm_enableDeveloperProfileSupport m" "tm_state m' = tm_state m"
  shows "service_inv F m'"
  using assms by (simp add: service_inv_defs expected_service_def client_for_def client_region_def)

lemma listener_inv:
  assumes "service_inv F m"
  shows "service_inv F (handleDidChangeConfiguration m)" "service_inv F (listeners_settled m)"
    "service_inv F (addDidChangeConfigurationListener l m)" "service_inv F (removeDidChangeConfigurationListener l m)"
    "service_inv F (onRegionChange l m)" "service_inv F (unregister_region_listener l m)"
  by (rule service_inv_frame [OF assms]; simp add: handleDidChangeConfiguration_def listeners_settled_def addDidChangeConfigurationListener_def
      removeDidChangeConfigurationListener_def onRegionChange_def unregister_region_listener_def Let_def)+

section \<open>Runs of the token manager\<close>

inductive manager_reachable :: "manager_features \<Rightarrow> AmazonQTokenServiceManager \<Rightarrow> bool" for F where
  started: "manager_reachable F (initialize_manager awsOptions)"
| credentials_deleted: "manager_reachable F m \<Longrightarrow> manager_reachable F (handleOnCredentialsDeleted type m)"
| credentials_updated: "manager_reachable F m \<Longrightarrow> manager_reachable F (handleOnCredentialsUpdated F type c m)"
| configuration_updated: "manager_reachable F m \<Longrightarrow> manager_reachable F (fst (handleOnUpdateConfiguration F c sect setting cancelled m))"
| service_asked: "manager_reachable F m \<Longrightarrow> manager_reachable F (fst (getCodewhispererService F c m))"
| streaming_asked: "manager_reachable F m \<Longrightarrow> manager_reachable F (fst (getStreamingClient F c m))"
| configuration_changed: "manager_reachable F m \<Longrightarrow> manager_reachable F (handleDidChangeConfiguration m)"
| sections_read: "manager_reachable F m \<Longrightarrow> bm_change m = Change_fetching \<Longrightarrow> manager_reachable F (sections_arrived supported q cw m)"
| listeners_done: "manager_reachable F m \<Longrightarrow> bm_change m = Change_notifying \<Longrightarrow> manager_reachable F (listeners_settled m)"
| listener_added: "manager_reachable F m \<Longrightarrow> manager_reachable F (addDidChangeConfigurationListener l m)"
| listener_removed: "manager_reachable F m \<Longrightarrow> manager_reachable F (removeDidChangeConfigurationListener l m)"
| region_listener_added: "manager_reachable F m \<Longrightarrow> manager_reachable F (onRegionChange l m)"
| region_listener_removed: "manager_reachable F m \<Longrightarrow> manager_reachable F (unregister_region_listener l m)"

lemma reachable_inv: "manager_reachable F m \<Longrightarrow> service_inv F m"
  by (induction rule: manager_reachable.induct)
    (auto intro: initialize_inv deleted_inv updated_inv update_configuration_inv get_service_inv get_streaming_inv sections_inv listener_inv)

lemma got_service:
  assumes "service_inv F m" "getCodewhispererService F c m = (m', Inr s)"
  shows "cr_hasBearer c \<and> cr_connectionType c \<noteq> No_connection \<and> tm_connectionType m' = cr_connectionType c \<and>
    service_inv F m' \<and> bm_service m' = Some s \<and> tm_enableDeveloperProfileSupport m' = tm_enableDeveloperProfileSupport m"
proof -
  have run: "cr_hasBearer c" "m' = handleSsoConnectionChange F c m" "tm_state m' = INITIALIZED" "bm_service m' = Some s"
    using assms(2) by (auto simp: getCodewhispererService_def Let_def split: if_splits)
  have inv: "service_inv F m'"
    using sso_inv [OF assms(1)] run(2) by simp
  have "cr_connectionType c \<noteq> No_connection"
    using run(2,3) inv assms(1) by (auto simp: handleSsoConnectionChange_def service_inv_defs split: if_splits)
  moreover from this have "tm_connectionType m' = cr_connectionType c"
    using run(1,2) by (cases "cr_connectionType c") (auto simp: handleSsoConnectionChange_def)
  ultimately show ?thesis
    using run inv by simp
qed

lemma expected_region:
  assumes "service_inv F m" "tm_activeIdcProfile m = Some p"
  shows "sc_region (expected_service F m) = dp_region p" "sc_profileArn (expected_service F m) = Some (dp_arn p)"
  using assms by (simp_all add: expected_service_def client_for_def client_region_def service_inv_def profile_ok_def)

text \<open>
  C39. In every run, a service that the manager hands out belongs to what holds at that moment: there are bearer credentials, the
  connection the manager is in is the one the credentials have, and the client has the region, the endpoint, the profile, the
  customization and the sharing setting of the current profile and configuration. The streaming client of the same moment has the
  same settings. With developer profiles, a connection through the identity centre gets a service only once a profile is selected,
  and then with its name and its region; without, the service has no profile.
\<close>

theorem handed_out_service:
  assumes "manager_reachable F m" "getCodewhispererService F c m = (m', Inr s)"
  shows "cr_hasBearer c \<and> cr_connectionType c \<noteq> No_connection \<and> tm_connectionType m' = cr_connectionType c \<and>
    s = expected_service F m' \<and> getStreamingClient F c m = (m', Inr (s\<lparr>sc_customizationArn := None\<rparr>)) \<and>
    (if cr_connectionType c = Identity_center \<and> tm_enableDeveloperProfileSupport m
     then \<exists>p. tm_activeIdcProfile m' = Some p \<and> sc_profileArn s = Some (dp_arn p) \<and> mf_parseArn F (dp_arn p) = Some (sc_region s)
     else sc_profileArn s = None)"
proof -
  note got = got_service [OF reachable_inv [OF assms(1)] assms(2)]
  then have s: "s = expected_service F m'" and due: "services_due m'"
    by (auto simp: service_inv_def clients_match_def split: if_splits)
  have "getStreamingClient F c m = (m', Inr (s\<lparr>sc_customizationArn := None\<rparr>))"
    using getStreamingClient_eq [OF reachable_inv [OF assms(1)], of c] assms(2) by simp
  moreover have "\<exists>p. tm_activeIdcProfile m' = Some p \<and> sc_profileArn s = Some (dp_arn p) \<and> mf_parseArn F (dp_arn p) = Some (sc_region s)"
    if prof: "cr_connectionType c = Identity_center \<and> tm_enableDeveloperProfileSupport m"
  proof -
    obtain p where p: "tm_activeIdcProfile m' = Some p"
      using due prof got by (auto simp: services_due_def)
    with got show ?thesis
      using expected_region [of F m' p] s by (auto simp: service_inv_def profile_ok_def)
  qed
  moreover have "sc_profileArn s = None" if "\<not> (cr_connectionType c = Identity_center \<and> tm_enableDeveloperProfileSupport m)"
  proof -
    have "tm_activeIdcProfile m' = None"
      using that got by (cases "tm_activeIdcProfile m'") (auto simp: service_inv_def profile_ok_def)
    then show ?thesis
      by (simp add: s expected_service_def client_for_def)
  qed
  ultimately show ?thesis
    using got s by simp
qed

text \<open>Concrete features for evaluation: a resource name is its region after the first four characters.\<close>

definition demo_features :: manager_features where
  "demo_features = \<lparr>mf_clientRegion = Some ''us-east-1'', mf_runtimeRegion = None, mf_runtimeEndpoint = None, mf_endpointOverride = None,
     mf_notification = True, mf_parseArn = (\<lambda>a. if take 4 a = ''arn:'' then Some (drop 4 a) else None)\<rparr>"

definition demo_credentials :: credentials where
  "demo_credentials = \<lparr>cr_hasBearer = True, cr_connectionType = Identity_center\<rparr>"

definition demo_manager :: AmazonQTokenServiceManager where
  "demo_manager = fst (handleOnUpdateConfiguration demo_features demo_credentials ''aws.q'' (Setting_profile (Some ''arn:eu-central-1''))
     (False, False, False) (initialize_manager (Some (Some (J_object [(''developerProfiles'', J_bool True)])))))"

lemma demo_reachable: "manager_reachable demo_features demo_manager"
  unfolding demo_manager_def by (intro manager_reachable.intros)

lemmas demo_defs = demo_features_def demo_credentials_def demo_manager_def handleOnUpdateConfiguration_def handleProfileChange_def
  handleSsoConnectionChange_def initialize_manager_def signalsAWSQDeveloperProfilesEnabled_def change_profile_def switch_profile_def
  create_defs resetCodewhispererService_def getCodewhispererService_def Q_CONFIGURATION_SECTION_def

lemma demo_service:
  "\<exists>s. getCodewhispererService demo_features demo_credentials demo_manager = (demo_manager, Inr s) \<and> sc_endpoint s = ''https://q.eu-central-1.amazonaws.com/''"
  by (simp add: demo_defs Let_def getAmazonQRegionAndEndpoint_def AWS_Q_ENDPOINTS_def truthy_def)

theorem handed_out_service_witness:
  "\<exists>s p. getCodewhispererService demo_features demo_credentials demo_manager = (demo_manager, Inr s) \<and>
     s = expected_service demo_features demo_manager \<and>
     tm_activeIdcProfile demo_manager = Some p \<and> sc_profileArn s = Some (dp_arn p) \<and> mf_parseArn demo_features (dp_arn p) = Some (sc_region s)"
proof -
  obtain s where s: "getCodewhispererService demo_features demo_credentials demo_manager = (demo_manager, Inr s)"
    using demo_service by blast
  have "tm_enableDeveloperProfileSupport demo_manager" "cr_connectionType demo_credentials = Identity_center"
    by (simp_all add: demo_defs Let_def getAmazonQRegionAndEndpoint_def AWS_Q_ENDPOINTS_def truthy_def)
  then show ?thesis
    using handed_out_service [OF demo_reachable s] s by auto
qed

section \<open>Selecting a profile\<close>

lemma sso_same:
  "cr_hasBearer c \<Longrightarrow> cr_connectionType c \<noteq> No_connection \<Longrightarrow> tm_connectionType m = cr_connectionType c \<Longrightarrow> handleSsoConnectionChange F c m = m"
  by (simp add: handleSsoConnectionChange_def)

lemma sso_type:
  "cr_hasBearer c \<Longrightarrow> cr_connectionType c \<noteq> No_connection \<Longrightarrow> tm_connectionType (handleSsoConnectionChange F c m) = cr_connectionType c"
  by (cases "cr_connectionType c") (auto simp: handleSsoConnectionChange_def)

lemma switch_profile_done:
  assumes "tm_connectionType m = Identity_center"
  shows "\<exists>m'. switch_profile F new (False, False, False) m = (m', Inr ()) \<and> tm_activeIdcProfile m' = Some new \<and>
    tm_state m' = INITIALIZED \<and> tm_connectionType m' = Identity_center"
  using assms by (auto simp: switch_profile_def Let_def split: option.splits)

lemma served:
  assumes "service_inv F m" "tm_state m = INITIALIZED" "tm_connectionType m = cr_connectionType c" "cr_hasBearer c"
  shows "getCodewhispererService F c m = (m, Inr (expected_service F m))"
proof -
  have due: "services_due m" and "bm_service m = Some (expected_service F m)"
    using assms by (auto simp: service_inv_def status_ok_def clients_match_def)
  with assms show ?thesis
    by (simp add: getCodewhispererService_def services_due_def sso_same)
qed

text \<open>
  C40. In every run, from whatever state the manager is in, selecting a profile of a supported region with a connection through the
  identity centre takes effect: the update succeeds unless it is cancelled, and from then on a request with these credentials is
  served by a client with that profile and the region of its name. An update that failed before does not prevent it.
\<close>

theorem selected_profile_served:
  assumes "manager_reachable F m" "tm_enableDeveloperProfileSupport m" "cr_hasBearer c" "cr_connectionType c = Identity_center"
    and "arn \<noteq> []" "mf_parseArn F arn = Some r" "truthy (AWS_Q_ENDPOINTS r)"
  shows "\<exists>m' s. handleOnUpdateConfiguration F c ''aws.q'' (Setting_profile (Some arn)) (False, False, False) m = (m', Inr ()) \<and>
    getCodewhispererService F c m' = (m', Inr s) \<and> sc_profileArn s = Some arn \<and> sc_region s = r"
proof -
  let ?m = "pending_on (handleSsoConnectionChange F c m)"
  have conn: "tm_connectionType (handleSsoConnectionChange F c m) = Identity_center"
    using assms(3,4) by (simp add: sso_type)
  then have "tm_connectionType ?m = Identity_center"
    by (simp add: pending_on_def Let_def)
  from switch_profile_done [OF this, of F "\<lparr>dp_arn = arn, dp_region = r\<rparr>"] obtain m' where
    m': "switch_profile F \<lparr>dp_arn = arn, dp_region = r\<rparr> (False, False, False) ?m = (m', Inr ())"
      "tm_activeIdcProfile m' = Some \<lparr>dp_arn = arn, dp_region = r\<rparr>" "tm_state m' = INITIALIZED" "tm_connectionType m' = Identity_center"
    by blast
  have region: "r \<noteq> []"
    using assms(7) by (auto simp: supported_region)
  have done': "handleProfileChange F c (Some arn) (False, False, False) m = (m', Inr ())"
    using assms conn m'(1) region by (simp add: handleProfileChange_alt change_profile_def)
  have inv: "service_inv F m'"
    using handleProfileChange_inv [OF reachable_inv [OF assms(1)], of c "Some arn" "(False, False, False)"] done' by simp
  have "handleOnUpdateConfiguration F c ''aws.q'' (Setting_profile (Some arn)) (False, False, False) m = (m', Inr ())"
    using done' by (simp add: handleOnUpdateConfiguration_def Q_CONFIGURATION_SECTION_def)
  with served [OF inv m'(3) _ assms(3)] expected_region [OF inv m'(2)] m'(4) assms(4) show ?thesis
    by auto
qed

theorem selected_profile_served_witness:
  "\<exists>m' s. handleOnUpdateConfiguration demo_features demo_credentials ''aws.q'' (Setting_profile (Some ''arn:us-east-1'')) (False, False, False)
       demo_manager = (m', Inr ()) \<and>
     getCodewhispererService demo_features demo_credentials m' = (m', Inr s) \<and> sc_profileArn s = Some ''arn:us-east-1'' \<and> sc_region s = ''us-east-1''"
proof -
  have "tm_enableDeveloperProfileSupport demo_manager"
    by (simp add: demo_defs Let_def getAmazonQRegionAndEndpoint_def AWS_Q_ENDPOINTS_def truthy_def)
  then show ?thesis
    by (intro selected_profile_served demo_reachable)
      (simp_all add: demo_credentials_def demo_features_def supported_region)
qed

section \<open>Updates that fail, and settings that are missed\<close>

text \<open>
  An update to a name that cannot be parsed, or whose region is not supported, fails and leaves the manager pending. It then refuses
  every request although the clients of the old profile are still there, and a refresh of the credentials does not change that.
\<close>

lemma failed_update_blocks:
  assumes "manager_reachable F m" "tm_state m = INITIALIZED" "tm_activeIdcProfile m = Some p" "cr_hasBearer c" "cr_connectionType c = Identity_center"
    and "arn \<noteq> []" "mf_parseArn F arn = None \<or> mf_parseArn F arn = Some r \<and> \<not> truthy (AWS_Q_ENDPOINTS r)"
  shows "\<exists>m' e. handleProfileChange F c (Some arn) cancelled m = (m', Inl e) \<and> bm_service m' = bm_service m \<and> bm_service m \<noteq> None \<and>
    handleOnCredentialsUpdated F Bearer_credentials c m' = m' \<and>
    getCodewhispererService F d m' = (m', Inl AmazonQServicePendingProfileUpdateError)"
proof -
  have inv: "tm_connectionType m = Identity_center" "tm_enableDeveloperProfileSupport m" "bm_service m \<noteq> None"
    using reachable_inv [OF assms(1)] assms(2,3) by (auto simp: service_inv_defs)
  then have "handleSsoConnectionChange F c m = m"
    using assms(4,5) by (simp add: sso_same)
  then have "\<exists>e. handleProfileChange F c (Some arn) cancelled m = (m\<lparr>tm_state := PENDING_Q_PROFILE_UPDATE\<rparr>, Inl e)"
    using assms inv by (auto simp: handleProfileChange_def change_profile_def)
  then show ?thesis
    using inv assms(4,5) by (auto simp: getCodewhispererService_def handleOnCredentialsUpdated_def sso_same)
qed

text \<open>
  The manager for signed requests: the service client for transformations misses the sharing setting unless a streaming client was
  made before, where the ordinary service client has it.
\<close>

lemma iam_atx_misses_setting:
  assumes "bm_streaming m = None" "bm_service m = None" "bm_atxService m = None"
  shows "sc_shareContent (snd (iam_getAtxCodewhispererService m)) = Some False"
    and "sc_shareContent (snd (iam_getCodewhispererService m)) = configured_share (bm_config m)"
  using assms by (simp_all add: iam_getAtxCodewhispererService_def iam_getCodewhispererService_def updateCachedServiceConfig_def iam_client_def Let_def)

end
