(* ===== verification/Spec2Isabelle.thy ===== *)
theory Spec2Isabelle
  imports Supplemental Server_Properties Identity_Service Chat_Listing Chat_Maintainer Agent_Loop Chat_Stream Chat_Errors Service_Manager
begin

text \<open>
  \<^bold>\<open>The AWS language servers: inline suggestions, identity and chat history\<close>

  The program. The repository holds language servers; the largest one
  (\<^verbatim>\<open>src/server/aws-lsp-codewhisperer\<close>) serves inline suggestions, chat and code analysis. This development
  verifies its inline-suggestion server (\<^verbatim>\<open>language-server/inline-completion\<close> with the parts of \<^verbatim>\<open>shared\<close> it uses).
  The editor asks for completions or edits at a cursor; a handler decides whether to ask the service,
  builds a request out of the document and supplemental context, creates a session, filters the
  response and answers with items; later the editor logs what the user did with them, the session is
  closed and its decision is reported. Trackers record cursor positions, recent and rejected edits,
  and counts for telemetry. Paths below are relative to \<^verbatim>\<open>inline-completion\<close>, or to \<^verbatim>\<open>shared\<close> where said.

  \<^bold>\<open>Theories\<close>, in the order of their dependencies.

  \<^item> \<^verbatim>\<open>Prelude\<close>: JavaScript strings (slices, trimming, splitting, searching), maps in insertion order,
    bounded logs and tables filled row by row. The locales \<^verbatim>\<open>ordered_map\<close>, \<^verbatim>\<open>bounded_log\<close> and \<^verbatim>\<open>table_recurrence\<close>
    state what their users rely on and are interpreted on the models of the source.
  \<^item> \<^verbatim>\<open>Protocol\<close>: requests, responses, suggestions, positions and documents (\<^verbatim>\<open>shared/codeWhispererService.ts\<close>,
    \<^verbatim>\<open>shared/models\<close>).
  \<^item> \<^verbatim>\<open>Sessions\<close> (\<^verbatim>\<open>session/sessionManager.ts\<close>): sessions live in a store because the log, the current-session
    field and the handlers share them. Shown: the life cycle of a session, the decisions at its end, the
    decision a report stands for, the invariant of the manager and its lookups.
  \<^item> \<^verbatim>\<open>Merge_Right\<close> (\<^verbatim>\<open>utils/mergeRightUtils.ts\<close>): the overlap is the longest one, truncation removes exactly it,
    references point into the inserted text.
  \<^item> \<^verbatim>\<open>Supplemental\<close> (\<^verbatim>\<open>shared/supplementalContextUtil/supplementalContextUtil.ts\<close>): the documented limits hold of every
    truncated context; trimming keeps the longest admissible prefix.
  \<^item> \<^verbatim>\<open>Diffs\<close> (\<^verbatim>\<open>utils/diffUtils.ts\<close>): character differences are optimal (a table of longest common subsequences
    against its recursive definition), classification of edits, diff contexts and their limits.
  \<^item> \<^verbatim>\<open>Edit_Distance\<close>, \<^verbatim>\<open>Auto_Trigger\<close>, \<^verbatim>\<open>Edit_Trigger\<close> (\<^verbatim>\<open>auto-trigger\<close>, \<^verbatim>\<open>utils/triggerUtils.ts\<close>): the classifiers are linear
    thresholds, the trigger kinds are characterised, the edit distance is the Levenshtein distance.
  \<^item> \<^verbatim>\<open>Edit_History\<close>, \<^verbatim>\<open>Cursor\<close>, \<^verbatim>\<open>Rejected_Edits\<close>, \<^verbatim>\<open>Code_Diff\<close>, \<^verbatim>\<open>Trackers\<close> (\<^verbatim>\<open>tracker\<close>, \<^verbatim>\<open>documentChangedListener.ts\<close>,
    \<^verbatim>\<open>shared/userWrittenCodeTracker.ts\<close>): trackers whose timers capture arrays are modelled with explicit arrays and
    timers that fire in any order. Shown: storage accounting, bounded histories, exact memory of
    rejections, flushes that interleave with new entries, exact event counts.
  \<^item> \<^verbatim>\<open>Languages\<close>, \<^verbatim>\<open>Documents\<close> (\<^verbatim>\<open>shared/languageDetection.ts\<close>, \<^verbatim>\<open>utils/textDocumentUtils.ts\<close>): the language tables and
    lookups, the file context around the cursor and the editor state.
  \<^item> \<^verbatim>\<open>Inline_State\<close> (\<^verbatim>\<open>telemetry/telemetry.ts\<close>, \<^verbatim>\<open>emitUserTriggerDecision\<close> of \<^verbatim>\<open>shared/telemetry/telemetryService.ts\<close>): the state
    the server closes over, as one record, and the telemetry functions as updates of it.
  \<^item> \<^verbatim>\<open>Inline_Handler\<close>, \<^verbatim>\<open>Edit_Handler\<close>, \<^verbatim>\<open>Results_Handler\<close> (\<^verbatim>\<open>handler\<close>): the three handlers. A request handler is cut
    where it awaits the document, the supplemental context and the service; what it reads of its
    surroundings is an environment record, the answer of the service is an argument.
  \<^item> \<^verbatim>\<open>Inline_Server\<close> (\<^verbatim>\<open>codeWhispererServer.ts\<close>): initialisation, configuration and document events, and the step
    relation \<^verbatim>\<open>server_step\<close> of a server with waiting handlers: an event arrives or a waiting handler goes on.
  \<^item> \<^verbatim>\<open>Server_Reports\<close>, \<^verbatim>\<open>Server_Runs\<close>: the two invariants of every run, that reports are disciplined and that
    completion requests exclude each other; every step is shown to keep them.
  \<^item> \<^verbatim>\<open>Responses\<close>, \<^verbatim>\<open>Server_Properties\<close>: what becomes of a response, a failure and logged results, and the
    properties of all runs: no decision is reported twice, one completion request runs at a time.

  The identity server (\<^verbatim>\<open>src/server/aws-lsp-identity/src\<close>) keeps profiles and sso-sessions in the shared configuration
  files:

  \<^item> \<^verbatim>\<open>Shared_Config\<close> (\<^verbatim>\<open>sharedConfig/unmergeConfigFiles.ts\<close>, \<^verbatim>\<open>saveKnownFiles.ts\<close>, \<^verbatim>\<open>types.ts\<close>): merged settings are taken apart
    without loss, secrets go to the credentials file only.
  \<^item> \<^verbatim>\<open>Ini_File\<close> (\<^verbatim>\<open>sharedConfig/saveSharedConfigFile.ts\<close>): a file is rewritten line by line, its regular expressions are
    matching functions. Comments survive, sections are written, written lines are read back.
  \<^item> \<^verbatim>\<open>Profiles\<close> (\<^verbatim>\<open>duckTyper.ts\<close>, \<^verbatim>\<open>language-server/profiles\<close>): loading, saving and updating. An update changes exactly
    what was asked for, is listed afterwards, and leaves sessions that others share alone.
  \<^item> \<^verbatim>\<open>Sso_Tokens\<close> (\<^verbatim>\<open>sso/utils.ts\<close>, \<^verbatim>\<open>sso/cache\<close>, \<^verbatim>\<open>language-server/ssoTokenAutoRefresher.ts\<close>): the cache in files, the refreshing cache
    around it and the refresher with its timers. No expired token is handed out; a watched token is
    refreshed in time, after at most two timers.
  \<^item> \<^verbatim>\<open>Sso_Login\<close> (\<^verbatim>\<open>sso/deviceCode\<close>, \<^verbatim>\<open>sso/authorizationCodePkce\<close>): polling is a partial function that is shown to return; an
    authorization code is only accepted with the state of the login; the page after a failed login.
  \<^item> \<^verbatim>\<open>Identity_Service\<close> (\<^verbatim>\<open>language-server/identityService.ts\<close>, \<^verbatim>\<open>identityServer.ts\<close>): requests for tokens and their invalidation.
    The locale \<^verbatim>\<open>sso_cache\<close> is the contract of a token cache, interpreted on the cache in files.

  The agentic chat keeps its conversations in a database of the workspace (\<^verbatim>\<open>language-server/agenticChat/tools/chatDb\<close>):

  \<^item> \<^verbatim>\<open>Chat_Db\<close>, \<^verbatim>\<open>Chat_Tabs\<close> (\<^verbatim>\<open>chatDb.ts\<close>, \<^verbatim>\<open>util.ts\<close>): tabs, conversations, pinned context, preferences. The locale
    \<^verbatim>\<open>keyed_collection\<close> is the contract of the collection of tabs. Every sequence of operations keeps the database
    well formed, an added message is read back, and the shared array of pinned context leaks between tabs.
  \<^item> \<^verbatim>\<open>Chat_Repair\<close> (\<^verbatim>\<open>fixAndGetHistory\<close>): the history that is sent alternates from a prompt to an answer, tool results match
    tool uses, and the refused requests are characterised.
  \<^item> \<^verbatim>\<open>Chat_Listing\<close>: the list of conversations is complete and ordered; history files of workspaces.
  \<^item> \<^verbatim>\<open>Chat_Maintainer\<close> (\<^verbatim>\<open>chatHistoryMaintainer.ts\<close>): trimming ends and removes the oldest message pairs only, so a
    trimmed history can still be repaired.

  The model behind the agentic chat asks for tools; what runs without asking the user is decided here:

  \<^item> \<^verbatim>\<open>Agent_Permissions\<close> (\<^verbatim>\<open>agenticChat/tools/mcp/agentPermissionManager.ts\<close>): lists of tools with wildcards. A permission
    that was set is the one read, for tools no pattern reaches across the slash; denying a tool of a server keeps every other.
  \<^item> \<^verbatim>\<open>Tool_Paths\<close> (\<^verbatim>\<open>tools/toolShared.ts\<close>, \<^verbatim>\<open>isInWorkspace\<close> of \<^verbatim>\<open>aws-lsp-core/src/util/workspaceUtils.ts\<close>): containment in folders is a prefix
    of path segments; a path used without asking leads, through every symbolic link, into the workspace or an approved folder.
    Following links is a partial function, shown to return when links do not lead back, and not to return for a link below itself.
  \<^item> \<^verbatim>\<open>Shell_Tool\<close> (\<^verbatim>\<open>tools/executeBash.ts\<close>, \<^verbatim>\<open>utils/commandParser.ts\<close>): the commands that run without asking are characterised, with what
    the check does not see; the kept output is the last lines, cut to a bound.
  \<^item> \<^verbatim>\<open>File_Tools\<close> (\<^verbatim>\<open>tools/fsReplace.ts\<close>, \<^verbatim>\<open>tools/fsWrite.ts\<close>): a replacement changes one occurrence each and keeps the line ends.
  \<^item> \<^verbatim>\<open>Chat_Events\<close> (\<^verbatim>\<open>agenticChatEventParser.ts\<close>, \<^verbatim>\<open>processAgenticChatResponse\<close>): the text and the tool uses of a response are the
    fragments of its events, and it succeeds unless an event reports an error or an input is malformed or cut off.
  \<^item> \<^verbatim>\<open>Tool_Uses\<close> (\<^verbatim>\<open>processToolUses\<close> of \<^verbatim>\<open>agenticChatController.ts\<close>, \<^verbatim>\<open>tools/fsRead.ts\<close>, approvals): the checks above composed. A tool runs only if its
    check does not ask or the user approved it; each tool use gets one result, in order.
  \<^item> \<^verbatim>\<open>Chat_Request\<close> (\<^verbatim>\<open>truncateRequest\<close>, \<^verbatim>\<open>tokenLimitsCalculator.ts\<close>): a truncated request fits into the input limit.
  \<^item> \<^verbatim>\<open>Agent_Loop\<close> (\<^verbatim>\<open>runAgentLoop\<close>, \<^verbatim>\<open>runCompaction\<close>): the loop that composes all of these with the stored history. Along every run, whatever the service
    replies, the tools do and the user cancels, each request that is sent has complete turns and answers exactly the tools that
    were asked for; incomplete inputs end the loop after the third retry; a compaction replaces the history.
  \<^item> \<^verbatim>\<open>Chat_Stream\<close> (\<^verbatim>\<open>agenticChatResultStream.ts\<close>): blocks joined into the messages the client sees; a streamed block is kept as it was shown last.
  \<^item> \<^verbatim>\<open>Chat_Errors\<close> (\<^verbatim>\<open>agenticChat/errors.ts\<close>, \<^verbatim>\<open>agenticChat/retry\<close>): which errors are retried and how the last one is reported; the two agree on
    requests that were aborted or are too long, and the messages of the file tools are recognised again.
  \<^item> \<^verbatim>\<open>Service_Manager\<close> (\<^verbatim>\<open>shared/amazonQServiceManager\<close>: \<^verbatim>\<open>configurationUtils.ts\<close>, the base class, the token and the IAM manager): the base class is a
    record and its operations work on every extension of it. The clients are a function of the connection, the selected profile and
    the configuration, in every run (\<^verbatim>\<open>handed_out_service\<close>), and selecting a profile takes effect from any state (\<^verbatim>\<open>selected_profile_served\<close>).

  \<^bold>\<open>Conventions.\<close> Strings are lists of characters of one code unit; \<^verbatim>\<open>undefined\<close> is \<^verbatim>\<open>None\<close> and truthiness is
  written out; numbers are \<^verbatim>\<open>int\<close>, \<^verbatim>\<open>nat\<close> or \<^verbatim>\<open>real\<close> as the source uses them, with infinities and NaN as values
  where a quotient or a missing coefficient yields them. Time and generated ids are arguments. Raised
  errors are values. Third-party code is a parameter: the patch library, the edit distance package,
  the offsets of a text document (with the law that positions and offsets agree), the coefficient
  tables, the priority queue of the history maintenance (with the law that the greatest item leaves it). Loops are structural recursion, or recursion with a termination proof (removing hunk
  headers, evicting snapshots, rewriting the sections of a file); the polling loop of the device login
  and the following of symbolic links, which need not end, are partial functions. No model uses fuel; the counter of the trimming loop is the
  bound on iterations the source has.

  \<^bold>\<open>Atomicity.\<close> Between two awaits a handler runs without interruption, as in JavaScript. The awaited report of
  a decision is one step together with the mark that follows it; the one report that is not awaited
  marks its session in a step of its own. An edit request computes its recent-edit context in the step
  that admits it.

  \<^bold>\<open>Not modelled.\<close> Within the inline server: logging, the timers that periodically emit counters, the
  keyword tables of \<^verbatim>\<open>auto-trigger/languageDetector.ts\<close> that nothing calls, the diagnostics passed through to
  telemetry, and the sending of telemetry. The cross-file and unit-test context providers are outcomes
  of a fetch. Outside it: the service clients (network), the cards, buttons and streamed updates the agentic chat shows, the tools that
  walk and search directories, the process of a shell command and the paths of Windows, the listing of profiles and the manager of the transformation service, and the core utilities, which remain to be done where they compute; the .NET
  transformation, security scans, workspace upload and the adapters of third-party language services,
  which are orchestration of remote jobs and files; generated parsers and the browser user interface.
\<close>

end
